(* ===== verification/Prelude.thy ===== *)
theory Prelude
  imports
    Complex_Main
    "HOL-Library.AList"
    "HOL-Library.Multiset"
    "HOL-Library.Product_Lexorder"
    "HOL-Library.List_Lexorder"
    "HOL-Library.Char_ord"
    "HOL-Library.Option_ord"
begin

text \<open>
  Shared vocabulary of the development: Python floats with their special values,
  insertion-ordered dictionaries, dynamically typed values, exceptions as values, and the
  generic lemmas on lists and dictionaries that the component theories use.

  A Python \<open>float\<close> is a \<open>flt\<close>: a real number, one of the two infinities, or NaN.  The special
  values follow IEEE 754 (every comparison with NaN is false, infinity times zero is NaN, and so
  on); arithmetic on finite values is exact, so rounding and overflow to infinity are not part
  of the model.  Code that never meets a special value uses \<open>real\<close> directly.
\<close>

named_theorems flt_simps \<open>evaluation of floating-point operations on their constructors\<close>
named_theorems dict_simps \<open>lookups and keys of insertion-ordered dictionaries\<close>

section \<open>Floating-point values\<close>

datatype flt = Fin real | PInf | NInf | NaN

fun inf_of :: "real \<Rightarrow> flt" where
  "inf_of s = (if 0 < s then PInf else if s < 0 then NInf else NaN)"

instantiation flt :: "{zero, one, uminus, abs, ord}"
begin

definition zero_flt :: flt where "0 = Fin 0"

definition one_flt :: flt where "1 = Fin 1"

fun uminus_flt :: "flt \<Rightarrow> flt" where
  "- Fin a = Fin (- a)"
| "- PInf = NInf"
| "- NInf = PInf"
| "- NaN = NaN"

fun abs_flt :: "flt \<Rightarrow> flt" where
  "\<bar>Fin a\<bar> = Fin \<bar>a\<bar>"
| "\<bar>PInf\<bar> = PInf"
| "\<bar>NInf\<bar> = PInf"
| "\<bar>NaN\<bar> = NaN"

fun less_eq_flt :: "flt \<Rightarrow> flt \<Rightarrow> bool" where
  "Fin a \<le> Fin b \<longleftrightarrow> a \<le> b"
| "NaN \<le> _ \<longleftrightarrow> False"
| "_ \<le> NaN \<longleftrightarrow> False"
| "NInf \<le> _ \<longleftrightarrow> True"
| "_ \<le> PInf \<longleftrightarrow> True"
| "PInf \<le> _ \<longleftrightarrow> False"
| "_ \<le> NInf \<longleftrightarrow> False"

fun less_flt :: "flt \<Rightarrow> flt \<Rightarrow> bool" where
  "Fin a < Fin b \<longleftrightarrow> a < b"
| "NaN < _ \<longleftrightarrow> False"
| "_ < NaN \<longleftrightarrow> False"
| "NInf < NInf \<longleftrightarrow> False"
| "NInf < _ \<longleftrightarrow> True"
| "PInf < _ \<longleftrightarrow> False"
| "_ < PInf \<longleftrightarrow> True"
| "_ < NInf \<longleftrightarrow> False"

instance ..

end

instantiation flt :: comm_monoid_add
begin

fun plus_flt :: "flt \<Rightarrow> flt \<Rightarrow> flt" where
  "Fin a + Fin b = Fin (a + b)"
| "NaN + _ = NaN"
| "_ + NaN = NaN"
| "PInf + NInf = NaN"
| "NInf + PInf = NaN"
| "PInf + _ = PInf"
| "_ + PInf = PInf"
| "NInf + _ = NInf"
| "_ + NInf = NInf"

instance
proof
  fix x y z :: flt
  show "0 + x = x"
    by (cases x) (simp_all add: zero_flt_def)
  show "x + y = y + x"
    by (cases x; cases y) simp_all
  show "x + y + z = x + (y + z)"
    by (cases x; cases y; cases z) simp_all
qed

end

instantiation flt :: minus
begin

definition minus_flt :: "flt \<Rightarrow> flt \<Rightarrow> flt" where "a - b = a + (- b)" for a b :: flt

instance ..

end

instantiation flt :: times
begin

fun times_flt :: "flt \<Rightarrow> flt \<Rightarrow> flt" where
  "Fin a * Fin b = Fin (a * b)"
| "NaN * _ = NaN"
| "_ * NaN = NaN"
| "Fin a * PInf = inf_of a"
| "Fin a * NInf = inf_of (- a)"
| "PInf * Fin b = inf_of b"
| "NInf * Fin b = inf_of (- b)"
| "PInf * PInf = PInf"
| "NInf * NInf = PInf"
| "PInf * NInf = NInf"
| "NInf * PInf = NInf"

instance ..

end

instance flt :: numeral ..

text \<open>
  Division by a non-zero number follows IEEE 754.  Python raises \<open>ZeroDivisionError\<close> for a zero
  divisor; the definitions that divide test the divisor first, as the code does.
\<close>

fun fdiv :: "flt \<Rightarrow> flt \<Rightarrow> flt" where
  "fdiv (Fin a) (Fin b) = (if b = 0 then inf_of a else Fin (a / b))"
| "fdiv NaN _ = NaN"
| "fdiv _ NaN = NaN"
| "fdiv (Fin _) _ = Fin 0"
| "fdiv PInf (Fin b) = (if b < 0 then NInf else PInf)"
| "fdiv NInf (Fin b) = (if b < 0 then PInf else NInf)"
| "fdiv _ _ = NaN"

definition is_fin :: "flt \<Rightarrow> bool" where
  "is_fin x \<longleftrightarrow> (case x of Fin _ \<Rightarrow> True | _ \<Rightarrow> False)"

text \<open>Python's \<open>max(a, b)\<close> and \<open>min(a, b)\<close>: the first argument wins unless the second compares
  strictly beyond it, which decides what happens to NaN.\<close>

definition py_max :: "flt \<Rightarrow> flt \<Rightarrow> flt" where
  "py_max a b = (if a < b then b else a)"

definition py_min :: "flt \<Rightarrow> flt \<Rightarrow> flt" where
  "py_min a b = (if b < a then b else a)"

text \<open>Truthiness of a float: every value but zero is true, NaN included.\<close>

definition flt_truthy :: "flt \<Rightarrow> bool" where
  "flt_truthy x \<longleftrightarrow> x \<noteq> Fin 0"

lemma numeral_flt: "(numeral n :: flt) = Fin (numeral n)"
proof (induction n)
  case One
  show ?case by (simp add: one_flt_def)
next
  case (Bit0 n)
  then show ?case by (simp only: numeral.simps plus_flt.simps)
next
  case (Bit1 n)
  then show ?case by (simp only: numeral.simps one_flt_def plus_flt.simps)
qed

lemmas flt_consts = zero_flt_def one_flt_def numeral_flt minus_flt_def

declare flt_consts [flt_simps] is_fin_def [flt_simps] py_max_def [flt_simps]
  py_min_def [flt_simps] flt_truthy_def [flt_simps]

lemma is_fin_iff: "is_fin x \<longleftrightarrow> (\<exists>r. x = Fin r)"
  by (cases x) (simp_all add: is_fin_def)

lemma less_flt_irrefl [simp]: "\<not> (x::flt) < x"
  by (cases x) simp_all

lemma less_imp_le_flt: "(x::flt) < y \<Longrightarrow> x \<le> y"
  by (cases x; cases y) simp_all

lemma le_less_flt_trans: "(x::flt) \<le> y \<Longrightarrow> y < z \<Longrightarrow> x < z"
  by (cases x; cases y; cases z) simp_all

lemma abs_le_FinD: "\<bar>x\<bar> \<le> Fin r \<Longrightarrow> \<exists>a. x = Fin a \<and> \<bar>a\<bar> \<le> r"
  by (cases x) simp_all

lemma fin_between: "Fin a \<le> x \<Longrightarrow> x \<le> Fin b \<Longrightarrow> \<exists>r. x = Fin r \<and> a \<le> r \<and> r \<le> b"
  by (cases x) simp_all

lemma fin_le_between: "Fin a < x \<Longrightarrow> x \<le> Fin b \<Longrightarrow> \<exists>r. x = Fin r \<and> a < r \<and> r \<le> b"
  by (cases x) simp_all

lemma sum_list_Fin: "sum_list (map (\<lambda>x. Fin (f x)) xs) = Fin (sum_list (map f xs))"
  by (induction xs) (simp_all add: zero_flt_def)

lemma sum_list_is_fin: "(\<forall>x \<in> set xs. is_fin x) \<Longrightarrow> is_fin (sum_list xs)"
  by (induction xs) (auto simp: is_fin_iff zero_flt_def)

lemma plus_eq_FinD: "x + y = Fin r \<Longrightarrow> \<exists>a b. x = Fin a \<and> y = Fin b \<and> r = a + b"
  by (cases x; cases y) simp_all

text \<open>The number of a finite value, for sorting values that are known to be finite.\<close>

fun flt_val :: "flt \<Rightarrow> real" where
  "flt_val (Fin x) = x"
| "flt_val _ = 0"

section \<open>Rounding\<close>

text \<open>Python's \<open>round\<close> rounds halves to the even neighbour, with or without a digit count.\<close>

definition round_half_even :: "real \<Rightarrow> int" where
  "round_half_even x =
     (let n = \<lfloor>x\<rfloor>; d = x - of_int n
      in if d < 1 / 2 then n
         else if 1 / 2 < d then n + 1
         else if even n then n else n + 1)"

definition round_digits :: "nat \<Rightarrow> real \<Rightarrow> real" where
  "round_digits k x = of_int (round_half_even (x * 10 ^ k)) / 10 ^ k"

fun flt_round_digits :: "nat \<Rightarrow> flt \<Rightarrow> flt" where
  "flt_round_digits k (Fin x) = Fin (round_digits k x)"
| "flt_round_digits k x = x"

lemma round_half_even_near: "\<bar>of_int (round_half_even x) - x\<bar> \<le> 1 / 2"
proof -
  have f: "of_int \<lfloor>x\<rfloor> \<le> x" "x < of_int \<lfloor>x\<rfloor> + 1"
    by (simp_all)
  show ?thesis
    using f unfolding round_half_even_def Let_def by (auto split: if_splits)
qed

lemma round_half_even_of_int [simp]: "round_half_even (of_int n) = n"
  by (simp add: round_half_even_def)

lemma round_half_even_mono: "x \<le> y \<Longrightarrow> round_half_even x \<le> round_half_even y"
proof -
  assume xy: "x \<le> y"
  then have "\<lfloor>x\<rfloor> \<le> \<lfloor>y\<rfloor>" by (rule floor_mono)
  then consider "\<lfloor>x\<rfloor> = \<lfloor>y\<rfloor>" | "\<lfloor>x\<rfloor> + 1 \<le> \<lfloor>y\<rfloor>" by linarith
  then show ?thesis
  proof cases
    case 1
    with xy show ?thesis unfolding round_half_even_def Let_def by auto
  next
    case 2
    then show ?thesis unfolding round_half_even_def Let_def by auto
  qed
qed

section \<open>Insertion-ordered dictionaries\<close>

text \<open>
  A Python \<open>dict\<close> keeps insertion order: assigning to an existing key keeps its place, a new key
  goes to the end.  It is an association list with distinct keys, looked up with \<open>map_of\<close>.
\<close>

type_synonym ('k, 'v) dict = "('k \<times> 'v) list"

abbreviation dict_set :: "'k \<Rightarrow> 'v \<Rightarrow> ('k, 'v) dict \<Rightarrow> ('k, 'v) dict" where
  "dict_set \<equiv> AList.update"

abbreviation dict_del :: "'k \<Rightarrow> ('k, 'v) dict \<Rightarrow> ('k, 'v) dict" where
  "dict_del \<equiv> AList.delete"

abbreviation keys :: "('k, 'v) dict \<Rightarrow> 'k list" where
  "keys d \<equiv> map fst d"

abbreviation vals :: "('k, 'v) dict \<Rightarrow> 'v list" where
  "vals d \<equiv> map snd d"

abbreviation dict_get :: "'v \<Rightarrow> ('k, 'v) dict \<Rightarrow> 'k \<Rightarrow> 'v" where
  "dict_get dflt d k \<equiv> (case map_of d k of None \<Rightarrow> dflt | Some v \<Rightarrow> v)"

lemma map_of_dict_set [dict_simps]: "map_of (dict_set k v d) = (map_of d)(k \<mapsto> v)"
  by (rule update_conv')

lemma map_of_dict_del [dict_simps]: "map_of (dict_del k d) = (map_of d)(k := None)"
  by (rule delete_conv')

lemma distinct_keys_dict_set [intro, dict_simps]:
  "distinct (keys d) \<Longrightarrow> distinct (keys (dict_set k v d))"
  by (rule distinct_update)

lemma keys_dict_set:
  "keys (dict_set k v d) = (if k \<in> set (keys d) then keys d else keys d @ [k])"
  by (induction d) auto

lemma dict_set_new: "k \<notin> set (keys d) \<Longrightarrow> dict_set k v d = d @ [(k, v)]"
  by (induction d) auto

lemma dict_set_same: "map_of d k = Some v \<Longrightarrow> dict_set k v d = d"
  by (induction d) (auto split: if_splits)

lemma set_dict_set: "distinct (keys d) \<Longrightarrow>
  set (dict_set k v d) = {p \<in> set d. fst p \<noteq> k} \<union> {(k, v)}"
proof (induction d)
  case Nil
  then show ?case by simp
next
  case (Cons p d)
  then show ?case by (cases p) (auto simp: rev_image_eqI)
qed

lemma length_dict_set:
  "length (dict_set k v d) = (if k \<in> set (keys d) then length d else Suc (length d))"
  by (induction d) auto

lemma map_of_in_set: "distinct (keys d) \<Longrightarrow> (k, v) \<in> set d \<longleftrightarrow> map_of d k = Some v"
  by (auto simp: map_of_eq_Some_iff)

text \<open>A dict comprehension \<open>{f(x): g(x) for x in xs}\<close>; a repeated key keeps its place and the last value.\<close>

definition dict_of :: "('a \<Rightarrow> 'k) \<Rightarrow> ('a \<Rightarrow> 'v) \<Rightarrow> 'a list \<Rightarrow> ('k, 'v) dict" where
  "dict_of f g xs = fold (\<lambda>x. dict_set (f x) (g x)) xs []"

lemma dict_of_Nil [simp]: "dict_of f g [] = []"
  by (simp add: dict_of_def)

lemma dict_of_snoc: "dict_of f g (xs @ [x]) = dict_set (f x) (g x) (dict_of f g xs)"
  by (simp add: dict_of_def)

lemma keys_dict_of [simp]: "set (keys (dict_of f g xs)) = f ` set xs"
  by (induction xs rule: rev_induct) (simp_all add: dict_of_snoc keys_dict_set del: set_map, auto)

lemma distinct_dict_of [simp]: "distinct (keys (dict_of f g xs))"
  by (induction xs rule: rev_induct) (simp_all add: dict_of_snoc dict_simps)

lemma dict_of_distinct: "distinct (map f xs) \<Longrightarrow> dict_of f g xs = map (\<lambda>x. (f x, g x)) xs"
proof (induction xs rule: rev_induct)
  case (snoc x xs)
  then have "f x \<notin> set (keys (map (\<lambda>x. (f x, g x)) xs))" by (auto simp: image_image)
  with snoc show ?case by (simp add: dict_of_snoc dict_set_new del: set_map)
qed simp

lemma map_of_dict_of: "map_of (dict_of f g xs) k = map_option g (find (\<lambda>x. f x = k) (rev xs))"
  by (induction xs rule: rev_induct) (auto simp: dict_of_snoc dict_simps)

text \<open>Grouping in a \<open>defaultdict(list)\<close>: the groups in order of first appearance, each in order of arrival.\<close>

definition group_by :: "('a \<Rightarrow> 'k) \<Rightarrow> 'a list \<Rightarrow> ('k, 'a list) dict" where
  "group_by f xs = fold (\<lambda>x d. dict_set (f x) (dict_get [] d (f x) @ [x]) d) xs []"

lemma group_by_snoc:
  "group_by f (xs @ [x]) = dict_set (f x) (dict_get [] (group_by f xs) (f x) @ [x]) (group_by f xs)"
  by (simp add: group_by_def)

lemma distinct_group_by [simp]: "distinct (keys (group_by f xs))"
proof (induction xs rule: rev_induct)
  case Nil
  then show ?case by (simp add: group_by_def)
next
  case (snoc x xs)
  then show ?case by (simp add: group_by_snoc dict_simps)
qed

lemma map_of_group_by:
  "map_of (group_by f xs) k =
     (if \<exists>x \<in> set xs. f x = k then Some (filter (\<lambda>x. f x = k) xs) else None)"
proof (induction xs rule: rev_induct)
  case Nil
  then show ?case by (simp add: group_by_def)
next
  case (snoc x xs)
  show ?case
  proof (cases "f x = k")
    case True
    have "filter (\<lambda>x. f x = k) xs = []" if "\<not> (\<exists>x \<in> set xs. f x = k)"
      using that by (auto simp: filter_empty_conv)
    then show ?thesis using snoc True by (auto simp: group_by_snoc dict_simps)
  next
    case False
    then show ?thesis using snoc by (auto simp: group_by_snoc dict_simps)
  qed
qed

text \<open>A dictionary whose values are filed under a key of their own.\<close>

definition filed :: "('v \<Rightarrow> 'k) \<Rightarrow> ('k, 'v) dict \<Rightarrow> bool" where
  "filed f d \<longleftrightarrow> distinct (keys d) \<and> (\<forall>(k, v) \<in> set d. f v = k)"

lemma filed_Nil [simp]: "filed f []"
  by (simp add: filed_def)

lemma filed_set [intro]: "filed f d \<Longrightarrow> f v = k \<Longrightarrow> filed f (dict_set k v d)"
  by (auto simp: filed_def dict_simps set_dict_set)

lemma filed_del [intro]:
  assumes "filed f d"
  shows "filed f (dict_del k d)"
proof -
  have "set (dict_del k d) \<subseteq> set d" by (induction d) auto
  then show ?thesis using assms by (auto simp: filed_def intro: distinct_delete)
qed

lemma filed_distinct: "filed f d \<Longrightarrow> distinct (keys d)"
  by (simp add: filed_def)

lemma filed_lookup: "filed f d \<Longrightarrow> map_of d k = Some v \<Longrightarrow> f v = k"
  by (auto simp: filed_def dest: map_of_SomeD)

lemma filed_map: "filed f d \<Longrightarrow> map f (vals d) = keys d"
  by (auto simp: filed_def)

lemma filed_vals:
  assumes d: "filed f d"
  shows "v \<in> set (vals d) \<longleftrightarrow> map_of d (f v) = Some v"
proof
  assume "v \<in> set (vals d)"
  then obtain k where "(k, v) \<in> set d" by auto
  then have "map_of d k = Some v" using d by (simp add: filed_def)
  then show "map_of d (f v) = Some v" using filed_lookup [OF d] by blast
next
  assume "map_of d (f v) = Some v"
  then show "v \<in> set (vals d)" using map_of_SomeD by force
qed

section \<open>Stable sorting\<close>

text \<open>
  Python's \<open>sorted\<close> and \<open>list.sort\<close> are stable, as \<open>sort_key\<close> is.  With \<open>reverse=True\<close> equal
  keys keep their order as well, which is sorting by the reversed order of the keys, here on the
  negated integer or real key.
\<close>

lemma sort_key_idem: "sort_key f (sort_key f xs) = sort_key f xs"
  by (rule sort_key_id_if_sorted) simp

lemma sort_key_stable_filter: "filter (\<lambda>x. f x = k) (sort_key f xs) = filter (\<lambda>x. f x = k) xs"
  by (rule sort_key_stable)

lemma sort_key_inj_mset_eq:
  assumes inj: "inj_on f (set xs)" and eq: "mset xs = mset ys"
  shows "sort_key f xs = sort_key f ys"
proof (rule properties_for_sort_key)
  show "mset (sort_key f ys) = mset xs" by (simp add: eq)
next
  have sets: "set ys = set xs" using eq by (metis mset_eq_setD)
  fix k assume "k \<in> set (sort_key f ys)"
  then have k: "k \<in> set xs" by (simp add: sets)
  have only: "filter (\<lambda>x. f k = f x) zs = replicate (count (mset zs) k) k"
    if "set zs = set xs" for zs
  proof -
    have "filter (\<lambda>x. f k = f x) zs = filter (HOL.eq k) zs"
      using inj k that by (intro filter_cong) (auto simp: inj_on_def)
    then show ?thesis by (simp add: replicate_count_mset_eq_filter_eq)
  qed
  show "filter (\<lambda>x. f k = f x) (sort_key f ys) = filter (\<lambda>x. f k = f x) xs"
    using sets only [of xs] only [of "sort_key f ys"] eq by simp
next
  show "sorted (map f (sort_key f ys))" by simp
qed

text \<open>\<open>max(xs, key=f)\<close> of a non-empty list \<open>x # xs\<close> is its first maximal element.\<close>

definition max_by :: "('a \<Rightarrow> 'k :: linorder) \<Rightarrow> 'a \<Rightarrow> 'a list \<Rightarrow> 'a" where
  "max_by f x xs = foldl (\<lambda>b y. if f b < f y then y else b) x xs"

lemma max_by_in: "max_by f x xs \<in> set (x # xs)"
  unfolding max_by_def by (induction xs rule: rev_induct) auto

lemma max_by_ge: "y \<in> set (x # xs) \<Longrightarrow> f y \<le> f (max_by f x xs)"
  unfolding max_by_def by (induction xs rule: rev_induct) (auto simp: not_less)

lemma max_by_unique:
  "y \<in> set (x # xs) \<Longrightarrow> (\<And>z. z \<in> set (x # xs) \<Longrightarrow> z \<noteq> y \<Longrightarrow> f z < f y) \<Longrightarrow> max_by f x xs = y"
  using max_by_in [of f x xs] max_by_ge [of y x xs f] by fastforce

section \<open>Generic list lemmas\<close>

lemma distinct_filter_map: "distinct (map f xs) \<Longrightarrow> distinct (map f (filter P xs))"
  by (induction xs) auto

lemma last_in_set_append: "xs \<noteq> [] \<Longrightarrow> last xs \<in> set xs"
  by simp

lemma fold_cong_state:
  "(\<And>x s. x \<in> set xs \<Longrightarrow> f x s = g x s) \<Longrightarrow> fold f xs s = fold g xs s"
  by (induction xs arbitrary: s) auto

lemma fold_invariant_list:
  assumes "P s" and "\<And>x s. x \<in> set xs \<Longrightarrow> P s \<Longrightarrow> P (f x s)"
  shows "P (fold f xs s)"
  using assms by (induction xs arbitrary: s) auto

end
