(* ===== verification/PyTime.thy ===== *)
theory PyTime
  imports Prelude
begin

text \<open>
  Exceptions as values, the calendar, and \<open>core/time.py\<close>.

  A timezone-aware UTC \<open>datetime\<close> is the number of microseconds since 0001-01-01T00:00:00Z and a
  \<open>date\<close> is its proleptic Gregorian ordinal (1 is 0001-01-01), as in Python's \<open>datetime\<close> module;
  a \<open>timedelta\<close> is a number of microseconds.  The civil fields are computed from those numbers.
  Python's limits (years 1 to 9999) are the predicate \<open>valid_dt\<close>, assumed only where text
  renderings must be unambiguous.
\<close>

section \<open>Exceptions\<close>

datatype order_problem = QtyNaN | QtyNonPositive | QtyAbsurd flt | LimitFar

datatype limit_breach =
    PositionBreach string flt
  | GrossBreach flt
  | NetBreach flt

datatype halt_reason = HaltEngaged string | HaltDrawdown | HaltDailyLoss flt

datatype pyerr =
    ValueError
  | TypeError
  | KeyError
  | IndexError
  | ZeroDivisionError
  | OverflowError
  | RuntimeError
  | IntegrityError
  | DataQualityError
  | BrokerError string
  | OrderSanityError order_problem
  | RiskLimitBreach limit_breach
  | KillSwitchEngaged halt_reason
  | LLMError
  | LLMBudgetExceeded
  | ParseError
  | DigitalOceanError string
  | RecursionError

type_synonym 'a res = "pyerr + 'a"

fun is_ok :: "'a res \<Rightarrow> bool" where
  "is_ok (Inl _) \<longleftrightarrow> False"
| "is_ok (Inr _) \<longleftrightarrow> True"

text \<open>\<open>int(x)\<close> truncates; it raises on NaN and on an infinity.\<close>

fun py_int :: "flt \<Rightarrow> int res" where
  "py_int (Fin x) = Inr (if 0 \<le> x then \<lfloor>x\<rfloor> else \<lceil>x\<rceil>)"
| "py_int NaN = Inl ValueError"
| "py_int PInf = Inl OverflowError"
| "py_int NInf = Inl OverflowError"

section \<open>Fallible loops\<close>

text \<open>A comprehension whose element may raise: the first exception wins.\<close>

fun map_res :: "('a \<Rightarrow> 'b res) \<Rightarrow> 'a list \<Rightarrow> 'b list res" where
  "map_res f [] = Inr []"
| "map_res f (x # xs) =
     (case f x of Inl e \<Rightarrow> Inl e
      | Inr y \<Rightarrow> (case map_res f xs of Inl e \<Rightarrow> Inl e | Inr ys \<Rightarrow> Inr (y # ys)))"

lemma map_res_Inr_map: "(\<And>x. x \<in> set xs \<Longrightarrow> f x = Inr (g x)) \<Longrightarrow> map_res f xs = Inr (map g xs)"
  by (induction xs) simp_all

lemma map_res_InrD:
  "map_res f xs = Inr ys \<Longrightarrow> length ys = length xs \<and> (\<forall>i < length xs. f (xs ! i) = Inr (ys ! i))"
proof (induction xs arbitrary: ys)
  case (Cons x xs)
  then obtain y zs where "f x = Inr y" "map_res f xs = Inr zs" "ys = y # zs"
    by (auto split: sum.splits)
  with Cons.IH show ?case by (auto simp: nth_Cons split: nat.split)
qed simp

lemma map_res_cong [fundef_cong]:
  "xs = ys \<Longrightarrow> (\<And>x. x \<in> set ys \<Longrightarrow> f x = g x) \<Longrightarrow> map_res f xs = map_res g ys"
proof -
  assume "xs = ys" "\<And>x. x \<in> set ys \<Longrightarrow> f x = g x"
  then show ?thesis by (induction ys arbitrary: xs) (auto split: sum.split)
qed

text \<open>A loop over a list whose body may raise.\<close>

fun fold_res :: "('a \<Rightarrow> 'b \<Rightarrow> 'b res) \<Rightarrow> 'a list \<Rightarrow> 'b \<Rightarrow> 'b res" where
  "fold_res f [] b = Inr b"
| "fold_res f (x # xs) b = (case f x b of Inl e \<Rightarrow> Inl e | Inr b' \<Rightarrow> fold_res f xs b')"

text \<open>A comprehension with a filter: an element that gives \<open>None\<close> is left out.\<close>

fun collect_res :: "('a \<Rightarrow> 'b option res) \<Rightarrow> 'a list \<Rightarrow> 'b list res" where
  "collect_res f [] = Inr []"
| "collect_res f (x # xs) =
     (case f x of Inl e \<Rightarrow> Inl e
      | Inr y \<Rightarrow> (case collect_res f xs of Inl e \<Rightarrow> Inl e
                 | Inr ys \<Rightarrow> Inr (case y of None \<Rightarrow> ys | Some z \<Rightarrow> z # ys)))"

lemma collect_res_set:
  "collect_res f xs = Inr ys \<Longrightarrow> set ys = {y. \<exists>x \<in> set xs. f x = Inr (Some y)}"
proof (induction xs arbitrary: ys)
  case (Cons x xs)
  obtain y zs where y: "f x = Inr y" and zs: "collect_res f xs = Inr zs"
    using Cons.prems by (auto split: sum.splits)
  have "ys = (case y of None \<Rightarrow> zs | Some z \<Rightarrow> z # zs)" using Cons.prems y zs by simp
  with Cons.IH [OF zs] y show ?case by (cases y) auto
qed simp

lemma collect_res_in:
  "collect_res f xs = Inr ys \<Longrightarrow> y \<in> set ys \<Longrightarrow> \<exists>x \<in> set xs. f x = Inr (Some y)"
  by (induction xs arbitrary: ys) (auto split: sum.splits option.splits)

lemma collect_res_ok: "collect_res f xs = Inr ys \<Longrightarrow> x \<in> set xs \<Longrightarrow> \<exists>o1. f x = Inr o1"
  by (induction xs arbitrary: ys) (auto split: sum.splits option.splits)

lemma collect_res_mem:
  "collect_res f xs = Inr ys \<Longrightarrow> x \<in> set xs \<Longrightarrow> f x = Inr (Some y) \<Longrightarrow> y \<in> set ys"
  by (induction xs arbitrary: ys) (auto split: sum.splits option.splits)

lemma collect_res_total:
  "\<forall>x \<in> set xs. \<exists>y. f x = Inr y \<Longrightarrow> \<exists>ys. collect_res f xs = Inr ys"
  by (induction xs) auto

lemma map_of_collect_res:
  assumes "distinct (keys d)" "collect_res f d = Inr ps"
    and "\<And>k x k' p. (k, x) \<in> set d \<Longrightarrow> f (k, x) = Inr (Some (k', p)) \<Longrightarrow> k' = k"
  shows "map_of ps k =
    (case map_of d k of None \<Rightarrow> None | Some x \<Rightarrow>
       (case f (k, x) of Inr (Some (_, p)) \<Rightarrow> Some p | _ \<Rightarrow> None))"
  using assms
proof (induction d arbitrary: ps)
  case (Cons kx d)
  obtain j x where kx: "kx = (j, x)" by (cases kx)
  obtain y qs where y: "f (j, x) = Inr y" and qs: "collect_res f d = Inr qs"
    and ps: "ps = (case y of None \<Rightarrow> qs | Some z \<Rightarrow> z # qs)"
    using Cons.prems(2) kx by (auto split: sum.splits)
  have IH: "map_of qs k = (case map_of d k of None \<Rightarrow> None | Some x \<Rightarrow>
       (case f (k, x) of Inr (Some (_, p)) \<Rightarrow> Some p | _ \<Rightarrow> None))"
    using Cons.prems(1,3) by (intro Cons.IH [OF _ qs]) auto
  show ?case
  proof (cases "k = j")
    case True
    then have "map_of d k = None" using Cons.prems(1) kx by (simp add: map_of_eq_None_iff)
    then have "map_of qs k = None" using IH by simp
    then show ?thesis
      using True y ps kx Cons.prems(3) [of j x]
      by (cases y) (auto simp: kx split: prod.splits)
  next
    case False
    then show ?thesis
      using IH y ps kx Cons.prems(3) [of j x]
      by (cases y) (auto simp: kx split: prod.splits)
  qed
qed simp

section \<open>Civil calendar\<close>

type_synonym datetime = int
type_synonym pydate = int
type_synonym timedelta = int

abbreviation us_second :: int where "us_second \<equiv> 1000000"
abbreviation us_minute :: int where "us_minute \<equiv> 60000000"
abbreviation us_hour :: int where "us_hour \<equiv> 3600000000"
abbreviation us_day :: int where "us_day \<equiv> 86400000000"

definition days :: "int \<Rightarrow> timedelta" where "days n = n * us_day"
definition hours :: "int \<Rightarrow> timedelta" where "hours n = n * us_hour"
definition minutes :: "int \<Rightarrow> timedelta" where "minutes n = n * us_minute"

text \<open>\<open>timedelta.days\<close> is the floor of the length in days, for negative lengths too.\<close>

definition td_days :: "timedelta \<Rightarrow> int" where "td_days d = d div us_day"

definition is_leap :: "int \<Rightarrow> bool" where
  "is_leap y \<longleftrightarrow> 4 dvd y \<and> (\<not> 100 dvd y \<or> 400 dvd y)"

definition month_lengths :: "bool \<Rightarrow> int list" where
  "month_lengths leap = [31, if leap then 29 else 28, 31, 30, 31, 30, 31, 31, 30, 31, 30, 31]"

definition days_before_year :: "int \<Rightarrow> int" where
  "days_before_year y = (y - 1) * 365 + (y - 1) div 4 - (y - 1) div 100 + (y - 1) div 400"

definition days_before_month :: "bool \<Rightarrow> int \<Rightarrow> int" where
  "days_before_month leap m = sum_list (take (nat (m - 1)) (month_lengths leap))"

fun ymd2ord :: "int \<times> int \<times> int \<Rightarrow> pydate" where
  "ymd2ord (y, m, d) = days_before_year y + days_before_month (is_leap y) m + d"

fun find_month :: "int list \<Rightarrow> int \<Rightarrow> int \<Rightarrow> int \<times> int" where
  "find_month [] m d = (m, d + 1)"
| "find_month [l] m d = (m, d + 1)"
| "find_month (l # ls) m d = (if d < l then (m, d + 1) else find_month ls (m + 1) (d - l))"

definition ord2ymd :: "pydate \<Rightarrow> int \<times> int \<times> int" where
  "ord2ymd n =
     (let n0 = n - 1;
          n400 = n0 div 146097; r400 = n0 mod 146097;
          n100 = r400 div 36524; r100 = r400 mod 36524;
          n4 = r100 div 1461; r4 = r100 mod 1461;
          n1 = r4 div 365; r1 = r4 mod 365;
          y = n400 * 400 + n100 * 100 + n4 * 4 + n1 + 1
      in if n1 = 4 \<or> n100 = 4 then (y - 1, 12, 31)
         else let (m, d) = find_month (month_lengths (is_leap y)) 1 r1 in (y, m, d))"

definition dt_date :: "datetime \<Rightarrow> pydate" where "dt_date t = t div us_day + 1"
definition dt_tod :: "datetime \<Rightarrow> int" where "dt_tod t = t mod us_day"
definition dt_year :: "datetime \<Rightarrow> int" where "dt_year t = fst (ord2ymd (dt_date t))"
definition dt_month :: "datetime \<Rightarrow> int" where "dt_month t = fst (snd (ord2ymd (dt_date t)))"

text \<open>\<open>date.weekday()\<close>: Monday is 0; ordinal 1 (0001-01-01) is a Monday.\<close>

definition weekday :: "pydate \<Rightarrow> int" where "weekday d = (d + 6) mod 7"

definition valid_dt :: "datetime \<Rightarrow> bool" where
  "valid_dt t \<longleftrightarrow> 0 \<le> t \<and> t < 3652059 * us_day"

section \<open>Rendering\<close>

definition digit :: "nat \<Rightarrow> char" where "digit n = char_of (48 + n)"

fun pad :: "nat \<Rightarrow> int \<Rightarrow> string" where
  "pad 0 n = []"
| "pad (Suc w) n = pad w (n div 10) @ [digit (nat (n mod 10))]"

fun nat_str :: "nat \<Rightarrow> string" where
  "nat_str n = (if n < 10 then [digit n] else nat_str (n div 10) @ [digit (n mod 10)])"

declare nat_str.simps [simp del]

definition int_str :: "int \<Rightarrow> string" where
  "int_str n = (if n < 0 then CHR ''-'' # nat_str (nat (- n)) else nat_str (nat n))"

definition date_iso :: "pydate \<Rightarrow> string" where
  "date_iso d = (case ord2ymd d of (y, m, dd) \<Rightarrow> pad 4 y @ ''-'' @ pad 2 m @ ''-'' @ pad 2 dd)"

definition isoformat :: "datetime \<Rightarrow> string" where
  "isoformat t =
     (let s = dt_tod t div us_second; us = dt_tod t mod us_second
      in date_iso (dt_date t) @ ''T'' @ pad 2 (s div 3600) @ '':'' @ pad 2 (s div 60 mod 60)
         @ '':'' @ pad 2 (s mod 60) @ (if us = 0 then [] else ''.'' @ pad 6 us) @ ''+00:00'')"

text \<open>\<open>strftime("%Y%m%dT%H%M%S")\<close>: to the second, the microseconds are dropped.\<close>

definition stamp :: "datetime \<Rightarrow> string" where
  "stamp t =
     (let s = dt_tod t div us_second
      in (case ord2ymd (dt_date t) of (y, m, d) \<Rightarrow> pad 4 y @ pad 2 m @ pad 2 d)
         @ ''T'' @ pad 2 (s div 3600) @ pad 2 (s div 60 mod 60) @ pad 2 (s mod 60))"

section \<open>core/time.py\<close>

text \<open>A \<open>datetime\<close> object before normalisation: local microseconds, with or without a UTC offset.\<close>

datatype pydatetime = Naive int | Aware int timedelta

definition DISTANT_FUTURE :: datetime where
  "DISTANT_FUTURE = (ymd2ord (9999, 1, 1) - 1) * us_day"

definition DISTANT_PAST :: datetime where
  "DISTANT_PAST = (ymd2ord (1, 1, 1) - 1) * us_day"

fun ensure_utc :: "pydatetime \<Rightarrow> datetime res" where
  "ensure_utc (Naive _) = Inl ValueError"
| "ensure_utc (Aware l off) = Inr (l - off)"

fun to_utc_lenient :: "pydatetime \<Rightarrow> datetime" where
  "to_utc_lenient (Naive l) = l"
| "to_utc_lenient (Aware l off) = l - off"

definition naive_utc :: "pydatetime \<Rightarrow> pydatetime res" where
  "naive_utc dt = (case ensure_utc dt of Inl e \<Rightarrow> Inl e | Inr t \<Rightarrow> Inr (Naive t))"

definition day_close_at :: "int \<Rightarrow> int \<Rightarrow> pydate \<Rightarrow> datetime" where
  "day_close_at hour minute d = (d - 1) * us_day + hour * us_hour + minute * us_minute"

abbreviation day_close :: "pydate \<Rightarrow> datetime" where "day_close \<equiv> day_close_at 21 0"


section \<open>Business days (core/synthetic.py)\<close>

text \<open>The loop tests one date after the other until \<open>n\<close> weekdays are collected.\<close>

function business_days :: "pydate \<Rightarrow> nat \<Rightarrow> pydate list" where
  "business_days d n =
     (if n = 0 then []
      else if weekday d < 5 then d # business_days (d + 1) (n - 1)
      else business_days (d + 1) n)"
  by pat_completeness auto
termination
proof (relation "measures [\<lambda>(d, n). n, \<lambda>(d, n). nat (if weekday d < 5 then 0 else 7 - weekday d)]")
  fix d :: pydate and n :: nat
  assume "n \<noteq> 0" "\<not> weekday d < 5"
  then show "((d + 1, n), (d, n)) \<in>
      measures [\<lambda>(d, n). n, \<lambda>(d, n). nat (if weekday d < 5 then 0 else 7 - weekday d)]"
    by (simp add: weekday_def) presburger
qed auto

declare business_days.simps [simp del]

section \<open>Calendar facts\<close>

lemma days_before_year_shift:
  assumes "0 \<le> b" "b < 4" "0 \<le> c" "c < 25" "0 \<le> d" "d < 4"
  shows "days_before_year (a * 400 + b * 100 + c * 4 + d + 1)
           = a * 146097 + b * 36524 + c * 1461 + d * 365"
proof -
  let ?z = "a * 400 + b * 100 + c * 4 + d"
  have "?z div 4 = a * 100 + b * 25 + c"
    using assms by (intro int_div_pos_eq [of _ 4 _ d]) auto
  moreover have "?z div 100 = a * 4 + b"
    using assms by (intro int_div_pos_eq [of _ 100 _ "c * 4 + d"]) auto
  moreover have "?z div 400 = a"
    using assms by (intro int_div_pos_eq [of _ 400 _ "b * 100 + c * 4 + d"]) auto
  ultimately show ?thesis
    by (simp add: days_before_year_def algebra_simps)
qed

lemma find_month_sum:
  assumes "find_month ls m0 d = (m, dd)" and "ls \<noteq> []"
  shows "m0 \<le> m \<and> m < m0 + int (length ls) \<and> sum_list (take (nat (m - m0)) ls) + dd = d + 1"
  using assms
proof (induction ls m0 d rule: find_month.induct)
  case (3 l k ls m0 d)
  show ?case
  proof (cases "d < l")
    case True
    with "3.prems" show ?thesis by auto
  next
    case False
    with "3.IH" "3.prems" have ih: "m0 + 1 \<le> m" "m < m0 + 1 + int (length (k # ls))"
      "sum_list (take (nat (m - (m0 + 1))) (k # ls)) + dd = d - l + 1" by auto
    from ih(1) have "nat (m - m0) = Suc (nat (m - (m0 + 1)))" by simp
    with ih show ?thesis by simp
  qed
qed auto

lemma length_month_lengths [simp]: "length (month_lengths leap) = 12"
  by (simp add: month_lengths_def)

lemma last_day_of_cycle:
  assumes "0 \<le> b" "b < 4" "0 \<le> c" "c < 24"
  shows "is_leap (a * 400 + b * 100 + c * 4 + 4)"
proof -
  have "\<not> 100 dvd (a * 400 + b * 100 + (c * 4 + 4))"
  proof
    assume "100 dvd (a * 400 + b * 100 + (c * 4 + 4))"
    moreover have "100 dvd (a * 400 + b * 100)" by simp
    ultimately have "100 dvd (c * 4 + 4)" by (metis dvd_add_right_iff)
    moreover have "0 < c * 4 + 4" "c * 4 + 4 < 100" using assms by linarith+
    ultimately show False using zdvd_not_zless by blast
  qed
  moreover have "4 dvd (a * 400 + b * 100 + (c * 4 + 4))" by simp
  ultimately show ?thesis unfolding is_leap_def by (simp add: add.assoc)
qed

lemma days_before_december: "is_leap y \<Longrightarrow> days_before_month (is_leap y) 12 = 335"
  by (simp add: days_before_month_def month_lengths_def)

lemma ymd2ord_parts:
  fixes n a b c d ra rb rc rd :: int
  assumes n: "n - 1 = a * 146097 + ra" and ra: "ra = b * 36524 + rb"
    and rb: "rb = c * 1461 + rc" and rc: "rc = d * 365 + rd"
    and bnd: "0 \<le> ra" "ra < 146097" "0 \<le> rb" "rb < 36524" "0 \<le> rc" "rc < 1461"
      "0 \<le> rd" "rd < 365"
    and y: "y = a * 400 + b * 100 + c * 4 + d + 1"
    and md: "find_month (month_lengths (is_leap y)) 1 rd = (m, dd)"
  shows "ymd2ord (if d = 4 \<or> b = 4 then (y - 1, 12, 31) else (y, m, dd)) = n"
proof -
  have b: "0 \<le> b" "b \<le> 4" using ra bnd by linarith+
  have c: "0 \<le> c" "c < 25" using rb bnd by linarith+
  have d: "0 \<le> d" "d \<le> 4" using rc bnd by linarith+
  have sum: "n - 1 = a * 146097 + b * 36524 + c * 1461 + d * 365 + rd"
    using n ra rb rc by linarith
  consider (plain) "d < 4" "b < 4" | (cent) "b = 4" | (quad) "d = 4" "b < 4"
    using b d by linarith
  then show ?thesis
  proof cases
    case plain
    have "days_before_month (is_leap y) m + dd = rd + 1"
      using find_month_sum [OF md] by (simp add: days_before_month_def month_lengths_def)
    moreover have "days_before_year y = a * 146097 + b * 36524 + c * 1461 + d * 365"
      using b(1) plain c d(1) unfolding y by (intro days_before_year_shift)
    ultimately show ?thesis using sum plain by simp
  next
    case cent
    then have z: "rb = 0" "c = 0" "rc = 0" "d = 0" "rd = 0" using ra rb rc bnd c d by linarith+
    have y1: "y - 1 = a * 400 + 3 * 100 + 24 * 4 + 3 + 1" using y cent z by simp
    have "is_leap (y - 1)"
    proof -
      have "y - 1 = 400 * (a + 1)" using y1 by simp
      then show ?thesis unfolding is_leap_def by simp
    qed
    then have "days_before_month (is_leap (y - 1)) 12 = 335" by (rule days_before_december)
    moreover have "days_before_year (y - 1) = a * 146097 + 3 * 36524 + 24 * 1461 + 3 * 365"
      unfolding y1 by (rule days_before_year_shift) simp_all
    ultimately show ?thesis using sum cent z by simp
  next
    case quad
    then have z: "rd = 0" "rc = 1460" using rc bnd by linarith+
    then have c23: "c < 24" using rb bnd c by linarith
    have y1: "y - 1 = a * 400 + b * 100 + c * 4 + 3 + 1" using y quad by simp
    have "is_leap (y - 1)"
      using last_day_of_cycle [OF b(1) quad(2) c(1) c23, of a] by (simp add: y quad add.commute add.left_commute)
    then have "days_before_month (is_leap (y - 1)) 12 = 335" by (rule days_before_december)
    moreover have "days_before_year (y - 1) = a * 146097 + b * 36524 + c * 1461 + 3 * 365"
      using b(1) quad(2) c unfolding y1 by (intro days_before_year_shift) simp_all
    ultimately show ?thesis using sum quad z by simp
  qed
qed

lemma ord2ymd_form:
  obtains a ra b rb c rc d rd y where
    "n - 1 = a * 146097 + ra" "ra = b * 36524 + rb" "rb = c * 1461 + rc" "rc = d * 365 + rd"
    "0 \<le> ra" "ra < 146097" "0 \<le> rb" "rb < 36524" "0 \<le> rc" "rc < 1461" "0 \<le> rd" "rd < 365"
    "y = a * 400 + b * 100 + c * 4 + d + 1"
    "ord2ymd n = (if d = 4 \<or> b = 4 then (y - 1, 12, 31)
                  else (y, find_month (month_lengths (is_leap y)) 1 rd))"
proof -
  obtain a ra where e1: "a = (n - 1) div 146097" "ra = (n - 1) mod 146097" by blast
  obtain b rb where e2: "b = ra div 36524" "rb = ra mod 36524" by blast
  obtain c rc where e3: "c = rb div 1461" "rc = rb mod 1461" by blast
  obtain d rd where e4: "d = rc div 365" "rd = rc mod 365" by blast
  note eqs = e1 e2 e3 e4
  obtain y where y: "y = a * 400 + b * 100 + c * 4 + d + 1" by blast
  show thesis
  proof (rule that)
    show "n - 1 = a * 146097 + ra" by (simp only: eqs(1,2) div_mult_mod_eq)
    show "ra = b * 36524 + rb" by (simp only: eqs(3,4) div_mult_mod_eq)
    show "rb = c * 1461 + rc" by (simp only: eqs(5,6) div_mult_mod_eq)
    show "rc = d * 365 + rd" by (simp only: eqs(7,8) div_mult_mod_eq)
    show "0 \<le> ra" "ra < 146097" unfolding eqs(2) by simp_all
    show "0 \<le> rb" "rb < 36524" unfolding eqs(4) by simp_all
    show "0 \<le> rc" "rc < 1461" unfolding eqs(6) by simp_all
    show "0 \<le> rd" "rd < 365" unfolding eqs(8) by simp_all
    show "y = a * 400 + b * 100 + c * 4 + d + 1" by (rule y)
    show "ord2ymd n = (if d = 4 \<or> b = 4 then (y - 1, 12, 31)
                       else (y, find_month (month_lengths (is_leap y)) 1 rd))"
      unfolding ord2ymd_def Let_def eqs [symmetric] y [symmetric] by (simp split: prod.split)
  qed
qed

lemma ord2ymd_ymd2ord: "ymd2ord (ord2ymd n) = n"
proof (rule ord2ymd_form [of n])
  fix a ra b rb c rc d rd y
  assume parts: "n - 1 = a * 146097 + ra" "ra = b * 36524 + rb" "rb = c * 1461 + rc"
    "rc = d * 365 + rd" "0 \<le> ra" "ra < 146097" "0 \<le> rb" "rb < 36524" "0 \<le> rc" "rc < 1461"
    "0 \<le> rd" "rd < 365" "y = a * 400 + b * 100 + c * 4 + d + 1"
    and o: "ord2ymd n = (if d = 4 \<or> b = 4 then (y - 1, 12, 31)
                  else (y, find_month (month_lengths (is_leap y)) 1 rd))"
  obtain m dd where md: "find_month (month_lengths (is_leap y)) 1 rd = (m, dd)"
    by (cases "find_month (month_lengths (is_leap y)) 1 rd")
  show ?thesis
    using ymd2ord_parts [OF parts md] unfolding o md by simp
qed

lemma ord2ymd_inj: "ord2ymd a = ord2ymd b \<longleftrightarrow> a = b"
  by (metis ord2ymd_ymd2ord)


section \<open>Renderings are unambiguous\<close>

lemma of_char_digit: "n < 10 \<Longrightarrow> of_char (digit n) = 48 + n"
  by (simp add: digit_def of_char_of)

lemma digit_inj: "m < 10 \<Longrightarrow> n < 10 \<Longrightarrow> digit m = digit n \<longleftrightarrow> m = n"
  by (metis of_char_digit add_left_cancel)

lemma length_pad [simp]: "length (pad w n) = w"
  by (induction w arbitrary: n) simp_all

lemma pad_inj:
  assumes "0 \<le> m" "m < 10 ^ w" "0 \<le> n" "n < 10 ^ w"
  shows "pad w m = pad w n \<longleftrightarrow> m = n"
  using assms
proof (induction w arbitrary: m n)
  case 0
  then show ?case by simp
next
  case (Suc w)
  have "m div 10 < 10 ^ w" "n div 10 < 10 ^ w" using Suc.prems by auto
  then have ih: "pad w (m div 10) = pad w (n div 10) \<longleftrightarrow> m div 10 = n div 10"
    using Suc.prems by (intro Suc.IH) auto
  have dg: "digit (nat (m mod 10)) = digit (nat (n mod 10)) \<longleftrightarrow> m mod 10 = n mod 10"
    using digit_inj [of "nat (m mod 10)" "nat (n mod 10)"] by (simp add: nat_less_iff eq_nat_nat_iff)
  have "m = n \<longleftrightarrow> m div 10 = n div 10 \<and> m mod 10 = n mod 10"
    by (metis div_mult_mod_eq)
  then show ?case using ih dg by auto
qed

lemma find_month_day:
  assumes "find_month ls m0 d = (m, dd)" and "ls \<noteq> []" and "0 \<le> d" and "d < sum_list ls"
    and "\<forall>l \<in> set ls. l \<le> 31"
  shows "1 \<le> dd \<and> dd \<le> 31"
  using assms
proof (induction ls m0 d rule: find_month.induct)
  case (3 l k ls m0 d)
  then show ?case by (cases "d < l") auto
qed auto

lemma ord2ymd_month_day:
  assumes "ord2ymd n = (y, m, dd)"
  shows "1 \<le> m \<and> m \<le> 12 \<and> 1 \<le> dd \<and> dd \<le> 31"
proof (rule ord2ymd_form [of n])
  fix a ra b rb c rc d rd z :: int
  assume rb: "0 \<le> rd" "rd < 365"
    and o: "ord2ymd n = (if d = 4 \<or> b = 4 then (z - 1, 12, 31)
                  else (z, find_month (month_lengths (is_leap z)) 1 rd))"
  show ?thesis
  proof (cases "d = 4 \<or> b = 4")
    case True
    with o assms show ?thesis by simp
  next
    case False
    with o assms have fm: "find_month (month_lengths (is_leap z)) 1 rd = (m, dd)" by simp
    have ne: "month_lengths (is_leap z) \<noteq> []"
      and le: "\<forall>l \<in> set (month_lengths (is_leap z)). l \<le> 31"
      and sm: "rd < sum_list (month_lengths (is_leap z))"
      using rb by (auto simp: month_lengths_def)
    show ?thesis
      using find_month_sum [OF fm ne] find_month_day [OF fm ne rb(1) sm le] by simp
  qed
qed

lemma ord2ymd_year_nonneg:
  assumes "1 \<le> n" and "ord2ymd n = (y, m, dd)"
  shows "0 \<le> y"
proof (rule ord2ymd_form [of n])
  fix a ra b rb c rc d rd z
  assume parts: "n - 1 = a * 146097 + ra" "ra = b * 36524 + rb" "rb = c * 1461 + rc"
    "rc = d * 365 + rd" "0 \<le> ra" "ra < 146097" "0 \<le> rb" "rb < 36524" "0 \<le> rc" "rc < 1461"
    "0 \<le> rd" "rd < 365" "z = a * 400 + b * 100 + c * 4 + d + 1"
    and o: "ord2ymd n = (if d = 4 \<or> b = 4 then (z - 1, 12, 31)
                  else (z, find_month (month_lengths (is_leap z)) 1 rd))"
  have "0 \<le> a" "0 \<le> b" "0 \<le> c" "0 \<le> d" using parts assms(1) by linarith+
  then have "1 \<le> z" using parts by linarith
  moreover have "y = z \<or> y = z - 1" using o assms(2) by (auto split: if_splits)
  ultimately show ?thesis by linarith
qed

lemma days_before_year_ge: "10000 \<le> y \<Longrightarrow> 3652059 \<le> days_before_year y"
proof -
  assume y: "10000 \<le> y"
  obtain z p q r where e: "z = y - 1" "p = z div 4" "q = z div 100" "r = z div 400" by blast
  have "z \<le> 4 * p + 3" "100 * q \<le> z" "z \<le> 400 * r + 399"
    unfolding e by presburger+
  with y e(1) have "3652059 \<le> z * 365 + p - q + r" by linarith
  then show ?thesis unfolding days_before_year_def e .
qed

lemma date_fields_bound:
  assumes "1 \<le> d" "d \<le> 3652059" and o: "ord2ymd d = (y, m, dd)"
  shows "0 \<le> y \<and> y < 10000 \<and> 0 \<le> m \<and> m < 100 \<and> 0 \<le> dd \<and> dd < 100"
proof -
  have "days_before_year y + days_before_month (is_leap y) m + dd = d"
    using ord2ymd_ymd2ord [of d] o by simp
  moreover have "0 \<le> days_before_month (is_leap y) m"
    unfolding days_before_month_def
    by (rule sum_list_nonneg) (auto simp: month_lengths_def dest!: in_set_takeD)
  ultimately have "days_before_year y < 3652059"
    using ord2ymd_month_day [OF o] assms(2) by linarith
  then have "y < 10000" using days_before_year_ge [of y] by linarith
  then show ?thesis
    using ord2ymd_month_day [OF o] ord2ymd_year_nonneg [OF assms(1) o] by simp
qed

lemma append_eq_same_length:
  "length xs = length ys \<Longrightarrow> xs @ us = ys @ vs \<longleftrightarrow> xs = ys \<and> us = vs"
  by simp

lemma length_date_iso [simp]: "length (date_iso d) = 10"
  by (simp add: date_iso_def split: prod.splits)

lemma date_iso_inj:
  assumes "1 \<le> a" "a \<le> 3652059" "1 \<le> b" "b \<le> 3652059"
  shows "date_iso a = date_iso b \<longleftrightarrow> a = b"
proof
  assume eq: "date_iso a = date_iso b"
  obtain y m d y' m' d' where o: "ord2ymd a = (y, m, d)" "ord2ymd b = (y', m', d')"
    by (metis surj_pair)
  have bnd: "0 \<le> y \<and> y < 10000 \<and> 0 \<le> m \<and> m < 100 \<and> 0 \<le> d \<and> d < 100"
    "0 \<le> y' \<and> y' < 10000 \<and> 0 \<le> m' \<and> m' < 100 \<and> 0 \<le> d' \<and> d' < 100"
    using date_fields_bound o assms by blast+
  have "pad 4 y = pad 4 y' \<and> pad 2 m = pad 2 m' \<and> pad 2 d = pad 2 d'"
    using eq by (simp add: date_iso_def o del: pad.simps)
  then have "y = y' \<and> m = m' \<and> d = d'"
    using bnd pad_inj [of y 4 y'] pad_inj [of m 2 m'] pad_inj [of d 2 d'] by simp
  then show "a = b" using o ord2ymd_inj by metis
qed simp

lemma valid_dt_date: "valid_dt t \<Longrightarrow> 1 \<le> dt_date t \<and> dt_date t \<le> 3652059"
proof -
  assume "valid_dt t"
  then have "0 \<le> t div us_day" "t div us_day < 3652059"
    unfolding valid_dt_def by (auto simp: pos_imp_zdiv_nonneg_iff)
  then show ?thesis unfolding dt_date_def by simp
qed

lemma dt_split: "t = (dt_date t - 1) * us_day + dt_tod t"
  by (simp add: dt_date_def dt_tod_def)

lemma dt_tod_bounds: "0 \<le> dt_tod t" "dt_tod t < us_day"
  by (simp_all add: dt_tod_def)

lemma clock_fields:
  assumes "0 \<le> s" "s < 86400" "0 \<le> s'" "s' < 86400"
    and "pad 2 (s div 3600) = pad 2 (s' div 3600)"
    and "pad 2 (s div 60 mod 60) = pad 2 (s' div 60 mod 60)"
    and "pad 2 (s mod 60) = pad 2 (s' mod 60)"
  shows "s = s'"
proof -
  have h: "s div 3600 = s' div 3600"
    using assms(5) pad_inj [of "s div 3600" 2 "s' div 3600"] assms(1-4)
    by (simp add: pos_imp_zdiv_nonneg_iff del: pad.simps)
  have m: "s div 60 mod 60 = s' div 60 mod 60"
    using assms(6) pad_inj [of "s div 60 mod 60" 2 "s' div 60 mod 60"]
      pos_mod_bound [of 60 "s div 60"] pos_mod_bound [of 60 "s' div 60"]
    by (simp del: pad.simps pos_mod_bound)
  have c: "s mod 60 = s' mod 60"
    using assms(7) pad_inj [of "s mod 60" 2 "s' mod 60"]
      pos_mod_bound [of 60 s] pos_mod_bound [of 60 s']
    by (simp del: pad.simps pos_mod_bound)
  have hm: "x div 3600 = x div 60 div 60" for x :: int
    using zdiv_zmult2_eq [of 60 x 60] by simp
  have "s div 60 = s' div 60"
    using h m by (metis hm div_mult_mod_eq)
  then show ?thesis using c by (metis div_mult_mod_eq)
qed


lemma seconds_split: "t div us_second = (dt_date t - 1) * 86400 + dt_tod t div us_second"
proof -
  have "((dt_date t - 1) * 86400) * us_second + dt_tod t = t"
    using dt_split [of t] by simp
  then show ?thesis
    using div_mult_self3 [of us_second "(dt_date t - 1) * 86400" "dt_tod t"] by simp
qed

lemma date_of_seconds: "dt_date t = t div us_second div 86400 + 1"
  using zdiv_zmult2_eq [of 86400 t us_second] by (simp add: dt_date_def)

lemma stamp_inj:
  assumes v: "valid_dt a" "valid_dt b"
  shows "stamp a = stamp b \<longleftrightarrow> a div us_second = b div us_second"
proof
  obtain y m d y' m' d' where o: "ord2ymd (dt_date a) = (y, m, d)"
    "ord2ymd (dt_date b) = (y', m', d')" by (metis surj_pair)
  obtain s s' where s: "s = dt_tod a div us_second" "s' = dt_tod b div us_second" by blast
  have sb: "0 \<le> s" "s < 86400" "0 \<le> s'" "s' < 86400"
    unfolding s using dt_tod_bounds [of a] dt_tod_bounds [of b]
    by (auto simp: pos_imp_zdiv_nonneg_iff)
  {
    assume "stamp a = stamp b"
    then have eqs: "pad 4 y = pad 4 y'" "pad 2 m = pad 2 m'" "pad 2 d = pad 2 d'"
      "pad 2 (s div 3600) = pad 2 (s' div 3600)"
      "pad 2 (s div 60 mod 60) = pad 2 (s' div 60 mod 60)" "pad 2 (s mod 60) = pad 2 (s' mod 60)"
      unfolding stamp_def Let_def o s [symmetric] by (simp_all del: pad.simps)
    have "date_iso (dt_date a) = date_iso (dt_date b)"
      using eqs(1-3) by (simp add: date_iso_def o del: pad.simps)
    then have "dt_date a = dt_date b"
      using date_iso_inj valid_dt_date v by blast
    moreover have "s = s'" using clock_fields [OF sb eqs(4-6)] .
    ultimately show "a div us_second = b div us_second"
      using seconds_split [of a] seconds_split [of b] s by simp
  }
  {
    assume eq: "a div us_second = b div us_second"
    have "dt_date a = dt_date b" by (simp only: date_of_seconds eq)
    then show "stamp a = stamp b"
      using seconds_split [of a] seconds_split [of b] eq unfolding stamp_def Let_def by simp
  }
qed

lemma isoformat_inj:
  assumes v: "valid_dt a" "valid_dt b"
  shows "isoformat a = isoformat b \<longleftrightarrow> a = b"
proof
  obtain s s' where s: "s = dt_tod a div us_second" "s' = dt_tod b div us_second" by blast
  obtain u u' where u: "u = dt_tod a mod us_second" "u' = dt_tod b mod us_second" by blast
  have sb: "0 \<le> s" "s < 86400" "0 \<le> s'" "s' < 86400"
    unfolding s using dt_tod_bounds [of a] dt_tod_bounds [of b]
    by (auto simp: pos_imp_zdiv_nonneg_iff)
  have ub: "0 \<le> u" "u < 10 ^ 6" "0 \<le> u'" "u' < 10 ^ 6" unfolding u by simp_all
  assume eq: "isoformat a = isoformat b"
  have head: "date_iso (dt_date a) = date_iso (dt_date b)"
    "pad 2 (s div 3600) = pad 2 (s' div 3600)"
    "pad 2 (s div 60 mod 60) = pad 2 (s' div 60 mod 60)" "pad 2 (s mod 60) = pad 2 (s' mod 60)"
    and tail: "(if u = 0 then [] else ''.'' @ pad 6 u) @ ''+00:00''
      = (if u' = 0 then [] else ''.'' @ pad 6 u') @ ''+00:00''"
    using eq unfolding isoformat_def Let_def s [symmetric] u [symmetric]
    by (simp_all del: pad.simps)
  have "dt_date a = dt_date b" using head(1) date_iso_inj valid_dt_date v by blast
  moreover have "s = s'" using clock_fields [OF sb head(2-4)] .
  moreover have "u = u'"
  proof -
    have "length (if u = 0 then [] else ''.'' @ pad 6 u)
        = length (if u' = 0 then [] else ''.'' @ pad 6 u')"
      using tail by (metis append_same_eq)
    then show ?thesis
      using tail ub pad_inj [of u 6 u'] by (auto split: if_splits simp del: pad.simps)
  qed
  ultimately have "dt_tod a = dt_tod b" "dt_date a = dt_date b"
    using s u by (metis div_mult_mod_eq)+
  then show "a = b" using dt_split [of a] dt_split [of b] by simp
qed simp

end
