(* ===== verification/Schema.thy ===== *)
theory Schema
  imports PyTime
begin

text \<open>
  The canonical data model: dynamically typed payload values, \<open>core/schema.py\<close> (the bitemporal
  \<open>Observation\<close>) and \<open>core/identity.py\<close> (content-derived observation ids), with the proof that
  the id text identifies the bitemporal coordinates.

  A UUID is kept as what it is computed from: \<open>Uuid5 k\<close> is \<open>uuid5\<close> of the fixed project namespace
  and the text \<open>k\<close> (two such ids are equal exactly when the texts are; SHA-1 collisions are not
  modelled) and \<open>Uuid4 n\<close> is the n-th random id.
\<close>

section \<open>Strings\<close>

definition upper_char :: "char \<Rightarrow> char" where
  "upper_char c = (let n = of_char c :: nat in if 97 \<le> n \<and> n \<le> 122 then char_of (n - 32) else c)"

definition lower_char :: "char \<Rightarrow> char" where
  "lower_char c = (let n = of_char c :: nat in if 65 \<le> n \<and> n \<le> 90 then char_of (n + 32) else c)"

definition upper :: "string \<Rightarrow> string" where "upper s = map upper_char s"
definition lower :: "string \<Rightarrow> string" where "lower s = map lower_char s"

definition is_space :: "char \<Rightarrow> bool" where
  "is_space c \<longleftrightarrow> (let n = of_char c :: nat in n = 32 \<or> (9 \<le> n \<and> n \<le> 13) \<or> (28 \<le> n \<and> n \<le> 31))"

definition strip :: "string \<Rightarrow> string" where
  "strip s = rev (dropWhile is_space (rev (dropWhile is_space s)))"

definition starts_with :: "string \<Rightarrow> string \<Rightarrow> bool" where
  "starts_with p s \<longleftrightarrow> take (length p) s = p"

fun join :: "string \<Rightarrow> string list \<Rightarrow> string" where
  "join sep [] = []"
| "join sep [x] = x"
| "join sep (x # xs) = x @ sep @ join sep xs"

section \<open>Decimal text to float\<close>

definition digit_val :: "char \<Rightarrow> nat option" where
  "digit_val c = (let n = of_char c :: nat in if 48 \<le> n \<and> n \<le> 57 then Some (n - 48) else None)"

definition is_digit :: "char \<Rightarrow> bool" where "is_digit c \<longleftrightarrow> digit_val c \<noteq> None"

definition digits_val :: "string \<Rightarrow> nat" where
  "digits_val s = foldl (\<lambda>a c. 10 * a + (case digit_val c of Some d \<Rightarrow> d | None \<Rightarrow> 0)) 0 s"

definition split_sign :: "string \<Rightarrow> bool \<times> string" where
  "split_sign s = (case s of c # r \<Rightarrow> if c = CHR ''-'' then (True, r)
                                      else if c = CHR ''+'' then (False, r) else (False, s)
                   | [] \<Rightarrow> (False, []))"

definition parse_exponent :: "string \<Rightarrow> int option" where
  "parse_exponent s =
     (case s of
        [] \<Rightarrow> Some 0
      | c # r \<Rightarrow>
          if c = CHR ''e'' \<or> c = CHR ''E'' then
            (let (neg, ds) = split_sign r
             in if ds \<noteq> [] \<and> list_all is_digit ds
                then Some (if neg then - int (digits_val ds) else int (digits_val ds)) else None)
          else None)"

definition parse_unsigned :: "string \<Rightarrow> real option" where
  "parse_unsigned s =
     (let ip = takeWhile is_digit s; r = dropWhile is_digit s;
          (fp, r') = (case r of c # r1 \<Rightarrow> if c = CHR ''.''
                                then (takeWhile is_digit r1, dropWhile is_digit r1) else ([], r)
                      | [] \<Rightarrow> ([], []))
      in if ip = [] \<and> fp = [] then None
         else (case parse_exponent r' of
                 None \<Rightarrow> None
               | Some e \<Rightarrow>
                   let m = real (digits_val (ip @ fp)) / 10 ^ length fp
                   in Some (if 0 \<le> e then m * 10 ^ nat e else m / 10 ^ nat (- e))))"

text \<open>\<open>float(text)\<close>; underscores between digits are the one accepted form left out.\<close>

definition parse_float :: "string \<Rightarrow> flt res" where
  "parse_float s =
     (let (neg, body) = split_sign (strip s); w = lower body
      in if w = ''inf'' \<or> w = ''infinity'' then Inr (if neg then NInf else PInf)
         else if w = ''nan'' then Inr NaN
         else (case parse_unsigned body of
                 None \<Rightarrow> Inl ValueError
               | Some x \<Rightarrow> Inr (Fin (if neg then - x else x))))"

section \<open>Dynamically typed values\<close>

text \<open>\<open>PExc e\<close> is the text \<open>str(e)\<close> of an exception, kept as the exception itself.\<close>

datatype pyval =
    PNone
  | PBool bool
  | PInt int
  | PFloat flt
  | PStr string
  | PList "pyval list"
  | PDict "(string \<times> pyval) list"
  | PExc pyerr

type_synonym payload = "(string, pyval) dict"

fun truthy :: "pyval \<Rightarrow> bool" where
  "truthy PNone \<longleftrightarrow> False"
| "truthy (PBool b) \<longleftrightarrow> b"
| "truthy (PInt n) \<longleftrightarrow> n \<noteq> 0"
| "truthy (PFloat x) \<longleftrightarrow> flt_truthy x"
| "truthy (PStr s) \<longleftrightarrow> s \<noteq> []"
| "truthy (PList xs) \<longleftrightarrow> xs \<noteq> []"
| "truthy (PDict d) \<longleftrightarrow> d \<noteq> []"
| "truthy (PExc e) \<longleftrightarrow> True"

text \<open>\<open>d.get(k)\<close> is \<open>None\<close> for a missing key, \<open>d[k]\<close> raises \<open>KeyError\<close>.\<close>

definition pget :: "payload \<Rightarrow> string \<Rightarrow> pyval" where
  "pget d k = dict_get PNone d k"

definition pindex :: "payload \<Rightarrow> string \<Rightarrow> pyval res" where
  "pindex d k = (case map_of d k of None \<Rightarrow> Inl KeyError | Some v \<Rightarrow> Inr v)"

fun to_float :: "pyval \<Rightarrow> flt res" where
  "to_float (PFloat x) = Inr x"
| "to_float (PInt n) = Inr (Fin (of_int n))"
| "to_float (PBool b) = Inr (Fin (if b then 1 else 0))"
| "to_float (PStr s) = parse_float s"
| "to_float (PExc e) = Inl ValueError"
| "to_float _ = Inl TypeError"

section \<open>core/schema.py: the observation\<close>

datatype uuid = Uuid4 nat | Uuid5 string

record observation =
  o_source :: string
  o_dataset :: string
  o_entity_type :: string
  o_entity_id :: string
  o_ref :: "string option"
  o_event_time :: datetime
  o_knowledge_time :: datetime
  o_value :: payload
  o_metadata :: payload
  o_revision :: int
  o_id :: uuid
  o_ingested_at :: datetime

type_synonym logical_key_t = "string \<times> string \<times> string \<times> datetime \<times> string option"

definition logical_key :: "observation \<Rightarrow> logical_key_t" where
  "logical_key o1 = (o_source o1, o_dataset o1, o_entity_id o1, o_event_time o1, o_ref o1)"

text \<open>
  The field validator: every timestamp of a new observation goes through \<open>ensure_utc\<close>, so a
  naive one is refused.
\<close>

definition make_observation ::
  "string \<Rightarrow> string \<Rightarrow> string \<Rightarrow> string \<Rightarrow> string option \<Rightarrow> pydatetime \<Rightarrow> pydatetime \<Rightarrow> payload
   \<Rightarrow> payload \<Rightarrow> int \<Rightarrow> uuid \<Rightarrow> pydatetime \<Rightarrow> observation res" where
  "make_observation src ds et eid rf ev kt val meta rvn oid ing =
     (case ensure_utc ev of Inl e \<Rightarrow> Inl e | Inr ev' \<Rightarrow>
      case ensure_utc kt of Inl e \<Rightarrow> Inl e | Inr kt' \<Rightarrow>
      case ensure_utc ing of Inl e \<Rightarrow> Inl e | Inr ing' \<Rightarrow>
        Inr \<lparr>o_source = src, o_dataset = ds, o_entity_type = et, o_entity_id = eid, o_ref = rf,
             o_event_time = ev', o_knowledge_time = kt', o_value = val, o_metadata = meta,
             o_revision = rvn, o_id = oid, o_ingested_at = ing'\<rparr>)"

text \<open>An observation stamped with one time for both clocks, as the internal logs write them.\<close>

definition new_obs ::
  "datetime \<Rightarrow> string \<Rightarrow> string \<Rightarrow> string \<Rightarrow> string \<Rightarrow> string option \<Rightarrow> datetime \<Rightarrow> datetime \<Rightarrow> payload
   \<Rightarrow> payload \<Rightarrow> observation" where
  "new_obs now src ds et eid rf ev kt val meta =
     \<lparr>o_source = src, o_dataset = ds, o_entity_type = et, o_entity_id = eid, o_ref = rf,
      o_event_time = ev, o_knowledge_time = kt, o_value = val, o_metadata = meta,
      o_revision = 0, o_id = Uuid4 0, o_ingested_at = now\<rparr>"

section \<open>core/identity.py\<close>

definition id_text :: "observation \<Rightarrow> string" where
  "id_text o1 = join ''|''
     [o_source o1, o_dataset o1, o_entity_id o1, isoformat (o_event_time o1),
      isoformat (o_knowledge_time o1), int_str (o_revision o1),
      case o_ref o1 of None \<Rightarrow> [] | Some r \<Rightarrow> r]"

definition deterministic_id :: "observation \<Rightarrow> uuid" where
  "deterministic_id o1 = Uuid5 (id_text o1)"

definition with_deterministic_id :: "observation \<Rightarrow> observation" where
  "with_deterministic_id o1 = o1\<lparr>o_id := deterministic_id o1\<rparr>"

section \<open>The id text identifies the coordinates\<close>

lemma join_Cons: "xs \<noteq> [] \<Longrightarrow> join sep (x # xs) = x @ sep @ join sep xs"
  by (cases xs) simp_all

lemma split_at_separator:
  assumes "c \<notin> set xs" "c \<notin> set ys" and "xs @ c # us = ys @ c # vs"
  shows "xs = ys \<and> us = vs"
  using assms
proof (induction xs arbitrary: ys)
  case Nil
  then show ?case by (cases ys) auto
next
  case (Cons x xs)
  then show ?case by (cases ys) auto
qed

lemma join_inj:
  assumes "length xs = length ys" and "\<forall>x \<in> set xs. c \<notin> set x" and "\<forall>y \<in> set ys. c \<notin> set y"
    and "join [c] (xs @ [r]) = join [c] (ys @ [s])"
  shows "xs = ys \<and> r = s"
  using assms
proof (induction xs ys rule: list_induct2)
  case Nil
  then show ?case by simp
next
  case (Cons x xs y ys)
  then have "x @ c # join [c] (xs @ [r]) = y @ c # join [c] (ys @ [s])"
    by (simp add: join_Cons)
  then have "x = y \<and> join [c] (xs @ [r]) = join [c] (ys @ [s])"
    using Cons.prems by (intro split_at_separator) auto
  then show ?case using Cons by simp
qed

lemma digit_not_bar: "n < 10 \<Longrightarrow> digit n \<noteq> CHR ''|'' \<and> digit n \<noteq> CHR ''-''"
  using of_char_digit [of n] by auto

lemma bar_notin_pad [simp]: "CHR ''|'' \<notin> set (pad w n)"
proof (induction w arbitrary: n)
  case (Suc w)
  have "nat (n mod 10) < 10" by (simp add: nat_less_iff)
  with Suc digit_not_bar show ?case by (metis Un_iff empty_iff insert_iff list.set pad.simps(2) set_append)
qed simp

lemma nat_str_chars: "c \<in> set (nat_str n) \<Longrightarrow> \<exists>d < 10. c = digit d"
proof (induction n rule: nat_str.induct)
  case (1 n)
  show ?case
  proof (cases "n < 10")
    case True
    with 1 show ?thesis by (auto simp: nat_str.simps [of n])
  next
    case False
    then have "c \<in> set (nat_str (n div 10)) \<or> c = digit (n mod 10)"
      using "1.prems" by (auto simp: nat_str.simps [of n])
    then show ?thesis using "1.IH" False by (metis mod_less_divisor zero_less_numeral)
  qed
qed

lemma nat_str_inj: "nat_str m = nat_str n \<longleftrightarrow> m = n"
proof -
  have val: "foldl (\<lambda>a c. 10 * a + (of_char c - 48)) 0 (nat_str n) = n" for n
  proof (induction n rule: nat_str.induct)
    case (1 n)
    then show ?case by (subst nat_str.simps) (simp add: of_char_digit)
  qed
  show ?thesis by (metis val)
qed

lemma int_str_inj: "int_str m = int_str n \<longleftrightarrow> m = n"
proof -
  have no: "CHR ''-'' # xs \<noteq> nat_str k" for xs k
    using nat_str_chars [of "CHR ''-''" k] digit_not_bar by (metis list.set_intros(1))
  show ?thesis
    using no no [symmetric] by (auto simp: int_str_def nat_str_inj)
qed

lemma bar_notin_int_str [simp]: "CHR ''|'' \<notin> set (int_str n)"
proof -
  have "CHR ''|'' \<notin> set (nat_str k)" for k
    using nat_str_chars digit_not_bar by metis
  then show ?thesis by (simp add: int_str_def)
qed

lemma bar_notin_isoformat [simp]: "CHR ''|'' \<notin> set (isoformat t)"
  by (simp add: isoformat_def date_iso_def Let_def split: prod.split del: pad.simps)

definition plain_ids :: "observation \<Rightarrow> bool" where
  "plain_ids o1 \<longleftrightarrow> CHR ''|'' \<notin> set (o_source o1) \<and> CHR ''|'' \<notin> set (o_dataset o1)
     \<and> CHR ''|'' \<notin> set (o_entity_id o1)
     \<and> valid_dt (o_event_time o1) \<and> valid_dt (o_knowledge_time o1)"

definition coordinates ::
  "observation \<Rightarrow> string \<times> string \<times> string \<times> datetime \<times> datetime \<times> int \<times> string" where
  "coordinates o1 = (o_source o1, o_dataset o1, o_entity_id o1, o_event_time o1,
     o_knowledge_time o1, o_revision o1, case o_ref o1 of None \<Rightarrow> [] | Some r \<Rightarrow> r)"

lemma deterministic_id_coordinates:
  assumes "plain_ids a" "plain_ids b"
  shows "deterministic_id a = deterministic_id b \<longleftrightarrow> coordinates a = coordinates b"
proof
  let ?f = "\<lambda>x. [o_source x, o_dataset x, o_entity_id x, isoformat (o_event_time x),
    isoformat (o_knowledge_time x), int_str (o_revision x)]"
  let ?r = "\<lambda>x. case o_ref x of None \<Rightarrow> [] | Some r \<Rightarrow> r"
  assume "deterministic_id a = deterministic_id b"
  then have "join [CHR ''|''] (?f a @ [?r a]) = join [CHR ''|''] (?f b @ [?r b])"
    by (simp add: deterministic_id_def id_text_def)
  moreover have "length (?f a) = length (?f b)" by simp
  moreover have "\<forall>x \<in> set (?f a). CHR ''|'' \<notin> set x" "\<forall>x \<in> set (?f b). CHR ''|'' \<notin> set x"
    using assms by (auto simp: plain_ids_def)
  ultimately have "?f a = ?f b \<and> ?r a = ?r b" using join_inj by blast
  then show "coordinates a = coordinates b"
    using assms by (simp add: coordinates_def plain_ids_def isoformat_inj int_str_inj)
next
  assume "coordinates a = coordinates b"
  then show "deterministic_id a = deterministic_id b"
    by (simp add: coordinates_def deterministic_id_def id_text_def)
qed

lemma with_deterministic_id_fields [simp]:
  "o_source (with_deterministic_id x) = o_source x"
  "o_dataset (with_deterministic_id x) = o_dataset x"
  "o_entity_type (with_deterministic_id x) = o_entity_type x"
  "o_entity_id (with_deterministic_id x) = o_entity_id x"
  "o_ref (with_deterministic_id x) = o_ref x"
  "o_event_time (with_deterministic_id x) = o_event_time x"
  "o_knowledge_time (with_deterministic_id x) = o_knowledge_time x"
  "o_value (with_deterministic_id x) = o_value x"
  "o_metadata (with_deterministic_id x) = o_metadata x"
  "o_revision (with_deterministic_id x) = o_revision x"
  "o_id (with_deterministic_id x) = deterministic_id x"
  by (simp_all add: with_deterministic_id_def)

lemma deterministic_id_stamped [simp]:
  "deterministic_id (with_deterministic_id x) = deterministic_id x"
  by (simp add: deterministic_id_def id_text_def)

lemma with_deterministic_id_idem [simp]:
  "with_deterministic_id (with_deterministic_id x) = with_deterministic_id x"
  by (simp add: with_deterministic_id_def [of "with_deterministic_id x"])

lemma new_obs_fields [simp]:
  "o_source (new_obs n s d et e r ev kt v m) = s"
  "o_dataset (new_obs n s d et e r ev kt v m) = d"
  "o_entity_type (new_obs n s d et e r ev kt v m) = et"
  "o_entity_id (new_obs n s d et e r ev kt v m) = e"
  "o_ref (new_obs n s d et e r ev kt v m) = r"
  "o_event_time (new_obs n s d et e r ev kt v m) = ev"
  "o_knowledge_time (new_obs n s d et e r ev kt v m) = kt"
  "o_value (new_obs n s d et e r ev kt v m) = v"
  "o_metadata (new_obs n s d et e r ev kt v m) = m"
  "o_revision (new_obs n s d et e r ev kt v m) = 0"
  by (simp_all add: new_obs_def)

end
