(* ===== verification/Store.thy ===== *)
theory Store
  imports Schema
begin

text \<open>
  \<open>storage/bitemporal.py\<close>: revision collapsing and ordering, the \<open>BitemporalStore\<close> protocol as
  a record of operations with a locale for its contract, and the in-memory reference store with
  the interpretation that discharges the contract.
\<close>

section \<open>Shared revision and ordering semantics\<close>

abbreviation version :: "observation \<Rightarrow> datetime \<times> int" where
  "version x \<equiv> (o_knowledge_time x, o_revision x)"

definition collapse_step ::
  "observation \<Rightarrow> (logical_key_t, observation) dict \<Rightarrow> (logical_key_t, observation) dict" where
  "collapse_step x best =
     (case map_of best (logical_key x) of
        None \<Rightarrow> dict_set (logical_key x) x best
      | Some cur \<Rightarrow> if version cur < version x then dict_set (logical_key x) x best else best)"

definition collapse_latest_revisions :: "observation list \<Rightarrow> observation list" where
  "collapse_latest_revisions rows = vals (fold collapse_step rows [])"

definition sort_fields ::
  "observation \<Rightarrow> datetime \<times> datetime \<times> string \<times> string \<times> string \<times> int" where
  "sort_fields x = (o_knowledge_time x, o_event_time x, o_source x, o_dataset x,
     o_entity_id x, o_revision x)"

definition sort_observations :: "observation list \<Rightarrow> observation list" where
  "sort_observations rows = sort_key sort_fields rows"

section \<open>The store protocol\<close>

text \<open>The keyword arguments of \<open>as_of\<close>; a filter that is \<open>None\<close> does not restrict.\<close>

record query =
  q_source :: "string option"
  q_dataset :: "string option"
  q_entity_type :: "string option"
  q_entity_id :: "string option"
  q_latest :: bool

definition q_all :: query where
  "q_all = \<lparr>q_source = None, q_dataset = None, q_entity_type = None, q_entity_id = None,
            q_latest = True\<rparr>"

definition q_of_dataset :: "string \<Rightarrow> query" where
  "q_of_dataset d = q_all\<lparr>q_dataset := Some d\<rparr>"

definition q_of_source :: "string \<Rightarrow> query" where
  "q_of_source s = q_all\<lparr>q_source := Some s\<rparr>"

definition admits :: "'a option \<Rightarrow> 'a \<Rightarrow> bool" where
  "admits f x \<longleftrightarrow> (case f of None \<Rightarrow> True | Some y \<Rightarrow> x = y)"

definition visible :: "datetime \<Rightarrow> query \<Rightarrow> observation \<Rightarrow> bool" where
  "visible k q x \<longleftrightarrow> o_knowledge_time x \<le> k \<and> admits (q_source q) (o_source x)
     \<and> admits (q_dataset q) (o_dataset x) \<and> admits (q_entity_type q) (o_entity_type x)
     \<and> admits (q_entity_id q) (o_entity_id x)"

record 's store_ops =
  st_upsert :: "observation list \<Rightarrow> 's \<Rightarrow> 's"
  st_as_of :: "'s \<Rightarrow> datetime \<Rightarrow> query \<Rightarrow> observation list"
  st_count :: "'s \<Rightarrow> nat"

lemma visible_dataset:
  "visible k (q_of_dataset d) x \<longleftrightarrow> o_dataset x = d \<and> o_knowledge_time x \<le> k"
  by (auto simp: visible_def q_of_dataset_def q_all_def admits_def)

lemma q_latest_dataset [simp]: "q_latest (q_of_dataset d)"
  by (simp add: q_of_dataset_def q_all_def)

section \<open>The in-memory store\<close>

record mem_store = mem_obs :: "(uuid, observation) dict"

definition mem_empty :: mem_store where "mem_empty = \<lparr>mem_obs = []\<rparr>"

definition mem_add :: "observation \<Rightarrow> mem_store \<Rightarrow> mem_store" where
  "mem_add x s = s\<lparr>mem_obs := dict_set (o_id x) x (mem_obs s)\<rparr>"

definition mem_add_many :: "observation list \<Rightarrow> mem_store \<Rightarrow> mem_store" where
  "mem_add_many xs s = fold mem_add xs s"

definition mem_upsert_many :: "observation list \<Rightarrow> mem_store \<Rightarrow> mem_store" where
  "mem_upsert_many xs s = mem_add_many xs s"

definition mem_count :: "mem_store \<Rightarrow> nat" where
  "mem_count s = length (mem_obs s)"

definition mem_as_of :: "mem_store \<Rightarrow> datetime \<Rightarrow> query \<Rightarrow> observation list" where
  "mem_as_of s k q =
     (let r0 = filter (\<lambda>x. o_knowledge_time x \<le> k) (vals (mem_obs s));
          r1 = (case q_source q of None \<Rightarrow> r0 | Some v \<Rightarrow> filter (\<lambda>x. o_source x = v) r0);
          r2 = (case q_dataset q of None \<Rightarrow> r1 | Some v \<Rightarrow> filter (\<lambda>x. o_dataset x = v) r1);
          r3 = (case q_entity_type q of None \<Rightarrow> r2 | Some v \<Rightarrow> filter (\<lambda>x. o_entity_type x = v) r2);
          r4 = (case q_entity_id q of None \<Rightarrow> r3 | Some v \<Rightarrow> filter (\<lambda>x. o_entity_id x = v) r3);
          r5 = (if q_latest q then collapse_latest_revisions r4 else r4)
      in sort_observations r5)"

text \<open>The entry point normalises the requested time first, so a naive one is refused.\<close>

definition mem_as_of_at :: "mem_store \<Rightarrow> pydatetime \<Rightarrow> query \<Rightarrow> observation list res" where
  "mem_as_of_at s kt q = (case ensure_utc kt of Inl e \<Rightarrow> Inl e | Inr k \<Rightarrow> Inr (mem_as_of s k q))"

definition mem_ops :: "mem_store store_ops" where
  "mem_ops = \<lparr>st_upsert = mem_upsert_many, st_as_of = mem_as_of, st_count = mem_count\<rparr>"

definition mem_inv :: "mem_store \<Rightarrow> bool" where
  "mem_inv s \<longleftrightarrow> distinct (keys (mem_obs s)) \<and> (\<forall>(i, x) \<in> set (mem_obs s). o_id x = i)"

definition mem_rows :: "mem_store \<Rightarrow> uuid \<rightharpoonup> observation" where
  "mem_rows s = map_of (mem_obs s)"

section \<open>Collapsing keeps exactly one latest revision per key\<close>

abbreviation latest_dict :: "observation list \<Rightarrow> (logical_key_t, observation) dict" where
  "latest_dict rows \<equiv> fold collapse_step rows []"

lemma latest_dict_snoc [simp]:
  "fold collapse_step (rows @ [x]) [] = collapse_step x (latest_dict rows)"
  by simp

lemma map_of_collapse_step:
  "map_of (collapse_step x best) k =
     (if k = logical_key x then
        (case map_of best k of
           None \<Rightarrow> Some x
         | Some cur \<Rightarrow> Some (if version cur < version x then x else cur))
      else map_of best k)"
  by (auto simp: collapse_step_def dict_simps split: option.split)

lemma latest_dict_distinct: "distinct (keys (latest_dict rows))"
  by (induction rows rule: rev_induct)
    (auto simp: collapse_step_def dict_simps split: option.split)

lemma latest_dict_sound:
  "map_of (latest_dict rows) k = Some v \<Longrightarrow> logical_key v = k \<and> v \<in> set rows"
proof (induction rows arbitrary: v rule: rev_induct)
  case Nil
  then show ?case by simp
next
  case (snoc x rows)
  from snoc.prems have "map_of (latest_dict rows) k = Some v \<or> v = x \<and> k = logical_key x"
    unfolding latest_dict_snoc map_of_collapse_step by (auto split: if_splits option.splits)
  then show ?case using snoc.IH by auto
qed

lemma latest_dict_max:
  "x \<in> set rows \<Longrightarrow>
     \<exists>v. map_of (latest_dict rows) (logical_key x) = Some v \<and> version x \<le> version v"
proof (induction rows rule: rev_induct)
  case Nil
  then show ?case by simp
next
  case (snoc y rows)
  show ?case
  proof (cases "logical_key x = logical_key y")
    case False
    then have "x \<in> set rows" using snoc.prems by auto
    with snoc.IH False show ?thesis unfolding latest_dict_snoc map_of_collapse_step by simp
  next
    case same: True
    show ?thesis
    proof (cases "map_of (latest_dict rows) (logical_key y)")
      case None
      have "x \<notin> set rows" using snoc.IH None unfolding same by (metis option.distinct(1))
      with snoc.prems have "x = y" by simp
      with None show ?thesis unfolding latest_dict_snoc map_of_collapse_step by simp
    next
      case (Some cur)
      have "x \<in> set rows \<Longrightarrow> version x \<le> version cur"
        using snoc.IH Some unfolding same by (metis option.inject)
      moreover have "x = y \<or> x \<in> set rows" using snoc.prems by auto
      ultimately consider "x = y" | "version x \<le> version cur" by blast
      then have "version x \<le> version (if version cur < version y then y else cur)"
      proof cases
        case 1
        then show ?thesis
          by (cases "version cur < version y") (simp_all only: if_True if_False order_refl leI)
      next
        case 2
        then show ?thesis by (cases "version cur < version y")
            (simp_all only: if_True if_False less_imp_le order_trans [OF _ less_imp_le])
      qed
      with same Some show ?thesis unfolding latest_dict_snoc map_of_collapse_step by simp
    qed
  qed
qed

lemma collapse_subset: "set (collapse_latest_revisions rows) \<subseteq> set rows"
proof
  fix v assume "v \<in> set (collapse_latest_revisions rows)"
  then obtain k where "(k, v) \<in> set (latest_dict rows)"
    by (auto simp: collapse_latest_revisions_def)
  then have "map_of (latest_dict rows) k = Some v"
    by (simp add: map_of_in_set [OF latest_dict_distinct])
  then show "v \<in> set rows" by (simp add: latest_dict_sound)
qed

lemma collapse_key_of:
  "(k, v) \<in> set (latest_dict rows) \<Longrightarrow> logical_key v = k"
  by (simp add: map_of_in_set [OF latest_dict_distinct] latest_dict_sound)

lemma collapse_distinct_keys: "distinct (map logical_key (collapse_latest_revisions rows))"
proof -
  have "map logical_key (collapse_latest_revisions rows) = keys (fold collapse_step rows [])"
    unfolding collapse_latest_revisions_def map_map
    by (rule map_cong) (auto dest: collapse_key_of)
  then show ?thesis using latest_dict_distinct [of rows] by simp
qed

lemma collapse_latest:
  assumes "x \<in> set rows"
  shows "\<exists>v \<in> set (collapse_latest_revisions rows).
           logical_key v = logical_key x \<and> version x \<le> version v"
proof -
  obtain v where v: "map_of (latest_dict rows) (logical_key x) = Some v" "version x \<le> version v"
    using latest_dict_max [OF assms] by blast
  then have "v \<in> set (collapse_latest_revisions rows)"
    unfolding collapse_latest_revisions_def by (metis image_eqI map_of_SomeD set_map snd_conv)
  moreover have "logical_key v = logical_key x" using v(1) by (simp add: latest_dict_sound)
  ultimately show ?thesis using v(2) by blast
qed

text \<open>Exactly which row of a key is kept: the first, in the order of the rows, of those with the greatest
  version.\<close>

definition first_latest :: "observation list \<Rightarrow> observation \<Rightarrow> bool" where
  "first_latest rows x \<longleftrightarrow> (\<exists>before after. rows = before @ x # after
     \<and> (\<forall>y \<in> set before. logical_key y = logical_key x \<longrightarrow> version y < version x)
     \<and> (\<forall>y \<in> set after. logical_key y = logical_key x \<longrightarrow> version y \<le> version x))"

lemma first_latest_snoc:
  "first_latest (rows @ [y]) x \<longleftrightarrow>
     (first_latest rows x \<and> (logical_key y = logical_key x \<longrightarrow> version y \<le> version x))
     \<or> (x = y \<and> (\<forall>z \<in> set rows. logical_key z = logical_key y \<longrightarrow> version z < version y))"
  (is "?l \<longleftrightarrow> ?old \<or> ?new")
proof
  assume ?l
  then obtain b a where ba: "rows @ [y] = b @ x # a"
    "\<forall>z \<in> set b. logical_key z = logical_key x \<longrightarrow> version z < version x"
    "\<forall>z \<in> set a. logical_key z = logical_key x \<longrightarrow> version z \<le> version x"
    unfolding first_latest_def by blast
  show "?old \<or> ?new"
  proof (cases a rule: rev_cases)
    case Nil
    then show ?thesis using ba by simp
  next
    case (snoc a' z)
    then have "rows = b @ x # a'" "z = y" using ba(1) by (simp_all flip: append_Cons append_assoc)
    then have ?old using ba snoc unfolding first_latest_def by fastforce
    then show ?thesis ..
  qed
next
  assume "?old \<or> ?new"
  then show ?l
  proof
    assume o: ?old
    then obtain b a where ba: "rows = b @ x # a"
      "\<forall>z \<in> set b. logical_key z = logical_key x \<longrightarrow> version z < version x"
      "\<forall>z \<in> set a. logical_key z = logical_key x \<longrightarrow> version z \<le> version x"
      unfolding first_latest_def by blast
    then show ?l unfolding first_latest_def using o by (intro exI [of _ b] exI [of _ "a @ [y]"]) auto
  next
    assume ?new
    then show ?l unfolding first_latest_def by (intro exI [of _ rows] exI [of _ "[]"]) simp
  qed
qed

lemma first_latest_member: "first_latest rows x \<Longrightarrow> x \<in> set rows"
  by (auto simp: first_latest_def)

lemma latest_dict_first: "map_of (latest_dict rows) k = Some x \<longleftrightarrow> logical_key x = k \<and> first_latest rows x"
proof (induction rows arbitrary: x rule: rev_induct)
  case Nil
  then show ?case by (auto dest: first_latest_member)
next
  case (snoc y rows)
  show ?case
  proof (cases "k = logical_key y")
    case False
    then show ?thesis using snoc.IH unfolding latest_dict_snoc map_of_collapse_step first_latest_snoc by auto
  next
    case k: True
    show ?thesis
    proof (cases "map_of (latest_dict rows) k")
      case None
      then have none: "z \<notin> set rows" if "logical_key z = k" for z
        using latest_dict_max [of z rows] that by auto
      show ?thesis
        using None k none first_latest_member unfolding latest_dict_snoc map_of_collapse_step first_latest_snoc
        by auto
    next
      case (Some cur)
      then have cur: "logical_key cur = k" "first_latest rows cur" "cur \<in> set rows"
        using snoc.IH first_latest_member by auto
      have le: "version z \<le> version cur" if "z \<in> set rows" "logical_key z = k" for z
        using latest_dict_max [OF that(1)] that(2) Some by simp
      have only: "z = cur" if "first_latest rows z" "logical_key z = k" for z
        using snoc.IH [of z] that Some by simp
      show ?thesis
      proof (cases "version cur < version y")
        case True
        then have "logical_key x = k \<and> first_latest (rows @ [y]) x \<longleftrightarrow> x = y"
          unfolding first_latest_snoc using k cur only [of x] le_less_trans [OF le True] iffD2 [OF not_le True] by metis
        then show ?thesis using Some k True unfolding latest_dict_snoc map_of_collapse_step by auto
      next
        case False
        then have "logical_key x = k \<and> first_latest (rows @ [y]) x \<longleftrightarrow> x = cur"
          unfolding first_latest_snoc using k cur only [of x] leI [OF False] by metis
        then show ?thesis using Some k False unfolding latest_dict_snoc map_of_collapse_step by auto
      qed
    qed
  qed
qed

lemma collapse_first_latest: "x \<in> set (collapse_latest_revisions rows) \<longleftrightarrow> first_latest rows x"
proof
  assume "x \<in> set (collapse_latest_revisions rows)"
  then obtain k where "(k, x) \<in> set (latest_dict rows)" by (auto simp: collapse_latest_revisions_def)
  then show "first_latest rows x" by (simp add: map_of_in_set [OF latest_dict_distinct] latest_dict_first)
next
  assume "first_latest rows x"
  then have "map_of (latest_dict rows) (logical_key x) = Some x" by (simp add: latest_dict_first)
  then show "x \<in> set (collapse_latest_revisions rows)"
    unfolding collapse_latest_revisions_def by (metis image_eqI map_of_SomeD set_map snd_conv)
qed

lemma distinct_collapse [simp]: "distinct (collapse_latest_revisions rows)"
  using collapse_distinct_keys [of rows] by (simp add: distinct_map)

text \<open>The collapsed rows do not depend on the order in which the rows arrive, unless two of them
  agree on key and version.\<close>

definition versions_unique :: "observation set \<Rightarrow> bool" where
  "versions_unique A \<longleftrightarrow>
     (\<forall>x \<in> A. \<forall>y \<in> A. logical_key x = logical_key y \<and> version x = version y \<longrightarrow> x = y)"

lemma collapse_member_iff:
  assumes "versions_unique (set rows)"
  shows "v \<in> set (collapse_latest_revisions rows) \<longleftrightarrow>
    v \<in> set rows \<and> (\<forall>x \<in> set rows. logical_key x = logical_key v \<longrightarrow> version x \<le> version v)"
proof
  assume v: "v \<in> set (collapse_latest_revisions rows)"
  have "version x \<le> version v" if x: "x \<in> set rows" "logical_key x = logical_key v" for x
  proof -
    obtain w where w: "w \<in> set (collapse_latest_revisions rows)" "logical_key w = logical_key x"
      "version x \<le> version w" using collapse_latest [OF x(1)] by blast
    then have "w = v"
      using v x(2) collapse_distinct_keys by (metis distinct_map inj_onD)
    with w show ?thesis by simp
  qed
  then show "v \<in> set rows \<and> (\<forall>x \<in> set rows. logical_key x = logical_key v \<longrightarrow> version x \<le> version v)"
    using v collapse_subset by blast
next
  assume a: "v \<in> set rows \<and> (\<forall>x \<in> set rows. logical_key x = logical_key v \<longrightarrow> version x \<le> version v)"
  obtain w where w: "w \<in> set (collapse_latest_revisions rows)" "logical_key w = logical_key v"
    "version v \<le> version w" using collapse_latest a by blast
  then have "w \<in> set rows" "version w \<le> version v" using a collapse_subset by blast+
  with w a assms have "w = v" unfolding versions_unique_def by (metis antisym)
  with w show "v \<in> set (collapse_latest_revisions rows)" by simp
qed

lemma set_sort_observations [simp]: "set (sort_observations rows) = set rows"
  and mset_sort_observations [simp]: "mset (sort_observations rows) = mset rows"
  and distinct_sort_observations [simp]: "distinct (sort_observations rows) = distinct rows"
  and sorted_sort_observations [simp]: "sorted (map sort_fields (sort_observations rows))"
  by (simp_all add: sort_observations_def)

section \<open>The contract of a bitemporal store\<close>

text \<open>
  What the callers of a store rely on: \<open>rows\<close> reads the observation stored under an id and \<open>inv\<close>
  is the provider's invariant.  With \<open>latest_revision_only=False\<close> a read returns exactly the
  visible rows; with it, one row per logical key that no visible row of that key supersedes.
\<close>

definition put_all :: "observation list \<Rightarrow> (uuid \<rightharpoonup> observation) \<Rightarrow> uuid \<rightharpoonup> observation" where
  "put_all xs m = fold (\<lambda>x r. r(o_id x \<mapsto> x)) xs m"

locale bitemporal_store =
  fixes S :: "'s store_ops"
    and rows :: "'s \<Rightarrow> uuid \<rightharpoonup> observation"
    and inv :: "'s \<Rightarrow> bool"
  assumes inv_upsert: "inv s \<Longrightarrow> inv (st_upsert S xs s)"
    and rows_upsert: "inv s \<Longrightarrow> rows (st_upsert S xs s) = put_all xs (rows s)"
    and rows_finite: "inv s \<Longrightarrow> finite (dom (rows s))"
    and rows_id: "inv s \<Longrightarrow> rows s i = Some x \<Longrightarrow> o_id x = i"
    and count_rows: "inv s \<Longrightarrow> st_count S s = card (dom (rows s))"
    and as_of_every: "inv s \<Longrightarrow> \<not> q_latest q \<Longrightarrow>
      set (st_as_of S s k q) = {x \<in> ran (rows s). visible k q x}"
    and as_of_subset: "inv s \<Longrightarrow> set (st_as_of S s k q) \<subseteq> {x \<in> ran (rows s). visible k q x}"
    and as_of_one_per_key: "inv s \<Longrightarrow> q_latest q \<Longrightarrow>
      distinct (map logical_key (st_as_of S s k q))"
    and as_of_supersedes: "inv s \<Longrightarrow> q_latest q \<Longrightarrow> x \<in> ran (rows s) \<Longrightarrow> visible k q x \<Longrightarrow>
      \<exists>v \<in> set (st_as_of S s k q). logical_key v = logical_key x \<and> version x \<le> version v"
    and as_of_distinct: "inv s \<Longrightarrow> distinct (st_as_of S s k q)"
    and as_of_sorted: "inv s \<Longrightarrow> sorted (map sort_fields (st_as_of S s k q))"
begin

lemma as_of_known: "inv s \<Longrightarrow> x \<in> set (st_as_of S s k q) \<Longrightarrow> o_knowledge_time x \<le> k"
  using as_of_subset by (fastforce simp: visible_def)

lemma as_of_admitted:
  "inv s \<Longrightarrow> x \<in> set (st_as_of S s k q) \<Longrightarrow> visible k q x \<and> x \<in> ran (rows s)"
  using as_of_subset by blast

lemma as_of_stored: "inv s \<Longrightarrow> x \<in> set (st_as_of S s k q) \<Longrightarrow> rows s (o_id x) = Some x"
proof -
  assume s: "inv s" and "x \<in> set (st_as_of S s k q)"
  then obtain i where "rows s i = Some x" using as_of_subset by (fastforce simp: ran_def)
  with rows_id [OF s this] show ?thesis by simp
qed

text \<open>
  A row written later than every row of its group (a predicate that the logical key determines) is
  read back, and the other rows of the group that are read are older.
\<close>

lemma newest_row_read:
  assumes "inv s" "q_latest q" "visible k q x"
    and group: "\<And>v. logical_key v = logical_key x \<Longrightarrow> P v"
    and older: "\<And>y. y \<in> ran (rows s) \<Longrightarrow> visible k q y \<Longrightarrow> P y \<Longrightarrow> o_event_time y < o_event_time x"
  shows "x \<in> set (st_as_of S (st_upsert S [x] s) k q)"
    and "\<And>y. y \<in> set (st_as_of S (st_upsert S [x] s) k q) \<Longrightarrow> y \<noteq> x \<Longrightarrow> P y \<Longrightarrow>
           o_event_time y < o_event_time x"
proof -
  let ?s = "st_upsert S [x] s"
  have inv: "inv ?s" using assms(1) by (rule inv_upsert)
  have rows: "rows ?s = (rows s)(o_id x \<mapsto> x)"
    using assms(1) by (simp add: rows_upsert put_all_def)
  show old: "o_event_time y < o_event_time x" if "y \<in> set (st_as_of S ?s k q)" "y \<noteq> x" "P y" for y
  proof -
    have y: "visible k q y" "y \<in> ran (rows ?s)" using as_of_admitted [OF inv that(1)] by auto
    then have "y \<in> ran (rows s)" using that(2) rows by (auto simp: ran_def split: if_splits)
    then show ?thesis using older y(1) that(3) by blast
  qed
  have "x \<in> ran (rows ?s)" using rows by (auto simp: ran_def)
  then obtain v where v: "v \<in> set (st_as_of S ?s k q)" "logical_key v = logical_key x"
    using as_of_supersedes [OF inv assms(2) _ assms(3)] by blast
  have "o_event_time v = o_event_time x" using v(2) by (simp add: logical_key_def)
  with old [OF v(1)] group [OF v(2)] have "v = x" by force
  with v(1) show "x \<in> set (st_as_of S ?s k q)" by simp
qed

lemma ran_upsert_one: "inv s \<Longrightarrow> y \<in> ran (rows (st_upsert S [x] s)) \<Longrightarrow> y = x \<or> y \<in> ran (rows s)"
  by (auto simp: rows_upsert put_all_def ran_def split: if_splits)

text \<open>When no two rows of a key share a version, a read is determined by the stored rows.\<close>

lemma as_of_latest_iff:
  assumes "inv s" "q_latest q" "versions_unique (ran (rows s))"
  shows "x \<in> set (st_as_of S s k q) \<longleftrightarrow> x \<in> ran (rows s) \<and> visible k q x
    \<and> (\<forall>y \<in> ran (rows s). visible k q y \<and> logical_key y = logical_key x \<longrightarrow> version y \<le> version x)"
proof
  assume x: "x \<in> set (st_as_of S s k q)"
  have "version y \<le> version x"
    if y: "y \<in> ran (rows s)" "visible k q y" "logical_key y = logical_key x" for y
  proof -
    obtain v where v: "v \<in> set (st_as_of S s k q)" "logical_key v = logical_key y"
      "version y \<le> version v" using as_of_supersedes [OF assms(1,2) y(1,2)] by blast
    moreover have "v = x"
      using as_of_one_per_key [OF assms(1,2)] x v(1,2) y(3) by (metis distinct_map inj_onD)
    ultimately show ?thesis by simp
  qed
  then show "x \<in> ran (rows s) \<and> visible k q x
    \<and> (\<forall>y \<in> ran (rows s). visible k q y \<and> logical_key y = logical_key x \<longrightarrow> version y \<le> version x)"
    using as_of_admitted [OF assms(1) x] by blast
next
  assume a: "x \<in> ran (rows s) \<and> visible k q x
    \<and> (\<forall>y \<in> ran (rows s). visible k q y \<and> logical_key y = logical_key x \<longrightarrow> version y \<le> version x)"
  obtain v where v: "v \<in> set (st_as_of S s k q)" "logical_key v = logical_key x"
    "version x \<le> version v" using as_of_supersedes assms(1,2) a by blast
  have "v \<in> ran (rows s)" "visible k q v" using as_of_admitted [OF assms(1) v(1)] by auto
  moreover from this a v have "version v = version x" by (metis antisym)
  ultimately have "v = x" using assms(3) a v(2) unfolding versions_unique_def by blast
  with v show "x \<in> set (st_as_of S s k q)" by simp
qed

lemma upsert_twice:
  assumes "inv s" "distinct (map o_id xs)"
  shows "rows (st_upsert S xs (st_upsert S xs s)) = rows (st_upsert S xs s)"
proof -
  have id: "put_all xs (put_all xs m) = put_all xs m" if "distinct (map o_id xs)" for m
  proof -
    have val: "put_all xs m i =
      (case map_of (map (\<lambda>x. (o_id x, x)) (rev xs)) i of None \<Rightarrow> m i | Some x \<Rightarrow> Some x)" for m i
      unfolding put_all_def
      by (induction xs arbitrary: m)
        (auto simp: map_of_append map_add_def split: option.splits)
    show ?thesis by (rule ext) (auto simp: val split: option.split)
  qed
  show ?thesis using assms by (simp add: rows_upsert inv_upsert id)
qed

end

section \<open>The in-memory store meets the contract\<close>

text \<open>Both stores read the same way from their list of rows.\<close>

definition read_rows :: "observation list \<Rightarrow> datetime \<Rightarrow> query \<Rightarrow> observation list" where
  "read_rows xs k q = sort_observations
     ((if q_latest q then collapse_latest_revisions else id) (filter (visible k q) xs))"

lemma mem_as_of_read: "mem_as_of s k q = read_rows (vals (mem_obs s)) k q"
proof -
  have pick: "(case f of None \<Rightarrow> r | Some v \<Rightarrow> filter (\<lambda>x. g x = v) r) =
    filter (\<lambda>x. admits f (g x)) r" for f :: "'a option" and g :: "observation \<Rightarrow> 'a" and r
    by (cases f) (simp_all add: admits_def)
  have chain: "filter (\<lambda>x. admits (q_entity_id q) (o_entity_id x))
      (filter (\<lambda>x. admits (q_entity_type q) (o_entity_type x))
        (filter (\<lambda>x. admits (q_dataset q) (o_dataset x))
          (filter (\<lambda>x. admits (q_source q) (o_source x))
            (filter (\<lambda>x. o_knowledge_time x \<le> k) r)))) = filter (visible k q) r" for r
    unfolding filter_filter by (rule filter_cong) (auto simp: visible_def)
  show ?thesis unfolding mem_as_of_def Let_def pick chain read_rows_def by simp
qed

lemma read_rows_subset: "set (read_rows xs k q) \<subseteq> {x \<in> set xs. visible k q x}"
  using collapse_subset [of "filter (visible k q) xs"] by (auto simp: read_rows_def)

lemma read_rows_every: "\<not> q_latest q \<Longrightarrow> set (read_rows xs k q) = {x \<in> set xs. visible k q x}"
  by (auto simp: read_rows_def)

lemma read_rows_one_per_key:
  assumes "q_latest q"
  shows "distinct (map logical_key (read_rows xs k q))"
proof -
  let ?c = "collapse_latest_revisions (filter (visible k q) xs)"
  have "mset (map logical_key (sort_observations ?c)) = mset (map logical_key ?c)"
    by (simp only: mset_map mset_sort_observations)
  then have "distinct (map logical_key (sort_observations ?c)) = distinct (map logical_key ?c)"
    by (rule mset_eq_imp_distinct_iff)
  then show ?thesis using assms collapse_distinct_keys by (simp add: read_rows_def)
qed

lemma read_rows_supersedes:
  "q_latest q \<Longrightarrow> x \<in> set xs \<Longrightarrow> visible k q x \<Longrightarrow>
     \<exists>v \<in> set (read_rows xs k q). logical_key v = logical_key x \<and> version x \<le> version v"
  using collapse_latest [of x "filter (visible k q) xs"] by (simp add: read_rows_def)

lemma read_rows_distinct: "distinct xs \<Longrightarrow> distinct (read_rows xs k q)"
  by (simp add: read_rows_def)

lemma read_rows_sorted: "sorted (map sort_fields (read_rows xs k q))"
  by (simp add: read_rows_def)

lemma mem_obs_upsert: "mem_obs (mem_upsert_many xs s) = fold (\<lambda>x. dict_set (o_id x) x) xs (mem_obs s)"
  unfolding mem_upsert_many_def mem_add_many_def
  by (induction xs arbitrary: s) (simp_all add: mem_add_def)

lemma mem_rows_upsert: "mem_rows (mem_upsert_many xs s) = put_all xs (mem_rows s)"
  unfolding mem_rows_def mem_obs_upsert put_all_def
  by (induction xs arbitrary: s rule: rev_induct) (simp_all add: dict_simps)

lemma mem_inv_empty: "mem_inv mem_empty"
  by (simp add: mem_inv_def mem_empty_def)

lemma mem_inv_add: "mem_inv s \<Longrightarrow> mem_inv (mem_add x s)"
  unfolding mem_inv_def mem_add_def by (auto simp: dict_simps set_dict_set)

lemma mem_inv_upsert: "mem_inv s \<Longrightarrow> mem_inv (mem_upsert_many xs s)"
  unfolding mem_upsert_many_def mem_add_many_def
  by (rule fold_invariant_list) (auto intro: mem_inv_add)

lemma mem_vals_ran: "mem_inv s \<Longrightarrow> set (vals (mem_obs s)) = ran (mem_rows s)"
  unfolding mem_inv_def mem_rows_def by (auto simp: ran_distinct)

lemma mem_vals_distinct:
  assumes "mem_inv s"
  shows "distinct (vals (mem_obs s))"
proof -
  have "map o_id (vals (mem_obs s)) = keys (mem_obs s)"
    using assms by (auto simp: mem_inv_def)
  then have "distinct (map o_id (vals (mem_obs s)))" by (metis assms mem_inv_def)
  then show ?thesis using distinct_map by blast
qed

interpretation mem: bitemporal_store mem_ops mem_rows mem_inv
proof
  fix s :: mem_store and xs k q x i
  assume s: "mem_inv s"
  show "mem_inv (st_upsert mem_ops xs s)"
    using s by (simp add: mem_ops_def mem_inv_upsert)
  show "mem_rows (st_upsert mem_ops xs s) = put_all xs (mem_rows s)"
    by (simp add: mem_ops_def mem_rows_upsert)
  show "finite (dom (mem_rows s))" by (simp add: mem_rows_def finite_dom_map_of)
  show "o_id x = i" if "mem_rows s i = Some x"
    using s that by (auto simp: mem_inv_def mem_rows_def dest: map_of_SomeD)
  show "st_count mem_ops s = card (dom (mem_rows s))"
    using s by (simp add: mem_ops_def mem_count_def mem_rows_def mem_inv_def dom_map_of_conv_image_fst
        distinct_card flip: set_map)
  show "set (st_as_of mem_ops s k q) = {x \<in> ran (mem_rows s). visible k q x}" if "\<not> q_latest q"
    using that s by (simp add: mem_ops_def mem_as_of_read read_rows_every mem_vals_ran flip: set_map)
  show "set (st_as_of mem_ops s k q) \<subseteq> {x \<in> ran (mem_rows s). visible k q x}"
    using read_rows_subset [of "vals (mem_obs s)" k q]
    unfolding mem_vals_ran [OF s] by (simp add: mem_ops_def mem_as_of_read)
  show "distinct (map logical_key (st_as_of mem_ops s k q))" if "q_latest q"
    using that by (simp add: mem_ops_def mem_as_of_read read_rows_one_per_key)
  show "\<exists>v \<in> set (st_as_of mem_ops s k q). logical_key v = logical_key x \<and> version x \<le> version v"
    if "q_latest q" "x \<in> ran (mem_rows s)" "visible k q x"
    using that s read_rows_supersedes by (simp add: mem_ops_def mem_as_of_read flip: mem_vals_ran)
  show "distinct (st_as_of mem_ops s k q)"
    using s by (simp add: mem_ops_def mem_as_of_read read_rows_distinct mem_vals_distinct)
  show "sorted (map sort_fields (st_as_of mem_ops s k q))"
    by (simp add: mem_ops_def mem_as_of_read read_rows_sorted)
qed

text \<open>Facts that become known only after \<open>k\<close> do not change what a reader sees as of \<open>k\<close>.\<close>

lemma put_later_rows:
  assumes "distinct (keys d)" "\<forall>x \<in> set xs. o_id x \<notin> set (keys d) \<and> k < o_knowledge_time x"
  shows "filter (\<lambda>x. o_knowledge_time x \<le> k) (vals (fold (\<lambda>x. dict_set (o_id x) x) xs d))
    = filter (\<lambda>x. o_knowledge_time x \<le> k) (vals d)"
proof -
  have split: "\<exists>es. fold (\<lambda>x. dict_set (o_id x) x) xs d = d @ es
      \<and> (\<forall>(i, x) \<in> set es. k < o_knowledge_time x)"
    using assms(2)
  proof (induction xs rule: rev_induct)
    case Nil
    then show ?case by simp
  next
    case (snoc x xs)
    then obtain es where es: "fold (\<lambda>x. dict_set (o_id x) x) xs d = d @ es"
      "\<forall>(i, x) \<in> set es. k < o_knowledge_time x" by auto
    have "dict_set (o_id x) x (d @ es) = d @ dict_set (o_id x) x es"
      using snoc.prems by (induction d) auto
    moreover have "\<forall>(i, y) \<in> set (dict_set (o_id x) x es). k < o_knowledge_time y"
    proof -
      have "set (dict_set a v es) \<subseteq> insert (a, v) (set es)" for a :: uuid and v
        by (induction es) auto
      then show ?thesis using es(2) snoc.prems by fastforce
    qed
    ultimately show ?case using es(1) by auto
  qed
  then obtain es where "fold (\<lambda>x. dict_set (o_id x) x) xs d = d @ es"
    "\<forall>(i, x) \<in> set es. k < o_knowledge_time x" by blast
  then show ?thesis by (auto simp: filter_empty_conv)
qed

section \<open>Properties of the reference store\<close>

lemma future_rows_unread:
  assumes "mem_inv s"
    and "\<forall>x \<in> set xs. o_id x \<notin> set (keys (mem_obs s)) \<and> k < o_knowledge_time x"
  shows "mem_as_of (mem_upsert_many xs s) k q = mem_as_of s k q"
proof -
  have vis: "filter (visible k q) r = filter (visible k q) (filter (\<lambda>x. o_knowledge_time x \<le> k) r)"
    for r unfolding filter_filter by (rule filter_cong) (auto simp: visible_def)
  have "filter (\<lambda>x. o_knowledge_time x \<le> k) (vals (mem_obs (mem_upsert_many xs s)))
      = filter (\<lambda>x. o_knowledge_time x \<le> k) (vals (mem_obs s))"
    unfolding mem_obs_upsert using assms by (intro put_later_rows) (simp_all add: mem_inv_def)
  then show ?thesis unfolding mem_as_of_read read_rows_def by (metis vis)
qed

text \<open>C4: no lookahead.  Whatever is ingested later, a read as of \<open>k\<close> returns exactly the list it
  returned before, provided the new facts became known after \<open>k\<close> and have new ids.\<close>

theorem mem_no_lookahead:
  assumes "mem_inv s"
    and "\<forall>x \<in> set xs. o_id x \<notin> set (keys (mem_obs s)) \<and> k < o_knowledge_time x"
  shows "mem_as_of (mem_upsert_many xs s) k q = mem_as_of s k q"
  by (rule future_rows_unread [OF assms])

definition sample_obs :: "nat \<Rightarrow> datetime \<Rightarrow> observation" where
  "sample_obs i k = (new_obs k ''stooq'' ''price.daily'' ''equity'' ''SPY'' None 0 k
     [(''close'', PFloat (Fin 100))] [])\<lparr>o_id := Uuid4 i\<rparr>"

lemma mem_no_lookahead_witness:
  "mem_as_of (mem_upsert_many [sample_obs 1 9] (mem_upsert_many [sample_obs 0 3] mem_empty)) 5 q_all
   = mem_as_of (mem_upsert_many [sample_obs 0 3] mem_empty) 5 q_all"
proof (rule mem_no_lookahead)
  show "mem_inv (mem_upsert_many [sample_obs 0 3] mem_empty)"
    by (rule mem_inv_upsert) (rule mem_inv_empty)
qed (simp add: mem_obs_upsert mem_empty_def sample_obs_def)

text \<open>C19: the point-in-time contract.  A read of the latest revisions contains an observation exactly when
  it is stored, known by \<open>k\<close> and selected by the filters, no selected observation with the same logical
  key has a later (knowledge time, revision), and none stored before it has the same one: of rows that
  share both key and version, the one that came into the store first is read.  Every selected observation
  is represented by its logical key, no key is read twice, and the rows come sorted.\<close>

theorem mem_as_of_latest_spec:
  assumes "q_latest q"
  shows "(\<forall>x. x \<in> set (mem_as_of s k q) \<longleftrightarrow>
        (\<exists>before after. filter (visible k q) (vals (mem_obs s)) = before @ x # after
          \<and> (\<forall>y \<in> set before. logical_key y = logical_key x \<longrightarrow> version y < version x)
          \<and> (\<forall>y \<in> set after. logical_key y = logical_key x \<longrightarrow> version y \<le> version x)))
    \<and> logical_key ` set (mem_as_of s k q) = logical_key ` {x \<in> set (vals (mem_obs s)). visible k q x}
    \<and> distinct (map logical_key (mem_as_of s k q)) \<and> sorted (map sort_fields (mem_as_of s k q))"
proof (intro conjI allI)
  let ?rows = "filter (visible k q) (vals (mem_obs s))"
  have read: "mem_as_of s k q = sort_observations (collapse_latest_revisions ?rows)"
    using assms by (simp add: mem_as_of_read read_rows_def)
  show "x \<in> set (mem_as_of s k q) \<longleftrightarrow> (\<exists>before after. ?rows = before @ x # after
          \<and> (\<forall>y \<in> set before. logical_key y = logical_key x \<longrightarrow> version y < version x)
          \<and> (\<forall>y \<in> set after. logical_key y = logical_key x \<longrightarrow> version y \<le> version x))" for x
    unfolding read using collapse_first_latest [of x ?rows] by (simp add: first_latest_def)
  show "logical_key ` set (mem_as_of s k q) = logical_key ` {x \<in> set (vals (mem_obs s)). visible k q x}"
  proof
    show "logical_key ` set (mem_as_of s k q) \<subseteq> logical_key ` {x \<in> set (vals (mem_obs s)). visible k q x}"
      unfolding read using collapse_subset [of ?rows] by auto
    show "logical_key ` {x \<in> set (vals (mem_obs s)). visible k q x} \<subseteq> logical_key ` set (mem_as_of s k q)"
    proof
      fix l assume "l \<in> logical_key ` {x \<in> set (vals (mem_obs s)). visible k q x}"
      then obtain x where "x \<in> set ?rows" "l = logical_key x" by auto
      with collapse_latest [OF this(1)] show "l \<in> logical_key ` set (mem_as_of s k q)"
        unfolding read set_sort_observations by (metis image_eqI)
    qed
  qed
  show "distinct (map logical_key (mem_as_of s k q))"
    unfolding read using collapse_distinct_keys [of ?rows]
    by (metis mset_map mset_sort_observations mset_eq_imp_distinct_iff)
  show "sorted (map sort_fields (mem_as_of s k q))" unfolding read by (rule sorted_sort_observations)
qed

text \<open>Two rows of one key and version: the first one stored is read.\<close>

lemma mem_as_of_latest_spec_witness:
  "sample_obs 0 3 \<in> set (mem_as_of \<lparr>mem_obs = [(Uuid4 0, sample_obs 0 3), (Uuid4 1, (sample_obs 0 3)\<lparr>o_id := Uuid4 1\<rparr>)]\<rparr> 5 q_all)"
proof -
  let ?x = "sample_obs 0 3" and ?y = "(sample_obs 0 3)\<lparr>o_id := Uuid4 1\<rparr>"
  let ?s = "\<lparr>mem_obs = [(Uuid4 0, ?x), (Uuid4 1, ?y)]\<rparr> :: mem_store"
  have rows: "filter (visible 5 q_all) (vals (mem_obs ?s)) = [] @ ?x # [?y]"
    by (simp add: visible_def q_all_def admits_def sample_obs_def)
  have same: "logical_key ?y = logical_key ?x" "version ?y = version ?x"
    by (simp_all add: logical_key_def)
  have "q_latest q_all" by (simp add: q_all_def)
  note spec = mem_as_of_latest_spec [OF this, of ?s 5, THEN conjunct1, THEN spec, of ?x, THEN iffD2]
  show ?thesis by (rule spec, rule exI, rule exI, rule conjI, rule rows) (simp add: same)
qed

end
