(* ===== verification/SqlStore.thy ===== *)
theory SqlStore
  imports Store
begin

text \<open>
  \<open>storage/sqlalchemy_store.py\<close>: the row type, the two conversions, the writes and the
  point-in-time query, with the refinement of the in-memory store.

  SQLAlchemy and the database are not part of the repository.  The table is its rows by primary
  key; what the database decides is a parameter: \<open>scan\<close> is the order in which a query
  returns the rows that match, \<open>json\<close> is what a JSON column gives back for a stored value.  The
  locale \<open>sql_engine\<close> states what the code relies on: a query returns each row once, and
  a JSON column gives back what was stored.  The 36-character text of an id is kept as the id.
\<close>

section \<open>Rows\<close>

record observation_row =
  r_observation_id :: uuid
  r_source :: string
  r_dataset :: string
  r_entity_type :: string
  r_entity_id :: string
  r_ref :: "string option"
  r_event_time :: pydatetime
  r_knowledge_time :: pydatetime
  r_revision :: int
  r_value :: payload
  r_metadata :: payload
  r_ingested_at :: pydatetime

text \<open>A zone-less column holds the UTC reading of an instant.\<close>

definition naive_col :: "datetime \<Rightarrow> pydatetime" where
  "naive_col t = Naive t"

lemma naive_col_is_naive_utc: "naive_utc (Aware t 0) = Inr (naive_col t)"
  by (simp add: naive_utc_def naive_col_def)

fun local_us :: "pydatetime \<Rightarrow> int" where
  "local_us (Naive l) = l"
| "local_us (Aware l off) = l"

definition to_row :: "observation \<Rightarrow> observation_row" where
  "to_row x = \<lparr>r_observation_id = o_id x, r_source = o_source x, r_dataset = o_dataset x,
     r_entity_type = o_entity_type x, r_entity_id = o_entity_id x, r_ref = o_ref x,
     r_event_time = naive_col (o_event_time x), r_knowledge_time = naive_col (o_knowledge_time x),
     r_revision = o_revision x, r_value = o_value x, r_metadata = o_metadata x,
     r_ingested_at = naive_col (o_ingested_at x)\<rparr>"

definition to_obs :: "(payload \<Rightarrow> payload) \<Rightarrow> observation_row \<Rightarrow> observation" where
  "to_obs json r = \<lparr>o_source = r_source r, o_dataset = r_dataset r,
     o_entity_type = r_entity_type r, o_entity_id = r_entity_id r, o_ref = r_ref r,
     o_event_time = to_utc_lenient (r_event_time r),
     o_knowledge_time = to_utc_lenient (r_knowledge_time r),
     o_value = json (r_value r), o_metadata = json (r_metadata r), o_revision = r_revision r,
     o_id = r_observation_id r, o_ingested_at = to_utc_lenient (r_ingested_at r)\<rparr>"

section \<open>Writes and reads\<close>

type_synonym sql_table = "(uuid, observation_row) dict"

definition sql_insert :: "observation_row \<Rightarrow> sql_table \<Rightarrow> sql_table res" where
  "sql_insert r t = (if r_observation_id r \<in> set (keys t) then Inl IntegrityError
                     else Inr (t @ [(r_observation_id r, r)]))"

text \<open>\<open>add_many\<close> inserts in one transaction: a duplicate primary key leaves the table as it was.\<close>

fun sql_insert_all :: "observation_row list \<Rightarrow> sql_table \<Rightarrow> sql_table res" where
  "sql_insert_all [] t = Inr t"
| "sql_insert_all (r # rs) t =
     (case sql_insert r t of Inl e \<Rightarrow> Inl e | Inr t' \<Rightarrow> sql_insert_all rs t')"

definition sql_add_many :: "observation list \<Rightarrow> sql_table \<Rightarrow> sql_table \<times> unit res" where
  "sql_add_many xs t =
     (let rows = map to_row xs
      in if rows = [] then (t, Inr ())
         else (case sql_insert_all rows t of Inl e \<Rightarrow> (t, Inl e) | Inr t' \<Rightarrow> (t', Inr ())))"

definition sql_add :: "observation \<Rightarrow> sql_table \<Rightarrow> sql_table \<times> unit res" where
  "sql_add x t = sql_add_many [x] t"

definition sql_merge :: "observation_row \<Rightarrow> sql_table \<Rightarrow> sql_table" where
  "sql_merge r t = dict_set (r_observation_id r) r t"

definition sql_upsert_many :: "observation list \<Rightarrow> sql_table \<Rightarrow> sql_table" where
  "sql_upsert_many xs t =
     (let rows = map to_row xs in if rows = [] then t else fold sql_merge rows t)"

definition sql_count :: "sql_table \<Rightarrow> nat" where
  "sql_count t = length t"

definition sql_where ::
  "int \<Rightarrow> datetime option \<Rightarrow> query \<Rightarrow> observation_row \<Rightarrow> bool" where
  "sql_where k since q r \<longleftrightarrow>
     local_us (r_knowledge_time r) \<le> k
     \<and> (case since of None \<Rightarrow> True | Some t \<Rightarrow> local_us (naive_col t) \<le> local_us (r_event_time r))
     \<and> admits (q_source q) (r_source r) \<and> admits (q_dataset q) (r_dataset r)
     \<and> admits (q_entity_type q) (r_entity_type r) \<and> admits (q_entity_id q) (r_entity_id r)"

definition sql_as_of_since ::
  "(observation_row list \<Rightarrow> observation_row list) \<Rightarrow> (payload \<Rightarrow> payload) \<Rightarrow> datetime option
   \<Rightarrow> sql_table \<Rightarrow> datetime \<Rightarrow> query \<Rightarrow> observation list" where
  "sql_as_of_since scan json since t kt q =
     (let k = local_us (naive_col kt);
          observations = map (to_obs json) (scan (filter (sql_where k since q) (vals t)));
          observations' = (if q_latest q then collapse_latest_revisions observations
                           else observations)
      in sort_observations observations')"

definition sql_as_of ::
  "(observation_row list \<Rightarrow> observation_row list) \<Rightarrow> (payload \<Rightarrow> payload) \<Rightarrow> sql_table \<Rightarrow> datetime
   \<Rightarrow> query \<Rightarrow> observation list" where
  "sql_as_of scan json = sql_as_of_since scan json None"

definition sql_ops ::
  "(observation_row list \<Rightarrow> observation_row list) \<Rightarrow> (payload \<Rightarrow> payload) \<Rightarrow> sql_table store_ops" where
  "sql_ops scan json =
     \<lparr>st_upsert = sql_upsert_many, st_as_of = sql_as_of scan json, st_count = sql_count\<rparr>"

section \<open>The table as a store\<close>

abbreviation obs_of_row :: "observation_row \<Rightarrow> observation" where
  "obs_of_row \<equiv> to_obs id"

definition table_store :: "sql_table \<Rightarrow> mem_store" where
  "table_store t = \<lparr>mem_obs = map (\<lambda>(i, r). (i, obs_of_row r)) t\<rparr>"

definition naive_row :: "observation_row \<Rightarrow> bool" where
  "naive_row r \<longleftrightarrow> (\<exists>a b c. r_event_time r = Naive a \<and> r_knowledge_time r = Naive b
     \<and> r_ingested_at r = Naive c)"

definition sql_inv :: "sql_table \<Rightarrow> bool" where
  "sql_inv t \<longleftrightarrow> mem_inv (table_store t) \<and> (\<forall>r \<in> set (vals t). naive_row r)"

definition sql_rows :: "sql_table \<Rightarrow> uuid \<rightharpoonup> observation" where
  "sql_rows t = mem_rows (table_store t)"

lemma to_obs_to_row [simp]: "obs_of_row (to_row x) = x"
  by (simp add: to_obs_def to_row_def naive_col_def)

lemma naive_to_row [simp]: "naive_row (to_row x)"
  by (simp add: naive_row_def to_row_def naive_col_def)

lemma r_observation_id_to_row [simp]: "r_observation_id (to_row x) = o_id x"
  by (simp add: to_row_def)

lemma table_store_merge:
  "table_store (sql_merge (to_row x) t) = mem_add x (table_store t)"
proof -
  have "map (\<lambda>(i, r). (i, obs_of_row r)) (dict_set k r t) =
    dict_set k (obs_of_row r) (map (\<lambda>(i, r). (i, obs_of_row r)) t)" for k r
    by (induction t) auto
  then show ?thesis by (simp add: table_store_def sql_merge_def mem_add_def)
qed

lemma sql_upsert_fold: "sql_upsert_many xs t = fold (\<lambda>x. sql_merge (to_row x)) xs t"
  by (simp add: sql_upsert_many_def Let_def fold_map comp_def)

lemma table_store_upsert:
  "table_store (sql_upsert_many xs t) = mem_upsert_many xs (table_store t)"
  unfolding sql_upsert_fold mem_upsert_many_def mem_add_many_def
  by (induction xs arbitrary: t) (simp_all add: table_store_merge)

lemma sql_inv_empty: "sql_inv []"
  by (simp add: sql_inv_def table_store_def mem_inv_def)

lemma sql_inv_upsert: "sql_inv t \<Longrightarrow> sql_inv (sql_upsert_many xs t)"
proof -
  assume t: "sql_inv t"
  have "\<forall>r \<in> set (vals (fold (\<lambda>x. sql_merge (to_row x)) xs t)). naive_row r"
  proof (rule fold_invariant_list)
    show "\<forall>r \<in> set (vals t). naive_row r" using t by (simp add: sql_inv_def)
    fix x and s :: sql_table
    assume s: "\<forall>r \<in> set (vals s). naive_row r"
    have "set (dict_set k v s) \<subseteq> insert (k, v) (set s)" for k and v :: observation_row
      by (induction s) auto
    then show "\<forall>r \<in> set (vals (sql_merge (to_row x) s)). naive_row r"
      using s by (fastforce simp: sql_merge_def)
  qed
  then show ?thesis
    using t by (simp add: sql_inv_def table_store_upsert mem_inv_upsert sql_upsert_fold [symmetric])
qed

lemma sql_where_visible:
  "naive_row r \<Longrightarrow> sql_where k None q r \<longleftrightarrow> visible k q (obs_of_row r)"
  by (auto simp: naive_row_def sql_where_def visible_def to_obs_def)

text \<open>What the code relies on from SQLAlchemy and the database.\<close>

locale sql_engine =
  fixes scan :: "observation_row list \<Rightarrow> observation_row list"
    and json :: "payload \<Rightarrow> payload"
  assumes scan_rows: "mset (scan rs) = mset rs"
    and json_value: "json v = v"
begin

lemma sql_read:
  assumes "sql_inv t"
  obtains xs where "mset xs = mset (vals (mem_obs (table_store t)))"
    and "sql_as_of scan json t k q = read_rows xs k q"
proof -
  have j: "to_obs json = obs_of_row" by (rule ext) (simp add: to_obs_def json_value)
  let ?sel = "\<lambda>rs. filter (sql_where k None q) rs"
  let ?xs = "map obs_of_row (scan (?sel (vals t)) @ filter (\<lambda>r. \<not> sql_where k None q r) (vals t))"
  have set_scan: "set (scan (?sel (vals t))) = set (?sel (vals t))"
    using scan_rows mset_eq_setD by blast
  have w: "sql_where k None q r \<longleftrightarrow> visible k q (obs_of_row r)" if "r \<in> set (vals t)" for r
    using that assms by (intro sql_where_visible) (auto simp: sql_inv_def)
  have "filter (visible k q) (map obs_of_row (scan (?sel (vals t)))) =
      map obs_of_row (scan (?sel (vals t)))"
    unfolding filter_id_conv using set_scan w by auto
  moreover have "filter (visible k q)
      (map obs_of_row (filter (\<lambda>r. \<not> sql_where k None q r) (vals t))) = []"
    unfolding filter_empty_conv using w by auto
  ultimately have f: "filter (visible k q) ?xs = map obs_of_row (scan (?sel (vals t)))"
    by (simp only: map_append filter_append append_Nil2)
  show thesis
  proof
    show "mset ?xs = mset (vals (mem_obs (table_store t)))"
    proof -
      let ?n = "filter (\<lambda>r. \<not> sql_where k None q r) (vals t)"
      have "mset (?sel (vals t)) + mset ?n = mset (vals t)"
        by (metis mset_filter multiset_partition)
      then have "image_mset obs_of_row (mset (?sel (vals t)) + mset ?n) = mset (map obs_of_row (vals t))"
        by (simp only: mset_map)
      moreover have "mset ?xs = image_mset obs_of_row (mset (?sel (vals t)) + mset ?n)"
        by (simp only: mset_map mset_append scan_rows)
      moreover have "vals (mem_obs (table_store t)) = map obs_of_row (vals t)"
        by (simp add: table_store_def split_def)
      ultimately show ?thesis by simp
    qed
    show "sql_as_of scan json t k q = read_rows ?xs k q"
      unfolding read_rows_def f
      by (simp add: sql_as_of_def sql_as_of_since_def Let_def j naive_col_def)
  qed
qed

end

sublocale sql_engine \<subseteq> sql: bitemporal_store "sql_ops scan json" sql_rows sql_inv
proof
  fix t :: sql_table and xs k q x i
  assume t: "sql_inv t"
  then have m: "mem_inv (table_store t)" by (simp add: sql_inv_def)
  obtain ys where ys: "mset ys = mset (vals (mem_obs (table_store t)))"
    and read: "sql_as_of scan json t k q = read_rows ys k q"
    using sql_read [OF t] by blast
  have set_ys: "set ys = ran (sql_rows t)"
    using mset_eq_setD [OF ys] mem_vals_ran [OF m] by (simp add: sql_rows_def)
  have dist_ys: "distinct ys"
    using mset_eq_imp_distinct_iff [OF ys] mem_vals_distinct [OF m] by simp
  show "sql_inv (st_upsert (sql_ops scan json) xs t)"
    using t by (simp add: sql_ops_def sql_inv_upsert)
  show "sql_rows (st_upsert (sql_ops scan json) xs t) = put_all xs (sql_rows t)"
    by (simp add: sql_ops_def sql_rows_def table_store_upsert mem_rows_upsert)
  show "finite (dom (sql_rows t))"
    unfolding sql_rows_def by (rule mem.rows_finite [OF m])
  show "o_id x = i" if "sql_rows t i = Some x"
    using that unfolding sql_rows_def by (rule mem.rows_id [OF m])
  show "st_count (sql_ops scan json) t = card (dom (sql_rows t))"
    using mem.count_rows [OF m]
    by (simp add: sql_rows_def sql_ops_def sql_count_def mem_ops_def mem_count_def table_store_def)
  show "set (st_as_of (sql_ops scan json) t k q) = {x \<in> ran (sql_rows t). visible k q x}"
    if "\<not> q_latest q"
    using that by (simp add: sql_ops_def read read_rows_every set_ys)
  show "set (st_as_of (sql_ops scan json) t k q) \<subseteq> {x \<in> ran (sql_rows t). visible k q x}"
    using read_rows_subset [of ys k q] by (simp add: sql_ops_def read set_ys)
  show "distinct (map logical_key (st_as_of (sql_ops scan json) t k q))" if "q_latest q"
    using that by (simp add: sql_ops_def read read_rows_one_per_key)
  show "\<exists>v \<in> set (st_as_of (sql_ops scan json) t k q).
      logical_key v = logical_key x \<and> version x \<le> version v"
    if "q_latest q" "x \<in> ran (sql_rows t)" "visible k q x"
    using that read_rows_supersedes [of q x ys k] by (simp add: sql_ops_def read set_ys)
  show "distinct (st_as_of (sql_ops scan json) t k q)"
    using dist_ys by (simp add: sql_ops_def read read_rows_distinct)
  show "sorted (map sort_fields (st_as_of (sql_ops scan json) t k q))"
    by (simp add: sql_ops_def read read_rows_sorted)
qed

text \<open>An engine that returns the rows in insertion order.\<close>

interpretation ordered_sql: sql_engine id id
  by unfold_locales simp_all

section \<open>The SQL store refines the in-memory store\<close>

lemma read_rows_mset:
  assumes eq: "mset xs = mset ys" and dist: "distinct xs"
    and vu: "versions_unique (set xs)" and inj: "inj_on sort_fields {x \<in> set xs. visible k q x}"
  shows "read_rows xs k q = read_rows ys k q"
proof -
  let ?c = "(if q_latest q then collapse_latest_revisions else id)"
  let ?f = "filter (visible k q)"
  have sets: "set ys = set xs" "distinct ys"
    using eq dist mset_eq_setD mset_eq_imp_distinct_iff by metis+
  have mem: "set (?c (?f xs)) = set (?c (?f ys))"
  proof (cases "q_latest q")
    case True
    have "versions_unique (set (?f zs))" if "set zs = set xs" for zs
      using vu that by (auto simp: versions_unique_def)
    then show ?thesis using True sets by (auto simp: collapse_member_iff)
  next
    case False
    then show ?thesis using sets by simp
  qed
  have "distinct (?c (?f xs))" "distinct (?c (?f ys))" using dist sets by simp_all
  with mem have "mset (?c (?f xs)) = mset (?c (?f ys))"
    using set_eq_iff_mset_eq_distinct by blast
  moreover have "inj_on sort_fields (set (?c (?f xs)))"
    using collapse_subset [of "?f xs"] by (intro inj_on_subset [OF inj]) auto
  ultimately show ?thesis
    unfolding read_rows_def sort_observations_def using sort_key_inj_mset_eq by blast
qed

text \<open>C14: the SQL store is a refinement of the in-memory store, the oracle it is tested against:
  through the stored rows every upsert is the oracle's upsert, every count the oracle's
  count, and every read returns the oracle's list, when stored versions are unique per key and the
  ordering tuple tells the visible rows apart.\<close>

theorem sql_refines_memory:
  assumes "sql_engine scan json" and "sql_inv t"
    and "versions_unique (ran (sql_rows t))"
    and "inj_on sort_fields {x \<in> ran (sql_rows t). visible k q x}"
  shows "table_store (sql_upsert_many xs t) = mem_upsert_many xs (table_store t)
    \<and> sql_count t = mem_count (table_store t)
    \<and> sql_as_of scan json t k q = mem_as_of (table_store t) k q"
proof -
  have m: "mem_inv (table_store t)" using assms(2) by (simp add: sql_inv_def)
  obtain ys where ys: "mset ys = mset (vals (mem_obs (table_store t)))"
    "sql_as_of scan json t k q = read_rows ys k q"
    using sql_engine.sql_read [OF assms(1,2)] by blast
  have "read_rows (vals (mem_obs (table_store t))) k q = read_rows ys k q"
    using ys(1) assms(3,4) mem_vals_ran [OF m] mem_vals_distinct [OF m]
    by (intro read_rows_mset) (simp_all add: sql_rows_def)
  moreover have "sql_count t = mem_count (table_store t)"
    by (simp add: sql_count_def mem_count_def table_store_def)
  ultimately show ?thesis by (simp only: ys(2) mem_as_of_read table_store_upsert)
qed

lemma sql_refines_memory_witness:
  "sql_as_of rev id (sql_upsert_many [sample_obs 0 3, sample_obs 2 4] []) 5 q_all
   = mem_as_of (table_store (sql_upsert_many [sample_obs 0 3, sample_obs 2 4] [])) 5 q_all"
proof -
  let ?t = "sql_upsert_many [sample_obs 0 3, sample_obs 2 4] []"
  have e: "sql_engine rev id" by unfold_locales simp_all
  have ran: "ran (sql_rows ?t) = {sample_obs 0 3, sample_obs 2 4}"
    unfolding sql_rows_def table_store_upsert mem_rows_upsert
    by (auto simp: put_all_def sample_obs_def table_store_def mem_rows_def ran_def)
  have v: "versions_unique (ran (sql_rows ?t))"
    unfolding ran by (simp add: versions_unique_def sample_obs_def new_obs_def)
  have i: "inj_on sort_fields {x \<in> ran (sql_rows ?t). visible 5 q_all x}"
  proof (rule inj_on_subset)
    have "sort_fields (sample_obs 0 3) \<noteq> sort_fields (sample_obs 2 4)"
      by (simp add: sort_fields_def sample_obs_def)
    then show "inj_on sort_fields {sample_obs 0 3, sample_obs 2 4}" by (auto simp: inj_on_def)
  qed (auto simp: ran)
  show ?thesis
    using sql_refines_memory [OF e sql_inv_upsert [OF sql_inv_empty] v i] by blast
qed

lemma sql_insert_all_spec:
  "sql_insert_all rs t =
     (if distinct (map r_observation_id rs) \<and> set (map r_observation_id rs) \<inter> set (keys t) = {}
      then Inr (t @ map (\<lambda>r. (r_observation_id r, r)) rs) else Inl IntegrityError)"
  by (induction rs arbitrary: t) (auto simp: sql_insert_def)

text \<open>\<open>add_many\<close> is atomic.  It succeeds exactly when the new ids are pairwise distinct and none
  is stored; then every row is appended, otherwise the table is unchanged and the error is an
  integrity error (the in-memory store overwrites instead).\<close>

theorem sql_add_many_atomic:
  "sql_add_many xs t =
     (if distinct (map o_id xs) \<and> set (map o_id xs) \<inter> set (keys t) = {}
      then (t @ map (\<lambda>x. (o_id x, to_row x)) xs, Inr ()) else (t, Inl IntegrityError))"
  by (simp add: sql_add_many_def Let_def sql_insert_all_spec comp_def)

end
