(* ===== verification/Ingest.thy ===== *)
theory Ingest
  imports SqlStore
begin

text \<open>
  \<open>collectors/quality.py\<close> and \<open>collectors/gateway.py\<close>: the data-quality report of a batch and the
  ingestion gateway.  The gateway is a client of the store interface: its lemmas are proved in the
  context of the store's contract and hold for both stores.  Messages of the report are kept as
  the parts they are formatted from.
\<close>

section \<open>Data quality\<close>

definition numeric_value_keys :: "string list" where
  "numeric_value_keys = [''close'', ''open'', ''high'', ''low'', ''value'', ''amount_low'', ''amount_high'']"

definition positive_value_keys :: "string list" where
  "positive_value_keys = [''close'', ''open'', ''high'', ''low'']"

definition disclosure_dataset_prefixes :: "string list" where
  "disclosure_dataset_prefixes = [''disclosure.'', ''filing.'']"

datatype quality_message =
    IsNotFinite string string
  | IsNotPositive string string flt
  | KnowledgePrecedesEvent string
  | DuplicateIdentity string

datatype quality_level = QError | QWarning

record quality_issue =
  qi_level :: quality_level
  qi_check :: string
  qi_message :: quality_message
  qi_entity_id :: "string option"

record quality_report =
  qr_issues :: "quality_issue list"
  qr_checked :: nat

definition quality_ok :: "quality_report \<Rightarrow> bool" where
  "quality_ok r \<longleftrightarrow> \<not> (\<exists>i \<in> set (qr_issues r). qi_level i = QError)"

definition quality_errors :: "quality_report \<Rightarrow> quality_issue list" where
  "quality_errors r = filter (\<lambda>i. qi_level i = QError) (qr_issues r)"

text \<open>\<open>isinstance(v, (int, float))\<close>; a bool is an int.\<close>

fun numeric :: "pyval \<Rightarrow> flt option" where
  "numeric (PInt n) = Some (Fin (of_int n))"
| "numeric (PFloat x) = Some x"
| "numeric (PBool b) = Some (Fin (if b then 1 else 0))"
| "numeric _ = None"

definition check_value :: "observation \<Rightarrow> string \<Rightarrow> quality_issue list" where
  "check_value x key =
     (case numeric (pget (o_value x) key) of
        None \<Rightarrow> []
      | Some v \<Rightarrow>
          if \<not> is_fin v
          then [\<lparr>qi_level = QError, qi_check = ''finite'',
                 qi_message = IsNotFinite (o_dataset x) key, qi_entity_id = Some (o_entity_id x)\<rparr>]
          else if key \<in> set positive_value_keys \<and> v \<le> 0
          then [\<lparr>qi_level = QError, qi_check = ''positive'',
                 qi_message = IsNotPositive (o_dataset x) key v,
                 qi_entity_id = Some (o_entity_id x)\<rparr>]
          else [])"

definition is_disclosure :: "observation \<Rightarrow> bool" where
  "is_disclosure x \<longleftrightarrow> (\<exists>p \<in> set disclosure_dataset_prefixes. starts_with p (o_dataset x))"

definition check_lag :: "observation \<Rightarrow> quality_issue list" where
  "check_lag x =
     (if is_disclosure x \<and> o_knowledge_time x < o_event_time x
      then [\<lparr>qi_level = QError, qi_check = ''lag'',
             qi_message = KnowledgePrecedesEvent (o_dataset x),
             qi_entity_id = Some (o_entity_id x)\<rparr>]
      else [])"

definition quality_identity ::
  "observation \<Rightarrow> string \<times> string \<times> string \<times> datetime \<times> datetime \<times> int" where
  "quality_identity x = (o_source x, o_dataset x, o_entity_id x, o_event_time x,
     o_knowledge_time x, o_revision x)"

fun validate_from ::
  "(string \<times> string \<times> string \<times> datetime \<times> datetime \<times> int) list \<Rightarrow> observation list
   \<Rightarrow> quality_issue list" where
  "validate_from seen [] = []"
| "validate_from seen (x # xs) =
     concat (map (check_value x) numeric_value_keys) @ check_lag x
     @ (if quality_identity x \<in> set seen
        then [\<lparr>qi_level = QWarning, qi_check = ''duplicate'',
               qi_message = DuplicateIdentity (o_entity_id x), qi_entity_id = Some (o_entity_id x)\<rparr>]
        else [])
     @ validate_from (quality_identity x # seen) xs"

definition validate_observations :: "observation list \<Rightarrow> quality_report" where
  "validate_observations xs = \<lparr>qr_issues = validate_from [] xs, qr_checked = length xs\<rparr>"

section \<open>The gateway\<close>

record ingest_summary =
  is_received :: nat
  is_unique :: nat
  is_newly_added :: int
  is_quality_ok :: bool
  is_quality_issues :: nat

definition stamp_batch :: "observation list \<Rightarrow> (uuid, observation) dict" where
  "stamp_batch xs = fold (\<lambda>x d. let stamped = with_deterministic_id x
                               in dict_set (o_id stamped) stamped d) xs []"

definition unique_batch :: "observation list \<Rightarrow> observation list" where
  "unique_batch xs = vals (stamp_batch xs)"

definition ingest ::
  "'s store_ops \<Rightarrow> bool \<Rightarrow> bool \<Rightarrow> observation list \<Rightarrow> 's \<Rightarrow> 's \<times> ingest_summary res" where
  "ingest S validate strict xs s =
     (let unique = unique_batch xs;
          report = (if validate then Some (validate_observations unique) else None);
          fails = (case report of None \<Rightarrow> False | Some r \<Rightarrow> strict \<and> \<not> quality_ok r)
      in if fails then (s, Inl DataQualityError)
         else (let before = st_count S s;
                   s' = st_upsert S unique s;
                   after = st_count S s'
               in (s', Inr \<lparr>is_received = length xs, is_unique = length unique,
                            is_newly_added = int after - int before,
                            is_quality_ok = (case report of None \<Rightarrow> True | Some r \<Rightarrow> quality_ok r),
                            is_quality_issues =
                              (case report of None \<Rightarrow> 0 | Some r \<Rightarrow> length (qr_issues r))\<rparr>)))"

section \<open>The report\<close>

definition clean_value :: "observation \<Rightarrow> string \<Rightarrow> bool" where
  "clean_value x key \<longleftrightarrow>
     (case numeric (pget (o_value x) key) of
        None \<Rightarrow> True
      | Some v \<Rightarrow> \<exists>r. v = Fin r \<and> (key \<in> set positive_value_keys \<longrightarrow> 0 < r))"

definition clean_obs :: "observation \<Rightarrow> bool" where
  "clean_obs x \<longleftrightarrow> (\<forall>key \<in> set numeric_value_keys. clean_value x key)
     \<and> (is_disclosure x \<longrightarrow> o_event_time x \<le> o_knowledge_time x)"

lemma check_value_empty: "check_value x key = [] \<longleftrightarrow> clean_value x key"
proof (cases "numeric (pget (o_value x) key)")
  case None
  then show ?thesis by (simp add: check_value_def clean_value_def)
next
  case (Some v)
  then show ?thesis
    by (cases v) (auto simp: check_value_def clean_value_def is_fin_def zero_flt_def)
qed

lemma check_value_errors: "i \<in> set (check_value x key) \<Longrightarrow> qi_level i = QError"
  by (auto simp: check_value_def split: option.splits if_splits)

lemma check_value_error_iff:
  "(\<exists>i \<in> set (check_value x key). qi_level i = QError) \<longleftrightarrow> \<not> clean_value x key"
  unfolding check_value_empty [symmetric]
  using check_value_errors [of "hd (check_value x key)" x key] check_value_errors
  by (metis list.set_sel(1) list.set(1) empty_iff)

lemma validate_from_error_iff:
  "(\<exists>i \<in> set (validate_from seen xs). qi_level i = QError) \<longleftrightarrow> (\<exists>x \<in> set xs. \<not> clean_obs x)"
proof (induction xs arbitrary: seen)
  case Nil
  then show ?case by simp
next
  case (Cons x xs)
  let ?vs = "concat (map (check_value x) numeric_value_keys)"
  have vs: "(\<exists>i \<in> set ?vs. qi_level i = QError) \<longleftrightarrow> (\<exists>k \<in> set numeric_value_keys. \<not> clean_value x k)"
  proof -
    have "(\<exists>i \<in> set ?vs. qi_level i = QError) \<longleftrightarrow>
        (\<exists>k \<in> set numeric_value_keys. \<exists>i \<in> set (check_value x k). qi_level i = QError)"
      by auto
    then show ?thesis by (simp only: check_value_error_iff)
  qed
  have lag: "(\<exists>i \<in> set (check_lag x). qi_level i = QError) \<longleftrightarrow>
      is_disclosure x \<and> o_knowledge_time x < o_event_time x"
    by (simp add: check_lag_def)
  have "(\<exists>i \<in> set (validate_from seen (x # xs)). qi_level i = QError) \<longleftrightarrow>
      (\<exists>i \<in> set ?vs. qi_level i = QError) \<or> (\<exists>i \<in> set (check_lag x). qi_level i = QError)
      \<or> (\<exists>y \<in> set xs. \<not> clean_obs y)"
    using Cons.IH by (auto simp del: set_concat)
  also have "\<dots> \<longleftrightarrow> (\<exists>y \<in> set (x # xs). \<not> clean_obs y)"
    unfolding vs lag by (auto simp: clean_obs_def not_less)
  finally show ?case .
qed

section \<open>The batch\<close>

lemma stamp_batch_snoc:
  "stamp_batch (xs @ [x]) = dict_set (deterministic_id x) (with_deterministic_id x) (stamp_batch xs)"
  by (simp add: stamp_batch_def Let_def)

lemma stamp_batch_distinct [simp]: "distinct (keys (stamp_batch xs))"
  by (induction xs rule: rev_induct) (simp_all add: stamp_batch_snoc dict_simps, simp add: stamp_batch_def)

lemma keys_stamp_batch: "set (keys (stamp_batch xs)) = deterministic_id ` set xs"
proof (induction xs rule: rev_induct)
  case Nil
  then show ?case by (simp add: stamp_batch_def)
next
  case (snoc x xs)
  then show ?case unfolding stamp_batch_snoc by (subst keys_dict_set) auto
qed

lemma stamp_batch_id: "(i, x) \<in> set (stamp_batch xs) \<Longrightarrow> o_id x = i \<and> (\<exists>y \<in> set xs. x = with_deterministic_id y)"
proof (induction xs rule: rev_induct)
  case Nil
  then show ?case by (simp add: stamp_batch_def)
next
  case (snoc y ys)
  then show ?case by (auto simp: stamp_batch_snoc set_dict_set)
qed

lemma unique_batch_ids: "map o_id (unique_batch xs) = keys (stamp_batch xs)"
  unfolding unique_batch_def by (auto dest: stamp_batch_id)

lemma unique_batch_distinct: "distinct (map o_id (unique_batch xs))"
  by (simp only: unique_batch_ids stamp_batch_distinct)

lemma unique_batch_id_set: "o_id ` set (unique_batch xs) = deterministic_id ` set xs"
  using unique_batch_ids [of xs] keys_stamp_batch [of xs] by (metis set_map)

lemma unique_batch_members:
  "x \<in> set (unique_batch xs) \<Longrightarrow> \<exists>y \<in> set xs. x = with_deterministic_id y"
  unfolding unique_batch_def using stamp_batch_id by fastforce

lemma dom_put_all: "dom (put_all xs m) = o_id ` set xs \<union> dom m"
  unfolding put_all_def by (induction xs arbitrary: m) auto

lemma ingest_accepts:
  "ingest S v strict xs s = (if v \<and> strict \<and> \<not> quality_ok (validate_observations (unique_batch xs))
     then (s, Inl DataQualityError)
     else (st_upsert S (unique_batch xs) s,
           Inr \<lparr>is_received = length xs, is_unique = length (unique_batch xs),
                is_newly_added = int (st_count S (st_upsert S (unique_batch xs) s)) - int (st_count S s),
                is_quality_ok = (v \<longrightarrow> quality_ok (validate_observations (unique_batch xs))),
                is_quality_issues = (if v then length (qr_issues (validate_observations (unique_batch xs)))
                                     else 0)\<rparr>))"
  by (simp add: ingest_def Let_def)

context bitemporal_store
begin

lemma ingest_inv: "inv s \<Longrightarrow> inv (fst (ingest S v strict xs s))"
  by (simp add: ingest_accepts inv_upsert)

lemma ingest_rows:
  "inv s \<Longrightarrow> ingest S v strict xs s = (s', Inr r) \<Longrightarrow> rows s' = put_all (unique_batch xs) (rows s)"
  by (auto simp: ingest_accepts rows_upsert split: if_splits)

lemma ingest_newly_added:
  assumes "inv s" "ingest S v strict xs s = (s', Inr r)"
  shows "is_newly_added r = int (card (deterministic_id ` set xs - dom (rows s)))"
proof -
  have s': "s' = st_upsert S (unique_batch xs) s"
    and r: "is_newly_added r = int (st_count S s') - int (st_count S s)"
    using assms(2) by (auto simp: ingest_accepts split: if_splits)
  have "dom (rows s') = dom (rows s) \<union> (deterministic_id ` set xs - dom (rows s))"
    unfolding s' using assms(1) by (auto simp: rows_upsert dom_put_all unique_batch_id_set)
  moreover have "finite (dom (rows s))" using assms(1) by (rule rows_finite)
  ultimately have "card (dom (rows s')) = card (dom (rows s)) + card (deterministic_id ` set xs - dom (rows s))"
    by (subst card_Un_disjoint [symmetric]) auto
  then show ?thesis using r s' assms(1) by (simp add: count_rows inv_upsert)
qed

lemma ingest_again:
  assumes "inv s" "ingest S v strict xs s = (s1, Inr r1)"
  shows "\<exists>s2 r2. ingest S v strict xs s1 = (s2, Inr r2) \<and> rows s2 = rows s1 \<and> is_newly_added r2 = 0"
proof -
  have s1: "s1 = st_upsert S (unique_batch xs) s" and i1: "inv s1"
    using assms by (auto simp: ingest_accepts inv_upsert split: if_splits)
  obtain s2 r2 where i2: "ingest S v strict xs s1 = (s2, Inr r2)"
    and s2: "s2 = st_upsert S (unique_batch xs) s1"
    using assms(2) by (auto simp: ingest_accepts split: if_splits)
  have "rows s2 = rows s1" unfolding s2 s1 using assms(1) unique_batch_distinct by (rule upsert_twice)
  moreover have "deterministic_id ` set xs \<subseteq> dom (rows s1)"
    unfolding s1 using assms(1) by (simp add: rows_upsert dom_put_all unique_batch_id_set)
  then have "is_newly_added r2 = 0" using ingest_newly_added [OF i1 i2] by (simp add: Diff_eq_empty_iff [THEN iffD2])
  ultimately show ?thesis using i2 by blast
qed

end

section \<open>Properties\<close>

text \<open>C24: re-running a collector is a no-op.  On any store that meets the contract, an accepted batch
  stores each fact under its deterministic id and counts the ids that were new; ingesting
  the same batch again succeeds, leaves the stored rows as they are and adds nothing.\<close>

theorem ingest_idempotent:
  assumes "bitemporal_store S rows I" "I s" "ingest S v strict xs s = (s1, Inr r1)"
  shows "rows s1 = put_all (unique_batch xs) (rows s)
    \<and> is_newly_added r1 = int (card (deterministic_id ` set xs - dom (rows s)))
    \<and> (\<exists>s2 r2. ingest S v strict xs s1 = (s2, Inr r2) \<and> rows s2 = rows s1
          \<and> is_newly_added r2 = 0)"
  using bitemporal_store.ingest_rows [OF assms] bitemporal_store.ingest_newly_added [OF assms]
    bitemporal_store.ingest_again [OF assms] by blast

lemma ingest_idempotent_witness:
  "\<exists>s1 r1. ingest mem_ops True False [sample_obs 0 3, sample_obs 1 3] mem_empty = (s1, Inr r1)
     \<and> is_newly_added r1 = 1
     \<and> (\<exists>s2 r2. ingest mem_ops True False [sample_obs 0 3, sample_obs 1 3] s1 = (s2, Inr r2)
          \<and> mem_rows s2 = mem_rows s1 \<and> is_newly_added r2 = 0)"
proof -
  let ?xs = "[sample_obs 0 3, sample_obs 1 3]"
  obtain s1 r1 where i: "ingest mem_ops True False ?xs mem_empty = (s1, Inr r1)"
    by (simp add: ingest_accepts)
  note p = ingest_idempotent [OF mem.bitemporal_store_axioms mem_inv_empty i]
  have "deterministic_id (sample_obs 0 3) = deterministic_id (sample_obs 1 3)"
    by (simp add: deterministic_id_def id_text_def sample_obs_def)
  then have "is_newly_added r1 = 1" using p by (simp add: mem_rows_def mem_empty_def)
  with p i show ?thesis by blast
qed

text \<open>The report of a batch is free of errors exactly when every observation has finite numeric
  values, positive prices and, for a disclosure, a knowledge time not before the event; and a strict
  gateway stores a batch exactly then.\<close>

theorem strict_gateway_stores_clean_batches:
  "(quality_ok (validate_observations xs) \<longleftrightarrow> (\<forall>x \<in> set xs. clean_obs x))
   \<and> (is_ok (snd (ingest S True True xs s)) \<longleftrightarrow> (\<forall>x \<in> set (unique_batch xs). clean_obs x))
   \<and> (fst (ingest S True True xs s) =
        (if \<forall>x \<in> set (unique_batch xs). clean_obs x then st_upsert S (unique_batch xs) s else s))"
proof -
  have ok: "quality_ok (validate_observations xs) \<longleftrightarrow> (\<forall>x \<in> set xs. clean_obs x)" for xs
    by (simp add: quality_ok_def validate_observations_def validate_from_error_iff)
  show ?thesis by (auto simp: ingest_accepts ok)
qed

lemma strict_gateway_stores_clean_batches_witness:
  "is_ok (snd (ingest mem_ops True True [sample_obs 0 3] mem_empty))"
proof -
  have "\<forall>x \<in> set (unique_batch [sample_obs 0 3]). clean_obs x"
    by (simp add: unique_batch_def stamp_batch_def clean_obs_def clean_value_def sample_obs_def
        new_obs_def pget_def numeric_value_keys_def is_disclosure_def
        disclosure_dataset_prefixes_def starts_with_def with_deterministic_id_def)
  then show ?thesis
    using
      strict_gateway_stores_clean_batches [where S = mem_ops and xs = "[sample_obs 0 3]" and s = mem_empty]
    by blast
qed

end
