(* ===== verification/Broker.thy ===== *)
theory Broker
  imports Prelude PyTime
begin

text \<open>
  \<open>execution/broker.py\<close>, \<open>execution/guardrails.py\<close> and \<open>execution/reconciliation.py\<close>: the order and
  position types, the broker interface as a record of operations with a locale for its contract,
  the guardrails in front of it, and the reconciliation report.  Quantities and prices are \<open>flt\<close>
  because NaN and infinite values are what the guardrails are for.
\<close>

section \<open>Orders, positions, accounts\<close>

datatype order_side = BUY | SELL

datatype order_type = MARKET | LIMIT

datatype order_status =
  NEW | SUBMITTED | ACCEPTED | PARTIALLY_FILLED | FILLED | REJECTED | CANCELLED | EXPIRED

record order =
  od_client_order_id :: string
  od_symbol :: string
  od_side :: order_side
  od_qty :: flt
  od_order_type :: order_type
  od_limit_price :: "flt option"
  od_status :: order_status
  od_filled_qty :: flt
  od_filled_avg_price :: "flt option"
  od_reason :: "string option"

definition market_order :: "string \<Rightarrow> string \<Rightarrow> order_side \<Rightarrow> flt \<Rightarrow> order" where
  "market_order cid s side qty =
     \<lparr>od_client_order_id = cid, od_symbol = s, od_side = side, od_qty = qty,
      od_order_type = MARKET, od_limit_price = None, od_status = NEW, od_filled_qty = 0,
      od_filled_avg_price = None, od_reason = None\<rparr>"

record position =
  ps_symbol :: string
  ps_qty :: flt
  ps_avg_price :: flt
  ps_market_value :: flt
  ps_unrealized_pl :: flt

definition make_position :: "string \<Rightarrow> flt \<Rightarrow> flt \<Rightarrow> position" where
  "make_position s qty avg = \<lparr>ps_symbol = s, ps_qty = qty, ps_avg_price = avg,
     ps_market_value = 0, ps_unrealized_pl = 0\<rparr>"

record account =
  ac_equity :: flt
  ac_cash :: flt
  ac_buying_power :: flt
  ac_last_equity :: flt

definition side_text :: "order_side \<Rightarrow> string" where
  "side_text s = (case s of BUY \<Rightarrow> ''buy'' | SELL \<Rightarrow> ''sell'')"

definition status_text :: "order_status \<Rightarrow> string" where
  "status_text s = (case s of NEW \<Rightarrow> ''new'' | SUBMITTED \<Rightarrow> ''submitted'' | ACCEPTED \<Rightarrow> ''accepted''
     | PARTIALLY_FILLED \<Rightarrow> ''partially_filled'' | FILLED \<Rightarrow> ''filled'' | REJECTED \<Rightarrow> ''rejected''
     | CANCELLED \<Rightarrow> ''cancelled'' | EXPIRED \<Rightarrow> ''expired'')"

text \<open>The signed quantity an order adds when it fills.\<close>

definition signed_qty :: "order_side \<Rightarrow> flt \<Rightarrow> flt" where
  "signed_qty side q = (if side = BUY then q else - q)"

section \<open>The broker interface\<close>

record 'b broker_ops =
  bk_submit :: "order \<Rightarrow> 'b \<Rightarrow> 'b \<times> order res"
  bk_cancel :: "string \<Rightarrow> 'b \<Rightarrow> 'b \<times> unit res"
  bk_positions :: "'b \<Rightarrow> position list res"
  bk_open_orders :: "'b \<Rightarrow> order list res"
  bk_account :: "'b \<Rightarrow> account res"

text \<open>Submitting a batch in order, up to the first error.\<close>

fun submit_all :: "'b broker_ops \<Rightarrow> order list \<Rightarrow> 'b \<Rightarrow> 'b \<times> order list res" where
  "submit_all B [] b = (b, Inr [])"
| "submit_all B (x # xs) b =
     (case bk_submit B x b of
        (b', Inl e) \<Rightarrow> (b', Inl e)
      | (b', Inr r) \<Rightarrow> (case submit_all B xs b' of
            (b'', Inl e) \<Rightarrow> (b'', Inl e)
          | (b'', Inr rs) \<Rightarrow> (b'', Inr (r # rs))))"

text \<open>
  The contract: submission is idempotent by client order id, and an open order is one
  whose status is not terminal.
\<close>

definition open_states :: "order_status set" where
  "open_states = {NEW, SUBMITTED, ACCEPTED, PARTIALLY_FILLED}"

locale broker =
  fixes B :: "'b broker_ops"
    and recorded :: "'b \<Rightarrow> string \<rightharpoonup> order"
    and inv :: "'b \<Rightarrow> bool"
  assumes submit_inv: "inv b \<Longrightarrow> inv (fst (bk_submit B x b))"
    and submit_known: "inv b \<Longrightarrow> recorded b (od_client_order_id x) = Some r \<Longrightarrow>
      bk_submit B x b = (b, Inr r)"
    and submit_records: "inv b \<Longrightarrow> bk_submit B x b = (b', Inr r) \<Longrightarrow>
      recorded b (od_client_order_id x) = None \<Longrightarrow>
      recorded b' = (recorded b)(od_client_order_id x \<mapsto> r)"
    and recorded_id: "inv b \<Longrightarrow> recorded b c = Some r \<Longrightarrow> od_client_order_id r = c"
    and open_orders_open: "inv b \<Longrightarrow> bk_open_orders B b = Inr xs \<Longrightarrow> x \<in> set xs \<Longrightarrow>
      od_status x \<in> open_states \<and> recorded b (od_client_order_id x) = Some x"
begin

lemma submit_recorded:
  assumes "inv b" "bk_submit B x b = (b', Inr r)"
  shows "recorded b' (od_client_order_id x) = Some r \<and> recorded b \<subseteq>\<^sub>m recorded b' \<and> inv b'"
proof -
  have i: "inv b'" using submit_inv [OF assms(1), of x] assms(2) by simp
  show ?thesis
  proof (cases "recorded b (od_client_order_id x)")
    case None
    then show ?thesis using submit_records [OF assms None] i by (auto simp: map_le_def)
  next
    case (Some r0)
    then have "b' = b \<and> r = r0" using submit_known [OF assms(1) Some] assms(2) by simp
    then show ?thesis using Some i by simp
  qed
qed

lemma submit_all_recorded:
  "inv b \<Longrightarrow> submit_all B xs b = (b', Inr rs) \<Longrightarrow>
     map (\<lambda>x. recorded b' (od_client_order_id x)) xs = map Some rs \<and> recorded b \<subseteq>\<^sub>m recorded b' \<and> inv b'"
proof (induction xs arbitrary: b rs)
  case Nil
  then show ?case by simp
next
  case (Cons x xs)
  from Cons.prems(2) obtain b1 r rs1 where s: "bk_submit B x b = (b1, Inr r)"
    and rest: "submit_all B xs b1 = (b', Inr rs1)" and rs: "rs = r # rs1"
    by (auto split: prod.splits sum.splits)
  note one = submit_recorded [OF Cons.prems(1) s]
  then have i1: "inv b1" by blast
  note more = Cons.IH [OF i1 rest]
  have "recorded b' (od_client_order_id x) = Some r"
    using one more by (metis map_le_def domI)
  with one more rs show ?case by (auto intro: map_le_trans)
qed

lemma submit_all_known:
  "inv b \<Longrightarrow> map (\<lambda>x. recorded b (od_client_order_id x)) xs = map Some rs \<Longrightarrow>
     submit_all B xs b = (b, Inr rs)"
proof (induction xs arbitrary: rs)
  case (Cons x xs)
  then obtain r rs1 where rs: "rs = r # rs1" by (cases rs) auto
  with Cons show ?case by (simp add: submit_known)
qed simp

text \<open>Sending a batch a second time changes nothing and returns the same orders.\<close>

lemma submit_all_again:
  "inv b \<Longrightarrow> submit_all B xs b = (b', Inr rs) \<Longrightarrow> submit_all B xs b' = (b', Inr rs)"
  using submit_all_recorded submit_all_known by blast

end

section \<open>Guardrails\<close>

text \<open>The tests run in the code's order; the price deviation divides by a positive reference price.\<close>

definition limit_far_from_market :: "order \<Rightarrow> flt option \<Rightarrow> flt \<Rightarrow> bool" where
  "limit_far_from_market x ref_price max_dev \<longleftrightarrow>
     od_order_type x = LIMIT \<and>
     (case (od_limit_price x, ref_price) of
        (Some l, Some p) \<Rightarrow> flt_truthy p \<and> 0 < p \<and> max_dev < fdiv \<bar>l - p\<bar> p
      | _ \<Rightarrow> False)"

definition sanity_check_order :: "order \<Rightarrow> flt option \<Rightarrow> flt \<Rightarrow> flt \<Rightarrow> unit res" where
  "sanity_check_order x ref_price max_qty max_price_deviation =
     (if od_qty x = NaN then Inl (OrderSanityError QtyNaN)
      else if od_qty x \<le> 0 then Inl (OrderSanityError QtyNonPositive)
      else if max_qty < od_qty x then Inl (OrderSanityError (QtyAbsurd (od_qty x)))
      else if limit_far_from_market x ref_price max_price_deviation
        then Inl (OrderSanityError LimitFar)
      else Inr ())"

abbreviation default_max_qty :: flt where "default_max_qty \<equiv> Fin 10000000"
abbreviation default_max_deviation :: flt where "default_max_deviation \<equiv> Fin (1 / 5)"

record kill_switch =
  ks_engaged :: bool
  ks_reason :: "string option"

definition new_kill_switch :: kill_switch where
  "new_kill_switch = \<lparr>ks_engaged = False, ks_reason = None\<rparr>"

definition kill_engage :: "string \<Rightarrow> kill_switch \<Rightarrow> kill_switch" where
  "kill_engage r k = k\<lparr>ks_engaged := True, ks_reason := Some r\<rparr>"

definition kill_reset :: "kill_switch \<Rightarrow> kill_switch" where
  "kill_reset k = k\<lparr>ks_engaged := False, ks_reason := None\<rparr>"

record rate_limiter =
  rl_max_orders :: int
  rl_count :: int

definition limiter_allow :: "rate_limiter \<Rightarrow> rate_limiter \<times> bool" where
  "limiter_allow l = (if rl_max_orders l \<le> rl_count l then (l, False)
                      else (l\<lparr>rl_count := rl_count l + 1\<rparr>, True))"

definition limiter_reset :: "rate_limiter \<Rightarrow> rate_limiter" where
  "limiter_reset l = l\<lparr>rl_count := 0\<rparr>"

section \<open>Reconciliation\<close>

record divergence =
  dv_symbol :: string
  dv_intended :: flt
  dv_actual :: flt
  dv_diff :: flt

definition reconcile ::
  "(string, flt) dict \<Rightarrow> position list \<Rightarrow> flt \<Rightarrow> divergence list" where
  "reconcile intended ps tol =
     (let actual = dict_of ps_symbol ps_qty ps;
          symbols = sorted_list_of_set (set (keys intended) \<union> set (keys actual))
      in concat (map (\<lambda>s. let want = dict_get 0 intended s; have_qty = dict_get 0 actual s
                          in if tol < \<bar>want - have_qty\<bar>
                             then [\<lparr>dv_symbol = s, dv_intended = want, dv_actual = have_qty,
                                    dv_diff = want - have_qty\<rparr>]
                             else []) symbols))"

section \<open>Lemmas\<close>

lemma sanity_ok_iff:
  "sanity_check_order x p (Fin m) d = Inr () \<longleftrightarrow>
     (\<exists>q. od_qty x = Fin q \<and> 0 < q \<and> q \<le> m) \<and> \<not> limit_far_from_market x p d"
  by (cases "od_qty x") (auto simp: sanity_check_order_def zero_flt_def)

lemma sanity_market_ok_iff:
  "od_order_type x = MARKET \<Longrightarrow>
     sanity_check_order x p (Fin m) d = Inr () \<longleftrightarrow> (\<exists>q. od_qty x = Fin q \<and> 0 < q \<and> q \<le> m)"
  by (simp add: sanity_ok_iff limit_far_from_market_def)

lemma sanity_error_kind:
  "sanity_check_order x p m d = Inl e \<Longrightarrow> \<exists>r. e = OrderSanityError r"
  by (auto simp: sanity_check_order_def split: if_splits)

lemma limiter_allow_bound:
  "limiter_allow l = (l', a) \<Longrightarrow> rl_max_orders l' = rl_max_orders l
     \<and> rl_count l' = rl_count l + (if a then 1 else 0) \<and> (a \<longleftrightarrow> rl_count l < rl_max_orders l)"
  by (auto simp: limiter_allow_def split: if_splits)

lemma market_order_fields [simp]:
  "od_client_order_id (market_order c s sd q) = c" "od_symbol (market_order c s sd q) = s"
  "od_side (market_order c s sd q) = sd" "od_qty (market_order c s sd q) = q"
  "od_order_type (market_order c s sd q) = MARKET" "od_limit_price (market_order c s sd q) = None"
  "od_status (market_order c s sd q) = NEW" "od_filled_qty (market_order c s sd q) = 0"
  by (simp_all add: market_order_def)

lemma make_position_fields [simp]:
  "ps_symbol (make_position s q a) = s" "ps_qty (make_position s q a) = q"
  "ps_avg_price (make_position s q a) = a"
  by (simp_all add: make_position_def)

lemma reconcile_members:
  "x \<in> set (reconcile intended ps tol) \<longleftrightarrow>
     (let actual = dict_of ps_symbol ps_qty ps
      in dv_symbol x \<in> set (keys intended) \<union> set (keys actual)
         \<and> dv_intended x = dict_get 0 intended (dv_symbol x)
         \<and> dv_actual x = dict_get 0 actual (dv_symbol x)
         \<and> dv_diff x = dv_intended x - dv_actual x \<and> tol < \<bar>dv_diff x\<bar>)"
proof -
  let ?actual = "dict_of ps_symbol ps_qty ps"
  have fin: "finite (set (keys intended) \<union> set (keys ?actual))" by simp
  show ?thesis
    unfolding reconcile_def Let_def set_concat set_map image_image
      set_sorted_list_of_set [OF fin, unfolded set_map]
    by (cases x) (auto split: if_splits)
qed

end
