(* ===== verification/PaperBroker.thy ===== *)
theory PaperBroker
  imports Broker
begin

text \<open>
  \<open>execution/paper_broker.py\<close>: the deterministic in-memory broker, the interpretation of the broker
  contract, its state invariant, and the accounting of a fill.
\<close>

section \<open>State and operations\<close>

record paper_broker =
  pb_prices :: "(string, flt) dict"
  pb_cash :: flt
  pb_positions :: "(string, position) dict"
  pb_orders :: "(string, order) dict"

definition paper_init :: "(string, flt) dict \<Rightarrow> flt \<Rightarrow> paper_broker" where
  "paper_init prices cash =
     \<lparr>pb_prices = prices, pb_cash = cash, pb_positions = [], pb_orders = []\<rparr>"

definition paper_set_price :: "string \<Rightarrow> flt \<Rightarrow> paper_broker \<Rightarrow> paper_broker" where
  "paper_set_price s p b = b\<lparr>pb_prices := dict_set s p (pb_prices b)\<rparr>"

abbreviation fill_eps :: flt where "fill_eps \<equiv> Fin (1 / 10 ^ 12)"

definition apply_fill ::
  "string \<Rightarrow> flt \<Rightarrow> flt \<Rightarrow> (string, position) dict \<Rightarrow> (string, position) dict" where
  "apply_fill s signed price d =
     (case map_of d s of
        None \<Rightarrow> dict_set s (make_position s signed price) d
      | Some pos \<Rightarrow>
          let new_qty = ps_qty pos + signed in
          if \<bar>new_qty\<bar> < fill_eps then dict_del s d
          else if (0 < ps_qty pos) = (0 < signed) then
            let avg = fdiv (ps_avg_price pos * ps_qty pos + price * signed) new_qty
            in dict_set s (make_position s new_qty avg) d
          else
            let avg = (if (0 < new_qty) \<noteq> (0 < ps_qty pos) then price else ps_avg_price pos)
            in dict_set s (make_position s new_qty avg) d)"

definition marketable :: "order \<Rightarrow> flt \<Rightarrow> flt \<Rightarrow> bool" where
  "marketable x price lp \<longleftrightarrow>
     (od_side x = BUY \<and> price \<le> lp) \<or> (od_side x = SELL \<and> lp \<le> price)"

definition record_order :: "order \<Rightarrow> paper_broker \<Rightarrow> paper_broker" where
  "record_order x b = b\<lparr>pb_orders := dict_set (od_client_order_id x) x (pb_orders b)\<rparr>"

definition fill_order :: "order \<Rightarrow> flt \<Rightarrow> paper_broker \<Rightarrow> paper_broker \<times> order" where
  "fill_order x fill_price b =
     (let signed = signed_qty (od_side x) (od_qty x);
          b1 = b\<lparr>pb_positions := apply_fill (od_symbol x) signed fill_price (pb_positions b)\<rparr>;
          b2 = b1\<lparr>pb_cash := pb_cash b1 - signed * fill_price\<rparr>;
          x' = x\<lparr>od_status := FILLED, od_filled_qty := od_qty x,
                 od_filled_avg_price := Some fill_price\<rparr>
      in (record_order x' b2, x'))"

definition paper_submit :: "order \<Rightarrow> paper_broker \<Rightarrow> paper_broker \<times> order" where
  "paper_submit x b =
     (case map_of (pb_orders b) (od_client_order_id x) of
        Some old \<Rightarrow> (b, old)
      | None \<Rightarrow>
          let rejected = x\<lparr>od_status := REJECTED, od_reason := Some ''no market price''\<rparr>;
              resting = x\<lparr>od_status := ACCEPTED\<rparr> in
          (case map_of (pb_prices b) (od_symbol x) of
             None \<Rightarrow> (record_order rejected b, rejected)
           | Some price \<Rightarrow>
               if price \<le> 0 then (record_order rejected b, rejected)
               else (case (od_order_type x, od_limit_price x) of
                       (LIMIT, Some lp) \<Rightarrow>
                         if \<not> marketable x price lp then (record_order resting b, resting)
                         else fill_order x lp b
                     | _ \<Rightarrow> fill_order x price b)))"

definition paper_cancel :: "string \<Rightarrow> paper_broker \<Rightarrow> paper_broker" where
  "paper_cancel cid b =
     (case map_of (pb_orders b) cid of
        None \<Rightarrow> b
      | Some x \<Rightarrow> if od_status x \<in> {NEW, SUBMITTED, ACCEPTED}
                  then b\<lparr>pb_orders := dict_set cid (x\<lparr>od_status := CANCELLED\<rparr>) (pb_orders b)\<rparr>
                  else b)"

definition paper_positions :: "paper_broker \<Rightarrow> position list" where
  "paper_positions b = vals (pb_positions b)"

definition paper_open_orders :: "paper_broker \<Rightarrow> order list" where
  "paper_open_orders b = filter (\<lambda>x. od_status x \<in> open_states) (vals (pb_orders b))"

definition price_or_avg :: "paper_broker \<Rightarrow> position \<Rightarrow> flt" where
  "price_or_avg b p = dict_get (ps_avg_price p) (pb_prices b) (ps_symbol p)"

definition paper_account :: "paper_broker \<Rightarrow> account" where
  "paper_account b =
     (let market_value = sum_list (map (\<lambda>p. ps_qty p * price_or_avg b p) (vals (pb_positions b)));
          equity = pb_cash b + market_value
      in \<lparr>ac_equity = equity, ac_cash = pb_cash b, ac_buying_power = py_max (pb_cash b) 0,
          ac_last_equity = 0\<rparr>)"

definition paper_ops :: "paper_broker broker_ops" where
  "paper_ops = \<lparr>bk_submit = (\<lambda>x b. case paper_submit x b of (b', r) \<Rightarrow> (b', Inr r)),
     bk_cancel = (\<lambda>c b. (paper_cancel c b, Inr ())), bk_positions = (\<lambda>b. Inr (paper_positions b)),
     bk_open_orders = (\<lambda>b. Inr (paper_open_orders b)), bk_account = (\<lambda>b. Inr (paper_account b))\<rparr>"

section \<open>The broker contract\<close>

text \<open>Orders are filed under their client id and positions under their symbol.\<close>

definition paper_inv :: "paper_broker \<Rightarrow> bool" where
  "paper_inv b \<longleftrightarrow> filed od_client_order_id (pb_orders b) \<and> filed ps_symbol (pb_positions b)"

lemma paper_inv_init [simp]: "paper_inv (paper_init prices cash)"
  by (simp add: paper_inv_def paper_init_def)

lemma apply_fill_inv: "filed ps_symbol d \<Longrightarrow> filed ps_symbol (apply_fill s q p d)"
  unfolding apply_fill_def Let_def by (simp add: filed_set filed_del split: option.split)

lemma paper_inv_record: "paper_inv b \<Longrightarrow> paper_inv (record_order x b)"
  by (auto simp: paper_inv_def record_order_def)

lemma paper_inv_fill: "paper_inv b \<Longrightarrow> paper_inv (fst (fill_order x p b))"
  unfolding fill_order_def Let_def fst_conv
  by (rule paper_inv_record) (simp add: paper_inv_def apply_fill_inv)

lemma paper_submit_cases [consumes 0, case_names known no_price resting filled]:
  obtains old where "map_of (pb_orders b) (od_client_order_id x) = Some old" "paper_submit x b = (b, old)"
  | r where "map_of (pb_orders b) (od_client_order_id x) = None"
      "\<nexists>p. map_of (pb_prices b) (od_symbol x) = Some p \<and> \<not> p \<le> 0"
      "r = x\<lparr>od_status := REJECTED, od_reason := Some ''no market price''\<rparr>"
      "paper_submit x b = (record_order r b, r)"
  | p l r where "map_of (pb_orders b) (od_client_order_id x) = None"
      "map_of (pb_prices b) (od_symbol x) = Some p" "\<not> p \<le> 0" "od_order_type x = LIMIT"
      "od_limit_price x = Some l" "\<not> marketable x p l" "r = x\<lparr>od_status := ACCEPTED\<rparr>"
      "paper_submit x b = (record_order r b, r)"
  | p f where "map_of (pb_orders b) (od_client_order_id x) = None"
      "map_of (pb_prices b) (od_symbol x) = Some p" "\<not> p \<le> 0"
      "if od_order_type x = LIMIT \<and> od_limit_price x \<noteq> None
       then od_limit_price x = Some f \<and> marketable x p f else f = p"
      "paper_submit x b = fill_order x f b"
proof (cases "map_of (pb_orders b) (od_client_order_id x)")
  case (Some old)
  then show thesis by (intro that(1) [of old]) (simp_all add: paper_submit_def)
next
  case None
  show thesis
  proof (cases "\<exists>p. map_of (pb_prices b) (od_symbol x) = Some p \<and> \<not> p \<le> 0")
    case False
    then have "paper_submit x b = (let r = x\<lparr>od_status := REJECTED, od_reason := Some ''no market price''\<rparr>
        in (record_order r b, r))"
      using None by (auto simp: paper_submit_def Let_def split: option.split)
    then show thesis using that(2) None False by (simp add: Let_def)
  next
    case True
    then obtain p where p: "map_of (pb_prices b) (od_symbol x) = Some p" "\<not> p \<le> 0" by blast
    show thesis
    proof (cases "od_order_type x = LIMIT \<and> (\<exists>l. od_limit_price x = Some l \<and> \<not> marketable x p l)")
      case True
      then obtain l where l: "od_order_type x = LIMIT" "od_limit_price x = Some l" "\<not> marketable x p l"
        by blast
      then show thesis
        using that(3) [OF None p l] None p by (simp add: paper_submit_def Let_def)
    next
      case False
      let ?f = "if od_order_type x = LIMIT \<and> od_limit_price x \<noteq> None then the (od_limit_price x) else p"
      have "paper_submit x b = fill_order x ?f b"
        using None p False by (auto simp: paper_submit_def Let_def split: order_type.split option.split)
      moreover have "if od_order_type x = LIMIT \<and> od_limit_price x \<noteq> None
          then od_limit_price x = Some ?f \<and> marketable x p ?f else ?f = p"
        using False by auto
      ultimately show thesis by (rule that(4) [OF None p, rotated])
    qed
  qed
qed

lemma paper_submit_inv: "paper_inv b \<Longrightarrow> paper_inv (fst (paper_submit x b))"
  by (cases rule: paper_submit_cases [of b x]) (simp_all add: paper_inv_record paper_inv_fill)

lemma fill_order_orders:
  "pb_orders (fst (fill_order x f b)) =
     dict_set (od_client_order_id x) (snd (fill_order x f b)) (pb_orders b)"
  by (simp add: fill_order_def Let_def record_order_def)

definition paper_recorded :: "paper_broker \<Rightarrow> string \<rightharpoonup> order" where
  "paper_recorded b = map_of (pb_orders b)"

lemma paper_submit_orders:
  "map_of (pb_orders b) (od_client_order_id x) = None \<Longrightarrow>
     pb_orders (fst (paper_submit x b)) =
       dict_set (od_client_order_id x) (snd (paper_submit x b)) (pb_orders b)"
  by (cases rule: paper_submit_cases [of b x]) (simp_all add: fill_order_orders record_order_def)

interpretation paper: broker paper_ops paper_recorded paper_inv
proof
  fix b b' :: paper_broker and x r c xs
  assume b: "paper_inv b"
  show "paper_inv (fst (bk_submit paper_ops x b))"
    using paper_submit_inv [OF b, of x] by (cases "paper_submit x b") (simp add: paper_ops_def)
  show "bk_submit paper_ops x b = (b, Inr r)" if "paper_recorded b (od_client_order_id x) = Some r"
    using that by (simp add: paper_ops_def paper_submit_def paper_recorded_def)
  show "paper_recorded b' = (paper_recorded b)(od_client_order_id x \<mapsto> r)"
    if "bk_submit paper_ops x b = (b', Inr r)" "paper_recorded b (od_client_order_id x) = None"
    using that paper_submit_orders [of b x]
    by (auto simp: paper_ops_def paper_recorded_def dict_simps split: prod.splits)
  show "od_client_order_id r = c" if "paper_recorded b c = Some r"
    using that b by (auto simp: paper_inv_def paper_recorded_def dest: filed_lookup)
  show "od_status x \<in> open_states \<and> paper_recorded b (od_client_order_id x) = Some x"
    if "bk_open_orders paper_ops b = Inr xs" "x \<in> set xs"
  proof -
    have "od_status x \<in> open_states \<and> x \<in> set (vals (pb_orders b))"
      using that unfolding paper_ops_def paper_open_orders_def by force
    then show ?thesis
      using b filed_vals [of od_client_order_id "pb_orders b" x]
      by (simp add: paper_inv_def paper_recorded_def del: set_map)
  qed
qed

section \<open>What a fill does\<close>

definition held_in :: "(string, position) dict \<Rightarrow> string \<Rightarrow> flt" where
  "held_in d s = (case map_of d s of None \<Rightarrow> 0 | Some p \<Rightarrow> ps_qty p)"

abbreviation held :: "paper_broker \<Rightarrow> string \<Rightarrow> flt" where
  "held b \<equiv> held_in (pb_positions b)"

lemma held_in_set: "held_in (dict_set s p d) t = (if t = s then ps_qty p else held_in d t)"
  by (simp add: held_in_def dict_simps)

lemma held_in_del: "held_in (dict_del s d) t = (if t = s then 0 else held_in d t)"
  by (simp add: held_in_def dict_simps)

lemma held_apply_fill:
  "held_in (apply_fill s q p d) t =
     (if t = s then (if map_of d s \<noteq> None \<and> \<bar>held_in d s + q\<bar> < fill_eps then 0 else held_in d s + q)
      else held_in d t)"
proof (cases "map_of d s")
  case None
  then show ?thesis by (simp add: apply_fill_def held_in_set) (simp add: held_in_def)
next
  case (Some pos)
  then have "held_in d s = ps_qty pos" by (simp add: held_in_def)
  with Some show ?thesis by (simp add: apply_fill_def Let_def held_in_set held_in_del)
qed

lemma apply_fill_other: "t \<noteq> s \<Longrightarrow> map_of (apply_fill s q p d) t = map_of d t"
  by (simp add: apply_fill_def Let_def dict_simps split: option.split)

lemma fill_order_fields:
  "pb_positions (fst (fill_order x f b)) =
     apply_fill (od_symbol x) (signed_qty (od_side x) (od_qty x)) f (pb_positions b)"
  "pb_cash (fst (fill_order x f b)) = pb_cash b - signed_qty (od_side x) (od_qty x) * f"
  "pb_prices (fst (fill_order x f b)) = pb_prices b"
  by (simp_all add: fill_order_def Let_def record_order_def)

lemma paper_submit_market:
  assumes "map_of (pb_orders b) (od_client_order_id x) = None" "od_order_type x = MARKET"
    and "map_of (pb_prices b) (od_symbol x) = Some p" "\<not> p \<le> 0"
  shows "paper_submit x b = fill_order x p b"
  using assms by (simp add: paper_submit_def)

text \<open>A symbol contributes its quantity at the market price, or at cost where there is none.\<close>

definition position_value :: "paper_broker \<Rightarrow> string \<Rightarrow> flt" where
  "position_value b s =
     (case map_of (pb_positions b) s of None \<Rightarrow> 0 | Some p \<Rightarrow> ps_qty p * price_or_avg b p)"

lemma equity_sum:
  assumes "paper_inv b" "finite A" "set (keys (pb_positions b)) \<subseteq> A"
  shows "ac_equity (paper_account b) = pb_cash b + (\<Sum>s\<in>A. position_value b s)"
proof -
  let ?d = "pb_positions b"
  have d: "distinct (keys ?d)" using assms(1) by (simp add: paper_inv_def filed_def)
  have "map (\<lambda>p. ps_qty p * price_or_avg b p) (vals ?d) = map (position_value b) (keys ?d)"
    using d by (auto simp: position_value_def)
  then have "sum_list (map (\<lambda>p. ps_qty p * price_or_avg b p) (vals ?d)) =
      (\<Sum>s\<in>set (keys ?d). position_value b s)"
    using d by (metis sum_list_distinct_conv_sum_set)
  also have "\<dots> = (\<Sum>s\<in>A. position_value b s)"
  proof (rule sum.mono_neutral_left [OF assms(2,3)], rule ballI)
    fix t assume "t \<in> A - set (keys ?d)"
    then have "map_of ?d t = None" by (simp add: map_of_eq_None_iff)
    then show "position_value b t = 0" by (simp add: position_value_def)
  qed
  finally show ?thesis by (simp add: paper_account_def Let_def)
qed

definition finite_books :: "paper_broker \<Rightarrow> bool" where
  "finite_books b \<longleftrightarrow> is_fin (pb_cash b)
     \<and> (\<forall>p \<in> set (vals (pb_positions b)). is_fin (ps_qty p) \<and> is_fin (price_or_avg b p))"

lemma position_value_fin: "finite_books b \<Longrightarrow> \<exists>r. position_value b s = Fin r"
proof (cases "map_of (pb_positions b) s")
  case None
  then show ?thesis by (simp add: position_value_def zero_flt_def)
next
  case (Some p)
  assume "finite_books b"
  moreover have "p \<in> set (vals (pb_positions b))" using map_of_SomeD [OF Some] by force
  ultimately obtain q r where "ps_qty p = Fin q" "price_or_avg b p = Fin r"
    unfolding finite_books_def is_fin_iff by blast
  with Some show ?thesis by (simp add: position_value_def)
qed

lemma held_fin: "finite_books b \<Longrightarrow> \<exists>h. held b s = Fin h"
proof (cases "map_of (pb_positions b) s")
  case None
  then show ?thesis by (simp add: held_in_def zero_flt_def)
next
  case (Some p)
  assume "finite_books b"
  moreover have "p \<in> set (vals (pb_positions b))" using map_of_SomeD [OF Some] by force
  ultimately have "is_fin (ps_qty p)" unfolding finite_books_def by blast
  with Some show ?thesis by (simp add: held_in_def is_fin_iff)
qed

lemma sum_position_value_fin: "finite A \<Longrightarrow> finite_books b \<Longrightarrow> \<exists>r. (\<Sum>s\<in>A. position_value b s) = Fin r"
proof (induction A rule: finite_induct)
  case empty
  then show ?case by (simp add: zero_flt_def)
next
  case (insert a A)
  then obtain r r' where "(\<Sum>s\<in>A. position_value b s) = Fin r" "position_value b a = Fin r'"
    using position_value_fin by blast
  with insert show ?case by simp
qed

lemma apply_fill_keys: "set (keys (apply_fill s q p d)) \<subseteq> insert s (set (keys d))"
proof
  fix t assume "t \<in> set (keys (apply_fill s q p d))"
  then have "map_of (apply_fill s q p d) t \<noteq> None" by (simp add: map_of_eq_None_iff)
  then show "t \<in> insert s (set (keys d))"
    using apply_fill_other [of t s] by (cases "t = s") (auto simp: map_of_eq_None_iff)
qed

text \<open>The quantity after a fill is the sum, but for the dust.\<close>

lemma fill_quantity:
  assumes "held_in d s = Fin h"
  obtains h' where "held_in (apply_fill s (Fin sq) p d) s = Fin h'" "\<bar>h' - (h + sq)\<bar> \<le> 1 / 10 ^ 12"
proof (cases "map_of d s \<noteq> None \<and> \<bar>Fin h + Fin sq\<bar> < fill_eps")
  case True
  then show ?thesis using that [of 0] assms unfolding held_apply_fill
    by (simp add: zero_flt_def abs_minus_commute add.commute)
next
  case False
  then show ?thesis using that [of "h + sq"] assms unfolding held_apply_fill by (auto split: if_splits)
qed

lemma priced_position_value:
  assumes "paper_inv b" "map_of (pb_prices b) s = Some (Fin p)"
  shows "position_value b s = held b s * Fin p"
proof (cases "map_of (pb_positions b) s")
  case None
  then show ?thesis by (simp add: position_value_def held_in_def zero_flt_def)
next
  case (Some pos)
  then have "ps_symbol pos = s" using assms(1) by (auto simp: paper_inv_def dest: filed_lookup)
  then show ?thesis using Some assms(2) by (simp add: position_value_def held_in_def price_or_avg_def)
qed

text \<open>The equity, with one priced symbol taken out of the sum.\<close>

lemma equity_split:
  assumes "paper_inv b" "finite A" "set (keys (pb_positions b)) \<subseteq> insert s A" "map_of (pb_prices b) s = Some (Fin p)"
    and "held b s = Fin h" "(\<Sum>t\<in>A - {s}. position_value b t) = Fin r" "pb_cash b = Fin c"
  shows "ac_equity (paper_account b) = Fin (c + (h * p + r))"
proof -
  have "(\<Sum>t\<in>insert s A. position_value b t) = position_value b s + (\<Sum>t\<in>A - {s}. position_value b t)"
    using assms(2) by (rule sum.insert_remove)
  then show ?thesis
    using equity_sum [OF assms(1), of "insert s A"] priced_position_value [OF assms(1,4)] assms(2,3,5-7) by simp
qed

text \<open>C18: fills conserve equity.  A market order that fills at the market price moves value between
  cash and the position: with finite books the account's equity afterwards differs by at most the
  price of the position dust (below 1e-12 shares) that the broker drops.\<close>

theorem paper_fill_conserves_equity:
  assumes "paper_inv b" "finite_books b"
    and "map_of (pb_orders b) (od_client_order_id x) = None" "od_order_type x = MARKET"
    and "od_qty x = Fin q" "map_of (pb_prices b) (od_symbol x) = Some (Fin p)" "0 < p"
  shows "\<exists>e e'. ac_equity (paper_account b) = Fin e
    \<and> ac_equity (paper_account (fst (paper_submit x b))) = Fin e' \<and> \<bar>e' - e\<bar> \<le> p / 10 ^ 12"
proof -
  let ?s = "od_symbol x" let ?b' = "fst (paper_submit x b)" let ?A = "set (keys (pb_positions b))"
  obtain sq where sq: "signed_qty (od_side x) (od_qty x) = Fin sq"
    by (cases "od_side x") (auto simp: signed_qty_def assms(5))
  have sub: "paper_submit x b = fill_order x (Fin p) b"
    using assms by (intro paper_submit_market) (simp_all add: zero_flt_def)
  have fields: "pb_positions ?b' = apply_fill ?s (Fin sq) (Fin p) (pb_positions b)"
    "pb_cash ?b' = pb_cash b - Fin sq * Fin p" "pb_prices ?b' = pb_prices b"
    unfolding sub fill_order_fields sq by simp_all
  have other: "position_value ?b' t = position_value b t" if "t \<noteq> ?s" for t
    using that fields by (simp add: position_value_def apply_fill_other price_or_avg_def split: option.split)
  obtain c where c: "pb_cash b = Fin c" using assms(2) unfolding finite_books_def is_fin_iff by blast
  obtain r where r: "(\<Sum>t\<in>?A - {?s}. position_value b t) = Fin r"
    using sum_position_value_fin [of "?A - {?s}", OF _ assms(2)] by blast
  obtain h where h: "held b ?s = Fin h" using held_fin [OF assms(2)] by blast
  obtain h' where h': "held ?b' ?s = Fin h'" "\<bar>h' - (h + sq)\<bar> \<le> 1 / 10 ^ 12"
    unfolding fields using fill_quantity [OF h] by blast
  have "ac_equity (paper_account b) = Fin (c + (h * p + r))"
    using assms(1,6) h r c by (intro equity_split [of b ?A ?s]) auto
  moreover have "ac_equity (paper_account ?b') = Fin (c - sq * p + (h' * p + r))"
  proof (rule equity_split [of ?b' ?A ?s])
    show "set (keys (pb_positions ?b')) \<subseteq> insert ?s ?A" unfolding fields by (rule apply_fill_keys)
    show "(\<Sum>t\<in>?A - {?s}. position_value ?b' t) = Fin r" unfolding r [symmetric] by (rule sum.cong) (auto simp: other)
  qed (use paper_submit_inv [OF assms(1)] assms(6) fields c h' in \<open>simp_all add: flt_consts\<close>)
  moreover have "\<bar>(c - sq * p + (h' * p + r)) - (c + (h * p + r))\<bar> \<le> p / 10 ^ 12"
  proof -
    have "(c - sq * p + (h' * p + r)) - (c + (h * p + r)) = (h' - (h + sq)) * p"
      by (simp add: algebra_simps)
    moreover have "\<bar>h' - (h + sq)\<bar> * p \<le> 1 / 10 ^ 12 * p"
      using h'(2) assms(7) by (intro mult_right_mono) simp_all
    ultimately show ?thesis using assms(7) by (simp only: abs_mult) simp
  qed
  ultimately show ?thesis by blast
qed

definition sample_broker :: paper_broker where
  "sample_broker = paper_init [(''AAPL'', Fin 100), (''MSFT'', Fin 50)] (Fin 1000)"

lemma paper_fill_conserves_equity_witness:
  "\<exists>e e'. ac_equity (paper_account sample_broker) = Fin e
    \<and> ac_equity (paper_account (fst (paper_submit (market_order ''o1'' ''AAPL'' BUY (Fin 3)) sample_broker)))
        = Fin e'
    \<and> \<bar>e' - e\<bar> \<le> 100 / 10 ^ 12"
  by (rule paper_fill_conserves_equity [where q = 3])
    (simp_all add: sample_broker_def, simp_all add: paper_init_def finite_books_def is_fin_def)

text \<open>Submission is idempotent.  Sending a batch of orders to the paper broker a second time
  returns the same orders and leaves the broker as it was, so no order fills twice.\<close>

theorem paper_resubmission_is_idempotent:
  assumes "paper_inv b" "submit_all paper_ops xs b = (b', Inr rs)"
  shows "submit_all paper_ops xs b' = (b', Inr rs)"
  using assms by (rule paper.submit_all_again)

lemma paper_resubmission_is_idempotent_witness:
  "\<exists>b' rs. submit_all paper_ops [market_order ''o1'' ''AAPL'' BUY (Fin 3)] sample_broker = (b', Inr rs)
     \<and> submit_all paper_ops [market_order ''o1'' ''AAPL'' BUY (Fin 3)] b' = (b', Inr rs)"
proof -
  let ?xs = "[market_order ''o1'' ''AAPL'' BUY (Fin 3)]"
  obtain b' rs where s: "submit_all paper_ops ?xs sample_broker = (b', Inr rs)"
    by (cases "bk_submit paper_ops (hd ?xs) sample_broker") (auto simp: paper_ops_def split: prod.splits)
  moreover have "paper_inv sample_broker" by (simp add: sample_broker_def)
  ultimately show ?thesis using paper_resubmission_is_idempotent by blast
qed

end
