(* ===== verification/Risk.thy ===== *)
theory Risk
  imports Prelude PyTime
begin

text \<open>
  \<open>portfolio/risk.py\<close>: the risk limits, the order check that refuses an over-limit target, and the
  drawdown circuit breaker.  Weights and equity are \<open>flt\<close>: every test below is a comparison, and
  comparisons with NaN are false, which the lemmas make explicit.
\<close>

section \<open>Limits and the order check\<close>

type_synonym weights = "(string, flt) dict"

record risk_limits =
  lim_max_position_weight :: flt
  lim_max_gross_exposure :: flt
  lim_max_net_exposure :: flt
  lim_max_sector_weight :: flt

definition default_limits :: risk_limits where
  "default_limits = \<lparr>lim_max_position_weight = Fin (1 / 10), lim_max_gross_exposure = 1,
     lim_max_net_exposure = 1, lim_max_sector_weight = Fin (3 / 10)\<rparr>"

abbreviation weight_tol :: flt where "weight_tol \<equiv> Fin (1 / 10 ^ 9)"

definition check_order :: "string \<Rightarrow> flt \<Rightarrow> weights \<Rightarrow> risk_limits \<Rightarrow> unit res" where
  "check_order s w current lims =
     (if lim_max_position_weight lims + weight_tol < \<bar>w\<bar>
        then Inl (RiskLimitBreach (PositionBreach s w))
      else let proposed = dict_set s w current;
               gross = sum_list (map abs (vals proposed));
               net = sum_list (vals proposed)
           in if lim_max_gross_exposure lims + weight_tol < gross
                then Inl (RiskLimitBreach (GrossBreach gross))
              else if lim_max_net_exposure lims + weight_tol < \<bar>net\<bar>
                then Inl (RiskLimitBreach (NetBreach net))
              else Inr ())"

section \<open>The drawdown circuit breaker\<close>

record breaker =
  br_max_drawdown :: flt
  br_peak :: "flt option"
  br_tripped :: bool

definition new_breaker :: "flt \<Rightarrow> breaker" where
  "new_breaker m = \<lparr>br_max_drawdown = m, br_peak = None, br_tripped = False\<rparr>"

definition breaker_seed :: "flt option \<Rightarrow> bool \<Rightarrow> breaker \<Rightarrow> breaker" where
  "breaker_seed peak tripped br = br\<lparr>br_peak := peak, br_tripped := tripped\<rparr>"

definition breaker_update :: "flt \<Rightarrow> breaker \<Rightarrow> breaker \<times> bool" where
  "breaker_update equity br =
     (let peak = (case br_peak br of None \<Rightarrow> equity | Some p \<Rightarrow> py_max p equity);
          tripped = (if 0 < peak \<and> fdiv equity peak - 1 \<le> - br_max_drawdown br then True
                     else br_tripped br)
      in (br\<lparr>br_peak := Some peak, br_tripped := tripped\<rparr>, tripped))"

definition breaker_reset :: "breaker \<Rightarrow> breaker" where
  "breaker_reset br = br\<lparr>br_peak := None, br_tripped := False\<rparr>"

definition breaker_run :: "flt list \<Rightarrow> breaker \<Rightarrow> breaker" where
  "breaker_run es br = fold (\<lambda>e b. fst (breaker_update e b)) es br"

section \<open>Lemmas\<close>

text \<open>Checking every target of a book against the others is checking the book once.\<close>

definition within_limits :: "risk_limits \<Rightarrow> weights \<Rightarrow> bool" where
  "within_limits lims ws \<longleftrightarrow>
     (\<forall>(s, w) \<in> set ws. \<not> lim_max_position_weight lims + weight_tol < \<bar>w\<bar>)
     \<and> (ws \<noteq> [] \<longrightarrow> \<not> lim_max_gross_exposure lims + weight_tol < sum_list (map abs (vals ws))
          \<and> \<not> lim_max_net_exposure lims + weight_tol < \<bar>sum_list (vals ws)\<bar>)"

lemma check_order_ok_iff:
  "check_order s w current lims = Inr () \<longleftrightarrow>
     \<not> lim_max_position_weight lims + weight_tol < \<bar>w\<bar>
     \<and> \<not> lim_max_gross_exposure lims + weight_tol < sum_list (map abs (vals (dict_set s w current)))
     \<and> \<not> lim_max_net_exposure lims + weight_tol < \<bar>sum_list (vals (dict_set s w current))\<bar>"
  by (simp add: check_order_def Let_def)

lemma check_order_error: "check_order s w current lims = Inl e \<Longrightarrow> \<exists>r. e = RiskLimitBreach r"
  by (auto simp: check_order_def Let_def split: if_splits)

definition others :: "string \<Rightarrow> weights \<Rightarrow> weights" where
  "others s ws = filter (\<lambda>(k, v). k \<noteq> s) ws"

lemma mset_vals_others:
  "distinct (keys ws) \<Longrightarrow> (s, w) \<in> set ws \<Longrightarrow> mset (vals (dict_set s w (others s ws))) = mset (vals ws)"
proof -
  assume d: "distinct (keys ws)" and m: "(s, w) \<in> set ws"
  have "s \<notin> set (keys (others s ws))" by (auto simp: others_def)
  then have "dict_set s w (others s ws) = others s ws @ [(s, w)]" by (rule dict_set_new)
  moreover have "mset ws = add_mset (s, w) (mset (others s ws))"
    using d m
  proof (induction ws)
    case Nil
    then show ?case by simp
  next
    case (Cons p ws)
    show ?case
    proof (cases "p = (s, w)")
      case True
      then have "s \<notin> set (keys ws)" using Cons.prems by simp
      then have "others s ws = ws" unfolding others_def by (force simp: filter_id_conv)
      with True show ?thesis by (simp add: others_def)
    next
      case False
      then have "(s, w) \<in> set ws" using Cons.prems by simp
      moreover from this have "s \<in> set (keys ws)" by force
      then have "fst p \<noteq> s" using Cons.prems(1) by auto
      ultimately show ?thesis using Cons by (auto simp: others_def split_def)
    qed
  qed
  ultimately show ?thesis by simp
qed

lemma sum_list_mset_eq: "mset xs = mset ys \<Longrightarrow> sum_list (map f xs) = sum_list (map f ys)"
  for f :: "'a \<Rightarrow> 'b :: comm_monoid_add"
  by (metis mset_map sum_mset_sum_list)

lemma check_all_within_limits:
  assumes "distinct (keys ws)"
  shows "(\<forall>(s, w) \<in> set ws. check_order s w (others s ws) lims = Inr ()) \<longleftrightarrow> within_limits lims ws"
proof -
  have one: "check_order s w (others s ws) lims = Inr () \<longleftrightarrow>
     \<not> lim_max_position_weight lims + weight_tol < \<bar>w\<bar>
     \<and> \<not> lim_max_gross_exposure lims + weight_tol < sum_list (map abs (vals ws))
     \<and> \<not> lim_max_net_exposure lims + weight_tol < \<bar>sum_list (vals ws)\<bar>" if m: "(s, w) \<in> set ws" for s w
  proof -
    note eq = mset_vals_others [OF assms m]
    have "sum_list (map abs (vals (dict_set s w (others s ws)))) = sum_list (map abs (vals ws))"
      by (rule sum_list_mset_eq [OF eq])
    moreover have "sum_list (vals (dict_set s w (others s ws))) = sum_list (vals ws)"
      using sum_list_mset_eq [OF eq, of id] by simp
    ultimately show ?thesis unfolding check_order_ok_iff by simp
  qed
  have "(\<forall>p \<in> set ws. case p of (s, w) \<Rightarrow> check_order s w (others s ws) lims = Inr ()) \<longleftrightarrow>
    (\<forall>p \<in> set ws. case p of (s, w) \<Rightarrow> \<not> lim_max_position_weight lims + weight_tol < \<bar>w\<bar>
     \<and> \<not> lim_max_gross_exposure lims + weight_tol < sum_list (map abs (vals ws))
     \<and> \<not> lim_max_net_exposure lims + weight_tol < \<bar>sum_list (vals ws)\<bar>)"
    by (rule ball_cong) (auto simp: one)
  also have "\<dots> \<longleftrightarrow> within_limits lims ws"
    unfolding within_limits_def by (cases ws) auto
  finally show ?thesis .
qed

lemma breaker_update_max_drawdown [simp]:
  "br_max_drawdown (fst (breaker_update e br)) = br_max_drawdown br"
  by (simp add: breaker_update_def Let_def)

lemma breaker_run_snoc: "breaker_run (es @ [e]) br = fst (breaker_update e (breaker_run es br))"
  by (simp add: breaker_run_def)

lemma breaker_run_max_drawdown [simp]: "br_max_drawdown (breaker_run es br) = br_max_drawdown br"
  by (induction es rule: rev_induct) (simp_all add: breaker_run_snoc, simp add: breaker_run_def)

lemma breaker_update_sticky: "br_tripped br \<Longrightarrow> br_tripped (fst (breaker_update e br)) \<and> snd (breaker_update e br)"
  by (simp add: breaker_update_def Let_def)

text \<open>On finite equities the peak is the running maximum and the breaker has tripped exactly when
  some equity had fallen the given fraction below the maximum of those before it.\<close>

definition drawn_down :: "real \<Rightarrow> real list \<Rightarrow> nat \<Rightarrow> bool" where
  "drawn_down m es i \<longleftrightarrow> (let peak = Max (set (take (Suc i) es))
     in 0 < peak \<and> es ! i \<le> (1 - m) * peak)"

lemma breaker_test:
  "0 < Fin M \<and> fdiv (Fin e) (Fin M) - 1 \<le> - Fin m \<longleftrightarrow> 0 < M \<and> e \<le> (1 - m) * M"
proof (cases "0 < M")
  case True
  then have "e / M - 1 \<le> - m \<longleftrightarrow> e \<le> (1 - m) * M" by (simp add: field_simps)
  with True show ?thesis by (simp add: flt_consts)
qed (simp add: flt_consts)

lemma breaker_run_finite:
  "es \<noteq> [] \<Longrightarrow> breaker_run (map Fin es) (new_breaker (Fin m)) =
     \<lparr>br_max_drawdown = Fin m, br_peak = Some (Fin (Max (set es))),
      br_tripped = (\<exists>i < length es. drawn_down m es i)\<rparr>"
proof (induction es rule: rev_induct)
  case Nil
  then show ?case by simp
next
  case (snoc e es)
  have upd: "fst (breaker_update (Fin e) br) =
      \<lparr>br_max_drawdown = Fin m, br_peak = Some (Fin (Max (set (es @ [e])))),
       br_tripped = (br_tripped br \<or> drawn_down m (es @ [e]) (length es))\<rparr>"
    if "br_max_drawdown br = Fin m"
      "(case br_peak br of None \<Rightarrow> Fin e | Some p \<Rightarrow> py_max p (Fin e)) = Fin (Max (set (es @ [e])))"
    for br
  proof -
    let ?M = "Max (set (es @ [e]))"
    have "(0 < Fin ?M \<and> fdiv (Fin e) (Fin ?M) - 1 \<le> - Fin m) \<longleftrightarrow> drawn_down m (es @ [e]) (length es)"
      unfolding breaker_test by (simp add: drawn_down_def Let_def)
    then show ?thesis
      unfolding breaker_update_def Let_def fst_conv that by (simp add: that)
  qed
  have old: "(\<exists>i < length (es @ [e]). drawn_down m (es @ [e]) i) \<longleftrightarrow>
      (\<exists>i < length es. drawn_down m es i) \<or> drawn_down m (es @ [e]) (length es)"
  proof -
    have "drawn_down m (es @ [e]) i = drawn_down m es i" if "i < length es" for i
      using that by (simp add: drawn_down_def nth_append)
    then show ?thesis by (auto simp: less_Suc_eq)
  qed
  show ?case
  proof (cases "es = []")
    case True
    then show ?thesis
      unfolding map_append list.map breaker_run_snoc
      by (subst upd) (auto simp: breaker_run_def new_breaker_def)
  next
    case False
    have mx: "Max (insert e (set es)) = max (Max (set es)) e"
      using False by (simp add: max.commute)
    show ?thesis
      unfolding map_append list.map breaker_run_snoc snoc.IH [OF False]
      by (subst upd) (use old in \<open>auto simp: py_max_def mx\<close>)
  qed
qed

section \<open>Properties\<close>

text \<open>The risk check of a whole book.  Checking each target against the rest of the book passes
  exactly when every weight is within the position limit and the gross and the net of the book are
  within theirs (with the code's 1e-9 tolerance).\<close>

theorem book_check_is_limit_check:
  assumes "distinct (keys ws)"
  shows "(\<forall>(s, w) \<in> set ws. check_order s w (others s ws) lims = Inr ()) \<longleftrightarrow> within_limits lims ws"
  using assms by (rule check_all_within_limits)

lemma book_check_is_limit_check_witness:
  "(\<forall>(s, w) \<in> set [(''AAPL'', Fin (1 / 20)), (''MSFT'', Fin (1 / 5))].
      check_order s w (others s [(''AAPL'', Fin (1 / 20)), (''MSFT'', Fin (1 / 5))]) default_limits = Inr ())
   \<longleftrightarrow> False"
  by (subst book_check_is_limit_check) (simp_all add: within_limits_def default_limits_def flt_consts)

text \<open>The drawdown governor.  Fed with finite equities, the breaker's peak is their maximum, and it
  is tripped exactly when at some point the equity stood at or below (1 - limit) times the highest
  equity seen up to then.\<close>

theorem breaker_trips_on_drawdown:
  assumes "es \<noteq> []"
  shows "br_peak (breaker_run (map Fin es) (new_breaker (Fin m))) = Some (Fin (Max (set es)))
    \<and> (br_tripped (breaker_run (map Fin es) (new_breaker (Fin m))) \<longleftrightarrow>
        (\<exists>i < length es. drawn_down m es i))"
  by (simp add: breaker_run_finite [OF assms])

lemma breaker_trips_on_drawdown_witness:
  "br_peak (breaker_run (map Fin [100, 120, 90]) (new_breaker (Fin (1 / 4)))) = Some (Fin 120)
   \<and> br_tripped (breaker_run (map Fin [100, 120, 90]) (new_breaker (Fin (1 / 4))))"
proof -
  have "drawn_down (1 / 4) [100, 120, 90] 2" by (simp add: drawn_down_def)
  then have "\<exists>i < length [100, 120, 90 :: real]. drawn_down (1 / 4) [100, 120, 90] i"
    by (intro exI [of _ 2]) simp
  then show ?thesis using breaker_trips_on_drawdown [of "[100, 120, 90]" "1 / 4"] by simp
qed

end
