(* ===== verification/Engine.thy ===== *)
theory Engine
  imports Store PaperBroker Risk Settings "HOL-Library.Sublist"
begin

text \<open>
  \<open>execution/audit.py\<close> and \<open>execution/engine.py\<close>: the audit log and the execution engine over a
  broker \<open>B\<close> and an optional audit store \<open>S\<close>.  A call returns the engine's new state with
  its result or its exception; \<open>now\<close> is the clock that \<open>utcnow()\<close> reads.
\<close>

section \<open>The audit log\<close>

definition execution_dataset :: string where "execution_dataset = ''execution.audit''"

text \<open>\<open>detail.get("client_order_id", "")\<close>, which the engine only sets to a string.\<close>

definition detail_ref :: "payload \<Rightarrow> string" where
  "detail_ref detail = (case pget detail ''client_order_id'' of PStr s \<Rightarrow> s | _ \<Rightarrow> [])"

definition audit_observation ::
  "datetime \<Rightarrow> datetime \<Rightarrow> string \<Rightarrow> string \<Rightarrow> payload \<Rightarrow> observation" where
  "audit_observation now as_of symbol event detail =
     with_deterministic_id (new_obs now ''execution'' execution_dataset ''equity'' symbol
       (Some (event @ '':'' @ detail_ref detail)) as_of as_of
       (fold (\<lambda>(k, v). dict_set k v) detail [(''event'', PStr event)]) [])"

definition log_execution_event ::
  "'s store_ops \<Rightarrow> datetime \<Rightarrow> datetime \<Rightarrow> string \<Rightarrow> string \<Rightarrow> payload \<Rightarrow> 's \<Rightarrow> 's" where
  "log_execution_event S now as_of symbol event detail s =
     st_upsert S [audit_observation now as_of symbol event detail] s"

definition load_execution_audit :: "'s store_ops \<Rightarrow> datetime \<Rightarrow> 's \<Rightarrow> observation list" where
  "load_execution_audit S as_of s = st_as_of S s as_of (q_of_dataset execution_dataset)"

section \<open>The persisted high-water mark\<close>

definition drawdown_state_dataset :: string where
  "drawdown_state_dataset = ''risk.drawdown_state''"

definition load_drawdown_state ::
  "'s store_ops \<Rightarrow> datetime \<Rightarrow> 's \<Rightarrow> (flt option \<times> bool) res" where
  "load_drawdown_state S now s =
     (case st_as_of S s now (q_of_dataset drawdown_state_dataset) of
        [] \<Rightarrow> Inr (None, False)
      | x # xs \<Rightarrow>
          let latest = max_by o_event_time x xs;
              peak = pget (o_value latest) ''peak'';
              tripped = truthy (pget (o_value latest) ''tripped'')
          in if truthy peak
             then (case to_float peak of Inl e \<Rightarrow> Inl e | Inr p \<Rightarrow> Inr (Some p, tripped))
             else Inr (None, tripped))"

section \<open>The engine\<close>

record ('b, 's) engine =
  en_broker :: 'b
  en_settings :: settings
  en_limits :: risk_limits
  en_audit :: "'s option"
  en_kill :: kill_switch
  en_breaker :: breaker
  en_limiter :: rate_limiter

definition engine_init ::
  "'s store_ops \<Rightarrow> datetime \<Rightarrow> 'b \<Rightarrow> settings \<Rightarrow> risk_limits option \<Rightarrow> 's option
   \<Rightarrow> kill_switch option \<Rightarrow> breaker option \<Rightarrow> rate_limiter option \<Rightarrow> ('b, 's) engine res" where
  "engine_init S now b st limits audit_store kill brk limiter =
     (let br0 = (case brk of Some br \<Rightarrow> br | None \<Rightarrow> new_breaker (max_drawdown_halt st));
          seeded = (case (brk, audit_store) of
              (None, Some s) \<Rightarrow> (case load_drawdown_state S now s of
                  Inl e \<Rightarrow> Inl e
                | Inr (peak, was_tripped) \<Rightarrow>
                    Inr (if peak \<noteq> None then breaker_seed peak was_tripped br0 else br0))
            | _ \<Rightarrow> Inr br0)
      in case seeded of
           Inl e \<Rightarrow> Inl e
         | Inr br \<Rightarrow> Inr
             \<lparr>en_broker = b, en_settings = st,
              en_limits = (case limits of Some l \<Rightarrow> l | None \<Rightarrow> default_limits),
              en_audit = audit_store,
              en_kill = (case kill of Some k \<Rightarrow> k | None \<Rightarrow> new_kill_switch),
              en_breaker = br,
              en_limiter = (case limiter of Some l \<Rightarrow> l
                | None \<Rightarrow> \<lparr>rl_max_orders = max_orders_per_interval st, rl_count = 0\<rparr>)\<rparr>)"

definition audit_event ::
  "'s store_ops \<Rightarrow> datetime \<Rightarrow> datetime \<Rightarrow> string \<Rightarrow> string \<Rightarrow> payload \<Rightarrow> ('b, 's) engine
   \<Rightarrow> ('b, 's) engine" where
  "audit_event S now as_of symbol event detail en =
     (case en_audit en of
        None \<Rightarrow> en
      | Some s \<Rightarrow> en\<lparr>en_audit := Some (log_execution_event S now as_of symbol event detail s)\<rparr>)"

definition drawdown_observation :: "datetime \<Rightarrow> datetime \<Rightarrow> flt \<Rightarrow> bool \<Rightarrow> observation" where
  "drawdown_observation now as_of peak tripped =
     with_deterministic_id (new_obs now ''execution'' drawdown_state_dataset ''portfolio''
       ''PORTFOLIO'' (Some ''drawdown'') as_of as_of
       [(''peak'', PFloat peak), (''tripped'', PBool tripped)] [])"

definition save_drawdown_state ::
  "'s store_ops \<Rightarrow> datetime \<Rightarrow> datetime \<Rightarrow> ('b, 's) engine \<Rightarrow> ('b, 's) engine" where
  "save_drawdown_state S now as_of en =
     (case (en_audit en, br_peak (en_breaker en)) of
        (Some s, Some peak) \<Rightarrow>
          en\<lparr>en_audit := Some (st_upsert S
               [drawdown_observation now as_of peak (br_tripped (en_breaker en))] s)\<rparr>
      | _ \<Rightarrow> en)"

definition engage :: "string \<Rightarrow> ('b, 's) engine \<Rightarrow> ('b, 's) engine" where
  "engage r en = en\<lparr>en_kill := kill_engage r (en_kill en)\<rparr>"

text \<open>The halting gates, in order: live arming, kill switch, drawdown, daily loss.\<close>

definition halt_gates ::
  "'b broker_ops \<Rightarrow> 's store_ops \<Rightarrow> datetime \<Rightarrow> datetime \<Rightarrow> ('b, 's) engine
   \<Rightarrow> ('b, 's) engine \<times> account res" where
  "halt_gates B S now as_of en =
     (let st = en_settings en;
          armed = (if execution_mode st = LiveMode then assert_live_allowed st else Inr ())
      in case armed of Inl e \<Rightarrow> (en, Inl e) | Inr _ \<Rightarrow>
         if ks_engaged (en_kill en) then
           (en, Inl (KillSwitchEngaged (HaltEngaged
              (case ks_reason (en_kill en) of
                 Some r \<Rightarrow> if r = [] then ''engaged'' else r | None \<Rightarrow> ''engaged''))))
         else (case bk_account B (en_broker en) of
             Inl e \<Rightarrow> (en, Inl e)
           | Inr acct \<Rightarrow>
               let (br, tripped) = breaker_update (ac_equity acct) (en_breaker en);
                   en1 = save_drawdown_state S now as_of (en\<lparr>en_breaker := br\<rparr>)
               in if tripped then
                    (audit_event S now as_of ''PORTFOLIO'' ''halt''
                       [(''reason'', PStr ''drawdown''),
                        (''peak'', case br_peak br of None \<Rightarrow> PNone | Some p \<Rightarrow> PFloat p)]
                       (engage ''drawdown_circuit_breaker'' en1),
                     Inl (KillSwitchEngaged HaltDrawdown))
                  else if 0 < max_daily_loss st \<and> 0 < ac_last_equity acct then
                    let day_return = fdiv (ac_equity acct) (ac_last_equity acct) - 1
                    in if day_return \<le> - max_daily_loss st then
                         (audit_event S now as_of ''PORTFOLIO'' ''halt''
                            [(''reason'', PStr ''daily_loss''),
                             (''day_return'', PFloat (flt_round_digits 4 day_return))]
                            (engage ''daily_loss_limit'' en1),
                          Inl (KillSwitchEngaged (HaltDailyLoss day_return)))
                       else (en1, Inr acct)
                  else (en1, Inr acct)))"

fun check_targets :: "risk_limits \<Rightarrow> weights \<Rightarrow> weights \<Rightarrow> unit res" where
  "check_targets lims ws [] = Inr ()"
| "check_targets lims ws ((s, w) # rest) =
     (case check_order s w (others s ws) lims of Inl e \<Rightarrow> Inl e | Inr _ \<Rightarrow> check_targets lims ws rest)"

definition add_pending :: "order \<Rightarrow> (string, flt) dict \<Rightarrow> (string, flt) dict" where
  "add_pending x d =
     (let remaining = od_qty x - od_filled_qty x;
          signed = signed_qty (od_side x) remaining
      in dict_set (od_symbol x) (dict_get 0 d (od_symbol x) + signed) d)"

definition effective_positions :: "position list \<Rightarrow> order list \<Rightarrow> (string, flt) dict" where
  "effective_positions ps pend = fold add_pending pend (dict_of ps_symbol ps_qty ps)"

definition whole_shares :: "settings \<Rightarrow> flt \<Rightarrow> flt res" where
  "whole_shares st q =
     (if \<not> fractional_shares st
      then (case py_int q of Inl e \<Rightarrow> Inl e | Inr n \<Rightarrow> Inr (Fin (of_int n)))
      else Inr q)"

definition in_band :: "settings \<Rightarrow> flt \<Rightarrow> flt \<Rightarrow> bool" where
  "in_band st current target \<longleftrightarrow> 0 < rebalance_band st \<and> current \<noteq> 0 \<and> target \<noteq> 0
     \<and> \<bar>target - current\<bar> < rebalance_band st * \<bar>target\<bar>"

definition plan_order ::
  "settings \<Rightarrow> flt \<Rightarrow> (string, flt) dict \<Rightarrow> (string, flt) dict \<Rightarrow> datetime \<Rightarrow> string \<times> flt
   \<Rightarrow> (order \<times> flt) option res" where
  "plan_order st deployable prices positions as_of sw =
     (let (symbol, weight) = sw in
      case map_of prices symbol of
        None \<Rightarrow> Inr None
      | Some price \<Rightarrow>
          if \<not> flt_truthy price \<or> price \<le> 0 then Inr None
          else
            let target_qty = fdiv (weight * deployable) price;
                current_qty = dict_get 0 positions symbol;
                delta = target_qty - current_qty
            in if in_band st current_qty target_qty then Inr None
               else (case whole_shares st \<bar>delta\<bar> of
                   Inl e \<Rightarrow> Inl e
                 | Inr qty \<Rightarrow>
                     if qty * price < 1 then Inr None
                     else Inr (Some (market_order (stamp as_of @ ''-'' @ symbol) symbol
                                       (if 0 < delta then BUY else SELL) qty, price))))"

definition plan_orders ::
  "settings \<Rightarrow> flt \<Rightarrow> (string, flt) dict \<Rightarrow> (string, flt) dict \<Rightarrow> datetime \<Rightarrow> weights
   \<Rightarrow> (order \<times> flt) list res" where
  "plan_orders st deployable prices positions as_of ws =
     (case collect_res (plan_order st deployable prices positions as_of) ws of
        Inl e \<Rightarrow> Inl e
      | Inr planned \<Rightarrow> Inr (sort_key (\<lambda>op. od_side (fst op) \<noteq> SELL) planned))"

definition is_broker_error :: "pyerr \<Rightarrow> bool" where
  "is_broker_error e \<longleftrightarrow> (case e of BrokerError _ \<Rightarrow> True | _ \<Rightarrow> False)"

text \<open>The submission loop returns the orders placed and the number skipped; a broker error is
  caught, any other exception leaves the loop.\<close>

fun submit_planned ::
  "'b broker_ops \<Rightarrow> 's store_ops \<Rightarrow> datetime \<Rightarrow> datetime \<Rightarrow> (order \<times> flt) list \<Rightarrow> order list \<Rightarrow> nat
   \<Rightarrow> ('b, 's) engine \<Rightarrow> ('b, 's) engine \<times> (order list \<times> nat) res" where
  "submit_planned B S now as_of [] orders skipped en = (en, Inr (orders, skipped))"
| "submit_planned B S now as_of ((x, price) # rest) orders skipped en =
     (case sanity_check_order x (Some price) default_max_qty default_max_deviation of
        Inl exc \<Rightarrow>
          submit_planned B S now as_of rest orders (Suc skipped)
            (audit_event S now as_of (od_symbol x) ''order_skipped'' [(''reason'', PExc exc)] en)
      | Inr _ \<Rightarrow>
          let (lim', allowed) = limiter_allow (en_limiter en); en0 = en\<lparr>en_limiter := lim'\<rparr> in
          if \<not> allowed then
            (audit_event S now as_of ''PORTFOLIO'' ''order_rate_capped''
               [(''cap'', PInt (rl_max_orders lim'))] en0, Inr (orders, skipped))
          else (case bk_submit B x (en_broker en0) of
              (b', Inl e) \<Rightarrow>
                if is_broker_error e then
                  submit_planned B S now as_of rest orders (Suc skipped)
                    (audit_event S now as_of (od_symbol x) ''order_rejected''
                       [(''side'', PStr (side_text (od_side x))), (''qty'', PFloat (od_qty x)),
                        (''reason'', PExc e)] (en0\<lparr>en_broker := b'\<rparr>))
                else (en0\<lparr>en_broker := b'\<rparr>, Inl e)
            | (b', Inr filled) \<Rightarrow>
                submit_planned B S now as_of rest (orders @ [filled]) skipped
                  (audit_event S now as_of (od_symbol x) ''order''
                     [(''client_order_id'', PStr (od_client_order_id x)),
                      (''side'', PStr (side_text (od_side x))), (''qty'', PFloat (od_qty x)),
                      (''status'', PStr (status_text (od_status filled))),
                      (''mode'', PStr (mode_text (execution_mode (en_settings en))))]
                     (en0\<lparr>en_broker := b'\<rparr>))))"

definition rebalance ::
  "'b broker_ops \<Rightarrow> 's store_ops \<Rightarrow> datetime \<Rightarrow> weights \<Rightarrow> (string, flt) dict \<Rightarrow> datetime
   \<Rightarrow> ('b, 's) engine \<Rightarrow> ('b, 's) engine \<times> order list res" where
  "rebalance B S now target_weights prices as_of en =
     (case halt_gates B S now as_of en of
        (en1, Inl e) \<Rightarrow> (en1, Inl e)
      | (en1, Inr acct) \<Rightarrow>
         let deployable = py_min (ac_equity acct) (capital_ceiling (en_settings en1)) in
         case check_targets (en_limits en1) target_weights target_weights of
           Inl e \<Rightarrow> (en1, Inl e)
         | Inr _ \<Rightarrow>
         case bk_positions B (en_broker en1) of
           Inl e \<Rightarrow> (en1, Inl e)
         | Inr ps \<Rightarrow>
         case bk_open_orders B (en_broker en1) of
           Inl e \<Rightarrow> (en1, Inl e)
         | Inr pend \<Rightarrow>
         case plan_orders (en_settings en1) deployable prices (effective_positions ps pend) as_of
                target_weights of
           Inl e \<Rightarrow> (en1, Inl e)
         | Inr planned \<Rightarrow>
         case submit_planned B S now as_of planned [] 0 en1 of
           (en2, Inl e) \<Rightarrow> (en2, Inl e)
         | (en2, Inr (orders, skipped)) \<Rightarrow>
             (if skipped \<noteq> 0
              then audit_event S now as_of ''PORTFOLIO'' ''rebalance_summary''
                     [(''placed'', PInt (int (length orders))), (''skipped'', PInt (int skipped))] en2
              else en2,
              Inr orders))"

fun flatten_loop ::
  "'b broker_ops \<Rightarrow> 's store_ops \<Rightarrow> datetime \<Rightarrow> datetime \<Rightarrow> position list \<Rightarrow> order list
   \<Rightarrow> ('b, 's) engine \<Rightarrow> ('b, 's) engine \<times> order list res" where
  "flatten_loop B S now as_of [] orders en = (en, Inr orders)"
| "flatten_loop B S now as_of (pos # rest) orders en =
     (let x = market_order (''flat-'' @ stamp as_of @ ''-'' @ ps_symbol pos) (ps_symbol pos)
                (if 0 < ps_qty pos then SELL else BUY) \<bar>ps_qty pos\<bar>
      in case bk_submit B x (en_broker en) of
           (b', Inl e) \<Rightarrow> (en\<lparr>en_broker := b'\<rparr>, Inl e)
         | (b', Inr r) \<Rightarrow>
             flatten_loop B S now as_of rest (orders @ [r])
               (audit_event S now as_of (ps_symbol pos) ''flatten''
                  [(''client_order_id'', PStr (od_client_order_id x))] (en\<lparr>en_broker := b'\<rparr>)))"

definition halt_and_flatten ::
  "'b broker_ops \<Rightarrow> 's store_ops \<Rightarrow> datetime \<Rightarrow> datetime \<Rightarrow> ('b, 's) engine
   \<Rightarrow> ('b, 's) engine \<times> order list res" where
  "halt_and_flatten B S now as_of en =
     (let en1 = engage ''manual_kill'' en
      in case bk_positions B (en_broker en1) of
           Inl e \<Rightarrow> (en1, Inl e)
         | Inr ps \<Rightarrow> flatten_loop B S now as_of ps [] en1)"

section \<open>What a step leaves alone\<close>

lemma audit_event_fields [simp]:
  "en_broker (audit_event S now t sy ev d en) = en_broker en"
  "en_settings (audit_event S now t sy ev d en) = en_settings en"
  "en_limits (audit_event S now t sy ev d en) = en_limits en"
  "en_kill (audit_event S now t sy ev d en) = en_kill en"
  "en_breaker (audit_event S now t sy ev d en) = en_breaker en"
  "en_limiter (audit_event S now t sy ev d en) = en_limiter en"
  by (simp_all add: audit_event_def split: option.split)

lemma save_drawdown_fields [simp]:
  "en_broker (save_drawdown_state S now t en) = en_broker en"
  "en_settings (save_drawdown_state S now t en) = en_settings en"
  "en_limits (save_drawdown_state S now t en) = en_limits en"
  "en_kill (save_drawdown_state S now t en) = en_kill en"
  "en_breaker (save_drawdown_state S now t en) = en_breaker en"
  "en_limiter (save_drawdown_state S now t en) = en_limiter en"
  by (simp_all add: save_drawdown_state_def split: option.split)

lemma engage_fields [simp]:
  "en_broker (engage r en) = en_broker en" "en_settings (engage r en) = en_settings en"
  "en_limits (engage r en) = en_limits en" "en_breaker (engage r en) = en_breaker en"
  "en_limiter (engage r en) = en_limiter en"
  "ks_engaged (en_kill (engage r en))" "ks_reason (en_kill (engage r en)) = Some r"
  by (simp_all add: engage_def kill_engage_def)

section \<open>The gates\<close>

definition live_armed :: "settings \<Rightarrow> bool" where
  "live_armed st \<longleftrightarrow> (execution_mode st = LiveMode \<longrightarrow> live_trading_enabled st)"

definition daily_loss_hit :: "settings \<Rightarrow> account \<Rightarrow> bool" where
  "daily_loss_hit st acct \<longleftrightarrow> 0 < max_daily_loss st \<and> 0 < ac_last_equity acct
     \<and> fdiv (ac_equity acct) (ac_last_equity acct) - 1 \<le> - max_daily_loss st"

definition gates_open :: "'b broker_ops \<Rightarrow> ('b, 's) engine \<Rightarrow> account \<Rightarrow> bool" where
  "gates_open B en acct \<longleftrightarrow> live_armed (en_settings en) \<and> \<not> ks_engaged (en_kill en)
     \<and> bk_account B (en_broker en) = Inr acct
     \<and> \<not> snd (breaker_update (ac_equity acct) (en_breaker en))
     \<and> \<not> daily_loss_hit (en_settings en) acct"

lemma halt_gates_fields:
  assumes "halt_gates B S now t en = (en1, r)"
  shows "en_broker en1 = en_broker en \<and> en_settings en1 = en_settings en
    \<and> en_limits en1 = en_limits en \<and> en_limiter en1 = en_limiter en"
  using assms unfolding halt_gates_def Let_def
  by (auto split: sum.splits if_splits prod.splits)

lemma halt_gates_open:
  "halt_gates B S now t en = (en1, Inr acct) \<Longrightarrow> gates_open B en acct"
  unfolding halt_gates_def Let_def assert_live_allowed_def gates_open_def live_armed_def
    daily_loss_hit_def
  by (auto split: sum.splits if_splits prod.splits)

lemma halt_gates_closed:
  assumes "\<not> gates_open B en acct" "bk_account B (en_broker en) = Inr acct"
  shows "\<exists>en1 e. halt_gates B S now t en = (en1, Inl e)"
proof (cases "halt_gates B S now t en")
  case (Pair en1 r)
  show ?thesis
  proof (cases r)
    case (Inr acct')
    with Pair have "gates_open B en acct'" by (simp add: halt_gates_open)
    then show ?thesis using assms by (simp add: gates_open_def)
  qed (use Pair in blast)
qed

lemma check_targets_ok:
  "check_targets lims ws xs = Inr () \<longleftrightarrow> (\<forall>(s, w) \<in> set xs. check_order s w (others s ws) lims = Inr ())"
  by (induction xs) (auto split: sum.splits)

text \<open>A broker whose submission fails only with a broker error.\<close>

definition only_broker_errors :: "'b broker_ops \<Rightarrow> bool" where
  "only_broker_errors B \<longleftrightarrow> (\<forall>x b b' e. bk_submit B x b = (b', Inl e) \<longrightarrow> is_broker_error e)"

lemma paper_only_broker_errors [simp]: "only_broker_errors paper_ops"
  by (simp add: only_broker_errors_def paper_ops_def split: prod.splits)

lemma submit_planned_returns:
  assumes "only_broker_errors B"
  shows "\<exists>en' os k. submit_planned B S now t planned orders skipped en = (en', Inr (os, k))"
proof (induction planned arbitrary: orders skipped en)
  case Nil
  then show ?case by simp
next
  case (Cons xp planned)
  obtain x p where xp: "xp = (x, p)" by force
  obtain l a where la: "limiter_allow (en_limiter en) = (l, a)" by force
  obtain b' r where sub: "bk_submit B x (en_broker en) = (b', r)" by force
  show ?case
  proof (cases "sanity_check_order x (Some p) default_max_qty default_max_deviation")
    case (Inl e)
    then show ?thesis using Cons.IH by (simp add: xp)
  next
    case (Inr u)
    show ?thesis
    proof (cases r)
      case (Inl e)
      then have "is_broker_error e" using assms sub unfolding only_broker_errors_def by blast
      then show ?thesis using Inr Inl Cons.IH sub la by (simp add: xp Let_def)
    next
      case r: (Inr filled)
      then show ?thesis using Inr Cons.IH sub la by (simp add: xp Let_def)
    qed
  qed
qed

lemma submit_planned_error:
  "submit_planned B S now t planned orders skipped en = (en', Inl e)
    \<Longrightarrow> \<exists>x b b'. bk_submit B x b = (b', Inl e) \<and> \<not> is_broker_error e"
  by (induction B S now t planned orders skipped en rule: submit_planned.induct)
    (fastforce simp: Let_def split: sum.splits prod.splits if_splits)+

lemma rebalance_error:
  assumes "rebalance B S now ws prices t en = (en', Inl e)"
  shows "en_broker en' = en_broker en
    \<or> ((\<exists>acct. gates_open B en acct) \<and> check_targets (en_limits en) ws ws = Inr ()
       \<and> (\<exists>x b b'. bk_submit B x b = (b', Inl e) \<and> \<not> is_broker_error e))"
proof -
  obtain en1 r where g: "halt_gates B S now t en = (en1, r)" by force
  note b1 = halt_gates_fields [OF g]
  show ?thesis
  proof (cases r)
    case (Inl x)
    then show ?thesis using assms g b1 by (simp add: rebalance_def)
  next
    case (Inr acct)
    then have open_gates: "gates_open B en acct" using halt_gates_open g by blast
    show ?thesis
    proof (cases "check_targets (en_limits en1) ws ws")
      case (Inl x)
      then show ?thesis using assms g Inr b1 by (simp add: rebalance_def Let_def)
    next
      case ok: (Inr u)
      have "en_broker en' = en_broker en1 \<or> (\<exists>planned. submit_planned B S now t planned [] 0 en1 = (en', Inl e))"
        using assms g Inr ok unfolding rebalance_def
        by (auto simp: Let_def split: sum.splits prod.splits)
      then show ?thesis using submit_planned_error open_gates ok b1 by (metis old.unit.exhaust)
    qed
  qed
qed

lemma rebalance_error_broker:
  assumes "only_broker_errors B" "rebalance B S now ws prices t en = (en', Inl e)"
  shows "en_broker en' = en_broker en"
  using rebalance_error [OF assms(2)] assms(1) unfolding only_broker_errors_def by blast

lemma rebalance_ok_gates:
  assumes "rebalance B S now ws prices t en = (en', Inr orders)"
  shows "\<exists>acct. gates_open B en acct \<and> check_targets (en_limits en) ws ws = Inr ()"
proof -
  obtain en1 r where g: "halt_gates B S now t en = (en1, r)" by force
  then obtain acct where r: "r = Inr acct"
    using assms by (cases r) (auto simp: rebalance_def)
  have "check_targets (en_limits en1) ws ws = Inr ()"
    using assms g r unfolding rebalance_def by (auto simp: Let_def split: sum.splits)
  then show ?thesis using halt_gates_open g r halt_gates_fields [OF g] by metis
qed

section \<open>Properties of the gates\<close>

definition sample_engine :: "(paper_broker, mem_store) engine" where
  "sample_engine = \<lparr>en_broker = sample_broker,
     en_settings = default_settings\<lparr>fractional_shares := True\<rparr>, en_limits = default_limits,
     en_audit = Some mem_empty, en_kill = new_kill_switch, en_breaker = new_breaker (Fin (1 / 5)),
     en_limiter = \<lparr>rl_max_orders = 50, rl_count = 0\<rparr>\<rparr>"

definition book_bounded :: "risk_limits \<Rightarrow> weights \<Rightarrow> bool" where
  "book_bounded lims ws \<longleftrightarrow> (\<forall>(s, w) \<in> set ws. \<bar>w\<bar> \<le> lim_max_position_weight lims + weight_tol)
     \<and> sum_list (map abs (vals ws)) \<le> lim_max_gross_exposure lims + weight_tol
     \<and> \<bar>sum_list (vals ws)\<bar> \<le> lim_max_net_exposure lims + weight_tol"

lemma within_limits_bounded:
  assumes lims: "lim_max_position_weight lims = Fin m" "lim_max_gross_exposure lims = Fin g" "lim_max_net_exposure lims = Fin n"
    and within: "within_limits lims ws" and "ws \<noteq> []" "NaN \<notin> set (vals ws)"
  shows "book_bounded lims ws"
proof -
  define d :: real where "d = 1 / 10 ^ 9"
  have pos: "\<not> Fin (m + d) < \<bar>w\<bar>" if "(s, w) \<in> set ws" for s w
    using within that by (auto simp: within_limits_def lims d_def)
  have fin: "\<exists>x. w = Fin x" if w: "w \<in> set (vals ws)" for w
  proof -
    obtain s where "(s, w) \<in> set ws" using w by force
    with pos [OF this] w assms(6) show ?thesis by (cases w) auto
  qed
  have sums: "\<exists>x y. sum_list (map abs ys) = Fin x \<and> sum_list ys = Fin y" if "\<forall>w \<in> set ys. \<exists>x. w = Fin x" for ys
    using that by (induction ys) (auto simp: zero_flt_def)
  obtain x y where xy: "sum_list (map abs (vals ws)) = Fin x" "sum_list (vals ws) = Fin y"
    using sums [of "vals ws"] fin by blast
  have one: "\<bar>w\<bar> \<le> Fin (m + d)" if sw: "(s, w) \<in> set ws" for s w
  proof -
    have "w \<in> set (vals ws)" using sw by force
    from fin [OF this] obtain z where "w = Fin z" ..
    then show ?thesis using pos [OF sw] by (simp add: flt_simps)
  qed
  show ?thesis
    unfolding book_bounded_def using within assms(5) one xy
    by (auto simp: within_limits_def lims d_def flt_simps not_less)
qed

text \<open>C1: the engine fails closed, whatever the broker.  A rebalance that returns has passed every gate: live
  trading armed if the mode is live, kill switch off, an account that could be read, no drawdown halt, no
  daily-loss halt, and a target book that passed the limit check; for finite limits that means each weight,
  the gross and the net of the book are within the limits up to the rounding tolerance, unless a weight is a NaN,
  which the check lets through.  A rebalance that ends in an exception leaves the broker as it was, so a closed
  gate or a refused book sends nothing; the only exception to this is one raised by the broker's own order submission that
  is not a broker error (a failed transport), after all the gates were passed.\<close>

theorem rebalance_fails_closed:
  assumes "distinct (keys ws)" "lim_max_position_weight (en_limits en) = Fin m"
    and "lim_max_gross_exposure (en_limits en) = Fin g" "lim_max_net_exposure (en_limits en) = Fin n"
  shows "case rebalance B S now ws prices t en of
      (en', Inl e) \<Rightarrow> en_broker en' = en_broker en
        \<or> ((\<exists>acct. gates_open B en acct) \<and> within_limits (en_limits en) ws
           \<and> (\<exists>x b b'. bk_submit B x b = (b', Inl e) \<and> \<not> is_broker_error e))
    | (en', Inr orders) \<Rightarrow> (\<exists>acct. gates_open B en acct) \<and> within_limits (en_limits en) ws
        \<and> (ws = [] \<or> NaN \<in> set (vals ws) \<or> book_bounded (en_limits en) ws)"
proof (cases "rebalance B S now ws prices t en")
  case (Pair en' r)
  have limits: "check_targets (en_limits en) ws ws = Inr () \<longleftrightarrow> within_limits (en_limits en) ws"
    by (simp add: check_targets_ok check_all_within_limits [OF assms(1)])
  show ?thesis
  proof (cases r)
    case (Inl e)
    then show ?thesis using Pair rebalance_error [of B S now ws prices t en en' e]
      unfolding limits by simp
  next
    case (Inr orders)
    then have "within_limits (en_limits en) ws" "\<exists>acct. gates_open B en acct"
      using Pair rebalance_ok_gates [of B S now ws prices t en en' orders] unfolding limits by simp_all
    then show ?thesis using Pair Inr within_limits_bounded [OF assms(2-4)] by auto
  qed
qed

text \<open>The sample engine with a broker of which every second submission is a failed transport.\<close>

definition flaky_ops :: "paper_broker broker_ops" where
  "flaky_ops = paper_ops\<lparr>bk_submit := (\<lambda>x b. if even (length (pb_orders b)) then bk_submit paper_ops x b else (b, Inl OverflowError))\<rparr>"

lemma rebalance_fails_closed_witness:
  "case rebalance flaky_ops mem_ops 9 [(''AAPL'', Fin (1 / 20))] [(''AAPL'', Fin 100)] 5 sample_engine of
      (en', Inl e) \<Rightarrow> en_broker en' = en_broker sample_engine
        \<or> ((\<exists>acct. gates_open flaky_ops sample_engine acct) \<and> within_limits (en_limits sample_engine) [(''AAPL'', Fin (1 / 20))]
           \<and> (\<exists>x b b'. bk_submit flaky_ops x b = (b', Inl e) \<and> \<not> is_broker_error e))
    | (en', Inr orders) \<Rightarrow> (\<exists>acct. gates_open flaky_ops sample_engine acct)
        \<and> within_limits (en_limits sample_engine) [(''AAPL'', Fin (1 / 20))]
        \<and> ([(''AAPL'', Fin (1 / 20))] = [] \<or> NaN \<in> set (vals [(''AAPL'', Fin (1 / 20))])
          \<or> book_bounded (en_limits sample_engine) [(''AAPL'', Fin (1 / 20))])"
  by (rule rebalance_fails_closed [where m = "1 / 10" and g = 1 and n = 1])
    (simp_all add: sample_engine_def default_limits_def flt_consts)

text \<open>C15: a drawdown halt is final.  When the breaker trips, the rebalance raises, the broker is
  untouched, the kill switch is engaged, and from then on every rebalance raises without changing
  anything, until someone resets the switch.\<close>

theorem drawdown_halt_is_final:
  assumes "live_armed (en_settings en)" "\<not> ks_engaged (en_kill en)"
    and "bk_account B (en_broker en) = Inr acct"
    and "snd (breaker_update (ac_equity acct) (en_breaker en))"
  shows "\<exists>en'. rebalance B S now ws prices t en = (en', Inl (KillSwitchEngaged HaltDrawdown))
    \<and> en_broker en' = en_broker en \<and> ks_engaged (en_kill en')
    \<and> (\<forall>now' ws' prices' t'. rebalance B S now' ws' prices' t' en' =
          (en', Inl (KillSwitchEngaged (HaltEngaged ''drawdown_circuit_breaker''))))"
proof -
  obtain en1 where g: "halt_gates B S now t en = (en1, Inl (KillSwitchEngaged HaltDrawdown))"
    and k: "ks_engaged (en_kill en1)" "ks_reason (en_kill en1) = Some ''drawdown_circuit_breaker''"
    using assms unfolding halt_gates_def Let_def assert_live_allowed_def live_armed_def
    by (cases "breaker_update (ac_equity acct) (en_breaker en)") (auto split: if_splits)
  note f = halt_gates_fields [OF g]
  have again: "halt_gates B S now' t' en1 =
      (en1, Inl (KillSwitchEngaged (HaltEngaged ''drawdown_circuit_breaker'')))" for now' t'
    using assms(1) k f by (auto simp: halt_gates_def Let_def assert_live_allowed_def live_armed_def)
  show ?thesis
    using g again f k by (intro exI [of _ en1]) (simp add: rebalance_def)
qed

lemma drawdown_halt_is_final_witness:
  "\<exists>en'. rebalance paper_ops mem_ops 9 [] [] 5
        (sample_engine\<lparr>en_breaker := breaker_seed (Some (Fin 2000)) False (new_breaker (Fin (1 / 5)))\<rparr>)
      = (en', Inl (KillSwitchEngaged HaltDrawdown)) \<and> ks_engaged (en_kill en')"
proof -
  let ?en = "sample_engine\<lparr>en_breaker := breaker_seed (Some (Fin 2000)) False (new_breaker (Fin (1 / 5)))\<rparr>"
  have a: "live_armed (en_settings ?en)" "\<not> ks_engaged (en_kill ?en)"
    by (simp_all add: sample_engine_def live_armed_def default_settings_def new_kill_switch_def)
  have b: "bk_account paper_ops (en_broker ?en) = Inr (paper_account sample_broker)"
    by (simp add: sample_engine_def paper_ops_def)
  have eq: "ac_equity (paper_account sample_broker) = Fin 1000"
    by (simp add: paper_account_def sample_broker_def paper_init_def zero_flt_def)
  have c: "snd (breaker_update (ac_equity (paper_account sample_broker)) (en_breaker ?en))"
    unfolding eq by (simp add: breaker_update_def breaker_seed_def new_breaker_def flt_simps)
  show ?thesis using drawdown_halt_is_final [OF a b c] by blast
qed

section \<open>The high-water mark survives a restart\<close>

lemma drawdown_observation_fields [simp]:
  "o_dataset (drawdown_observation now t p c) = drawdown_state_dataset"
  "o_event_time (drawdown_observation now t p c) = t"
  "o_knowledge_time (drawdown_observation now t p c) = t"
  "o_value (drawdown_observation now t p c) = [(''peak'', PFloat p), (''tripped'', PBool c)]"
  by (simp_all add: drawdown_observation_def)

definition drawdown_rows_before :: "(uuid \<rightharpoonup> observation) \<Rightarrow> datetime \<Rightarrow> bool" where
  "drawdown_rows_before m t \<longleftrightarrow>
     (\<forall>x \<in> ran m. o_dataset x = drawdown_state_dataset \<longrightarrow> o_event_time x < t)"

context bitemporal_store
begin

lemma load_saved_drawdown:
  assumes "inv s" "drawdown_rows_before (rows s) t" "t \<le> now'" "flt_truthy p"
  shows "load_drawdown_state S now' (st_upsert S [drawdown_observation now t p c] s) = Inr (Some p, c)"
proof -
  let ?x = "drawdown_observation now t p c" and ?q = "q_of_dataset drawdown_state_dataset"
  let ?s = "st_upsert S [?x] s"
  have vis: "visible now' ?q ?x" using assms(3) by (simp add: visible_dataset)
  note newest = newest_row_read [OF assms(1) q_latest_dataset vis, where P = "\<lambda>_. True", OF TrueI]
  have before: "o_event_time y < o_event_time ?x" if "y \<in> ran (rows s)" "visible now' ?q y" for y
    using that assms(2) by (simp add: drawdown_rows_before_def visible_dataset)
  have in_set: "?x \<in> set (st_as_of S ?s now' ?q)" by (rule newest(1)) (rule before)
  have old: "o_event_time y < t" if "y \<in> set (st_as_of S ?s now' ?q)" "y \<noteq> ?x" for y
    using newest(2) [OF _ that TrueI] before by simp
  from in_set obtain y ys where ys: "st_as_of S ?s now' ?q = y # ys"
    by (cases "st_as_of S ?s now' ?q") auto
  have "max_by o_event_time y ys = ?x"
    using in_set old unfolding ys by (intro max_by_unique) auto
  then show ?thesis
    using assms(4) by (simp add: load_drawdown_state_def ys Let_def pget_def)
qed

end

text \<open>The drawdown governor survives a restart.  After a rebalance has saved the breaker's peak, an
  engine built afresh from the audit store restores exactly that peak and tripped flag, whatever
  store is behind it, provided the earlier saves are of earlier cycles.\<close>

theorem drawdown_state_survives_restart:
  assumes "bitemporal_store S rows I" "I s" "drawdown_rows_before (rows s) t" "t \<le> now'"
    and "en_audit en = Some s" "br_peak (en_breaker en) = Some p" "flt_truthy p"
  shows "\<exists>en'. engine_init S now' b st lims (en_audit (save_drawdown_state S now t en)) None None None
      = Inr en'
    \<and> br_peak (en_breaker en') = Some p \<and> br_tripped (en_breaker en') = br_tripped (en_breaker en)
    \<and> br_max_drawdown (en_breaker en') = max_drawdown_halt st"
proof -
  have "en_audit (save_drawdown_state S now t en) =
      Some (st_upsert S [drawdown_observation now t p (br_tripped (en_breaker en))] s)"
    using assms(5,6) by (simp add: save_drawdown_state_def)
  moreover note bitemporal_store.load_saved_drawdown [OF assms(1-4,7)]
  ultimately show ?thesis
    by (simp add: engine_init_def Let_def breaker_seed_def new_breaker_def)
qed

lemma drawdown_state_survives_restart_witness:
  "\<exists>en'. engine_init mem_ops 7 sample_broker default_settings None
      (en_audit (save_drawdown_state mem_ops 6 5
        (sample_engine\<lparr>en_breaker := breaker_seed (Some (Fin 2000)) True (new_breaker (Fin (1 / 5)))\<rparr>)))
      None None None = Inr en'
    \<and> br_peak (en_breaker en') = Some (Fin 2000) \<and> br_tripped (en_breaker en')"
proof -
  let ?en = "sample_engine\<lparr>en_breaker := breaker_seed (Some (Fin 2000)) True (new_breaker (Fin (1 / 5)))\<rparr>"
  have "en_audit ?en = Some mem_empty" "br_peak (en_breaker ?en) = Some (Fin 2000)"
    "br_tripped (en_breaker ?en)" "flt_truthy (Fin 2000)"
    "drawdown_rows_before (mem_rows mem_empty) 5" "(5::int) \<le> 7"
    by (simp_all add: sample_engine_def breaker_seed_def flt_truthy_def drawdown_rows_before_def
        mem_rows_def mem_empty_def)
  note f = this
  show ?thesis
    using drawdown_state_survives_restart [OF mem.bitemporal_store_axioms mem_inv_empty f(5,6,1,2,4),
        where now = 6 and b = sample_broker and st = default_settings and lims = None] f(3)
    by auto
qed

section \<open>What reaches the broker\<close>

text \<open>A broker that also remembers every order sent to it, in order.\<close>

definition traced :: "'b broker_ops \<Rightarrow> ('b \<times> order list) broker_ops" where
  "traced B = \<lparr>bk_submit = (\<lambda>x (b, l). case bk_submit B x b of (b', r) \<Rightarrow> ((b', l @ [x]), r)),
     bk_cancel = (\<lambda>c (b, l). case bk_cancel B c b of (b', r) \<Rightarrow> ((b', l), r)),
     bk_positions = (\<lambda>(b, l). bk_positions B b), bk_open_orders = (\<lambda>(b, l). bk_open_orders B b),
     bk_account = (\<lambda>(b, l). bk_account B b)\<rparr>"

lemma traced_submit:
  "bk_submit (traced B) x bl = (bl', r) \<Longrightarrow> snd bl' = snd bl @ [x]"
  by (cases bl) (auto simp: traced_def split: prod.splits)

abbreviation sane :: "order \<times> flt \<Rightarrow> bool" where
  "sane xp \<equiv> sanity_check_order (fst xp) (Some (snd xp)) default_max_qty default_max_deviation = Inr ()"

lemma submit_planned_trace:
  "submit_planned (traced B) S now t planned orders k en = (en', r) \<Longrightarrow>
     \<exists>ys. snd (en_broker en') = snd (en_broker en) @ map fst ys \<and> subseq ys planned
       \<and> (\<forall>y \<in> set ys. sane y)
       \<and> int (length ys) = rl_count (en_limiter en') - rl_count (en_limiter en)
       \<and> int (length ys) \<le> max 0 (rl_max_orders (en_limiter en) - rl_count (en_limiter en))"
proof (induction planned arbitrary: orders k en)
  case Nil
  then show ?case by (intro exI [of _ "[]"]) simp
next
  case (Cons xp planned)
  obtain x p where xp: "xp = (x, p)" by force
  obtain l a where la: "limiter_allow (en_limiter en) = (l, a)" by force
  note lim = limiter_allow_bound [OF la]
  obtain b' br where sub: "bk_submit (traced B) x (en_broker en) = (b', br)"
    by (cases "bk_submit (traced B) x (en_broker en)")
  note tr = traced_submit [OF sub]
  have step: "\<exists>ys. snd (en_broker en') = snd (en_broker en) @ map fst ys \<and> subseq ys (xp # planned)
       \<and> (\<forall>y \<in> set ys. sane y)
       \<and> int (length ys) = rl_count (en_limiter en') - rl_count (en_limiter en)
       \<and> int (length ys) \<le> max 0 (rl_max_orders (en_limiter en) - rl_count (en_limiter en))"
    if s: "sane xp" "a" and rest: "\<exists>ys. snd (en_broker en') = snd b' @ map fst ys
       \<and> subseq ys planned \<and> (\<forall>y \<in> set ys. sane y)
       \<and> int (length ys) = rl_count (en_limiter en') - rl_count l
       \<and> int (length ys) \<le> max 0 (rl_max_orders l - rl_count l)"
  proof -
    obtain ys where ys: "snd (en_broker en') = snd b' @ map fst ys" "subseq ys planned"
       "\<forall>y \<in> set ys. sane y" "int (length ys) = rl_count (en_limiter en') - rl_count l"
       "int (length ys) \<le> max 0 (rl_max_orders l - rl_count l)" using rest by blast
    show ?thesis
      by (rule exI [of _ "xp # ys"]) (use ys s lim tr xp in \<open>simp add: max_def split: if_splits\<close>)
  qed
  show ?case
  proof (cases "sanity_check_order x (Some p) default_max_qty default_max_deviation")
    case (Inl e)
    then have "submit_planned (traced B) S now t planned orders (Suc k)
        (audit_event S now t (od_symbol x) ''order_skipped'' [(''reason'', PExc e)] en) = (en', r)"
      using Cons.prems by (simp add: xp)
    from Cons.IH [OF this] show ?thesis by (auto intro: list_emb_Cons)
  next
    case (Inr u)
    then have sane: "sane xp" by (simp add: xp)
    show ?thesis
    proof (cases a)
      case False
      then show ?thesis using Cons.prems Inr la lim
        by (intro exI [of _ "[]"]) (auto simp: xp Let_def)
    next
      case True
      show ?thesis
      proof (cases br)
        case (Inl e)
        show ?thesis
        proof (cases "is_broker_error e")
          case True
          let ?en = "audit_event S now t (od_symbol x) ''order_rejected''
             [(''side'', PStr (side_text (od_side x))), (''qty'', PFloat (od_qty x)),
              (''reason'', PExc e)] (en\<lparr>en_limiter := l, en_broker := b'\<rparr>)"
          have "submit_planned (traced B) S now t planned orders (Suc k) ?en = (en', r)"
            using Cons.prems Inr la \<open>a\<close> sub Inl True by (simp add: xp Let_def)
          from Cons.IH [OF this] show ?thesis by (intro step [OF sane \<open>a\<close>]) simp
        next
          case False
          then have "en' = en\<lparr>en_limiter := l, en_broker := b'\<rparr>"
            using Cons.prems Inr la \<open>a\<close> sub Inl by (simp add: xp Let_def)
          then show ?thesis by (intro step [OF sane \<open>a\<close>] exI [of _ "[]"]) simp
        qed
      next
        case r: (Inr filled)
        let ?en = "audit_event S now t (od_symbol x) ''order''
           [(''client_order_id'', PStr (od_client_order_id x)),
            (''side'', PStr (side_text (od_side x))), (''qty'', PFloat (od_qty x)),
            (''status'', PStr (status_text (od_status filled))),
            (''mode'', PStr (mode_text (execution_mode (en_settings en))))]
           (en\<lparr>en_limiter := l, en_broker := b'\<rparr>)"
        have "submit_planned (traced B) S now t planned (orders @ [filled]) k ?en = (en', r)"
          using Cons.prems Inr la \<open>a\<close> sub r by (simp add: xp Let_def)
        from Cons.IH [OF this] show ?thesis by (intro step [OF sane \<open>a\<close>]) simp
      qed
    qed
  qed
qed

end
