(* ===== verification/Execution.thy ===== *)
theory Execution
  imports Engine
begin

text \<open>
  What the execution engine sends to its broker: every submitted order is sane, planned, priced and
  counted; sells come first; the money spent is bounded by the gross limit and the capital
  ceiling; and with the paper broker a rebalance reaches the target quantities and a flatten
  closes every priced position.
\<close>

section \<open>The plan\<close>

lemma sorted_subseq: "subseq xs ys \<Longrightarrow> sorted ys \<Longrightarrow> sorted xs"
  by (induction rule: list_emb.induct) (auto dest: list_emb_set)

lemma subseq_mem: "subseq xs ys \<Longrightarrow> x \<in> set xs \<Longrightarrow> x \<in> set ys"
  by (induction rule: list_emb.induct) auto

lemma subseq_distinct: "subseq xs ys \<Longrightarrow> distinct ys \<Longrightarrow> distinct xs"
  by (induction rule: list_emb.induct) (auto dest: list_emb_set)

definition target_qty :: "flt \<Rightarrow> flt \<Rightarrow> flt \<Rightarrow> flt" where
  "target_qty weight deployable price = fdiv (weight * deployable) price"

lemma plan_order_some:
  assumes "plan_order st dep prices pos t (s, w) = Inr (Some (x, p))"
  shows "map_of prices s = Some p \<and> flt_truthy p \<and> \<not> p \<le> 0
    \<and> (\<exists>qty. whole_shares st \<bar>target_qty w dep p - dict_get 0 pos s\<bar> = Inr qty \<and> \<not> qty * p < 1
        \<and> x = market_order (stamp t @ ''-'' @ s) s
                (if 0 < target_qty w dep p - dict_get 0 pos s then BUY else SELL) qty)"
  using assms unfolding plan_order_def target_qty_def
  by (auto simp: Let_def split: option.splits if_splits sum.splits)

lemma plan_order_symbol:
  "plan_order st dep prices pos t sw = Inr (Some (x, p)) \<Longrightarrow> od_symbol x = fst sw"
  by (cases sw) (auto dest!: plan_order_some)

lemma collect_symbols:
  "collect_res (plan_order st dep prices pos t) ws = Inr planned \<Longrightarrow>
     subseq (map (\<lambda>xp. od_symbol (fst xp)) planned) (keys ws)"
proof (induction ws arbitrary: planned)
  case Nil
  then show ?case by simp
next
  case (Cons sw ws)
  then obtain y ys where y: "plan_order st dep prices pos t sw = Inr y"
    "collect_res (plan_order st dep prices pos t) ws = Inr ys"
    "planned = (case y of None \<Rightarrow> ys | Some z \<Rightarrow> z # ys)"
    by (auto split: sum.splits)
  show ?case
  proof (cases y)
    case None
    then show ?thesis using y Cons.IH by (simp add: list_emb_Cons)
  next
    case (Some xp)
    then show ?thesis using y Cons.IH plan_order_symbol [of _ _ _ _ _ sw "fst xp" "snd xp"] by simp
  qed
qed

lemma plan_orders_planned:
  assumes "plan_orders st dep prices pos t ws = Inr planned"
  obtains ps where "collect_res (plan_order st dep prices pos t) ws = Inr ps"
    "planned = sort_key (\<lambda>op. od_side (fst op) \<noteq> SELL) ps"
  using assms by (auto simp: plan_orders_def split: sum.splits)

lemma plan_orders_in:
  assumes "plan_orders st dep prices pos t ws = Inr planned" "(x, p) \<in> set planned"
  shows "\<exists>w. (od_symbol x, w) \<in> set ws \<and> plan_order st dep prices pos t (od_symbol x, w) = Inr (Some (x, p))"
proof -
  obtain ps where c: "collect_res (plan_order st dep prices pos t) ws = Inr ps"
    and pl: "planned = sort_key (\<lambda>op. od_side (fst op) \<noteq> SELL) ps"
    using assms(1) by (rule plan_orders_planned)
  have "(x, p) \<in> set ps" using assms(2) by (simp add: pl)
  from collect_res_in [OF c this] obtain sw where
    "sw \<in> set ws" "plan_order st dep prices pos t sw = Inr (Some (x, p))" by blast
  moreover from this have "sw = (od_symbol x, snd sw)" by (simp add: plan_order_symbol)
  ultimately show ?thesis by (metis)
qed

lemma plan_orders_symbols:
  assumes "plan_orders st dep prices pos t ws = Inr planned" "distinct (keys ws)"
  shows "distinct (map (\<lambda>xp. od_symbol (fst xp)) planned)"
proof -
  obtain ps where c: "collect_res (plan_order st dep prices pos t) ws = Inr ps"
    and pl: "planned = sort_key (\<lambda>op. od_side (fst op) \<noteq> SELL) ps"
    using assms(1) by (rule plan_orders_planned)
  have "distinct (map (\<lambda>xp. od_symbol (fst xp)) ps)"
    using collect_symbols [OF c] assms(2) by (rule subseq_distinct)
  moreover have "mset (map (\<lambda>xp. od_symbol (fst xp)) planned) = mset (map (\<lambda>xp. od_symbol (fst xp)) ps)"
    by (simp add: pl)
  ultimately show ?thesis using mset_eq_imp_distinct_iff by blast
qed

lemma plan_orders_sells_first:
  "plan_orders st dep prices pos t ws = Inr planned \<Longrightarrow>
     sorted (map (\<lambda>xp. od_side (fst xp) \<noteq> SELL) planned)"
  by (auto simp: plan_orders_def split: sum.splits)

text \<open>A run of the engine over the tracing broker.\<close>

lemma rebalance_trace:
  assumes "rebalance (traced B) S now ws prices t en = (en', r)" "snd (en_broker en) = []"
  obtains "snd (en_broker en') = []"
  | acct ps pend planned ys where
      "bk_account (traced B) (en_broker en) = Inr acct"
      "bk_positions (traced B) (en_broker en) = Inr ps"
      "bk_open_orders (traced B) (en_broker en) = Inr pend"
      "check_targets (en_limits en) ws ws = Inr ()"
      "plan_orders (en_settings en) (py_min (ac_equity acct) (capital_ceiling (en_settings en)))
         prices (effective_positions ps pend) t ws = Inr planned"
      "snd (en_broker en') = map fst ys" "subseq ys planned" "\<forall>y \<in> set ys. sane y"
      "int (length ys) \<le> max 0 (rl_max_orders (en_limiter en) - rl_count (en_limiter en))"
proof -
  obtain en1 g where g: "halt_gates (traced B) S now t en = (en1, g)" by force
  note f = halt_gates_fields [OF g]
  show thesis
  proof (cases "\<exists>acct ps pend planned. g = Inr acct \<and> check_targets (en_limits en) ws ws = Inr ()
      \<and> bk_positions (traced B) (en_broker en) = Inr ps
      \<and> bk_open_orders (traced B) (en_broker en) = Inr pend
      \<and> plan_orders (en_settings en) (py_min (ac_equity acct) (capital_ceiling (en_settings en)))
         prices (effective_positions ps pend) t ws = Inr planned")
    case False
    then have "en' = en1"
      using assms(1) g f unfolding rebalance_def
      by (auto simp: Let_def split: sum.splits)
    then show thesis using that(1) f assms(2) by simp
  next
    case True
    then obtain acct ps pend planned where p: "g = Inr acct"
      "check_targets (en_limits en) ws ws = Inr ()"
      "bk_positions (traced B) (en_broker en) = Inr ps"
      "bk_open_orders (traced B) (en_broker en) = Inr pend"
      "plan_orders (en_settings en) (py_min (ac_equity acct) (capital_ceiling (en_settings en)))
         prices (effective_positions ps pend) t ws = Inr planned" by blast
    obtain en2 r2 where sp: "submit_planned (traced B) S now t planned [] 0 en1 = (en2, r2)" by force
    have b: "en_broker en' = en_broker en2"
      using assms(1) g f p sp unfolding rebalance_def
      by (auto simp: Let_def split: sum.splits prod.splits if_splits)
    obtain ys where ys: "snd (en_broker en2) = snd (en_broker en1) @ map fst ys" "subseq ys planned"
      "\<forall>y \<in> set ys. sane y"
      "int (length ys) \<le> max 0 (rl_max_orders (en_limiter en1) - rl_count (en_limiter en1))"
      using submit_planned_trace [OF sp] by blast
    have "bk_account (traced B) (en_broker en) = Inr acct"
      using halt_gates_open [of "traced B" S now t en en1 acct] g p(1) by (simp add: gates_open_def)
    then show thesis
      using that(2) [of acct ps pend planned ys] p ys b f assms(2) by simp
  qed
qed

section \<open>Properties of the orders\<close>

definition well_formed_order ::
  "weights \<Rightarrow> (string, flt) dict \<Rightarrow> datetime \<Rightarrow> order \<Rightarrow> bool" where
  "well_formed_order ws prices t x \<longleftrightarrow>
     od_symbol x \<in> set (keys ws) \<and> od_order_type x = MARKET
     \<and> od_client_order_id x = stamp t @ ''-'' @ od_symbol x
     \<and> (\<exists>q. od_qty x = Fin q \<and> 0 < q \<and> q \<le> 10000000)
     \<and> (\<exists>p. map_of prices (od_symbol x) = Some p \<and> flt_truthy p \<and> \<not> p \<le> 0 \<and> \<not> od_qty x * p < 1)"

lemma planned_well_formed:
  assumes "plan_orders st capital prices pos t ws = Inr planned" "(x, p) \<in> set planned" "sane (x, p)"
  shows "well_formed_order ws prices t x"
proof -
  from plan_orders_in [OF assms(1,2)] obtain w where w: "(od_symbol x, w) \<in> set ws"
    and po: "plan_order st capital prices pos t (od_symbol x, w) = Inr (Some (x, p))" by blast
  note spec = plan_order_some [OF po]
  then have m: "od_order_type x = MARKET" "od_client_order_id x = stamp t @ ''-'' @ od_symbol x"
    "map_of prices (od_symbol x) = Some p" "flt_truthy p" "\<not> p \<le> 0" "\<not> od_qty x * p < 1"
    by (metis market_order_fields)+
  moreover have "\<exists>q. od_qty x = Fin q \<and> 0 < q \<and> q \<le> 10000000"
    using assms(3) sanity_market_ok_iff [OF m(1)] by fastforce
  moreover have "od_symbol x \<in> set (keys ws)" using w by force
  ultimately show ?thesis by (simp add: well_formed_order_def)
qed

text \<open>C2: what a rebalance sends.  Whatever the broker answers, the orders it receives are market orders
  for distinct target symbols, one client id per symbol and second, with a finite positive
  quantity of at most 1e7 shares worth at least a dollar; all sells come before all buys, and there
  are no more of them than the rate limiter has left.  No NaN order ever reaches a broker.\<close>

theorem submitted_orders_are_sane:
  assumes "distinct (keys ws)" "snd (en_broker en) = []"
    and "rebalance (traced B) S now ws prices t en = (en', r)"
  shows "(\<forall>x \<in> set (snd (en_broker en')). well_formed_order ws prices t x)
    \<and> distinct (map od_symbol (snd (en_broker en')))
    \<and> sorted (map (\<lambda>x. od_side x \<noteq> SELL) (snd (en_broker en')))
    \<and> int (length (snd (en_broker en')))
        \<le> max 0 (rl_max_orders (en_limiter en) - rl_count (en_limiter en))"
  using assms(3,2)
proof (rule rebalance_trace)
  assume "snd (en_broker en') = []"
  then show ?thesis by simp
next
  fix acct ps pend planned ys
  assume pl: "plan_orders (en_settings en) (py_min (ac_equity acct) (capital_ceiling (en_settings en)))
         prices (effective_positions ps pend) t ws = Inr planned"
    and log: "snd (en_broker en') = map fst ys" and sub: "subseq ys planned"
    and sane: "\<forall>y \<in> set ys. sane y"
    and len: "int (length ys) \<le> max 0 (rl_max_orders (en_limiter en) - rl_count (en_limiter en))"
  have wf: "well_formed_order ws prices t (fst y)" if y: "y \<in> set ys" for y
    using planned_well_formed [OF pl, of "fst y" "snd y"] subseq_mem [OF sub y] sane y by simp
  have sub1: "subseq (map f ys) (map f planned)" for f :: "order \<times> flt \<Rightarrow> 'z"
    using sub by (rule subseq_map)
  show ?thesis
  proof (intro conjI)
    show "\<forall>x \<in> set (snd (en_broker en')). well_formed_order ws prices t x"
      using wf by (simp add: log)
    show "distinct (map od_symbol (snd (en_broker en')))"
      using subseq_distinct [OF sub1 plan_orders_symbols [OF pl assms(1)]]
      by (simp add: log comp_def)
    show "sorted (map (\<lambda>x. od_side x \<noteq> SELL) (snd (en_broker en')))"
      using sorted_subseq [OF sub1 plan_orders_sells_first [OF pl]] by (simp add: log comp_def)
    show "int (length (snd (en_broker en')))
        \<le> max 0 (rl_max_orders (en_limiter en) - rl_count (en_limiter en))"
      using len by (simp add: log)
  qed
qed

definition traced_engine :: "(paper_broker \<times> order list, mem_store) engine" where
  "traced_engine = \<lparr>en_broker = (sample_broker, []),
     en_settings = default_settings\<lparr>fractional_shares := True\<rparr>, en_limits = default_limits,
     en_audit = Some mem_empty, en_kill = new_kill_switch, en_breaker = new_breaker (Fin (1 / 5)),
     en_limiter = \<lparr>rl_max_orders = 50, rl_count = 0\<rparr>\<rparr>"

lemma submitted_orders_are_sane_witness:
  "\<exists>en' r. rebalance (traced paper_ops) mem_ops 9 [(''AAPL'', Fin (1 / 20))] [(''AAPL'', Fin 100)] 5
      traced_engine = (en', r)
    \<and> (\<forall>x \<in> set (snd (en_broker en')). well_formed_order [(''AAPL'', Fin (1 / 20))] [(''AAPL'', Fin 100)] 5 x)
    \<and> int (length (snd (en_broker en'))) \<le> 50"
proof -
  obtain en' r where r: "rebalance (traced paper_ops) mem_ops 9 [(''AAPL'', Fin (1 / 20))]
      [(''AAPL'', Fin 100)] 5 traced_engine = (en', r)" by (rule prod.exhaust)
  have d: "distinct (keys [(''AAPL'', Fin (1 / 20))])" and l: "snd (en_broker traced_engine) = []"
    by (simp_all add: traced_engine_def)
  note s = submitted_orders_are_sane [OF d l r]
  have "max 0 (rl_max_orders (en_limiter traced_engine) - rl_count (en_limiter traced_engine)) = 50"
    by (simp add: traced_engine_def)
  with s have "int (length (snd (en_broker en'))) \<le> 50" by metis
  with s r show ?thesis by blast
qed

section \<open>The money a rebalance may spend\<close>

definition notional :: "(string, flt) dict \<Rightarrow> order \<Rightarrow> real" where
  "notional prices x =
     (case (od_qty x, map_of prices (od_symbol x)) of (Fin q, Some (Fin p)) \<Rightarrow> q * p | _ \<Rightarrow> 0)"

definition spent :: "(string, flt) dict \<Rightarrow> order list \<Rightarrow> real" where
  "spent prices xs = sum_list (map (notional prices) (filter (\<lambda>x. od_side x = BUY) xs))"

lemma whole_shares_le:
  assumes "whole_shares st (Fin a) = Inr (Fin q)" "0 \<le> a"
  shows "q \<le> a"
  using assms by (auto simp: whole_shares_def split: if_splits)

lemma buy_bound:
  assumes po: "plan_order st (Fin D) prices pos t (s, Fin w) = Inr (Some (x, p))"
    and buy: "od_side x = BUY" and q: "od_qty x = Fin q"
    and h: "dict_get 0 pos s = Fin h" "0 \<le> h"
  shows "notional prices x \<le> \<bar>w\<bar> * \<bar>D\<bar>"
proof -
  from plan_order_some [OF po] obtain qty where p: "map_of prices s = Some p" "\<not> p \<le> 0"
    and ws: "whole_shares st \<bar>target_qty (Fin w) (Fin D) p - Fin h\<bar> = Inr qty"
    and x: "x = market_order (stamp t @ ''-'' @ s) s
              (if 0 < target_qty (Fin w) (Fin D) p - Fin h then BUY else SELL) qty"
    unfolding h(1) by blast
  have pos_delta: "0 < target_qty (Fin w) (Fin D) p - Fin h" using buy x by (auto split: if_splits)
  have qty: "qty = Fin q" "od_symbol x = s" using q x by simp_all
  show ?thesis
  proof (cases p)
    case (Fin r)
    then have r: "0 < r" using p(2) by (simp add: flt_consts)
    let ?d = "w * D / r - h"
    have tq: "target_qty (Fin w) (Fin D) p - Fin h = Fin ?d"
      using Fin r by (simp add: target_qty_def flt_consts)
    have d: "0 < ?d" using pos_delta unfolding tq by (simp add: flt_consts)
    have "whole_shares st (Fin ?d) = Inr (Fin q)" using ws d qty unfolding tq by simp
    from whole_shares_le [OF this less_imp_le [OF d]] have "q \<le> ?d" .
    then have "q * r \<le> ?d * r" using r by (simp add: mult_right_mono)
    also have "\<dots> = w * D - h * r" using r by (simp add: field_simps)
    also have "\<dots> \<le> \<bar>w\<bar> * \<bar>D\<bar>"
      using mult_nonneg_nonneg [OF h(2), of r] r by (simp add: abs_mult [symmetric])
    finally show ?thesis using Fin p(1) q qty(2) by (simp add: notional_def)
  qed (use pos_delta h in \<open>simp_all add: target_qty_def flt_consts\<close>)
qed

lemma effective_no_pending:
  assumes "\<forall>p \<in> set ps. \<exists>h. ps_qty p = Fin h \<and> 0 \<le> h"
  shows "\<exists>h. dict_get 0 (effective_positions ps []) s = Fin h \<and> 0 \<le> h"
proof -
  have "map_of (dict_of ps_symbol ps_qty ps) s = map_option ps_qty (find (\<lambda>p. ps_symbol p = s) (rev ps))"
    by (rule map_of_dict_of)
  moreover have "\<exists>h. ps_qty p = Fin h \<and> 0 \<le> h" if "find (\<lambda>p. ps_symbol p = s) (rev ps) = Some p" for p
  proof -
    have "p \<in> set (rev ps)" using that by (metis find_Some_iff nth_mem)
    then show ?thesis using assms by simp
  qed
  ultimately show ?thesis
    by (cases "find (\<lambda>p. ps_symbol p = s) (rev ps)") (auto simp: effective_positions_def zero_flt_def)
qed

lemma gross_of_finite:
  "\<forall>(s, w) \<in> set ws. w = Fin (f s) \<Longrightarrow> sum_list (map abs (vals ws)) = Fin (sum_list (map (\<lambda>s. \<bar>f s\<bar>) (keys ws)))"
  by (induction ws) (auto simp: zero_flt_def)

text \<open>A planned buy costs at most the weight of its symbol times the capital.\<close>

lemma planned_buy_bound:
  assumes "plan_orders st (Fin D) prices (effective_positions ps []) t ws = Inr planned" "(x, p) \<in> set planned"
    and "sane (x, p)" "od_side x = BUY" "0 \<le> D" "\<forall>p \<in> set ps. \<exists>h. ps_qty p = Fin h \<and> 0 \<le> h"
    and "\<forall>(s, w) \<in> set ws. w = Fin (f s)"
  shows "od_symbol x \<in> set (keys ws) \<and> notional prices x \<le> \<bar>f (od_symbol x)\<bar> * D"
proof -
  from plan_orders_in [OF assms(1,2)] obtain w where w: "(od_symbol x, w) \<in> set ws"
    and po: "plan_order st (Fin D) prices (effective_positions ps []) t (od_symbol x, w) = Inr (Some (x, p))" by blast
  have wf: "w = Fin (f (od_symbol x))" using assms(7) w by blast
  have "od_order_type x = MARKET" using plan_order_some [OF po] by (metis market_order_fields(5))
  then obtain q where q: "od_qty x = Fin q"
    using assms(3) sanity_market_ok_iff [of x "Some p"] by fastforce
  obtain h where h: "dict_get 0 (effective_positions ps []) (od_symbol x) = Fin h" "0 \<le> h"
    using effective_no_pending [OF assms(6)] by blast
  have "notional prices x \<le> \<bar>f (od_symbol x)\<bar> * \<bar>D\<bar>"
    using po assms(4) q h unfolding wf by (rule buy_bound)
  moreover have "od_symbol x \<in> set (keys ws)" using w by force
  ultimately show ?thesis using assms(5) by simp
qed

text \<open>Orders in distinct names, each within its share of the capital, cost at most the gross weight.\<close>

lemma sum_of_shares:
  assumes "distinct (map od_symbol xs)" "distinct names" "0 \<le> D"
    and "\<And>x. x \<in> set xs \<Longrightarrow> od_symbol x \<in> set names \<and> notional prices x \<le> \<bar>f (od_symbol x)\<bar> * D"
  shows "sum_list (map (notional prices) xs) \<le> sum_list (map (\<lambda>s. \<bar>f s\<bar>) names) * D"
proof -
  have "sum_list (map (notional prices) xs) \<le> sum_list (map (\<lambda>x. \<bar>f (od_symbol x)\<bar> * D) xs)"
    using assms(4) by (intro sum_list_mono) blast
  also have "\<dots> = sum_list (map (\<lambda>s. \<bar>f s\<bar> * D) (map od_symbol xs))" by (simp add: comp_def)
  also have "\<dots> = (\<Sum>s\<in>set (map od_symbol xs). \<bar>f s\<bar> * D)"
    using assms(1) by (rule sum_list_distinct_conv_sum_set)
  also have "\<dots> \<le> (\<Sum>s\<in>set names. \<bar>f s\<bar> * D)"
    using assms(3,4) by (intro sum_mono2) auto
  also have "\<dots> = sum_list (map (\<lambda>s. \<bar>f s\<bar>) names) * D"
    using assms(2) by (simp only: sum_list_distinct_conv_sum_set sum_distrib_right)
  finally show ?thesis .
qed

text \<open>C12: the capital bound.  With a finite long book, no open orders, finite target weights, and a gross limit and a
  deployable capital that are finite and not negative, the
  buys a rebalance sends cost at most (gross limit + 1e-9) times the deployable capital, which
  is the equity capped by the capital ceiling; whole shares or fractional, long or short targets.\<close>

theorem buys_within_capital:
  assumes "distinct (keys ws)" "\<forall>(s, w) \<in> set ws. is_fin w" "snd (en_broker en) = []"
    and "rebalance (traced B) S now ws prices t en = (en', r)"
    and "bk_account (traced B) (en_broker en) = Inr acct"
    and "py_min (ac_equity acct) (capital_ceiling (en_settings en)) = Fin D" "0 \<le> D"
    and "bk_positions (traced B) (en_broker en) = Inr ps"
    and "\<forall>p \<in> set ps. \<exists>h. ps_qty p = Fin h \<and> 0 \<le> h"
    and "bk_open_orders (traced B) (en_broker en) = Inr []"
    and "lim_max_gross_exposure (en_limits en) = Fin G" "0 \<le> G"
  shows "spent prices (snd (en_broker en')) \<le> (G + 1 / 10 ^ 9) * D"
  using assms(4,3)
proof (rule rebalance_trace)
  assume "snd (en_broker en') = []"
  then show ?thesis using assms(7,12) by (simp add: spent_def)
next
  fix acct' ps' pend planned ys
  assume a: "bk_account (traced B) (en_broker en) = Inr acct'"
      "bk_positions (traced B) (en_broker en) = Inr ps'"
      "bk_open_orders (traced B) (en_broker en) = Inr pend"
      "check_targets (en_limits en) ws ws = Inr ()"
      "plan_orders (en_settings en) (py_min (ac_equity acct') (capital_ceiling (en_settings en)))
         prices (effective_positions ps' pend) t ws = Inr planned"
    and ys: "snd (en_broker en') = map fst ys" "subseq ys planned" "\<forall>y \<in> set ys. sane y"
  have pl: "plan_orders (en_settings en) (Fin D) prices (effective_positions ps []) t ws = Inr planned"
    using a assms(5,6,8,10) by simp
  obtain f where f: "\<forall>(s, w) \<in> set ws. w = Fin (f s)"
  proof
    show "\<forall>(s, w) \<in> set ws. w = Fin ((\<lambda>s. case map_of ws s of Some (Fin r) \<Rightarrow> r | _ \<Rightarrow> 0) s)"
      using assms(1,2) by (auto simp: is_fin_iff)
  qed
  let ?bs = "filter (\<lambda>x. od_side x = BUY) (map fst ys)"
  have bound: "od_symbol x \<in> set (keys ws) \<and> notional prices x \<le> \<bar>f (od_symbol x)\<bar> * D" if x: "x \<in> set ?bs" for x
  proof -
    obtain p where "(x, p) \<in> set ys" "od_side x = BUY" using x by auto
    then show ?thesis using planned_buy_bound [OF pl subseq_mem [OF ys(2)] _ _ assms(7,9) f] ys(3) by blast
  qed
  have dist: "distinct (map od_symbol ?bs)"
  proof (rule distinct_filter_map)
    show "distinct (map od_symbol (map fst ys))"
      using subseq_distinct [OF subseq_map [OF ys(2)] plan_orders_symbols [OF pl assms(1)]]
      by (simp add: comp_def)
  qed
  have "spent prices (snd (en_broker en')) = sum_list (map (notional prices) ?bs)"
    by (simp add: spent_def ys(1))
  also have "\<dots> \<le> sum_list (map (\<lambda>s. \<bar>f s\<bar>) (keys ws)) * D"
    by (rule sum_of_shares [OF dist assms(1,7) bound])
  also have "\<dots> \<le> (G + 1 / 10 ^ 9) * D"
  proof (rule mult_right_mono [OF _ assms(7)])
    have "within_limits (en_limits en) ws"
      using a(4) by (simp add: check_targets_ok check_all_within_limits [OF assms(1)])
    then show "sum_list (map (\<lambda>s. \<bar>f s\<bar>) (keys ws)) \<le> G + 1 / 10 ^ 9"
      using assms(11,12) gross_of_finite [OF f]
      by (cases ws) (auto simp: within_limits_def not_less)
  qed
  finally show ?thesis .
qed

lemma buys_within_capital_witness:
  "\<exists>en' r. rebalance (traced paper_ops) mem_ops 9 [(''AAPL'', Fin (1 / 20))] [(''AAPL'', Fin 100)] 5
      traced_engine = (en', r)
    \<and> spent [(''AAPL'', Fin 100)] (snd (en_broker en')) \<le> (1 + 1 / 10 ^ 9) * 1000"
proof -
  obtain en' r where r: "rebalance (traced paper_ops) mem_ops 9 [(''AAPL'', Fin (1 / 20))]
      [(''AAPL'', Fin 100)] 5 traced_engine = (en', r)" by (rule prod.exhaust)
  have "spent [(''AAPL'', Fin 100)] (snd (en_broker en')) \<le> (1 + 1 / 10 ^ 9) * 1000"
  proof (rule buys_within_capital [OF _ _ _ r])
    show "bk_account (traced paper_ops) (en_broker traced_engine) = Inr (paper_account sample_broker)"
      "bk_positions (traced paper_ops) (en_broker traced_engine) = Inr []"
      "bk_open_orders (traced paper_ops) (en_broker traced_engine) = Inr []"
      by (simp_all add: traced_def traced_engine_def paper_ops_def paper_positions_def
          paper_open_orders_def sample_broker_def paper_init_def)
    show "py_min (ac_equity (paper_account sample_broker)) (capital_ceiling (en_settings traced_engine))
        = Fin 1000"
      by (simp add: paper_account_def sample_broker_def paper_init_def traced_engine_def
          default_settings_def py_min_def zero_flt_def)
  qed (simp_all add: traced_engine_def default_limits_def is_fin_def one_flt_def)
  with r show ?thesis by blast
qed

text \<open>A NaN weight switches the book limits off.  When one target weight is NaN the gross and the
  net of the book are NaN and compare false, so the check that should refuse an over-limit book
  only looks at the single weights.\<close>

theorem nan_weight_disables_book_limits:
  assumes "(s, NaN) \<in> set ws"
  shows "within_limits lims ws \<longleftrightarrow> (\<forall>(s, w) \<in> set ws. \<not> lim_max_position_weight lims + weight_tol < \<bar>w\<bar>)"
proof -
  have nan: "sum_list xs = NaN" if "NaN \<in> set xs" for xs :: "flt list"
    using that by (induction xs) (auto, metis plus_flt.simps(2) plus_flt.simps(3) add.commute flt.exhaust)
  have "NaN \<in> set (vals ws)" using assms by force
  moreover from this have "NaN \<in> set (map abs (vals ws))" by force
  ultimately have "sum_list (vals ws) = NaN" "sum_list (map abs (vals ws)) = NaN" using nan by blast+
  moreover have "\<not> a < NaN" for a by (cases a) simp_all
  ultimately show ?thesis by (simp add: within_limits_def)
qed

lemma nan_weight_disables_book_limits_witness:
  "within_limits (default_limits\<lparr>lim_max_gross_exposure := Fin (1 / 10)\<rparr>)
     [(''A'', Fin (1 / 10)), (''B'', Fin (1 / 10)), (''C'', NaN)]"
  by (subst nan_weight_disables_book_limits) (auto simp: default_limits_def flt_consts)

section \<open>Trading with the paper broker\<close>

definition sent :: "order list \<Rightarrow> paper_broker \<Rightarrow> paper_broker" where
  "sent xs b = fold (\<lambda>x b. fst (paper_submit x b)) xs b"

text \<open>A market order the paper broker fills: a new client id and a positive price.\<close>

definition fillable :: "paper_broker \<Rightarrow> order \<Rightarrow> bool" where
  "fillable b x \<longleftrightarrow> od_order_type x = MARKET \<and> map_of (pb_orders b) (od_client_order_id x) = None
     \<and> (\<exists>p. map_of (pb_prices b) (od_symbol x) = Some (Fin p) \<and> 0 < p)"

definition held_after :: "paper_broker \<Rightarrow> order \<Rightarrow> flt" where
  "held_after b x =
     (let h = held b (od_symbol x); q = signed_qty (od_side x) (od_qty x)
      in if map_of (pb_positions b) (od_symbol x) \<noteq> None \<and> \<bar>h + q\<bar> < fill_eps then 0 else h + q)"

lemma fillable_submit:
  assumes "fillable b x"
  shows "held (fst (paper_submit x b)) s = (if s = od_symbol x then held_after b x else held b s)"
    and "s \<noteq> od_symbol x \<Longrightarrow>
      map_of (pb_positions (fst (paper_submit x b))) s = map_of (pb_positions b) s"
    and "pb_prices (fst (paper_submit x b)) = pb_prices b"
    and "map_of (pb_orders (fst (paper_submit x b))) c =
      (if c = od_client_order_id x then Some (snd (paper_submit x b)) else map_of (pb_orders b) c)"
proof -
  obtain p where p: "map_of (pb_prices b) (od_symbol x) = Some (Fin p)" "0 < p"
    using assms by (auto simp: fillable_def)
  have sub: "paper_submit x b = fill_order x (Fin p) b"
    using assms p by (intro paper_submit_market) (simp_all add: fillable_def zero_flt_def)
  show "held (fst (paper_submit x b)) s = (if s = od_symbol x then held_after b x else held b s)"
    unfolding sub fill_order_fields held_apply_fill held_after_def Let_def by simp
  show "map_of (pb_positions (fst (paper_submit x b))) s = map_of (pb_positions b) s"
    if "s \<noteq> od_symbol x"
    unfolding sub fill_order_fields using that by (rule apply_fill_other)
  show "pb_prices (fst (paper_submit x b)) = pb_prices b"
    unfolding sub by (rule fill_order_fields)
  show "map_of (pb_orders (fst (paper_submit x b))) c =
      (if c = od_client_order_id x then Some (snd (paper_submit x b)) else map_of (pb_orders b) c)"
    using assms by (subst paper_submit_orders) (simp_all add: fillable_def dict_simps)
qed

lemma fillable_after:
  "fillable b x \<Longrightarrow> fillable b y \<Longrightarrow> od_client_order_id y \<noteq> od_client_order_id x \<Longrightarrow>
     fillable (fst (paper_submit x b)) y"
  using fillable_submit(3,4) [of b x] by (simp add: fillable_def)

lemma held_after_other:
  "fillable b x \<Longrightarrow> od_symbol y \<noteq> od_symbol x \<Longrightarrow> held_after (fst (paper_submit x b)) y = held_after b y"
  using fillable_submit(1,2) [of b x] by (simp add: held_after_def Let_def)

lemma sent_held:
  assumes "\<forall>x \<in> set xs. fillable b x" "distinct (map od_client_order_id xs)" "distinct (map od_symbol xs)"
  shows "(\<forall>x \<in> set xs. held (sent xs b) (od_symbol x) = held_after b x)
    \<and> (\<forall>s. s \<notin> od_symbol ` set xs \<longrightarrow> held (sent xs b) s = held b s)"
  using assms
proof (induction xs arbitrary: b)
  case Nil
  then show ?case by (simp add: sent_def)
next
  case (Cons x xs)
  let ?b = "fst (paper_submit x b)"
  have x: "fillable b x" using Cons.prems by simp
  have later: "\<forall>y \<in> set xs. fillable ?b y"
    using Cons.prems fillable_after [OF x] by (auto simp: image_iff)
  have IH: "(\<forall>y \<in> set xs. held (sent xs ?b) (od_symbol y) = held_after ?b y)
      \<and> (\<forall>s. s \<notin> od_symbol ` set xs \<longrightarrow> held (sent xs ?b) s = held ?b s)"
    using Cons.prems by (intro Cons.IH [OF later]) simp_all
  have unfold: "sent (x # xs) b = sent xs ?b" by (simp add: sent_def)
  have tail: "held (sent xs ?b) (od_symbol y) = held_after b y" if y: "y \<in> set xs" for y
  proof -
    have "od_symbol y \<noteq> od_symbol x" using Cons.prems(3) y by (auto simp: image_iff)
    from held_after_other [OF x this] show ?thesis using IH y by simp
  qed
  have head: "held (sent xs ?b) (od_symbol x) = held_after b x"
    using IH Cons.prems(3) fillable_submit(1) [OF x, of "od_symbol x"] by simp
  have rest: "held (sent xs ?b) s = held b s" if "s \<notin> od_symbol ` set (x # xs)" for s
    using IH that fillable_submit(1) [OF x, of s] by simp
  show ?case unfolding unfold using tail head rest by simp
qed

lemma submit_planned_paper:
  assumes "\<forall>xp \<in> set planned. sane xp"
    and "int (length planned) \<le> rl_max_orders (en_limiter en) - rl_count (en_limiter en)"
  shows "\<exists>en' os. submit_planned paper_ops S now t planned orders k en = (en', Inr (os, k))
    \<and> en_broker en' = sent (map fst planned) (en_broker en)"
  using assms
proof (induction planned arbitrary: orders en)
  case Nil
  then show ?case by (simp add: sent_def)
next
  case (Cons xp planned)
  obtain x p where xp: "xp = (x, p)" by (rule prod.exhaust)
  obtain b' r where sub: "paper_submit x (en_broker en) = (b', r)" by (rule prod.exhaust)
  have ok: "sanity_check_order x (Some p) default_max_qty default_max_deviation = Inr ()"
    using Cons.prems(1) xp by simp
  have allow: "limiter_allow (en_limiter en) =
      ((en_limiter en)\<lparr>rl_count := rl_count (en_limiter en) + 1\<rparr>, True)"
    using Cons.prems(2) by (simp add: limiter_allow_def)
  let ?en = "audit_event S now t (od_symbol x) ''order''
       [(''client_order_id'', PStr (od_client_order_id x)),
        (''side'', PStr (side_text (od_side x))), (''qty'', PFloat (od_qty x)),
        (''status'', PStr (status_text (od_status r))),
        (''mode'', PStr (mode_text (execution_mode (en_settings en))))]
       (en\<lparr>en_limiter := (en_limiter en)\<lparr>rl_count := rl_count (en_limiter en) + 1\<rparr>, en_broker := b'\<rparr>)"
  have step: "submit_planned paper_ops S now t (xp # planned) orders k en =
      submit_planned paper_ops S now t planned (orders @ [r]) k ?en"
    using ok allow sub by (simp add: xp Let_def paper_ops_def)
  have "\<exists>en' os. submit_planned paper_ops S now t planned (orders @ [r]) k ?en = (en', Inr (os, k))
      \<and> en_broker en' = sent (map fst planned) (en_broker ?en)"
    using Cons.prems by (intro Cons.IH) simp_all
  then show ?case unfolding step using sub by (simp add: sent_def xp)
qed

section \<open>A rebalance reaches its targets\<close>

lemma halt_gates_pass:
  assumes "gates_open B en acct"
  shows "\<exists>en1. halt_gates B S now t en = (en1, Inr acct)"
  using assms
  by (cases "breaker_update (ac_equity acct) (en_breaker en)")
    (auto simp: gates_open_def halt_gates_def live_armed_def assert_live_allowed_def
      daily_loss_hit_def Let_def)

lemma plan_order_fractional:
  assumes "fractional_shares st" "\<not> 0 < rebalance_band st" "map_of prices s = Some (Fin p)" "0 < p"
    and "dict_get 0 pos s = Fin h"
  shows "plan_order st (Fin D) prices pos t (s, Fin w) =
    (let d = w * D / p - h in
     if \<bar>d\<bar> * p < 1 then Inr None
     else Inr (Some (market_order (stamp t @ ''-'' @ s) s (if 0 < d then BUY else SELL) (Fin \<bar>d\<bar>), Fin p)))"
  using assms
  by (simp add: plan_order_def Let_def in_band_def whole_shares_def flt_truthy_def flt_consts)

lemma paper_effective:
  assumes "paper_inv b"
  shows "dict_get 0 (effective_positions (paper_positions b) []) s = held b s"
proof -
  let ?d = "pb_positions b"
  have d: "filed ps_symbol ?d" using assms by (simp add: paper_inv_def)
  have "distinct (map ps_symbol (vals ?d))"
    unfolding filed_map [OF d] using d by (rule filed_distinct)
  then have "dict_of ps_symbol ps_qty (vals ?d) = map (\<lambda>p. (ps_symbol p, ps_qty p)) (vals ?d)"
    by (rule dict_of_distinct)
  also have "\<dots> = map (\<lambda>(k, p). (k, ps_qty p)) ?d"
    using d by (auto simp: filed_def)
  finally have "dict_of ps_symbol ps_qty (vals ?d) = map (\<lambda>(k, p). (k, ps_qty p)) ?d" .
  then have "map_of (dict_of ps_symbol ps_qty (vals ?d)) s = map_option ps_qty (map_of ?d s)"
    by (simp add: map_of_map)
  then show ?thesis
    by (cases "map_of ?d s") (simp_all add: effective_positions_def paper_positions_def held_in_def)
qed

text \<open>The situation of a plain rebalance: every target is priced, its trade is at most 1e7 shares and
  its order id is new.\<close>

definition target_shares :: "real \<Rightarrow> real \<Rightarrow> real \<Rightarrow> real" where
  "target_shares w D p = w * D / p"

definition tradable :: "paper_broker \<Rightarrow> real \<Rightarrow> datetime \<Rightarrow> string \<times> flt \<Rightarrow> bool" where
  "tradable b D t sw \<longleftrightarrow>
     (\<exists>w p h. snd sw = Fin w \<and> map_of (pb_prices b) (fst sw) = Some (Fin p) \<and> 0 < p
        \<and> held b (fst sw) = Fin h \<and> \<bar>target_shares w D p - h\<bar> \<le> 10000000)
     \<and> map_of (pb_orders b) (stamp t @ ''-'' @ fst sw) = None"

definition on_target :: "paper_broker \<Rightarrow> paper_broker \<Rightarrow> real \<Rightarrow> string \<times> flt \<Rightarrow> bool" where
  "on_target b0 b D sw \<longleftrightarrow>
     (\<exists>w p h. snd sw = Fin w \<and> map_of (pb_prices b0) (fst sw) = Some (Fin p)
        \<and> held b (fst sw) = Fin h \<and> \<bar>h - target_shares w D p\<bar> < max (1 / p) (1 / 10 ^ 12))"

lemma planned_on_target:
  assumes inv: "paper_inv b" and fr: "fractional_shares st" "\<not> 0 < rebalance_band st"
    and tr: "\<forall>sw \<in> set ws. tradable b D t sw" and dist: "distinct (keys ws)"
    and pl: "plan_orders st (Fin D) (pb_prices b) (effective_positions (paper_positions b) []) t ws
      = Inr planned"
    and sw: "sw \<in> set ws"
  shows "(\<forall>xp \<in> set planned. sane xp \<and> fillable b (fst xp))
    \<and> on_target b (sent (map fst planned) b) D sw"
proof -
  let ?pos = "effective_positions (paper_positions b) []"
  have po: "plan_order st (Fin D) (pb_prices b) ?pos t (s, Fin w) =
    (let d = target_shares w D p - h in
     if \<bar>d\<bar> * p < 1 then Inr None
     else Inr (Some (market_order (stamp t @ ''-'' @ s) s (if 0 < d then BUY else SELL) (Fin \<bar>d\<bar>), Fin p)))"
    if "map_of (pb_prices b) s = Some (Fin p)" "0 < p" "held b s = Fin h" for s w p h
    using plan_order_fractional [OF fr that(1,2), of ?pos h D t w] paper_effective [OF inv, of s] that(3)
    by (simp add: target_shares_def)
  have good: "sane (x, q) \<and> fillable b x" if xp: "(x, q) \<in> set planned" for x q
  proof -
    from plan_orders_in [OF pl xp] obtain w0 where w0: "(od_symbol x, w0) \<in> set ws"
      "plan_order st (Fin D) (pb_prices b) ?pos t (od_symbol x, w0) = Inr (Some (x, q))" by blast
    obtain w p h where t: "w0 = Fin w" "map_of (pb_prices b) (od_symbol x) = Some (Fin p)" "0 < p"
      "held b (od_symbol x) = Fin h" "\<bar>target_shares w D p - h\<bar> \<le> 10000000"
      "map_of (pb_orders b) (stamp t @ ''-'' @ od_symbol x) = None"
      using tr w0(1) unfolding tradable_def by fastforce
    let ?d = "target_shares w D p - h"
    have x: "x = market_order (stamp t @ ''-'' @ od_symbol x) (od_symbol x)
        (if 0 < ?d then BUY else SELL) (Fin \<bar>?d\<bar>)" and big: "\<not> \<bar>?d\<bar> * p < 1"
      using w0(2) po [OF t(2,3,4), of w] t(1) by (auto simp: Let_def split: if_splits)
    have fields: "od_order_type x = MARKET" "od_client_order_id x = stamp t @ ''-'' @ od_symbol x"
      "od_qty x = Fin \<bar>?d\<bar>"
      using x by (metis market_order_fields(5), metis market_order_fields(1), metis market_order_fields(4))
    have "0 < \<bar>?d\<bar>" using big by (cases "?d = 0") auto
    then show ?thesis
      using fields t by (simp add: sanity_market_ok_iff fillable_def)
  qed
  have ids: "map od_client_order_id (map fst planned) = map (\<lambda>s. stamp t @ ''-'' @ s) (map od_symbol (map fst planned))"
  proof -
    have "od_client_order_id x = stamp t @ ''-'' @ od_symbol x" if "(x, q) \<in> set planned" for x q
      using plan_orders_in [OF pl that] plan_order_some by (metis market_order_fields(1))
    then show ?thesis by auto
  qed
  have ds: "distinct (map od_symbol (map fst planned))"
    using plan_orders_symbols [OF pl dist] by (simp add: comp_def)
  then have di: "distinct (map od_client_order_id (map fst planned))"
    unfolding ids by (subst distinct_map) (simp add: inj_on_def)
  have "\<forall>x \<in> set (map fst planned). fillable b x" using good by auto
  note held' = sent_held [OF this di ds]
  obtain s w p h where t: "sw = (s, Fin w)" "map_of (pb_prices b) s = Some (Fin p)" "0 < p"
      "held b s = Fin h"
    using tr sw unfolding tradable_def by (metis prod.collapse)
  let ?T = "target_shares w D p"
  let ?d = "?T - h"
  have near: "\<exists>h'. held (sent (map fst planned) b) s = Fin h' \<and> \<bar>h' - ?T\<bar> < max (1 / p) (1 / 10 ^ 12)"
  proof (cases "\<bar>?d\<bar> * p < 1")
    case True
    have "s \<notin> od_symbol ` set (map fst planned)"
    proof
      assume "s \<in> od_symbol ` set (map fst planned)"
      then obtain x q where x: "(x, q) \<in> set planned" "od_symbol x = s" by auto
      from plan_orders_in [OF pl x(1)] obtain w0 where w0: "(s, w0) \<in> set ws"
        "plan_order st (Fin D) (pb_prices b) ?pos t (s, w0) = Inr (Some (x, q))" using x(2) by blast
      have "w0 = Fin w" using w0(1) sw t(1) dist by (metis eq_key_imp_eq_value)
      then show False using w0(2) po [OF t(2-4), of w] True by (simp add: Let_def)
    qed
    then have "held (sent (map fst planned) b) s = Fin h" using held' t(4) by simp
    moreover have "\<bar>h - ?T\<bar> < 1 / p" using True t(3) by (simp add: field_simps abs_minus_commute)
    ultimately show ?thesis by auto
  next
    case False
    let ?x = "market_order (stamp t @ ''-'' @ s) s (if 0 < ?d then BUY else SELL) (Fin \<bar>?d\<bar>)"
    have "plan_order st (Fin D) (pb_prices b) ?pos t sw = Inr (Some (?x, Fin p))"
      using po [OF t(2-4), of w] False t(1) by (simp add: Let_def)
    moreover obtain ps where c: "collect_res (plan_order st (Fin D) (pb_prices b) ?pos t) ws = Inr ps"
      "planned = sort_key (\<lambda>op. od_side (fst op) \<noteq> SELL) ps" using pl by (rule plan_orders_planned)
    ultimately have "(?x, Fin p) \<in> set planned" using collect_res_mem [OF c(1) sw] by simp
    then have "?x \<in> set (map fst planned)" by force
    then have "held (sent (map fst planned) b) (od_symbol ?x) = held_after b ?x" using held' by blast
    moreover have "signed_qty (od_side ?x) (od_qty ?x) = Fin ?d" by (simp add: signed_qty_def)
    ultimately have "held (sent (map fst planned) b) s =
        (if map_of (pb_positions b) s \<noteq> None \<and> \<bar>?T\<bar> < 1 / 10 ^ 12 then Fin 0 else Fin ?T)"
      using t(4) by (simp add: held_after_def Let_def zero_flt_def)
    then show ?thesis using t(3) by (auto simp: less_max_iff_disj split: if_splits)
  qed
  show ?thesis
  proof
    show "\<forall>xp \<in> set planned. sane xp \<and> fillable b (fst xp)" using good by auto
    show "on_target b (sent (map fst planned) b) D sw"
      using near t by (auto simp: on_target_def)
  qed
qed

text \<open>A tradable book has a plan, of at most one order per target.\<close>

lemma tradable_plan:
  assumes "paper_inv b" "fractional_shares st" "\<not> 0 < rebalance_band st" "\<forall>sw \<in> set ws. tradable b D t sw"
  obtains planned where
    "plan_orders st (Fin D) (pb_prices b) (effective_positions (paper_positions b) []) t ws = Inr planned"
    "length planned \<le> length ws"
proof -
  let ?pos = "effective_positions (paper_positions b) []"
  have "\<forall>sw \<in> set ws. \<exists>y. plan_order st (Fin D) (pb_prices b) ?pos t sw = Inr y"
  proof
    fix sw assume "sw \<in> set ws"
    then have "tradable b D t sw" using assms(4) by blast
    then obtain s w p h where t: "sw = (s, Fin w)" "map_of (pb_prices b) s = Some (Fin p)" "0 < p"
      "held b s = Fin h" unfolding tradable_def by (metis prod.collapse)
    then show "\<exists>y. plan_order st (Fin D) (pb_prices b) ?pos t sw = Inr y"
      using plan_order_fractional [OF assms(2,3) t(2,3), of ?pos h D t w] paper_effective [OF assms(1)]
      by (simp add: Let_def)
  qed
  from collect_res_total [OF this] obtain ps0 where
    c: "collect_res (plan_order st (Fin D) (pb_prices b) ?pos t) ws = Inr ps0" by blast
  obtain planned where pl: "plan_orders st (Fin D) (pb_prices b) ?pos t ws = Inr planned"
    by (simp add: plan_orders_def c)
  have "length (map (\<lambda>xp. od_symbol (fst xp)) ps0) \<le> length (keys ws)"
    using collect_symbols [OF c] by (rule list_emb_length)
  moreover have "length planned = length ps0" using pl by (auto simp: plan_orders_def c)
  ultimately show ?thesis using that [OF pl] by simp
qed

text \<open>C11: a rebalance reaches its targets.  With the gates open, fractional shares, no trade band, a book
  within the limits, no open orders, room under the rate limit and every target tradable, the
  rebalance returns and leaves each target's holding within one dollar (or the broker's dust of
  1e-12 shares) of weight times deployable capital over price.\<close>

theorem rebalance_reaches_targets:
  assumes "paper_inv (en_broker en)" "gates_open paper_ops en acct"
    and "fractional_shares (en_settings en)" "\<not> 0 < rebalance_band (en_settings en)"
    and "distinct (keys ws)" "within_limits (en_limits en) ws"
    and "py_min (ac_equity acct) (capital_ceiling (en_settings en)) = Fin D"
    and "\<forall>sw \<in> set ws. tradable (en_broker en) D t sw" "paper_open_orders (en_broker en) = []"
    and "int (length ws) \<le> rl_max_orders (en_limiter en) - rl_count (en_limiter en)"
  shows "\<exists>en' os. rebalance paper_ops S now ws (pb_prices (en_broker en)) t en = (en', Inr os)
    \<and> (\<forall>sw \<in> set ws. on_target (en_broker en) (en_broker en') D sw)"
proof -
  let ?b = "en_broker en"
  let ?pos = "effective_positions (paper_positions ?b) []"
  obtain en1 where g: "halt_gates paper_ops S now t en = (en1, Inr acct)"
    using halt_gates_pass [OF assms(2)] by blast
  note f = halt_gates_fields [OF g]
  have ct: "check_targets (en_limits en) ws ws = Inr ()"
    using assms(6) by (simp add: check_targets_ok check_all_within_limits [OF assms(5)])
  obtain planned where pl: "plan_orders (en_settings en) (Fin D) (pb_prices ?b) ?pos t ws = Inr planned"
    and len: "length planned \<le> length ws" using tradable_plan [OF assms(1,3,4,8)] by blast
  note pot = planned_on_target [OF assms(1,3,4,8,5) pl]
  show ?thesis
  proof (cases "ws = []")
    case True
    then have "planned = []" using pl by (simp add: plan_orders_def)
    then show ?thesis using g f ct pl assms(7,9) True
      by (simp add: rebalance_def Let_def paper_ops_def)
  next
    case False
    then have sane: "\<forall>xp \<in> set planned. sane xp" using pot by (meson list.set_sel(1))
    have room: "int (length planned) \<le> rl_max_orders (en_limiter en1) - rl_count (en_limiter en1)"
      using len assms(10) f by simp
    obtain en2 os where sp: "submit_planned paper_ops S now t planned [] 0 en1 = (en2, Inr (os, 0))"
      "en_broker en2 = sent (map fst planned) (en_broker en1)"
      using submit_planned_paper [OF sane room] by blast
    have "rebalance paper_ops S now ws (pb_prices ?b) t en = (en2, Inr os)"
      using g f ct pl sp assms(7,9) by (simp add: rebalance_def Let_def paper_ops_def)
    moreover have "\<forall>sw \<in> set ws. on_target ?b (en_broker en2) D sw"
      using pot sp(2) f by simp
    ultimately show ?thesis by blast
  qed
qed

lemma rebalance_reaches_targets_witness:
  "\<exists>en' os. rebalance paper_ops mem_ops 9 [(''AAPL'', Fin (1 / 20))] (pb_prices sample_broker) 5 sample_engine
      = (en', Inr os)
    \<and> (\<forall>sw \<in> set [(''AAPL'', Fin (1 / 20))]. on_target sample_broker (en_broker en') 1000 sw)"
proof -
  have e: "en_broker sample_engine = sample_broker" by (simp add: sample_engine_def)
  have a: "paper_account sample_broker =
      \<lparr>ac_equity = Fin 1000, ac_cash = Fin 1000, ac_buying_power = Fin 1000, ac_last_equity = 0\<rparr>"
    by (simp add: paper_account_def sample_broker_def paper_init_def flt_simps)
  have g: "gates_open paper_ops sample_engine (paper_account sample_broker)"
    unfolding a gates_open_def
    by (simp add: a sample_engine_def live_armed_def new_kill_switch_def paper_ops_def
        default_settings_def daily_loss_hit_def breaker_update_def new_breaker_def flt_simps)
  show ?thesis
    unfolding e [symmetric]
  proof (rule rebalance_reaches_targets [OF _ g])
    show "py_min (ac_equity (paper_account sample_broker)) (capital_ceiling (en_settings sample_engine))
        = Fin 1000"
      by (simp add: a sample_engine_def default_settings_def py_min_def)
    show "\<forall>sw \<in> set [(''AAPL'', Fin (1 / 20))]. tradable (en_broker sample_engine) 1000 5 sw"
      by (simp add: e tradable_def sample_broker_def paper_init_def held_in_def target_shares_def
          zero_flt_def exI [of _ "1 / 20"])
    show "within_limits (en_limits sample_engine) [(''AAPL'', Fin (1 / 20))]"
      by (simp add: sample_engine_def within_limits_def default_limits_def flt_simps)
  qed (simp_all add: e sample_engine_def default_settings_def sample_broker_def paper_init_def
      paper_open_orders_def zero_flt_def paper_inv_def)
qed

section \<open>Flattening\<close>

definition flat_order :: "datetime \<Rightarrow> position \<Rightarrow> order" where
  "flat_order t pos = market_order (''flat-'' @ stamp t @ ''-'' @ ps_symbol pos) (ps_symbol pos)
     (if 0 < ps_qty pos then SELL else BUY) \<bar>ps_qty pos\<bar>"

lemma flatten_loop_paper:
  "\<exists>en' os. flatten_loop paper_ops S now t ps orders en = (en', Inr os)
     \<and> en_broker en' = sent (map (flat_order t) ps) (en_broker en) \<and> en_kill en' = en_kill en"
proof (induction ps arbitrary: orders en)
  case Nil
  then show ?case by (simp add: sent_def)
next
  case (Cons pos ps)
  obtain b' r where sub: "paper_submit (flat_order t pos) (en_broker en) = (b', r)"
    by (rule prod.exhaust)
  let ?en = "audit_event S now t (ps_symbol pos) ''flatten''
     [(''client_order_id'', PStr (od_client_order_id (flat_order t pos)))] (en\<lparr>en_broker := b'\<rparr>)"
  have step: "flatten_loop paper_ops S now t (pos # ps) orders en =
      flatten_loop paper_ops S now t ps (orders @ [r]) ?en"
    using sub by (simp add: flat_order_def paper_ops_def Let_def)
  show ?case unfolding step using Cons.IH [of "orders @ [r]" ?en] sub by (simp add: sent_def)
qed

lemma sent_closed:
  assumes "\<forall>x \<in> set xs. fillable b x \<and> map_of (pb_positions b) (od_symbol x) \<noteq> None
      \<and> held_after b x = Fin 0 \<and> \<bar>held b (od_symbol x) + signed_qty (od_side x) (od_qty x)\<bar> < fill_eps"
    and "distinct (map od_client_order_id xs)" "distinct (map od_symbol xs)"
  shows "map_of (pb_positions (sent xs b)) s =
    (if s \<in> od_symbol ` set xs then None else map_of (pb_positions b) s)"
  using assms
proof (induction xs arbitrary: b)
  case Nil
  then show ?case by (simp add: sent_def)
next
  case (Cons x xs)
  let ?b = "fst (paper_submit x b)"
  have x: "fillable b x" using Cons.prems by simp
  obtain p where p: "map_of (pb_prices b) (od_symbol x) = Some (Fin p)" "0 < p"
    using x by (auto simp: fillable_def)
  have sub: "paper_submit x b = fill_order x (Fin p) b"
    using x p by (intro paper_submit_market) (simp_all add: fillable_def zero_flt_def)
  obtain pos where pos: "map_of (pb_positions b) (od_symbol x) = Some pos" using Cons.prems(1) by auto
  then have "\<bar>ps_qty pos + signed_qty (od_side x) (od_qty x)\<bar> < fill_eps"
    using Cons.prems(1) by (simp add: held_in_def)
  then have gone: "map_of (pb_positions ?b) (od_symbol x) = None"
    unfolding sub fill_order_fields apply_fill_def by (simp add: pos Let_def dict_simps)
  have other: "map_of (pb_positions ?b) s = map_of (pb_positions b) s" if "s \<noteq> od_symbol x" for s
    using fillable_submit(2) [OF x that] .
  have ne: "od_symbol y \<noteq> od_symbol x \<and> od_client_order_id y \<noteq> od_client_order_id x"
    if "y \<in> set xs" for y using Cons.prems(2,3) that by (auto simp: image_iff)
  have later: "\<forall>y \<in> set xs. fillable ?b y \<and> map_of (pb_positions ?b) (od_symbol y) \<noteq> None
      \<and> held_after ?b y = Fin 0 \<and> \<bar>held ?b (od_symbol y) + signed_qty (od_side y) (od_qty y)\<bar> < fill_eps"
  proof
    fix y assume y: "y \<in> set xs"
    note n = ne [OF y]
    show "fillable ?b y \<and> map_of (pb_positions ?b) (od_symbol y) \<noteq> None
      \<and> held_after ?b y = Fin 0 \<and> \<bar>held ?b (od_symbol y) + signed_qty (od_side y) (od_qty y)\<bar> < fill_eps"
      using Cons.prems(1) y n fillable_after [OF x, of y] held_after_other [OF x, of y]
        fillable_submit(1) [OF x, of "od_symbol y"] other [of "od_symbol y"] by simp
  qed
  have "map_of (pb_positions (sent xs ?b)) s =
      (if s \<in> od_symbol ` set xs then None else map_of (pb_positions ?b) s)"
    using Cons.prems by (intro Cons.IH [OF later]) simp_all
  then show ?case using gone other by (auto simp: sent_def)
qed

text \<open>The manual kill.  Flattening engages the kill switch and returns; with finite positions whose
  symbols all have a price, and new order ids, no position is left open.\<close>

theorem flatten_closes_everything:
  assumes "paper_inv (en_broker en)"
    and "\<forall>pos \<in> set (paper_positions (en_broker en)). is_fin (ps_qty pos)
      \<and> (\<exists>p. map_of (pb_prices (en_broker en)) (ps_symbol pos) = Some (Fin p) \<and> 0 < p)
      \<and> map_of (pb_orders (en_broker en)) (''flat-'' @ stamp t @ ''-'' @ ps_symbol pos) = None"
  shows "\<exists>en' os. halt_and_flatten paper_ops S now t en = (en', Inr os)
    \<and> ks_engaged (en_kill en') \<and> paper_positions (en_broker en') = []"
proof -
  let ?b = "en_broker en"
  let ?ps = "paper_positions ?b"
  let ?xs = "map (flat_order t) ?ps"
  have d: "filed ps_symbol (pb_positions ?b)" using assms(1) by (simp add: paper_inv_def)
  have ds: "distinct (map ps_symbol ?ps)"
    unfolding paper_positions_def filed_map [OF d] using d by (rule filed_distinct)
  obtain en' os where fl: "flatten_loop paper_ops S now t ?ps [] (engage ''manual_kill'' en) = (en', Inr os)"
    "en_broker en' = sent ?xs (en_broker (engage ''manual_kill'' en))"
    "en_kill en' = en_kill (engage ''manual_kill'' en)"
    using flatten_loop_paper by blast
  have ok: "\<forall>x \<in> set ?xs. fillable ?b x \<and> map_of (pb_positions ?b) (od_symbol x) \<noteq> None
      \<and> held_after ?b x = Fin 0 \<and> \<bar>held ?b (od_symbol x) + signed_qty (od_side x) (od_qty x)\<bar> < fill_eps"
  proof
    fix x assume "x \<in> set ?xs"
    then obtain pos where pos: "pos \<in> set ?ps" "x = flat_order t pos" by auto
    have look: "map_of (pb_positions ?b) (ps_symbol pos) = Some pos"
      using pos(1) filed_vals [OF d] by (simp add: paper_positions_def del: set_map)
    obtain q where q: "ps_qty pos = Fin q" using assms(2) pos(1) by (auto simp: is_fin_iff)
    have sq: "signed_qty (od_side x) (od_qty x) = Fin (- q)"
      by (simp add: pos(2) flat_order_def signed_qty_def q zero_flt_def)
    have h: "held ?b (od_symbol x) = Fin q" "od_symbol x = ps_symbol pos"
      using look q by (simp_all add: pos(2) flat_order_def held_in_def)
    have "fillable ?b x"
      using assms(2) pos(1) by (simp add: pos(2) flat_order_def fillable_def)
    then show "fillable ?b x \<and> map_of (pb_positions ?b) (od_symbol x) \<noteq> None
      \<and> held_after ?b x = Fin 0 \<and> \<bar>held ?b (od_symbol x) + signed_qty (od_side x) (od_qty x)\<bar> < fill_eps"
      using sq h look by (simp add: held_after_def Let_def zero_flt_def)
  qed
  have syms: "map od_symbol ?xs = map ps_symbol ?ps" by (simp add: flat_order_def)
  have ids: "map od_client_order_id ?xs = map (\<lambda>s. ''flat-'' @ stamp t @ ''-'' @ s) (map ps_symbol ?ps)"
    by (simp add: flat_order_def)
  have di: "distinct (map od_client_order_id ?xs)"
    unfolding ids using ds by (subst distinct_map) (simp add: inj_on_def)
  have cl: "map_of (pb_positions (en_broker en')) s = None" for s
  proof -
    have "map_of (pb_positions (sent ?xs ?b)) s =
        (if s \<in> od_symbol ` set ?xs then None else map_of (pb_positions ?b) s)"
      using ok di ds by (intro sent_closed) (simp_all add: syms del: map_map)
    moreover have "map_of (pb_positions ?b) s = None" if "s \<notin> od_symbol ` set ?xs"
    proof -
      have "od_symbol ` set ?xs = set (keys (pb_positions ?b))"
        using syms filed_map [OF d] by (metis paper_positions_def set_map)
      then show ?thesis using that by (simp add: map_of_eq_None_iff)
    qed
    ultimately show ?thesis using fl(2) by auto
  qed
  have "pb_positions (en_broker en') = []"
  proof (cases "pb_positions (en_broker en')")
    case (Cons p d)
    then show ?thesis using cl [of "fst p"] by (cases p) simp
  qed simp
  then show ?thesis
    using fl by (simp add: halt_and_flatten_def Let_def paper_ops_def paper_positions_def)
qed

lemma flatten_closes_everything_witness:
  "\<exists>en' os. halt_and_flatten paper_ops mem_ops 9 5
      (sample_engine\<lparr>en_broker := sample_broker\<lparr>pb_positions := [(''AAPL'', make_position ''AAPL'' (Fin 3) (Fin 90))]\<rparr>\<rparr>)
      = (en', Inr os) \<and> ks_engaged (en_kill en') \<and> paper_positions (en_broker en') = []"
  by (rule flatten_closes_everything)
    (simp_all add: sample_broker_def paper_init_def paper_inv_def paper_positions_def is_fin_def filed_def)

end
