(* ===== verification/Confirm.thy ===== *)
theory Confirm
  imports Settings
begin

text \<open>
  \<open>runtime/intraday_confirm.py\<close> and \<open>runtime/schedule.py\<close>: the stateful confirmation gate of the
  intraday loop, and the daily scheduler that fires the end-of-day cycle on the market's close.
  The scheduler's dependencies are injected functions: the clock and the cycle of the i-th poll and
  the answer of the j-th call of \<open>stop\<close>.
\<close>

section \<open>The confirmation gate\<close>

record confirmation_config =
  cf_persistence :: int
  cf_sigma_mult :: flt
  cf_volume_mult :: flt
  cf_require_daily :: bool
  cf_cooldown_minutes :: flt

definition default_confirmation :: confirmation_config where
  "default_confirmation = \<lparr>cf_persistence = 3, cf_sigma_mult = 2, cf_volume_mult = Fin (3 / 2),
     cf_require_daily = True, cf_cooldown_minutes = 30\<rparr>"

record name_state =
  nm_directions :: "int list"
  nm_last_action :: "datetime option"

type_synonym confirmation = "(string, name_state) dict"

record reading =
  rg_symbol :: string
  rg_signal :: flt
  rg_recent_vol :: flt
  rg_volume_ratio :: flt
  rg_daily_signal :: flt
  rg_now :: datetime

text \<open>\<open>deque(maxlen=m)\<close> drops from the left when it is full.\<close>

definition push_bounded :: "nat \<Rightarrow> 'a \<Rightarrow> 'a list \<Rightarrow> 'a list" where
  "push_bounded m x xs = (let ys = xs @ [x] in drop (length ys - m) ys)"

definition direction :: "confirmation_config \<Rightarrow> reading \<Rightarrow> int" where
  "direction cfg r =
     (let threshold = cf_sigma_mult cfg * py_max (rg_recent_vol r) 0
      in if 0 < threshold \<and> threshold \<le> \<bar>rg_signal r\<bar> then (if 0 < rg_signal r then 1 else - 1)
         else 0)"

definition seconds_of :: "timedelta \<Rightarrow> flt" where
  "seconds_of d = Fin (of_int d / 1000000)"

definition cooling_down :: "confirmation_config \<Rightarrow> datetime option \<Rightarrow> datetime \<Rightarrow> bool" where
  "cooling_down cfg last_action now \<longleftrightarrow>
     (case last_action of None \<Rightarrow> False
      | Some t \<Rightarrow> seconds_of (now - t) < cf_cooldown_minutes cfg * 60)"

definition fights_daily :: "confirmation_config \<Rightarrow> int \<Rightarrow> flt \<Rightarrow> bool" where
  "fights_daily cfg proposed daily \<longleftrightarrow>
     cf_require_daily cfg \<and> daily \<noteq> 0 \<and> Fin (of_int proposed) * daily < 0"

definition confirm :: "confirmation_config \<Rightarrow> reading \<Rightarrow> confirmation \<Rightarrow> confirmation \<times> int" where
  "confirm cfg r g =
     (let sy = rg_symbol r;
          st = dict_get \<lparr>nm_directions = [], nm_last_action = None\<rparr> g sy;
          dirs = push_bounded (nat (max 1 (cf_persistence cfg))) (direction cfg r) (nm_directions st);
          st1 = st\<lparr>nm_directions := dirs\<rparr>;
          g1 = dict_set sy st1 g;
          proposed = last dirs
      in if int (length dirs) < cf_persistence cfg then (g1, 0)
         else if proposed = 0 \<or> (\<exists>d \<in> set dirs. d \<noteq> proposed) then (g1, 0)
         else if rg_volume_ratio r < cf_volume_mult cfg then (g1, 0)
         else if fights_daily cfg proposed (rg_daily_signal r) then (g1, 0)
         else if cooling_down cfg (nm_last_action st) (rg_now r) then (g1, 0)
         else (dict_set sy (st1\<lparr>nm_last_action := Some (rg_now r)\<rparr>) g1, proposed))"

text \<open>A sequence of readings through the gate, with the action of each.\<close>

fun confirm_all ::
  "confirmation_config \<Rightarrow> reading list \<Rightarrow> confirmation \<Rightarrow> confirmation \<times> (reading \<times> int) list" where
  "confirm_all cfg [] g = (g, [])"
| "confirm_all cfg (r # rs) g =
     (let (g1, a) = confirm cfg r g; (g2, as) = confirm_all cfg rs g1 in (g2, (r, a) # as))"

section \<open>The daily scheduler\<close>

definition schedule_guard :: "settings \<Rightarrow> bool \<Rightarrow> bool \<Rightarrow> unit res" where
  "schedule_guard st has_clock has_cycle =
     (if \<not> has_clock \<or> \<not> has_cycle then
        if \<not> (str_set (alpaca_key_id st) \<and> str_set (alpaca_secret_key st)) then Inl RuntimeError
        else if \<not> alpaca_paper st then assert_live_allowed st
        else Inr ()
      else Inr ())"

record schedule_env =
  sv_clock :: "nat \<Rightarrow> bool res"
  sv_cycle :: "nat \<Rightarrow> unit res"
  sv_stop :: "(nat \<Rightarrow> bool) option"
  sv_max :: "nat option"

record schedule_state =
  sc_was_open :: "bool option"
  sc_iterations :: nat
  sc_stop_calls :: nat
  sc_fired :: "nat list"
  sc_failed :: "nat list"

definition was_open_bool :: "bool option \<Rightarrow> bool" where
  "was_open_bool w \<longleftrightarrow> w = Some True"

text \<open>\<open>(stop and stop()) or (max_iterations is not None and iterations >= max_iterations)\<close>.\<close>

definition should_stop :: "schedule_env \<Rightarrow> schedule_state \<Rightarrow> schedule_state \<times> bool" where
  "should_stop ev s =
     (let (s1, stopped) = (case sv_stop ev of None \<Rightarrow> (s, False)
            | Some f \<Rightarrow> (s\<lparr>sc_stop_calls := Suc (sc_stop_calls s)\<rparr>, f (sc_stop_calls s)))
      in (s1, stopped \<or> (case sv_max ev of None \<Rightarrow> False | Some m \<Rightarrow> m \<le> sc_iterations s)))"

definition poll_once :: "schedule_env \<Rightarrow> schedule_state \<Rightarrow> schedule_state" where
  "poll_once ev s =
     (let i = sc_iterations s;
          now_open = (case sv_clock ev i of Inl e \<Rightarrow> was_open_bool (sc_was_open s) | Inr b \<Rightarrow> b);
          fire = was_open_bool (sc_was_open s) \<and> \<not> now_open;
          s1 = s\<lparr>sc_was_open := Some now_open\<rparr>;
          s2 = (if fire then
                  (case sv_cycle ev i of
                     Inl e \<Rightarrow> s1\<lparr>sc_fired := sc_fired s1 @ [i], sc_failed := sc_failed s1 @ [i]\<rparr>
                   | Inr _ \<Rightarrow> s1\<lparr>sc_fired := sc_fired s1 @ [i]\<rparr>)
                else s1)
      in s2\<lparr>sc_iterations := Suc i\<rparr>)"

partial_function (option) schedule_loop :: "schedule_env \<Rightarrow> schedule_state \<Rightarrow> schedule_state option" where
  "schedule_loop ev s =
     (let (s1, halt) = should_stop ev s
      in if halt then Some s1
         else (let (s2, halt2) = should_stop ev (poll_once ev s1)
               in if halt2 then Some s2 else schedule_loop ev s2))"

definition schedule_start :: schedule_state where
  "schedule_start = \<lparr>sc_was_open = None, sc_iterations = 0, sc_stop_calls = 0, sc_fired = [],
     sc_failed = []\<rparr>"

definition run_daily_schedule :: "schedule_env \<Rightarrow> schedule_state option" where
  "run_daily_schedule ev = schedule_loop ev schedule_start"

section \<open>The gate's memory\<close>

lemma push_bounded_eq: "push_bounded m x (drop (length xs - m) xs) = drop (length (xs @ [x]) - m) (xs @ [x])"
  if "0 < m"
proof (cases "length xs \<le> m")
  case True
  then show ?thesis by (simp add: push_bounded_def)
next
  case False
  then have "length (drop (length xs - m) xs @ [x]) - m = 1" by simp
  moreover have "length (xs @ [x]) - m = Suc (length xs - m)" using False by simp
  ultimately show ?thesis using False that
    by (simp add: push_bounded_def Let_def drop_append)
qed

definition readings_of :: "string \<Rightarrow> reading list \<Rightarrow> reading list" where
  "readings_of sy rs = filter (\<lambda>r. rg_symbol r = sy) rs"

definition last_action_in :: "string \<Rightarrow> (reading \<times> int) list \<Rightarrow> datetime option" where
  "last_action_in sy ras =
     (let acted = filter (\<lambda>(r, a). rg_symbol r = sy \<and> a \<noteq> 0) ras
      in if acted = [] then None else Some (rg_now (fst (last acted))))"

abbreviation memory :: "confirmation_config \<Rightarrow> nat" where
  "memory cfg \<equiv> nat (max 1 (cf_persistence cfg))"

definition remembers :: "confirmation_config \<Rightarrow> (reading \<times> int) list \<Rightarrow> confirmation \<Rightarrow> bool" where
  "remembers cfg ras g \<longleftrightarrow>
     (\<forall>sy. let st = dict_get \<lparr>nm_directions = [], nm_last_action = None\<rparr> g sy;
               ds = map (direction cfg) (readings_of sy (map fst ras))
           in nm_directions st = drop (length ds - memory cfg) ds
              \<and> nm_last_action st = last_action_in sy ras)"

text \<open>The conditions of an action, in terms of what the gate has been shown before.\<close>

definition confirmed :: "confirmation_config \<Rightarrow> (reading \<times> int) list \<Rightarrow> reading \<Rightarrow> int \<Rightarrow> bool" where
  "confirmed cfg ras r a \<longleftrightarrow>
     (let ds = map (direction cfg) (readings_of (rg_symbol r) (map fst ras @ [r]))
      in cf_persistence cfg \<le> int (length ds)
         \<and> (\<forall>d \<in> set (drop (length ds - memory cfg) ds). d = a) \<and> a \<noteq> 0
         \<and> \<not> rg_volume_ratio r < cf_volume_mult cfg
         \<and> \<not> fights_daily cfg a (rg_daily_signal r)
         \<and> \<not> cooling_down cfg (last_action_in (rg_symbol r) ras) (rg_now r))"

lemma last_action_in_snoc:
  "last_action_in sy (ras @ [(r, a)]) =
     (if rg_symbol r = sy \<and> a \<noteq> 0 then Some (rg_now r) else last_action_in sy ras)"
  by (simp add: last_action_in_def Let_def)

lemma drop_keeps_last: "xs \<noteq> [] \<Longrightarrow> 0 < m \<Longrightarrow> last (drop (length xs - m) xs) = last xs"
  by (simp add: last_drop)

lemma confirm_step:
  assumes rem: "remembers cfg ras g" and c: "confirm cfg r g = (g', a)"
  shows "remembers cfg (ras @ [(r, a)]) g' \<and> (a \<noteq> 0 \<longrightarrow> confirmed cfg ras r a)
    \<and> (a = 0 \<longrightarrow> (\<forall>b. \<not> confirmed cfg ras r b))"
proof -
  let ?sy = "rg_symbol r"
  let ?dflt = "\<lparr>nm_directions = [], nm_last_action = None\<rparr>"
  let ?st = "dict_get ?dflt g ?sy"
  let ?old = "map (direction cfg) (readings_of ?sy (map fst ras))"
  let ?ds = "?old @ [direction cfg r]"
  let ?win = "drop (length ?ds - memory cfg) ?ds"
  have m: "0 < memory cfg" by simp
  have st: "nm_directions ?st = drop (length ?old - memory cfg) ?old"
    "nm_last_action ?st = last_action_in ?sy ras"
    using rem by (simp_all add: remembers_def Let_def)
  have win: "push_bounded (memory cfg) (direction cfg r) (nm_directions ?st) = ?win"
    unfolding st(1) by (rule push_bounded_eq [OF m])
  have ds: "map (direction cfg) (readings_of ?sy (map fst ras @ [r])) = ?ds"
    by (simp add: readings_of_def)
  have last_win: "last ?win = direction cfg r"
    using drop_keeps_last [of ?ds "memory cfg"] m by simp
  have len_win: "int (length ?win) < cf_persistence cfg \<longleftrightarrow> int (length ?ds) < cf_persistence cfg"
    by auto
  have dir_in: "direction cfg r \<in> set ?win"
  proof -
    have "?win \<noteq> []" using m by simp
    from last_in_set [OF this] show ?thesis unfolding last_win .
  qed
  let ?g1 = "dict_set ?sy (?st\<lparr>nm_directions := ?win\<rparr>) g"
  let ?ok = "\<not> int (length ?win) < cf_persistence cfg
    \<and> \<not> (direction cfg r = 0 \<or> (\<exists>d \<in> set ?win. d \<noteq> direction cfg r))
    \<and> \<not> rg_volume_ratio r < cf_volume_mult cfg
    \<and> \<not> fights_daily cfg (direction cfg r) (rg_daily_signal r)
    \<and> \<not> cooling_down cfg (last_action_in ?sy ras) (rg_now r)"
  have res: "confirm cfg r g = (if ?ok then
      (dict_set ?sy (?st\<lparr>nm_directions := ?win, nm_last_action := Some (rg_now r)\<rparr>) ?g1, direction cfg r)
      else (?g1, 0))"
  proof -
    obtain st0 where st0: "?st = st0" by blast
    obtain w where w: "?win = w" by blast
    have pb: "push_bounded (memory cfg) (direction cfg r) (nm_directions st0) = w"
      using win unfolding st0 w .
    have lw: "last w = direction cfg r" using last_win unfolding w .
    have la: "nm_last_action st0 = last_action_in ?sy ras" using st(2) unfolding st0 .
    show ?thesis
      unfolding confirm_def Let_def st0 pb lw la w by (auto split: if_splits)
  qed
  have conf: "confirmed cfg ras r b \<longleftrightarrow> ?ok \<and> b = direction cfg r" for b
    unfolding confirmed_def ds Let_def using dir_in len_win by auto
  have keep: "remembers cfg (ras @ [(r, b)]) g2"
    if "\<And>sy. dict_get ?dflt g2 sy = (if sy = ?sy then ?st\<lparr>nm_directions := ?win,
        nm_last_action := last_action_in ?sy (ras @ [(r, b)])\<rparr> else dict_get ?dflt g sy)" for g2 b
    unfolding remembers_def Let_def that
    using rem by (auto simp: remembers_def Let_def last_action_in_snoc readings_of_def)
  have ga: "g' = fst (confirm cfg r g)" "a = snd (confirm cfg r g)" unfolding c by simp_all
  show ?thesis
  proof (cases ?ok)
    case True
    have g': "g' = dict_set ?sy (?st\<lparr>nm_directions := ?win, nm_last_action := Some (rg_now r)\<rparr>) ?g1"
      "a = direction cfg r" unfolding ga res if_P [OF True] fst_conv snd_conv by (rule refl)+
    moreover have "direction cfg r \<noteq> 0" using True by blast
    ultimately show ?thesis using True conf
      by (intro conjI keep) (auto simp: dict_simps last_action_in_snoc)
  next
    case False
    have g': "g' = ?g1" "a = 0"
      unfolding ga res if_not_P [OF False] fst_conv snd_conv by (rule refl)+
    then have "remembers cfg (ras @ [(r, 0)]) g'"
      by (intro keep) (simp add: dict_simps last_action_in_snoc st(2) [symmetric])
    then show ?thesis using False conf g' by blast
  qed
qed

lemma confirm_all_snoc:
  "confirm_all cfg (rs @ [r]) g =
     (let (g1, as) = confirm_all cfg rs g; (g2, a) = confirm cfg r g1 in (g2, as @ [(r, a)]))"
  by (induction rs arbitrary: g) (auto simp: Let_def split: prod.splits)

lemma confirm_all_remembers:
  "confirm_all cfg rs [] = (g, ras) \<Longrightarrow> remembers cfg ras g \<and> map fst ras = rs"
proof (induction rs arbitrary: g ras rule: rev_induct)
  case Nil
  then show ?case by (auto simp: remembers_def readings_of_def last_action_in_def)
next
  case (snoc r rs)
  obtain g1 as where one: "confirm_all cfg rs [] = (g1, as)" by (rule prod.exhaust)
  obtain g2 a where two: "confirm cfg r g1 = (g2, a)" by (rule prod.exhaust)
  have "g = g2" "ras = as @ [(r, a)]" using snoc.prems one two by (simp_all add: confirm_all_snoc)
  then show ?case using snoc.IH [OF one] confirm_step [OF _ two, of as] by simp
qed

section \<open>Properties of the gate\<close>

lemma confirm_is_unanimous_core:
  assumes "confirm_all cfg (rs @ [r]) [] = (g, ras @ [(r, a)])"
  shows "(a \<noteq> 0 \<longleftrightarrow> (\<exists>b. confirmed cfg ras r b)) \<and> (a \<noteq> 0 \<longrightarrow> confirmed cfg ras r a)"
proof -
  obtain g1 ras1 where one: "confirm_all cfg rs [] = (g1, ras1)" by (rule prod.exhaust)
  obtain g2 a2 where two: "confirm cfg r g1 = (g2, a2)" by (rule prod.exhaust)
  have eq: "ras1 = ras" "a2 = a" using assms one two by (simp_all add: confirm_all_snoc)
  show ?thesis
    using confirm_step [OF _ two, of ras1] confirm_all_remembers [OF one] eq by blast
qed

text \<open>Only a unanimous pass acts.  Fed any sequence of readings, the gate acts on the next one exactly
  when the last \<open>persistence\<close> readings of that name all exceed their volatility threshold in one
  direction, volume confirms, the daily signal does not disagree and the name is not cooling
  down since its last action; and the action is that direction.\<close>

theorem confirm_is_unanimous:
  assumes "confirm_all cfg (rs @ [r]) [] = (g, ras @ [(r, a)])"
  shows "(a \<noteq> 0 \<longleftrightarrow> (\<exists>b. confirmed cfg ras r b)) \<and> (a \<noteq> 0 \<longrightarrow> confirmed cfg ras r a)"
  using assms by (rule confirm_is_unanimous_core)

definition sample_reading :: "int \<Rightarrow> reading" where
  "sample_reading t = \<lparr>rg_symbol = ''SPY'', rg_signal = 3, rg_recent_vol = 1, rg_volume_ratio = 2,
     rg_daily_signal = 1, rg_now = t * us_minute\<rparr>"

lemma sample_direction: "direction default_confirmation (sample_reading t) = 1"
  by (simp add: direction_def default_confirmation_def sample_reading_def flt_simps)

lemma confirm_is_unanimous_witness:
  "\<exists>g ras. confirm_all default_confirmation ([sample_reading 0, sample_reading 1] @ [sample_reading 2]) []
      = (g, ras @ [(sample_reading 2, 1)]) \<and> confirmed default_confirmation ras (sample_reading 2) 1"
proof -
  let ?rs = "[sample_reading 0, sample_reading 1]"
  obtain g ras where c: "confirm_all default_confirmation ?rs [] = (g, ras)" by (rule prod.exhaust)
  obtain g2 a where d: "confirm default_confirmation (sample_reading 2) g = (g2, a)" by (rule prod.exhaust)
  have all: "confirm_all default_confirmation (?rs @ [sample_reading 2]) [] = (g2, ras @ [(sample_reading 2, a)])"
    using c d by (simp only: confirm_all_snoc Let_def prod.case)
  have fst: "map fst ras = ?rs" using confirm_all_remembers [OF c] by blast
  have sy: "rg_symbol (sample_reading t) = ''SPY''" for t by (simp add: sample_reading_def)
  have none: "last_action_in ''SPY'' ras = None"
  proof -
    have "snd (confirm_all default_confirmation ?rs []) = [(sample_reading 0, 0), (sample_reading 1, 0)]"
      by (simp add: confirm_def Let_def push_bounded_def sy dict_simps default_confirmation_def)
    then have "ras = [(sample_reading 0, 0), (sample_reading 1, 0)]" using c by simp
    then show ?thesis by (simp add: last_action_in_def)
  qed
  have "confirmed default_confirmation ras (sample_reading 2) 1"
    unfolding confirmed_def fst sy none
    by (simp add: readings_of_def sy sample_direction)
      (simp add: default_confirmation_def sample_reading_def fights_daily_def cooling_down_def flt_simps)
  moreover from this have "a \<noteq> 0" "confirmed default_confirmation ras (sample_reading 2) a"
    using confirm_is_unanimous [OF all] by blast+
  ultimately have "a = 1"
    unfolding confirmed_def fst sy
    by (auto simp: readings_of_def sy sample_direction Let_def default_confirmation_def)
  with all \<open>confirmed default_confirmation ras (sample_reading 2) 1\<close> show ?thesis by blast
qed

lemma last_action_recent:
  assumes "(r, a) \<in> set ras" "rg_symbol r = sy" "a \<noteq> 0" "sorted (map (\<lambda>x. rg_now (fst x)) ras)"
  shows "\<exists>t. last_action_in sy ras = Some t \<and> rg_now r \<le> t"
  using assms
proof (induction ras rule: rev_induct)
  case Nil
  then show ?case by simp
next
  case (snoc x ras)
  obtain r' a' where x: "x = (r', a')" by (rule prod.exhaust)
  show ?case
  proof (cases "rg_symbol r' = sy \<and> a' \<noteq> 0")
    case True
    have "rg_now r \<le> rg_now r'"
      using snoc.prems(1,4) x by (auto simp: sorted_append)
    with True show ?thesis by (simp add: x last_action_in_snoc)
  next
    case False
    then have "(r, a) \<in> set ras" using snoc.prems x by auto
    then show ?thesis using snoc False x by (auto simp: last_action_in_snoc sorted_append)
  qed
qed

text \<open>No flip-flopping.  When readings arrive in time order, two actions on one name are always at
  least the cooldown apart.\<close>

theorem confirm_actions_are_spaced:
  assumes "confirm_all cfg rs [] = (g, ras)" "sorted (map rg_now rs)"
    and "cf_cooldown_minutes cfg = Fin c" "i < j" "j < length ras"
    and "rg_symbol (fst (ras ! i)) = rg_symbol (fst (ras ! j))"
    and "snd (ras ! i) \<noteq> 0" "snd (ras ! j) \<noteq> 0"
  shows "c * 60 * 1000000 \<le> of_int (rg_now (fst (ras ! j)) - rg_now (fst (ras ! i)))"
proof -
  have fst: "map fst ras = rs" using confirm_all_remembers [OF assms(1)] by blast
  obtain r a where ra: "ras ! j = (r, a)" by (rule prod.exhaust)
  have prefix: "\<exists>g'. confirm_all cfg (take n rs) [] = (g', take n ras)" for n
    using assms(1)
  proof (induction rs arbitrary: n g ras rule: rev_induct)
    case Nil
    then show ?case by simp
  next
    case (snoc x xs)
    obtain g1 as where one: "confirm_all cfg xs [] = (g1, as)" by (rule prod.exhaust)
    obtain g2 b where two: "confirm cfg x g1 = (g2, b)" by (rule prod.exhaust)
    have all: "g = g2" "ras = as @ [(x, b)]" using snoc.prems one two by (simp_all add: confirm_all_snoc)
    have len: "length as = length xs" using confirm_all_remembers [OF one] by (metis length_map)
    show ?case
    proof (cases "n \<le> length xs")
      case True
      then show ?thesis using snoc.IH [OF one, of n] all len by simp
    next
      case False
      then show ?thesis using snoc.prems all len by simp
    qed
  qed
  have len: "length ras = length rs" using fst by (metis length_map)
  have "take (Suc j) rs = take j rs @ [r]"
    using assms(5) fst ra len by (metis fst_conv nth_map take_Suc_conv_app_nth)
  moreover have "take (Suc j) ras = take j ras @ [(r, a)]"
    using assms(5) ra by (simp add: take_Suc_conv_app_nth)
  ultimately obtain g' where "confirm_all cfg (take j rs @ [r]) [] = (g', take j ras @ [(r, a)])"
    using prefix [of "Suc j"] by auto
  from confirm_is_unanimous_core [OF this] have conf: "confirmed cfg (take j ras) r a"
    using assms(8) ra by simp
  obtain r0 a0 where ra0: "ras ! i = (r0, a0)" by (rule prod.exhaust)
  have "(r0, a0) \<in> set (take j ras)"
    using assms(4,5) ra0 by (metis in_set_conv_nth length_take less_trans min_less_iff_conj nth_take)
  moreover have "sorted (map (\<lambda>x. rg_now (fst x)) (take j ras))"
  proof -
    have "sorted (take j (map rg_now (map fst ras)))" using assms(2) fst sorted_wrt_take by blast
    then show ?thesis by (simp add: take_map comp_def)
  qed
  ultimately obtain t where t: "last_action_in (rg_symbol r) (take j ras) = Some t" "rg_now r0 \<le> t"
    using last_action_recent [of r0 a0 "take j ras" "rg_symbol r"] assms(6,7) ra ra0 by auto
  have "\<not> seconds_of (rg_now r - t) < cf_cooldown_minutes cfg * 60"
    using conf t(1) by (simp add: confirmed_def Let_def cooling_down_def)
  then have "c * 60 * 1000000 \<le> of_int (rg_now r - t)"
    using assms(3) by (simp add: seconds_of_def flt_consts not_less field_simps)
  also have "\<dots> \<le> of_int (rg_now r - rg_now r0)" using t(2) by simp
  finally show ?thesis using ra ra0 by simp
qed

lemma confirm_actions_are_spaced_witness:
  "(0::real) * 60 * 1000000 \<le> of_int (rg_now (sample_reading 7) - rg_now (sample_reading 5))"
proof -
  let ?cfg = "default_confirmation\<lparr>cf_persistence := 1, cf_cooldown_minutes := 0\<rparr>"
  let ?rs = "[sample_reading 5, sample_reading 7]"
  have dir: "direction ?cfg (sample_reading t) = 1" for t
    by (simp add: direction_def default_confirmation_def sample_reading_def flt_simps)
  have sy: "rg_symbol (sample_reading t) = ''SPY''" for t by (simp add: sample_reading_def)
  have "snd (confirm_all ?cfg ?rs []) = [(sample_reading 5, 1), (sample_reading 7, 1)]"
    by (simp add: confirm_def Let_def push_bounded_def sy dir dict_simps)
      (simp add: default_confirmation_def sample_reading_def fights_daily_def cooling_down_def
        seconds_of_def flt_simps dict_simps)
  then obtain g where g: "confirm_all ?cfg ?rs [] = (g, [(sample_reading 5, 1), (sample_reading 7, 1)])"
    by (metis prod.collapse)
  show ?thesis
    using confirm_actions_are_spaced [OF g, of 0 0 1] by (simp add: sample_reading_def flt_consts)
qed

section \<open>Properties of the scheduler\<close>

fun market_open_at :: "schedule_env \<Rightarrow> nat \<Rightarrow> bool" where
  "market_open_at ev 0 = (case sv_clock ev 0 of Inl _ \<Rightarrow> False | Inr b \<Rightarrow> b)"
| "market_open_at ev (Suc i) =
     (case sv_clock ev (Suc i) of Inl _ \<Rightarrow> market_open_at ev i | Inr b \<Rightarrow> b)"

definition closes_at :: "schedule_env \<Rightarrow> nat \<Rightarrow> bool" where
  "closes_at ev i \<longleftrightarrow> 0 < i \<and> market_open_at ev (i - 1) \<and> \<not> market_open_at ev i"

primrec polled :: "schedule_env \<Rightarrow> nat \<Rightarrow> schedule_state" where
  "polled ev 0 = schedule_start"
| "polled ev (Suc n) = poll_once ev (polled ev n)"

lemma poll_once_fields:
  "sc_iterations (poll_once ev s) = Suc (sc_iterations s)"
  "sc_stop_calls (poll_once ev s) = sc_stop_calls s"
  by (simp_all add: poll_once_def Let_def split: sum.split)

lemma polled_state:
  "sc_iterations (polled ev n) = n
   \<and> sc_was_open (polled ev n) = (if n = 0 then None else Some (market_open_at ev (n - 1)))
   \<and> sc_fired (polled ev n) = filter (closes_at ev) [0..<n]"
proof (induction n)
  case 0
  then show ?case by (simp add: schedule_start_def)
next
  case (Suc n)
  let ?s = "polled ev n"
  have open_now: "(case sv_clock ev n of Inl e \<Rightarrow> was_open_bool (sc_was_open ?s) | Inr b \<Rightarrow> b)
      = market_open_at ev n"
    using Suc by (cases n) (simp_all add: was_open_bool_def split: sum.split)
  have fire: "was_open_bool (sc_was_open ?s) \<and> \<not> market_open_at ev n \<longleftrightarrow> closes_at ev n"
    using Suc by (simp add: was_open_bool_def closes_at_def)
  have it: "sc_iterations ?s = n" using Suc by simp
  show ?case
    unfolding polled.simps poll_once_def Let_def it open_now fire
    using Suc by (auto split: sum.split)
qed

lemma schedule_loop_polled:
  assumes "sv_stop ev = None" "sv_max ev = Some n" "k \<le> n"
  shows "schedule_loop ev (polled ev k) = Some (polled ev n)"
  using assms(3)
proof (induction k rule: inc_induct)
  case base
  have "should_stop ev (polled ev n) = (polled ev n, True)"
    using assms polled_state by (simp add: should_stop_def)
  then show ?case by (subst schedule_loop.simps) simp
next
  case (step k)
  have stop: "should_stop ev (polled ev j) = (polled ev j, n \<le> j)" for j
    using assms polled_state by (simp add: should_stop_def)
  show ?case
  proof (cases "n \<le> Suc k")
    case True
    then have "n = Suc k" using step by simp
    then show ?thesis using step(2) stop [of k] stop [of "Suc k"]
      by (subst schedule_loop.simps) simp
  next
    case False
    then show ?thesis using step stop [of k] stop [of "Suc k"]
      by (subst schedule_loop.simps) simp
  qed
qed

text \<open>The daily cycle runs once per session.  Bounded to \<open>n\<close> polls the scheduler returns after exactly
  \<open>n\<close> iterations, having fired the cycle exactly at the polls where the market, read with clock
  errors counted as no change, went from open to closed; a failing cycle is not retried.\<close>

theorem schedule_fires_at_the_close:
  assumes "sv_stop ev = None" "sv_max ev = Some n"
  shows "\<exists>s. run_daily_schedule ev = Some s \<and> sc_iterations s = n
    \<and> sc_fired s = filter (closes_at ev) [0..<n]"
  using schedule_loop_polled [OF assms, of 0] polled_state [of ev n]
  by (simp add: run_daily_schedule_def)

lemma schedule_fires_at_the_close_witness:
  "\<exists>s. run_daily_schedule \<lparr>sv_clock = (\<lambda>i. if i = 1 then Inl RuntimeError else Inr (i = 0)),
      sv_cycle = (\<lambda>_. Inl RuntimeError), sv_stop = None, sv_max = Some 4\<rparr> = Some s
    \<and> sc_fired s = [2]"
proof -
  let ?ev = "\<lparr>sv_clock = (\<lambda>i. if i = 1 then Inl RuntimeError else Inr (i = 0)),
      sv_cycle = (\<lambda>_. Inl RuntimeError), sv_stop = None, sv_max = Some 4\<rparr> :: schedule_env"
  have "sv_stop ?ev = None" "sv_max ?ev = Some 4" by simp_all
  from schedule_fires_at_the_close [OF this] obtain s where
    s: "run_daily_schedule ?ev = Some s" "sc_fired s = filter (closes_at ?ev) [0..<4]" by blast
  have open_at: "market_open_at ?ev 0" "market_open_at ?ev 1" "\<not> market_open_at ?ev 2"
    "\<not> market_open_at ?ev 3"
    by (simp_all add: numeral_2_eq_2 numeral_3_eq_3)
  have "[0..<4] = [0, 1, 2, 3 :: nat]" by (simp add: upt_rec)
  then have "sc_fired s = [2]" using s(2) open_at by (simp add: closes_at_def)
  with s(1) show ?thesis by blast
qed

end
