(* ===== verification/Parse.thy ===== *)
theory Parse
  imports Schema
begin

text \<open>
  Reading text and dynamically typed values: integers, list indices, dates and timestamps in the
  form \<open>isoformat\<close> writes them, splitting on a separator.  These are the parts of Python's
  library that the collectors and the persisted states rely on.
\<close>

section \<open>Reading numbers from payloads\<close>

definition parse_int :: "string \<Rightarrow> int res" where
  "parse_int s = (let (neg, body) = split_sign (strip s)
     in if body \<noteq> [] \<and> (\<forall>c \<in> set body. is_digit c)
        then Inr (if neg then - int (digits_val body) else int (digits_val body))
        else Inl ValueError)"

fun to_int :: "pyval \<Rightarrow> int res" where
  "to_int (PInt n) = Inr n"
| "to_int (PBool b) = Inr (if b then 1 else 0)"
| "to_int (PFloat x) = py_int x"
| "to_int (PStr s) = parse_int s"
| "to_int (PExc e) = Inl ValueError"
| "to_int _ = Inl TypeError"

text \<open>\<open>min(xs, key=f)\<close> is the first minimal element.\<close>

definition min_by :: "('a \<Rightarrow> 'k :: linorder) \<Rightarrow> 'a \<Rightarrow> 'a list \<Rightarrow> 'a" where
  "min_by f x xs = foldl (\<lambda>b y. if f y < f b then y else b) x xs"

lemma min_by_in: "min_by f x xs \<in> set (x # xs)"
  unfolding min_by_def by (induction xs rule: rev_induct) auto

lemma min_by_le: "y \<in> set (x # xs) \<Longrightarrow> f (min_by f x xs) \<le> f y"
  unfolding min_by_def by (induction xs rule: rev_induct) (auto simp: not_less)

lemma min_by_unique:
  "y \<in> set (x # xs) \<Longrightarrow> (\<And>z. z \<in> set (x # xs) \<Longrightarrow> z \<noteq> y \<Longrightarrow> f y < f z) \<Longrightarrow> min_by f x xs = y"
  using min_by_in [of f x xs] min_by_le [of y x xs f] by fastforce

text \<open>Indexing a list with an integer: a negative index counts from the end.\<close>

definition py_nth :: "'a list \<Rightarrow> int \<Rightarrow> 'a res" where
  "py_nth xs i =
     (if i \<ge> 0 \<and> i < int (length xs) then Inr (xs ! nat i)
      else if i < 0 \<and> - i \<le> int (length xs) then Inr (xs ! (length xs - nat (- i)))
      else Inl IndexError)"

definition price_dataset :: string where "price_dataset = ''price.ohlcv''"

text \<open>\<open>str(v)\<close>; \<open>rpr\<close> renders the values whose text the model does not compute (floats and containers).\<close>

definition py_str :: "(pyval \<Rightarrow> string) \<Rightarrow> pyval \<Rightarrow> string" where
  "py_str rpr v =
     (case v of PStr s \<Rightarrow> s | PNone \<Rightarrow> ''None'' | PBool b \<Rightarrow> (if b then ''True'' else ''False'')
      | PInt n \<Rightarrow> int_str n | _ \<Rightarrow> rpr v)"

lemma py_str_PStr [simp]: "py_str rpr (PStr s) = s"
  by (simp add: py_str_def)

fun is_none :: "pyval \<Rightarrow> bool" where
  "is_none PNone \<longleftrightarrow> True"
| "is_none _ \<longleftrightarrow> False"

section \<open>Splitting\<close>

text \<open>\<open>s.split(c)\<close> with an explicit one-character separator: empty pieces are kept.\<close>

fun split_on :: "char \<Rightarrow> string \<Rightarrow> string list" where
  "split_on c [] = [[]]"
| "split_on c (x # xs) =
     (if x = c then [] # split_on c xs
      else (case split_on c xs of [] \<Rightarrow> [[x]] | p # ps \<Rightarrow> (x # p) # ps))"

lemma split_on_ne [simp]: "split_on c s \<noteq> []"
  by (cases s) (auto split: list.split)

section \<open>Dates and timestamps\<close>

definition fixed_number :: "nat \<Rightarrow> string \<Rightarrow> int option" where
  "fixed_number w s = (if length s = w \<and> list_all is_digit s then Some (int (digits_val s)) else None)"

definition valid_ymd :: "int \<Rightarrow> int \<Rightarrow> int \<Rightarrow> bool" where
  "valid_ymd y m d \<longleftrightarrow> 1 \<le> y \<and> y \<le> 9999 \<and> 1 \<le> m \<and> m \<le> 12 \<and> 1 \<le> d
     \<and> d \<le> month_lengths (is_leap y) ! nat (m - 1)"

text \<open>\<open>date.fromisoformat\<close> on the extended form \<open>YYYY-MM-DD\<close>, and \<open>strptime(s, "%Y%m%d")\<close> on eight digits.\<close>

definition date_of_fields :: "string \<Rightarrow> string \<Rightarrow> string \<Rightarrow> pydate res" where
  "date_of_fields ys ms ds =
     (case (fixed_number 4 ys, fixed_number 2 ms, fixed_number 2 ds) of
        (Some y, Some m, Some d) \<Rightarrow> if valid_ymd y m d then Inr (ymd2ord (y, m, d)) else Inl ValueError
      | _ \<Rightarrow> Inl ValueError)"

definition parse_date :: "string \<Rightarrow> pydate res" where
  "parse_date s =
     (if length s = 10 \<and> s ! 4 = CHR ''-'' \<and> s ! 7 = CHR ''-''
      then date_of_fields (take 4 s) (take 2 (drop 5 s)) (drop 8 s) else Inl ValueError)"

definition parse_date8 :: "string \<Rightarrow> pydate res" where
  "parse_date8 s =
     (if length s = 8 then date_of_fields (take 4 s) (take 2 (drop 4 s)) (drop 6 s) else Inl ValueError)"

text \<open>\<open>HH:MM:SS\<close> with an optional fraction of six digits, in microseconds.\<close>

definition parse_clock :: "string \<Rightarrow> int res" where
  "parse_clock s =
     (if 8 \<le> length s \<and> s ! 2 = CHR '':'' \<and> s ! 5 = CHR '':'' then
        (case (fixed_number 2 (take 2 s), fixed_number 2 (take 2 (drop 3 s)),
               fixed_number 2 (take 2 (drop 6 s)),
               if length s = 8 then Some 0
               else if s ! 8 = CHR ''.'' then fixed_number 6 (drop 9 s) else None) of
           (Some h, Some m, Some c, Some us) \<Rightarrow>
             if h < 24 \<and> m < 60 \<and> c < 60 then Inr ((h * 3600 + m * 60 + c) * us_second + us)
             else Inl ValueError
         | _ \<Rightarrow> Inl ValueError)
      else Inl ValueError)"

definition parse_offset :: "string \<Rightarrow> timedelta res" where
  "parse_offset s =
     (if length s = 6 \<and> (s ! 0 = CHR ''+'' \<or> s ! 0 = CHR ''-'') \<and> s ! 3 = CHR '':'' then
        (case (fixed_number 2 (take 2 (drop 1 s)), fixed_number 2 (drop 4 s)) of
           (Some h, Some m) \<Rightarrow>
             if h < 24 \<and> m < 60
             then Inr ((if s ! 0 = CHR ''-'' then - 1 else 1) * (h * us_hour + m * us_minute))
             else Inl ValueError
         | _ \<Rightarrow> Inl ValueError)
      else Inl ValueError)"

text \<open>
  \<open>datetime.fromisoformat\<close> on the forms \<open>isoformat\<close> writes: a date, a date and a clock time, or
  both with an offset.  The basic and week-date forms that newer Python versions accept are
  left out.
\<close>

definition is_sign :: "char \<Rightarrow> bool" where
  "is_sign c \<longleftrightarrow> c = CHR ''+'' \<or> c = CHR ''-''"

definition fromisoformat :: "string \<Rightarrow> pydatetime res" where
  "fromisoformat s =
     (case parse_date (take 10 s) of
        Inl e \<Rightarrow> Inl e
      | Inr d \<Rightarrow>
          if drop 10 s = [] then Inr (Naive ((d - 1) * us_day))
          else
            let rest = drop 11 s; clk = takeWhile (\<lambda>c. \<not> is_sign c) rest;
                off = dropWhile (\<lambda>c. \<not> is_sign c) rest
            in (case parse_clock clk of
                  Inl e \<Rightarrow> Inl e
                | Inr tod \<Rightarrow>
                    let l = (d - 1) * us_day + tod
                    in if off = [] then Inr (Naive l)
                       else (case parse_offset off of
                               Inl e \<Rightarrow> Inl e | Inr o1 \<Rightarrow> Inr (Aware l o1))))"

section \<open>Reading back what was rendered\<close>

lemma is_digit_digit [simp]: "n < 10 \<Longrightarrow> is_digit (digit n)"
  by (simp add: is_digit_def digit_val_def of_char_digit Let_def)

lemma digit_val_digit [simp]: "n < 10 \<Longrightarrow> digit_val (digit n) = Some n"
  by (simp add: digit_val_def of_char_digit Let_def)

lemma pad_digits [simp]: "list_all is_digit (pad w n)"
  by (induction w arbitrary: n) (simp_all add: nat_less_iff)

lemma digits_val_snoc: "digits_val (s @ [c]) =
    10 * digits_val s + (case digit_val c of Some d \<Rightarrow> d | None \<Rightarrow> 0)"
  by (simp add: digits_val_def)

lemma digits_val_pad: "0 \<le> n \<Longrightarrow> n < 10 ^ w \<Longrightarrow> int (digits_val (pad w n)) = n"
proof (induction w arbitrary: n)
  case 0
  then show ?case by (simp add: digits_val_def)
next
  case (Suc w)
  then have "int (digits_val (pad w (n div 10))) = n div 10" by (intro Suc.IH) auto
  moreover have "nat (n mod 10) < 10" by (simp add: nat_less_iff)
  ultimately show ?case by (simp add: digits_val_snoc)
qed

lemma fixed_number_pad: "0 \<le> n \<Longrightarrow> n < 10 ^ w \<Longrightarrow> fixed_number w (pad w n) = Some n"
  by (simp add: fixed_number_def digits_val_pad)

lemma find_month_fits:
  assumes "find_month ls m0 d = (m, dd)" "d < sum_list ls" "0 \<le> d"
  shows "dd \<le> ls ! nat (m - m0)"
  using assms
proof (induction ls m0 d rule: find_month.induct)
  case (3 l k ls m0 d)
  show ?case
  proof (cases "d < l")
    case True
    with "3.prems" show ?thesis by auto
  next
    case False
    with "3.prems" have fm: "find_month (k # ls) (m0 + 1) (d - l) = (m, dd)" by simp
    have "dd \<le> (k # ls) ! nat (m - (m0 + 1))"
      using "3.IH" False fm "3.prems" by simp
    moreover have "m0 + 1 \<le> m" using find_month_sum [OF fm] by simp
    then have "nat (m - m0) = Suc (nat (m - (m0 + 1)))" by simp
    ultimately show ?thesis by simp
  qed
qed auto

lemma ord2ymd_valid:
  assumes n: "1 \<le> n" "n \<le> 3652059" and o: "ord2ymd n = (y, m, dd)"
  shows "valid_ymd y m dd"
proof -
  have y: "y < 10000" using date_fields_bound [OF n o] by simp
  have md: "1 \<le> m" "m \<le> 12" "1 \<le> dd" using ord2ymd_month_day [OF o] by simp_all
  have "1 \<le> y \<and> dd \<le> month_lengths (is_leap y) ! nat (m - 1)"
  proof (rule ord2ymd_form [of n])
    fix a ra b rb c rc d rd z :: int
    assume parts: "n - 1 = a * 146097 + ra" "ra = b * 36524 + rb" "rb = c * 1461 + rc"
      "rc = d * 365 + rd" "0 \<le> ra" "ra < 146097" "0 \<le> rb" "rb < 36524" "0 \<le> rc" "rc < 1461"
      "0 \<le> rd" "rd < 365" "z = a * 400 + b * 100 + c * 4 + d + 1"
      and f: "ord2ymd n = (if d = 4 \<or> b = 4 then (z - 1, 12, 31)
                  else (z, find_month (month_lengths (is_leap z)) 1 rd))"
    have pos: "0 \<le> a" "0 \<le> b" "0 \<le> c" "0 \<le> d" using parts n(1) by linarith+
    show ?thesis
    proof (cases "d = 4 \<or> b = 4")
      case True
      then have "y = z - 1" "m = 12" "dd = 31" using f o by auto
      moreover have "1 \<le> z - 1" using True pos parts(13) by auto
      ultimately show ?thesis by (simp add: month_lengths_def)
    next
      case False
      then have fm: "find_month (month_lengths (is_leap y)) 1 rd = (m, dd)" and yz: "y = z"
        using f o by auto
      have "rd < sum_list (month_lengths (is_leap y))" using parts(12) by (simp add: month_lengths_def)
      from find_month_fits [OF fm this parts(11)] show ?thesis using yz pos parts(13) by simp
    qed
  qed
  then show ?thesis using y md by (simp add: valid_ymd_def)
qed

lemma date_of_fields_ord:
  assumes n: "1 \<le> n" "n \<le> 3652059" and o: "ord2ymd n = (y, m, d)"
  shows "date_of_fields (pad 4 y) (pad 2 m) (pad 2 d) = Inr n"
proof -
  have v: "valid_ymd y m d" by (rule ord2ymd_valid [OF n o])
  have b: "0 \<le> y \<and> y < 10000 \<and> 0 \<le> m \<and> m < 100 \<and> 0 \<le> d \<and> d < 100"
    by (rule date_fields_bound [OF n o])
  have "fixed_number 4 (pad 4 y) = Some y" "fixed_number 2 (pad 2 m) = Some m"
    "fixed_number 2 (pad 2 d) = Some d"
    using b by (simp_all add: fixed_number_pad del: pad.simps)
  then show ?thesis
    using v ord2ymd_ymd2ord [of n] o by (simp add: date_of_fields_def)
qed

lemma nth_append_len: "n = length xs \<Longrightarrow> (xs @ y # ys) ! n = y"
  by simp

lemma parse_date_date_iso:
  assumes n: "1 \<le> n" "n \<le> 3652059"
  shows "parse_date (date_iso n) = Inr n"
proof -
  obtain y m d where o: "ord2ymd n = (y, m, d)" by (metis surj_pair)
  have e: "date_iso n = pad 4 y @ CHR ''-'' # pad 2 m @ CHR ''-'' # pad 2 d"
    by (simp add: date_iso_def o)
  have i4: "date_iso n ! 4 = CHR ''-''" unfolding e by (rule nth_append_len) simp
  have "date_iso n = (pad 4 y @ CHR ''-'' # pad 2 m) @ CHR ''-'' # pad 2 d" unfolding e by simp
  then have i7: "date_iso n ! 7 = CHR ''-''" by (simp only:) (rule nth_append_len, simp)
  have "take 4 (date_iso n) = pad 4 y" "take 2 (drop 5 (date_iso n)) = pad 2 m"
    "drop 8 (date_iso n) = pad 2 d"
    unfolding e by (simp_all add: drop_Cons' del: pad.simps)
  then show ?thesis
    unfolding parse_date_def by (simp add: i4 i7 date_of_fields_ord [OF n o] del: pad.simps)
qed

lemma parse_clock_render:
  assumes s: "0 \<le> s" "s < 86400" and u: "0 \<le> u" "u < us_second"
  shows "parse_clock (pad 2 (s div 3600) @ '':'' @ pad 2 (s div 60 mod 60) @ '':'' @ pad 2 (s mod 60)
      @ (if u = 0 then [] else ''.'' @ pad 6 u)) = Inr (s * us_second + u)"
    (is "parse_clock ?t = _")
proof -
  let ?h = "s div 3600" and ?m = "s div 60 mod 60" and ?c = "s mod 60"
  have h: "0 \<le> ?h" "?h < 24" using s by (simp_all add: pos_imp_zdiv_nonneg_iff)
  have m: "0 \<le> ?m" "?m < 60" "0 \<le> ?c" "?c < 60" by simp_all
  have f: "fixed_number 2 (pad 2 ?h) = Some ?h" "fixed_number 2 (pad 2 ?m) = Some ?m"
    "fixed_number 2 (pad 2 ?c) = Some ?c" "fixed_number 6 (pad 6 u) = Some u"
    using h m u by (simp_all add: fixed_number_pad del: pad.simps)
  define w where "w = (if u = 0 then [] else CHR ''.'' # pad 6 u)"
  have t: "?t = pad 2 ?h @ CHR '':'' # pad 2 ?m @ CHR '':'' # pad 2 ?c @ w"
    by (simp add: w_def)
  have i2: "?t ! 2 = CHR '':''" unfolding t by (rule nth_append_len) simp
  have "?t = (pad 2 ?h @ CHR '':'' # pad 2 ?m) @ CHR '':'' # pad 2 ?c @ w" unfolding t by simp
  then have i5: "?t ! 5 = CHR '':''" by (simp only:) (rule nth_append_len, simp)
  have parts: "take 2 ?t = pad 2 ?h" "take 2 (drop 3 ?t) = pad 2 ?m" "take 2 (drop 6 ?t) = pad 2 ?c"
    "drop 8 ?t = w"
    unfolding t by (simp_all add: drop_Cons' del: pad.simps)
  have len: "length ?t = 8 + length w" unfolding t by simp
  have tail: "(if length ?t = 8 then Some 0
      else if ?t ! 8 = CHR ''.'' then fixed_number 6 (drop 9 ?t) else None) = Some u"
  proof (cases "u = 0")
    case True
    then show ?thesis using len by (simp add: w_def)
  next
    case False
    then have w: "w = CHR ''.'' # pad 6 u" by (simp add: w_def)
    have "?t ! 8 = CHR ''.''" using parts(4) w len by (metis Cons_nth_drop_Suc list.sel(1)
          less_add_same_cancel1 length_greater_0_conv list.distinct(1))
    moreover have "drop 9 ?t = pad 6 u"
    proof -
      have "drop 9 ?t = drop 1 (drop 8 ?t)" by simp
      then show ?thesis unfolding parts(4) w by simp
    qed
    ultimately show ?thesis using len w f(4) by simp
  qed
  have "s = ?h * 3600 + ?m * 60 + ?c"
  proof -
    have "s div 60 div 60 = ?h" using zdiv_zmult2_eq [of 60 s 60] by simp
    then have "s div 60 = ?h * 60 + ?m" by (metis div_mult_mod_eq)
    moreover have "s = s div 60 * 60 + s mod 60" by simp
    ultimately show ?thesis by linarith
  qed
  then have val: "(?h * 3600 + ?m * 60 + ?c) * us_second + u = s * us_second + u" by simp
  have cond: "8 \<le> length ?t \<and> ?t ! 2 = CHR '':'' \<and> ?t ! 5 = CHR '':''"
    using i2 i5 by (intro conjI) (simp_all only: len le_add1)
  show ?thesis
    unfolding parse_clock_def if_P [OF cond] tail parts(1-3) f
    using h(2) m val by simp
qed

lemma digit_not_sign: "list_all is_digit s \<Longrightarrow> c \<in> set s \<Longrightarrow> \<not> is_sign c"
proof -
  assume "list_all is_digit s" "c \<in> set s"
  then have "is_digit c" by (simp add: list_all_iff)
  moreover have "\<not> is_digit CHR ''+''" "\<not> is_digit CHR ''-''"
    by (simp_all add: is_digit_def digit_val_def)
  ultimately show ?thesis by (auto simp: is_sign_def)
qed

lemma pad_not_sign: "c \<in> set (pad w n) \<Longrightarrow> \<not> is_sign c"
  by (rule digit_not_sign [OF pad_digits])

lemma fromisoformat_isoformat_core:
  assumes v: "valid_dt t"
  shows "fromisoformat (isoformat t) = Inr (Aware t 0)"
proof -
  define s where "s = dt_tod t div us_second"
  define u where "u = dt_tod t mod us_second"
  define clk where "clk = pad 2 (s div 3600) @ '':'' @ pad 2 (s div 60 mod 60) @ '':'' @ pad 2 (s mod 60)
      @ (if u = 0 then [] else ''.'' @ pad 6 u)"
  have sb: "0 \<le> s" "s < 86400" "0 \<le> u" "u < us_second"
    unfolding s_def u_def using dt_tod_bounds [of t] by (auto simp: pos_imp_zdiv_nonneg_iff)
  have clock: "parse_clock clk = Inr (dt_tod t)"
    unfolding clk_def parse_clock_render [OF sb] by (simp add: s_def u_def)
  have e: "isoformat t = date_iso (dt_date t) @ CHR ''T'' # clk @ ''+00:00''"
    by (simp add: isoformat_def Let_def clk_def s_def u_def)
  have nosign: "\<forall>c \<in> set clk. \<not> is_sign c"
    unfolding clk_def by (auto simp: is_sign_def dest: pad_not_sign simp del: pad.simps split: if_splits)
  have plus: "is_sign CHR ''+''" by (simp add: is_sign_def)
  have tw: "takeWhile (\<lambda>c. \<not> is_sign c) (clk @ ''+00:00'') = clk"
    "dropWhile (\<lambda>c. \<not> is_sign c) (clk @ ''+00:00'') = ''+00:00''"
    using nosign plus by (simp_all add: takeWhile_append dropWhile_append)
  have off: "parse_offset ''+00:00'' = Inr 0"
    by (simp add: parse_offset_def fixed_number_def is_digit_def digit_val_def digits_val_def)
  have parts: "take 10 (isoformat t) = date_iso (dt_date t)" "drop 10 (isoformat t) \<noteq> []"
    "drop 11 (isoformat t) = clk @ ''+00:00''"
    unfolding e by simp_all
  show ?thesis
    unfolding fromisoformat_def parts Let_def tw
    using parts(2) parse_date_date_iso valid_dt_date [OF v] clock off dt_split [of t, symmetric]
    by simp
qed

text \<open>Persisted timestamps survive: for every representable instant, reading back its
  \<open>isoformat()\<close> text with \<open>fromisoformat\<close> and normalising it returns that instant.\<close>

theorem fromisoformat_isoformat:
  "valid_dt t \<Longrightarrow> fromisoformat (isoformat t) = Inr (Aware t 0) \<and> to_utc_lenient (Aware t 0) = t"
  by (simp add: fromisoformat_isoformat_core)

lemma fromisoformat_isoformat_witness:
  "fromisoformat (isoformat 63000000000000000) = Inr (Aware 63000000000000000 0)"
  using fromisoformat_isoformat [of 63000000000000000] by (simp add: valid_dt_def)

end
