(* ===== verification/Validation.thy ===== *)
theory Validation
  imports Store Parse
begin

text \<open>
  The validation tools of \<open>backtest/\<close>: the sealed holdout ledger (\<open>holdout.py\<close>), the
  time-respecting splitters (\<open>splitters.py\<close>), the cost models (\<open>costs.py\<close>) and the family-wise
  corrections (\<open>multiple_testing.py\<close>).

  Third-party and special functions are parameters: \<open>array_split\<close> is numpy's, of which the code
  relies on the pieces being consecutive; \<open>cdf\<close> and \<open>inv_cdf\<close> are those of the standard normal
  distribution, of which it relies on monotonicity and on one inverting the other.
\<close>

section \<open>holdout.py\<close>

definition holdout_ledger_dataset :: string where
  "holdout_ledger_dataset = ''validation.holdout_ledger''"

record holdout_look =
  hl_signal :: string
  hl_decided_at :: datetime
  hl_n_dates :: int
  hl_mean_ic :: flt
  hl_t_stat :: flt
  hl_passed :: bool

definition holdout_start ::
  "'s store_ops \<Rightarrow> 's \<Rightarrow> datetime \<Rightarrow> real \<Rightarrow> datetime option res" where
  "holdout_start S s as_of share =
     (let dates = sorted_list_of_set (o_event_time ` set (st_as_of S s as_of (q_of_dataset price_dataset)))
      in if length dates < 2 then Inr None
         else (case py_int (Fin (real (length dates) * (1 - share))) of
             Inl e \<Rightarrow> Inl e
           | Inr cutoff \<Rightarrow>
               (case py_nth dates (min cutoff (int (length dates) - 1)) of
                  Inl e \<Rightarrow> Inl e
                | Inr d \<Rightarrow> Inr (Some d))))"

definition look_of :: "string \<Rightarrow> observation \<Rightarrow> holdout_look res" where
  "look_of signal x =
     (case to_int (dict_get (PInt 0) (o_value x) ''n_dates'') of Inl e \<Rightarrow> Inl e | Inr n \<Rightarrow>
      case to_float (dict_get (PFloat 0) (o_value x) ''mean_ic'') of Inl e \<Rightarrow> Inl e | Inr ic \<Rightarrow>
      case to_float (dict_get (PFloat 0) (o_value x) ''t_stat'') of Inl e \<Rightarrow> Inl e | Inr t \<Rightarrow>
        Inr \<lparr>hl_signal = signal, hl_decided_at = o_event_time x, hl_n_dates = n, hl_mean_ic = ic,
             hl_t_stat = t, hl_passed = truthy (dict_get (PBool False) (o_value x) ''passed'')\<rparr>)"

definition ledger_rows :: "'s store_ops \<Rightarrow> 's \<Rightarrow> string \<Rightarrow> datetime \<Rightarrow> observation list" where
  "ledger_rows S s signal as_of =
     filter (\<lambda>x. o_entity_id x = signal) (st_as_of S s as_of (q_of_dataset holdout_ledger_dataset))"

text \<open>The caller's \<open>as_of\<close>, or the clock \<open>now\<close> when it passes none.\<close>

definition prior_look ::
  "'s store_ops \<Rightarrow> datetime \<Rightarrow> 's \<Rightarrow> string \<Rightarrow> datetime option \<Rightarrow> holdout_look option res" where
  "prior_look S now s signal as_of =
     (case ledger_rows S s signal (case as_of of None \<Rightarrow> now | Some t \<Rightarrow> t) of
        [] \<Rightarrow> Inr None
      | x # xs \<Rightarrow> (case look_of signal (min_by o_event_time x xs) of
                    Inl e \<Rightarrow> Inl e | Inr l \<Rightarrow> Inr (Some l)))"

definition look_observation :: "datetime \<Rightarrow> holdout_look \<Rightarrow> observation" where
  "look_observation now l =
     with_deterministic_id (new_obs now ''validation'' holdout_ledger_dataset ''signal''
       (hl_signal l) (Some (''holdout:'' @ date_iso (dt_date (hl_decided_at l))))
       (hl_decided_at l) (hl_decided_at l)
       [(''n_dates'', PInt (hl_n_dates l)), (''mean_ic'', PFloat (hl_mean_ic l)),
        (''t_stat'', PFloat (hl_t_stat l)), (''passed'', PBool (hl_passed l))] [])"

definition record_look :: "'s store_ops \<Rightarrow> datetime \<Rightarrow> holdout_look \<Rightarrow> 's \<Rightarrow> 's" where
  "record_look S now l s = st_upsert S [look_observation now l] s"

definition confirm_on_holdout ::
  "'s store_ops \<Rightarrow> datetime \<Rightarrow> holdout_look \<Rightarrow> 's \<Rightarrow> 's \<times> (holdout_look \<times> bool) res" where
  "confirm_on_holdout S now candidate s =
     (case prior_look S now s (hl_signal candidate) (Some (hl_decided_at candidate)) of
        Inl e \<Rightarrow> (s, Inl e)
      | Inr (Some existing) \<Rightarrow> (s, Inr (existing, True))
      | Inr None \<Rightarrow> (record_look S now candidate s, Inr (candidate, False)))"

section \<open>splitters.py\<close>

definition positions :: "int \<Rightarrow> int \<Rightarrow> int list" where
  "positions a b = [a..b - 1]"

function walk_from ::
  "int \<Rightarrow> int \<Rightarrow> int \<Rightarrow> int \<Rightarrow> bool \<Rightarrow> int \<Rightarrow> (int list \<times> int list) list" where
  "walk_from n train_size test_size step expanding pos =
     (if step \<le> 0 \<or> n < train_size + pos + test_size then []
      else (positions (if expanding then 0 else pos) (train_size + pos),
            positions (train_size + pos) (train_size + pos + test_size))
           # walk_from n train_size test_size step expanding (pos + step))"
  by auto
termination
  by (relation "measure (\<lambda>(n, a, b, s, e, p). nat (n - p - a - b + 1))") auto

definition walk_forward ::
  "int \<Rightarrow> int \<Rightarrow> int \<Rightarrow> int option \<Rightarrow> bool \<Rightarrow> (int list \<times> int list) list res" where
  "walk_forward n_samples train_size test_size step expanding =
     (if train_size \<le> 0 \<or> test_size \<le> 0 then Inl ValueError
      else let st = (case step of None \<Rightarrow> test_size | Some k \<Rightarrow> k)
           in if st \<le> 0 then Inl ValueError
              else Inr (walk_from n_samples train_size test_size st expanding 0))"

definition purged_train :: "int list \<Rightarrow> int list \<Rightarrow> int \<Rightarrow> nat list \<Rightarrow> nat list" where
  "purged_train a0 a1 embargo_n test =
     (let test_start = Min ((\<lambda>i. a0 ! i) ` set test);
          test_end = Max ((\<lambda>i. a1 ! i) ` set test);
          right = Suc (Max (set test))
      in filter (\<lambda>i. \<not> (test_start \<le> a1 ! i \<and> a0 ! i \<le> test_end) \<and> i \<notin> set test
               \<and> \<not> (0 < embargo_n \<and> right \<le> i \<and> int i < int right + embargo_n)) [0..<length a0])"

definition purged_split ::
  "(nat list \<Rightarrow> int \<Rightarrow> nat list list) \<Rightarrow> int \<Rightarrow> real \<Rightarrow> int list \<Rightarrow> int list
   \<Rightarrow> (nat list \<times> nat list) list res" where
  "purged_split array_split n_splits embargo a0 a1 =
     (if length a0 \<noteq> length a1 then Inl ValueError
      else if \<exists>i < length a0. a1 ! i < a0 ! i then Inl ValueError
      else if n_splits < 2 then Inl ValueError
      else let n = length a0; embargo_n = round_half_even (real n * embargo)
           in Inr (map (\<lambda>test. (purged_train a0 a1 embargo_n test, test))
                (filter (\<lambda>test. test \<noteq> []) (array_split [0..<n] n_splits))))"

section \<open>costs.py\<close>

definition one_way_turnover ::
  "('k, 'a :: {comm_monoid_add, minus, abs}) dict \<Rightarrow> ('k, 'a) dict \<Rightarrow> 'a" where
  "one_way_turnover prev new =
     (\<Sum>s \<in> set (keys prev) \<union> set (keys new). \<bar>dict_get 0 new s - dict_get 0 prev s\<bar>)"

record cost_model =
  cm_commission_bps :: flt
  cm_half_spread_bps :: flt
  cm_slippage_bps :: flt

definition default_costs :: cost_model where
  "default_costs = \<lparr>cm_commission_bps = 1, cm_half_spread_bps = 2, cm_slippage_bps = 1\<rparr>"

definition turnover_cost :: "cost_model \<Rightarrow> (string, flt) dict \<Rightarrow> (string, flt) dict \<Rightarrow> flt" where
  "turnover_cost m prev new =
     (let bps = cm_commission_bps m + cm_half_spread_bps m + cm_slippage_bps m
      in one_way_turnover prev new * bps * Fin (1 / 10000))"

definition basic_holding_cost :: "(string, flt) dict \<Rightarrow> int \<Rightarrow> flt" where
  "basic_holding_cost ws n = 0"

definition borrow_holding_cost :: "flt \<Rightarrow> (string, flt) dict \<Rightarrow> int \<Rightarrow> flt" where
  "borrow_holding_cost annual_borrow_bps ws n =
     (let short_notional = sum_list (map (\<lambda>w. - w) (filter (\<lambda>w. w < 0) (vals ws)))
      in short_notional * (annual_borrow_bps * Fin (1 / 10000)) * Fin (of_int n / 365))"

definition zero_cost :: "(string, flt) dict \<Rightarrow> (string, flt) dict \<Rightarrow> flt" where
  "zero_cost prev new = 0"

text \<open>The \<open>CostModel\<close> protocol and its three implementations.\<close>

record costs =
  co_turnover :: "(string, flt) dict \<Rightarrow> (string, flt) dict \<Rightarrow> flt"
  co_holding :: "(string, flt) dict \<Rightarrow> int \<Rightarrow> flt"

definition basic_costs :: "cost_model \<Rightarrow> costs" where
  "basic_costs m = \<lparr>co_turnover = turnover_cost m, co_holding = basic_holding_cost\<rparr>"

definition borrow_costs :: "cost_model \<Rightarrow> flt \<Rightarrow> costs" where
  "borrow_costs m bps = \<lparr>co_turnover = turnover_cost m, co_holding = borrow_holding_cost bps\<rparr>"

definition zero_costs :: costs where
  "zero_costs = \<lparr>co_turnover = zero_cost, co_holding = basic_holding_cost\<rparr>"

section \<open>multiple_testing.py\<close>

text \<open>An infinite statistic has the p-value 0; \<open>summarize_ic\<close> never computes a NaN one.\<close>

definition normal_two_sided_p :: "(real \<Rightarrow> real) \<Rightarrow> flt \<Rightarrow> real" where
  "normal_two_sided_p cdf t = (case t of Fin r \<Rightarrow> 2 * (1 - cdf \<bar>r\<bar>) | _ \<Rightarrow> 0)"

definition bonferroni_t_threshold :: "(real \<Rightarrow> real) \<Rightarrow> int \<Rightarrow> real \<Rightarrow> real" where
  "bonferroni_t_threshold inv_cdf n_trials alpha =
     (let m = max 1 n_trials in inv_cdf (1 - alpha / (2 * of_int m)))"

fun bh_cutoff :: "real \<Rightarrow> real \<Rightarrow> nat \<Rightarrow> nat \<Rightarrow> real list \<Rightarrow> nat" where
  "bh_cutoff m alpha i k [] = k"
| "bh_cutoff m alpha i k (p # ps) =
     bh_cutoff m alpha (Suc i) (if p \<le> real i / m * alpha then i else k) ps"

definition benjamini_hochberg :: "(string, real) dict \<Rightarrow> real \<Rightarrow> (string, bool) dict" where
  "benjamini_hochberg pvalues alpha =
     (let items = sort_key snd pvalues; m = length items
      in if m = 0 then []
         else let k = bh_cutoff (real m) alpha 1 0 (vals items);
                  significant = set (keys (take k items))
              in map (\<lambda>(name, _). (name, name \<in> significant)) pvalues)"

record family_result =
  fr_n_trials :: int
  fr_alpha :: real
  fr_bonferroni_t :: real
  fr_pvalues :: "(string, real) dict"
  fr_bonferroni :: "(string, bool) dict"
  fr_fdr :: "(string, bool) dict"

definition correct_family ::
  "(real \<Rightarrow> real) \<Rightarrow> (real \<Rightarrow> real) \<Rightarrow> (string, flt) dict \<Rightarrow> real \<Rightarrow> family_result" where
  "correct_family cdf inv_cdf t_stats alpha =
     (let m = int (length t_stats);
          bonf_t = bonferroni_t_threshold inv_cdf m alpha;
          pvals = map (\<lambda>(name, t). (name, normal_two_sided_p cdf t)) t_stats;
          bonf = map (\<lambda>(name, t). (name, Fin bonf_t \<le> \<bar>t\<bar>)) t_stats
      in \<lparr>fr_n_trials = m, fr_alpha = alpha, fr_bonferroni_t = bonf_t, fr_pvalues = pvals,
          fr_bonferroni = bonf, fr_fdr = benjamini_hochberg pvals alpha\<rparr>)"

section \<open>The holdout ledger\<close>

definition in_ledger :: "string \<Rightarrow> observation \<Rightarrow> bool" where
  "in_ledger signal x \<longleftrightarrow> o_dataset x = holdout_ledger_dataset \<and> o_entity_id x = signal"

text \<open>Looks are stamped with one time for both clocks.\<close>

definition ledger_stamped :: "(uuid \<rightharpoonup> observation) \<Rightarrow> bool" where
  "ledger_stamped m \<longleftrightarrow>
     (\<forall>x \<in> ran m. o_dataset x = holdout_ledger_dataset \<longrightarrow> o_knowledge_time x = o_event_time x)"

definition looked_by :: "(uuid \<rightharpoonup> observation) \<Rightarrow> string \<Rightarrow> datetime \<Rightarrow> bool" where
  "looked_by m signal t \<longleftrightarrow> (\<exists>x \<in> ran m. in_ledger signal x \<and> o_knowledge_time x \<le> t)"

lemma look_observation_fields [simp]:
  "o_dataset (look_observation now l) = holdout_ledger_dataset"
  "o_entity_id (look_observation now l) = hl_signal l"
  "o_event_time (look_observation now l) = hl_decided_at l"
  "o_knowledge_time (look_observation now l) = hl_decided_at l"
  "o_value (look_observation now l) = [(''n_dates'', PInt (hl_n_dates l)),
     (''mean_ic'', PFloat (hl_mean_ic l)), (''t_stat'', PFloat (hl_t_stat l)),
     (''passed'', PBool (hl_passed l))]"
  by (simp_all add: look_observation_def)

lemma look_of_observation: "look_of (hl_signal l) (look_observation now l) = Inr l"
  by (simp add: look_of_def)

lemma visible_ledger:
  "visible t (q_of_dataset holdout_ledger_dataset) x \<longleftrightarrow>
     o_dataset x = holdout_ledger_dataset \<and> o_knowledge_time x \<le> t"
  by (auto simp: visible_def q_of_dataset_def q_all_def admits_def)

context bitemporal_store
begin

lemma ledger_rows_in:
  "inv s \<Longrightarrow> x \<in> set (ledger_rows S s signal t) \<Longrightarrow>
     x \<in> ran (rows s) \<and> in_ledger signal x \<and> o_knowledge_time x \<le> t"
  using as_of_admitted [of s x t "q_of_dataset holdout_ledger_dataset"]
  by (auto simp: ledger_rows_def in_ledger_def visible_ledger)

lemma ledger_rows_key:
  assumes "inv s" "x \<in> ran (rows s)" "in_ledger signal x" "o_knowledge_time x \<le> t"
  shows "\<exists>v \<in> set (ledger_rows S s signal t). o_event_time v = o_event_time x"
proof -
  let ?q = "q_of_dataset holdout_ledger_dataset"
  have q1: "q_latest ?q" by (simp add: q_of_dataset_def q_all_def)
  have q2: "visible t ?q x" using assms(3,4) by (simp add: visible_ledger in_ledger_def)
  obtain v where v: "v \<in> set (st_as_of S s t ?q)" "logical_key v = logical_key x"
    using as_of_supersedes [OF assms(1) q1 assms(2) q2] by blast
  then have "o_entity_id v = signal" "o_event_time v = o_event_time x"
    using assms(3) by (auto simp: logical_key_def in_ledger_def)
  with v(1) show ?thesis by (auto simp: ledger_rows_def)
qed

lemma ledger_rows_empty: "inv s \<Longrightarrow> ledger_rows S s signal t = [] \<longleftrightarrow> \<not> looked_by (rows s) signal t"
  using ledger_rows_in ledger_rows_key unfolding looked_by_def
  by (metis list.set_intros(1) neq_Nil_conv empty_iff list.set(1))

lemma prior_look_none:
  "inv s \<Longrightarrow> prior_look S now s signal (Some t) = Inr None \<longleftrightarrow> \<not> looked_by (rows s) signal t"
  using ledger_rows_empty [of s signal t]
  by (auto simp: prior_look_def split: list.split sum.split)

lemma rows_record:
  "inv s \<Longrightarrow> rows (record_look S now l s) = (rows s)(o_id (look_observation now l) \<mapsto> look_observation now l)"
  by (simp add: record_look_def rows_upsert put_all_def)

lemma record_look_inv: "inv s \<Longrightarrow> inv (record_look S now l s)"
  by (simp add: record_look_def inv_upsert)

lemma record_look_rows:
  "inv s \<Longrightarrow> x \<in> ran (rows (record_look S now l s)) \<Longrightarrow> x = look_observation now l \<or> x \<in> ran (rows s)"
  by (auto simp: rows_record ran_def split: if_splits)

lemma record_look_stamped:
  "inv s \<Longrightarrow> ledger_stamped (rows s) \<Longrightarrow> ledger_stamped (rows (record_look S now l s))"
  unfolding ledger_stamped_def using record_look_rows by fastforce

lemma prior_look_recorded:
  assumes "inv s" "ledger_stamped (rows s)" "\<not> looked_by (rows s) (hl_signal l) (hl_decided_at l)"
    and "hl_decided_at l \<le> t"
  shows "prior_look S now' (record_look S now l s) (hl_signal l) (Some t) = Inr (Some l)"
proof -
  let ?x = "look_observation now l" and ?s = "record_look S now l s"
  note inv = record_look_inv [OF assms(1), of now l]
  have later: "hl_decided_at l < o_event_time z"
    if z: "z \<in> set (ledger_rows S ?s (hl_signal l) t)" "z \<noteq> ?x" for z
  proof -
    have "z \<in> ran (rows s)" "in_ledger (hl_signal l) z"
      using ledger_rows_in [OF inv z(1)] record_look_rows [OF assms(1)] z(2) by blast+
    moreover from this have "o_knowledge_time z = o_event_time z"
      using assms(2) by (simp add: ledger_stamped_def in_ledger_def)
    ultimately show ?thesis using assms(3) unfolding looked_by_def by (metis not_less)
  qed
  have "?x \<in> ran (rows ?s)" using rows_record [OF assms(1), of now l] by (auto simp: ran_def)
  moreover have "in_ledger (hl_signal l) ?x" by (simp add: in_ledger_def)
  ultimately obtain v where v: "v \<in> set (ledger_rows S ?s (hl_signal l) t)"
    "o_event_time v = hl_decided_at l"
    using ledger_rows_key [OF inv, of ?x "hl_signal l" t] assms(4) by auto
  then have "v = ?x" using later by fastforce
  with v(1) have mem: "?x \<in> set (ledger_rows S ?s (hl_signal l) t)" by simp
  then obtain y ys where ys: "ledger_rows S ?s (hl_signal l) t = y # ys"
    by (cases "ledger_rows S ?s (hl_signal l) t") auto
  have "min_by o_event_time y ys = ?x"
    using mem later unfolding ys by (intro min_by_unique) auto
  then show ?thesis by (simp add: prior_look_def ys look_of_observation)
qed

lemma confirm_first:
  assumes "inv s" "confirm_on_holdout S now c s = (s1, Inr (c', False))"
  shows "\<not> looked_by (rows s) (hl_signal c) (hl_decided_at c) \<and> s1 = record_look S now c s \<and> c' = c"
  using assms prior_look_none [OF assms(1)]
  by (auto simp: confirm_on_holdout_def split: sum.splits option.splits)

end

text \<open>One look.  Once a signal has had its first look on the holdout, confirming it again at the same
  or a later time, with whatever candidate, writes nothing and returns the original look flagged
  as a repeat.\<close>

theorem holdout_is_single_look:
  assumes "bitemporal_store S rows I" "I s" "ledger_stamped (rows s)"
    and "confirm_on_holdout S now c s = (s1, Inr (c', False))"
    and "hl_signal c2 = hl_signal c" "hl_decided_at c \<le> hl_decided_at c2"
  shows "confirm_on_holdout S now2 c2 s1 = (s1, Inr (c, True))"
proof -
  note f = bitemporal_store.confirm_first [OF assms(1,2,4)]
  then have "prior_look S now2 s1 (hl_signal c2) (Some (hl_decided_at c2)) = Inr (Some c)"
    using bitemporal_store.prior_look_recorded [OF assms(1-3) _ assms(6)] assms(5) by simp
  then show ?thesis by (simp add: confirm_on_holdout_def)
qed

definition sample_look :: "datetime \<Rightarrow> int \<Rightarrow> holdout_look" where
  "sample_look t n = \<lparr>hl_signal = ''mom'', hl_decided_at = t, hl_n_dates = n, hl_mean_ic = 0,
     hl_t_stat = 0, hl_passed = True\<rparr>"

lemma empty_ledger: "ledger_stamped (mem_rows mem_empty)" "\<not> looked_by (mem_rows mem_empty) sg t"
  by (simp_all add: ledger_stamped_def looked_by_def mem_rows_def mem_empty_def)

lemma confirm_empty:
  "confirm_on_holdout mem_ops now l mem_empty = (record_look mem_ops now l mem_empty, Inr (l, False))"
  using mem.prior_look_none [OF mem_inv_empty] empty_ledger(2) by (simp add: confirm_on_holdout_def)

lemma holdout_is_single_look_witness:
  "confirm_on_holdout mem_ops 9 (sample_look 8 7) (record_look mem_ops 5 (sample_look 4 3) mem_empty)
   = (record_look mem_ops 5 (sample_look 4 3) mem_empty, Inr (sample_look 4 3, True))"
  by (rule holdout_is_single_look [OF mem.bitemporal_store_axioms mem_inv_empty empty_ledger(1) confirm_empty])
    (simp_all add: sample_look_def)

text \<open>The seal can be broken by backdating.  A second candidate with an earlier decision time is taken
  as a first look, and from then on it is the look the ledger returns: the recorded verdict
  has been replaced.\<close>

theorem backdated_look_replaces_the_seal:
  assumes "bitemporal_store S rows I" "I s" "ledger_stamped (rows s)"
    and "\<not> looked_by (rows s) (hl_signal c) (hl_decided_at c)"
    and "hl_signal c0 = hl_signal c" "hl_decided_at c0 < hl_decided_at c" "hl_decided_at c \<le> t"
  shows "\<exists>s2. confirm_on_holdout S now0 c0 (record_look S now c s) = (s2, Inr (c0, False))
    \<and> prior_look S now' s2 (hl_signal c) (Some t) = Inr (Some c0)"
proof -
  let ?s1 = "record_look S now c s"
  have I1: "I ?s1" using assms(1,2) by (rule bitemporal_store.record_look_inv)
  have st1: "ledger_stamped (rows ?s1)" using assms(1-3) by (rule bitemporal_store.record_look_stamped)
  have no: "\<not> looked_by (rows ?s1) (hl_signal c0) (hl_decided_at c0)"
  proof
    assume "looked_by (rows ?s1) (hl_signal c0) (hl_decided_at c0)"
    then obtain x where x: "x \<in> ran (rows ?s1)" "in_ledger (hl_signal c0) x"
      "o_knowledge_time x \<le> hl_decided_at c0" unfolding looked_by_def by blast
    show False
    proof (cases "x = look_observation now c")
      case True
      then show False using x(3) assms(6) by simp
    next
      case False
      then have "x \<in> ran (rows s)"
        using bitemporal_store.record_look_rows [OF assms(1,2) x(1)] by blast
      then show False using x(2,3) assms(4-6) unfolding looked_by_def by fastforce
    qed
  qed
  then have "prior_look S now0 ?s1 (hl_signal c0) (Some (hl_decided_at c0)) = Inr None"
    using bitemporal_store.prior_look_none [OF assms(1) I1] by blast
  then have "confirm_on_holdout S now0 c0 ?s1 = (record_look S now0 c0 ?s1, Inr (c0, False))"
    by (simp add: confirm_on_holdout_def)
  moreover have "prior_look S now' (record_look S now0 c0 ?s1) (hl_signal c0) (Some t) = Inr (Some c0)"
    using assms(6,7) by (intro bitemporal_store.prior_look_recorded [OF assms(1) I1 st1 no]) simp
  ultimately show ?thesis using assms(5) by auto
qed

lemma backdated_look_replaces_the_seal_witness:
  "\<exists>s2. confirm_on_holdout mem_ops 9 (sample_look 2 7) (record_look mem_ops 5 (sample_look 4 3) mem_empty)
      = (s2, Inr (sample_look 2 7, False))
    \<and> prior_look mem_ops 9 s2 (hl_signal (sample_look 4 3)) (Some 6) = Inr (Some (sample_look 2 7))"
  by (rule backdated_look_replaces_the_seal [OF mem.bitemporal_store_axioms mem_inv_empty empty_ledger(1)])
    (simp_all add: sample_look_def empty_ledger)

section \<open>Splitters\<close>

declare walk_from.simps [simp del]

lemma concat_nonempty: "concat (filter (\<lambda>xs. xs \<noteq> []) xss) = concat xss"
  by (induction xss) auto

lemma set_positions [simp]: "set (positions a b) = {a..<b}"
  by (auto simp: positions_def)

lemma walk_from_windows:
  assumes "0 < a" "0 < b" "0 < st" "0 \<le> pos"
  shows "(\<forall>(train, test) \<in> set (walk_from n a b st e pos).
      (\<forall>i \<in> set train. \<forall>j \<in> set test. i < j) \<and> set train \<union> set test \<subseteq> {0..<n}
      \<and> train \<noteq> [] \<and> int (length test) = b)
    \<and> int (length (walk_from n a b st e pos)) =
        (if n < a + pos + b then 0 else (n - a - pos - b) div st + 1)"
  using assms
proof (induction n a b st e pos rule: walk_from.induct)
  case (1 n a b st e pos)
  show ?case
  proof (cases "n < a + pos + b")
    case True
    then show ?thesis by (simp add: walk_from.simps [of n a b st e pos])
  next
    case False
    let ?rest = "walk_from n a b st e (pos + st)"
    have eq: "walk_from n a b st e pos = (positions (if e then 0 else pos) (a + pos),
        positions (a + pos) (a + pos + b)) # ?rest"
      using False "1.prems"(3) by (simp add: walk_from.simps [of n a b st e pos])
    have IH: "(\<forall>(train, test) \<in> set ?rest.
        (\<forall>i \<in> set train. \<forall>j \<in> set test. i < j) \<and> set train \<union> set test \<subseteq> {0..<n}
        \<and> train \<noteq> [] \<and> int (length test) = b)
      \<and> int (length ?rest) = (if n < a + (pos + st) + b then 0 else (n - a - (pos + st) - b) div st + 1)"
      using "1.IH" False "1.prems" by simp
    have count: "int (length ?rest) = (n - a - pos - b) div st"
    proof (cases "n < a + (pos + st) + b")
      case True
      have "0 \<le> n - a - pos - b" "n - a - pos - b < st" using True False by simp_all
      then have "(n - a - pos - b) div st = 0" by (rule div_pos_pos_trivial)
      with True IH show ?thesis by simp
    next
      case big: False
      have "n - a - pos - b = (n - a - (pos + st) - b) + st" by simp
      then have "(n - a - pos - b) div st = (n - a - (pos + st) - b) div st + 1"
        using "1.prems"(3) by (metis div_add_self2 less_irrefl)
      with big IH show ?thesis by simp
    qed
    have head: "positions (if e then 0 else pos) (a + pos) \<noteq> []"
      "length (positions (a + pos) (a + pos + b)) = nat b"
      using "1.prems" by (simp_all add: positions_def)
    show ?thesis
      unfolding eq using IH count head False "1.prems" by (auto split: if_splits)
  qed
qed

text \<open>Walk-forward windows.  With positive sizes and step the generator ends; every window trains on
  positions strictly before those it tests, all within range, with a full test block, and there are
  (n - train - test) div step + 1 of them, or none when the data is too short.\<close>

theorem walk_forward_windows:
  assumes "walk_forward n train_size test_size step expanding = Inr ws"
  shows "(\<forall>(train, test) \<in> set ws. (\<forall>i \<in> set train. \<forall>j \<in> set test. i < j)
      \<and> set train \<union> set test \<subseteq> {0..<n} \<and> train \<noteq> [] \<and> int (length test) = test_size)
    \<and> int (length ws) = (if n < train_size + test_size then 0
        else (n - train_size - test_size) div (case step of None \<Rightarrow> test_size | Some k \<Rightarrow> k) + 1)"
proof -
  let ?st = "case step of None \<Rightarrow> test_size | Some k \<Rightarrow> k"
  have "0 < train_size" "0 < test_size" "0 < ?st" "ws = walk_from n train_size test_size ?st expanding 0"
    using assms by (auto simp: walk_forward_def Let_def split: if_splits)
  then show ?thesis using walk_from_windows [of train_size test_size ?st 0 n expanding] by simp
qed

lemma walk_forward_windows_witness:
  "\<exists>ws. walk_forward 10 4 2 None False = Inr ws \<and> length ws = 3"
proof -
  obtain ws where ws: "walk_forward 10 4 2 None False = Inr ws" by (simp add: walk_forward_def)
  have "int (length ws) = 3" using walk_forward_windows [OF ws] by simp
  with ws show ?thesis by auto
qed

text \<open>C28: purged k-fold does not leak.  Each sample is tested once; no training sample's label interval
  meets the label interval of a test sample of its fold, none is itself tested, and none lies
  within the embargo after the test block.\<close>

theorem purged_split_does_not_leak:
  assumes "\<forall>xs k. concat (array_split xs k) = xs"
    and "purged_split array_split n_splits embargo a0 a1 = Inr ws"
  shows "concat (map snd ws) = [0..<length a0]
    \<and> (\<forall>(train, test) \<in> set ws. \<forall>i \<in> set train. i < length a0 \<and> i \<notin> set test
        \<and> (\<forall>j \<in> set test. a1 ! i < a0 ! j \<or> a1 ! j < a0 ! i)
        \<and> \<not> (Max (set test) < i \<and> int i \<le> int (Max (set test)) + round_half_even (real (length a0) * embargo)))"
proof
  let ?emb = "round_half_even (real (length a0) * embargo)"
  let ?blocks = "filter (\<lambda>test. test \<noteq> []) (array_split [0..<length a0] n_splits)"
  have ws: "ws = map (\<lambda>test. (purged_train a0 a1 ?emb test, test)) ?blocks"
    using assms(2) by (auto simp: purged_split_def Let_def split: if_splits)
  have "concat ?blocks = concat (array_split [0..<length a0] n_splits)"
    by (rule concat_nonempty)
  then show "concat (map snd ws) = [0..<length a0]" using assms(1) by (simp add: ws comp_def)
  show "\<forall>(train, test) \<in> set ws. \<forall>i \<in> set train. i < length a0 \<and> i \<notin> set test
        \<and> (\<forall>j \<in> set test. a1 ! i < a0 ! j \<or> a1 ! j < a0 ! i)
        \<and> \<not> (Max (set test) < i \<and> int i \<le> int (Max (set test)) + ?emb)"
  proof (clarify)
    fix train test i
    assume "(train, test) \<in> set ws" and i: "i \<in> set train"
    then have t: "train = purged_train a0 a1 ?emb test" "test \<noteq> []" by (auto simp: ws)
    have gap: "\<not> (Min ((\<lambda>i. a0 ! i) ` set test) \<le> a1 ! i \<and> a0 ! i \<le> Max ((\<lambda>i. a1 ! i) ` set test))"
      and rest: "i < length a0" "i \<notin> set test"
      "\<not> (0 < ?emb \<and> Suc (Max (set test)) \<le> i \<and> int i < int (Suc (Max (set test))) + ?emb)"
      using i by (auto simp: t(1) purged_train_def Let_def)
    have "a1 ! i < a0 ! j \<or> a1 ! j < a0 ! i" if j: "j \<in> set test" for j
    proof -
      have "Min ((\<lambda>i. a0 ! i) ` set test) \<le> a0 ! j" "a1 ! j \<le> Max ((\<lambda>i. a1 ! i) ` set test)"
        using j by simp_all
      with gap show ?thesis by linarith
    qed
    with rest show "i < length a0 \<and> i \<notin> set test \<and> (\<forall>j \<in> set test. a1 ! i < a0 ! j \<or> a1 ! j < a0 ! i)
        \<and> \<not> (Max (set test) < i \<and> int i \<le> int (Max (set test)) + ?emb)"
      by auto
  qed
qed

lemma purged_split_does_not_leak_witness:
  "\<exists>ws. purged_split (\<lambda>xs k. [take 1 xs, drop 1 xs]) 2 0 [0, 1] [1, 2] = Inr ws
     \<and> concat (map snd ws) = [0, 1]"
proof -
  have "\<not> (\<exists>i < length [0, 1 :: int]. [1, 2 :: int] ! i < [0, 1] ! i)"
    by (simp add: numeral_2_eq_2 Ex_less_Suc)
  then obtain ws where ws: "purged_split (\<lambda>xs k. [take 1 xs, drop 1 xs]) 2 0 [0, 1] [1, 2] = Inr ws"
    unfolding purged_split_def Let_def by simp
  have "\<forall>xs k. concat ((\<lambda>xs (k::int). [take 1 xs, drop 1 xs]) xs k) = (xs :: nat list)" by simp
  from purged_split_does_not_leak [OF this ws] have "concat (map snd ws) = [0, 1]" by simp
  with ws show ?thesis by blast
qed

section \<open>Costs\<close>

lemma turnover_sum:
  fixes prev new :: "('k, real) dict"
  assumes "finite A" "set (keys prev) \<union> set (keys new) \<subseteq> A"
  shows "one_way_turnover prev new = (\<Sum>s\<in>A. \<bar>dict_get 0 new s - dict_get 0 prev s\<bar>)"
  unfolding one_way_turnover_def
proof (rule sum.mono_neutral_left [OF assms], rule ballI)
  fix s assume "s \<in> A - (set (keys prev) \<union> set (keys new))"
  then have "map_of prev s = None" "map_of new s = None" by (simp_all add: map_of_eq_None_iff)
  then show "\<bar>dict_get 0 new s - dict_get 0 prev s\<bar> = 0" by simp
qed

text \<open>Turnover is a distance between books.  It is symmetric, satisfies the triangle inequality (an
  intermediate rebalance never trades less) and is zero exactly when the two books hold the
  same weight in every name.\<close>

theorem turnover_is_a_metric:
  fixes a b c :: "('k, real) dict"
  shows "one_way_turnover a b = one_way_turnover b a
   \<and> one_way_turnover a c \<le> one_way_turnover a b + one_way_turnover b c
   \<and> (one_way_turnover a b = 0 \<longleftrightarrow> (\<forall>s. dict_get 0 a s = dict_get 0 b s))"
proof (intro conjI)
  let ?A = "set (keys a) \<union> set (keys b) \<union> set (keys c)"
  show "one_way_turnover a b = one_way_turnover b a"
    by (simp add: one_way_turnover_def Un_commute abs_minus_commute)
  have "one_way_turnover a c = (\<Sum>s\<in>?A. \<bar>dict_get 0 c s - dict_get 0 a s\<bar>)"
    by (rule turnover_sum) auto
  also have "\<dots> \<le> (\<Sum>s\<in>?A. \<bar>dict_get 0 b s - dict_get 0 a s\<bar> + \<bar>dict_get 0 c s - dict_get 0 b s\<bar>)"
    by (rule sum_mono) linarith
  also have "\<dots> = one_way_turnover a b + one_way_turnover b c"
    unfolding sum.distrib
    by (subst turnover_sum [of ?A a b], simp, blast, subst turnover_sum [of ?A b c], simp, blast, simp)
  finally show "one_way_turnover a c \<le> one_way_turnover a b + one_way_turnover b c" .
  show "one_way_turnover a b = 0 \<longleftrightarrow> (\<forall>s. dict_get 0 a s = dict_get 0 b s)"
  proof
    assume z: "one_way_turnover a b = 0"
    show "\<forall>s. dict_get 0 a s = dict_get 0 b s"
    proof
      fix s
      have "one_way_turnover a b = (\<Sum>s\<in>insert s ?A. \<bar>dict_get 0 b s - dict_get 0 a s\<bar>)"
        by (rule turnover_sum) auto
      with z have sum0: "(\<Sum>s\<in>insert s ?A. \<bar>dict_get 0 b s - dict_get 0 a s\<bar>) = 0" by linarith
      have "\<forall>s\<in>insert s ?A. \<bar>dict_get 0 b s - dict_get 0 a s\<bar> = 0"
        by (rule iffD1 [OF sum_nonneg_eq_0_iff sum0]) simp_all
      then show "dict_get 0 a s = dict_get 0 b s" by simp
    qed
  next
    assume "\<forall>s. dict_get 0 a s = dict_get 0 b s"
    then show "one_way_turnover a b = 0" unfolding one_way_turnover_def by simp
  qed
qed

section \<open>Multiple testing\<close>

text \<open>The cutoff is the largest rank whose p-value is on or below the Benjamini-Hochberg line.\<close>

lemma bh_cutoff_spec:
  "k < i \<Longrightarrow> (\<forall>j < length ps. ps ! j \<le> real (i + j) / m * alpha \<longrightarrow> i + j \<le> bh_cutoff m alpha i k ps)
   \<and> (bh_cutoff m alpha i k ps = k
      \<or> (\<exists>j < length ps. bh_cutoff m alpha i k ps = i + j \<and> ps ! j \<le> real (i + j) / m * alpha))"
proof (induction ps arbitrary: i k)
  case Nil
  then show ?case by simp
next
  case (Cons p ps)
  let ?k = "if p \<le> real i / m * alpha then i else k"
  let ?r = "bh_cutoff m alpha (Suc i) ?k ps"
  have IH: "(\<forall>j < length ps. ps ! j \<le> real (Suc i + j) / m * alpha \<longrightarrow> Suc i + j \<le> ?r)
     \<and> (?r = ?k \<or> (\<exists>j < length ps. ?r = Suc i + j \<and> ps ! j \<le> real (Suc i + j) / m * alpha))"
    using Cons.prems by (intro Cons.IH) simp
  have "?k \<le> i" using Cons.prems by simp
  with IH have ge: "?k \<le> ?r" by (elim conjE disjE exE) simp_all
  show ?case
  proof (intro conjI allI impI)
    fix j assume j: "j < length (p # ps)" "(p # ps) ! j \<le> real (i + j) / m * alpha"
    show "i + j \<le> bh_cutoff m alpha i k (p # ps)"
    proof (cases j)
      case 0
      then show ?thesis using j ge by simp
    next
      case (Suc j')
      then have "ps ! j' \<le> real (Suc i + j') / m * alpha" "j' < length ps" using j by simp_all
      then have "Suc i + j' \<le> ?r" using IH by blast
      then show ?thesis using Suc by simp
    qed
  next
    show "bh_cutoff m alpha i k (p # ps) = k
      \<or> (\<exists>j < length (p # ps). bh_cutoff m alpha i k (p # ps) = i + j
           \<and> (p # ps) ! j \<le> real (i + j) / m * alpha)"
      using IH
    proof (elim conjE disjE)
      assume "?r = ?k"
      then show ?thesis by (cases "p \<le> real i / m * alpha") auto
    next
      assume "\<exists>j < length ps. ?r = Suc i + j \<and> ps ! j \<le> real (Suc i + j) / m * alpha"
      then obtain j where "j < length ps" "?r = Suc i + j" "ps ! j \<le> real (Suc i + j) / m * alpha" by blast
      then show ?thesis by (intro disjI2 exI [of _ "Suc j"]) simp
    qed
  qed
qed

lemma count_below_sorted:
  assumes "sorted ps" "j < length ps" "ps ! j \<le> q"
  shows "Suc j \<le> length (filter (\<lambda>p. p \<le> q) ps)"
proof -
  have "\<forall>p \<in> set (take (Suc j) ps). p \<le> q"
  proof
    fix p assume "p \<in> set (take (Suc j) ps)"
    then obtain k where "k < length (take (Suc j) ps)" "p = take (Suc j) ps ! k"
      by (metis in_set_conv_nth)
    then have "k \<le> j" "p = ps ! k" by simp_all
    then show "p \<le> q" using sorted_nth_mono [OF assms(1), of k j] assms(2,3) by simp
  qed
  then have "filter (\<lambda>p. p \<le> q) (take (Suc j) ps) = take (Suc j) ps" by (simp add: filter_id_conv)
  then have "length (filter (\<lambda>p. p \<le> q) ps) = Suc j + length (filter (\<lambda>p. p \<le> q) (drop (Suc j) ps))"
    using assms(2) by (metis append_take_drop_id filter_append length_append length_take min.absorb2
        Suc_leI)
  then show ?thesis by simp
qed

lemma sorted_prefix_below:
  assumes "sorted ps" "i \<le> length (filter (\<lambda>p. p \<le> q) ps)" "j < i"
  shows "j < length ps \<and> ps ! j \<le> q"
proof -
  have len: "i \<le> length ps" using assms(2) length_filter_le order_trans by blast
  have "ps ! j \<le> q"
  proof (rule ccontr)
    assume "\<not> ps ! j \<le> q"
    have "\<forall>p \<in> set (drop j ps). \<not> p \<le> q"
    proof
      fix p assume "p \<in> set (drop j ps)"
      then obtain k where "k < length (drop j ps)" "p = drop j ps ! k" by (metis in_set_conv_nth)
      then have "p = ps ! (j + k)" "j + k < length ps" by simp_all
      then show "\<not> p \<le> q"
        using sorted_nth_mono [OF assms(1), of j "j + k"] \<open>\<not> ps ! j \<le> q\<close> by simp
    qed
    then have "filter (\<lambda>p. p \<le> q) (drop j ps) = []" by (simp add: filter_empty_conv)
    then have "filter (\<lambda>p. p \<le> q) ps = filter (\<lambda>p. p \<le> q) (take j ps)"
      by (metis append_Nil2 append_take_drop_id filter_append)
    then have "length (filter (\<lambda>p. p \<le> q) ps) \<le> j"
      using length_filter_le [of "\<lambda>p. p \<le> q" "take j ps"] by simp
    then show False using assms(2,3) by simp
  qed
  then show ?thesis using len assms(3) by simp
qed

text \<open>The place of an entry decides whether it is among the first k.\<close>

lemma among_first:
  assumes "distinct (keys xs)" "r < length xs" "xs ! r = (n, p)"
  shows "n \<in> set (keys (take k xs)) \<longleftrightarrow> r < k"
proof
  assume "n \<in> set (keys (take k xs))"
  then obtain j where j: "j < k" "j < length xs" "fst (xs ! j) = n"
    unfolding set_map by (auto simp only: in_set_conv_nth image_iff length_take nth_take min_less_iff_conj)
  then have "keys xs ! j = keys xs ! r" using assms(2,3) by simp
  then have "j = r"
    using nth_eq_iff_index_eq [OF assms(1), of j r] j(2) assms(2) unfolding length_map by blast
  with j(1) show "r < k" by simp
next
  assume k: "r < k"
  then have "take k xs ! r \<in> set (take k xs)" using assms(2) by (intro nth_mem) simp
  then have "(n, p) \<in> set (take k xs)" using assms(3) k by simp
  then show "n \<in> set (keys (take k xs))" unfolding set_map by (rule rev_image_eqI) simp
qed

text \<open>The cutoff over sorted p-values: the r-th is promoted exactly when some line i has at least i values below it
  and lies above the r-th.\<close>

lemma bh_cutoff_promotes:
  assumes "sorted ps" "r < length ps" "0 < m" "0 \<le> alpha"
  shows "r < bh_cutoff m alpha 1 0 ps \<longleftrightarrow>
    (\<exists>i \<ge> 1. ps ! r \<le> real i / m * alpha \<and> i \<le> length (filter (\<lambda>q. q \<le> real i / m * alpha) ps))"
    (is "r < ?k \<longleftrightarrow> (\<exists>i \<ge> 1. ps ! r \<le> ?line i \<and> i \<le> ?count i)")
proof
  note spec = bh_cutoff_spec [of 0 1 ps m alpha]
  assume rk: "r < ?k"
  then obtain j where j: "j < length ps" "?k = 1 + j" "ps ! j \<le> ?line (1 + j)" using spec by auto
  have "ps ! r \<le> ps ! j" using assms(1) rk j by (metis Suc_eq_plus1_left less_Suc_eq_le sorted_nth_mono)
  then have "ps ! r \<le> ?line ?k" using j by simp
  moreover have "?k \<le> ?count ?k"
    using count_below_sorted [OF assms(1) j(1), of "?line ?k"] j(2,3) by simp
  ultimately show "\<exists>i \<ge> 1. ps ! r \<le> ?line i \<and> i \<le> ?count i" using j(2) by (intro exI [of _ ?k]) simp
next
  note spec = bh_cutoff_spec [of 0 1 ps m alpha]
  assume "\<exists>i \<ge> 1. ps ! r \<le> ?line i \<and> i \<le> ?count i"
  then obtain i where i: "1 \<le> i" "ps ! r \<le> ?line i" "i \<le> ?count i" by blast
  have c1: "?count i - 1 < ?count i" using i(1,3) by simp
  have "?count i - 1 < length ps" "ps ! (?count i - 1) \<le> ?line i"
    using sorted_prefix_below [OF assms(1) order_refl c1] by blast+
  moreover have "?line i \<le> ?line (1 + (?count i - 1))"
    using i(1,3) assms(3,4) by (intro mult_right_mono divide_right_mono) simp_all
  ultimately have "1 + (?count i - 1) \<le> ?k" using spec by (meson order_trans zero_less_one)
  moreover have "Suc r \<le> ?count i"
    using count_below_sorted [OF assms(1), of r "?line i"] assms(2) i(2) by simp
  ultimately show "r < ?k" by simp
qed

lemma bh_verdict:
  assumes "(name, p) \<in> set pvalues"
  shows "map_of (benjamini_hochberg pvalues alpha) name = Some (name \<in> set (keys (take
    (bh_cutoff (real (length pvalues)) alpha 1 0 (vals (sort_key snd pvalues))) (sort_key snd pvalues))))"
proof -
  have "map_of (map (\<lambda>(n, q). (n, f n)) d) name = Some (f name)"
    if "(name, p) \<in> set d" for f :: "string \<Rightarrow> bool" and d :: "(string, real) dict"
    using that by (induction d) auto
  moreover have "(name, p) \<in> set (sort_key snd pvalues)" using assms by simp
  then have "sort_key snd pvalues \<noteq> []" by (metis empty_iff empty_set)
  ultimately show ?thesis using assms by (simp add: benjamini_hochberg_def Let_def)
qed

text \<open>C29: the false-discovery gate.  Benjamini-Hochberg promotes a signal exactly when its p-value lies at
  or below \<open>i / m * alpha\<close> for some i such that at least i of the m signals do: ties at the
  cutoff are all promoted, and the verdict does not depend on the order of the signals.\<close>

theorem benjamini_hochberg_spec:
  assumes "distinct (keys pvalues)" "0 \<le> alpha" "(name, p) \<in> set pvalues"
  shows "map_of (benjamini_hochberg pvalues alpha) name = Some
    (\<exists>i \<ge> 1. p \<le> real i / real (length pvalues) * alpha
      \<and> i \<le> length (filter (\<lambda>q. q \<le> real i / real (length pvalues) * alpha) (vals pvalues)))"
proof -
  let ?items = "sort_key snd pvalues"
  have same: "mset (keys ?items) = mset (keys pvalues)" "mset (vals ?items) = mset (vals pvalues)" by simp_all
  have dist: "distinct (keys ?items)" using same(1) assms(1) mset_eq_imp_distinct_iff by blast
  have cnt: "length (filter (\<lambda>q. q \<le> c) (vals pvalues)) = length (filter (\<lambda>q. q \<le> c) (vals ?items))" for c
  proof -
    have "mset (vals pvalues) = mset (vals ?items)" by simp
    then show ?thesis by (metis mset_filter size_mset)
  qed
  have mem: "(name, p) \<in> set ?items" using assms(3) by simp
  obtain r where r: "r < length ?items" "?items ! r = (name, p)" using iffD1 [OF in_set_conv_nth mem] by blast
  then have ps: "r < length (vals ?items)" "vals ?items ! r = p" by simp_all
  have "0 < real (length pvalues)" using assms(3) by (cases pvalues) simp_all
  from bh_cutoff_promotes [OF _ ps(1) this assms(2)] show ?thesis
    unfolding bh_verdict [OF assms(3)] among_first [OF dist r] cnt ps(2) by simp
qed

lemma benjamini_hochberg_spec_witness:
  "map_of (benjamini_hochberg [(''a'', 1 / 100), (''b'', 1 / 2)] (5 / 100)) ''a'' = Some True"
proof -
  let ?p = "[(''a'', 1 / 100), (''b'', 1 / 2 :: real)]"
  have "map_of (benjamini_hochberg ?p (5 / 100)) ''a'' = Some
    (\<exists>i \<ge> 1. 1 / 100 \<le> real i / real (length ?p) * (5 / 100)
      \<and> i \<le> length (filter (\<lambda>q. q \<le> real i / real (length ?p) * (5 / 100)) (vals ?p)))"
    by (rule benjamini_hochberg_spec) simp_all
  also have "\<dots> = Some True" by (simp, intro exI [of _ 1]) simp
  finally show ?thesis .
qed

text \<open>The family-wise gate.  For a strictly increasing normal distribution function with its inverse,
  a statistic clears the Bonferroni bar exactly when its two-sided p-value is at most alpha over the
  number of trials.\<close>

theorem bonferroni_is_p_value_test:
  assumes "strict_mono cdf" "\<forall>q. 0 < q \<and> q < 1 \<longrightarrow> cdf (inv_cdf q) = q"
    and "0 < alpha" "alpha < 1" "distinct (keys ts)" "(name, Fin t) \<in> set ts"
  shows "map_of (fr_bonferroni (correct_family cdf inv_cdf ts alpha)) name = Some
    (normal_two_sided_p cdf (Fin t) \<le> alpha / real (length ts))"
proof -
  let ?m = "real (length ts)"
  let ?q = "1 - alpha / (2 * ?m)"
  have m: "1 \<le> ?m" using assms(6) by (cases ts) simp_all
  have bar: "bonferroni_t_threshold inv_cdf (int (length ts)) alpha = inv_cdf ?q"
    using m by (simp add: bonferroni_t_threshold_def Let_def max_def)
  have "0 < alpha / (2 * ?m)" using assms(3) m by (intro divide_pos_pos) linarith+
  moreover have "alpha / (2 * ?m) < 1" using assms(4) m by (simp add: divide_less_eq)
  ultimately have q: "cdf (inv_cdf ?q) = ?q" using assms(2) by simp
  have "inv_cdf ?q \<le> \<bar>t\<bar> \<longleftrightarrow> ?q \<le> cdf \<bar>t\<bar>"
    using strict_mono_less_eq [OF assms(1), of "inv_cdf ?q" "\<bar>t\<bar>"] q by simp
  also have "\<dots> \<longleftrightarrow> normal_two_sided_p cdf (Fin t) \<le> alpha / ?m"
  proof -
    have "1 - y \<le> c \<longleftrightarrow> 2 * (1 - c) \<le> x" if "x = 2 * y" for x y c :: real
      using that by auto
    then show ?thesis unfolding normal_two_sided_p_def by simp
  qed
  finally have eq: "inv_cdf ?q \<le> \<bar>t\<bar> \<longleftrightarrow> normal_two_sided_p cdf (Fin t) \<le> alpha / ?m" .
  have "map_of (map (\<lambda>(n, u). (n, Fin b \<le> \<bar>u\<bar>)) ts) name = Some (b \<le> \<bar>t\<bar>)" for b
    using assms(5,6) by (induction ts) force+
  then show ?thesis
    by (simp add: correct_family_def Let_def bar eq)
qed

lemma bonferroni_is_p_value_test_witness:
  "map_of (fr_bonferroni (correct_family (\<lambda>x. x) (\<lambda>x. x) [(''a'', Fin (99 / 100)), (''b'', Fin (1 / 2))] (5 / 100))) ''a''
   = Some True"
proof -
  have "map_of (fr_bonferroni (correct_family (\<lambda>x. x) (\<lambda>x. x) [(''a'', Fin (99 / 100)), (''b'', Fin (1 / 2))] (5 / 100))) ''a''
      = Some (normal_two_sided_p (\<lambda>x. x) (Fin (99 / 100)) \<le> 5 / 100 / real (length [(''a'', Fin (99 / 100)), (''b'', Fin (1 / 2))]))"
    by (rule bonferroni_is_p_value_test) (simp_all add: strict_mono_def)
  then show ?thesis by (simp add: normal_two_sided_p_def)
qed

end
