(* ===== verification/Monitor.thy ===== *)
theory Monitor
  imports Store Parse
begin

text \<open>
  Supervision: the job registry (\<open>orchestration/scheduler.py\<close>), the metrics registry
  (\<open>observability/metrics.py\<close>), feed freshness (\<open>observability/freshness.py\<close>), the heartbeat
  (\<open>observability/heartbeat.py\<close>) and the LLM call budget (\<open>reasoning/budget.py\<close>).

  A registered callable is a value of the type \<open>'f\<close>; a metric object is addressed by its name, under
  which the registry keeps the one instance.  Locks are not modelled: each method body is one step.
\<close>

section \<open>scheduler.py\<close>

datatype cadence = REALTIME | MINUTELY | HOURLY | DAILY | WEEKLY | EVENT

definition intervals :: "cadence \<Rightarrow> timedelta option" where
  "intervals c = (case c of MINUTELY \<Rightarrow> Some (minutes 1) | HOURLY \<Rightarrow> Some (hours 1)
     | DAILY \<Rightarrow> Some (days 1) | WEEKLY \<Rightarrow> Some (days 7) | _ \<Rightarrow> None)"

record 'f job =
  jb_name :: string
  jb_cadence :: cadence
  jb_fn :: 'f
  jb_catchup :: bool

type_synonym 'f job_registry = "(string, 'f job) dict"

definition register :: "'f job \<Rightarrow> 'f job_registry \<Rightarrow> 'f job_registry" where
  "register j reg = dict_set (jb_name j) j reg"

definition jobs :: "'f job_registry \<Rightarrow> 'f job list" where
  "jobs reg = vals reg"

definition is_due :: "datetime \<Rightarrow> (string, datetime) dict \<Rightarrow> 'f job \<Rightarrow> bool" where
  "is_due now last_run j =
     (case intervals (jb_cadence j) of
        None \<Rightarrow> False
      | Some interval \<Rightarrow>
          (case map_of last_run (jb_name j) of None \<Rightarrow> True | Some prev \<Rightarrow> interval \<le> now - prev))"

definition due :: "'f job_registry \<Rightarrow> datetime \<Rightarrow> (string, datetime) dict \<Rightarrow> 'f job list" where
  "due reg now last_run = filter (is_due now last_run) (vals reg)"

section \<open>metrics.py\<close>

datatype metric_kind = CounterKind | GaugeKind

record metric =
  me_kind :: metric_kind
  me_name :: string
  me_help :: string
  me_value :: flt

type_synonym metrics = "(string, metric) dict"

definition get_or_create :: "string \<Rightarrow> string \<Rightarrow> metric_kind \<Rightarrow> metrics \<Rightarrow> metrics \<times> metric" where
  "get_or_create name help_text kind reg =
     (case map_of reg name of
        Some m \<Rightarrow> (reg, m)
      | None \<Rightarrow> let m = \<lparr>me_kind = kind, me_name = name, me_help = help_text, me_value = 0\<rparr>
                in (dict_set name m reg, m))"

definition counter_of :: "string \<Rightarrow> string \<Rightarrow> metrics \<Rightarrow> metrics \<times> metric" where
  "counter_of name help_text reg = get_or_create name help_text CounterKind reg"

definition gauge_of :: "string \<Rightarrow> string \<Rightarrow> metrics \<Rightarrow> metrics \<times> metric" where
  "gauge_of name help_text reg = get_or_create name help_text GaugeKind reg"

definition counter_inc :: "flt \<Rightarrow> metric \<Rightarrow> metric" where
  "counter_inc amount m = m\<lparr>me_value := me_value m + amount\<rparr>"

definition gauge_set :: "flt \<Rightarrow> metric \<Rightarrow> metric" where
  "gauge_set v m = m\<lparr>me_value := v\<rparr>"

text \<open>\<open>registry.counter(name, help).inc(amount)\<close> and \<open>registry.gauge(name, help).set(value)\<close>: the method of
  the other kind does not exist on the object (\<open>AttributeError\<close>, here \<open>TypeError\<close>).\<close>

definition bump :: "string \<Rightarrow> string \<Rightarrow> flt \<Rightarrow> metrics \<Rightarrow> metrics res" where
  "bump name help_text amount reg =
     (let (reg1, m) = counter_of name help_text reg
      in if me_kind m = CounterKind then Inr (dict_set name (counter_inc amount m) reg1)
         else Inl TypeError)"

definition observe :: "string \<Rightarrow> string \<Rightarrow> flt \<Rightarrow> metrics \<Rightarrow> metrics res" where
  "observe name help_text v reg =
     (let (reg1, m) = gauge_of name help_text reg
      in if me_kind m = GaugeKind then Inr (dict_set name (gauge_set v m) reg1)
         else Inl TypeError)"

definition kind_text :: "metric_kind \<Rightarrow> string" where
  "kind_text k = (case k of CounterKind \<Rightarrow> ''counter'' | GaugeKind \<Rightarrow> ''gauge'')"

definition render_metric :: "(flt \<Rightarrow> string) \<Rightarrow> string \<times> metric \<Rightarrow> string list" where
  "render_metric num nm =
     (let (name, m) = nm
      in (if me_help m \<noteq> [] then [''# HELP '' @ name @ '' '' @ me_help m] else [])
         @ [''# TYPE '' @ name @ '' '' @ kind_text (me_kind m), name @ '' '' @ num (me_value m)])"

definition render :: "(flt \<Rightarrow> string) \<Rightarrow> metrics \<Rightarrow> string" where
  "render num reg =
     join [CHR 0x0A] (concat (map (render_metric num) (sort_key fst reg))) @ [CHR 0x0A]"

section \<open>freshness.py\<close>

record source_freshness =
  sf_source :: string
  sf_last :: "datetime option"
  sf_hours :: "real option"
  sf_stale :: bool

definition freshness_of :: "'s store_ops \<Rightarrow> 's \<Rightarrow> datetime \<Rightarrow> real \<Rightarrow> string \<Rightarrow> source_freshness" where
  "freshness_of S s now max_age_hours source =
     (case st_as_of S s now (q_of_source source) of
        [] \<Rightarrow> \<lparr>sf_source = source, sf_last = None, sf_hours = None, sf_stale = True\<rparr>
      | x # xs \<Rightarrow>
          let prev = Max (o_knowledge_time ` set (x # xs));
              age = real_of_int (now - prev) / real_of_int us_hour
          in \<lparr>sf_source = source, sf_last = Some prev, sf_hours = Some age,
              sf_stale = (max_age_hours < age)\<rparr>)"

definition data_freshness ::
  "'s store_ops \<Rightarrow> 's \<Rightarrow> string list \<Rightarrow> datetime \<Rightarrow> real \<Rightarrow> source_freshness list" where
  "data_freshness S s sources now max_age_hours = map (freshness_of S s now max_age_hours) sources"

section \<open>heartbeat.py\<close>

text \<open>\<open>get\<close> is the HTTP request: the status code, or its exception.\<close>

definition ping_heartbeat :: "(string \<Rightarrow> int res) \<Rightarrow> string option \<Rightarrow> bool" where
  "ping_heartbeat get url =
     (case url of
        None \<Rightarrow> False
      | Some u \<Rightarrow> if u = [] then False
                  else (case get u of Inl e \<Rightarrow> False | Inr status \<Rightarrow> status < 400))"

section \<open>budget.py\<close>

text \<open>The wrapped provider is a state machine: one completion of a request, its new state and its
  reply or exception.\<close>

record 'p budgeted =
  bp_inner :: 'p
  bp_budget :: int
  bp_calls :: int

definition new_budgeted :: "'p \<Rightarrow> int \<Rightarrow> 'p budgeted" where
  "new_budgeted inner budget = \<lparr>bp_inner = inner, bp_budget = max 0 budget, bp_calls = 0\<rparr>"

definition remaining :: "'p budgeted \<Rightarrow> int" where
  "remaining p = max 0 (bp_budget p - bp_calls p)"

definition budgeted_complete ::
  "('q \<Rightarrow> 'p \<Rightarrow> 'p \<times> string res) \<Rightarrow> 'q \<Rightarrow> 'p budgeted \<Rightarrow> 'p budgeted \<times> string res" where
  "budgeted_complete ask q p =
     (if bp_budget p \<le> bp_calls p then (p, Inl LLMBudgetExceeded)
      else let (inner, r) = ask q (bp_inner p)
           in (p\<lparr>bp_inner := inner, bp_calls := bp_calls p + 1\<rparr>, r))"

fun complete_all ::
  "('q \<Rightarrow> 'p \<Rightarrow> 'p \<times> string res) \<Rightarrow> 'q list \<Rightarrow> 'p budgeted \<Rightarrow> 'p budgeted \<times> string res list" where
  "complete_all ask [] p = (p, [])"
| "complete_all ask (q # qs) p =
     (let (p1, r) = budgeted_complete ask q p; (p2, rs) = complete_all ask qs p1
      in (p2, r # rs))"

section \<open>Jobs\<close>

definition without_catchup :: "'f job_registry \<Rightarrow> 'f job_registry" where
  "without_catchup reg = map (\<lambda>(k, j). (k, j\<lparr>jb_catchup := False\<rparr>)) reg"

text \<open>Which jobs run.  Under a registry that files every job under its name, a registered job is due
  exactly when its cadence has an interval and that interval has elapsed since its last run (or it never
  ran), in registration order; and the \<open>catchup\<close> policy of a job has no influence on it.\<close>

theorem due_jobs:
  assumes "filed jb_name reg"
  shows "set (due reg now last_run) = {j. map_of reg (jb_name j) = Some j \<and>
      (\<exists>interval. intervals (jb_cadence j) = Some interval
        \<and> (\<forall>prev. map_of last_run (jb_name j) = Some prev \<longrightarrow> interval \<le> now - prev))}
    \<and> filed jb_name (register j reg)
    \<and> map jb_name (due (without_catchup reg) now last_run) = map jb_name (due reg now last_run)"
proof (intro conjI)
  have "is_due now last_run j \<longleftrightarrow> (\<exists>interval. intervals (jb_cadence j) = Some interval
        \<and> (\<forall>prev. map_of last_run (jb_name j) = Some prev \<longrightarrow> interval \<le> now - prev))" for j :: "'a job"
    by (simp add: is_due_def split: option.split)
  then show "set (due reg now last_run) = {j. map_of reg (jb_name j) = Some j \<and>
      (\<exists>interval. intervals (jb_cadence j) = Some interval
        \<and> (\<forall>prev. map_of last_run (jb_name j) = Some prev \<longrightarrow> interval \<le> now - prev))}"
    unfolding due_def set_filter filed_vals [OF assms] by simp
  show "filed jb_name (register j reg)" unfolding register_def using assms by (rule filed_set) simp
  have "is_due now last_run (j\<lparr>jb_catchup := False\<rparr>) = is_due now last_run j" for j :: "'a job"
    by (simp add: is_due_def split: option.split)
  then show "map jb_name (due (without_catchup reg) now last_run) = map jb_name (due reg now last_run)"
    unfolding due_def without_catchup_def
    by (induction reg) (auto split: prod.split)
qed

lemma due_jobs_witness:
  "map jb_name (due (without_catchup [(''a'', \<lparr>jb_name = ''a'', jb_cadence = HOURLY, jb_fn = (), jb_catchup = True\<rparr>)])
      (3 * us_hour) [(''a'', 0)]) = [''a'']"
  using due_jobs [of "[(''a'', \<lparr>jb_name = ''a'', jb_cadence = HOURLY, jb_fn = (), jb_catchup = True\<rparr>)]"
      "3 * us_hour" "[(''a'', 0)]"]
  by (simp add: filed_def due_def is_due_def intervals_def hours_def)

section \<open>The call budget\<close>

text \<open>A provider that counts the requests that reach it.\<close>

definition counted :: "('q \<Rightarrow> 'p \<Rightarrow> 'p \<times> string res) \<Rightarrow> 'q \<Rightarrow> 'p \<times> nat \<Rightarrow> ('p \<times> nat) \<times> string res" where
  "counted ask q pn = (let (p', r) = ask q (fst pn) in ((p', Suc (snd pn)), r))"

lemma complete_all_budget:
  assumes "bp_calls p = c" "0 \<le> c" "c \<le> bp_budget p"
  shows "bp_budget (fst (complete_all (counted f) qs p)) = bp_budget p
    \<and> int (snd (bp_inner (fst (complete_all (counted f) qs p))))
        = int (snd (bp_inner p)) + min (int (length qs)) (bp_budget p - c)
    \<and> length (snd (complete_all (counted f) qs p)) = length qs
    \<and> (\<forall>i < length qs. bp_budget p - c \<le> int i
          \<longrightarrow> snd (complete_all (counted f) qs p) ! i = Inl LLMBudgetExceeded)"
  using assms
proof (induction qs arbitrary: p c)
  case Nil
  then show ?case by simp
next
  case (Cons q qs)
  show ?case
  proof (cases "bp_budget p \<le> c")
    case True
    then have step: "budgeted_complete (counted f) q p = (p, Inl LLMBudgetExceeded)"
      using Cons.prems by (simp add: budgeted_complete_def)
    show ?thesis
      using Cons.IH [OF Cons.prems] Cons.prems True
      by (auto simp: step nth_Cons split: prod.split nat.split)
  next
    case False
    obtain p' r where f: "f q (fst (bp_inner p)) = (p', r)" by (rule prod.exhaust)
    define p1 where "p1 = p\<lparr>bp_inner := (p', Suc (snd (bp_inner p))), bp_calls := c + 1\<rparr>"
    have step: "budgeted_complete (counted f) q p = (p1, r)"
      using False Cons.prems f by (simp add: budgeted_complete_def counted_def p1_def)
    have p1: "bp_calls p1 = c + 1" "bp_budget p1 = bp_budget p"
      "snd (bp_inner p1) = Suc (snd (bp_inner p))" by (simp_all add: p1_def)
    note IH = Cons.IH [of p1 "c + 1", unfolded p1(2,3)]
    show ?thesis
      using IH p1 False Cons.prems
      by (auto simp: step nth_Cons split: prod.split nat.split)
  qed
qed

text \<open>The cost bound of the language model.  Whatever the provider answers, a budgeted provider forwards
  at most \<open>budget\<close> requests (none for a negative budget), and it fails closed: from the request after
  the last budgeted one on, every request raises without reaching the provider.\<close>

theorem llm_budget_bounds_calls:
  "int (snd (bp_inner (fst (complete_all (counted f) qs (new_budgeted (inner, 0) budget)))))
      = min (int (length qs)) (max 0 budget)
   \<and> (\<forall>i < length qs. max 0 budget \<le> int i
        \<longrightarrow> snd (complete_all (counted f) qs (new_budgeted (inner, 0) budget)) ! i = Inl LLMBudgetExceeded)"
  using complete_all_budget [of "new_budgeted (inner, 0) budget" 0 f qs]
  by (simp add: new_budgeted_def)

lemma llm_budget_bounds_calls_witness:
  "snd (complete_all (counted (\<lambda>q p. (p, Inr q))) [''a'', ''b''] (new_budgeted ((), 0) 1)) ! 1
     = Inl LLMBudgetExceeded"
  using llm_budget_bounds_calls [of "\<lambda>q p. (p, Inr q)" "[''a'', ''b'']" "()" 1] by auto

end
