(* ===== verification/Feeds.thy ===== *)
theory Feeds
  imports Ingest Parse
begin

text \<open>
  The collectors (\<open>collectors/*.py\<close>): how raw records become point-in-time observations
  (\<open>prices.py\<close>, \<open>intraday.py\<close>, \<open>congress.py\<close>, \<open>fred.py\<close>, \<open>edgar.py\<close>, \<open>fundamentals.py\<close>,
  \<open>gdelt.py\<close>) and the clients that fetch the records.

  A record is what the pydantic model holds after validation.  The transport of a client is a
  state machine over a world \<open>'w\<close>: one request gives a reply or its exception and a new world, and
  reading the monotonic clock is a step too.  JSON decoding, XML parsing and the csv reader are
  parameters (\<open>loads\<close>, \<open>parse_xml\<close>, \<open>csv_rows\<close>).
\<close>

section \<open>Cells\<close>

text \<open>\<open>strptime\<close> with \<open>%Y\<close>, \<open>%m\<close>, \<open>%d\<close> and a fixed separator: the alternatives of the month and the
  day are tried in the order of Python's pattern, the first match must reach the end of the text.\<close>

definition month_alts :: "string \<Rightarrow> (int \<times> string) list" where
  "month_alts s =
     (case s of
        [] \<Rightarrow> []
      | [a] \<Rightarrow> if is_digit a \<and> a \<noteq> CHR ''0'' then [(int (digits_val [a]), [])] else []
      | a # b # r \<Rightarrow>
          (if a = CHR ''1'' \<and> b \<in> {CHR ''0'', CHR ''1'', CHR ''2''} then [(int (digits_val [a, b]), r)] else [])
          @ (if a = CHR ''0'' \<and> is_digit b \<and> b \<noteq> CHR ''0'' then [(int (digits_val [b]), r)] else [])
          @ (if is_digit a \<and> a \<noteq> CHR ''0'' then [(int (digits_val [a]), b # r)] else []))"

definition day_alts :: "string \<Rightarrow> (int \<times> string) list" where
  "day_alts s =
     (case s of
        [] \<Rightarrow> []
      | [a] \<Rightarrow> if is_digit a \<and> a \<noteq> CHR ''0'' then [(int (digits_val [a]), [])] else []
      | a # b # r \<Rightarrow>
          (if a = CHR ''3'' \<and> b \<in> {CHR ''0'', CHR ''1''} then [(int (digits_val [a, b]), r)] else [])
          @ (if a \<in> {CHR ''1'', CHR ''2''} \<and> is_digit b then [(int (digits_val [a, b]), r)] else [])
          @ (if a = CHR ''0'' \<and> is_digit b \<and> b \<noteq> CHR ''0'' then [(int (digits_val [b]), r)] else [])
          @ (if is_digit a \<and> a \<noteq> CHR ''0'' then [(int (digits_val [a]), b # r)] else [])
          @ (if a = CHR '' '' \<and> is_digit b \<and> b \<noteq> CHR ''0'' then [(int (digits_val [b]), r)] else []))"

definition after_sep :: "string \<Rightarrow> string \<Rightarrow> string list" where
  "after_sep sep s = (if starts_with sep s then [drop (length sep) s] else [])"

definition strptime_date :: "string \<Rightarrow> string \<Rightarrow> pydate res" where
  "strptime_date sep s =
     (case fixed_number 4 (take 4 s) of
        None \<Rightarrow> Inl ValueError
      | Some y \<Rightarrow>
          (case concat (map (\<lambda>r. concat (map (\<lambda>(m, r1). concat (map (\<lambda>r2.
                     map (\<lambda>(d, r3). (m, d, r3)) (day_alts r2)) (after_sep sep r1)))
                   (month_alts r))) (after_sep sep (drop 4 s))) of
             [] \<Rightarrow> Inl ValueError
           | (m, d, r) # _ \<Rightarrow>
               if r = [] \<and> valid_ymd y m d then Inr (ymd2ord (y, m, d)) else Inl ValueError))"

text \<open>\<open>_parse_date\<close> of \<open>edgar.py\<close> and \<open>fundamentals.py\<close>, \<open>_to_float\<close> and \<open>_opt_float\<close>.\<close>

definition opt_date :: "(pyval \<Rightarrow> string) \<Rightarrow> pyval \<Rightarrow> pydate option" where
  "opt_date rpr v =
     (if \<not> truthy v then None
      else (case strptime_date ''-'' (take 10 (py_str rpr v)) of Inl e \<Rightarrow> None | Inr d \<Rightarrow> Some d))"

definition opt_date_fundamental :: "(pyval \<Rightarrow> string) \<Rightarrow> pyval \<Rightarrow> pydate option" where
  "opt_date_fundamental rpr v = opt_date rpr v"

fun ok_of :: "'a res \<Rightarrow> 'a option" where
  "ok_of (Inl e) = None"
| "ok_of (Inr x) = Some x"

definition edgar_float :: "pyval \<Rightarrow> flt option" where
  "edgar_float v = (if is_none v \<or> v = PStr [] then None else ok_of (to_float v))"

definition opt_float :: "string option \<Rightarrow> flt option" where
  "opt_float raw =
     (case raw of
        None \<Rightarrow> None
      | Some t \<Rightarrow>
          let s = strip t
          in if s = [] \<or> upper s = ''N/D'' then None else ok_of (parse_float s))"

section \<open>prices.py and intraday.py\<close>

record price_bar =
  pb_date :: pydate
  pb_symbol :: string
  pb_close :: flt
  pb_open :: "flt option"
  pb_high :: "flt option"
  pb_low :: "flt option"
  pb_volume :: "flt option"
  pb_adj_close :: "flt option"

definition set_opt :: "string \<Rightarrow> flt option \<Rightarrow> payload \<Rightarrow> payload" where
  "set_opt k v d = (case v of None \<Rightarrow> d | Some x \<Rightarrow> dict_set k (PFloat x) d)"

definition price_observation :: "datetime \<Rightarrow> price_bar \<Rightarrow> observation" where
  "price_observation now b =
     new_obs now ''price'' price_dataset ''equity'' (upper (pb_symbol b)) None
       (day_close (pb_date b)) (day_close (pb_date b))
       (set_opt ''adj_close'' (pb_adj_close b) (set_opt ''volume'' (pb_volume b)
         (set_opt ''low'' (pb_low b) (set_opt ''high'' (pb_high b) (set_opt ''open'' (pb_open b)
           [(''close'', PFloat (pb_close b))])))))
       [(''parser_version'', PInt 1)]"

definition normalize_prices :: "datetime \<Rightarrow> price_bar list \<Rightarrow> observation list" where
  "normalize_prices now bars = map (price_observation now) bars"

definition intraday_dataset :: string where "intraday_dataset = ''price.ohlcv.intraday''"

text \<open>\<open>str(raw).replace("Z", "+00:00")\<close>, parsed and normalised.\<close>

definition parse_ts :: "(pyval \<Rightarrow> string) \<Rightarrow> pyval \<Rightarrow> datetime res" where
  "parse_ts rpr raw =
     (case fromisoformat (concat (map (\<lambda>c. if c = CHR ''Z'' then ''+00:00'' else [c]) (py_str rpr raw))) of
        Inl e \<Rightarrow> Inl e | Inr t \<Rightarrow> ensure_utc t)"

fun add_floats :: "payload \<Rightarrow> string list \<Rightarrow> payload \<Rightarrow> payload res" where
  "add_floats r [] acc = Inr acc"
| "add_floats r (k # ks) acc =
     (if is_none (pget r k) then add_floats r ks acc
      else (case to_float (pget r k) of
              Inl e \<Rightarrow> Inl e | Inr x \<Rightarrow> add_floats r ks (dict_set k (PFloat x) acc)))"

definition intraday_observation ::
  "(pyval \<Rightarrow> string) \<Rightarrow> datetime \<Rightarrow> string \<Rightarrow> payload \<Rightarrow> observation option res" where
  "intraday_observation rpr now source r =
     (if is_none (pget r ''close'') then Inr None
      else case pindex r ''timestamp'' of Inl e \<Rightarrow> Inl e | Inr raw \<Rightarrow>
           case parse_ts rpr raw of Inl e \<Rightarrow> Inl e | Inr ts \<Rightarrow>
           case to_float (pget r ''close'') of Inl e \<Rightarrow> Inl e | Inr close \<Rightarrow>
           case add_floats r [''open'', ''high'', ''low'', ''volume''] [(''close'', PFloat close)] of
             Inl e \<Rightarrow> Inl e | Inr val \<Rightarrow>
           case pindex r ''symbol'' of Inl e \<Rightarrow> Inl e | Inr sy \<Rightarrow>
             Inr (Some (new_obs now source intraday_dataset ''equity'' (upper (py_str rpr sy)) None ts ts
                          val [(''timeframe'', PStr ''intraday'')])))"

definition intraday_bars_to_observations ::
  "(pyval \<Rightarrow> string) \<Rightarrow> datetime \<Rightarrow> string \<Rightarrow> payload list \<Rightarrow> observation list res" where
  "intraday_bars_to_observations rpr now source records =
     collect_res (intraday_observation rpr now source) records"

section \<open>congress.py\<close>

definition congress_dataset :: string where "congress_dataset = ''disclosure.congress_trade''"

datatype chamber = House | Senate
datatype congress_action = Buy | Sell | Exchange

definition chamber_text :: "chamber \<Rightarrow> string" where
  "chamber_text c = (case c of House \<Rightarrow> ''house'' | Senate \<Rightarrow> ''senate'')"

definition action_text :: "congress_action \<Rightarrow> string" where
  "action_text a = (case a of Buy \<Rightarrow> ''buy'' | Sell \<Rightarrow> ''sell'' | Exchange \<Rightarrow> ''exchange'')"

record congress_trade =
  ct_representative :: string
  ct_chamber :: chamber
  ct_ticker :: string
  ct_action :: congress_action
  ct_transaction_date :: pydate
  ct_disclosure_date :: pydate
  ct_amount_low :: "flt option"
  ct_amount_high :: "flt option"
  ct_party :: "string option"
  ct_role :: "string option"
  ct_owner :: "string option"

definition opt_num :: "flt option \<Rightarrow> pyval" where
  "opt_num v = (case v of None \<Rightarrow> PNone | Some x \<Rightarrow> PFloat x)"

definition opt_str :: "string option \<Rightarrow> pyval" where
  "opt_str v = (case v of None \<Rightarrow> PNone | Some s \<Rightarrow> PStr s)"

definition is_high_signal_role :: "string option \<Rightarrow> bool" where
  "is_high_signal_role role =
     (case role of
        None \<Rightarrow> False
      | Some s \<Rightarrow> s \<noteq> [] \<and> (starts_with ''leadership'' (lower s) \<or> starts_with ''committee'' (lower s)))"

definition congress_observation :: "datetime \<Rightarrow> congress_trade \<Rightarrow> observation" where
  "congress_observation now r =
     new_obs now ''congress'' congress_dataset ''equity'' (upper (ct_ticker r))
       (Some (ct_representative r @ ''|'' @ action_text (ct_action r)))
       (day_close (ct_transaction_date r)) (day_close (ct_disclosure_date r))
       [(''transaction_type'', PStr (action_text (ct_action r))),
        (''amount_low'', opt_num (ct_amount_low r)), (''amount_high'', opt_num (ct_amount_high r)),
        (''representative'', PStr (ct_representative r)),
        (''chamber'', PStr (chamber_text (ct_chamber r))), (''party'', opt_str (ct_party r))]
       [(''role'', opt_str (ct_role r)), (''owner'', opt_str (ct_owner r)),
        (''high_signal_role'', PBool (is_high_signal_role (ct_role r))),
        (''disclosure_lag_days'', PInt (ct_disclosure_date r - ct_transaction_date r)),
        (''parser_version'', PInt 1)]"

definition normalize_congress :: "datetime \<Rightarrow> congress_trade list \<Rightarrow> observation list" where
  "normalize_congress now rs = map (congress_observation now) rs"

section \<open>fred.py\<close>

definition fred_dataset :: string where "fred_dataset = ''macro.series''"

record fred_observation =
  fo_date :: pydate
  fo_realtime_start :: pydate
  fo_value :: "flt option"

text \<open>The field validator: FRED's \<open>"."\<close>, the empty string and None are a missing value.\<close>

definition blank_is_missing :: "pyval \<Rightarrow> pyval" where
  "blank_is_missing v = (if v = PStr ''.'' \<or> v = PStr [] \<or> is_none v then PNone else v)"

definition normalize_fred :: "datetime \<Rightarrow> string \<Rightarrow> fred_observation list \<Rightarrow> observation list" where
  "normalize_fred now series_id rs =
     concat (map (\<lambda>r. case fo_value r of
         None \<Rightarrow> []
       | Some v \<Rightarrow> [new_obs now ''fred'' fred_dataset ''macro_series'' (upper series_id) None
           (day_close (fo_date r)) (day_close (fo_realtime_start r))
           [(''value'', PFloat v), (''series_id'', PStr (upper series_id))]
           [(''parser_version'', PInt 1)]]) rs)"

section \<open>edgar.py: normalisation\<close>

definition form4_dataset :: string where "form4_dataset = ''filing.form4''"

record form4_record =
  f4_issuer_ticker :: string
  f4_insider_name :: string
  f4_transaction_code :: string
  f4_transaction_date :: pydate
  f4_filing_date :: pydate
  f4_insider_title :: "string option"
  f4_shares :: "flt option"
  f4_price_per_share :: "flt option"

definition form4_observation :: "datetime \<Rightarrow> form4_record \<Rightarrow> observation" where
  "form4_observation now r =
     new_obs now ''edgar'' form4_dataset ''equity'' (upper (f4_issuer_ticker r))
       (Some (f4_insider_name r @ ''|'' @ f4_transaction_code r))
       (day_close (f4_transaction_date r)) (day_close (f4_filing_date r))
       [(''transaction_code'', PStr (f4_transaction_code r)),
        (''is_purchase'', PBool (upper (f4_transaction_code r) = ''P'')),
        (''shares'', opt_num (f4_shares r)), (''price_per_share'', opt_num (f4_price_per_share r)),
        (''insider_name'', PStr (f4_insider_name r)), (''insider_title'', opt_str (f4_insider_title r))]
       [(''filing_lag_days'', PInt (f4_filing_date r - f4_transaction_date r)),
        (''parser_version'', PInt 1)]"

definition normalize_form4 :: "datetime \<Rightarrow> form4_record list \<Rightarrow> observation list" where
  "normalize_form4 now rs = map (form4_observation now) rs"

section \<open>fundamentals.py: normalisation\<close>

definition fundamental_dataset :: string where "fundamental_dataset = ''fundamental.quarterly''"

record fundamental_record =
  fu_ticker :: string
  fu_period_end :: pydate
  fu_filed_date :: pydate
  fu_eps :: flt
  fu_fiscal_period :: "string option"

definition fundamental_observation :: "datetime \<Rightarrow> fundamental_record \<Rightarrow> observation" where
  "fundamental_observation now r =
     new_obs now ''sec_xbrl'' fundamental_dataset ''equity'' (upper (fu_ticker r))
       (Some (date_iso (fu_period_end r))) (day_close (fu_period_end r)) (day_close (fu_filed_date r))
       [(''eps'', PFloat (fu_eps r)), (''fiscal_period'', opt_str (fu_fiscal_period r))]
       [(''parser_version'', PInt 1)]"

definition normalize_fundamentals :: "datetime \<Rightarrow> fundamental_record list \<Rightarrow> observation list" where
  "normalize_fundamentals now rs = map (fundamental_observation now) rs"

section \<open>gdelt.py: normalisation\<close>

definition news_dataset :: string where "news_dataset = ''news.article''"

record news_article =
  na_seendate :: pydate
  na_title :: string
  na_url :: "string option"
  na_source_name :: "string option"
  na_tone :: "flt option"
  na_symbol :: "string option"

definition article_entity :: "news_article \<Rightarrow> string \<times> string" where
  "article_entity a =
     (case na_symbol a of
        None \<Rightarrow> (''news_global'', ''GLOBAL'')
      | Some s \<Rightarrow> if strip s \<noteq> [] then (''equity'', upper s) else (''news_global'', ''GLOBAL''))"

definition news_observation :: "datetime \<Rightarrow> news_article \<Rightarrow> observation" where
  "news_observation now a =
     new_obs now ''gdelt'' news_dataset (fst (article_entity a)) (snd (article_entity a))
       (Some (case na_url a of None \<Rightarrow> na_title a | Some u \<Rightarrow> if u = [] then na_title a else u))
       (day_close (na_seendate a)) (day_close (na_seendate a))
       [(''title'', PStr (na_title a)), (''url'', opt_str (na_url a)),
        (''source'', opt_str (na_source_name a)), (''tone'', opt_num (na_tone a))]
       [(''parser_version'', PInt 1)]"

definition normalize_news :: "datetime \<Rightarrow> news_article list \<Rightarrow> observation list" where
  "normalize_news now xs = map (news_observation now) xs"

section \<open>Lots of one filing share an identity\<close>

definition same_form4_line :: "form4_record \<Rightarrow> form4_record \<Rightarrow> bool" where
  "same_form4_line a b \<longleftrightarrow> upper (f4_issuer_ticker a) = upper (f4_issuer_ticker b)
     \<and> f4_insider_name a = f4_insider_name b \<and> f4_transaction_code a = f4_transaction_code b
     \<and> f4_transaction_date a = f4_transaction_date b \<and> f4_filing_date a = f4_filing_date b"

lemma form4_same_id:
  "same_form4_line a b \<Longrightarrow> deterministic_id (form4_observation now a) = deterministic_id (form4_observation now b)"
  by (simp add: same_form4_line_def deterministic_id_def id_text_def form4_observation_def)

text \<open>Two transactions of one Form 4 by the same insider with the same code and dates (two lots at
  different prices) have the same content-derived id, so ingesting the filing keeps only the last
  of them: the shares of the earlier lot are lost and the pair counts as one purchase.\<close>

theorem form4_lots_collapse:
  assumes "same_form4_line a b"
  shows "deterministic_id (form4_observation now a) = deterministic_id (form4_observation now b)
    \<and> unique_batch (normalize_form4 now [a, b]) = [with_deterministic_id (form4_observation now b)]"
  using form4_same_id [OF assms]
  by (simp add: unique_batch_def stamp_batch_def normalize_form4_def Let_def)

definition sample_lot :: "real \<Rightarrow> form4_record" where
  "sample_lot shares = \<lparr>f4_issuer_ticker = ''ABC'', f4_insider_name = ''DOE'', f4_transaction_code = ''P'',
     f4_transaction_date = 739000, f4_filing_date = 739002, f4_insider_title = None,
     f4_shares = Some (Fin shares), f4_price_per_share = None\<rparr>"

lemma form4_lots_collapse_witness:
  "sample_lot 100 \<noteq> sample_lot 900
   \<and> length (unique_batch (normalize_form4 0 [sample_lot 100, sample_lot 900])) = 1"
  using form4_lots_collapse [of "sample_lot 100" "sample_lot 900" 0]
  by (simp add: same_form4_line_def sample_lot_def)

end
