(* ===== verification/Clients.thy ===== *)
theory Clients
  imports Feeds Monitor
begin

text \<open>
  The fetching clients of \<open>collectors/\<close>: GDELT (\<open>gdelt.py\<close>), SEC EDGAR (\<open>edgar.py\<close>), SEC XBRL
  (\<open>fundamentals.py\<close>), Stooq and local CSV files (\<open>stooq.py\<close>, \<open>csv_prices.py\<close>), Massive (\<open>massive.py\<close>)
  and Alpaca market data (\<open>alpaca.py\<close>).

  The world \<open>'w\<close> is what the network, the clock and \<open>sleep\<close> act on.  \<open>clock\<close> reads the monotonic clock,
  \<open>get\<close> performs one request.  Decoding (\<open>loads\<close>), XML parsing, the csv reader, url encoding and the
  pydantic constructors \<open>mk_article\<close> and \<open>mk_bar\<close>, which check raw values, are parameters.  The log
  lines, with the clock reads they make, are left out.
\<close>

section \<open>Decoded documents\<close>

text \<open>\<open>d.get(k, default)\<close> and iteration on a value that need not be a dict or a list
  (\<open>AttributeError\<close> and \<open>TypeError\<close> are both \<open>TypeError\<close> here).\<close>

fun obj_get :: "pyval \<Rightarrow> string \<Rightarrow> pyval \<Rightarrow> pyval res" where
  "obj_get (PDict d) k dflt = Inr (dict_get dflt d k)"
| "obj_get _ k dflt = Inl TypeError"

fun elements :: "pyval \<Rightarrow> pyval list res" where
  "elements (PList xs) = Inr xs"
| "elements (PDict d) = Inr (map (\<lambda>kv. PStr (fst kv)) d)"
| "elements (PStr s) = Inr (map (\<lambda>c. PStr [c]) s)"
| "elements _ = Inl TypeError"

fun as_obj :: "pyval \<Rightarrow> payload res" where
  "as_obj (PDict d) = Inr d"
| "as_obj _ = Inl TypeError"

definition or_empty :: "pyval \<Rightarrow> pyval \<Rightarrow> pyval" where
  "or_empty v dflt = (if truthy v then v else dflt)"

section \<open>The best-effort sweep\<close>

text \<open>
  The loop that \<open>gdelt.py\<close>, \<open>edgar.py\<close> and \<open>fundamentals.py\<close> share: stop once the budget has
  elapsed, leave out symbols without an entry (\<open>fetch s = None\<close>), skip a symbol whose fetch raises.
\<close>

fun sweep ::
  "('w \<Rightarrow> real \<times> 'w) \<Rightarrow> real \<Rightarrow> real \<Rightarrow> (string \<Rightarrow> ('w \<Rightarrow> 'r list res \<times> 'w) option) \<Rightarrow> string list
   \<Rightarrow> 'r list \<Rightarrow> nat \<Rightarrow> 'w \<Rightarrow> ('r list \<times> nat) \<times> 'w" where
  "sweep clock budget start fetch [] out fetched w = ((out, fetched), w)"
| "sweep clock budget start fetch (s # ss) out fetched w =
     (let (t, w1) = clock w in
      if budget < t - start then ((out, fetched), w1)
      else (case fetch s of
              None \<Rightarrow> sweep clock budget start fetch ss out fetched w1
            | Some f \<Rightarrow>
                (case f w1 of
                   (Inl e, w2) \<Rightarrow> sweep clock budget start fetch ss out fetched w2
                 | (Inr rs, w2) \<Rightarrow> sweep clock budget start fetch ss (out @ rs) (Suc fetched) w2)))"

section \<open>gdelt.py\<close>

definition gdelt_doc_api :: string where
  "gdelt_doc_api = ''https://api.gdeltproject.org/api/v2/doc/doc''"

definition parse_seendate :: "(pyval \<Rightarrow> string) \<Rightarrow> pydate \<Rightarrow> pyval \<Rightarrow> pydate res" where
  "parse_seendate rpr today raw =
     (let s = py_str rpr raw
      in if 8 \<le> length s \<and> list_all is_digit (take 8 s) then strptime_date [] (take 8 s) else Inr today)"

type_synonym article_maker =
  "pydate \<Rightarrow> string \<Rightarrow> pyval \<Rightarrow> pyval \<Rightarrow> pyval \<Rightarrow> string option \<Rightarrow> news_article res"

definition article_of ::
  "(pyval \<Rightarrow> string) \<Rightarrow> article_maker \<Rightarrow> pydate \<Rightarrow> string option \<Rightarrow> pyval \<Rightarrow> news_article res" where
  "article_of rpr mk_article today symbol v =
     (case as_obj v of Inl e \<Rightarrow> Inl e | Inr a \<Rightarrow>
      case parse_seendate rpr today (pget a ''seendate'') of Inl e \<Rightarrow> Inl e | Inr seen \<Rightarrow>
        mk_article seen (py_str rpr (dict_get (PStr []) a ''title'')) (pget a ''url'')
          (pget a ''domain'') (pget a ''tone'') symbol)"

definition fetch_articles ::
  "(pyval \<Rightarrow> string) \<Rightarrow> article_maker \<Rightarrow> ((string \<times> string) list \<Rightarrow> string) \<Rightarrow> (string \<Rightarrow> 'w \<Rightarrow> payload res \<times> 'w)
   \<Rightarrow> pydate \<Rightarrow> string \<Rightarrow> int \<Rightarrow> string \<Rightarrow> string option \<Rightarrow> string \<Rightarrow> 'w \<Rightarrow> news_article list res \<times> 'w" where
  "fetch_articles rpr mk_article urlencode get today base max_records q symbol timespan w =
     (case get (base @ ''?'' @ urlencode
              [(''query'', q), (''mode'', ''ArtList''), (''format'', ''json''),
               (''maxrecords'', int_str max_records), (''timespan'', timespan), (''sort'', ''DateDesc'')]) w of
        (Inl e, w1) \<Rightarrow> (Inl e, w1)
      | (Inr d, w1) \<Rightarrow>
          (case elements (or_empty (pget d ''articles'') (PList [])) of
             Inl e \<Rightarrow> (Inl e, w1)
           | Inr xs \<Rightarrow> (map_res (article_of rpr mk_article today symbol) xs, w1)))"

definition gdelt_fetch_for_symbols ::
  "(pyval \<Rightarrow> string) \<Rightarrow> article_maker \<Rightarrow> ((string \<times> string) list \<Rightarrow> string) \<Rightarrow> (string \<Rightarrow> 'w \<Rightarrow> payload res \<times> 'w)
   \<Rightarrow> ('w \<Rightarrow> real \<times> 'w) \<Rightarrow> pydate \<Rightarrow> string \<Rightarrow> int \<Rightarrow> real \<Rightarrow> string list \<Rightarrow> string \<Rightarrow> 'w
   \<Rightarrow> news_article list \<times> 'w" where
  "gdelt_fetch_for_symbols rpr mk_article urlencode get clock today base max_records budget symbols timespan w =
     (let (start, w1) = clock w;
          ((out, _), w2) = sweep clock budget start
            (\<lambda>s. Some (fetch_articles rpr mk_article urlencode get today base max_records s (Some s) timespan))
            symbols [] 0 w1
      in (out, w2))"

section \<open>edgar.py: the client\<close>

text \<open>\<open>f"{n:010d}"\<close>.\<close>

definition zero_padded :: "nat \<Rightarrow> int \<Rightarrow> string" where
  "zero_padded width n =
     (let t = nat_str (nat \<bar>n\<bar>); sg = (if n < 0 then ''-'' else [])
      in sg @ replicate (width - length sg - length t) (CHR ''0'') @ t)"

definition sec_tickers_url :: string where
  "sec_tickers_url = ''https://www.sec.gov/files/company_tickers.json''"

definition sec_submissions_url :: "string \<Rightarrow> string" where
  "sec_submissions_url cik = ''https://data.sec.gov/submissions/CIK'' @ cik @ ''.json''"

definition sec_submissions_file_url :: "string \<Rightarrow> string" where
  "sec_submissions_file_url name = ''https://data.sec.gov/submissions/'' @ name"

definition sec_archive_url :: "string \<Rightarrow> string \<Rightarrow> string \<Rightarrow> string" where
  "sec_archive_url cik acc doc =
     ''https://www.sec.gov/Archives/edgar/data/'' @ cik @ ''/'' @ acc @ ''/'' @ doc"

definition cik_row :: "(pyval \<Rightarrow> string) \<Rightarrow> pyval \<Rightarrow> (string \<times> string) res" where
  "cik_row rpr v =
     (case as_obj v of Inl e \<Rightarrow> Inl e | Inr row \<Rightarrow>
      case pindex row ''ticker'' of Inl e \<Rightarrow> Inl e | Inr t \<Rightarrow>
      case pindex row ''cik_str'' of Inl e \<Rightarrow> Inl e | Inr c \<Rightarrow>
      case to_int c of Inl e \<Rightarrow> Inl e | Inr n \<Rightarrow> Inr (upper (py_str rpr t), zero_padded 10 n))"

definition cik_table :: "(pyval \<Rightarrow> string) \<Rightarrow> pyval \<Rightarrow> (string, string) dict res" where
  "cik_table rpr v =
     (case as_obj v of Inl e \<Rightarrow> Inl e | Inr d \<Rightarrow>
      case map_res (cik_row rpr) (vals d) of Inl e \<Rightarrow> Inl e | Inr rows \<Rightarrow> Inr (dict_of fst snd rows))"

text \<open>The map is fetched once per client; any failure leaves an empty map, which is kept as well.\<close>

definition cik_map ::
  "(pyval \<Rightarrow> string) \<Rightarrow> (string \<Rightarrow> pyval res) \<Rightarrow> (string \<Rightarrow> 'w \<Rightarrow> string res \<times> 'w)
   \<Rightarrow> (string, string) dict option \<Rightarrow> 'w \<Rightarrow> (string, string) dict \<times> 'w" where
  "cik_map rpr loads get cached w =
     (case cached of
        Some m \<Rightarrow> (m, w)
      | None \<Rightarrow>
          (case get sec_tickers_url w of
             (Inl e, w1) \<Rightarrow> ([], w1)
           | (Inr text, w1) \<Rightarrow>
               (case loads text of
                  Inl e \<Rightarrow> ([], w1)
                | Inr v \<Rightarrow> (case cik_table rpr v of Inl e \<Rightarrow> ([], w1) | Inr m \<Rightarrow> (m, w1)))))"

definition ticker_universe :: "(string, string) dict \<Rightarrow> string list" where
  "ticker_universe m = sort (keys m)"

definition doc_url :: "string \<Rightarrow> string \<Rightarrow> string \<Rightarrow> string res" where
  "doc_url cik accession primary_document =
     (let name = (if primary_document \<noteq> [] then last (split_on (CHR ''/'') primary_document) else [])
      in case parse_int cik of
           Inl e \<Rightarrow> Inl e
         | Inr n \<Rightarrow> Inr (sec_archive_url (int_str n) (filter (\<lambda>c. c \<noteq> CHR ''-'') accession) name))"

text \<open>An XML document is given by its operations: the text of the first element on a path, and the
  elements on a path.\<close>

record 'x xml_ops =
  xm_parse :: "string \<Rightarrow> 'x option"
  xm_text :: "'x \<Rightarrow> string \<Rightarrow> string option"
  xm_findall :: "'x \<Rightarrow> string \<Rightarrow> 'x list"

definition node_text :: "'x xml_ops \<Rightarrow> 'x \<Rightarrow> string \<Rightarrow> string option" where
  "node_text X node path =
     (case xm_text X node path of None \<Rightarrow> None | Some t \<Rightarrow> if t = [] then None else Some (strip t))"

definition opt_date_text :: "string option \<Rightarrow> pydate option" where
  "opt_date_text t =
     (case t of
        None \<Rightarrow> None
      | Some s \<Rightarrow> if s = [] then None
                  else (case strptime_date ''-'' (take 10 s) of Inl e \<Rightarrow> None | Inr d \<Rightarrow> Some d))"

definition form4_transaction ::
  "'x xml_ops \<Rightarrow> string \<Rightarrow> string \<Rightarrow> string option \<Rightarrow> pydate \<Rightarrow> 'x \<Rightarrow> form4_record option" where
  "form4_transaction X ticker owner title filing_date txn =
     (case (node_text X txn ''transactionCoding/transactionCode'',
            opt_date_text (node_text X txn ''transactionDate/value'')) of
        (Some code, Some tdate) \<Rightarrow>
          if code = [] then None
          else Some \<lparr>f4_issuer_ticker = upper ticker, f4_insider_name = owner,
                 f4_transaction_code = code, f4_transaction_date = tdate, f4_filing_date = filing_date,
                 f4_insider_title = title,
                 f4_shares = edgar_float (opt_str (node_text X txn ''transactionAmounts/transactionShares/value'')),
                 f4_price_per_share = edgar_float
                   (opt_str (node_text X txn ''transactionAmounts/transactionPricePerShare/value''))\<rparr>
      | _ \<Rightarrow> None)"

definition nonempty_or :: "string option \<Rightarrow> string \<Rightarrow> string" where
  "nonempty_or t dflt = (case t of None \<Rightarrow> dflt | Some s \<Rightarrow> if s = [] then dflt else s)"

definition parse_form4_xml ::
  "'x xml_ops \<Rightarrow> string \<Rightarrow> pydate \<Rightarrow> string \<Rightarrow> form4_record list" where
  "parse_form4_xml X xml_text filing_date fallback_ticker =
     (case xm_parse X xml_text of
        None \<Rightarrow> []
      | Some tree \<Rightarrow>
          let ticker = nonempty_or (node_text X tree ''issuer/issuerTradingSymbol'') fallback_ticker;
              owner = nonempty_or (node_text X tree ''reportingOwner/reportingOwnerId/rptOwnerName'') ''unknown'';
              title = node_text X tree ''reportingOwner/reportingOwnerRelationship/officerTitle''
          in if ticker = [] then []
             else List.map_filter (form4_transaction X ticker owner title filing_date)
                    (xm_findall X tree ''nonDerivativeTable/nonDerivativeTransaction''))"

fun process_rows ::
  "(pyval \<Rightarrow> string) \<Rightarrow> 'x xml_ops \<Rightarrow> (string \<Rightarrow> 'w \<Rightarrow> string res \<times> 'w) \<Rightarrow> int \<Rightarrow> string \<Rightarrow> string \<Rightarrow> pydate
   \<Rightarrow> (pyval \<times> pyval \<times> pyval \<times> pyval) list \<Rightarrow> form4_record list \<Rightarrow> int \<Rightarrow> 'w
   \<Rightarrow> form4_record list \<times> int \<times> 'w" where
  "process_rows rpr X get max_filings cik ticker cutoff [] out seen w = (out, seen, w)"
| "process_rows rpr X get max_filings cik ticker cutoff ((form, acc, fdate, doc) # rows) out seen w =
     (if form \<noteq> PStr ''4'' then process_rows rpr X get max_filings cik ticker cutoff rows out seen w
      else (case opt_date rpr fdate of
              None \<Rightarrow> process_rows rpr X get max_filings cik ticker cutoff rows out seen w
            | Some fd \<Rightarrow>
                if fd < cutoff then process_rows rpr X get max_filings cik ticker cutoff rows out seen w
                else if max_filings \<le> seen then (out, seen, w)
                else (case doc_url cik (py_str rpr acc) (py_str rpr doc) of
                        Inl e \<Rightarrow> process_rows rpr X get max_filings cik ticker cutoff rows out (seen + 1) w
                      | Inr url \<Rightarrow>
                          (case get url w of
                             (Inl e, w1) \<Rightarrow>
                               process_rows rpr X get max_filings cik ticker cutoff rows out (seen + 1) w1
                           | (Inr xml, w1) \<Rightarrow>
                               process_rows rpr X get max_filings cik ticker cutoff rows
                                 (out @ parse_form4_xml X xml fd ticker) (seen + 1) w1))))"

definition block_rows :: "pyval \<Rightarrow> (pyval \<times> pyval \<times> pyval \<times> pyval) list res" where
  "block_rows block =
     (case as_obj block of Inl e \<Rightarrow> Inl e | Inr b \<Rightarrow>
      case elements (dict_get (PList []) b ''form'') of Inl e \<Rightarrow> Inl e | Inr fs \<Rightarrow>
      case elements (dict_get (PList []) b ''accessionNumber'') of Inl e \<Rightarrow> Inl e | Inr accs \<Rightarrow>
      case elements (dict_get (PList []) b ''filingDate'') of Inl e \<Rightarrow> Inl e | Inr ds \<Rightarrow>
      case elements (dict_get (PList []) b ''primaryDocument'') of Inl e \<Rightarrow> Inl e | Inr docs \<Rightarrow>
        Inr (zip fs (zip accs (zip ds docs))))"

definition process_block ::
  "(pyval \<Rightarrow> string) \<Rightarrow> 'x xml_ops \<Rightarrow> (string \<Rightarrow> 'w \<Rightarrow> string res \<times> 'w) \<Rightarrow> int \<Rightarrow> string \<Rightarrow> string \<Rightarrow> pydate
   \<Rightarrow> pyval \<Rightarrow> form4_record list \<Rightarrow> int \<Rightarrow> 'w \<Rightarrow> (form4_record list \<times> int) res \<times> 'w" where
  "process_block rpr X get max_filings cik ticker cutoff block out seen w =
     (case block_rows block of
        Inl e \<Rightarrow> (Inl e, w)
      | Inr rows \<Rightarrow>
          (case process_rows rpr X get max_filings cik ticker cutoff rows out seen w of
             (out1, seen1, w1) \<Rightarrow> (Inr (out1, seen1), w1)))"

text \<open>The shards: an unreadable one is skipped, one that is not an object ends the symbol.\<close>

fun process_shards ::
  "(pyval \<Rightarrow> string) \<Rightarrow> (string \<Rightarrow> pyval res) \<Rightarrow> 'x xml_ops \<Rightarrow> (string \<Rightarrow> 'w \<Rightarrow> string res \<times> 'w) \<Rightarrow> int
   \<Rightarrow> string \<Rightarrow> string \<Rightarrow> pydate \<Rightarrow> pyval list \<Rightarrow> form4_record list \<Rightarrow> int \<Rightarrow> 'w
   \<Rightarrow> form4_record list res \<times> 'w" where
  "process_shards rpr loads X get max_filings cik ticker cutoff [] out seen w = (Inr out, w)"
| "process_shards rpr loads X get max_filings cik ticker cutoff (shard # shards) out seen w =
     (if max_filings \<le> seen then (Inr out, w)
      else (case as_obj shard of
              Inl e \<Rightarrow> (Inl e, w)
            | Inr sh \<Rightarrow>
                let skip = process_shards rpr loads X get max_filings cik ticker cutoff shards out seen
                in (case opt_date rpr (pget sh ''filingTo'') of
                      None \<Rightarrow> skip w
                    | Some last_filed \<Rightarrow>
                        if last_filed < cutoff \<or> \<not> truthy (pget sh ''name'') then skip w
                        else (case get (sec_submissions_file_url (py_str rpr (pget sh ''name''))) w of
                                (Inl e, w1) \<Rightarrow> skip w1
                              | (Inr text, w1) \<Rightarrow>
                                  (case loads text of
                                     Inl e \<Rightarrow> skip w1
                                   | Inr block \<Rightarrow>
                                       (case process_block rpr X get max_filings cik ticker cutoff
                                               block out seen w1 of
                                          (Inl e, w2) \<Rightarrow> skip w2
                                        | (Inr (out1, seen1), w2) \<Rightarrow>
                                            process_shards rpr loads X get max_filings cik ticker
                                              cutoff shards out1 seen1 w2))))))"

definition fetch_form4 ::
  "(pyval \<Rightarrow> string) \<Rightarrow> (string \<Rightarrow> pyval res) \<Rightarrow> 'x xml_ops \<Rightarrow> (string \<Rightarrow> 'w \<Rightarrow> string res \<times> 'w) \<Rightarrow> int
   \<Rightarrow> string \<Rightarrow> string \<Rightarrow> pydate \<Rightarrow> 'w \<Rightarrow> form4_record list res \<times> 'w" where
  "fetch_form4 rpr loads X get max_filings ticker cik cutoff w =
     (case get (sec_submissions_url cik) w of
        (Inl e, w1) \<Rightarrow> (Inl e, w1)
      | (Inr text, w1) \<Rightarrow>
          (case loads text of Inl e \<Rightarrow> (Inl e, w1) | Inr subs \<Rightarrow>
           case obj_get subs ''filings'' (PDict []) of Inl e \<Rightarrow> (Inl e, w1) | Inr filings \<Rightarrow>
           case obj_get filings ''recent'' (PDict []) of Inl e \<Rightarrow> (Inl e, w1) | Inr recent \<Rightarrow>
           case process_block rpr X get max_filings cik ticker cutoff recent [] 0 w1 of
             (Inl e, w2) \<Rightarrow> (Inl e, w2)
           | (Inr (out, seen), w2) \<Rightarrow>
               (case obj_get filings ''files'' (PList []) of Inl e \<Rightarrow> (Inl e, w2) | Inr files \<Rightarrow>
                case elements files of Inl e \<Rightarrow> (Inl e, w2) | Inr shards \<Rightarrow>
                  process_shards rpr loads X get max_filings cik ticker cutoff shards out seen w2)))"

definition edgar_fetch_for_symbols ::
  "(pyval \<Rightarrow> string) \<Rightarrow> (string \<Rightarrow> pyval res) \<Rightarrow> 'x xml_ops \<Rightarrow> (string \<Rightarrow> 'w \<Rightarrow> string res \<times> 'w)
   \<Rightarrow> ('w \<Rightarrow> real \<times> 'w) \<Rightarrow> pydate \<Rightarrow> int \<Rightarrow> real \<Rightarrow> (string, string) dict option \<Rightarrow> string list \<Rightarrow> int \<Rightarrow> 'w
   \<Rightarrow> form4_record list \<times> (string, string) dict \<times> 'w" where
  "edgar_fetch_for_symbols rpr loads X get clock today max_filings budget cached symbols lookback_days w =
     (let (m, w1) = cik_map rpr loads get cached w;
          cutoff = today - lookback_days;
          (start, w2) = clock w1;
          ((out, _), w3) = sweep clock budget start
            (\<lambda>s. case map_of m (upper s) of
                 None \<Rightarrow> None
               | Some cik \<Rightarrow> if cik = [] then None
                             else Some (fetch_form4 rpr loads X get max_filings s cik cutoff))
            symbols [] 0 w2
      in (out, m, w3))"

section \<open>fundamentals.py: the client\<close>

record quarter =
  qu_end :: pydate
  qu_filed :: pydate
  qu_eps :: flt
  qu_fp :: pyval

definition quarter_entry ::
  "(pyval \<Rightarrow> string) \<Rightarrow> pyval \<Rightarrow> (string, quarter) dict \<Rightarrow> (string, quarter) dict res" where
  "quarter_entry rpr v acc =
     (case as_obj v of Inl err \<Rightarrow> Inl err | Inr e \<Rightarrow>
      case (opt_date_fundamental rpr (pget e ''start''), opt_date_fundamental rpr (pget e ''end''),
            opt_date_fundamental rpr (pget e ''filed'')) of
        (Some sd, Some ed, Some fd) \<Rightarrow>
          if is_none (pget e ''val'') then Inr acc
          else if \<not> (80 \<le> ed - sd \<and> ed - sd \<le> 100) then Inr acc
          else
            let key = date_iso ed in
            if (case map_of acc key of None \<Rightarrow> True | Some prior \<Rightarrow> fd < qu_filed prior)
            then (case to_float (pget e ''val'') of
                    Inl err \<Rightarrow> Inl err
                  | Inr eps \<Rightarrow> Inr (dict_set key
                      \<lparr>qu_end = ed, qu_filed = fd, qu_eps = eps, qu_fp = pget e ''fp''\<rparr> acc))
            else Inr acc
      | _ \<Rightarrow> Inr acc)"

fun quarter_entries ::
  "(pyval \<Rightarrow> string) \<Rightarrow> pyval list \<Rightarrow> (string, quarter) dict \<Rightarrow> (string, quarter) dict res" where
  "quarter_entries rpr [] acc = Inr acc"
| "quarter_entries rpr (v # vs) acc =
     (case quarter_entry rpr v acc of Inl e \<Rightarrow> Inl e | Inr acc' \<Rightarrow> quarter_entries rpr vs acc')"

definition fundamental_of_quarter :: "(pyval \<Rightarrow> string) \<Rightarrow> string \<Rightarrow> quarter \<Rightarrow> fundamental_record" where
  "fundamental_of_quarter rpr ticker r =
     \<lparr>fu_ticker = ticker, fu_period_end = qu_end r, fu_filed_date = qu_filed r, fu_eps = qu_eps r,
      fu_fiscal_period = (if truthy (qu_fp r) then Some (py_str rpr (qu_fp r)) else None)\<rparr>"

definition parse_companyfacts ::
  "(pyval \<Rightarrow> string) \<Rightarrow> pyval \<Rightarrow> string \<Rightarrow> fundamental_record list res" where
  "parse_companyfacts rpr doc fallback_ticker =
     (let ticker = upper fallback_ticker in
      if ticker = [] then Inr []
      else case obj_get doc ''facts'' PNone of Inl e \<Rightarrow> Inl e | Inr facts \<Rightarrow>
           case obj_get (or_empty facts (PDict [])) ''us-gaap'' PNone of Inl e \<Rightarrow> Inl e | Inr g \<Rightarrow>
           case obj_get (or_empty g (PDict [])) ''EarningsPerShareDiluted'' PNone of
             Inl e \<Rightarrow> Inl e | Inr diluted \<Rightarrow>
           case (if truthy diluted then Inr diluted
                 else obj_get (or_empty g (PDict [])) ''EarningsPerShareBasic'' PNone) of
             Inl e \<Rightarrow> Inl e | Inr eps_facts \<Rightarrow>
           case obj_get (or_empty eps_facts (PDict [])) ''units'' PNone of Inl e \<Rightarrow> Inl e | Inr units \<Rightarrow>
           case obj_get (or_empty units (PDict [])) ''USD/shares'' PNone of Inl e \<Rightarrow> Inl e | Inr es \<Rightarrow>
           case elements (or_empty es (PList [])) of Inl e \<Rightarrow> Inl e | Inr entries \<Rightarrow>
           case quarter_entries rpr entries [] of
             Inl e \<Rightarrow> Inl e
           | Inr by_quarter \<Rightarrow> Inr (map (fundamental_of_quarter rpr ticker) (vals by_quarter)))"

definition companyfacts_url :: "string \<Rightarrow> string" where
  "companyfacts_url cik = ''https://data.sec.gov/api/xbrl/companyfacts/CIK'' @ cik @ ''.json''"

definition fetch_fundamentals ::
  "(pyval \<Rightarrow> string) \<Rightarrow> (string \<Rightarrow> pyval res) \<Rightarrow> (string \<Rightarrow> 'w \<Rightarrow> string res \<times> 'w) \<Rightarrow> string \<Rightarrow> string \<Rightarrow> 'w
   \<Rightarrow> fundamental_record list res \<times> 'w" where
  "fetch_fundamentals rpr loads get ticker cik w =
     (case get (companyfacts_url cik) w of
        (Inl e, w1) \<Rightarrow> (Inl e, w1)
      | (Inr text, w1) \<Rightarrow>
          ((case loads text of Inl e \<Rightarrow> Inl e | Inr doc \<Rightarrow> parse_companyfacts rpr doc ticker), w1))"

text \<open>\<open>fundamentals.py\<close> keeps a copy of \<open>edgar.py\<close>'s ticker map, from the same address.\<close>

definition fundamentals_cik_map ::
  "(pyval \<Rightarrow> string) \<Rightarrow> (string \<Rightarrow> pyval res) \<Rightarrow> (string \<Rightarrow> 'w \<Rightarrow> string res \<times> 'w)
   \<Rightarrow> (string, string) dict option \<Rightarrow> 'w \<Rightarrow> (string, string) dict \<times> 'w" where
  "fundamentals_cik_map = cik_map"

definition fundamentals_fetch_for_symbols ::
  "(pyval \<Rightarrow> string) \<Rightarrow> (string \<Rightarrow> pyval res) \<Rightarrow> (string \<Rightarrow> 'w \<Rightarrow> string res \<times> 'w) \<Rightarrow> ('w \<Rightarrow> real \<times> 'w) \<Rightarrow> real
   \<Rightarrow> (string, string) dict option \<Rightarrow> string list \<Rightarrow> 'w
   \<Rightarrow> fundamental_record list \<times> (string, string) dict \<times> 'w" where
  "fundamentals_fetch_for_symbols rpr loads get clock budget cached symbols w =
     (let (m, w1) = fundamentals_cik_map rpr loads get cached w;
          (start, w2) = clock w1;
          ((out, _), w3) = sweep clock budget start
            (\<lambda>s. case map_of m (upper s) of
                 None \<Rightarrow> None
               | Some cik \<Rightarrow> if cik = [] then None
                             else Some (fetch_fundamentals rpr loads get s cik))
            symbols [] 0 w2
      in (out, m, w3))"

section \<open>stooq.py and csv_prices.py\<close>

text \<open>A csv row maps the header cells to the row's cells (\<open>csv.DictReader\<close> over the body's lines).\<close>

type_synonym csv_row = "(string, string) dict"

definition stooq_csv_url :: string where "stooq_csv_url = ''https://stooq.com/q/d/l/''"

definition date8 :: "pydate \<Rightarrow> string" where
  "date8 d = (case ord2ymd d of (y, m, dd) \<Rightarrow> pad 4 y @ pad 2 m @ pad 2 dd)"

definition csv_url :: "string \<Rightarrow> pydate \<Rightarrow> pydate \<Rightarrow> string" where
  "csv_url ticker start end1 =
     stooq_csv_url @ ''?s='' @ lower ticker @ ''.us&i=d&d1='' @ date8 start @ ''&d2='' @ date8 end1"

definition cell :: "csv_row \<Rightarrow> string \<Rightarrow> string" where
  "cell row k = (case map_of row k of None \<Rightarrow> [] | Some t \<Rightarrow> strip t)"

definition stooq_bar :: "string \<Rightarrow> csv_row \<Rightarrow> price_bar option" where
  "stooq_bar symbol row =
     (case (cell row ''Date'', opt_float (map_of row ''Close'')) of
        (raw_date, Some close) \<Rightarrow>
          if raw_date = [] then None
          else (case strptime_date ''-'' raw_date of
                  Inl e \<Rightarrow> None
                | Inr d \<Rightarrow> Some \<lparr>pb_date = d, pb_symbol = symbol, pb_close = close,
                    pb_open = opt_float (map_of row ''Open''), pb_high = opt_float (map_of row ''High''),
                    pb_low = opt_float (map_of row ''Low''), pb_volume = opt_float (map_of row ''Volume''),
                    pb_adj_close = None\<rparr>)
      | _ \<Rightarrow> None)"

definition parse_csv :: "(string \<Rightarrow> csv_row list) \<Rightarrow> string \<Rightarrow> string \<Rightarrow> price_bar list" where
  "parse_csv csv_rows body symbol = List.map_filter (stooq_bar symbol) (csv_rows body)"

definition stooq_fetch_symbol ::
  "(string \<Rightarrow> csv_row list) \<Rightarrow> (string \<Rightarrow> 'w \<Rightarrow> string res \<times> 'w) \<Rightarrow> pydate \<Rightarrow> pydate \<Rightarrow> string \<Rightarrow> 'w
   \<Rightarrow> price_bar list res \<times> 'w" where
  "stooq_fetch_symbol csv_rows get start end1 symbol w =
     (case get (csv_url symbol start end1) w of
        (Inl e, w1) \<Rightarrow> (Inl e, w1) | (Inr body, w1) \<Rightarrow> (Inr (parse_csv csv_rows body symbol), w1))"

text \<open>The Stooq sweep also pauses after each symbol that was fetched, except after the last.\<close>

fun stooq_sweep ::
  "('w \<Rightarrow> real \<times> 'w) \<Rightarrow> (real \<Rightarrow> 'w \<Rightarrow> 'w) \<Rightarrow> real \<Rightarrow> real \<Rightarrow> real \<Rightarrow> (string \<Rightarrow> 'w \<Rightarrow> price_bar list res \<times> 'w)
   \<Rightarrow> string list \<Rightarrow> price_bar list \<Rightarrow> 'w \<Rightarrow> price_bar list \<times> 'w" where
  "stooq_sweep clock sleep budget delay start fetch [] out w = (out, w)"
| "stooq_sweep clock sleep budget delay start fetch (s # ss) out w =
     (let (t, w1) = clock w in
      if budget < t - start then (out, w1)
      else (case fetch s w1 of
              (Inl e, w2) \<Rightarrow> stooq_sweep clock sleep budget delay start fetch ss out w2
            | (Inr bs, w2) \<Rightarrow>
                stooq_sweep clock sleep budget delay start fetch ss (out @ bs)
                  (if 0 < delay \<and> ss \<noteq> [] then sleep delay w2 else w2)))"

definition stooq_fetch_daily_bars ::
  "(string \<Rightarrow> csv_row list) \<Rightarrow> (string \<Rightarrow> 'w \<Rightarrow> string res \<times> 'w) \<Rightarrow> ('w \<Rightarrow> real \<times> 'w) \<Rightarrow> (real \<Rightarrow> 'w \<Rightarrow> 'w)
   \<Rightarrow> real \<Rightarrow> real \<Rightarrow> string list \<Rightarrow> pydate \<Rightarrow> pydate \<Rightarrow> 'w \<Rightarrow> price_bar list \<times> 'w" where
  "stooq_fetch_daily_bars csv_rows get clock sleep budget delay symbols start end1 w =
     (let (t0, w1) = clock w
      in stooq_sweep clock sleep budget delay t0 (stooq_fetch_symbol csv_rows get start end1) symbols [] w1)"

fun contains :: "string \<Rightarrow> string \<Rightarrow> bool" where
  "contains p [] \<longleftrightarrow> p = []"
| "contains p (c # s) \<longleftrightarrow> starts_with p (c # s) \<or> contains p s"

definition is_linebreak :: "char \<Rightarrow> bool" where
  "is_linebreak c \<longleftrightarrow> (let n = of_char c :: nat in n \<in> {10, 11, 12, 13, 28, 29, 30, 133})"

definition ends_with :: "string \<Rightarrow> string \<Rightarrow> bool" where
  "ends_with p s \<longleftrightarrow> starts_with (rev p) (rev s)"

definition drop_trailer :: "string \<Rightarrow> string" where
  "drop_trailer stem =
     (let low = lower stem
      in if ends_with ''_us_d'' low then take (length stem - 5) stem
         else if ends_with ''_us'' low then take (length stem - 3) stem
         else if ends_with ''_d'' low then take (length stem - 2) stem
         else stem)"

text \<open>The stem of the last path component, up to its first dot.\<close>

definition symbol_from_filename :: "string \<Rightarrow> string" where
  "symbol_from_filename name =
     (let comps = filter (\<lambda>p. p \<noteq> []) (split_on (CHR ''/'') name);
          file = (if comps = [] then [] else last comps)
      in upper (drop_trailer (takeWhile (\<lambda>c. c \<noteq> CHR ''.'') file)))"

definition bulk_bar :: "csv_row \<Rightarrow> price_bar option" where
  "bulk_bar row =
     (let ticker = cell row ''<TICKER>''; raw_date = cell row ''<DATE>'' in
      case opt_float (map_of row ''<CLOSE>'') of
        None \<Rightarrow> None
      | Some close \<Rightarrow>
          if ticker = [] \<or> raw_date = [] then None
          else (case strptime_date [] raw_date of
                  Inl e \<Rightarrow> None
                | Inr d \<Rightarrow> Some \<lparr>pb_date = d, pb_symbol = upper (takeWhile (\<lambda>c. c \<noteq> CHR ''.'') ticker),
                    pb_close = close, pb_open = opt_float (map_of row ''<OPEN>''),
                    pb_high = opt_float (map_of row ''<HIGH>''), pb_low = opt_float (map_of row ''<LOW>''),
                    pb_volume = opt_float (map_of row ''<VOL>''), pb_adj_close = None\<rparr>))"

definition parse_bulk_csv :: "(string \<Rightarrow> csv_row list) \<Rightarrow> string \<Rightarrow> price_bar list" where
  "parse_bulk_csv csv_rows body = List.map_filter bulk_bar (csv_rows body)"

definition parse_price_csv :: "(string \<Rightarrow> csv_row list) \<Rightarrow> string \<Rightarrow> string \<Rightarrow> price_bar list" where
  "parse_price_csv csv_rows body default_symbol =
     (if body = [] \<or> strip body = [] then []
      else let header = takeWhile (\<lambda>c. \<not> is_linebreak c) body
           in if contains ''<TICKER>'' header \<or> contains ''<DATE>'' header then parse_bulk_csv csv_rows body
              else if default_symbol = [] then []
              else parse_csv csv_rows body (upper default_symbol))"

definition read_price_csv :: "(string \<Rightarrow> csv_row list) \<Rightarrow> string \<Rightarrow> string \<Rightarrow> string option \<Rightarrow> price_bar list" where
  "read_price_csv csv_rows name body symbol =
     parse_price_csv csv_rows body (nonempty_or symbol (symbol_from_filename name))"

text \<open>Reading the files: a name with its text or the exception of reading it.\<close>

definition read_price_files ::
  "(string \<Rightarrow> csv_row list) \<Rightarrow> (string \<times> string res) list \<Rightarrow> string option \<Rightarrow> price_bar list" where
  "read_price_files csv_rows files symbol =
     concat (map (\<lambda>(name, text). case text of
         Inl e \<Rightarrow> []
       | Inr body \<Rightarrow> read_price_csv csv_rows name body (if length files = 1 then symbol else None)) files)"

section \<open>massive.py\<close>

text \<open>The outcome of one day's request: its bars, the client's own \<open>MassiveError\<close>, or another exception.\<close>

datatype 'a day_outcome = DayBars 'a | DayFailed | DayRaised pyerr

type_synonym bar_maker =
  "pydate \<Rightarrow> string \<Rightarrow> flt \<Rightarrow> pyval \<Rightarrow> pyval \<Rightarrow> pyval \<Rightarrow> pyval \<Rightarrow> price_bar res"

definition grouped_daily ::
  "(pydate \<Rightarrow> 'w \<Rightarrow> (int \<times> payload) res \<times> 'w) \<Rightarrow> pydate \<Rightarrow> 'w \<Rightarrow> pyval list day_outcome \<times> 'w" where
  "grouped_daily get day w =
     (case get day w of
        (Inl e, w1) \<Rightarrow> (DayRaised e, w1)
      | (Inr (status, d), w1) \<Rightarrow>
          if status \<noteq> 200 then (DayFailed, w1)
          else (case pget d ''results'' of PList xs \<Rightarrow> (DayBars xs, w1) | _ \<Rightarrow> (DayBars [], w1)))"

definition massive_bar ::
  "(pyval \<Rightarrow> string) \<Rightarrow> bar_maker \<Rightarrow> string set \<Rightarrow> pydate \<Rightarrow> pyval \<Rightarrow> price_bar option res" where
  "massive_bar rpr mk_bar wanted day v =
     (case as_obj v of Inl e \<Rightarrow> Inl e | Inr r \<Rightarrow>
        let ticker = upper (py_str rpr (dict_get (PStr []) r ''T'')) in
        if ticker \<in> wanted \<and> \<not> is_none (pget r ''c'') then
          (case to_float (pget r ''c'') of Inl e \<Rightarrow> Inl e | Inr c \<Rightarrow>
           case mk_bar day ticker c (pget r ''o'') (pget r ''h'') (pget r ''l'') (pget r ''v'') of
             Inl e \<Rightarrow> Inl e | Inr b \<Rightarrow> Inr (Some b))
        else Inr None)"

text \<open>One pass per date of the range: a weekday waits for the rate limit, makes one request, and only
  \<open>MassiveError\<close> is caught.\<close>

function massive_days ::
  "(pyval \<Rightarrow> string) \<Rightarrow> bar_maker \<Rightarrow> (pydate \<Rightarrow> 'w \<Rightarrow> (int \<times> payload) res \<times> 'w) \<Rightarrow> ('w \<Rightarrow> real \<times> 'w)
   \<Rightarrow> (real \<Rightarrow> 'w \<Rightarrow> 'w) \<Rightarrow> real \<Rightarrow> real \<Rightarrow> real \<Rightarrow> string set \<Rightarrow> pydate \<Rightarrow> pydate \<Rightarrow> real \<Rightarrow> price_bar list \<Rightarrow> 'w
   \<Rightarrow> price_bar list res \<times> 'w" where
  "massive_days rpr mk_bar get clock sleep min_interval budget started wanted day end1 last_call out w =
     (if end1 < day then (Inr out, w)
      else
        let (t, w1) = clock w in
        if budget < t - started then (Inr out, w1)
        else if weekday day < 5 then
          let (t1, w2) = clock w1;
              wait = min_interval - (t1 - last_call);
              w3 = (if 0 < wait then sleep wait w2 else w2);
              (call, w4) = clock w3
          in case grouped_daily get day w4 of
               (DayRaised e, w5) \<Rightarrow> (Inl e, w5)
             | (DayFailed, w5) \<Rightarrow>
                 massive_days rpr mk_bar get clock sleep min_interval budget started wanted (day + 1) end1 call out w5
             | (DayBars xs, w5) \<Rightarrow>
                 (case collect_res (massive_bar rpr mk_bar wanted day) xs of
                    Inl e \<Rightarrow> (Inl e, w5)
                  | Inr bs \<Rightarrow>
                      massive_days rpr mk_bar get clock sleep min_interval budget started wanted (day + 1) end1
                        call (out @ bs) w5)
        else massive_days rpr mk_bar get clock sleep min_interval budget started wanted (day + 1) end1
               last_call out w1)"
  by pat_completeness auto
termination
  by (relation "measure (\<lambda>(_, _, _, _, _, _, _, _, _, day, end1, _, _, _). nat (end1 - day + 1))") auto

declare massive_days.simps [simp del]

definition massive_fetch_daily_bars ::
  "(pyval \<Rightarrow> string) \<Rightarrow> bar_maker \<Rightarrow> (pydate \<Rightarrow> 'w \<Rightarrow> (int \<times> payload) res \<times> 'w) \<Rightarrow> ('w \<Rightarrow> real \<times> 'w)
   \<Rightarrow> (real \<Rightarrow> 'w \<Rightarrow> 'w) \<Rightarrow> real \<Rightarrow> real \<Rightarrow> string list \<Rightarrow> pydate \<Rightarrow> pydate \<Rightarrow> 'w \<Rightarrow> price_bar list res \<times> 'w" where
  "massive_fetch_daily_bars rpr mk_bar get clock sleep min_interval budget symbols start end1 w =
     (let (started, w1) = clock w
      in massive_days rpr mk_bar get clock sleep min_interval budget started (set (map upper symbols))
           start end1 0 [] w1)"

section \<open>alpaca.py (market data)\<close>

definition symbol_bars :: "string \<times> pyval \<Rightarrow> (string \<times> payload) list res" where
  "symbol_bars sb =
     (case elements (snd sb) of Inl e \<Rightarrow> Inl e | Inr bars \<Rightarrow>
        map_res (\<lambda>b. case as_obj b of Inl e \<Rightarrow> Inl e | Inr bar \<Rightarrow> Inr (fst sb, bar)) bars)"

definition page_bars :: "payload \<Rightarrow> (string \<times> payload) list res" where
  "page_bars d =
     (case as_obj (or_empty (pget d ''bars'') (PDict [])) of Inl e \<Rightarrow> Inl e | Inr bs \<Rightarrow>
      case map_res symbol_bars bs of Inl e \<Rightarrow> Inl e | Inr bars \<Rightarrow> Inr (concat bars))"

text \<open>Following \<open>next_page_token\<close> may not end; \<open>get\<close> is the request for a page.\<close>

partial_function (option) iter_bars ::
  "(pyval option \<Rightarrow> 'w \<Rightarrow> (int \<times> payload) res \<times> 'w) \<Rightarrow> pyval option \<Rightarrow> (string \<times> payload) list \<Rightarrow> 'w
   \<Rightarrow> ((string \<times> payload) list res \<times> 'w) option" where
  "iter_bars get page_token acc w =
     (case get page_token w of
        (Inl e, w1) \<Rightarrow> Some (Inl e, w1)
      | (Inr (status, d), w1) \<Rightarrow>
          if 300 \<le> status then Some (Inl RuntimeError, w1)
          else (case page_bars d of
                  Inl e \<Rightarrow> Some (Inl e, w1)
                | Inr bs \<Rightarrow>
                    if truthy (pget d ''next_page_token'')
                    then iter_bars get (Some (pget d ''next_page_token'')) (acc @ bs) w1
                    else Some (Inr (acc @ bs), w1)))"

definition daily_record :: "(pyval \<Rightarrow> string) \<Rightarrow> string \<times> payload \<Rightarrow> payload res" where
  "daily_record rpr sb =
     (let (symbol, bar) = sb in
      case pindex bar ''t'' of Inl e \<Rightarrow> Inl e | Inr t \<Rightarrow>
        Inr [(''date'', PStr (take 10 (py_str rpr t))), (''symbol'', PStr symbol),
             (''open'', pget bar ''o''), (''high'', pget bar ''h''), (''low'', pget bar ''l''),
             (''close'', pget bar ''c''), (''volume'', pget bar ''v'')])"

definition intraday_record :: "string \<times> payload \<Rightarrow> payload res" where
  "intraday_record sb =
     (let (symbol, bar) = sb in
      case pindex bar ''t'' of Inl e \<Rightarrow> Inl e | Inr t \<Rightarrow>
        Inr [(''timestamp'', t), (''symbol'', PStr symbol),
             (''open'', pget bar ''o''), (''high'', pget bar ''h''), (''low'', pget bar ''l''),
             (''close'', pget bar ''c''), (''volume'', pget bar ''v'')])"

definition bar_params :: "string list \<Rightarrow> string \<Rightarrow> string \<Rightarrow> string \<Rightarrow> string \<Rightarrow> string \<Rightarrow> (string \<times> string) list" where
  "bar_params symbols timeframe start end1 adjustment feed =
     [(''symbols'', join '','' symbols), (''timeframe'', timeframe), (''start'', start), (''end'', end1),
      (''adjustment'', adjustment), (''feed'', feed), (''limit'', ''10000'')]"

definition alpaca_fetch_daily_bars ::
  "(pyval \<Rightarrow> string) \<Rightarrow> ((string \<times> string) list \<Rightarrow> pyval option \<Rightarrow> 'w \<Rightarrow> (int \<times> payload) res \<times> 'w)
   \<Rightarrow> string list \<Rightarrow> pydate \<Rightarrow> pydate \<Rightarrow> string \<Rightarrow> string \<Rightarrow> 'w \<Rightarrow> (payload list res \<times> 'w) option" where
  "alpaca_fetch_daily_bars rpr request symbols start end1 adjustment feed w =
     (case iter_bars (request (bar_params symbols ''1Day'' (date_iso start) (date_iso end1) adjustment feed))
             None [] w of
        None \<Rightarrow> None
      | Some (Inl e, w1) \<Rightarrow> Some (Inl e, w1)
      | Some (Inr bars, w1) \<Rightarrow> Some (map_res (daily_record rpr) bars, w1))"

definition alpaca_fetch_intraday_bars ::
  "((string \<times> string) list \<Rightarrow> pyval option \<Rightarrow> 'w \<Rightarrow> (int \<times> payload) res \<times> 'w)
   \<Rightarrow> string list \<Rightarrow> datetime \<Rightarrow> datetime \<Rightarrow> string \<Rightarrow> string \<Rightarrow> string \<Rightarrow> 'w \<Rightarrow> (payload list res \<times> 'w) option" where
  "alpaca_fetch_intraday_bars request symbols start end1 timeframe feed adjustment w =
     (case iter_bars (request (bar_params symbols timeframe (isoformat start) (isoformat end1) adjustment feed))
             None [] w of
        None \<Rightarrow> None
      | Some (Inl e, w1) \<Rightarrow> Some (Inl e, w1)
      | Some (Inr bars, w1) \<Rightarrow> Some (map_res intraday_record bars, w1))"

section \<open>A sweep cannot stall\<close>

text \<open>
  What is known of a world with a clock: reading the clock changes nothing, and a request takes at
  least \<open>tick\<close> and at most \<open>longest\<close>.
\<close>

locale timed_world =
  fixes clock :: "'w \<Rightarrow> real \<times> 'w"
    and time :: "'w \<Rightarrow> real"
    and fetch :: "string \<Rightarrow> ('w \<Rightarrow> 'r list res \<times> 'w) option"
    and tick longest :: real
  assumes clock_reads: "clock w = (time w, w)"
    and takes_at_least: "fetch s = Some f \<Longrightarrow> time w + tick \<le> time (snd (f w))"
    and takes_at_most: "fetch s = Some f \<Longrightarrow> time (snd (f w)) \<le> time w + longest"
    and tick_pos: "0 < tick"
    and longest_pos: "0 \<le> longest"
begin

lemma sweep_step:
  "sweep clock budget start fetch (s # ss) out n w =
     (if budget < time w - start then ((out, n), w)
      else (case fetch s of
              None \<Rightarrow> sweep clock budget start fetch ss out n w
            | Some f \<Rightarrow> (case f w of
                  (Inl e, w2) \<Rightarrow> sweep clock budget start fetch ss out n w2
                | (Inr rs, w2) \<Rightarrow> sweep clock budget start fetch ss (out @ rs) (Suc n) w2)))"
  unfolding sweep.simps clock_reads Let_def prod.case by (rule refl)

declare sweep.simps(2) [simp del]

lemma sweep_fetched:
  assumes "0 \<le> budget" "start \<le> time w"
  shows "real (snd (fst (sweep clock budget start fetch ss out n w))) * tick
      \<le> real n * tick + max 0 (start + budget - time w) + tick"
  using assms
proof (induction ss arbitrary: out n w)
  case Nil
  then show ?case using tick_pos by simp
next
  case (Cons s ss)
  show ?case
  proof (cases "budget < time w - start")
    case True
    then show ?thesis using tick_pos by (simp add: sweep_step)
  next
    case inside: False
    show ?thesis
    proof (cases "fetch s")
      case None
      then show ?thesis using Cons.IH [of w out n] Cons.prems inside by (simp add: sweep_step)
    next
      case (Some f)
      obtain r w2 where f: "f w = (r, w2)" by (rule prod.exhaust)
      have t: "time w + tick \<le> time w2" using takes_at_least [OF Some, of w] f by simp
      have late: "start \<le> time w2" using t tick_pos Cons.prems by linarith
      have IH: "real (snd (fst (sweep clock budget start fetch ss o1 m w2))) * tick
          \<le> real m * tick + max 0 (start + budget - time w2) + tick" for o1 m
        using Cons.IH [of w2 o1 m] Cons.prems late by simp
      have slack: "max 0 (start + budget - time w2) + tick \<le> max 0 (start + budget - time w) + tick"
        using t tick_pos by simp
      have slack1: "max 0 (start + budget - time w2) + tick \<le> (start + budget - time w) + tick"
        using t tick_pos inside by simp
      have slack2: "real (Suc n) * tick + max 0 (start + budget - time w2)
          \<le> real n * tick + max 0 (start + budget - time w) + tick"
        using t tick_pos inside by (simp add: algebra_simps)
      show ?thesis
      proof (cases r)
        case (Inl e)
        then show ?thesis
          using IH [of out n] slack Some f inside by (simp add: sweep_step)
      next
        case (Inr rs)
        show ?thesis
        proof (cases "time w2 \<le> start + budget")
          case True
          have "real (Suc n) * tick + (start + budget - time w2) + tick
              \<le> real n * tick + (start + budget - time w) + tick"
            using t by (simp add: algebra_simps)
          then show ?thesis
            using IH [of "out @ rs" "Suc n"] True Some f inside Inr t tick_pos
            by (simp add: sweep_step)
        next
          case False
          have "sweep clock budget start fetch ss (out @ rs) (Suc n) w2 = ((out @ rs, Suc n), w2)"
            using False by (cases ss) (simp_all add: sweep_step)
          then show ?thesis
            using Some f inside Inr t tick_pos by (simp add: sweep_step algebra_simps)
        qed
      qed
    qed
  qed
qed

lemma sweep_ends:
  assumes "start \<le> time w"
  shows "time (snd (sweep clock budget start fetch ss out n w)) \<le> max (time w) (start + budget + longest)"
  using assms
proof (induction ss arbitrary: out n w)
  case (Cons s ss)
  show ?case
  proof (cases "budget < time w - start")
    case True
    then show ?thesis by (simp add: sweep_step)
  next
    case inside: False
    show ?thesis
    proof (cases "fetch s")
      case None
      then show ?thesis using Cons.IH [of w out n] Cons.prems inside by (simp add: sweep_step)
    next
      case (Some f)
      obtain r w2 where f: "f w = (r, w2)" by (rule prod.exhaust)
      have t: "time w + tick \<le> time w2" "time w2 \<le> time w + longest"
        using takes_at_least [OF Some, of w] takes_at_most [OF Some, of w] f by simp_all
      have late: "start \<le> time w2" using t tick_pos Cons.prems by linarith
      have w2: "time w2 \<le> start + budget + longest" using t inside by linarith
      have cap: "max (time w) (start + budget + longest) = start + budget + longest"
        "max (time w2) (start + budget + longest) = start + budget + longest"
        using inside w2 longest_pos by (simp_all add: max_def)
      have IH: "time (snd (sweep clock budget start fetch ss o1 m w2)) \<le> start + budget + longest" for o1 m
        using Cons.IH [OF late, of o1 m] unfolding cap(2) .
      show ?thesis
        unfolding cap(1) using IH Some f inside by (cases r) (simp_all add: sweep_step)
    qed
  qed
qed simp

end

text \<open>A network on which every request takes one second and \<open>reply\<close> answers: the GDELT client over it
  is a timed world.\<close>

definition read_clock :: "real \<Rightarrow> real \<times> real" where "read_clock w = (w, w)"

definition answer_in_a_second :: "(string \<Rightarrow> payload res) \<Rightarrow> string \<Rightarrow> real \<Rightarrow> payload res \<times> real" where
  "answer_in_a_second reply url w = (reply url, w + 1)"

definition gdelt_second ::
  "(pyval \<Rightarrow> string) \<Rightarrow> article_maker \<Rightarrow> ((string \<times> string) list \<Rightarrow> string) \<Rightarrow> (string \<Rightarrow> payload res)
   \<Rightarrow> pydate \<Rightarrow> string \<Rightarrow> (real \<Rightarrow> news_article list res \<times> real) option" where
  "gdelt_second rpr mk_article urlencode reply today s =
     Some (fetch_articles rpr mk_article urlencode (answer_in_a_second reply) today gdelt_doc_api 50 s
             (Some s) ''3d'')"

lemma fetch_articles_time:
  "snd (fetch_articles rpr mk_article urlencode (answer_in_a_second reply) today base n q sy ts w) = w + 1"
  by (simp add: fetch_articles_def answer_in_a_second_def split: sum.split)

interpretation gdelt_seconds:
  timed_world read_clock "\<lambda>w. w" "gdelt_second rpr mk_article urlencode reply today" 1 1
  for rpr mk_article urlencode reply today
  by unfold_locales (auto simp: read_clock_def gdelt_second_def fetch_articles_time)

text \<open>A slow source cannot stall the cycle.  When every request takes between \<open>tick\<close> and \<open>longest\<close>
  seconds, a sweep over any number of symbols ends within its budget plus one request, and the
  symbols fetched number at most budget divided by \<open>tick\<close>, plus one.\<close>

theorem sweep_is_bounded:
  assumes "timed_world clock time fetch tick longest" "0 \<le> budget"
  shows "real (snd (fst (sweep clock budget (time w) fetch symbols [] 0 w))) * tick \<le> budget + tick
    \<and> time (snd (sweep clock budget (time w) fetch symbols [] 0 w)) \<le> time w + budget + longest"
  using timed_world.sweep_fetched [OF assms, of "time w" w symbols "[]" 0]
    timed_world.sweep_ends [OF assms(1), of "time w" w budget symbols "[]" 0] assms(2)
    timed_world.longest_pos [OF assms(1)]
  by simp

lemma sweep_is_bounded_witness:
  "real (snd (fst (sweep read_clock 2 0
      (gdelt_second (\<lambda>v. []) (\<lambda>d t u n to s. Inl ValueError) (\<lambda>q. []) (\<lambda>u. Inr []) 739000)
      [''a'', ''b'', ''c'', ''d'', ''e''] [] 0 0))) * 1 \<le> 2 + 1"
proof -
  have ax: "timed_world read_clock (\<lambda>w. w)
      (gdelt_second (\<lambda>v. []) (\<lambda>d t u n to s. Inl ValueError) (\<lambda>q. []) (\<lambda>u. Inr []) 739000) 1 1"
    by (rule gdelt_seconds.timed_world_axioms)
  show ?thesis
    using sweep_is_bounded [OF ax, of 2 0 "[''a'', ''b'', ''c'', ''d'', ''e'']"] by simp
qed

section \<open>Pagination\<close>

text \<open>A server with the pages \<open>pages\<close>: page i answers the token \<open>PInt i\<close> (the first one no token), and names
  the next page as long as there is one.\<close>

definition page_doc :: "(string \<times> pyval) list list \<Rightarrow> nat \<Rightarrow> payload" where
  "page_doc pages i = [(''bars'', PDict (pages ! i)),
     (''next_page_token'', if Suc i < length pages then PInt (int (Suc i)) else PNone)]"

definition serve_page ::
  "(string \<times> pyval) list list \<Rightarrow> pyval option \<Rightarrow> nat \<Rightarrow> (int \<times> payload) res \<times> nat" where
  "serve_page pages token w =
     (let i = (case token of Some (PInt n) \<Rightarrow> nat n | _ \<Rightarrow> 0)
      in (Inr (200, page_doc pages i), Suc w))"

lemma iter_bars_serves:
  assumes "\<forall>p \<in> set pages. \<forall>(s, v) \<in> set p. \<exists>bs. v = PList (map PDict bs)"
    and "i < length pages" "token = (if i = 0 then None else Some (PInt (int i)))"
  shows "iter_bars (serve_page pages) token acc w =
    Some (Inr (acc @ concat (map (\<lambda>p. concat (map (\<lambda>(s, v). case v of PList xs \<Rightarrow>
        map (\<lambda>x. (s, case x of PDict b \<Rightarrow> b | _ \<Rightarrow> [])) xs | _ \<Rightarrow> []) p)) (drop i pages))),
      w + (length pages - i))"
  using assms(2,3)
proof (induction "length pages - i" arbitrary: i token acc w)
  case 0
  then show ?case by simp
next
  case (Suc n)
  let ?bars = "\<lambda>p. concat (map (\<lambda>(s, v). case v of PList xs \<Rightarrow>
        map (\<lambda>x. (s, case x of PDict b \<Rightarrow> b | _ \<Rightarrow> [])) xs | _ \<Rightarrow> []) p)"
  have "pages ! i \<in> set pages" using Suc.prems by simp
  then have wf: "\<forall>(s, v) \<in> set (pages ! i). \<exists>bs. v = PList (map PDict bs)" using assms(1) by blast
  have sb: "symbol_bars (s, PList (map PDict bs)) = Inr (map (\<lambda>b. (s, b)) bs)" for s bs
  proof -
    have "map_res (\<lambda>b. case as_obj b of Inl e \<Rightarrow> Inl e | Inr bar \<Rightarrow> Inr (s, bar)) (map PDict bs)
        = Inr (map (\<lambda>b. (s, b)) bs)" by (induction bs) simp_all
    then show ?thesis unfolding symbol_bars_def fst_conv snd_conv elements.simps sum.case by simp
  qed
  have "map_res symbol_bars (pages ! i) = Inr (map (\<lambda>(s, v). case v of PList xs \<Rightarrow>
        map (\<lambda>x. (s, case x of PDict b \<Rightarrow> b | _ \<Rightarrow> [])) xs | _ \<Rightarrow> []) (pages ! i))"
    by (rule map_res_Inr_map) (use wf sb in \<open>fastforce simp: comp_def\<close>)
  then have page: "page_bars (page_doc pages i) = Inr (?bars (pages ! i))"
    by (simp add: page_bars_def page_doc_def pget_def or_empty_def)
  have srv: "serve_page pages token w = (Inr (200, page_doc pages i), Suc w)"
    using Suc.prems(2) by (cases "i = 0") (simp_all add: serve_page_def)
  have drop: "drop i pages = pages ! i # drop (Suc i) pages"
    using Suc.prems(1) by (simp add: Cons_nth_drop_Suc)
  show ?case
  proof (cases "Suc i < length pages")
    case True
    have tok: "pget (page_doc pages i) ''next_page_token'' = PInt (int (Suc i))"
      using True by (simp add: page_doc_def pget_def)
    have "iter_bars (serve_page pages) token acc w
        = iter_bars (serve_page pages) (Some (PInt (int (Suc i)))) (acc @ ?bars (pages ! i)) (Suc w)"
      by (subst iter_bars.simps) (simp add: srv page tok)
    also have "\<dots> = Some (Inr ((acc @ ?bars (pages ! i)) @ concat (map ?bars (drop (Suc i) pages))),
        Suc w + (length pages - Suc i))"
      using Suc.hyps(2) True by (intro Suc.hyps(1)) simp_all
    finally show ?thesis unfolding drop using Suc.prems(1) by simp
  next
    case False
    have tok: "pget (page_doc pages i) ''next_page_token'' = PNone"
      using False by (simp add: page_doc_def pget_def)
    have last: "drop (Suc i) pages = []" using False by simp
    have "iter_bars (serve_page pages) token acc w = Some (Inr (acc @ ?bars (pages ! i)), Suc w)"
      by (subst iter_bars.simps) (simp add: srv page tok)
    then show ?thesis unfolding drop last using False Suc.prems(1) by (simp add: le_antisym)
  qed
qed

text \<open>Pagination terminates and truncates nothing.  Against a server whose chain of pages ends, following
  the page tokens returns after one request per page, with every bar of every page in order.\<close>

theorem pagination_returns_every_page:
  assumes "pages \<noteq> []" "\<forall>p \<in> set pages. \<forall>(s, v) \<in> set p. \<exists>bs. v = PList (map PDict bs)"
  shows "iter_bars (serve_page pages) None [] 0 =
    Some (Inr (concat (map (\<lambda>p. concat (map (\<lambda>(s, v). case v of PList xs \<Rightarrow>
        map (\<lambda>x. (s, case x of PDict b \<Rightarrow> b | _ \<Rightarrow> [])) xs | _ \<Rightarrow> []) p)) pages)), length pages)"
  using iter_bars_serves [OF assms(2), of 0 None "[]" 0] assms(1) by simp

lemma pagination_returns_every_page_witness:
  "iter_bars (serve_page [[(''A'', PList [PDict [(''t'', PInt 1)]])], [(''B'', PList [PDict [(''t'', PInt 2)]])]]) None [] 0
     = Some (Inr [(''A'', [(''t'', PInt 1)]), (''B'', [(''t'', PInt 2)])], 2)"
proof -
  let ?pages = "[[(''A'', PList [PDict [(''t'', PInt 1)]])], [(''B'', PList [PDict [(''t'', PInt 2)]])]]"
  have "\<exists>bs. PList [PDict d] = PList (map PDict bs)" for d by (rule exI [of _ "[d]"]) simp
  then have "\<forall>p \<in> set ?pages. \<forall>(s, v) \<in> set p. \<exists>bs. v = PList (map PDict bs)" by simp
  from pagination_returns_every_page [OF _ this] show ?thesis by simp
qed

section \<open>The announced figure of a quarter\<close>

text \<open>An entry of the company facts that counts: quarterly, dated and with a value.\<close>

definition quarterly :: "(pyval \<Rightarrow> string) \<Rightarrow> payload \<Rightarrow> pydate \<Rightarrow> pydate \<Rightarrow> bool" where
  "quarterly rpr e ed fd \<longleftrightarrow> opt_date_fundamental rpr (pget e ''end'') = Some ed
     \<and> opt_date_fundamental rpr (pget e ''filed'') = Some fd \<and> \<not> is_none (pget e ''val'')
     \<and> (\<exists>sd. opt_date_fundamental rpr (pget e ''start'') = Some sd \<and> 80 \<le> ed - sd \<and> ed - sd \<le> 100)"

definition announced ::
  "(pyval \<Rightarrow> string) \<Rightarrow> payload list \<Rightarrow> (string, quarter) dict \<Rightarrow> bool" where
  "announced rpr es acc \<longleftrightarrow>
     (\<forall>k q. map_of acc k = Some q \<longrightarrow> k = date_iso (qu_end q)
        \<and> (\<exists>e \<in> set es. quarterly rpr e (qu_end q) (qu_filed q) \<and> to_float (pget e ''val'') = Inr (qu_eps q)))
     \<and> (\<forall>e \<in> set es. \<forall>ed fd. quarterly rpr e ed fd \<longrightarrow>
          (\<exists>q. map_of acc (date_iso ed) = Some q \<and> qu_filed q \<le> fd))"

lemma quarter_entry_announced:
  assumes "quarter_entry rpr (PDict e) acc = Inr acc'" "announced rpr es acc"
  shows "announced rpr (es @ [e]) acc'"
proof -
  show ?thesis
  proof (cases "\<exists>ed fd. quarterly rpr e ed fd")
    case False
    then have "acc' = acc"
      using assms(1) unfolding quarter_entry_def quarterly_def
      by (auto split: option.splits if_splits sum.splits simp: Let_def)
    then show ?thesis using assms(2) False unfolding announced_def by (auto; blast)
  next
    case True
    then obtain ed fd where q: "quarterly rpr e ed fd" by blast
    have uniq: "quarterly rpr e ed' fd' \<Longrightarrow> ed' = ed \<and> fd' = fd" for ed' fd'
      using q by (simp add: quarterly_def)
    show ?thesis
    proof (cases "case map_of acc (date_iso ed) of None \<Rightarrow> True | Some prior \<Rightarrow> fd < qu_filed prior")
      case keep: False
      then have same: "acc' = acc"
        using assms(1) q unfolding quarter_entry_def quarterly_def by (auto simp: Let_def)
      from keep obtain prior where "map_of acc (date_iso ed) = Some prior" "qu_filed prior \<le> fd"
        by (auto split: option.splits)
      then show ?thesis using assms(2) uniq unfolding same announced_def by (auto; blast)
    next
      case repl: True
      then obtain eps where eps: "to_float (pget e ''val'') = Inr eps"
        and acc': "acc' = dict_set (date_iso ed)
          \<lparr>qu_end = ed, qu_filed = fd, qu_eps = eps, qu_fp = pget e ''fp''\<rparr> acc"
        using assms(1) q unfolding quarter_entry_def quarterly_def by (auto simp: Let_def split: sum.splits)
      show ?thesis
        unfolding announced_def acc' map_of_dict_set
      proof (intro conjI allI impI ballI)
        fix k qu assume "((map_of acc)(date_iso ed \<mapsto> \<lparr>qu_end = ed, qu_filed = fd, qu_eps = eps,
            qu_fp = pget e ''fp''\<rparr>)) k = Some qu"
        then show "k = date_iso (qu_end qu)"
          using assms(2) unfolding announced_def by (auto split: if_splits)
      next
        fix k qu assume a: "((map_of acc)(date_iso ed \<mapsto> \<lparr>qu_end = ed, qu_filed = fd, qu_eps = eps,
            qu_fp = pget e ''fp''\<rparr>)) k = Some qu"
        show "\<exists>e' \<in> set (es @ [e]). quarterly rpr e' (qu_end qu) (qu_filed qu)
            \<and> to_float (pget e' ''val'') = Inr (qu_eps qu)"
        proof (cases "k = date_iso ed")
          case True
          then have "qu_end qu = ed" "qu_filed qu = fd" "qu_eps qu = eps" using a by auto
          then show ?thesis using q eps by auto
        next
          case False
          then have "map_of acc k = Some qu" using a by simp
          then show ?thesis using assms(2) unfolding announced_def by fastforce
        qed
      next
        fix e' ed' fd' assume e': "e' \<in> set (es @ [e])" and q': "quarterly rpr e' ed' fd'"
        show "\<exists>qu. ((map_of acc)(date_iso ed \<mapsto> \<lparr>qu_end = ed, qu_filed = fd, qu_eps = eps,
            qu_fp = pget e ''fp''\<rparr>)) (date_iso ed') = Some qu \<and> qu_filed qu \<le> fd'"
        proof (cases "e' = e")
          case True
          then show ?thesis using uniq q' by auto
        next
          case False
          then have "e' \<in> set es" using e' by simp
          then obtain qu where "map_of acc (date_iso ed') = Some qu" "qu_filed qu \<le> fd'"
            using assms(2) q' unfolding announced_def by blast
          then show ?thesis using repl by (cases "date_iso ed' = date_iso ed") (auto split: option.splits)
        qed
      qed
    qed
  qed
qed

lemma quarter_entries_announced:
  "quarter_entries rpr (map PDict es) acc = Inr acc' \<Longrightarrow> announced rpr done1 acc
     \<Longrightarrow> announced rpr (done1 @ es) acc'"
proof (induction es arbitrary: acc done1)
  case (Cons e es)
  then obtain a1 where "quarter_entry rpr (PDict e) acc = Inr a1" "quarter_entries rpr (map PDict es) a1 = Inr acc'"
    by (auto split: sum.splits)
  with Cons.IH [of a1 "done1 @ [e]"] quarter_entry_announced Cons.prems(2) show ?case by fastforce
qed simp

text \<open>The earnings record of a quarter is the original announcement.  Every quarter kept comes from an
  entry of about three months with that end, filing date and figure; every such entry has its quarter
  kept; and the filing date kept is the earliest one, so no restated figure is dated back.\<close>

theorem quarters_keep_original_announcement:
  assumes "quarter_entries rpr (map PDict es) [] = Inr acc"
  shows "(\<forall>k q. map_of acc k = Some q \<longrightarrow> k = date_iso (qu_end q)
        \<and> (\<exists>e \<in> set es. quarterly rpr e (qu_end q) (qu_filed q) \<and> to_float (pget e ''val'') = Inr (qu_eps q)))
     \<and> (\<forall>e \<in> set es. \<forall>ed fd. quarterly rpr e ed fd \<longrightarrow>
          (\<exists>q. map_of acc (date_iso ed) = Some q \<and> qu_filed q \<le> fd))"
proof -
  have "announced rpr [] []" by (simp add: announced_def)
  from quarter_entries_announced [OF assms this] show ?thesis by (simp add: announced_def)
qed

lemma quarters_keep_original_announcement_witness:
  "\<exists>acc. quarter_entries (\<lambda>v. []) (map PDict [[(''val'', PInt 2)]]) [] = Inr acc
     \<and> (\<forall>k q. map_of acc k = Some q \<longrightarrow> k = date_iso (qu_end q))"
proof -
  have run: "quarter_entries (\<lambda>v. []) (map PDict [[(''val'', PInt 2)]]) [] = Inr []"
    by (simp add: quarter_entry_def opt_date_fundamental_def opt_date_def pget_def)
  from quarters_keep_original_announcement [OF this] run show ?thesis by blast
qed

end
