(* ===== verification/Universe.thy ===== *)
theory Universe
  imports Parse
begin

text \<open>
  \<open>universe/\<close>: the tradable lists and their resolution (\<open>liquid.py\<close>), point-in-time index
  membership (\<open>pit_universe.py\<close>) and the liquidity screen (\<open>screen.py\<close>).
\<close>

section \<open>liquid.py\<close>

definition megacap_watchlist :: "string list" where
  "megacap_watchlist =
    [''AAPL'', ''MSFT'', ''NVDA'', ''AMZN'', ''GOOGL'', ''META'', ''JPM'', ''XOM'']"

definition liquid_large_cap :: "string list" where
  "liquid_large_cap =
    [''AAPL'', ''MSFT'', ''NVDA'', ''AVGO'', ''ORCL'', ''CRM'', ''ADBE'', ''AMD'', ''INTC'',
     ''CSCO'', ''ACN'', ''IBM'', ''QCOM'', ''TXN'', ''NOW'', ''INTU'', ''AMAT'', ''MU'',
     ''LRCX'', ''ADI'', ''GOOGL'', ''META'', ''NFLX'', ''DIS'', ''CMCSA'', ''T'', ''VZ'',
     ''TMUS'', ''CHTR'', ''AMZN'', ''TSLA'', ''HD'', ''MCD'', ''NKE'', ''LOW'', ''SBUX'',
     ''BKNG'', ''TJX'', ''GM'', ''F'', ''PG'', ''KO'', ''PEP'', ''COST'', ''WMT'', ''PM'',
     ''MO'', ''CL'', ''MDLZ'', ''KMB'', ''UNH'', ''JNJ'', ''LLY'', ''PFE'', ''MRK'', ''ABBV'',
     ''TMO'', ''ABT'', ''DHR'', ''BMY'', ''AMGN'', ''CVS'', ''MDT'', ''GILD'', ''ISRG'', ''JPM'',
     ''BAC'', ''WFC'', ''GS'', ''MS'', ''C'', ''AXP'', ''BLK'', ''SPGI'', ''SCHW'', ''USB'',
     ''PNC'', ''CAT'', ''HON'', ''UPS'', ''BA'', ''GE'', ''RTX'', ''UNP'', ''LMT'', ''DE'',
     ''MMM'', ''EMR'', ''CSX'', ''XOM'', ''CVX'', ''COP'', ''SLB'', ''EOG'', ''MPC'', ''PSX'',
     ''LIN'', ''APD'', ''SHW'', ''FCX'', ''NEM'', ''DOW'', ''NEE'', ''DUK'', ''SO'', ''D'',
     ''AEP'', ''AMT'', ''PLD'', ''EQIX'', ''SPG'', ''O'']"

definition european_adrs :: "string list" where
  "european_adrs =
    [''ASML'', ''SAP'', ''STM'', ''ERIC'', ''NOK'', ''NVO'', ''AZN'', ''NVS'', ''GSK'', ''SNY'',
     ''UL'', ''DEO'', ''BTI'', ''BUD'', ''SHEL'', ''BP'', ''TTE'', ''E'', ''EQNR'', ''UBS'',
     ''HSBC'', ''ING'', ''DB'', ''RIO'', ''STLA'', ''SPOT'', ''PHG'']"

definition europe_etfs :: "string list" where
  "europe_etfs =
    [''VGK'', ''EZU'', ''IEUR'', ''FEZ'']"

definition global_liquid :: "string list" where
  "global_liquid = liquid_large_cap @ european_adrs @ europe_etfs"

definition resolve_universe :: "string \<Rightarrow> string list" where
  "resolve_universe name =
     (let key = lower (strip name)
      in if CHR '','' \<in> set name
         then map (\<lambda>s. upper (strip s)) (filter (\<lambda>s. strip s \<noteq> []) (split_on (CHR '','') name))
         else if key \<in> {''watchlist'', ''megacap'', ''mega''} then megacap_watchlist
         else if key \<in> {''global'', ''world'', ''liquid_global''} then global_liquid
         else liquid_large_cap)"

section \<open>pit_universe.py\<close>

record constituent =
  co_symbol :: string
  co_name :: string
  co_added :: pydate
  co_removed :: "pydate option"

definition active_on :: "pydate \<Rightarrow> constituent \<Rightarrow> bool" where
  "active_on on c \<longleftrightarrow> co_added c \<le> on \<and> (case co_removed c of None \<Rightarrow> True | Some r \<Rightarrow> on < r)"

definition constituent_of :: "(pyval \<Rightarrow> string) \<Rightarrow> payload \<Rightarrow> constituent res" where
  "constituent_of rpr r =
     (case pindex r ''symbol'' of Inl e \<Rightarrow> Inl e | Inr sy \<Rightarrow>
      case pindex r ''name'' of Inl e \<Rightarrow> Inl e | Inr nm \<Rightarrow>
      case pindex r ''added'' of Inl e \<Rightarrow> Inl e | Inr ad \<Rightarrow>
      case parse_date (py_str rpr ad) of Inl e \<Rightarrow> Inl e | Inr added \<Rightarrow>
      case (if truthy (pget r ''removed'')
            then (case parse_date (py_str rpr (pget r ''removed'')) of
                    Inl e \<Rightarrow> Inl e | Inr d \<Rightarrow> Inr (Some d))
            else Inr None) of
        Inl e \<Rightarrow> Inl e
      | Inr removed \<Rightarrow>
          Inr \<lparr>co_symbol = upper (py_str rpr sy), co_name = py_str rpr nm, co_added = added,
               co_removed = removed\<rparr>)"

definition from_records :: "(pyval \<Rightarrow> string) \<Rightarrow> payload list \<Rightarrow> constituent list res" where
  "from_records rpr records = map_res (constituent_of rpr) records"

definition members_on :: "constituent list \<Rightarrow> pydate \<Rightarrow> string list" where
  "members_on cs on = sort (map co_symbol (filter (active_on on) cs))"

definition is_member_on :: "constituent list \<Rightarrow> string \<Rightarrow> pydate \<Rightarrow> bool" where
  "is_member_on cs symbol on \<longleftrightarrow> (\<exists>c \<in> set cs. co_symbol c = upper symbol \<and> active_on on c)"

definition all_symbols :: "constituent list \<Rightarrow> string list" where
  "all_symbols cs = sorted_list_of_set (co_symbol ` set cs)"

definition delisted :: "constituent list \<Rightarrow> string list" where
  "delisted cs = sort (map co_symbol (filter (\<lambda>c. co_removed c \<noteq> None) cs))"

section \<open>screen.py\<close>

text \<open>One symbol of the screen: its average dollar volume when it passes, with its last close.\<close>

definition screen_symbol ::
  "string set \<Rightarrow> flt \<Rightarrow> real \<Rightarrow> real \<Rightarrow> nat \<Rightarrow> string \<times> payload list \<Rightarrow> (string \<times> flt) option res" where
  "screen_symbol excluded min_price min_dv max_dv min_days sb =
     (let (symbol, bars) = sb; sy = upper symbol in
      if sy \<in> excluded then Inr None
      else
        case map_res (\<lambda>b. to_float (pget b ''close''))
               (filter (\<lambda>b. truthy (pget b ''close'')) bars) of
          Inl e \<Rightarrow> Inl e
        | Inr closes \<Rightarrow>
        case map_res (\<lambda>b. case to_float (pget b ''close'') of Inl e \<Rightarrow> Inl e | Inr c \<Rightarrow>
                          case to_float (pget b ''volume'') of Inl e \<Rightarrow> Inl e | Inr v \<Rightarrow> Inr (c * v))
               (filter (\<lambda>b. truthy (pget b ''close'') \<and> truthy (pget b ''volume'')) bars) of
          Inl e \<Rightarrow> Inl e
        | Inr dvs \<Rightarrow>
            if length dvs < min_days \<or> closes = [] then Inr None
            else if length dvs = 0 then Inl ZeroDivisionError
            else
              let adv = fdiv (sum_list dvs) (Fin (real (length dvs)))
              in if last closes < min_price \<or> \<not> (Fin min_dv \<le> adv \<and> adv \<le> Fin max_dv)
                 then Inr None else Inr (Some (sy, adv)))"

definition screen_for_liquidity ::
  "(string, payload list) dict \<Rightarrow> string list \<Rightarrow> flt \<Rightarrow> real \<Rightarrow> real \<Rightarrow> nat \<Rightarrow> nat \<Rightarrow> string list res" where
  "screen_for_liquidity bars_by_symbol exclude min_price min_dv max_dv min_days top_n =
     (case collect_res (screen_symbol (set (map upper exclude)) min_price min_dv max_dv min_days)
             bars_by_symbol of
        Inl e \<Rightarrow> Inl e
      | Inr ranked \<Rightarrow> Inr (map fst (take top_n (sort_key (\<lambda>r. - flt_val (snd r)) ranked))))"

section \<open>Membership does not look ahead\<close>

text \<open>The day a name is dropped from the index, recorded after the fact.\<close>

definition delist :: "string \<Rightarrow> pydate \<Rightarrow> constituent \<Rightarrow> constituent" where
  "delist s r c = (if co_symbol c = s \<and> co_removed c = None then c\<lparr>co_removed := Some r\<rparr> else c)"

lemma active_delist: "on < r \<Longrightarrow> active_on on (delist s r c) = active_on on c"
  by (simp add: active_on_def delist_def split: option.split)

lemma symbol_delist [simp]: "co_symbol (delist s r c) = co_symbol c"
  by (simp add: delist_def)

lemma set_members_on: "set (members_on cs on) = co_symbol ` {c \<in> set cs. active_on on c}"
  by (auto simp: members_on_def)

text \<open>No survivorship bias.  The members on a date are sorted, are exactly the names that
  \<open>is_member_on\<close> accepts, and do not change when a delisting that happens later is recorded.\<close>

theorem membership_survives_delisting:
  assumes "on < r"
  shows "members_on (map (delist s r) cs) on = members_on cs on
    \<and> sorted (members_on cs on)
    \<and> (is_member_on cs sy on \<longleftrightarrow> upper sy \<in> set (members_on cs on))"
proof (intro conjI)
  have "filter (active_on on) (map (delist s r) cs) = map (delist s r) (filter (active_on on) cs)"
    by (simp add: filter_map comp_def active_delist [OF assms])
  then show "members_on (map (delist s r) cs) on = members_on cs on"
    by (simp add: members_on_def comp_def)
  show "sorted (members_on cs on)" by (simp add: members_on_def)
  show "is_member_on cs sy on \<longleftrightarrow> upper sy \<in> set (members_on cs on)"
    unfolding set_members_on is_member_on_def by (auto simp: image_iff Bex_def)
qed

lemma membership_survives_delisting_witness:
  "members_on (map (delist ''LEH'' 40) [\<lparr>co_symbol = ''LEH'', co_name = [], co_added = 5, co_removed = None\<rparr>]) 20
     = [''LEH'']"
  using membership_survives_delisting [of 20 40 "''LEH''"
      "[\<lparr>co_symbol = ''LEH'', co_name = [], co_added = 5, co_removed = None\<rparr>]" "[]"]
  by (simp add: members_on_def active_on_def)

section \<open>The screen keeps the most liquid names of the band\<close>

lemma screen_symbol_SomeD:
  assumes "screen_symbol excluded min_price min_dv max_dv min_days (symbol, bars) = Inr (Some (s, adv))"
  shows "s = upper symbol \<and> s \<notin> excluded
    \<and> min_days \<le> length (filter (\<lambda>b. truthy (pget b ''close'') \<and> truthy (pget b ''volume'')) bars)
    \<and> (\<exists>a. adv = Fin a \<and> min_dv \<le> a \<and> a \<le> max_dv)"
proof -
  from assms obtain closes dvs where
    "map_res (\<lambda>b. case to_float (pget b ''close'') of Inl e \<Rightarrow> Inl e | Inr c \<Rightarrow>
        case to_float (pget b ''volume'') of Inl e \<Rightarrow> Inl e | Inr v \<Rightarrow> Inr (c * v))
      (filter (\<lambda>b. truthy (pget b ''close'') \<and> truthy (pget b ''volume'')) bars) = Inr dvs"
    and c: "\<not> length dvs < min_days" "s = upper symbol" "upper symbol \<notin> excluded"
      "Fin min_dv \<le> adv" "adv \<le> Fin max_dv"
    unfolding screen_symbol_def Let_def by (auto split: if_splits sum.splits)
  then have "length dvs = length (filter (\<lambda>b. truthy (pget b ''close'') \<and> truthy (pget b ''volume'')) bars)"
    using map_res_InrD by blast
  with c fin_between [of min_dv adv max_dv] show ?thesis by fastforce
qed

lemma take_sorted_desc:
  fixes f :: "'a \<Rightarrow> real"
  assumes "sorted (map (\<lambda>x. - f x) xs)" "x \<in> set (take n xs)" "y \<in> set xs" "y \<notin> set (take n xs)"
  shows "f y \<le> f x"
proof -
  have "y \<in> set (drop n xs)" using assms(3,4) by (metis Un_iff append_take_drop_id set_append)
  moreover have "sorted (map (\<lambda>x. - f x) (take n xs) @ map (\<lambda>x. - f x) (drop n xs))"
    using assms(1) by (metis append_take_drop_id map_append)
  ultimately have "- f x \<le> - f y" using assms(2) unfolding sorted_append by simp
  then show ?thesis by simp
qed

text \<open>The liquidity screen.  It returns at most \<open>top_n\<close> names; each is the upper-cased symbol of a
  listed series that is not excluded, has enough priced bars, and trades an average dollar
  volume inside the band; and no name that passes but is left out trades more than one kept.\<close>

theorem screen_selects_most_liquid:
  assumes "screen_for_liquidity bars exclude min_price lo hi min_days top_n = Inr syms"
  shows "length syms \<le> top_n
    \<and> (\<exists>chosen. syms = map fst chosen
      \<and> (\<forall>(s, adv) \<in> set chosen. s \<notin> upper ` set exclude
          \<and> (\<exists>symbol series. (symbol, series) \<in> set bars \<and> s = upper symbol
              \<and> min_days \<le> length (filter (\<lambda>b. truthy (pget b ''close'') \<and> truthy (pget b ''volume'')) series))
          \<and> (\<exists>a. adv = Fin a \<and> lo \<le> a \<and> a \<le> hi))
      \<and> (\<forall>p \<in> set chosen. \<forall>q b. b \<in> set bars \<and> q \<notin> set chosen
          \<and> screen_symbol (upper ` set exclude) min_price lo hi min_days b = Inr (Some q)
          \<longrightarrow> flt_val (snd q) \<le> flt_val (snd p)))"
proof -
  let ?scr = "screen_symbol (upper ` set exclude) min_price lo hi min_days"
  obtain ranked where r: "collect_res ?scr bars = Inr ranked"
    and syms: "syms = map fst (take top_n (sort_key (\<lambda>r. - flt_val (snd r)) ranked))"
    using assms unfolding screen_for_liquidity_def by (auto split: sum.splits)
  let ?sorted = "sort_key (\<lambda>r. - flt_val (snd r)) ranked"
  let ?chosen = "take top_n ?sorted"
  have chosen_from: "\<exists>b \<in> set bars. ?scr b = Inr (Some p)" if "p \<in> set ?chosen" for p
    using that collect_res_set [OF r] by (auto dest!: in_set_takeD)
  have into: "q \<in> set ?sorted" if "b \<in> set bars" "?scr b = Inr (Some q)" for b q
    using that collect_res_set [OF r] by auto
  have "\<forall>(s, adv) \<in> set ?chosen. s \<notin> upper ` set exclude
      \<and> (\<exists>symbol series. (symbol, series) \<in> set bars \<and> s = upper symbol
          \<and> min_days \<le> length (filter (\<lambda>b. truthy (pget b ''close'') \<and> truthy (pget b ''volume'')) series))
      \<and> (\<exists>a. adv = Fin a \<and> lo \<le> a \<and> a \<le> hi)"
  proof (intro ballI, unfold split_paired_all prod.case)
    fix s adv assume "(s, adv) \<in> set ?chosen"
    then obtain symbol series where b: "(symbol, series) \<in> set bars"
      and scr: "?scr (symbol, series) = Inr (Some (s, adv))" using chosen_from by fast
    from screen_symbol_SomeD [OF scr] b show "s \<notin> upper ` set exclude
      \<and> (\<exists>symbol series. (symbol, series) \<in> set bars \<and> s = upper symbol
          \<and> min_days \<le> length (filter (\<lambda>b. truthy (pget b ''close'') \<and> truthy (pget b ''volume'')) series))
      \<and> (\<exists>a. adv = Fin a \<and> lo \<le> a \<and> a \<le> hi)" by blast
  qed
  moreover have "\<forall>p \<in> set ?chosen. \<forall>q b. b \<in> set bars \<and> q \<notin> set ?chosen \<and> ?scr b = Inr (Some q)
      \<longrightarrow> flt_val (snd q) \<le> flt_val (snd p)"
  proof (intro ballI allI impI, elim conjE)
    fix p q b
    assume p: "p \<in> set ?chosen" and b: "b \<in> set bars" "?scr b = Inr (Some q)"
      and q: "q \<notin> set ?chosen"
    have "sorted (map (\<lambda>r. - flt_val (snd r)) ?sorted)" by (rule sorted_sort_key)
    from take_sorted_desc [OF this p into [OF b] q] show "flt_val (snd q) \<le> flt_val (snd p)" .
  qed
  ultimately show ?thesis unfolding syms by (intro conjI exI [of _ ?chosen]) simp_all
qed

lemma screen_selects_most_liquid_witness:
  "screen_for_liquidity [(''A'', [[(''close'', PFloat 10), (''volume'', PFloat 100)]])] [] 5 500 2000 1 1
     = Inr [''A'']
   \<and> length [''A''] \<le> (1::nat)"
proof -
  have run: "screen_for_liquidity [(''A'', [[(''close'', PFloat 10), (''volume'', PFloat 100)]])] [] 5 500 2000 1 1
     = Inr [''A'']"
    by (simp add: screen_for_liquidity_def screen_symbol_def upper_def upper_char_def pget_def Let_def
        flt_simps zero_flt_def numeral_flt)
  from screen_selects_most_liquid [OF run] run show ?thesis by blast
qed

end
