(* ===== verification/Metrics.thy ===== *)
theory Metrics
  imports Prelude
begin

text \<open>
  \<open>backtest/metrics.py\<close>: performance and calibration metrics.  NumPy's float arrays are lists of \<open>flt\<close>;
  its division follows IEEE 754 and its \<open>min\<close> and \<open>maximum\<close> propagate NaN.  Probabilities and
  outcomes are numbers.
\<close>

section \<open>Array operations\<close>

fun scan :: "('a \<Rightarrow> 'b \<Rightarrow> 'a) \<Rightarrow> 'a \<Rightarrow> 'b list \<Rightarrow> 'a list" where
  "scan f a [] = []"
| "scan f a (x # xs) = f a x # scan f (f a x) xs"

definition np_max :: "flt \<Rightarrow> flt \<Rightarrow> flt" where
  "np_max a b = (if a = NaN \<or> b = NaN then NaN else if a < b then b else a)"

definition np_min :: "flt \<Rightarrow> flt \<Rightarrow> flt" where
  "np_min a b = (if a = NaN \<or> b = NaN then NaN else if b < a then b else a)"

definition running_max :: "flt list \<Rightarrow> flt list" where
  "running_max xs = (case xs of [] \<Rightarrow> [] | x # ys \<Rightarrow> x # scan np_max x ys)"

definition array_min :: "flt \<Rightarrow> flt list \<Rightarrow> flt" where
  "array_min x xs = foldl np_min x xs"

definition fmean :: "flt list \<Rightarrow> flt" where
  "fmean xs = fdiv (sum_list xs) (Fin (real (length xs)))"

fun fsqrt :: "flt \<Rightarrow> flt" where
  "fsqrt (Fin x) = (if x < 0 then NaN else Fin (sqrt x))"
| "fsqrt PInf = PInf"
| "fsqrt _ = NaN"

text \<open>The sample deviation, \<open>np.std\<close> with \<open>ddof=1\<close>.\<close>

definition fstd :: "flt list \<Rightarrow> flt" where
  "fstd xs = (let m = fmean xs in
     fsqrt (fdiv (sum_list (map (\<lambda>x. (x - m) * (x - m)) xs)) (Fin (real (length xs) - 1))))"

text \<open>The deviation of a pandas Series: missing values are skipped, too few give NaN.\<close>

definition series_std :: "nat \<Rightarrow> flt list \<Rightarrow> flt" where
  "series_std ddof xs =
     (let ys = filter (\<lambda>x. x \<noteq> NaN) xs; n = length ys; m = fmean ys in
      if n \<le> ddof then NaN
      else fsqrt (fdiv (sum_list (map (\<lambda>x. (x - m) * (x - m)) ys)) (Fin (real n - real ddof))))"

text \<open>A positive base and an exponent that is a positive number.\<close>

fun fpower :: "flt \<Rightarrow> real \<Rightarrow> flt" where
  "fpower (Fin x) e = Fin (x powr e)"
| "fpower x e = x"

section \<open>Performance\<close>

definition clean :: "flt list \<Rightarrow> flt list" where
  "clean xs = filter (\<lambda>x. x \<noteq> NaN) xs"

definition annualized_return :: "flt list \<Rightarrow> nat \<Rightarrow> flt" where
  "annualized_return returns periods =
     (let r = clean returns in
      if r = [] then 0
      else let total = foldl (*) 1 (map (\<lambda>x. 1 + x) r) in
        if total \<le> 0 then - 1
        else fpower total (real periods / real (length r)) - 1)"

definition annualized_vol :: "flt list \<Rightarrow> nat \<Rightarrow> flt" where
  "annualized_vol returns periods =
     (let r = clean returns in if length r < 2 then 0 else fstd r * Fin (sqrt (real periods)))"

definition sharpe_ratio :: "flt list \<Rightarrow> nat \<Rightarrow> flt \<Rightarrow> flt" where
  "sharpe_ratio returns periods rf =
     (let r = clean returns in
      if length r < 2 then 0
      else let excess = map (\<lambda>x. x - fdiv rf (Fin (real periods))) r; sd = fstd excess in
        if sd = Fin 0 then 0 else fdiv (fmean excess) sd * Fin (sqrt (real periods)))"

definition sortino_ratio :: "flt list \<Rightarrow> nat \<Rightarrow> flt \<Rightarrow> flt" where
  "sortino_ratio returns periods rf =
     (let r = clean returns in
      if length r < 2 then 0
      else let excess = map (\<lambda>x. x - fdiv rf (Fin (real periods))) r; downside = filter (\<lambda>x. x < 0) excess in
        if downside = [] then 0
        else let dd = fsqrt (fmean (map (\<lambda>x. x * x) downside)) in
          if dd = Fin 0 then 0 else fdiv (fmean excess) dd * Fin (sqrt (real periods)))"

definition max_drawdown :: "flt list \<Rightarrow> flt" where
  "max_drawdown returns =
     (let r = clean returns in
      case scan (*) 1 (map (\<lambda>x. 1 + x) r) of
        [] \<Rightarrow> 0
      | e # es \<Rightarrow>
          (let drops = map2 (\<lambda>v p. fdiv v p - 1) (e # es) (running_max (e # es))
           in array_min (hd drops) (tl drops)))"

definition calmar_ratio :: "flt list \<Rightarrow> nat \<Rightarrow> flt" where
  "calmar_ratio returns periods =
     (let mdd = max_drawdown returns in
      if mdd = Fin 0 then 0 else fdiv (annualized_return returns periods) \<bar>mdd\<bar>)"

definition hit_rate :: "flt list \<Rightarrow> flt" where
  "hit_rate returns =
     (let r = clean returns in
      if r = [] then 0 else Fin (real (length (filter (\<lambda>x. 0 < x) r)) / real (length r)))"

record performance_summary =
  ps_n_periods :: nat
  ps_ann_return :: flt
  ps_ann_vol :: flt
  ps_sharpe :: flt
  ps_sortino :: flt
  ps_calmar :: flt
  ps_max_drawdown :: flt
  ps_hit_rate :: flt
  ps_avg_turnover :: flt

definition summarize :: "flt list \<Rightarrow> flt list option \<Rightarrow> nat \<Rightarrow> flt \<Rightarrow> performance_summary" where
  "summarize returns turnover periods rf =
     (let r = clean returns;
          avg = (case turnover of None \<Rightarrow> 0 | Some t \<Rightarrow> (if clean t = [] then 0 else fmean (clean t)))
      in \<lparr>ps_n_periods = length r, ps_ann_return = annualized_return r periods,
          ps_ann_vol = annualized_vol r periods, ps_sharpe = sharpe_ratio r periods rf,
          ps_sortino = sortino_ratio r periods rf, ps_calmar = calmar_ratio r periods,
          ps_max_drawdown = max_drawdown r, ps_hit_rate = hit_rate r, ps_avg_turnover = avg\<rparr>)"

text \<open>\<open>sample i\<close> is the generator's i-th resample with replacement and \<open>quantile\<close> is NumPy's.\<close>

definition bootstrap_ci ::
  "(flt list \<Rightarrow> nat \<Rightarrow> flt) \<Rightarrow> (nat \<Rightarrow> flt list \<Rightarrow> flt list) \<Rightarrow> (flt list \<Rightarrow> real \<Rightarrow> flt) \<Rightarrow> flt list
   \<Rightarrow> nat \<Rightarrow> real \<Rightarrow> nat \<Rightarrow> flt \<times> flt" where
  "bootstrap_ci statistic sample quantile returns n_boot alpha periods =
     (let r = clean returns in
      if length r < 2 then (0, 0)
      else let stats = map (\<lambda>i. statistic (sample i r) periods) [0..<n_boot]
           in (quantile stats (alpha / 2), quantile stats (1 - alpha / 2)))"

section \<open>Calibration\<close>

definition brier_score :: "real list \<Rightarrow> real list \<Rightarrow> real" where
  "brier_score probs outcomes =
     (if probs = [] then 0
      else sum_list (map2 (\<lambda>p y. (p - y) ^ 2) probs outcomes) / real (length probs))"

record calibration_bin =
  cb_lower :: real
  cb_upper :: real
  cb_mean_pred :: "real option"
  cb_frac_pos :: "real option"
  cb_count :: nat

definition bin_edge :: "nat \<Rightarrow> nat \<Rightarrow> real" where
  "bin_edge n_bins b = real b / real n_bins"

text \<open>\<open>np.digitize\<close> over the inner edges, clipped.\<close>

definition bin_index :: "nat \<Rightarrow> real \<Rightarrow> nat" where
  "bin_index n_bins p = min (length (filter (\<lambda>b. bin_edge n_bins b \<le> p) [1..<n_bins])) (n_bins - 1)"

definition mean_or_nan :: "real list \<Rightarrow> real option" where
  "mean_or_nan xs = (if xs = [] then None else Some (sum_list xs / real (length xs)))"

definition reliability_curve :: "real list \<Rightarrow> real list \<Rightarrow> nat \<Rightarrow> calibration_bin list" where
  "reliability_curve probs outcomes n_bins =
     map (\<lambda>b. let picked = filter (\<lambda>(p, y). bin_index n_bins p = b) (zip probs outcomes)
          in \<lparr>cb_lower = bin_edge n_bins b, cb_upper = bin_edge n_bins (Suc b),
              cb_mean_pred = mean_or_nan (map fst picked), cb_frac_pos = mean_or_nan (map snd picked),
              cb_count = length picked\<rparr>) [0..<n_bins]"

section \<open>The drawdown is the worst peak-to-trough fall\<close>

lemma length_scan [simp]: "length (scan f a xs) = length xs"
  by (induction xs arbitrary: a) simp_all

lemma scan_nth: "i < length xs \<Longrightarrow> scan f a xs ! i = foldl f a (take (Suc i) xs)"
proof (induction xs arbitrary: a i)
  case (Cons x xs)
  then show ?case by (cases i) simp_all
qed simp

lemma foldl_Fin_times: "foldl (*) (Fin a) (map Fin xs) = Fin (a * prod_list xs)"
  by (induction xs arbitrary: a) (simp_all add: mult.assoc)

lemma foldl_Fin_max: "foldl np_max (Fin a) (map Fin xs) = Fin (Max (set (a # xs)))"
proof (induction xs arbitrary: a)
  case (Cons x xs)
  have "np_max (Fin a) (Fin x) = Fin (max a x)" by (simp add: np_max_def max_def)
  moreover have "Max (set (max a x # xs)) = Max (set (a # x # xs))"
    by (cases "xs = []") (simp_all add: Max_insert max.assoc)
  ultimately show ?case using Cons.IH [of "max a x"] by simp
qed simp

lemma foldl_Fin_min: "foldl np_min (Fin a) (map Fin xs) = Fin (Min (set (a # xs)))"
proof (induction xs arbitrary: a)
  case (Cons x xs)
  have "np_min (Fin a) (Fin x) = Fin (min a x)" by (auto simp: np_min_def min_def)
  moreover have "Min (set (min a x # xs)) = Min (set (a # x # xs))"
    by (cases "xs = []") (simp_all add: Min_insert min.assoc)
  ultimately show ?case using Cons.IH [of "min a x"] by simp
qed simp

text \<open>The compounded equity after period \<open>k\<close>.\<close>

definition equity_at :: "real list \<Rightarrow> nat \<Rightarrow> real" where
  "equity_at rs k = prod_list (map (\<lambda>x. 1 + x) (take (Suc k) rs))"

lemma cumulative_equity:
  "scan (*) 1 (map (\<lambda>x. 1 + x) (map Fin rs)) = map Fin (map (equity_at rs) [0..<length rs])"
proof (rule nth_equalityI)
  fix i assume i: "i < length (scan (*) 1 (map (\<lambda>x. 1 + x) (map Fin rs)))"
  have "map (\<lambda>x. 1 + x) (map Fin rs) = map Fin (map (\<lambda>x. 1 + x) rs)" by (simp add: one_flt_def)
  then show "scan (*) 1 (map (\<lambda>x. 1 + x) (map Fin rs)) ! i = map Fin (map (equity_at rs) [0..<length rs]) ! i"
    using i foldl_Fin_times [of 1 "map (\<lambda>x. 1 + x) (take (Suc i) rs)"]
    by (simp add: scan_nth take_map equity_at_def one_flt_def del: map_map take_Suc)
qed simp

lemma running_max_Fin:
  "running_max (map Fin xs) = map (\<lambda>i. Fin (Max (set (take (Suc i) xs)))) [0..<length xs]"
proof (cases xs)
  case (Cons y ys)
  have "(Fin y # scan np_max (Fin y) (map Fin ys)) ! i = Fin (Max (set (take (Suc i) xs)))" if "i < length xs" for i
  proof (cases i)
    case (Suc j)
    then show ?thesis using that Cons by (simp add: scan_nth take_map foldl_Fin_max)
  qed (simp add: Cons)
  then show ?thesis using Cons by (intro nth_equalityI) (simp_all add: running_max_def del: upt_Suc)
qed (simp add: running_max_def)

lemma take_upt_image: "Suc i \<le> n \<Longrightarrow> set (take (Suc i) (map f [0..<n])) = f ` {..i}"
  by (simp add: take_map take_upt lessThan_Suc_atMost [symmetric] atLeast0LessThan del: upt_Suc)

lemma prod_list_pos: "\<forall>x \<in> set xs. 0 < x \<Longrightarrow> 0 < (prod_list xs :: real)"
  by (induction xs) simp_all

lemma equity_pos: "\<forall>x \<in> set rs. - 1 < x \<Longrightarrow> 0 < equity_at rs k"
  unfolding equity_at_def using set_take_subset [of "Suc k" rs]
  by (intro prod_list_pos) fastforce

definition falls :: "real list \<Rightarrow> real set" where
  "falls rs = {equity_at rs j / equity_at rs i - 1 |i j. i \<le> j \<and> j < length rs}"

lemma max_drawdown_running:
  assumes "rs \<noteq> []" "\<forall>x \<in> set rs. - 1 < x"
  shows "max_drawdown (map Fin rs) =
    Fin (Min ((\<lambda>j. equity_at rs j / Max (equity_at rs ` {..j}) - 1) ` {..<length rs}))"
proof -
  let ?E = "equity_at rs" and ?n = "length rs"
  let ?d = "\<lambda>j. ?E j / Max (?E ` {..j}) - 1"
  have peak: "0 < Max (?E ` {..j})" for j
    using equity_pos [OF assms(2)] by (auto simp: Max_gr_iff)
  have "running_max (map Fin (map ?E [0..<?n])) = map (\<lambda>i. Fin (Max (?E ` {..i}))) [0..<?n]"
    unfolding running_max_Fin by (intro map_cong) (auto simp: take_upt_image simp del: take_Suc upt_Suc)
  then have "map2 (\<lambda>v p. fdiv v p - 1) (map Fin (map ?E [0..<?n])) (running_max (map Fin (map ?E [0..<?n])))
      = map2 (\<lambda>v p. fdiv v p - 1) (map (\<lambda>i. Fin (?E i)) [0..<?n]) (map (\<lambda>i. Fin (Max (?E ` {..i}))) [0..<?n])"
    by (simp add: comp_def)
  also have "\<dots> = map (\<lambda>j. Fin (?d j)) [0..<?n]"
    using peak by (simp add: zip_map_map zip_same_conv_map flt_consts less_imp_neq [symmetric])
  finally have drops: "map2 (\<lambda>v p. fdiv v p - 1) (map Fin (map ?E [0..<?n]))
      (running_max (map Fin (map ?E [0..<?n]))) = map Fin (map ?d [0..<?n])" by (simp add: comp_def)
  obtain e es where e: "map Fin (map ?E [0..<?n]) = e # es"
    using assms(1) by (cases "map Fin (map ?E [0..<?n])") auto
  obtain v vs where v: "map ?d [0..<?n] = v # vs" using assms(1) by (cases "map ?d [0..<?n]") auto
  have cl: "clean (map Fin rs) = map Fin rs" by (auto simp: clean_def filter_id_conv)
  have "max_drawdown (map Fin rs) = array_min (Fin v) (map Fin vs)"
    using drops by (simp only: max_drawdown_def Let_def cl cumulative_equity e v list.case list.map list.sel)
  then have "max_drawdown (map Fin rs) = Fin (Min (set (map ?d [0..<?n])))"
    by (simp only: array_min_def foldl_Fin_min v)
  then show ?thesis by (simp add: atLeast0LessThan)
qed

text \<open>The reported maximum drawdown is the worst peak-to-trough fall: over returns above minus one
  hundred percent, the running-peak computation gives the minimum over all pairs of an earlier
  and a later moment of the relative change of the compounded equity; it lies in (-1, 0].\<close>

theorem max_drawdown_is_worst_fall:
  assumes "rs \<noteq> []" "\<forall>x \<in> set rs. - 1 < x"
  shows "max_drawdown (map Fin rs) = Fin (Min (falls rs)) \<and> - 1 < Min (falls rs) \<and> Min (falls rs) \<le> 0"
proof -
  let ?E = "equity_at rs" and ?n = "length rs"
  let ?d = "\<lambda>j. ?E j / Max (?E ` {..j}) - 1"
  note pos = equity_pos [OF assms(2)]
  have "falls rs = (\<lambda>(i, j). ?E j / ?E i - 1) ` {(i, j). i \<le> j \<and> j < ?n}"
    by (auto simp: falls_def image_iff)
  moreover have "finite {(i, j). i \<le> j \<and> j < ?n}"
    by (rule finite_subset [of _ "{..?n} \<times> {..?n}"]) auto
  ultimately have fin: "finite (falls rs)" by simp
  have zero: "0 \<in> falls rs" using assms(1) pos [of 0] by (auto simp: falls_def intro!: exI [of _ 0])
  have "?d j \<in> falls rs" if j: "j < ?n" for j
  proof -
    have "Max (?E ` {..j}) \<in> ?E ` {..j}" by (intro Max_in) auto
    then obtain i where "Max (?E ` {..j}) = ?E i" "i \<in> {..j}" by (rule imageE)
    then show ?thesis using j unfolding falls_def by auto
  qed
  then have sub: "?d ` {..<?n} \<subseteq> falls rs" by blast
  have below: "\<exists>y \<in> ?d ` {..<?n}. y \<le> x" if x: "x \<in> falls rs" for x
  proof -
    obtain i j where ij: "x = ?E j / ?E i - 1" "i \<le> j" "j < ?n" using x by (auto simp: falls_def)
    have "?E i \<le> Max (?E ` {..j})" using ij(2) by (intro Max_ge) auto
    then have "?E j / Max (?E ` {..j}) \<le> ?E j / ?E i"
      using pos [of i] pos [of j] by (intro divide_left_mono) (auto intro: mult_pos_pos order.strict_trans2)
    then show ?thesis using ij by auto
  qed
  have ne: "?d ` {..<?n} \<noteq> {}" using assms(1) by auto
  have "Min (?d ` {..<?n}) = Min (falls rs)"
  proof (rule antisym)
    show "Min (falls rs) \<le> Min (?d ` {..<?n})" using sub ne fin by (intro Min_antimono) auto
    have "Min (falls rs) \<in> falls rs" using fin zero by (intro Min_in) auto
    with below obtain y where "y \<in> ?d ` {..<?n}" "y \<le> Min (falls rs)" by blast
    then show "Min (?d ` {..<?n}) \<le> Min (falls rs)" by (meson Min_le finite_imageI finite_lessThan order_trans)
  qed
  moreover have "- 1 < Min (falls rs)"
    using fin zero pos by (subst Min_gr_iff) (auto simp: falls_def)
  moreover have "Min (falls rs) \<le> 0" using fin zero by (rule Min_le)
  ultimately show ?thesis using max_drawdown_running [OF assms] by simp
qed

lemma max_drawdown_is_worst_fall_witness:
  "max_drawdown (map Fin [1 / 10, - 1 / 2, 1]) = Fin (Min (falls [1 / 10, - 1 / 2, 1]))
   \<and> max_drawdown (map Fin [1 / 10, - 1 / 2, 1]) = Fin (- 1 / 2)"
proof -
  have "max_drawdown (map Fin [1 / 10, - 1 / 2, 1]) = Fin (- 1 / 2)"
    by (simp add: max_drawdown_def clean_def running_max_def np_max_def np_min_def array_min_def
        flt_consts Let_def)
  then show ?thesis using max_drawdown_is_worst_fall [of "[1 / 10, - 1 / 2, 1]"] by simp
qed

section \<open>The calibration bins\<close>

lemma inner_edges_below:
  assumes "p < 1" "0 < n"
  shows "length (filter (\<lambda>b. bin_edge n b \<le> p) [1..<n]) = nat \<lfloor>max 0 p * real n\<rfloor>"
proof -
  let ?k = "nat \<lfloor>max 0 p * real n\<rfloor>"
  have le: "bin_edge n b \<le> p \<longleftrightarrow> b \<le> ?k" if "1 \<le> b" for b
  proof -
    have "bin_edge n b \<le> p \<longleftrightarrow> real b \<le> p * real n"
      using assms(2) by (simp add: bin_edge_def divide_le_eq)
    also have "\<dots> \<longleftrightarrow> real b \<le> max 0 p * real n"
    proof (cases "0 \<le> p")
      case False
      then have "p * real n \<le> 0" by (intro mult_nonpos_nonneg) auto
      then show ?thesis using that False by simp
    qed simp
    also have "\<dots> \<longleftrightarrow> b \<le> ?k" by (simp add: le_nat_floor nat_le_iff le_floor_iff le_nat_iff)
    finally show ?thesis .
  qed
  have "max 0 p * real n < real n" using assms by (auto simp: max_def)
  then have "?k < n" using assms(2) by (simp add: floor_less_iff nat_less_iff)
  have "filter (\<lambda>b. bin_edge n b \<le> p) [1..<n] = filter (\<lambda>b. b \<le> ?k) [1..<n]"
    by (rule filter_cong) (auto simp: le)
  also have "\<dots> = [1..<Suc ?k]"
  proof -
    have "[1..<n] = [1..<Suc ?k] @ [Suc ?k..<n]"
      using \<open>?k < n\<close> upt_add_eq_append [of 1 "Suc ?k" "n - Suc ?k"] by simp
    moreover have "filter (\<lambda>b. b \<le> ?k) [Suc ?k..<n] = []" by (auto simp: filter_empty_conv)
    moreover have "filter (\<lambda>b. b \<le> ?k) [1..<Suc ?k] = [1..<Suc ?k]"
      by (rule filter_True) auto
    ultimately show ?thesis by (simp del: upt_Suc)
  qed
  finally show ?thesis by (simp del: upt_Suc)
qed

lemma bin_index_iff:
  assumes "0 \<le> p" "p \<le> 1" "b < n"
  shows "bin_index n p = b \<longleftrightarrow> bin_edge n b \<le> p \<and> (p < bin_edge n (Suc b) \<or> Suc b = n)"
proof (cases "p < 1")
  case True
  have n: "0 < real n" using assms(3) by simp
  have "p * real n < real n" using True n by simp
  then have "nat \<lfloor>p * real n\<rfloor> < n" using assms(1) by (simp add: nat_less_iff floor_less_iff)
  then have "bin_index n p = nat \<lfloor>p * real n\<rfloor>"
    using inner_edges_below [OF True, of n] assms(1,3) by (simp add: bin_index_def max_def)
  also have "\<dots> = b \<longleftrightarrow> \<lfloor>p * real n\<rfloor> = int b"
    using assms(1) by (simp add: nat_eq_iff)
  also have "\<dots> \<longleftrightarrow> real b \<le> p * real n \<and> p * real n < real (Suc b)"
    by (simp add: floor_eq_iff add.commute)
  also have "\<dots> \<longleftrightarrow> bin_edge n b \<le> p \<and> p < bin_edge n (Suc b)"
    using n by (simp add: bin_edge_def divide_le_eq less_divide_eq)
  also have "\<dots> \<longleftrightarrow> bin_edge n b \<le> p \<and> (p < bin_edge n (Suc b) \<or> Suc b = n)"
    using True n by (auto simp: bin_edge_def)
  finally show ?thesis .
next
  case False
  then have p: "p = 1" using assms(2) by simp
  have "filter (\<lambda>b. bin_edge n b \<le> p) [1..<n] = [1..<n]"
    by (rule filter_True) (auto simp: p bin_edge_def)
  then have "bin_index n p = n - 1" by (simp add: bin_index_def)
  then show ?thesis using assms(3) by (auto simp: p bin_edge_def less_divide_eq)
qed

lemma sum_bin_counts:
  "(\<forall>x \<in> set xs. f x < n) \<Longrightarrow> sum_list (map (\<lambda>b. length (filter (\<lambda>x. f x = b) xs)) [0..<n]) = length xs"
proof (induction xs)
  case (Cons x xs)
  have "(\<Sum>b\<leftarrow>[0..<n]. length (filter (\<lambda>y. f y = b) (x # xs)))
      = (\<Sum>b\<leftarrow>[0..<n]. (if b = f x then 1 else 0) + length (filter (\<lambda>y. f y = b) xs))"
    by (intro arg_cong [where f = sum_list] map_cong) auto
  also have "\<dots> = (\<Sum>b\<leftarrow>[0..<n]. if b = f x then 1 else 0) + length xs"
    using Cons by (simp add: sum_list_addf)
  also have "(\<Sum>b\<leftarrow>[0..<n]. if b = f x then 1 else 0) = (1::nat)"
    using Cons.prems by (simp add: interv_sum_list_conv_sum_set_nat)
  finally show ?case by simp
qed simp

lemma filter_zip_fst:
  "length xs = length ys \<Longrightarrow> length (filter (\<lambda>(x, y). P x) (zip xs ys)) = length (filter P xs)"
  by (induction xs ys rule: list_induct2) auto

text \<open>The reliability curve loses nothing.  Its bins count every prediction exactly once, and a bin
  counts the predictions from its lower edge up to its upper edge, the last bin closing at one.\<close>

theorem reliability_curve_partitions:
  assumes "0 < n" "length probs = length outcomes" "\<forall>p \<in> set probs. 0 \<le> p \<and> p \<le> 1"
  shows "sum_list (map cb_count (reliability_curve probs outcomes n)) = length probs
    \<and> (\<forall>b < n. cb_count (reliability_curve probs outcomes n ! b) =
         length (filter (\<lambda>p. bin_edge n b \<le> p \<and> (p < bin_edge n (Suc b) \<or> Suc b = n)) probs))"
proof -
  have count: "cb_count (reliability_curve probs outcomes n ! b)
      = length (filter (\<lambda>p. bin_index n p = b) probs)" if "b < n" for b
    using that filter_zip_fst [OF assms(2)] by (simp add: reliability_curve_def Let_def)
  have "map cb_count (reliability_curve probs outcomes n)
      = map (\<lambda>b. length (filter (\<lambda>p. bin_index n p = b) probs)) [0..<n]"
    using filter_zip_fst [OF assms(2)] by (simp add: reliability_curve_def Let_def)
  moreover have "bin_index n p < n" for p using assms(1) by (simp add: bin_index_def)
  ultimately have "sum_list (map cb_count (reliability_curve probs outcomes n)) = length probs"
    using sum_bin_counts [of probs "bin_index n" n] by simp
  moreover have "filter (\<lambda>p. bin_index n p = b) probs
      = filter (\<lambda>p. bin_edge n b \<le> p \<and> (p < bin_edge n (Suc b) \<or> Suc b = n)) probs" if "b < n" for b
    using assms(3) that by (intro filter_cong) (auto simp: bin_index_iff)
  ultimately show ?thesis using count by simp
qed

lemma reliability_curve_partitions_witness:
  "sum_list (map cb_count (reliability_curve [0, 1 / 2, 1] [0, 1, 1] 2)) = 3
   \<and> cb_count (reliability_curve [0, 1 / 2, 1] [0, 1, 1] 2 ! 1) = 2"
  using reliability_curve_partitions [of 2 "[0, 1 / 2, 1]" "[0, 1, 1]"]
  by (simp add: bin_edge_def)

end
