(* ===== verification/Signals.thy ===== *)
theory Signals
  imports Feeds Universe Metrics
begin

text \<open>
  What is computed from the stored observations: the prediction log (\<open>feedback/prediction_log.py\<close>,
  \<open>pruning.py\<close>, \<open>drift.py\<close>, \<open>scoring.py\<close>), event detection (\<open>memory/taxonomy.py\<close>) with its alerts
  (\<open>alerts.py\<close>), and the features read from event datasets (\<open>features/flow.py\<close>, \<open>llm.py\<close>, \<open>news.py\<close>,
  \<open>fundamental.py\<close>).  A cross-sectional Series reindexed to the requested symbols is the list of
  symbols with their values.
\<close>

section \<open>prediction_log.py\<close>

definition prediction_dataset :: string where "prediction_dataset = ''forecast.prediction''"

record prediction =
  pr_as_of :: datetime
  pr_symbol :: string
  pr_probability :: flt
  pr_horizon_days :: int
  pr_model_version :: string
  pr_features :: "(string, flt) dict"

definition prediction_observation :: "datetime \<Rightarrow> prediction \<Rightarrow> observation" where
  "prediction_observation now r =
     with_deterministic_id (new_obs now ''forecast'' prediction_dataset ''equity'' (pr_symbol r)
       (Some (pr_model_version r)) (pr_as_of r) (pr_as_of r)
       [(''probability'', PFloat (pr_probability r)), (''horizon_days'', PInt (pr_horizon_days r)),
        (''model_version'', PStr (pr_model_version r))]
       [(''features'', PDict (map (\<lambda>(k, v). (k, PFloat v)) (pr_features r)))])"

definition float_item :: "string \<times> pyval \<Rightarrow> (string \<times> flt) res" where
  "float_item kv = (case to_float (snd kv) of Inl e \<Rightarrow> Inl e | Inr x \<Rightarrow> Inr (fst kv, x))"

definition prediction_of :: "(pyval \<Rightarrow> string) \<Rightarrow> observation \<Rightarrow> prediction res" where
  "prediction_of rpr x =
     (case pindex (o_value x) ''probability'' of Inl e \<Rightarrow> Inl e | Inr p \<Rightarrow>
      case to_float p of Inl e \<Rightarrow> Inl e | Inr prob \<Rightarrow>
      case pindex (o_value x) ''horizon_days'' of Inl e \<Rightarrow> Inl e | Inr h \<Rightarrow>
      case to_int h of Inl e \<Rightarrow> Inl e | Inr horizon \<Rightarrow>
      case pindex (o_value x) ''model_version'' of Inl e \<Rightarrow> Inl e | Inr mv \<Rightarrow>
      case dict_get (PDict []) (o_metadata x) ''features'' of
        PDict d \<Rightarrow> (case map_res float_item d of
            Inl e \<Rightarrow> Inl e
          | Inr fs \<Rightarrow> Inr \<lparr>pr_as_of = o_event_time x, pr_symbol = o_entity_id x, pr_probability = prob,
                pr_horizon_days = horizon, pr_model_version = py_str rpr mv, pr_features = fs\<rparr>)
      | _ \<Rightarrow> Inl TypeError)"

definition log_predictions ::
  "'s store_ops \<Rightarrow> datetime \<Rightarrow> prediction list \<Rightarrow> 's \<Rightarrow> 's \<times> int" where
  "log_predictions S now rs s =
     (let obs = map (prediction_observation now) rs in (st_upsert S obs s, int (length obs)))"

definition load_predictions ::
  "(pyval \<Rightarrow> string) \<Rightarrow> 's store_ops \<Rightarrow> 's \<Rightarrow> datetime \<Rightarrow> string option \<Rightarrow> prediction list res" where
  "load_predictions rpr S s as_of model_version =
     (case map_res (prediction_of rpr) (st_as_of S s as_of (q_of_dataset prediction_dataset)) of
        Inl e \<Rightarrow> Inl e
      | Inr rs \<Rightarrow> Inr (case model_version of
            None \<Rightarrow> rs | Some v \<Rightarrow> filter (\<lambda>r. pr_model_version r = v) rs))"

section \<open>pruning.py, drift.py, scoring.py\<close>

definition prune_signals_by_ic ::
  "(string, real) dict \<Rightarrow> real \<Rightarrow> string list \<times> string list" where
  "prune_signals_by_ic ic min_abs_ic =
     (sort (map fst (filter (\<lambda>(s, v). min_abs_ic \<le> \<bar>v\<bar>) ic)),
      sort (map fst (filter (\<lambda>(s, v). \<bar>v\<bar> < min_abs_ic) ic)))"

record drift_monitor =
  dm_baseline :: flt
  dm_tolerance :: flt
  dm_metric :: string

definition is_drifting :: "drift_monitor \<Rightarrow> flt \<Rightarrow> bool" where
  "is_drifting m live \<longleftrightarrow> dm_tolerance m < \<bar>live - dm_baseline m\<bar>"

record prediction_score =
  sc_n :: nat
  sc_brier :: real
  sc_hit_rate :: real

text \<open>Probabilities here are numbers.\<close>

definition score_predictions ::
  "prediction list \<Rightarrow> (string, real) dict \<Rightarrow> real \<Rightarrow> prediction_score" where
  "score_predictions predictions realized threshold =
     (let known = List.map_filter (\<lambda>p. case map_of realized (pr_symbol p) of
              None \<Rightarrow> None
            | Some outcome \<Rightarrow> Some (flt_val (pr_probability p), if threshold < outcome then 1 else 0 :: real))
            predictions;
          n = length known
      in if n = 0 then \<lparr>sc_n = 0, sc_brier = 0, sc_hit_rate = 0\<rparr>
         else \<lparr>sc_n = n, sc_brier = brier_score (map fst known) (map snd known),
               sc_hit_rate = real (length (filter (\<lambda>(p, l). (if 1 / 2 < p then 1 else 0) = l) known)) / real n\<rparr>)"

section \<open>taxonomy.py\<close>

datatype event_type = EARNINGS_BEAT | EARNINGS_MISS | CPI_SURPRISE | FED_SURPRISE | GUIDANCE_CHANGE
  | M_AND_A | REGULATORY_ACTION | GEOPOLITICAL_SHOCK | INSIDER_CLUSTER_BUY | LEADERSHIP_CONGRESS_TRADE
  | NEWS_SENTIMENT_SPIKE

record event =
  ev_type :: event_type
  ev_entity_id :: string
  ev_event_time :: datetime
  ev_knowledge_time :: datetime
  ev_payload :: payload

definition cluster_event :: "string \<Rightarrow> observation list \<Rightarrow> event" where
  "cluster_event entity obs =
     \<lparr>ev_type = INSIDER_CLUSTER_BUY, ev_entity_id = entity,
      ev_event_time = Max (o_event_time ` set obs), ev_knowledge_time = Max (o_knowledge_time ` set obs),
      ev_payload = [(''n_buys'', PInt (int (length obs)))]\<rparr>"

definition congress_event :: "observation \<Rightarrow> event" where
  "congress_event x =
     \<lparr>ev_type = LEADERSHIP_CONGRESS_TRADE, ev_entity_id = o_entity_id x, ev_event_time = o_event_time x,
      ev_knowledge_time = o_knowledge_time x,
      ev_payload = [(''transaction_type'', pget (o_value x) ''transaction_type'')]\<rparr>"

definition recent_purchases :: "'s store_ops \<Rightarrow> 's \<Rightarrow> datetime \<Rightarrow> int \<Rightarrow> observation list" where
  "recent_purchases S s as_of window_days =
     filter (\<lambda>x. truthy (pget (o_value x) ''is_purchase'') \<and> as_of - days window_days < o_knowledge_time x)
       (st_as_of S s as_of (q_of_dataset form4_dataset))"

definition detect_events ::
  "'s store_ops \<Rightarrow> 's \<Rightarrow> datetime \<Rightarrow> int \<Rightarrow> int \<Rightarrow> event list" where
  "detect_events S s as_of cluster_threshold cluster_window_days =
     (let purchases = group_by o_entity_id (recent_purchases S s as_of cluster_window_days)
      in map (\<lambda>(entity, obs). cluster_event entity obs)
           (filter (\<lambda>(entity, obs). cluster_threshold \<le> int (length obs)) purchases)
         @ map congress_event
             (filter (\<lambda>x. truthy (pget (o_metadata x) ''high_signal_role''))
               (st_as_of S s as_of (q_of_dataset congress_dataset))))"

section \<open>alerts.py\<close>

record alert =
  al_level :: string
  al_kind :: string
  al_entity_id :: string
  al_message :: string
  al_as_of :: datetime

definition alert_of :: "(pyval \<Rightarrow> string) \<Rightarrow> datetime \<Rightarrow> event \<Rightarrow> alert option" where
  "alert_of rpr as_of e =
     (if ev_type e = INSIDER_CLUSTER_BUY then
        Some \<lparr>al_level = ''high'', al_kind = ''insider_cluster_buy'', al_entity_id = ev_entity_id e,
          al_message = py_str rpr (pget (ev_payload e) ''n_buys'') @ '' insiders bought '' @ ev_entity_id e,
          al_as_of = as_of\<rparr>
      else if ev_type e = LEADERSHIP_CONGRESS_TRADE then
        Some \<lparr>al_level = ''medium'', al_kind = ''leadership_congress_trade'', al_entity_id = ev_entity_id e,
          al_message = ''leadership '' @ py_str rpr (pget (ev_payload e) ''transaction_type'') @ '' in ''
            @ ev_entity_id e,
          al_as_of = as_of\<rparr>
      else None)"

definition generate_alerts ::
  "(pyval \<Rightarrow> string) \<Rightarrow> 's store_ops \<Rightarrow> 's \<Rightarrow> datetime \<Rightarrow> int \<Rightarrow> int \<Rightarrow> alert list" where
  "generate_alerts rpr S s as_of cluster_threshold cluster_window_days =
     List.map_filter (alert_of rpr as_of) (detect_events S s as_of cluster_threshold cluster_window_days)"

section \<open>flow.py\<close>

definition filing_marks :: "(pyval \<Rightarrow> string) \<Rightarrow> observation list \<Rightarrow> (string \<times> int \<times> int) list" where
  "filing_marks rpr obs =
     remdups (List.map_filter (\<lambda>x.
       let name = pget (o_value x) ''insider_name''; kt = o_knowledge_time x
       in if truthy name then Some (py_str rpr name, dt_month kt, dt_year kt) else None) obs)"

definition routine_insiders :: "(pyval \<Rightarrow> string) \<Rightarrow> observation list \<Rightarrow> string set" where
  "routine_insiders rpr obs =
     (let marks = filing_marks rpr obs
      in set (map fst (filter (\<lambda>(n, m, y).
           3 \<le> length (filter (\<lambda>(n', m', y'). n' = n \<and> m' = m) marks)) marks)))"

definition tally :: "(observation \<Rightarrow> real) \<Rightarrow> observation list \<Rightarrow> (string, real) dict" where
  "tally f obs =
     fold (\<lambda>x d. dict_set (o_entity_id x) (dict_get 0 d (o_entity_id x) + f x) d) obs []"

definition reindex :: "'v \<Rightarrow> (string, 'v) dict \<Rightarrow> string list \<Rightarrow> (string \<times> 'v) list" where
  "reindex dflt d symbols = map (\<lambda>s. (s, dict_get dflt d s)) symbols"

definition insider_net_buys ::
  "(pyval \<Rightarrow> string) \<Rightarrow> 's store_ops \<Rightarrow> 's \<Rightarrow> int \<Rightarrow> bool \<Rightarrow> datetime \<Rightarrow> string list \<Rightarrow> (string \<times> real) list" where
  "insider_net_buys rpr S s window_days opportunistic_only as_of symbols =
     (let cutoff = as_of - days window_days;
          obs = st_as_of S s as_of (q_of_dataset form4_dataset);
          routine = (if opportunistic_only then routine_insiders rpr obs else {});
          counted = filter (\<lambda>x. cutoff < o_knowledge_time x
            \<and> \<not> (opportunistic_only \<and> py_str rpr (pget (o_value x) ''insider_name'') \<in> routine)) obs
      in reindex 0 (tally (\<lambda>x. if truthy (pget (o_value x) ''is_purchase'') then 1 else - 1) counted) symbols)"

definition congress_leadership_buys ::
  "'s store_ops \<Rightarrow> 's \<Rightarrow> int \<Rightarrow> datetime \<Rightarrow> string list \<Rightarrow> (string \<times> real) list" where
  "congress_leadership_buys S s window_days as_of symbols =
     (let cutoff = as_of - days window_days;
          buys = filter (\<lambda>x. cutoff < o_knowledge_time x \<and> truthy (pget (o_metadata x) ''high_signal_role'')
            \<and> pget (o_value x) ''transaction_type'' = PStr ''buy'')
            (st_as_of S s as_of (q_of_dataset congress_dataset))
      in reindex 0 (tally (\<lambda>x. 1) buys) symbols)"

section \<open>llm.py\<close>

definition llm_signal_dataset :: string where "llm_signal_dataset = ''llm.signal''"

definition llm_reading ::
  "datetime \<Rightarrow> observation \<Rightarrow> (string, datetime \<times> flt) dict \<Rightarrow> (string, datetime \<times> flt) dict res" where
  "llm_reading cutoff x latest =
     (if o_knowledge_time x \<le> cutoff then Inr latest
      else case to_float (dict_get (PFloat 0) (o_value x) ''score'') of Inl e \<Rightarrow> Inl e | Inr score \<Rightarrow>
           case to_float (dict_get (PFloat 0) (o_value x) ''confidence'') of Inl e \<Rightarrow> Inl e | Inr conf \<Rightarrow>
             Inr (if (case map_of latest (o_entity_id x) of
                        None \<Rightarrow> True | Some prev \<Rightarrow> fst prev < o_knowledge_time x)
                  then dict_set (o_entity_id x) (o_knowledge_time x, score * conf) latest else latest))"

text \<open>\<open>fillna(0.0)\<close> also replaces a NaN score.\<close>

definition llm_news_sentiment ::
  "'s store_ops \<Rightarrow> 's \<Rightarrow> int \<Rightarrow> datetime \<Rightarrow> string list \<Rightarrow> (string \<times> flt) list res" where
  "llm_news_sentiment S s window_days as_of symbols =
     (case fold_res (llm_reading (as_of - days window_days))
             (st_as_of S s as_of (q_of_dataset llm_signal_dataset)) [] of
        Inl e \<Rightarrow> Inl e
      | Inr latest \<Rightarrow>
          Inr (map (\<lambda>(sy, v). (sy, if v = NaN then 0 else v))
                 (reindex 0 (map (\<lambda>(sy, tv). (sy, snd tv)) latest) symbols)))"

section \<open>news.py\<close>

definition news_by_symbol ::
  "'s store_ops \<Rightarrow> 's \<Rightarrow> datetime \<Rightarrow> string list \<Rightarrow> int \<Rightarrow> (string, observation list) dict" where
  "news_by_symbol S s as_of symbols window_days =
     group_by o_entity_id (filter (\<lambda>x. o_entity_id x \<in> set symbols \<and> as_of - days window_days \<le> o_event_time x)
       (st_as_of S s as_of (q_of_dataset news_dataset)))"

definition news_attention ::
  "'s store_ops \<Rightarrow> 's \<Rightarrow> int \<Rightarrow> datetime \<Rightarrow> string list \<Rightarrow> (string \<times> real) list" where
  "news_attention S s window_days as_of symbols =
     (let rows = news_by_symbol S s as_of symbols window_days
      in map (\<lambda>sy. (sy, ln (1 + real (length (dict_get [] rows sy))))) symbols)"

definition tones :: "observation list \<Rightarrow> flt list res" where
  "tones obs = map_res (\<lambda>x. to_float (pget (o_value x) ''tone''))
                 (filter (\<lambda>x. \<not> is_none (pget (o_value x) ''tone'')) obs)"

definition mean_tone :: "observation list \<Rightarrow> flt res" where
  "mean_tone obs =
     (case tones obs of
        Inl e \<Rightarrow> Inl e
      | Inr ts \<Rightarrow> Inr (if ts = [] then 0 else fdiv (sum_list ts) (Fin (real (length ts)))))"

definition news_sentiment ::
  "'s store_ops \<Rightarrow> 's \<Rightarrow> int \<Rightarrow> datetime \<Rightarrow> string list \<Rightarrow> (string \<times> flt) list res" where
  "news_sentiment S s window_days as_of symbols =
     (let rows = news_by_symbol S s as_of symbols window_days
      in map_res (\<lambda>sy. case mean_tone (dict_get [] rows sy) of Inl e \<Rightarrow> Inl e | Inr t \<Rightarrow> Inr (sy, t)) symbols)"

section \<open>fundamental.py\<close>

text \<open>Figures are finite, so the tuples are sorted by their numbers.\<close>

definition latest_price ::
  "observation \<Rightarrow> (string, datetime \<times> flt) dict \<Rightarrow> (string, datetime \<times> flt) dict res" where
  "latest_price x latest =
     (if is_none (pget (o_value x) ''close'') then Inr latest
      else if (case map_of latest (o_entity_id x) of None \<Rightarrow> True | Some cur \<Rightarrow> fst cur < o_event_time x)
      then (case to_float (pget (o_value x) ''close'') of
              Inl e \<Rightarrow> Inl e | Inr c \<Rightarrow> Inr (dict_set (o_entity_id x) (o_event_time x, c) latest))
      else Inr latest)"

definition eps_row :: "observation \<Rightarrow> (string \<times> datetime \<times> flt \<times> datetime) option res" where
  "eps_row x =
     (if is_none (pget (o_value x) ''eps'') then Inr None
      else (case to_float (pget (o_value x) ''eps'') of
              Inl e \<Rightarrow> Inl e
            | Inr v \<Rightarrow> Inr (Some (o_entity_id x, o_event_time x, v, o_knowledge_time x))))"

definition eps_history ::
  "'s store_ops \<Rightarrow> 's \<Rightarrow> datetime \<Rightarrow> (string, (string \<times> datetime \<times> flt \<times> datetime) list) dict res" where
  "eps_history S s as_of =
     (case collect_res eps_row (st_as_of S s as_of (q_of_dataset fundamental_dataset)) of
        Inl e \<Rightarrow> Inl e | Inr rows \<Rightarrow> Inr (group_by fst rows))"

definition earnings_yield ::
  "'s store_ops \<Rightarrow> 's \<Rightarrow> datetime \<Rightarrow> string list \<Rightarrow> (string \<times> flt) list res" where
  "earnings_yield S s as_of symbols =
     (case fold_res latest_price (st_as_of S s as_of (q_of_dataset price_dataset)) [] of
        Inl e \<Rightarrow> Inl e
      | Inr latest_px \<Rightarrow>
     (case eps_history S s as_of of
        Inl e \<Rightarrow> Inl e
      | Inr hist \<Rightarrow>
          Inr (map (\<lambda>sy.
            let rows = sort_key (\<lambda>(_, t, v, _). (t, flt_val v)) (dict_get [] hist sy);
                quarters = drop (length rows - 4) rows
            in (sy, if length quarters = 4
                    then (case map_of latest_px sy of
                            None \<Rightarrow> NaN
                          | Some px \<Rightarrow> if 0 < snd px
                              then fdiv (sum_list (map (\<lambda>(_, _, v, _). v) quarters)) (snd px) else NaN)
                    else NaN)) symbols)))"

definition earnings_surprise ::
  "'s store_ops \<Rightarrow> 's \<Rightarrow> int \<Rightarrow> nat \<Rightarrow> datetime \<Rightarrow> string list \<Rightarrow> (string \<times> flt) list res" where
  "earnings_surprise S s drift_days min_quarters as_of symbols =
     (case eps_history S s as_of of
        Inl e \<Rightarrow> Inl e
      | Inr hist \<Rightarrow>
          map_res (\<lambda>sy.
            let rows = sort_key (\<lambda>(_, t, v, kt). (t, flt_val v, kt)) (dict_get [] hist sy);
                eps = map (\<lambda>(_, _, v, _). v) rows
            in if length rows < min_quarters then Inr (sy, NaN)
               else if rows = [] then Inl IndexError
               else Inr (sy, if snd (snd (snd (last rows))) \<le> as_of - days drift_days then NaN
                    else let diffs = map (\<lambda>i. eps ! i - eps ! (i - 4)) [4..<length eps]
                         in if length diffs < 3 then NaN
                            else let sd = series_std 1 (butlast diffs)
                                 in if 0 < sd then fdiv (last diffs) sd else NaN)) symbols)"

section \<open>Facts\<close>

lemma prediction_observation_fields [simp]:
  "o_event_time (prediction_observation now r) = pr_as_of r"
  "o_knowledge_time (prediction_observation now r) = pr_as_of r"
  "o_dataset (prediction_observation now r) = prediction_dataset"
  "o_entity_id (prediction_observation now r) = pr_symbol r"
  by (simp_all add: prediction_observation_def)

text \<open>A logged prediction is read back as it was made, with its whole input snapshot.\<close>

lemma prediction_of_observation: "prediction_of rpr (prediction_observation now r) = Inr r"
proof -
  have "map_res float_item (map (\<lambda>(k, v). (k, PFloat v)) d) = Inr d" for d
    by (induction d) (auto simp: float_item_def)
  then show ?thesis by (simp add: prediction_of_def prediction_observation_def pindex_def)
qed

lemma event_fields [simp]:
  "ev_type (cluster_event entity obs) = INSIDER_CLUSTER_BUY"
  "ev_type (congress_event x) = LEADERSHIP_CONGRESS_TRADE"
  "ev_entity_id (cluster_event entity obs) = entity"
  "ev_knowledge_time (cluster_event entity obs) = Max (o_knowledge_time ` set obs)"
  "ev_payload (cluster_event entity obs) = [(''n_buys'', PInt (int (length obs)))]"
  by (simp_all add: cluster_event_def congress_event_def)

lemma detect_cluster_iff:
  "e \<in> set (detect_events S s as_of threshold window) \<and> ev_type e = INSIDER_CLUSTER_BUY \<longleftrightarrow>
     (\<exists>obs. obs = filter (\<lambda>x. o_entity_id x = ev_entity_id e) (recent_purchases S s as_of window)
        \<and> obs \<noteq> [] \<and> threshold \<le> int (length obs) \<and> e = cluster_event (ev_entity_id e) obs)"
proof -
  let ?g = "group_by o_entity_id (recent_purchases S s as_of window)"
  have "e \<in> set (detect_events S s as_of threshold window) \<and> ev_type e = INSIDER_CLUSTER_BUY \<longleftrightarrow>
      (\<exists>entity obs. (entity, obs) \<in> set ?g \<and> threshold \<le> int (length obs) \<and> e = cluster_event entity obs)"
    unfolding detect_events_def Let_def by (auto simp: image_iff; force)
  also have "\<dots> \<longleftrightarrow> (\<exists>obs. map_of ?g (ev_entity_id e) = Some obs \<and> threshold \<le> int (length obs)
      \<and> e = cluster_event (ev_entity_id e) obs)"
    unfolding map_of_in_set [OF distinct_group_by] by (metis event_fields(3))
  also have "\<dots> \<longleftrightarrow> (\<exists>obs. obs = filter (\<lambda>x. o_entity_id x = ev_entity_id e) (recent_purchases S s as_of window)
        \<and> obs \<noteq> [] \<and> threshold \<le> int (length obs) \<and> e = cluster_event (ev_entity_id e) obs)"
    unfolding map_of_group_by by (auto simp: filter_empty_conv)
  finally show ?thesis .
qed

end
