(* ===== verification/Sleeves.thy ===== *)
theory Sleeves
  imports Signals Engine
begin

text \<open>
  The event sleeves: \<open>runtime/insider_events.py\<close> and \<open>runtime/insider_sleeve.py\<close> (insider clusters), and
  \<open>runtime/news_sleeve.py\<close> (news surges).  A pass changes the store \<open>s\<close> and the broker \<open>b\<close>; both are
  returned with its result or its exception, as what was written before an exception stays
  written.  \<open>digest\<close> is the first 16 hex digits of SHA-1.
\<close>

section \<open>What the two sleeves share\<close>

definition put_obs :: "'s store_ops \<Rightarrow> observation \<Rightarrow> 's \<Rightarrow> 's" where
  "put_obs S x s = st_upsert S [with_deterministic_id x] s"

definition latest_close ::
  "string set \<Rightarrow> observation \<Rightarrow> (string, flt) dict \<Rightarrow> (string, flt) dict res" where
  "latest_close symbols x prices =
     (if o_entity_id x \<in> symbols \<and> truthy (pget (o_value x) ''close'')
      then (case to_float (pget (o_value x) ''close'') of
              Inl e \<Rightarrow> Inl e | Inr c \<Rightarrow> Inr (dict_set (o_entity_id x) c prices))
      else Inr prices)"

definition latest_prices ::
  "'s store_ops \<Rightarrow> 's \<Rightarrow> datetime \<Rightarrow> string set \<Rightarrow> (string, flt) dict res" where
  "latest_prices S s as_of symbols =
     fold_res (latest_close symbols) (st_as_of S s as_of (q_of_dataset price_dataset)) []"

text \<open>The hard stop of a sleeve position.\<close>

definition stopped_out :: "settings \<Rightarrow> flt option \<Rightarrow> flt \<Rightarrow> bool" where
  "stopped_out st px entry \<longleftrightarrow>
     (case px of
        None \<Rightarrow> False
      | Some p \<Rightarrow> flt_truthy p \<and> 0 < entry \<and> 0 < stop_loss_pct st
                  \<and> fdiv p entry - 1 \<le> - stop_loss_pct st)"

text \<open>The newest row of each name; \<open>R\<close> says when a row replaces the one held.\<close>

definition keep_latest ::
  "(datetime \<Rightarrow> datetime \<Rightarrow> bool) \<Rightarrow> observation \<Rightarrow> (string, observation) dict \<Rightarrow> (string, observation) dict" where
  "keep_latest R x d =
     (case map_of d (o_entity_id x) of
        None \<Rightarrow> dict_set (o_entity_id x) x d
      | Some cur \<Rightarrow> if R (o_event_time cur) (o_event_time x) then dict_set (o_entity_id x) x d else d)"

definition latest_by ::
  "(datetime \<Rightarrow> datetime \<Rightarrow> bool) \<Rightarrow> observation list \<Rightarrow> (string, observation) dict" where
  "latest_by R obs = fold (keep_latest R) obs []"

definition parse_exit :: "(pyval \<Rightarrow> string) \<Rightarrow> payload \<Rightarrow> datetime res" where
  "parse_exit rpr v =
     (case pindex v ''exit_by'' of Inl e \<Rightarrow> Inl e | Inr x \<Rightarrow>
      case fromisoformat (py_str rpr x) of Inl e \<Rightarrow> Inl e | Inr t \<Rightarrow> Inr (to_utc_lenient t))"

definition run_rebalance ::
  "'b broker_ops \<Rightarrow> 's store_ops \<Rightarrow> datetime \<Rightarrow> settings \<Rightarrow> risk_limits \<Rightarrow> weights \<Rightarrow> (string, flt) dict
   \<Rightarrow> datetime \<Rightarrow> 'b \<Rightarrow> 'b \<times> order list res" where
  "run_rebalance B S now st limits target prices as_of b =
     (if target = [] then (b, Inr [])
      else (case engine_init S now b st (Some limits) None None None None of
              Inl e \<Rightarrow> (b, Inl e)
            | Inr en \<Rightarrow>
                (case rebalance B S now target prices as_of en of (en', r) \<Rightarrow> (en_broker en', r))))"

record sleeve_result =
  sr_as_of :: datetime
  sr_opened :: "string list"
  sr_closed :: "string list"
  sr_orders :: "order list"

section \<open>insider_events.py\<close>

record sleeve_entry =
  se_symbol :: string
  se_knowledge_time :: datetime
  se_exit_by :: datetime
  se_n_buys :: int
  se_expected_car :: flt

fun pick_clusters ::
  "datetime \<Rightarrow> int \<Rightarrow> int \<Rightarrow> int \<Rightarrow> flt \<Rightarrow> string set \<Rightarrow> event list \<Rightarrow> sleeve_entry list \<Rightarrow> sleeve_entry list res" where
  "pick_clusters as_of hold_days max_names freshness_days car owned [] out = Inr out"
| "pick_clusters as_of hold_days max_names freshness_days car owned (e # es) out =
     (if ev_entity_id e \<in> owned then pick_clusters as_of hold_days max_names freshness_days car owned es out
      else if freshness_days < td_days (as_of - ev_knowledge_time e)
      then pick_clusters as_of hold_days max_names freshness_days car owned es out
      else (case to_int (dict_get (PInt 0) (ev_payload e) ''n_buys'') of
              Inl err \<Rightarrow> Inl err
            | Inr n \<Rightarrow>
                let out' = out @ [\<lparr>se_symbol = ev_entity_id e, se_knowledge_time = ev_knowledge_time e,
                       se_exit_by = as_of + days hold_days, se_n_buys = n, se_expected_car = car\<rparr>]
                in if max_names \<le> int (length out') then Inr out'
                   else pick_clusters as_of hold_days max_names freshness_days car owned es out'))"

text \<open>\<open>gate\<close> maps the label of a tradeable event type to its mean abnormal return.\<close>

definition insider_cluster_entries ::
  "'s store_ops \<Rightarrow> 's \<Rightarrow> datetime \<Rightarrow> (string, flt) dict \<Rightarrow> int \<Rightarrow> int \<Rightarrow> int \<Rightarrow> int \<Rightarrow> int \<Rightarrow> string set
   \<Rightarrow> sleeve_entry list res" where
  "insider_cluster_entries S s as_of gate hold_days max_names freshness_days cluster_threshold
       cluster_window_days owned =
     (case map_of gate ''insider_cluster_buy'' of
        None \<Rightarrow> Inr []
      | Some mean_car \<Rightarrow>
          if mean_car \<le> 0 then Inr []
          else
            let clusters = filter (\<lambda>e. ev_type e = INSIDER_CLUSTER_BUY)
                  (detect_events S s as_of cluster_threshold cluster_window_days)
            in pick_clusters as_of hold_days max_names freshness_days mean_car owned
                 (sort_key (\<lambda>e. - ev_knowledge_time e) clusters) [])"

section \<open>insider_sleeve.py\<close>

definition insider_sleeve_dataset :: string where "insider_sleeve_dataset = ''sleeve.insider_position''"

record insider_position =
  ip_symbol :: string
  ip_entry_price :: flt
  ip_exit_by :: datetime
  ip_n_buys :: int

definition insider_latest :: "observation list \<Rightarrow> (string, observation) dict" where
  "insider_latest obs = latest_by (\<le>) obs"

definition insider_position_of ::
  "(pyval \<Rightarrow> string) \<Rightarrow> string \<times> observation \<Rightarrow> (string \<times> insider_position) option res" where
  "insider_position_of rpr sx =
     (let (sy, x) = sx; v = o_value x in
      if pget v ''status'' \<noteq> PStr ''open'' then Inr None
      else case to_float (dict_get (PFloat 0) v ''entry_price'') of Inl e \<Rightarrow> Inl e | Inr entry \<Rightarrow>
           case parse_exit rpr v of Inl e \<Rightarrow> Inl e | Inr exit_by \<Rightarrow>
           case to_int (dict_get (PInt 0) v ''n_buys'') of Inl e \<Rightarrow> Inl e | Inr n \<Rightarrow>
             Inr (Some (sy, \<lparr>ip_symbol = sy, ip_entry_price = entry, ip_exit_by = exit_by, ip_n_buys = n\<rparr>)))"

definition active_insider_positions ::
  "(pyval \<Rightarrow> string) \<Rightarrow> 's store_ops \<Rightarrow> 's \<Rightarrow> datetime \<Rightarrow> (string, insider_position) dict res" where
  "active_insider_positions rpr S s as_of =
     collect_res (insider_position_of rpr)
       (insider_latest (st_as_of S s as_of (q_of_dataset insider_sleeve_dataset)))"

definition insider_open_obs ::
  "datetime \<Rightarrow> string \<Rightarrow> datetime \<Rightarrow> flt \<Rightarrow> datetime \<Rightarrow> int \<Rightarrow> observation" where
  "insider_open_obs now symbol as_of entry_price exit_by n_buys =
     new_obs now ''sleeve'' insider_sleeve_dataset ''equity'' symbol
       (Some (''open:'' @ date_iso (dt_date as_of))) as_of as_of
       [(''status'', PStr ''open''), (''entry_price'', PFloat entry_price),
        (''exit_by'', PStr (isoformat exit_by)), (''n_buys'', PInt n_buys)] []"

definition insider_close_obs :: "datetime \<Rightarrow> string \<Rightarrow> datetime \<Rightarrow> string \<Rightarrow> observation" where
  "insider_close_obs now symbol as_of reason =
     new_obs now ''sleeve'' insider_sleeve_dataset ''equity'' symbol
       (Some (''close:'' @ reason @ '':'' @ date_iso (dt_date as_of))) as_of as_of
       [(''status'', PStr ''closed''), (''reason'', PStr reason)] []"

fun insider_close_loop ::
  "'s store_ops \<Rightarrow> datetime \<Rightarrow> settings \<Rightarrow> datetime \<Rightarrow> (string, flt) dict \<Rightarrow> (string \<times> insider_position) list
   \<Rightarrow> weights \<Rightarrow> string list \<Rightarrow> 's \<Rightarrow> weights \<times> string list \<times> 's" where
  "insider_close_loop S now st as_of prices [] target shut s = (target, shut, s)"
| "insider_close_loop S now st as_of prices ((sy, pos) # rest) target shut s =
     (let stopped = stopped_out st (map_of prices sy) (ip_entry_price pos) in
      if ip_exit_by pos \<le> as_of \<or> stopped
      then insider_close_loop S now st as_of prices rest (dict_set sy 0 target) (shut @ [sy])
             (put_obs S (insider_close_obs now sy as_of (if stopped then ''stop'' else ''horizon'')) s)
      else insider_close_loop S now st as_of prices rest target shut s)"

definition insider_prediction :: "settings \<Rightarrow> datetime \<Rightarrow> sleeve_entry \<Rightarrow> prediction" where
  "insider_prediction st as_of e =
     \<lparr>pr_as_of = as_of, pr_symbol = se_symbol e,
      pr_probability = py_min 1 (py_max 0 (se_expected_car e * 10)),
      pr_horizon_days = insider_sleeve_hold_days st, pr_model_version = ''insider_sleeve'',
      pr_features = [(''n_buys'', Fin (of_int (se_n_buys e))), (''expected_car'', se_expected_car e)]\<rparr>"

fun insider_open_loop ::
  "'s store_ops \<Rightarrow> datetime \<Rightarrow> settings \<Rightarrow> datetime \<Rightarrow> (string, flt) dict \<Rightarrow> flt \<Rightarrow> sleeve_entry list
   \<Rightarrow> weights \<Rightarrow> string list \<Rightarrow> 's \<Rightarrow> weights \<times> string list \<times> 's" where
  "insider_open_loop S now st as_of prices per_name [] target opened s = (target, opened, s)"
| "insider_open_loop S now st as_of prices per_name (e # es) target opened s =
     (case map_of prices (se_symbol e) of
        None \<Rightarrow> insider_open_loop S now st as_of prices per_name es target opened s
      | Some p \<Rightarrow>
          if \<not> flt_truthy p then insider_open_loop S now st as_of prices per_name es target opened s
          else insider_open_loop S now st as_of prices per_name es (dict_set (se_symbol e) per_name target)
                 (opened @ [se_symbol e])
                 (fst (log_predictions S now [insider_prediction st as_of e]
                    (put_obs S (insider_open_obs now (se_symbol e) as_of p (se_exit_by e) (se_n_buys e)) s))))"

definition limits_from_settings :: "settings \<Rightarrow> risk_limits" where
  "limits_from_settings st = default_limits\<lparr>lim_max_position_weight := max_position_weight st,
     lim_max_gross_exposure := max_gross_exposure st, lim_max_net_exposure := max_net_exposure st\<rparr>"

definition per_name_weight :: "flt \<Rightarrow> int \<Rightarrow> flt" where
  "per_name_weight budget max_names = fdiv budget (Fin (of_int (max max_names 1)))"

definition run_insider_sleeve_cycle ::
  "(pyval \<Rightarrow> string) \<Rightarrow> 'b broker_ops \<Rightarrow> 's store_ops \<Rightarrow> datetime \<Rightarrow> settings \<Rightarrow> datetime \<Rightarrow> (string, flt) dict
   \<Rightarrow> 's \<times> 'b \<Rightarrow> ('s \<times> 'b) \<times> sleeve_result res" where
  "run_insider_sleeve_cycle rpr B S now st as_of gate sb =
     (let (s, b) = sb in
      case active_insider_positions rpr S s as_of of Inl e \<Rightarrow> ((s, b), Inl e) | Inr active \<Rightarrow>
      case latest_prices S s as_of (set (resolve_universe (universe st)) \<union> set (keys active)) of
        Inl e \<Rightarrow> ((s, b), Inl e)
      | Inr prices \<Rightarrow>
        let (target1, shut, s1) = insider_close_loop S now st as_of prices active [] [] s;
            live = filter (\<lambda>sy. sy \<notin> set shut) (keys active);
            slots = max 0 (insider_sleeve_max_names st - int (length live))
        in case (if slots \<noteq> 0
                 then insider_cluster_entries S s1 as_of gate (insider_sleeve_hold_days st) slots 5 3 30 (set live)
                 else Inr []) of
             Inl e \<Rightarrow> ((s1, b), Inl e)
           | Inr entries \<Rightarrow>
               let (target2, opened, s2) = insider_open_loop S now st as_of prices
                     (per_name_weight (insider_sleeve_budget st) (insider_sleeve_max_names st))
                     entries target1 [] s1
               in (case run_rebalance B S now st (limits_from_settings st) target2 prices as_of b of
                     (b', Inl e) \<Rightarrow> ((s2, b'), Inl e)
                   | (b', Inr orders) \<Rightarrow>
                       ((s2, b'), Inr \<lparr>sr_as_of = as_of, sr_opened = opened, sr_closed = shut,
                                       sr_orders = orders\<rparr>)))"

text \<open>The standalone pass ingests before it runs the cycle.  \<open>fetch_bars\<close> and \<open>fetch_filings\<close> are the two
  clients' answers, \<open>study\<close> the event study's tradeable types.\<close>

definition run_insider_sleeve_live_pass ::
  "(pyval \<Rightarrow> string) \<Rightarrow> 'b broker_ops \<Rightarrow> 's store_ops \<Rightarrow> datetime \<Rightarrow> pydate \<Rightarrow> settings \<Rightarrow> string list \<Rightarrow> int
   \<Rightarrow> (string list \<Rightarrow> pydate \<Rightarrow> pydate \<Rightarrow> string \<Rightarrow> price_bar list res)
   \<Rightarrow> (string list \<Rightarrow> int \<Rightarrow> form4_record list res) \<Rightarrow> ('s \<Rightarrow> int \<Rightarrow> (string, flt) dict)
   \<Rightarrow> 's \<times> 'b \<Rightarrow> ('s \<times> 'b) \<times> sleeve_result res" where
  "run_insider_sleeve_live_pass rpr B S now today st wanted lookback_days fetch_bars fetch_filings study sb =
     (let (s, b) = sb; watchlist = (if wanted \<noteq> [] then wanted else resolve_universe (universe st)) in
      if \<not> (str_set (alpaca_key_id st) \<and> str_set (alpaca_secret_key st)) then (sb, Inl RuntimeError)
      else case (if \<not> alpaca_paper st then assert_live_allowed st else Inr ()) of
        Inl e \<Rightarrow> (sb, Inl e)
      | Inr _ \<Rightarrow>
      case fetch_bars watchlist (today - lookback_days) today (alpaca_data_feed st) of
        Inl e \<Rightarrow> (sb, Inl e)
      | Inr bars \<Rightarrow>
      let s1 = fst (ingest S True False (normalize_prices now bars) s) in
      case fetch_filings watchlist (insider_lookback_days st) of
        Inl e \<Rightarrow> ((s1, b), Inl e)
      | Inr filings \<Rightarrow>
      let s2 = (if filings \<noteq> [] then fst (ingest S True False (normalize_form4 now filings) s1) else s1)
      in run_insider_sleeve_cycle rpr B S now st now (study s2 (insider_sleeve_hold_days st)) (s2, b))"

section \<open>news_sleeve.py: events\<close>

record news_event =
  ne_symbol :: string
  ne_direction :: int
  ne_confidence :: flt
  ne_tone :: flt
  ne_surge :: flt
  ne_story_hash :: string

definition articles_within ::
  "'s store_ops \<Rightarrow> 's \<Rightarrow> datetime \<Rightarrow> string set \<Rightarrow> int \<Rightarrow> (string, observation list) dict" where
  "articles_within S s as_of symbols baseline_days =
     group_by o_entity_id (filter (\<lambda>x. o_entity_id x \<in> symbols \<and> as_of - days baseline_days \<le> o_event_time x)
       (st_as_of S s as_of (q_of_dataset news_dataset)))"

definition news_confidence :: "flt \<Rightarrow> flt \<Rightarrow> flt \<Rightarrow> flt \<Rightarrow> flt" where
  "news_confidence surge tone count_surge tone_min =
     (let from_surge = (if 0 < count_surge then py_min 1 (fdiv surge (2 * count_surge)) else 0);
          from_tone = (if 0 < tone_min then py_min 1 (fdiv \<bar>tone\<bar> (2 * tone_min)) else 0)
      in flt_round_digits 4 (py_max 0 (py_min 1 (Fin (1 / 2) * from_surge + Fin (1 / 2) * from_tone))))"

definition story_hash :: "(pyval \<Rightarrow> string) \<Rightarrow> (string \<Rightarrow> string) \<Rightarrow> observation \<Rightarrow> observation list \<Rightarrow> string" where
  "story_hash rpr digest x xs =
     (let v = o_value (max_by o_event_time x xs);
          key = (if truthy (pget v ''url'') then py_str rpr (pget v ''url'')
                 else if truthy (pget v ''title'') then py_str rpr (pget v ''title'') else [])
      in digest key)"

definition news_event_of ::
  "(pyval \<Rightarrow> string) \<Rightarrow> (string \<Rightarrow> string) \<Rightarrow> datetime \<Rightarrow> flt \<Rightarrow> flt \<Rightarrow> int \<Rightarrow> int \<Rightarrow> string \<times> observation list
   \<Rightarrow> news_event option res" where
  "news_event_of rpr digest as_of count_surge tone_min baseline_days recent_days items =
     (let (sy, rows) = items;
          recent_cut = as_of - days recent_days;
          denom = max (baseline_days - recent_days) 1;
          recent = filter (\<lambda>x. recent_cut \<le> o_event_time x) rows
      in case recent of
           [] \<Rightarrow> Inr None
         | r0 # rs \<Rightarrow>
             if length recent < 3 then Inr None
             else
               let baseline_daily = real (length (filter (\<lambda>x. o_event_time x < recent_cut) rows)) / of_int denom;
                   surge = Fin (real (length recent) / max baseline_daily (1 / 2))
               in if surge < count_surge then Inr None
                  else (case mean_tone recent of
                          Inl e \<Rightarrow> Inl e
                        | Inr tone \<Rightarrow>
                            Inr (Some \<lparr>ne_symbol = sy,
                              ne_direction = (if 0 < tone then 1 else if tone < 0 then - 1 else 0),
                              ne_confidence = news_confidence surge tone count_surge tone_min,
                              ne_tone = flt_round_digits 4 tone, ne_surge = flt_round_digits 4 surge,
                              ne_story_hash = story_hash rpr digest r0 rs\<rparr>)))"

definition detect_news_events ::
  "(pyval \<Rightarrow> string) \<Rightarrow> (string \<Rightarrow> string) \<Rightarrow> 's store_ops \<Rightarrow> 's \<Rightarrow> datetime \<Rightarrow> string list \<Rightarrow> flt \<Rightarrow> flt \<Rightarrow> int \<Rightarrow> int
   \<Rightarrow> news_event list res" where
  "detect_news_events rpr digest S s as_of symbols count_surge tone_min baseline_days recent_days =
     collect_res (news_event_of rpr digest as_of count_surge tone_min baseline_days recent_days)
       (articles_within S s as_of (set symbols) baseline_days)"

section \<open>news_sleeve.py: positions\<close>

definition news_sleeve_dataset :: string where "news_sleeve_dataset = ''sleeve.news_position''"

record news_position =
  np_symbol :: string
  np_entry_price :: flt
  np_exit_by :: datetime
  np_story_hash :: string

definition news_latest :: "observation list \<Rightarrow> (string, observation) dict" where
  "news_latest obs = latest_by (<) obs"

definition news_rows :: "'s store_ops \<Rightarrow> 's \<Rightarrow> datetime \<Rightarrow> observation list" where
  "news_rows S s as_of = st_as_of S s as_of (q_of_dataset news_sleeve_dataset)"

definition news_position_of ::
  "(pyval \<Rightarrow> string) \<Rightarrow> string \<times> observation \<Rightarrow> (string \<times> news_position) option res" where
  "news_position_of rpr sx =
     (let (sy, x) = sx; v = o_value x in
      if pget v ''status'' \<noteq> PStr ''open'' then Inr None
      else case to_float (dict_get (PFloat 0) v ''entry_price'') of Inl e \<Rightarrow> Inl e | Inr entry \<Rightarrow>
           case parse_exit rpr v of Inl e \<Rightarrow> Inl e | Inr exit_by \<Rightarrow>
             Inr (Some (sy, \<lparr>np_symbol = sy, np_entry_price = entry, np_exit_by = exit_by,
                             np_story_hash = py_str rpr (dict_get (PStr []) v ''story_hash'')\<rparr>)))"

definition active_sleeve_positions ::
  "(pyval \<Rightarrow> string) \<Rightarrow> 's store_ops \<Rightarrow> 's \<Rightarrow> datetime \<Rightarrow> (string, news_position) dict res" where
  "active_sleeve_positions rpr S s as_of =
     collect_res (news_position_of rpr) (news_latest (news_rows S s as_of))"

definition acted_story_hashes :: "(pyval \<Rightarrow> string) \<Rightarrow> 's store_ops \<Rightarrow> 's \<Rightarrow> datetime \<Rightarrow> string set" where
  "acted_story_hashes rpr S s as_of =
     (\<lambda>x. py_str rpr (pget (o_value x) ''story_hash''))
       ` {x \<in> set (news_rows S s as_of). truthy (pget (o_value x) ''story_hash'')}"

definition last_action_times :: "'s store_ops \<Rightarrow> 's \<Rightarrow> datetime \<Rightarrow> (string, datetime) dict" where
  "last_action_times S s as_of = map (\<lambda>(sy, x). (sy, o_event_time x)) (news_latest (news_rows S s as_of))"

definition news_open_obs ::
  "datetime \<Rightarrow> string \<Rightarrow> datetime \<Rightarrow> flt \<Rightarrow> datetime \<Rightarrow> string \<Rightarrow> observation" where
  "news_open_obs now symbol as_of entry_price exit_by hash =
     new_obs now ''sleeve'' news_sleeve_dataset ''equity'' symbol (Some hash) as_of as_of
       [(''status'', PStr ''open''), (''entry_price'', PFloat entry_price),
        (''exit_by'', PStr (isoformat exit_by)), (''story_hash'', PStr hash)] []"

definition news_close_obs :: "datetime \<Rightarrow> string \<Rightarrow> datetime \<Rightarrow> string \<Rightarrow> string \<Rightarrow> observation" where
  "news_close_obs now symbol as_of hash reason =
     new_obs now ''sleeve'' news_sleeve_dataset ''equity'' symbol
       (Some (hash @ '':close:'' @ reason)) as_of as_of
       [(''status'', PStr ''closed''), (''story_hash'', PStr hash), (''reason'', PStr reason)] []"

definition news_prediction :: "datetime \<Rightarrow> int \<Rightarrow> news_event \<Rightarrow> prediction" where
  "news_prediction as_of hold_days ev =
     \<lparr>pr_as_of = as_of, pr_symbol = ne_symbol ev, pr_probability = ne_confidence ev,
      pr_horizon_days = hold_days, pr_model_version = ''news_sleeve'',
      pr_features = [(''tone'', ne_tone ev), (''surge'', ne_surge ev), (''confidence'', ne_confidence ev)]\<rparr>"

section \<open>news_sleeve.py: one pass\<close>

fun news_close_loop ::
  "'s store_ops \<Rightarrow> datetime \<Rightarrow> settings \<Rightarrow> datetime \<Rightarrow> (string, flt) dict \<Rightarrow> (string \<times> news_position) list
   \<Rightarrow> weights \<Rightarrow> string list \<Rightarrow> 's \<Rightarrow> weights \<times> string list \<times> 's" where
  "news_close_loop S now st as_of prices [] target shut s = (target, shut, s)"
| "news_close_loop S now st as_of prices ((sy, pos) # rest) target shut s =
     (let stopped = stopped_out st (map_of prices sy) (np_entry_price pos) in
      if np_exit_by pos \<le> as_of \<or> stopped
      then news_close_loop S now st as_of prices rest (dict_set sy 0 target) (shut @ [sy])
             (put_obs S (news_close_obs now sy as_of (np_story_hash pos)
                (if stopped then ''stop'' else ''horizon'')) s)
      else news_close_loop S now st as_of prices rest target shut s)"

text \<open>The guards of an opening, in the order of the code; \<open>acted\<close> and \<open>last_action\<close> were read before the pass
  closed anything.\<close>

definition news_entry_ok ::
  "settings \<Rightarrow> datetime \<Rightarrow> (string, flt) dict \<Rightarrow> string set \<Rightarrow> (string, datetime) dict \<Rightarrow> string list \<Rightarrow> news_event
   \<Rightarrow> flt option" where
  "news_entry_ok st as_of prices acted last_action live ev =
     (case map_of prices (ne_symbol ev) of
        None \<Rightarrow> None
      | Some price \<Rightarrow>
          if \<not> flt_truthy price \<or> price \<le> 0 then None
          else if ne_direction ev \<le> 0 \<or> ne_confidence ev < news_sleeve_min_confidence st then None
          else if ne_story_hash ev \<in> acted \<or> ne_symbol ev \<in> set live then None
          else if (case map_of last_action (ne_symbol ev) of
                     None \<Rightarrow> False | Some prev \<Rightarrow> as_of - prev < days (news_sleeve_cooldown_days st)) then None
          else Some price)"

fun news_open_loop ::
  "'s store_ops \<Rightarrow> datetime \<Rightarrow> settings \<Rightarrow> datetime \<Rightarrow> (string, flt) dict \<Rightarrow> string set \<Rightarrow> (string, datetime) dict
   \<Rightarrow> flt \<Rightarrow> news_event list \<Rightarrow> weights \<Rightarrow> string list \<Rightarrow> string list \<Rightarrow> 's
   \<Rightarrow> weights \<times> string list \<times> string list \<times> 's" where
  "news_open_loop S now st as_of prices acted last_action per_name [] target live opened s =
     (target, live, opened, s)"
| "news_open_loop S now st as_of prices acted last_action per_name (ev # evs) target live opened s =
     (if news_sleeve_max_names st \<le> int (length live) then (target, live, opened, s)
      else (case news_entry_ok st as_of prices acted last_action live ev of
              None \<Rightarrow> news_open_loop S now st as_of prices acted last_action per_name evs target live opened s
            | Some price \<Rightarrow>
                news_open_loop S now st as_of prices acted last_action per_name evs
                  (dict_set (ne_symbol ev) per_name target) (live @ [ne_symbol ev]) (opened @ [ne_symbol ev])
                  (fst (log_predictions S now [news_prediction as_of (news_sleeve_hold_days st) ev]
                    (put_obs S (news_open_obs now (ne_symbol ev) as_of price
                       (as_of + days (news_sleeve_hold_days st)) (ne_story_hash ev)) s)))))"

definition news_limits :: "settings \<Rightarrow> risk_limits" where
  "news_limits st = default_limits\<lparr>lim_max_position_weight :=
       py_max (per_name_weight (news_sleeve_budget st) (news_sleeve_max_names st)) (max_position_weight st),
     lim_max_gross_exposure := news_sleeve_budget st, lim_max_net_exposure := news_sleeve_budget st\<rparr>"

text \<open>\<open>feed\<close> is what the news source answers; no watchlist stands for the empty one.\<close>

definition run_news_sleeve_cycle ::
  "(pyval \<Rightarrow> string) \<Rightarrow> (string \<Rightarrow> string) \<Rightarrow> 'b broker_ops \<Rightarrow> 's store_ops \<Rightarrow> datetime \<Rightarrow> settings
   \<Rightarrow> (string list \<Rightarrow> int \<Rightarrow> observation list res) \<Rightarrow> datetime \<Rightarrow> string list \<Rightarrow> risk_limits option
   \<Rightarrow> 's \<times> 'b \<Rightarrow> ('s \<times> 'b) \<times> sleeve_result res" where
  "run_news_sleeve_cycle rpr digest B S now st feed as_of wanted limits sb =
     (let (s, b) = sb; watchlist = (if wanted \<noteq> [] then wanted else resolve_universe (universe st)) in
      case feed watchlist (news_sleeve_lookback_minutes st) of Inl e \<Rightarrow> ((s, b), Inl e) | Inr obs \<Rightarrow>
      let s0 = (if obs \<noteq> [] then fst (ingest S True False obs s) else s) in
      case latest_prices S s0 as_of (set watchlist) of Inl e \<Rightarrow> ((s0, b), Inl e) | Inr prices \<Rightarrow>
      case active_sleeve_positions rpr S s0 as_of of Inl e \<Rightarrow> ((s0, b), Inl e) | Inr active \<Rightarrow>
      let acted = acted_story_hashes rpr S s0 as_of;
          last_action = last_action_times S s0 as_of;
          (target1, shut, s1) = news_close_loop S now st as_of prices active [] [] s0;
          per_name = per_name_weight (news_sleeve_budget st) (news_sleeve_max_names st);
          live = filter (\<lambda>sy. sy \<notin> set shut) (keys active)
      in case detect_news_events rpr digest S s1 as_of watchlist (news_sleeve_count_surge st)
                (news_sleeve_tone_min st) (news_sleeve_baseline_days st) 1 of
           Inl e \<Rightarrow> ((s1, b), Inl e)
         | Inr events \<Rightarrow>
             let (target2, _, opened, s2) = news_open_loop S now st as_of prices acted last_action per_name
                   (sort_key (\<lambda>ev. - flt_val (ne_confidence ev)) events) target1 live [] s1
             in (case run_rebalance B S now st (case limits of Some l \<Rightarrow> l | None \<Rightarrow> news_limits st)
                        target2 prices as_of b of
                   (b', Inl e) \<Rightarrow> ((s2, b'), Inl e)
                 | (b', Inr orders) \<Rightarrow>
                     ((s2, b'), Inr \<lparr>sr_as_of = as_of, sr_opened = opened, sr_closed = shut,
                                     sr_orders = orders\<rparr>)))"

section \<open>news_sleeve.py: the loop\<close>

text \<open>
  The world \<open>'w\<close> is what the market check, the pass, the stop flag and sleep act on.  A raising pass or
  market check is swallowed.  Without an iteration cap the loop may run forever (\<open>None\<close>).
\<close>

definition loop_stops :: "('w \<Rightarrow> bool \<times> 'w) option \<Rightarrow> nat option \<Rightarrow> nat \<Rightarrow> 'w \<Rightarrow> bool \<times> 'w" where
  "loop_stops stop max_iterations iterations w =
     (let (stopped, w1) = (case stop of None \<Rightarrow> (False, w) | Some f \<Rightarrow> f w)
      in (stopped \<or> (case max_iterations of None \<Rightarrow> False | Some m \<Rightarrow> m \<le> iterations), w1))"

definition news_pass :: "('w \<Rightarrow> bool res \<times> 'w) \<Rightarrow> ('w \<Rightarrow> 'r res \<times> 'w) \<Rightarrow> 'w \<Rightarrow> 'w" where
  "news_pass is_market_open run_cycle w =
     (case is_market_open w of
        (Inl e, w1) \<Rightarrow> w1
      | (Inr True, w1) \<Rightarrow> snd (run_cycle w1)
      | (Inr False, w1) \<Rightarrow> w1)"

partial_function (option) news_loop ::
  "('w \<Rightarrow> bool res \<times> 'w) \<Rightarrow> ('w \<Rightarrow> 'r res \<times> 'w) \<Rightarrow> ('w \<Rightarrow> 'w) \<Rightarrow> ('w \<Rightarrow> bool \<times> 'w) option
   \<Rightarrow> nat option \<Rightarrow> nat \<Rightarrow> 'w \<Rightarrow> (nat \<times> 'w) option" where
  "news_loop is_market_open run_cycle sleep stop max_iterations iterations w =
     (let r1 = loop_stops stop max_iterations iterations w in
      if fst r1 then Some (iterations, snd r1)
      else
        let r2 = loop_stops stop max_iterations (Suc iterations) (news_pass is_market_open run_cycle (snd r1)) in
        if fst r2 then Some (Suc iterations, snd r2)
        else news_loop is_market_open run_cycle sleep stop max_iterations (Suc iterations) (sleep (snd r2)))"

text \<open>The wiring in front of the loop: without injected callables the keys must be set and a live
  endpoint armed.\<close>

definition news_loop_guard :: "settings \<Rightarrow> bool \<Rightarrow> unit res" where
  "news_loop_guard st injected =
     (if injected then Inr ()
      else if \<not> (str_set (alpaca_key_id st) \<and> str_set (alpaca_secret_key st)) then Inl RuntimeError
      else if \<not> alpaca_paper st then assert_live_allowed st
      else Inr ())"

section \<open>The newest row of a name\<close>

lemma latest_by_snoc: "latest_by R (obs @ [x]) = keep_latest R x (latest_by R obs)"
  by (simp add: latest_by_def)

lemma latest_by_Nil [simp]: "latest_by R [] = []"
  by (simp add: latest_by_def)

lemma map_of_keep_latest:
  "map_of (keep_latest R x d) k =
     (if k \<noteq> o_entity_id x then map_of d k
      else case map_of d k of
        None \<Rightarrow> Some x
      | Some cur \<Rightarrow> Some (if R (o_event_time cur) (o_event_time x) then x else cur))"
  by (auto simp: keep_latest_def dict_simps split: option.split)

lemma distinct_keep_latest: "distinct (keys d) \<Longrightarrow> distinct (keys (keep_latest R x d))"
  by (auto simp: keep_latest_def dict_simps split: option.split)

lemma distinct_latest_by: "distinct (keys (latest_by R obs))"
  by (induction obs rule: rev_induct) (simp_all add: latest_by_snoc distinct_keep_latest)

lemma latest_by_sound:
  "map_of (latest_by R obs) k = Some v \<Longrightarrow> v \<in> set obs \<and> o_entity_id v = k"
proof (induction obs arbitrary: v rule: rev_induct)
  case (snoc x obs)
  then show ?case
    by (fastforce simp: latest_by_snoc map_of_keep_latest split: if_splits option.splits)
qed simp

lemma latest_by_some: "x \<in> set obs \<Longrightarrow> map_of (latest_by R obs) (o_entity_id x) \<noteq> None"
  by (induction obs rule: rev_induct)
    (auto simp: latest_by_snoc map_of_keep_latest split: option.splits)

text \<open>Both comparisons of the sleeves keep a row that is strictly newer than the others of its name.\<close>

lemma latest_by_newest:
  assumes R: "\<And>a b. a < b \<Longrightarrow> R a b" "\<And>a b. R a b \<Longrightarrow> a \<le> b"
    and "x \<in> set obs"
    and "\<And>y. y \<in> set obs \<Longrightarrow> o_entity_id y = o_entity_id x \<Longrightarrow> y \<noteq> x \<Longrightarrow> o_event_time y < o_event_time x"
  shows "map_of (latest_by R obs) (o_entity_id x) = Some x"
  using assms(3,4)
proof (induction obs rule: rev_induct)
  case (snoc y obs)
  show ?case
  proof (cases "y = x")
    case True
    show ?thesis
    proof (cases "map_of (latest_by R obs) (o_entity_id x)")
      case None
      then show ?thesis using True by (simp add: latest_by_snoc map_of_keep_latest)
    next
      case (Some c)
      then have "c \<noteq> x \<longrightarrow> o_event_time c < o_event_time x"
        using latest_by_sound snoc.prems(2) by fastforce
      then show ?thesis using True Some R(1) by (auto simp: latest_by_snoc map_of_keep_latest)
    qed
  next
    case False
    then have "map_of (latest_by R obs) (o_entity_id x) = Some x" using snoc by auto
    moreover have "\<not> R (o_event_time x) (o_event_time y)" if "o_entity_id y = o_entity_id x"
      using snoc.prems(2) [of y] False that R(2) by fastforce
    ultimately show ?thesis by (auto simp: latest_by_snoc map_of_keep_latest)
  qed
qed simp

section \<open>The sleeve's state is what its rows say\<close>

definition sleeve_older :: "string \<Rightarrow> string \<Rightarrow> datetime \<Rightarrow> (uuid \<rightharpoonup> observation) \<Rightarrow> bool" where
  "sleeve_older ds sy t m \<longleftrightarrow>
     (\<forall>x \<in> ran m. o_dataset x = ds \<and> o_entity_id x = sy \<longrightarrow> o_event_time x < t)"

definition readable ::
  "(string \<times> observation \<Rightarrow> 'p option res) \<Rightarrow> string \<Rightarrow> (uuid \<rightharpoonup> observation) \<Rightarrow> bool" where
  "readable f ds m \<longleftrightarrow> (\<forall>x \<in> ran m. o_dataset x = ds \<longrightarrow> (\<exists>p. f (o_entity_id x, x) = Inr p))"

context bitemporal_store
begin

lemma newest_position:
  assumes "inv s" "sleeve_older ds (o_entity_id x) (o_event_time x) (rows s)"
    and x: "o_dataset x = ds" "o_knowledge_time x \<le> k"
    and R: "\<And>a b. a < b \<Longrightarrow> R a b" "\<And>a b. R a b \<Longrightarrow> a \<le> b"
    and f: "\<And>k x k' p. f (k, x) = Inr (Some (k', p)) \<Longrightarrow> k' = k"
    and ps: "collect_res f (latest_by R (st_as_of S (st_upsert S [x] s) k (q_of_dataset ds))) = Inr ps"
  shows "map_of ps (o_entity_id x) =
    (case f (o_entity_id x, x) of Inr (Some (_, p)) \<Rightarrow> Some p | _ \<Rightarrow> None)"
proof -
  let ?obs = "st_as_of S (st_upsert S [x] s) k (q_of_dataset ds)"
  have vis: "visible k (q_of_dataset ds) x" using x by (simp add: visible_dataset)
  have group: "o_entity_id v = o_entity_id x" if "logical_key v = logical_key x" for v
    using that by (simp add: logical_key_def)
  note newest = newest_row_read [OF assms(1) q_latest_dataset vis,
      where P = "\<lambda>y. o_entity_id y = o_entity_id x", OF group]
  have before: "o_event_time y < o_event_time x"
    if "y \<in> ran (rows s)" "visible k (q_of_dataset ds) y" "o_entity_id y = o_entity_id x" for y
    using that assms(2) by (simp add: sleeve_older_def visible_dataset)
  have "map_of (latest_by R ?obs) (o_entity_id x) = Some x"
    by (rule latest_by_newest [OF R newest(1) newest(2)]) (use before in auto)
  then show ?thesis using map_of_collect_res [OF distinct_latest_by ps f] by simp
qed

lemma positions_readable:
  assumes "inv s" "readable f ds (rows s)"
  shows "\<exists>ps. collect_res f (latest_by R (st_as_of S s k (q_of_dataset ds))) = Inr ps"
proof (rule collect_res_total, rule ballI)
  fix e assume e: "e \<in> set (latest_by R (st_as_of S s k (q_of_dataset ds)))"
  obtain sy x where sx: "e = (sy, x)" by (cases e)
  then have "map_of (latest_by R (st_as_of S s k (q_of_dataset ds))) sy = Some x"
    using e by (simp add: distinct_latest_by)
  from latest_by_sound [OF this] have x: "x \<in> set (st_as_of S s k (q_of_dataset ds))" "o_entity_id x = sy"
    by auto
  then have "x \<in> ran (rows s)" "o_dataset x = ds"
    using as_of_admitted [OF assms(1) x(1)] by (auto simp: visible_dataset)
  with assms(2) show "\<exists>p. f e = Inr p" using x(2) sx by (auto simp: readable_def)
qed

lemma readable_upsert:
  assumes "inv s" "readable f ds (rows s)" "\<exists>p. f (o_entity_id x, x) = Inr p"
  shows "readable f ds (rows (st_upsert S [x] s))"
  using assms(2,3) ran_upsert_one [OF assms(1)] unfolding readable_def by blast

lemma position_read_back:
  assumes "inv s" "readable f ds (rows s)" "sleeve_older ds (o_entity_id x) (o_event_time x) (rows s)"
    and "o_dataset x = ds" "o_knowledge_time x \<le> k" "f (o_entity_id x, x) = Inr y"
    and "\<And>a b. a < b \<Longrightarrow> R a b" "\<And>a b. R a b \<Longrightarrow> a \<le> b"
    and "\<And>k x k' p. f (k, x) = Inr (Some (k', p)) \<Longrightarrow> k' = k"
  shows "\<exists>ps. collect_res f (latest_by R (st_as_of S (st_upsert S [x] s) k (q_of_dataset ds))) = Inr ps
    \<and> map_of ps (o_entity_id x) = map_option snd y"
proof -
  have "readable f ds (rows (st_upsert S [x] s))"
    using assms(6) by (intro readable_upsert [OF assms(1,2)]) blast
  then obtain ps where ps: "collect_res f (latest_by R (st_as_of S (st_upsert S [x] s) k (q_of_dataset ds)))
      = Inr ps" using positions_readable [OF inv_upsert [OF assms(1)]] by blast
  have "map_of ps (o_entity_id x) =
      (case f (o_entity_id x, x) of Inr (Some (_, p)) \<Rightarrow> Some p | _ \<Rightarrow> None)"
    by (rule newest_position [OF assms(1,3-5,7-8) assms(9) ps])
  then show ?thesis using ps assms(6) by (cases y) (auto split: prod.splits)
qed

end

lemma news_position_key: "news_position_of rpr (k, x) = Inr (Some (k', p)) \<Longrightarrow> k' = k"
  by (auto simp: news_position_of_def Let_def split: if_splits sum.splits)

lemma insider_position_key: "insider_position_of rpr (k, x) = Inr (Some (k', p)) \<Longrightarrow> k' = k"
  by (auto simp: insider_position_of_def Let_def split: if_splits sum.splits)

lemma parse_exit_isoformat:
  "valid_dt t \<Longrightarrow> pindex v ''exit_by'' = Inr (PStr (isoformat t)) \<Longrightarrow> parse_exit rpr v = Inr t"
  by (simp add: parse_exit_def fromisoformat_isoformat_core)

lemma news_position_open:
  "valid_dt exit \<Longrightarrow> news_position_of rpr (sy, with_deterministic_id (news_open_obs now sy t p exit h)) =
     Inr (Some (sy, \<lparr>np_symbol = sy, np_entry_price = p, np_exit_by = exit, np_story_hash = h\<rparr>))"
  by (simp add: news_position_of_def news_open_obs_def pget_def pindex_def
      parse_exit_isoformat)

lemma news_position_closed:
  "news_position_of rpr (sy, with_deterministic_id (news_close_obs now sy t h r)) = Inr None"
  by (simp add: news_position_of_def news_close_obs_def pget_def)

lemma insider_position_open:
  "valid_dt exit \<Longrightarrow> insider_position_of rpr (sy, with_deterministic_id (insider_open_obs now sy t p exit n)) =
     Inr (Some (sy, \<lparr>ip_symbol = sy, ip_entry_price = p, ip_exit_by = exit, ip_n_buys = n\<rparr>))"
  by (simp add: insider_position_of_def insider_open_obs_def pget_def pindex_def
      parse_exit_isoformat)

lemma insider_position_closed:
  "insider_position_of rpr (sy, with_deterministic_id (insider_close_obs now sy t r)) = Inr None"
  by (simp add: insider_position_of_def insider_close_obs_def pget_def)

lemma sleeve_obs_fields [simp]:
  "o_dataset (news_open_obs now sy t p exit h) = news_sleeve_dataset"
  "o_entity_id (news_open_obs now sy t p exit h) = sy"
  "o_event_time (news_open_obs now sy t p exit h) = t"
  "o_knowledge_time (news_open_obs now sy t p exit h) = t"
  "o_dataset (news_close_obs now sy t h r) = news_sleeve_dataset"
  "o_entity_id (news_close_obs now sy t h r) = sy"
  "o_event_time (news_close_obs now sy t h r) = t"
  "o_knowledge_time (news_close_obs now sy t h r) = t"
  "o_dataset (insider_open_obs now sy t p exit n) = insider_sleeve_dataset"
  "o_entity_id (insider_open_obs now sy t p exit n) = sy"
  "o_event_time (insider_open_obs now sy t p exit n) = t"
  "o_knowledge_time (insider_open_obs now sy t p exit n) = t"
  "o_dataset (insider_close_obs now sy t r) = insider_sleeve_dataset"
  "o_entity_id (insider_close_obs now sy t r) = sy"
  "o_event_time (insider_close_obs now sy t r) = t"
  "o_knowledge_time (insider_close_obs now sy t r) = t"
  by (simp_all add: news_open_obs_def news_close_obs_def insider_open_obs_def insider_close_obs_def)

lemma news_row_read_back:
  assumes "bitemporal_store S rows I" "I s" "readable (news_position_of rpr) news_sleeve_dataset (rows s)"
    and "sleeve_older news_sleeve_dataset (o_entity_id x) (o_event_time x) (rows s)"
    and "o_dataset x = news_sleeve_dataset" "o_knowledge_time x \<le> k"
    and "news_position_of rpr (o_entity_id x, with_deterministic_id x) = Inr y"
  shows "\<exists>ps. active_sleeve_positions rpr S (put_obs S x s) k = Inr ps
    \<and> map_of ps (o_entity_id x) = map_option snd y"
  unfolding active_sleeve_positions_def news_rows_def news_latest_def put_obs_def
  using bitemporal_store.position_read_back [OF assms(1-3), of "with_deterministic_id x" k y "(<)"]
    assms(4-7) news_position_key by simp

lemma insider_row_read_back:
  assumes "bitemporal_store S rows I" "I s"
    and "readable (insider_position_of rpr) insider_sleeve_dataset (rows s)"
    and "sleeve_older insider_sleeve_dataset (o_entity_id x) (o_event_time x) (rows s)"
    and "o_dataset x = insider_sleeve_dataset" "o_knowledge_time x \<le> k"
    and "insider_position_of rpr (o_entity_id x, with_deterministic_id x) = Inr y"
  shows "\<exists>ps. active_insider_positions rpr S (put_obs S x s) k = Inr ps
    \<and> map_of ps (o_entity_id x) = map_option snd y"
  unfolding active_insider_positions_def insider_latest_def put_obs_def
  using bitemporal_store.position_read_back [OF assms(1-3), of "with_deterministic_id x" k y "(\<le>)"]
    assms(4-7) insider_position_key by simp

text \<open>C34: the sleeves are stateless processes whose memory is the store.  Whatever store is behind them, a
  recorded opening is what the next pass reads as the active position of the name, entry price,
  exit time (through its ISO text) and story or cluster size included, and a recorded close ends
  it, provided the name's earlier rows are of earlier passes and the stored rows are readable.\<close>

theorem sleeve_state_is_recoverable:
  assumes "bitemporal_store S rows I" "I s" "valid_dt exit" "t \<le> k"
    and "readable (news_position_of rpr) news_sleeve_dataset (rows s)"
    and "readable (insider_position_of rpr) insider_sleeve_dataset (rows s)"
    and "sleeve_older news_sleeve_dataset sy t (rows s)" "sleeve_older insider_sleeve_dataset sy t (rows s)"
  shows "(\<exists>ps. active_sleeve_positions rpr S (put_obs S (news_open_obs now sy t p exit h) s) k = Inr ps
      \<and> map_of ps sy = Some \<lparr>np_symbol = sy, np_entry_price = p, np_exit_by = exit, np_story_hash = h\<rparr>)
    \<and> (\<exists>ps. active_sleeve_positions rpr S (put_obs S (news_close_obs now sy t h r) s) k = Inr ps
      \<and> map_of ps sy = None)
    \<and> (\<exists>ps. active_insider_positions rpr S (put_obs S (insider_open_obs now sy t p exit n) s) k = Inr ps
      \<and> map_of ps sy = Some \<lparr>ip_symbol = sy, ip_entry_price = p, ip_exit_by = exit, ip_n_buys = n\<rparr>)
    \<and> (\<exists>ps. active_insider_positions rpr S (put_obs S (insider_close_obs now sy t r) s) k = Inr ps
      \<and> map_of ps sy = None)"
  using news_row_read_back [OF assms(1,2,5), of "news_open_obs now sy t p exit h" k]
    news_row_read_back [OF assms(1,2,5), of "news_close_obs now sy t h r" k]
    insider_row_read_back [OF assms(1,2,6), of "insider_open_obs now sy t p exit n" k]
    insider_row_read_back [OF assms(1,2,6), of "insider_close_obs now sy t r" k]
    assms(3,4,7,8) by (simp add: news_position_open news_position_closed insider_position_open
      insider_position_closed)

lemma fresh_sleeve_store:
  "readable f ds (mem_rows mem_empty)" "sleeve_older ds sy t (mem_rows mem_empty)"
  by (simp_all add: readable_def sleeve_older_def mem_rows_def mem_empty_def)

lemma sleeve_state_is_recoverable_witness:
  "\<exists>ps. active_sleeve_positions (\<lambda>_. []) mem_ops
      (put_obs mem_ops (news_open_obs 5 ''ACME'' 5 (Fin 20) (days 6) ''ab'') mem_empty) 7 = Inr ps
    \<and> map_of ps ''ACME'' =
      Some \<lparr>np_symbol = ''ACME'', np_entry_price = Fin 20, np_exit_by = days 6, np_story_hash = ''ab''\<rparr>"
proof -
  have "valid_dt (days 6)" "(5::int) \<le> 7" by (simp_all add: valid_dt_def days_def)
  from sleeve_state_is_recoverable [OF mem.bitemporal_store_axioms mem_inv_empty this
      fresh_sleeve_store(1) fresh_sleeve_store(1) fresh_sleeve_store(2) fresh_sleeve_store(2)]
  show ?thesis by blast
qed

section \<open>What the sleeves may open\<close>

lemma pick_clusters_sound:
  assumes "pick_clusters t hold mx fresh car owned es out = Inr out'" "int (length out) < mx"
  shows "int (length out') \<le> mx \<and> (\<forall>x \<in> set out'. x \<in> set out \<or> (\<exists>e \<in> set es.
      se_symbol x = ev_entity_id e \<and> se_knowledge_time x = ev_knowledge_time e \<and> ev_entity_id e \<notin> owned
    \<and> td_days (t - ev_knowledge_time e) \<le> fresh \<and> se_exit_by x = t + days hold \<and> se_expected_car x = car))"
  using assms
proof (induction t hold mx fresh car owned es out rule: pick_clusters.induct)
  case (2 t hold mx fresh car owned e es out)
  consider "ev_entity_id e \<in> owned" | "ev_entity_id e \<notin> owned" "fresh < td_days (t - ev_knowledge_time e)"
    | "ev_entity_id e \<notin> owned" "\<not> fresh < td_days (t - ev_knowledge_time e)" by blast
  then show ?case
  proof cases
    case 1
    then show ?thesis using 2(1,4,5) by fastforce
  next
    case b: 2
    then show ?thesis using 2(2,4,5) by fastforce
  next
    case c: 3
    obtain n where n: "to_int (dict_get (PInt 0) (ev_payload e) ''n_buys'') = Inr n"
      using 2(4) c by (auto split: sum.splits)
    let ?x = "\<lparr>se_symbol = ev_entity_id e, se_knowledge_time = ev_knowledge_time e,
      se_exit_by = t + days hold, se_n_buys = n, se_expected_car = car\<rparr>"
    show ?thesis
    proof (cases "mx \<le> int (length (out @ [?x]))")
      case True
      then have "out' = out @ [?x]" using 2(4) c n by (simp add: Let_def)
      then show ?thesis using True 2(5) c by fastforce
    next
      case False
      then have "pick_clusters t hold mx fresh car owned es (out @ [?x]) = Inr out'"
        using 2(4) c n by (simp add: Let_def)
      from 2(3) [OF c n refl False this] False show ?thesis using c by fastforce
    qed
  qed
qed simp

text \<open>The insider sleeve is gated.  It opens nothing unless the event study's gate holds its event type
  with a positive mean abnormal return; otherwise every entry is a detected insider cluster of a
  name it does not own that became public at most \<open>freshness_days\<close> ago, leaves after
  \<open>hold_days\<close>, and there are at most \<open>max_names\<close> of them.\<close>

theorem insider_entries_are_gated:
  assumes "insider_cluster_entries S s t gate hold mx fresh threshold window owned = Inr entries" "0 < mx"
  shows "(entries \<noteq> [] \<longrightarrow> (\<exists>car. map_of gate ''insider_cluster_buy'' = Some car \<and> \<not> car \<le> 0))
    \<and> int (length entries) \<le> mx
    \<and> (\<forall>x \<in> set entries. se_symbol x \<notin> owned \<and> se_exit_by x = t + days hold
        \<and> td_days (t - se_knowledge_time x) \<le> fresh
        \<and> (\<exists>e \<in> set (detect_events S s t threshold window). ev_type e = INSIDER_CLUSTER_BUY
            \<and> se_symbol x = ev_entity_id e \<and> se_knowledge_time x = ev_knowledge_time e))"
proof (cases "\<exists>car. map_of gate ''insider_cluster_buy'' = Some car \<and> \<not> car \<le> 0")
  case False
  then have "entries = []"
    using assms(1) by (auto simp: insider_cluster_entries_def split: option.splits if_splits)
  then show ?thesis using assms(2) by simp
next
  case True
  then obtain car where car: "map_of gate ''insider_cluster_buy'' = Some car" "\<not> car \<le> 0" by blast
  then have "pick_clusters t hold mx fresh car owned (sort_key (\<lambda>e. - ev_knowledge_time e)
      (filter (\<lambda>e. ev_type e = INSIDER_CLUSTER_BUY) (detect_events S s t threshold window))) [] = Inr entries"
    using assms(1) by (simp add: insider_cluster_entries_def Let_def)
  from pick_clusters_sound [OF this] show ?thesis using assms(2) True by auto
qed

definition sample_buy :: "nat \<Rightarrow> string \<Rightarrow> observation" where
  "sample_buy i who = (form4_observation 0 \<lparr>f4_issuer_ticker = ''ABC'', f4_insider_name = who,
     f4_transaction_code = ''P'', f4_transaction_date = 5, f4_filing_date = 7, f4_insider_title = None,
     f4_shares = None, f4_price_per_share = None\<rparr>)\<lparr>o_id := Uuid4 i\<rparr>"

definition sample_cluster :: mem_store where
  "sample_cluster = mem_upsert_many [sample_buy 1 ''A'', sample_buy 2 ''B'', sample_buy 3 ''C''] mem_empty"

lemma sample_buy_fields [simp]:
  "o_id (sample_buy i w) = Uuid4 i" "o_entity_id (sample_buy i w) = ''ABC''"
  "o_dataset (sample_buy i w) = form4_dataset" "o_source (sample_buy i w) = ''edgar''"
  "o_entity_type (sample_buy i w) = ''equity''" "o_revision (sample_buy i w) = 0"
  "o_event_time (sample_buy i w) = day_close 5" "o_knowledge_time (sample_buy i w) = day_close 7"
  "o_ref (sample_buy i w) = Some (w @ ''|P'')" "map_of (o_value (sample_buy i w)) ''is_purchase'' = Some (PBool True)"
  by (simp_all add: sample_buy_def form4_observation_def upper_def upper_char_def)

lemma sample_buy_sort: "sort_fields (sample_buy i w) = (day_close 7, day_close 5, ''edgar'', form4_dataset, ''ABC'', 0)"
  by (simp add: sort_fields_def)

lemma sample_purchases:
  "recent_purchases mem_ops sample_cluster (day_close 8) 30 =
     [sample_buy 1 ''A'', sample_buy 2 ''B'', sample_buy 3 ''C'']"
  by (simp add: recent_purchases_def sample_cluster_def mem_ops_def mem_upsert_many_def mem_add_many_def
      mem_add_def mem_empty_def mem_as_of_def q_of_dataset_def q_all_def collapse_latest_revisions_def
      collapse_step_def logical_key_def sort_observations_def pget_def sample_buy_sort day_close_at_def days_def)

lemma sample_events:
  "detect_events mem_ops sample_cluster (day_close 8) 3 30 =
     [\<lparr>ev_type = INSIDER_CLUSTER_BUY, ev_entity_id = ''ABC'', ev_event_time = day_close 5,
       ev_knowledge_time = day_close 7, ev_payload = [(''n_buys'', PInt 3)]\<rparr>]"
proof -
  have "st_as_of mem_ops sample_cluster (day_close 8) (q_of_dataset congress_dataset) = []"
    by (simp add: sample_cluster_def mem_ops_def mem_upsert_many_def mem_add_many_def mem_add_def
        mem_empty_def mem_as_of_def q_of_dataset_def q_all_def collapse_latest_revisions_def
        sort_observations_def form4_dataset_def congress_dataset_def)
  then show ?thesis
    by (simp add: detect_events_def sample_purchases group_by_def cluster_event_def)
qed

lemma insider_entries_are_gated_witness:
  "\<exists>x. insider_cluster_entries mem_ops sample_cluster (day_close 8) [(''insider_cluster_buy'', Fin (3 / 100))]
      5 5 5 3 30 {} = Inr [x] \<and> se_symbol x = ''ABC'' \<and> se_exit_by x = day_close 8 + days 5"
proof -
  have "td_days (day_close 8 - day_close 7) = 1" by (simp add: td_days_def day_close_at_def)
  then obtain x where x: "insider_cluster_entries mem_ops sample_cluster (day_close 8)
      [(''insider_cluster_buy'', Fin (3 / 100))] 5 5 5 3 30 {} = Inr [x]" "se_symbol x = ''ABC''"
    by (simp add: insider_cluster_entries_def sample_events zero_flt_def)
  from insider_entries_are_gated [OF x(1)] x show ?thesis by simp
qed

lemma news_entry_okD:
  assumes "news_entry_ok st t prices acted last_action live ev = Some p"
  shows "map_of prices (ne_symbol ev) = Some p \<and> \<not> p \<le> 0 \<and> 0 < ne_direction ev
    \<and> \<not> ne_confidence ev < news_sleeve_min_confidence st \<and> ne_story_hash ev \<notin> acted
    \<and> ne_symbol ev \<notin> set live
    \<and> (\<forall>prev. map_of last_action (ne_symbol ev) = Some prev \<longrightarrow> days (news_sleeve_cooldown_days st) \<le> t - prev)"
  using assms by (auto simp: news_entry_ok_def split: option.splits if_splits)

lemma news_open_loop_sound:
  assumes "news_open_loop S now st t prices acted last_action w evs target live opened s
      = (target', live', opened', s')"
  shows "\<exists>new. opened' = opened @ new \<and> live' = live @ new \<and> distinct new
    \<and> int (length live') \<le> max (int (length live)) (news_sleeve_max_names st)
    \<and> (\<forall>sy \<in> set new. sy \<notin> set live \<and> (\<exists>ev \<in> set evs. ne_symbol ev = sy
         \<and> (\<exists>live0. news_entry_ok st t prices acted last_action live0 ev \<noteq> None)))
    \<and> (\<forall>sy. map_of target' sy = (if sy \<in> set new then Some w else map_of target sy))"
  using assms
proof (induction evs arbitrary: target live opened s)
  case (Cons ev evs)
  consider "news_sleeve_max_names st \<le> int (length live)"
    | "\<not> news_sleeve_max_names st \<le> int (length live)" "news_entry_ok st t prices acted last_action live ev = None"
    | p where "\<not> news_sleeve_max_names st \<le> int (length live)"
        "news_entry_ok st t prices acted last_action live ev = Some p" by fastforce
  then show ?case
  proof cases
    case 1
    then show ?thesis using Cons.prems by simp
  next
    case 2
    then have "news_open_loop S now st t prices acted last_action w evs target live opened s
      = (target', live', opened', s')" using Cons.prems by simp
    from Cons.IH [OF this] show ?thesis by (metis list.set_intros(2))
  next
    case 3
    let ?sy = "ne_symbol ev"
    have fresh: "?sy \<notin> set live" using news_entry_okD [OF 3(2)] by blast
    from Cons.prems 3 obtain s1 where rest: "news_open_loop S now st t prices acted last_action w evs
        (dict_set ?sy w target) (live @ [?sy]) (opened @ [?sy]) s1 = (target', live', opened', s')" by simp
    from Cons.IH [OF rest] obtain new where new: "opened' = (opened @ [?sy]) @ new" "live' = (live @ [?sy]) @ new" "distinct new"
      "int (length live') \<le> max (int (length (live @ [?sy]))) (news_sleeve_max_names st)"
      "\<forall>sy \<in> set new. sy \<notin> set (live @ [?sy]) \<and> (\<exists>ev \<in> set evs. ne_symbol ev = sy
         \<and> (\<exists>live0. news_entry_ok st t prices acted last_action live0 ev \<noteq> None))"
      "\<forall>sy. map_of target' sy = (if sy \<in> set new then Some w else map_of (dict_set ?sy w target) sy)"
      by blast
    show ?thesis
      using new fresh 3 by (intro exI [of _ "?sy # new"]) (auto simp: dict_simps)
  qed
qed simp

abbreviation sleeve_watchlist :: "settings \<Rightarrow> string list \<Rightarrow> string list" where
  "sleeve_watchlist st wanted \<equiv> (if wanted \<noteq> [] then wanted else resolve_universe (universe st))"

text \<open>The steps of a pass that returns.\<close>

lemma news_pass_steps:
  assumes "run_news_sleeve_cycle rpr digest B S now st feed t wanted limits (s, b) = (sb, Inr r)"
  obtains obs s0 prices active target1 s1 events target2 live' s2 where
    "feed (sleeve_watchlist st wanted) (news_sleeve_lookback_minutes st) = Inr obs"
    "s0 = (if obs \<noteq> [] then fst (ingest S True False obs s) else s)"
    "latest_prices S s0 t (set (sleeve_watchlist st wanted)) = Inr prices"
    "active_sleeve_positions rpr S s0 t = Inr active"
    "news_close_loop S now st t prices active [] [] s0 = (target1, sr_closed r, s1)"
    "detect_news_events rpr digest S s1 t (sleeve_watchlist st wanted) (news_sleeve_count_surge st)
       (news_sleeve_tone_min st) (news_sleeve_baseline_days st) 1 = Inr events"
    "news_open_loop S now st t prices (acted_story_hashes rpr S s0 t) (last_action_times S s0 t)
       (per_name_weight (news_sleeve_budget st) (news_sleeve_max_names st))
       (sort_key (\<lambda>ev. - flt_val (ne_confidence ev)) events) target1
       (filter (\<lambda>sy. sy \<notin> set (sr_closed r)) (keys active)) [] s1 = (target2, live', sr_opened r, s2)"
proof -
  obtain obs where obs: "feed (sleeve_watchlist st wanted) (news_sleeve_lookback_minutes st) = Inr obs"
    using assms by (auto simp: run_news_sleeve_cycle_def Let_def split: sum.splits)
  define s0 where "s0 = (if obs \<noteq> [] then fst (ingest S True False obs s) else s)"
  obtain prices where prices: "latest_prices S s0 t (set (sleeve_watchlist st wanted)) = Inr prices"
    using assms obs by (auto simp: run_news_sleeve_cycle_def Let_def s0_def [symmetric] split: sum.splits)
  obtain active where active: "active_sleeve_positions rpr S s0 t = Inr active"
    using assms obs prices by (auto simp: run_news_sleeve_cycle_def Let_def s0_def [symmetric] split: sum.splits)
  obtain target1 shut s1 where close: "news_close_loop S now st t prices active [] [] s0 = (target1, shut, s1)"
    by (metis prod.exhaust)
  obtain events where events: "detect_news_events rpr digest S s1 t (sleeve_watchlist st wanted) (news_sleeve_count_surge st)
       (news_sleeve_tone_min st) (news_sleeve_baseline_days st) 1 = Inr events"
    using assms obs prices active close
    by (auto simp: run_news_sleeve_cycle_def Let_def s0_def [symmetric] split: sum.splits)
  obtain target2 live' opened s2 where opens: "news_open_loop S now st t prices (acted_story_hashes rpr S s0 t) (last_action_times S s0 t)
       (per_name_weight (news_sleeve_budget st) (news_sleeve_max_names st))
       (sort_key (\<lambda>ev. - flt_val (ne_confidence ev)) events) target1
       (filter (\<lambda>sy. sy \<notin> set shut) (keys active)) [] s1 = (target2, live', opened, s2)"
    by (metis prod.exhaust)
  have "sr_closed r = shut \<and> sr_opened r = opened"
    using assms obs prices active close events opens
    by (auto simp: run_news_sleeve_cycle_def Let_def s0_def [symmetric] split: sum.splits prod.splits)
  then show thesis using that [OF obs s0_def prices active] close events opens by simp
qed

text \<open>C35: the news sleeve's discipline.  Every name opened by a pass that returns comes from one of the events it
  detects, with a positive direction, enough confidence and a story that no row of the sleeve held before the
  pass; it has a latest price in the store that is not at or below zero (a NaN price passes this test), it was not held, or
  was closed by this pass, and its last action is at least the cooldown ago.  No name is opened twice, and the names
  held afterwards stay within the sleeve's maximum, unless there were more before.  The stories of one pass
  are not compared with each other: \<open>shared_story_opens_twice\<close>.\<close>

theorem news_openings_are_disciplined:
  assumes "run_news_sleeve_cycle rpr digest B S now st feed t wanted limits (s, b) = (sb, Inr r)"
  shows "\<exists>obs s0 prices active s1 events.
      feed (sleeve_watchlist st wanted) (news_sleeve_lookback_minutes st) = Inr obs
    \<and> s0 = (if obs \<noteq> [] then fst (ingest S True False obs s) else s)
    \<and> latest_prices S s0 t (set (sleeve_watchlist st wanted)) = Inr prices
    \<and> active_sleeve_positions rpr S s0 t = Inr active
    \<and> s1 = snd (snd (news_close_loop S now st t prices active [] [] s0))
    \<and> detect_news_events rpr digest S s1 t (sleeve_watchlist st wanted) (news_sleeve_count_surge st)
        (news_sleeve_tone_min st) (news_sleeve_baseline_days st) 1 = Inr events
    \<and> distinct (sr_opened r)
    \<and> (let kept = filter (\<lambda>sy. sy \<notin> set (sr_closed r)) (keys active)
       in int (length (kept @ sr_opened r)) \<le> max (int (length kept)) (news_sleeve_max_names st)
        \<and> set kept \<inter> set (sr_opened r) = {})
    \<and> (\<forall>sy \<in> set (sr_opened r).
          (\<exists>ev \<in> set events. ne_symbol ev = sy \<and> 0 < ne_direction ev
            \<and> \<not> ne_confidence ev < news_sleeve_min_confidence st \<and> ne_story_hash ev \<notin> acted_story_hashes rpr S s0 t)
        \<and> (\<exists>p. map_of prices sy = Some p \<and> \<not> p \<le> 0)
        \<and> (\<forall>prev. map_of (last_action_times S s0 t) sy = Some prev \<longrightarrow> days (news_sleeve_cooldown_days st) \<le> t - prev))"
proof -
  obtain obs s0 prices active target1 s1 events target2 live' s2 where p:
    "feed (sleeve_watchlist st wanted) (news_sleeve_lookback_minutes st) = Inr obs"
    "s0 = (if obs \<noteq> [] then fst (ingest S True False obs s) else s)"
    "latest_prices S s0 t (set (sleeve_watchlist st wanted)) = Inr prices"
    "active_sleeve_positions rpr S s0 t = Inr active"
    "news_close_loop S now st t prices active [] [] s0 = (target1, sr_closed r, s1)"
    "detect_news_events rpr digest S s1 t (sleeve_watchlist st wanted) (news_sleeve_count_surge st)
       (news_sleeve_tone_min st) (news_sleeve_baseline_days st) 1 = Inr events"
    and opens: "news_open_loop S now st t prices (acted_story_hashes rpr S s0 t) (last_action_times S s0 t)
       (per_name_weight (news_sleeve_budget st) (news_sleeve_max_names st))
       (sort_key (\<lambda>ev. - flt_val (ne_confidence ev)) events) target1
       (filter (\<lambda>sy. sy \<notin> set (sr_closed r)) (keys active)) [] s1 = (target2, live', sr_opened r, s2)"
    using news_pass_steps [OF assms] .
  let ?kept = "filter (\<lambda>sy. sy \<notin> set (sr_closed r)) (keys active)"
  obtain new where new: "sr_opened r = new" "live' = ?kept @ new" "distinct new"
    "int (length live') \<le> max (int (length ?kept)) (news_sleeve_max_names st)"
    "\<forall>sy \<in> set new. sy \<notin> set ?kept \<and> (\<exists>ev \<in> set events. ne_symbol ev = sy
       \<and> (\<exists>live0. news_entry_ok st t prices (acted_story_hashes rpr S s0 t) (last_action_times S s0 t) live0 ev \<noteq> None))"
    using news_open_loop_sound [OF opens] by (auto simp del: set_filter)
  have "\<forall>sy \<in> set new. (\<exists>ev \<in> set events. ne_symbol ev = sy \<and> 0 < ne_direction ev
            \<and> \<not> ne_confidence ev < news_sleeve_min_confidence st \<and> ne_story_hash ev \<notin> acted_story_hashes rpr S s0 t)
        \<and> (\<exists>p. map_of prices sy = Some p \<and> \<not> p \<le> 0)
        \<and> (\<forall>prev. map_of (last_action_times S s0 t) sy = Some prev \<longrightarrow> days (news_sleeve_cooldown_days st) \<le> t - prev)"
    using new(5) news_entry_okD by (metis (no_types, lifting) not_None_eq)
  moreover have "set ?kept \<inter> set new = {}" using new(5) by blast
  ultimately show ?thesis
    using p new(1-4) by (intro exI [of _ obs] exI [of _ s0] exI [of _ prices] exI [of _ active] exI [of _ s1] exI [of _ events])
      (simp add: Let_def)
qed

text \<open>Three articles on one page about two names, both priced: one story, two openings in one pass.\<close>

definition story_row :: "nat \<Rightarrow> string \<Rightarrow> datetime \<Rightarrow> observation" where
  "story_row i sy k = (new_obs k ''gdelt'' news_dataset ''equity'' sy (Some (nat_str i)) k k
     [(''title'', PStr ''merger''), (''url'', PStr ''u''), (''tone'', PFloat 5)] [])\<lparr>o_id := Uuid4 i\<rparr>"

definition story_price :: "nat \<Rightarrow> string \<Rightarrow> observation" where
  "story_price i sy = (new_obs 1 ''alpaca'' price_dataset ''equity'' sy None 1 1 [(''close'', PFloat (Fin 20))] [])\<lparr>o_id := Uuid4 i\<rparr>"

definition story_store :: mem_store where
  "story_store = mem_upsert_many [story_price 0 ''AAA'', story_price 1 ''BBB'', story_row 2 ''AAA'' 10, story_row 3 ''AAA'' 11, story_row 4 ''AAA'' 12,
     story_row 5 ''BBB'' 10, story_row 6 ''BBB'' 11, story_row 7 ''BBB'' 12] mem_empty"

definition story_pass :: "(mem_store \<times> paper_broker) \<times> sleeve_result res" where
  "story_pass = run_news_sleeve_cycle (\<lambda>_. []) id paper_ops mem_ops 20 default_settings (\<lambda>_ _. Inr []) 20 [''AAA'', ''BBB'']
     None (story_store, sample_broker)"

lemma shared_story_opens_twice:
  "map_sum id (\<lambda>r. (sr_opened r, sr_closed r)) (snd story_pass) = Inr ([''AAA'', ''BBB''], [])
   \<and> map_sum id (map (\<lambda>ev. (ne_symbol ev, ne_story_hash ev)))
       (detect_news_events (\<lambda>_. []) id mem_ops story_store 20 [''AAA'', ''BBB''] (news_sleeve_count_surge default_settings)
          (news_sleeve_tone_min default_settings) (news_sleeve_baseline_days default_settings) 1)
       = Inr [(''AAA'', ''u''), (''BBB'', ''u'')]"
  by (rule conjI; code_simp)

lemma news_openings_are_disciplined_witness:
  "\<exists>r prices. snd story_pass = Inr r \<and> sr_opened r = [''AAA'', ''BBB'']
    \<and> latest_prices mem_ops story_store 20 (set [''AAA'', ''BBB'']) = Inr prices
    \<and> (\<forall>sy \<in> set (sr_opened r). \<exists>p. map_of prices sy = Some p \<and> \<not> p \<le> 0)"
proof -
  obtain sb q where e: "story_pass = (sb, q)" by (rule prod.exhaust)
  obtain r where q: "q = Inr r" "sr_opened r = [''AAA'', ''BBB'']"
    using shared_story_opens_twice [THEN conjunct1, unfolded e snd_conv] by (cases q) auto
  have run: "run_news_sleeve_cycle (\<lambda>_. []) id paper_ops mem_ops 20 default_settings (\<lambda>_ _. Inr []) 20 [''AAA'', ''BBB'']
     None (story_store, sample_broker) = (sb, Inr r)"
    using e q by (simp add: story_pass_def)
  from news_openings_are_disciplined [OF run] obtain prices where
    "latest_prices mem_ops story_store 20 (set [''AAA'', ''BBB'']) = Inr prices"
    "\<forall>sy \<in> set (sr_opened r). \<exists>p. map_of prices sy = Some p \<and> \<not> p \<le> 0"
    by auto
  with q show ?thesis unfolding e snd_conv by blast
qed

section \<open>The breaker of a sleeve\<close>

lemma breaker_first_update:
  "0 < m \<Longrightarrow> \<not> snd (breaker_update e (new_breaker m))"
  by (cases e; cases m)
    (auto simp: breaker_update_def new_breaker_def Let_def flt_simps zero_flt_def one_flt_def)

definition sleeve_engine :: "'b \<Rightarrow> settings \<Rightarrow> risk_limits \<Rightarrow> ('b, 's) engine" where
  "sleeve_engine b st lims = \<lparr>en_broker = b, en_settings = st, en_limits = lims, en_audit = None,
     en_kill = new_kill_switch, en_breaker = new_breaker (max_drawdown_halt st),
     en_limiter = \<lparr>rl_max_orders = max_orders_per_interval st, rl_count = 0\<rparr>\<rparr>"

text \<open>Two engines without an audit store that agree on broker and limiter submit alike.\<close>

definition twin :: "('b, 's) engine \<Rightarrow> ('b, 's) engine \<Rightarrow> bool" where
  "twin en en' \<longleftrightarrow> en_broker en = en_broker en' \<and> en_limiter en = en_limiter en'
     \<and> en_audit en = None \<and> en_audit en' = None"

lemma audit_none: "en_audit en = None \<Longrightarrow> audit_event S now t sy ev d en = en"
  by (simp add: audit_event_def)

lemma save_none: "en_audit en = None \<Longrightarrow> save_drawdown_state S now t en = en"
  by (simp add: save_drawdown_state_def)

lemma submit_planned_twin:
  assumes "twin en en'"
  shows "snd (submit_planned B S now t planned orders skipped en) = snd (submit_planned B S now t planned orders skipped en')
    \<and> en_broker (fst (submit_planned B S now t planned orders skipped en))
      = en_broker (fst (submit_planned B S now t planned orders skipped en'))
    \<and> en_audit (fst (submit_planned B S now t planned orders skipped en)) = None
    \<and> en_audit (fst (submit_planned B S now t planned orders skipped en')) = None"
  using assms
proof (induction planned arbitrary: orders skipped en en')
  case Nil
  then show ?case by (simp add: twin_def)
next
  case (Cons xp planned)
  obtain x p where xp: "xp = (x, p)" by force
  obtain l a where la: "limiter_allow (en_limiter en') = (l, a)" by force
  obtain b r where sub: "bk_submit B x (en_broker en') = (b, r)" by force
  have tw: "en_broker en = en_broker en'" "en_limiter en = en_limiter en'" "en_audit en = None" "en_audit en' = None"
    using Cons.prems by (simp_all add: twin_def)
  have step: "twin (en\<lparr>en_limiter := l, en_broker := b\<rparr>) (en'\<lparr>en_limiter := l, en_broker := b\<rparr>)"
    using tw by (simp add: twin_def)
  show ?case
  proof (cases "sanity_check_order x (Some p) default_max_qty default_max_deviation")
    case (Inl e)
    then show ?thesis using Cons.IH [OF Cons.prems] tw by (simp add: xp audit_none)
  next
    case (Inr u)
    then show ?thesis
      using Cons.IH [OF step] tw la sub by (cases r) (simp_all add: xp audit_none Let_def)
  qed
qed

abbreviation drawdown_limit :: "flt \<Rightarrow> settings \<Rightarrow> settings" where
  "drawdown_limit m st \<equiv> st\<lparr>max_drawdown_halt := m\<rparr>"

lemma fresh_gates:
  assumes "0 < m" "0 < max_drawdown_halt st"
  shows "\<exists>en1 en2 r. halt_gates B S now t (sleeve_engine b st lims) = (en1, r)
    \<and> halt_gates B S now t (sleeve_engine b (drawdown_limit m st) lims) = (en2, r)
    \<and> twin en1 en2 \<and> en_limits en1 = lims \<and> en_limits en2 = lims \<and> en_broker en1 = b
    \<and> en_settings en1 = st \<and> en_settings en2 = drawdown_limit m st
    \<and> (r = Inl (KillSwitchEngaged HaltDrawdown) \<longrightarrow> bk_account B b = Inl (KillSwitchEngaged HaltDrawdown))"
proof (cases "bk_account B b")
  case (Inl e)
  then show ?thesis
    by (auto simp: halt_gates_def sleeve_engine_def twin_def new_kill_switch_def assert_live_allowed_def Let_def)
next
  case (Inr acct)
  obtain br1 where 1: "breaker_update (ac_equity acct) (new_breaker (max_drawdown_halt st)) = (br1, False)"
    using breaker_first_update [OF assms(2), of "ac_equity acct"] by (metis prod.collapse)
  obtain br2 where 2: "breaker_update (ac_equity acct) (new_breaker m) = (br2, False)"
    using breaker_first_update [OF assms(1), of "ac_equity acct"] by (metis prod.collapse)
  show ?thesis
    using Inr 1 2
    by (auto simp: halt_gates_def sleeve_engine_def twin_def new_kill_switch_def assert_live_allowed_def Let_def
        audit_none save_none engage_def)
qed

lemma plan_orders_drawdown: "plan_orders (drawdown_limit m st) = plan_orders st"
proof -
  have "in_band (drawdown_limit m st) = in_band st" "whole_shares (drawdown_limit m st) = whole_shares st"
    by (intro ext, simp add: in_band_def whole_shares_def)+
  then have "plan_order (drawdown_limit m st) = plan_order st" by (intro ext) (simp only: plan_order_def)
  then show ?thesis by (intro ext) (simp only: plan_orders_def)
qed

lemma run_rebalance_engine:
  "run_rebalance B S now st lims target prices t b =
     (if target = [] then (b, Inr [])
      else case rebalance B S now target prices t (sleeve_engine b st lims) of (en', r) \<Rightarrow> (en_broker en', r))"
  by (simp add: run_rebalance_def sleeve_engine_def engine_init_def Let_def)

lemma run_rebalance_drawdown:
  assumes "0 < m" "0 < max_drawdown_halt st"
  shows "run_rebalance B S now (drawdown_limit m st) lims target prices t b = run_rebalance B S now st lims target prices t b"
proof -
  obtain en1 en2 r where g: "halt_gates B S now t (sleeve_engine b st lims) = (en1, r)"
    "halt_gates B S now t (sleeve_engine b (drawdown_limit m st) lims) = (en2, r)" "twin en1 en2"
    "en_limits en1 = lims" "en_limits en2 = lims" "en_settings en1 = st" "en_settings en2 = drawdown_limit m st"
    using fresh_gates [OF assms, of B S now t b lims] by blast
  have br: "en_broker en1 = en_broker en2" using g(3) by (simp add: twin_def)
  have cap: "capital_ceiling (drawdown_limit m st) = capital_ceiling st" by simp
  have sub: "\<exists>e1 e2 q. submit_planned B S now t planned [] 0 en1 = (e1, q) \<and> submit_planned B S now t planned [] 0 en2 = (e2, q)
      \<and> en_broker e1 = en_broker e2 \<and> en_audit e1 = None \<and> en_audit e2 = None" for planned
    using submit_planned_twin [OF g(3), of B S now t planned "[]" 0] by (metis prod.collapse)
  let ?same = "snd (rebalance B S now target prices t (sleeve_engine b (drawdown_limit m st) lims))
        = snd (rebalance B S now target prices t (sleeve_engine b st lims))
      \<and> en_broker (fst (rebalance B S now target prices t (sleeve_engine b (drawdown_limit m st) lims)))
        = en_broker (fst (rebalance B S now target prices t (sleeve_engine b st lims)))"
  note gates = g br cap plan_orders_drawdown
  have ?same
  proof (cases r)
    case (Inl e)
    then show ?thesis using gates by (simp add: rebalance_def)
  next
    case (Inr acct)
    let ?cap = "py_min (ac_equity acct) (capital_ceiling st)"
    note gates = gates Inr
    show ?thesis
    proof (cases "check_targets lims target target")
      case Inl
      then show ?thesis using gates by (simp add: rebalance_def Let_def)
    next
      case ok: (Inr u)
      show ?thesis
      proof (cases "bk_positions B (en_broker en2)")
        case Inl
        then show ?thesis using gates ok by (simp add: rebalance_def Let_def)
      next
        case ps: (Inr ps)
        show ?thesis
        proof (cases "bk_open_orders B (en_broker en2)")
          case Inl
          then show ?thesis using gates ok ps by (simp add: rebalance_def Let_def)
        next
          case xs: (Inr xs)
          show ?thesis
          proof (cases "plan_orders st ?cap prices (effective_positions ps xs) t target")
            case Inl
            then show ?thesis using gates ok ps xs by (simp add: rebalance_def Let_def)
          next
            case (Inr planned)
            obtain e1 e2 q where s: "submit_planned B S now t planned [] 0 en1 = (e1, q)"
              "submit_planned B S now t planned [] 0 en2 = (e2, q)" "en_broker e1 = en_broker e2"
              "en_audit e1 = None" "en_audit e2 = None"
              using sub [of planned] by blast
            then show ?thesis
              using gates ok ps xs Inr by (cases q) (auto simp: rebalance_def Let_def audit_none)
          qed
        qed
      qed
    qed
  qed
  then show ?thesis by (simp add: run_rebalance_engine split_def)
qed


text \<open>Neither pass reads the drawdown limit anywhere else.\<close>

lemma stopped_out_drawdown: "stopped_out (drawdown_limit m st) = stopped_out st"
  by (intro ext) (simp add: stopped_out_def split: option.split)

lemma insider_close_drawdown:
  "insider_close_loop S now (drawdown_limit m st) t prices ps target shut s = insider_close_loop S now st t prices ps target shut s"
  by (induction ps arbitrary: target shut s) (auto simp: stopped_out_drawdown Let_def)

lemma insider_open_drawdown:
  "insider_open_loop S now (drawdown_limit m st) t prices w es target opened s = insider_open_loop S now st t prices w es target opened s"
  by (induction es arbitrary: target opened s) (simp_all add: insider_prediction_def split: option.split)

lemma news_close_drawdown:
  "news_close_loop S now (drawdown_limit m st) t prices ps target shut s = news_close_loop S now st t prices ps target shut s"
  by (induction ps arbitrary: target shut s) (auto simp: stopped_out_drawdown Let_def)

lemma news_open_drawdown:
  "news_open_loop S now (drawdown_limit m st) t prices acted la w evs target live opened s
     = news_open_loop S now st t prices acted la w evs target live opened s"
proof -
  have ok: "news_entry_ok (drawdown_limit m st) = news_entry_ok st"
    by (intro ext) (simp add: news_entry_ok_def cong: option.case_cong if_cong)
  show ?thesis
    by (induction evs arbitrary: target live opened s) (simp_all add: ok split: option.split)
qed

text \<open>Nothing but a broker that raises it itself makes a pass end in a drawdown halt.\<close>

definition quiet :: "'a res \<Rightarrow> bool" where
  "quiet r \<longleftrightarrow> r \<noteq> Inl (KillSwitchEngaged HaltDrawdown)"

definition quiet_broker :: "'b broker_ops \<Rightarrow> bool" where
  "quiet_broker B \<longleftrightarrow> (\<forall>x b. quiet (snd (bk_submit B x b))) \<and> (\<forall>b. quiet (bk_account B b))
     \<and> (\<forall>b. quiet (bk_positions B b)) \<and> (\<forall>b. quiet (bk_open_orders B b))"

lemma quiet_Inr [simp]: "quiet (Inr x)"
  by (simp add: quiet_def)

lemma fold_res_quiet: "(\<And>x b. quiet (f x b)) \<Longrightarrow> quiet (fold_res f xs b)"
  by (induction xs arbitrary: b) (fastforce simp: quiet_def split: sum.splits)+

lemma collect_res_quiet: "(\<And>x. quiet (f x)) \<Longrightarrow> quiet (collect_res f xs)"
  by (induction xs) (fastforce simp: quiet_def split: sum.splits option.splits)+

lemma map_res_quiet: "(\<And>x. quiet (f x)) \<Longrightarrow> quiet (map_res f xs)"
  by (induction xs) (fastforce simp: quiet_def split: sum.splits)+

lemma to_float_quiet: "quiet (to_float v)"
  by (cases v) (auto simp: quiet_def parse_float_def Let_def split: prod.splits option.splits)

lemma to_int_quiet: "quiet (to_int v)"
proof (cases v)
  case (PFloat x)
  then show ?thesis by (cases x) (simp_all add: quiet_def)
qed (auto simp: quiet_def parse_int_def Let_def split: prod.splits)

lemma parse_date_quiet: "quiet (parse_date s)"
  by (auto simp: quiet_def parse_date_def date_of_fields_def split: option.split)

lemma parse_clock_quiet: "quiet (parse_clock s)"
  unfolding quiet_def parse_clock_def by (simp split: option.split prod.split)

lemma parse_offset_quiet: "quiet (parse_offset s)"
  unfolding quiet_def parse_offset_def by (simp split: option.split prod.split)

lemma fromisoformat_quiet: "quiet (fromisoformat s)"
  using parse_date_quiet parse_clock_quiet parse_offset_quiet
  by (fastforce simp: quiet_def fromisoformat_def Let_def split: sum.splits)


lemma quiet_bind:
  "quiet r \<Longrightarrow> (\<And>x. r = Inr x \<Longrightarrow> quiet (snd (f x))) \<Longrightarrow> quiet (snd (case r of Inl e \<Rightarrow> (z, Inl e) | Inr x \<Rightarrow> f x))"
  by (cases r) (simp_all add: quiet_def)

lemma if_quiet: "(c \<Longrightarrow> quiet a) \<Longrightarrow> (\<not> c \<Longrightarrow> quiet b) \<Longrightarrow> quiet (if c then a else b)"
  by simp

lemma quiet_prod: "(\<And>a b. p = (a, b) \<Longrightarrow> quiet (snd (f a b))) \<Longrightarrow> quiet (snd (case p of (a, b) \<Rightarrow> f a b))"
  by (cases p) simp

lemma plan_orders_quiet: "quiet (plan_orders st d prices pos t ws)"
proof -
  have "quiet (whole_shares st q)" for q by (cases q) (simp_all add: whole_shares_def quiet_def)
  then have "quiet (plan_order st d prices pos t sw)" for sw
    by (auto simp: plan_order_def Let_def quiet_def split: prod.splits option.splits sum.splits)
  then have "quiet (collect_res (plan_order st d prices pos t) ws)" by (rule collect_res_quiet)
  then show ?thesis by (auto simp: plan_orders_def quiet_def split: sum.splits)
qed

lemma check_targets_quiet: "quiet (check_targets lims ws xs)"
proof (induction xs)
  case (Cons x xs)
  then show ?case using check_order_error [of "fst x" "snd x" "others (fst x) ws" lims]
    by (cases x) (fastforce simp: quiet_def split: sum.splits)
qed simp

lemma run_rebalance_quiet:
  assumes "quiet_broker B" "0 < max_drawdown_halt st"
  shows "quiet (snd (run_rebalance B S now st lims target prices t b))"
proof -
  have account: "quiet (bk_account B b)" and reads: "quiet (bk_positions B b)" "quiet (bk_open_orders B b)"
    using assms(1) by (simp_all add: quiet_broker_def)
  obtain en1 r where g: "halt_gates B S now t (sleeve_engine b st lims) = (en1, r)" "en_broker en1 = b" "quiet r"
    using fresh_gates [OF assms(2,2), of B S now t b lims] account by (auto simp: quiet_def)
  have sub: "quiet (snd (submit_planned B S now t planned [] 0 en1))" for planned
    using submit_planned_error [of B S now t planned "[]" 0 en1] assms(1)
    unfolding quiet_def quiet_broker_def by (metis prod.collapse snd_conv)
  have sub': "quiet r'" if "submit_planned B S now t planned [] 0 en1 = (e, r')" for planned e r'
    using sub [of planned] that by simp
  have "quiet (snd (rebalance B S now target prices t (sleeve_engine b st lims)))"
    unfolding rebalance_def Let_def g prod.case
    by (intro quiet_bind quiet_prod g(3) check_targets_quiet reads plan_orders_quiet)
      (auto intro: sub')
  then show ?thesis by (auto simp: run_rebalance_engine split: prod.split)
qed

lemma latest_prices_quiet: "quiet (latest_prices S s t names)"
proof -
  have "quiet (latest_close names x d)" for x d
    using to_float_quiet [of "pget (o_value x) ''close''"] by (auto simp: latest_close_def quiet_def split: sum.splits)
  from fold_res_quiet [OF this] show ?thesis by (simp add: latest_prices_def)
qed

lemma parse_exit_quiet: "quiet (parse_exit rpr v)"
proof -
  have "quiet (pindex v k)" for k by (simp add: pindex_def quiet_def split: option.split)
  then show ?thesis using fromisoformat_quiet by (fastforce simp: parse_exit_def quiet_def split: sum.splits)
qed

lemma positions_quiet:
  "quiet (active_insider_positions rpr S s t)" "quiet (active_sleeve_positions rpr S s t)"
proof -
  have "quiet (insider_position_of rpr sx)" "quiet (news_position_of rpr sx)" for sx
    using to_float_quiet parse_exit_quiet to_int_quiet
    by (fastforce simp: insider_position_of_def quiet_def Let_def split: sum.splits prod.splits,
        fastforce simp: news_position_of_def quiet_def Let_def split: sum.splits prod.splits)
  then show "quiet (active_insider_positions rpr S s t)" "quiet (active_sleeve_positions rpr S s t)"
    by (simp_all add: active_insider_positions_def active_sleeve_positions_def collect_res_quiet)
qed

lemma entries_quiet: "quiet (insider_cluster_entries S s t gate hold mx fresh threshold window owned)"
proof -
  have "quiet (pick_clusters t hold mx fresh car owned es out)" for car es out
    using to_int_quiet by (induction es arbitrary: out) (fastforce simp: Let_def quiet_def split: sum.splits)+
  then show ?thesis by (simp add: insider_cluster_entries_def Let_def split: option.split)
qed

lemma events_quiet: "quiet (detect_news_events rpr digest S s t names surge tone baseline recent)"
proof -
  have "quiet (tones obs)" for obs
    unfolding tones_def by (rule map_res_quiet) (rule to_float_quiet)
  then have "quiet (mean_tone obs)" for obs
    by (fastforce simp: mean_tone_def quiet_def split: sum.splits)
  then have "quiet (news_event_of rpr digest t surge tone baseline recent items)" for items
    by (fastforce simp: news_event_of_def quiet_def Let_def split: prod.splits list.splits sum.splits)
  from collect_res_quiet [OF this] show ?thesis by (simp add: detect_news_events_def)
qed

lemma sleeve_passes_drawdown:
  assumes "0 < m" "0 < max_drawdown_halt st"
  shows "run_insider_sleeve_cycle rpr B S now (drawdown_limit m st) t gate sb = run_insider_sleeve_cycle rpr B S now st t gate sb"
    and "run_news_sleeve_cycle rpr digest B S now (drawdown_limit m st) feed t wanted limits sb
      = run_news_sleeve_cycle rpr digest B S now st feed t wanted limits sb"
proof -
  have proj: "universe (drawdown_limit m st) = universe st"
    "insider_sleeve_max_names (drawdown_limit m st) = insider_sleeve_max_names st"
    "insider_sleeve_hold_days (drawdown_limit m st) = insider_sleeve_hold_days st"
    "insider_sleeve_budget (drawdown_limit m st) = insider_sleeve_budget st"
    "news_sleeve_lookback_minutes (drawdown_limit m st) = news_sleeve_lookback_minutes st"
    "news_sleeve_budget (drawdown_limit m st) = news_sleeve_budget st"
    "news_sleeve_max_names (drawdown_limit m st) = news_sleeve_max_names st"
    "news_sleeve_count_surge (drawdown_limit m st) = news_sleeve_count_surge st"
    "news_sleeve_tone_min (drawdown_limit m st) = news_sleeve_tone_min st"
    "news_sleeve_baseline_days (drawdown_limit m st) = news_sleeve_baseline_days st"
    "limits_from_settings (drawdown_limit m st) = limits_from_settings st"
    "news_limits (drawdown_limit m st) = news_limits st"
    by (simp_all add: limits_from_settings_def news_limits_def)
  note free = proj insider_close_drawdown insider_open_drawdown news_close_drawdown news_open_drawdown
    run_rebalance_drawdown [OF assms]
  show "run_insider_sleeve_cycle rpr B S now (drawdown_limit m st) t gate sb = run_insider_sleeve_cycle rpr B S now st t gate sb"
    unfolding run_insider_sleeve_cycle_def free ..
  show "run_news_sleeve_cycle rpr digest B S now (drawdown_limit m st) feed t wanted limits sb
      = run_news_sleeve_cycle rpr digest B S now st feed t wanted limits sb"
    unfolding run_news_sleeve_cycle_def free ..
qed

lemma quiet_snd: "quiet (snd p) \<Longrightarrow> p = (a, r) \<Longrightarrow> quiet r"
  by simp

lemma insider_pass_quiet:
  assumes "quiet_broker B" "0 < max_drawdown_halt st"
  shows "quiet (snd (run_insider_sleeve_cycle rpr B S now st t gate sb))"
  unfolding run_insider_sleeve_cycle_def Let_def
  by (intro quiet_bind quiet_prod positions_quiet latest_prices_quiet if_quiet entries_quiet quiet_Inr)
    (auto intro: quiet_snd [OF run_rebalance_quiet [OF assms]])

lemma news_pass_quiet:
  assumes "quiet_broker B" "0 < max_drawdown_halt st" "\<forall>names window. quiet (feed names window)"
  shows "quiet (snd (run_news_sleeve_cycle rpr digest B S now st feed t wanted limits sb))"
  unfolding run_news_sleeve_cycle_def Let_def
  by (intro quiet_bind quiet_prod positions_quiet latest_prices_quiet events_quiet assms(3) [rule_format])
    (auto intro: quiet_snd [OF run_rebalance_quiet [OF assms(1,2)]])

text \<open>C36: a sleeve's drawdown limit has no effect.  A pass builds a fresh engine with no audit store, so the
  high-water mark is the equity of that very moment, whatever the account has lost before.  For every
  positive limit the insider pass and the news pass give the same store, broker and result as for any other
  positive limit, and neither pass ends in a drawdown halt (unless the broker or the feed raises that exception of its own).\<close>

theorem sleeve_breaker_never_trips:
  assumes "0 < m" "0 < max_drawdown_halt st" "quiet_broker B" "\<forall>names window. quiet (feed names window)"
  shows "run_insider_sleeve_cycle rpr B S now (st\<lparr>max_drawdown_halt := m\<rparr>) t gate sb
        = run_insider_sleeve_cycle rpr B S now st t gate sb
    \<and> run_news_sleeve_cycle rpr digest B S now (st\<lparr>max_drawdown_halt := m\<rparr>) feed t wanted limits sb
        = run_news_sleeve_cycle rpr digest B S now st feed t wanted limits sb
    \<and> snd (run_insider_sleeve_cycle rpr B S now st t gate sb) \<noteq> Inl (KillSwitchEngaged HaltDrawdown)
    \<and> snd (run_news_sleeve_cycle rpr digest B S now st feed t wanted limits sb) \<noteq> Inl (KillSwitchEngaged HaltDrawdown)"
  by (intro conjI sleeve_passes_drawdown [OF assms(1,2)] insider_pass_quiet [OF assms(3,2), unfolded quiet_def]
      news_pass_quiet [OF assms(3,2,4), unfolded quiet_def])

lemma paper_quiet: "quiet_broker paper_ops"
  by (auto simp: quiet_broker_def paper_ops_def quiet_def split: prod.splits)

lemma sleeve_breaker_never_trips_witness:
  "snd (run_insider_sleeve_cycle (\<lambda>_. []) paper_ops mem_ops (day_close 8) default_settings (day_close 8)
      [(''insider_cluster_buy'', Fin (3 / 100))] (sample_cluster, sample_broker)) \<noteq> Inl (KillSwitchEngaged HaltDrawdown)
   \<and> snd (run_news_sleeve_cycle (\<lambda>_. []) id paper_ops mem_ops (day_close 8) default_settings (\<lambda>_ _. Inr []) (day_close 8) []
      None (sample_cluster, sample_broker)) \<noteq> Inl (KillSwitchEngaged HaltDrawdown)"
proof -
  have m: "0 < max_drawdown_halt default_settings" by (simp add: default_settings_def zero_flt_def)
  have "\<forall>names window. quiet ((\<lambda>_ _. Inr []) names window)" by simp
  from sleeve_breaker_never_trips [OF m m paper_quiet this] show ?thesis by blast
qed

section \<open>The loop\<close>

definition world_step :: "('w \<Rightarrow> bool res \<times> 'w) \<Rightarrow> ('w \<Rightarrow> 'r res \<times> 'w) \<Rightarrow> ('w \<Rightarrow> 'w) \<Rightarrow> 'w \<Rightarrow> 'w" where
  "world_step is_market_open run_cycle sleep w = sleep (news_pass is_market_open run_cycle w)"

lemma news_loop_capped:
  "iterations \<le> m \<Longrightarrow> \<exists>n w'. news_loop mo rc sl stop (Some m) iterations w = Some (n, w') \<and> n \<le> m"
proof (induction "m - iterations" arbitrary: iterations w)
  case 0
  then have "m = iterations" by simp
  then show ?case by (subst news_loop.simps) (simp add: loop_stops_def Let_def split: prod.split)
next
  case (Suc d)
  then have IH: "\<exists>n w'. news_loop mo rc sl stop (Some m) (Suc iterations) v = Some (n, w') \<and> n \<le> m" for v
    by simp
  have "Suc iterations \<le> m" using Suc.hyps(2) by simp
  with IH show ?case using Suc.prems by (subst news_loop.simps) (simp add: Let_def)
qed

lemma news_loop_passes:
  "news_loop mo rc sl None (Some (Suc (k + i))) i w =
     Some (Suc (k + i), news_pass mo rc ((world_step mo rc sl ^^ k) w))"
proof (induction k arbitrary: i w)
  case 0
  then show ?case by (subst news_loop.simps) (simp add: loop_stops_def Let_def)
next
  case (Suc k)
  show ?case using Suc.IH [of "Suc i" "world_step mo rc sl w"]
    by (subst news_loop.simps)
      (simp add: loop_stops_def Let_def funpow_swap1 world_step_def [symmetric])
qed

text \<open>C37: the polling loop ends and survives.  With an iteration cap it always returns, after at most that
  many passes and whatever the market check and the passes raise; with no stop flag it makes
  exactly the capped number of passes, sleeping between two passes and not after the last.\<close>

theorem news_loop_terminates:
  "(\<exists>n w'. news_loop is_market_open run_cycle sleep stop (Some m) 0 w = Some (n, w') \<and> n \<le> m)
   \<and> news_loop is_market_open run_cycle sleep None (Some (Suc k)) 0 w =
       Some (Suc k, news_pass is_market_open run_cycle ((world_step is_market_open run_cycle sleep ^^ k) w))"
  using news_loop_capped [of 0 m is_market_open run_cycle sleep stop w]
    news_loop_passes [of is_market_open run_cycle sleep k 0 w] by simp

section \<open>Closing and reopening a name in one pass\<close>

lemma latest_by_first:
  assumes "filter (\<lambda>x. o_entity_id x = sy \<and> o_event_time x = t) obs = c # rest"
    and "\<And>x. x \<in> set obs \<Longrightarrow> o_entity_id x = sy \<Longrightarrow> o_event_time x \<le> t"
  shows "map_of (latest_by (<) obs) sy = Some c"
  using assms
proof (induction obs arbitrary: rest rule: rev_induct)
  case (snoc x obs)
  let ?Q = "\<lambda>x. o_entity_id x = sy \<and> o_event_time x = t"
  show ?case
  proof (cases "filter ?Q obs")
    case Nil
    then have c: "c = x" "?Q x" using snoc.prems(1) by (auto split: if_splits)
    have "o_event_time y < t" if "map_of (latest_by (<) obs) sy = Some y" for y
    proof -
      have "y \<in> set obs" "o_entity_id y = sy" using latest_by_sound [OF that] by auto
      moreover from this have "\<not> ?Q y" using Nil by (auto simp: filter_empty_conv)
      ultimately show ?thesis using snoc.prems(2) [of y] by auto
    qed
    then show ?thesis using c by (auto simp: latest_by_snoc map_of_keep_latest split: option.splits)
  next
    case (Cons a as)
    then have "a = c" using snoc.prems(1) by (auto split: if_splits)
    with snoc.IH [of as] Cons snoc.prems(2) have IH: "map_of (latest_by (<) obs) sy = Some c" by simp
    have "o_event_time c = t" using Cons \<open>a = c\<close> filter_eq_ConsD [OF Cons] by auto
    then show ?thesis using IH snoc.prems(2) [of x]
      by (auto simp: latest_by_snoc map_of_keep_latest)
  qed
qed simp

lemma collapse_append_new:
  assumes "\<And>x. x \<in> set rows \<Longrightarrow> logical_key x \<noteq> logical_key a"
  shows "collapse_latest_revisions (rows @ [a]) = collapse_latest_revisions rows @ [a]"
proof -
  have "map_of (fold collapse_step rows []) (logical_key a) = None"
    using latest_dict_sound [of rows "logical_key a"] assms by (metis not_None_eq)
  moreover from this have "logical_key a \<notin> set (keys (fold collapse_step rows []))"
    by (simp add: map_of_eq_None_iff)
  ultimately show ?thesis
    by (simp add: collapse_latest_revisions_def collapse_step_def dict_set_new)
qed

text \<open>Two rows of one name and one time are read in the order they were written in.\<close>

lemma same_time_rows_in_order:
  assumes "\<And>x. x \<in> set xs \<Longrightarrow> visible k q x \<Longrightarrow> \<not> (o_entity_id x = sy \<and> o_event_time x = t)"
    and "visible k q a" "visible k q b" "sort_fields a = sort_fields b" "logical_key a \<noteq> logical_key b"
    and "o_entity_id a = sy" "o_event_time a = t"
  shows "filter (\<lambda>x. o_entity_id x = sy \<and> o_event_time x = t) (read_rows (xs @ [a, b]) k q) = [a, b]"
proof -
  let ?Q = "\<lambda>x. o_entity_id x = sy \<and> o_event_time x = t" and ?r = "filter (visible k q) xs"
  have b: "?Q b" using assms(4,6,7) by (auto simp: sort_fields_def)
  have key: "?Q x" if "logical_key x = logical_key a \<or> logical_key x = logical_key b" for x
    using that assms(6,7) b by (auto simp: logical_key_def)
  have "collapse_latest_revisions (?r @ [a]) = collapse_latest_revisions ?r @ [a]"
    by (rule collapse_append_new) (use key assms(1) in auto)
  moreover have "collapse_latest_revisions ((?r @ [a]) @ [b]) = collapse_latest_revisions (?r @ [a]) @ [b]"
    by (rule collapse_append_new) (use key assms(1,5) in auto)
  ultimately have "collapse_latest_revisions (?r @ [a, b]) = collapse_latest_revisions ?r @ [a, b]" by simp
  then have "read_rows (xs @ [a, b]) k q =
      sort_key sort_fields ((if q_latest q then collapse_latest_revisions else id) ?r @ [a, b])"
    using assms(2,3) by (simp add: read_rows_def sort_observations_def)
  moreover have "set ((if q_latest q then collapse_latest_revisions else id) ?r) \<subseteq> set ?r"
    using collapse_subset [of ?r] by auto
  ultimately obtain R where R: "read_rows (xs @ [a, b]) k q = sort_key sort_fields (R @ [a, b])"
    "set R \<subseteq> set ?r" by blast
  have no: "\<not> ?Q x" if "x \<in> set R" for x using R(2) assms(1) that by auto
  have eq: "?Q x \<longleftrightarrow> sort_fields x = sort_fields a" if "x \<in> set (R @ [a, b])" for x
    using that no b assms(4,6,7) by (auto simp: sort_fields_def)
  have "filter ?Q (sort_key sort_fields (R @ [a, b]))
      = filter (\<lambda>x. sort_fields x = sort_fields a) (sort_key sort_fields (R @ [a, b]))"
    using eq by (intro filter_cong) auto
  also have "\<dots> = filter (\<lambda>x. sort_fields x = sort_fields a) (R @ [a, b])"
    by (rule sort_key_stable_filter)
  also have "\<dots> = filter ?Q (R @ [a, b])" using eq by (intro filter_cong) auto
  also have "\<dots> = [a, b]" using no b assms(6,7) by (simp add: filter_empty_conv)
  finally show ?thesis using R(1) by simp
qed

lemma put_obs_mem:
  assumes "deterministic_id x \<notin> dom (mem_rows s)"
  shows "vals (mem_obs (put_obs mem_ops x s)) = vals (mem_obs s) @ [with_deterministic_id x]"
    and "mem_rows (put_obs mem_ops x s) = (mem_rows s)(deterministic_id x \<mapsto> with_deterministic_id x)"
proof -
  have "deterministic_id x \<notin> set (keys (mem_obs s))"
    using assms by (simp add: mem_rows_def dom_map_of_conv_image_fst)
  then show "vals (mem_obs (put_obs mem_ops x s)) = vals (mem_obs s) @ [with_deterministic_id x]"
    by (simp add: put_obs_def mem_ops_def mem_upsert_many_def mem_add_many_def mem_add_def dict_set_new)
  show "mem_rows (put_obs mem_ops x s) = (mem_rows s)(deterministic_id x \<mapsto> with_deterministic_id x)"
    by (simp add: put_obs_def mem_ops_def mem_rows_upsert put_all_def)
qed

lemma news_rows_mem: "news_rows mem_ops s k = read_rows (vals (mem_obs s)) k (q_of_dataset news_sleeve_dataset)"
  by (simp add: news_rows_def mem_as_of_read mem_ops_def)

lemma news_ids_differ:
  "h2 \<noteq> h @ '':close:'' @ r \<Longrightarrow>
   deterministic_id (news_open_obs now sy t p exit h2) \<noteq> deterministic_id (news_close_obs now sy t h r)"
  by (simp add: deterministic_id_def id_text_def news_open_obs_def news_close_obs_def)

text \<open>A name that the news sleeve closes and reopens in one pass is forgotten.  Both rows carry the
  pass's time, the close is written first, and the first of two equally new rows wins, so the
  next read of the positions has no such name although the pass has just bought it.\<close>

theorem news_reopen_is_forgotten:
  assumes "mem_inv s" "readable (news_position_of rpr) news_sleeve_dataset (mem_rows s)"
    and "sleeve_older news_sleeve_dataset sy t (mem_rows s)" "valid_dt exit" "t \<le> k"
    and "h2 \<noteq> h @ '':close:'' @ r"
    and "deterministic_id (news_close_obs now sy t h r) \<notin> dom (mem_rows s)"
    and "deterministic_id (news_open_obs now sy t p exit h2) \<notin> dom (mem_rows s)"
  shows "\<exists>ps. active_sleeve_positions rpr mem_ops
      (put_obs mem_ops (news_open_obs now sy t p exit h2) (put_obs mem_ops (news_close_obs now sy t h r) s)) k
      = Inr ps \<and> map_of ps sy = None"
proof -
  let ?c = "news_close_obs now sy t h r" and ?x = "news_open_obs now sy t p exit h2"
  let ?s1 = "put_obs mem_ops ?c s" and ?q = "q_of_dataset news_sleeve_dataset"
  let ?s2 = "put_obs mem_ops ?x ?s1" and ?a = "with_deterministic_id ?c" and ?b = "with_deterministic_id ?x"
  have "mem_inv ?s1" "mem_inv ?s2"
    using mem.inv_upsert assms(1) by (simp_all add: put_obs_def)
  moreover have "readable (news_position_of rpr) news_sleeve_dataset (mem_rows ?s1)"
    unfolding put_obs_def using assms(1,2) news_position_closed
    by (intro mem.readable_upsert) auto
  then have "readable (news_position_of rpr) news_sleeve_dataset (mem_rows ?s2)"
    unfolding put_obs_def [of mem_ops ?x] using \<open>mem_inv ?s1\<close> news_position_open [OF assms(4)]
    by (intro mem.readable_upsert) auto
  ultimately obtain ps where ps: "active_sleeve_positions rpr mem_ops ?s2 k = Inr ps"
    using mem.positions_readable [of ?s2 "news_position_of rpr" news_sleeve_dataset "(<)" k]
    by (auto simp: active_sleeve_positions_def news_rows_def news_latest_def)
  have old: "\<not> (o_entity_id y = sy \<and> t \<le> o_event_time y)" if "y \<in> set (vals (mem_obs s))" "visible k ?q y" for y
    using that assms(3) mem_vals_ran [OF assms(1)] by (force simp: sleeve_older_def visible_dataset)
  have vals: "vals (mem_obs ?s2) = vals (mem_obs s) @ [?a, ?b]"
    using put_obs_mem [of ?c s] put_obs_mem [of ?x ?s1] assms(7,8) news_ids_differ [OF assms(6)] by simp
  have rows: "news_rows mem_ops ?s2 k = read_rows (vals (mem_obs s) @ [?a, ?b]) k ?q"
    by (simp only: news_rows_mem vals)
  have "filter (\<lambda>x. o_entity_id x = sy \<and> o_event_time x = t) (news_rows mem_ops ?s2 k) = [?a, ?b]"
    unfolding rows
    by (rule same_time_rows_in_order)
      (use old assms(5,6) in \<open>auto simp: visible_dataset sort_fields_def logical_key_def news_open_obs_def news_close_obs_def\<close>)
  moreover have "o_event_time y \<le> t" if "y \<in> set (news_rows mem_ops ?s2 k)" "o_entity_id y = sy" for y
  proof -
    have "y \<in> set (vals (mem_obs s) @ [?a, ?b])" and vis: "visible k ?q y"
      using that(1) read_rows_subset [of "vals (mem_obs s) @ [?a, ?b]" k ?q] unfolding rows by blast+
    then consider "y \<in> set (vals (mem_obs s))" | "y = ?a" | "y = ?b" by fastforce
    then show ?thesis
    proof cases
      case 1
      with old [OF this vis] that(2) show ?thesis by simp
    next
      case 2
      show ?thesis unfolding 2 by simp
    next
      case 3
      show ?thesis unfolding 3 by simp
    qed
  qed
  ultimately have "map_of (news_latest (news_rows mem_ops ?s2 k)) sy = Some ?a"
    unfolding news_latest_def by (intro latest_by_first) auto
  then have "map_of ps sy = None"
    using map_of_collect_res [OF distinct_latest_by ps [unfolded active_sleeve_positions_def news_latest_def]
        news_position_key] news_position_closed by (simp add: news_latest_def)
  with ps show ?thesis by blast
qed

lemma news_reopen_is_forgotten_witness:
  "\<exists>ps. active_sleeve_positions (\<lambda>_. []) mem_ops
      (put_obs mem_ops (news_open_obs 5 ''ACME'' 5 (Fin 20) (days 6) ''b'')
        (put_obs mem_ops (news_close_obs 5 ''ACME'' 5 ''a'' ''horizon'') mem_empty)) 7 = Inr ps
    \<and> map_of ps ''ACME'' = None"
  by (rule news_reopen_is_forgotten [OF mem_inv_empty fresh_sleeve_store])
    (simp_all add: valid_dt_def days_def mem_rows_def mem_empty_def)

end
