(* ===== verification/Panel.thy ===== *)
theory Panel
  imports Store Parse Metrics
begin

text \<open>
  \<open>backtest/pit.py\<close>: the point-in-time price panels, and what is computed from a panel: the technical
  features (\<open>features/technical.py\<close>) and the realised forward returns (\<open>runtime/learning.py\<close>).  A
  pandas frame with a sorted time index is the list of its columns and the list of its rows; a
  missing cell is NaN.  \<open>pct_change\<close> fills nothing (the locked pandas 3), a pivot leaves out columns
  and rows without a value, and its \<open>last\<close> is the last value that is not missing.
\<close>

section \<open>Frames\<close>

record panel =
  pn_columns :: "string list"
  pn_rows :: "(datetime \<times> flt list) list"

definition panel_empty :: "panel \<Rightarrow> bool" where
  "panel_empty p \<longleftrightarrow> pn_columns p = [] \<or> pn_rows p = []"

definition panel_index :: "panel \<Rightarrow> datetime list" where
  "panel_index p = map fst (pn_rows p)"

definition column :: "panel \<Rightarrow> string \<Rightarrow> flt list" where
  "column p c = map (\<lambda>r. dict_get NaN (zip (pn_columns p) (snd r)) c) (pn_rows p)"

definition series_of_row :: "panel \<Rightarrow> flt list \<Rightarrow> (string, flt) dict" where
  "series_of_row p xs = zip (pn_columns p) xs"

definition reindex_nan :: "(string, flt) dict \<Rightarrow> string list \<Rightarrow> (string \<times> flt) list" where
  "reindex_nan d symbols = map (\<lambda>s. (s, dict_get NaN d s)) symbols"

section \<open>From observations to a panel\<close>

definition price_record :: "string \<Rightarrow> observation \<Rightarrow> (datetime \<times> string \<times> flt) option res" where
  "price_record field_name x =
     (if is_none (pget (o_value x) field_name) then Inr None
      else (case to_float (pget (o_value x) field_name) of
              Inl e \<Rightarrow> Inl e | Inr v \<Rightarrow> Inr (Some (o_event_time x, o_entity_id x, v))))"

definition cell_of :: "(datetime \<times> string \<times> flt) list \<Rightarrow> datetime \<Rightarrow> string \<Rightarrow> flt" where
  "cell_of recs t c =
     (case filter (\<lambda>r. fst r = t \<and> fst (snd r) = c) recs of
        [] \<Rightarrow> NaN | r # rs \<Rightarrow> snd (snd (last (r # rs))))"

definition pivot_last :: "(datetime \<times> string \<times> flt) list \<Rightarrow> panel" where
  "pivot_last recs =
     (let live = filter (\<lambda>r. snd (snd r) \<noteq> NaN) recs;
          cols = sort (remdups (map (\<lambda>r. fst (snd r)) live));
          times = sort (remdups (map fst live))
      in \<lparr>pn_columns = cols, pn_rows = map (\<lambda>t. (t, map (cell_of live t) cols)) times\<rparr>)"

definition observations_to_price_frame :: "observation list \<Rightarrow> string \<Rightarrow> panel res" where
  "observations_to_price_frame obs field_name =
     (case collect_res (price_record field_name) obs of Inl e \<Rightarrow> Inl e | Inr recs \<Rightarrow> Inr (pivot_last recs))"

section \<open>Views\<close>

definition pct_change :: "panel \<Rightarrow> panel" where
  "pct_change p =
     (let xs = pn_rows p;
          none = map (\<lambda>_. NaN) (pn_columns p);
          change = (\<lambda>r prev. (fst r, map2 (\<lambda>v u. fdiv v u - 1) (snd r) prev))
      in p\<lparr>pn_rows := map2 change xs (none # map snd xs)\<rparr>)"

definition ffill :: "panel \<Rightarrow> panel" where
  "ffill p =
     p\<lparr>pn_rows := zip (panel_index p)
        (scan (\<lambda>prev xs. map2 (\<lambda>v u. if v = NaN then u else v) xs prev)
           (map (\<lambda>_. NaN) (pn_columns p)) (map snd (pn_rows p)))\<rparr>"

definition store_panel ::
  "'s store_ops \<Rightarrow> 's \<Rightarrow> datetime \<Rightarrow> string \<Rightarrow> string \<Rightarrow> panel res" where
  "store_panel S s as_of dataset price_field =
     observations_to_price_frame (st_as_of S s as_of (q_of_dataset dataset)) price_field"

definition panel_slice :: "panel \<Rightarrow> datetime \<Rightarrow> panel" where
  "panel_slice p as_of = p\<lparr>pn_rows := filter (\<lambda>r. fst r \<le> as_of) (pn_rows p)\<rparr>"

definition returns_panel :: "panel \<Rightarrow> panel" where
  "returns_panel p = (if panel_empty p then p else (pct_change p)\<lparr>pn_rows := tl (pn_rows (pct_change p))\<rparr>)"

definition panel_universe :: "panel \<Rightarrow> string list" where
  "panel_universe p =
     (if panel_empty p then []
      else let latest = series_of_row p (snd (last (pn_rows (ffill p))))
           in filter (\<lambda>c. dict_get NaN latest c \<noteq> NaN) (pn_columns p))"

section \<open>Technical features\<close>

definition momentum :: "nat \<Rightarrow> nat \<Rightarrow> panel \<Rightarrow> string list \<Rightarrow> (string \<times> flt) list res" where
  "momentum lookback skip p symbols =
     (let n = length (pn_rows p); rows = pn_rows (ffill p) in
      if panel_empty p \<or> n < lookback + 1 then Inr (reindex_nan [] symbols)
      else if n < skip + 1 then Inl IndexError
      else Inr (reindex_nan (series_of_row p
             (map2 (\<lambda>v u. fdiv v u - 1) (snd (rows ! (n - 1 - skip))) (snd (rows ! (n - 1 - lookback))))) symbols))"

definition mean_reversion :: "nat \<Rightarrow> panel \<Rightarrow> string list \<Rightarrow> (string \<times> flt) list" where
  "mean_reversion lookback p symbols =
     (let n = length (pn_rows p); rows = pn_rows (ffill p) in
      if panel_empty p \<or> n < lookback + 1 then reindex_nan [] symbols
      else reindex_nan (series_of_row p
             (map2 (\<lambda>v u. - (fdiv v u - 1)) (snd (rows ! (n - 1))) (snd (rows ! (n - 1 - lookback))))) symbols)"

definition tail_of :: "nat \<Rightarrow> 'a list \<Rightarrow> 'a list" where
  "tail_of n xs = drop (length xs - n) xs"

definition volatility :: "nat \<Rightarrow> bool \<Rightarrow> panel \<Rightarrow> string list \<Rightarrow> (string \<times> flt) list" where
  "volatility window low_vol p symbols =
     (let returns = returns_panel p in
      if panel_empty p \<or> panel_empty returns then reindex_nan [] symbols
      else let vol = map (\<lambda>c. (c, series_std 0 (tail_of window (column returns c)))) (pn_columns p)
           in reindex_nan (map (\<lambda>cv. (fst cv, if low_vol then - snd cv else snd cv)) vol) symbols)"

section \<open>Realised forward returns\<close>

text \<open>\<open>_forward_returns_at\<close>: the compounded return over the bars strictly after \<open>t\<close>, and nothing at all until
  the whole horizon has elapsed.\<close>

definition forward_returns_at :: "panel \<Rightarrow> datetime \<Rightarrow> nat \<Rightarrow> (string, flt) dict" where
  "forward_returns_at p t horizon =
     (let rets = pct_change p;
          window = take horizon (filter (\<lambda>r. t < fst r) (pn_rows rets))
      in if length window < horizon then []
         else map (\<lambda>c. (c, foldl (*) 1 (map (\<lambda>v. 1 + (if v = NaN then 0 else v))
                (column (rets\<lparr>pn_rows := window\<rparr>) c)) - 1)) (pn_columns p))"

lemma map2_first: "length xs \<le> length ys \<Longrightarrow> map fst (map2 (\<lambda>r prev. (fst r, g r prev)) xs ys) = map fst xs"
proof (induction xs arbitrary: ys)
  case (Cons x xs)
  then show ?case by (cases ys) simp_all
qed simp

lemma pct_change_index: "panel_index (pct_change p) = panel_index p"
proof -
  have "map fst (map2 (\<lambda>r prev. (fst r, map2 (\<lambda>v u. fdiv v u - 1) (snd r) prev)) (pn_rows p) (z # map snd (pn_rows p)))
      = map fst (pn_rows p)" for z
    by (rule map2_first) simp
  then show ?thesis by (simp add: pct_change_def panel_index_def Let_def)
qed

section \<open>Narrowing a read to earlier event times\<close>

lemma filter_update_keep:
  "\<forall>e \<in> set d. fst e = k \<longrightarrow> Q (snd e) \<Longrightarrow> Q v \<Longrightarrow>
   filter (\<lambda>e. Q (snd e)) (dict_set k v d) = dict_set k v (filter (\<lambda>e. Q (snd e)) d)"
  by (induction d) auto

lemma filter_update_drop:
  "\<forall>e \<in> set d. fst e = k \<longrightarrow> \<not> Q (snd e) \<Longrightarrow> \<not> Q v \<Longrightarrow>
   filter (\<lambda>e. Q (snd e)) (dict_set k v d) = filter (\<lambda>e. Q (snd e)) d"
  by (induction d) auto

lemma map_of_filter_same:
  "\<forall>e \<in> set d. fst e = k \<longrightarrow> Q (snd e) \<Longrightarrow> map_of (filter (\<lambda>e. Q (snd e)) d) k = map_of d k"
  by (induction d) auto

lemma collapse_filter:
  assumes Q: "\<And>x y. logical_key x = logical_key y \<Longrightarrow> Q x = Q y"
  shows "fold collapse_step (filter Q xs) [] = filter (\<lambda>e. Q (snd e)) (fold collapse_step xs [])"
proof (induction xs rule: rev_induct)
  case (snoc x xs)
  let ?d = "fold collapse_step xs []"
  have keys: "Q (snd e) = Q x" if "e \<in> set ?d" "fst e = logical_key x" for e
  proof -
    have "map_of ?d (fst e) = Some (snd e)"
      using that(1) latest_dict_distinct [of xs] by simp
    from latest_dict_sound [OF this] show ?thesis using that(2) Q by metis
  qed
  show ?case
  proof (cases "Q x")
    case True
    then have same: "\<forall>e \<in> set ?d. fst e = logical_key x \<longrightarrow> Q (snd e)" using keys by blast
    have "collapse_step x (filter (\<lambda>e. Q (snd e)) ?d) = filter (\<lambda>e. Q (snd e)) (collapse_step x ?d)"
      unfolding collapse_step_def [of x] map_of_filter_same [OF same]
      using filter_update_keep [OF same True] by (auto split: option.split)
    then show ?thesis using True snoc by simp
  next
    case False
    then have "\<forall>e \<in> set ?d. fst e = logical_key x \<longrightarrow> \<not> Q (snd e)" using keys by blast
    from filter_update_drop [OF this False]
    have "filter (\<lambda>e. Q (snd e)) (collapse_step x ?d) = filter (\<lambda>e. Q (snd e)) ?d"
      by (auto simp: collapse_step_def [of x] split: option.split)
    then show ?thesis using False snoc by simp
  qed
qed simp

lemma vals_filter: "vals (filter (\<lambda>e. Q (snd e)) d) = filter Q (vals d)"
  by (induction d) auto

lemma read_rows_earlier:
  assumes "t \<le> k" "\<And>x. x \<in> set xs \<Longrightarrow> o_dataset x = ds \<Longrightarrow> o_knowledge_time x = o_event_time x"
  shows "read_rows xs t (q_of_dataset ds) = filter (\<lambda>x. o_event_time x \<le> t) (read_rows xs k (q_of_dataset ds))"
proof -
  let ?Q = "\<lambda>x. o_event_time x \<le> t"
  have Q: "logical_key x = logical_key y \<Longrightarrow> ?Q x = ?Q y" for x y by (simp add: logical_key_def)
  have "filter (visible t (q_of_dataset ds)) xs = filter ?Q (filter (visible k (q_of_dataset ds)) xs)"
    unfolding filter_filter using assms by (intro filter_cong) (auto simp: visible_dataset)
  then have "collapse_latest_revisions (filter (visible t (q_of_dataset ds)) xs)
      = filter ?Q (collapse_latest_revisions (filter (visible k (q_of_dataset ds)) xs))"
    by (simp only: collapse_latest_revisions_def collapse_filter [OF Q] vals_filter [of ?Q])
  then show ?thesis by (simp add: read_rows_def sort_observations_def filter_sort)
qed

lemma mem_as_of_earlier:
  assumes "mem_inv s" "t \<le> k"
    and "\<And>x. x \<in> ran (mem_rows s) \<Longrightarrow> o_dataset x = ds \<Longrightarrow> o_knowledge_time x = o_event_time x"
  shows "mem_as_of s t (q_of_dataset ds) = filter (\<lambda>x. o_event_time x \<le> t) (mem_as_of s k (q_of_dataset ds))"
  unfolding mem_as_of_read by (rule read_rows_earlier [OF assms(2)]) (use assms(3) mem_vals_ran [OF assms(1)] in blast)

lemma collect_res_filter:
  "collect_res f xs = Inr ys \<Longrightarrow> (\<And>x y. x \<in> set xs \<Longrightarrow> f x = Inr (Some y) \<Longrightarrow> P x = R y) \<Longrightarrow>
   collect_res f (filter P xs) = Inr (filter R ys)"
proof (induction xs arbitrary: ys)
  case (Cons x xs)
  obtain y zs where y: "f x = Inr y" "collect_res f xs = Inr zs"
    using Cons.prems(1) by (auto split: sum.splits)
  then have ys: "ys = (case y of None \<Rightarrow> zs | Some z \<Rightarrow> z # zs)" using Cons.prems(1) by simp
  have "collect_res f (filter P xs) = Inr (filter R zs)" using Cons.IH y(2) Cons.prems(2) by auto
  then show ?case using y ys Cons.prems(2) [of x] by (cases y) auto
qed simp

section \<open>Cells, columns and the universe of a pivoted panel\<close>

abbreviation live_records :: "(datetime \<times> string \<times> flt) list \<Rightarrow> (datetime \<times> string \<times> flt) list" where
  "live_records recs \<equiv> filter (\<lambda>r. snd (snd r) \<noteq> NaN) recs"

lemma pivot_columns: "pn_columns (pivot_last recs) = sort (remdups (map (\<lambda>r. fst (snd r)) (live_records recs)))"
  by (simp add: pivot_last_def Let_def)

lemma pivot_index: "panel_index (pivot_last recs) = sort (remdups (map fst (live_records recs)))"
  by (simp add: pivot_last_def Let_def panel_index_def comp_def)

lemma cell_of_column:
  "c \<notin> set (map (\<lambda>r. fst (snd r)) live) \<Longrightarrow> cell_of live t c = NaN"
  by (auto simp: cell_of_def filter_empty_conv split: list.split dest!: filter_eq_ConsD)

lemma pivot_slice_column:
  "column (panel_slice (pivot_last recs) t) c =
     map (\<lambda>t'. cell_of (live_records recs) t' c) (filter (\<lambda>t'. t' \<le> t) (panel_index (pivot_last recs)))"
  unfolding pivot_index
  by (simp add: column_def panel_slice_def pivot_last_def Let_def filter_map comp_def map_of_zip_map)
    (use cell_of_column in fastforce)

lemma pivot_column:
  "column (pivot_last recs) c = map (\<lambda>t'. cell_of (live_records recs) t' c) (panel_index (pivot_last recs))"
  unfolding pivot_index
  by (simp add: column_def pivot_last_def Let_def comp_def map_of_zip_map) (use cell_of_column in fastforce)

lemma cell_of_narrow:
  "t' \<le> t \<Longrightarrow> cell_of (filter (\<lambda>r. fst r \<le> t) live) t' c = cell_of live t' c"
proof -
  assume "t' \<le> t"
  then have "filter (\<lambda>r. fst r = t' \<and> fst (snd r) = c) (filter (\<lambda>r. fst r \<le> t) live)
      = filter (\<lambda>r. fst r = t' \<and> fst (snd r) = c) live"
    unfolding filter_filter by (intro filter_cong) auto
  then show ?thesis by (simp only: cell_of_def)
qed

lemma index_narrow:
  "panel_index (pivot_last (filter (\<lambda>r. fst r \<le> t) recs)) = filter (\<lambda>t'. t' \<le> t) (panel_index (pivot_last recs))"
  unfolding pivot_index
  by (rule sorted_distinct_set_unique) (auto simp: sorted_wrt_filter sorted_filter [of id, simplified])

lemma column_narrow:
  "column (pivot_last (filter (\<lambda>r. fst r \<le> t) recs)) c = column (panel_slice (pivot_last recs) t) c"
proof -
  have live: "live_records (filter (\<lambda>r. fst r \<le> t) recs) = filter (\<lambda>r. fst r \<le> t) (live_records recs)"
    by (simp add: conj_commute)
  show ?thesis
    unfolding pivot_column pivot_slice_column index_narrow live
    by (rule map_cong [OF refl]) (simp only: cell_of_narrow set_filter mem_Collect_eq)
qed

definition shaped :: "panel \<Rightarrow> bool" where
  "shaped p \<longleftrightarrow> distinct (pn_columns p) \<and> (\<forall>r \<in> set (pn_rows p). length (snd r) = length (pn_columns p))"

lemma shaped_pivot [simp]: "shaped (pivot_last recs)"
  by (auto simp: shaped_def pivot_last_def Let_def)

lemma shaped_slice [simp]: "shaped p \<Longrightarrow> shaped (panel_slice p t)"
  by (auto simp: shaped_def panel_slice_def)

lemma filled_cell:
  assumes "\<forall>xs \<in> set rows. length xs = n" "length init = n" "i < n"
  shows "length (foldl (map2 (\<lambda>u v. if v = NaN then u else v)) init rows) = n
    \<and> (foldl (map2 (\<lambda>u v. if v = NaN then u else v)) init rows ! i \<noteq> NaN
        \<longleftrightarrow> init ! i \<noteq> NaN \<or> (\<exists>xs \<in> set rows. xs ! i \<noteq> NaN))"
  using assms(1)
proof (induction rows rule: rev_induct)
  case (snoc xs rows)
  then show ?case using assms(3) by auto
qed (use assms in simp)

lemma map2_flip: "map2 (\<lambda>v u. if v = NaN then u else v) xs prev = map2 (\<lambda>u v. if v = NaN then u else v) prev xs"
  by (simp add: zip_commute [of xs prev] comp_def split_def)

lemma scan_Nil_iff [simp]: "scan f a xs = [] \<longleftrightarrow> xs = []"
  by (cases xs) simp_all

lemma last_scan: "xs \<noteq> [] \<Longrightarrow> last (scan f a xs) = foldl f a xs"
proof (induction xs arbitrary: a)
  case (Cons x xs)
  then show ?case by (cases xs) simp_all
qed simp

lemma zip_lookup:
  "distinct cols \<Longrightarrow> length xs = length cols \<Longrightarrow> i < length cols \<Longrightarrow> map_of (zip cols xs) (cols ! i) = Some (xs ! i)"
  by (rule map_of_zip_nth) auto

text \<open>A name is in the universe when some row of its column has a value.\<close>

lemma panel_universe_columns:
  assumes "shaped p"
  shows "panel_universe p = filter (\<lambda>c. \<exists>v \<in> set (column p c). v \<noteq> NaN) (pn_columns p)"
proof (cases "panel_empty p")
  case True
  then show ?thesis by (auto simp: panel_universe_def panel_empty_def column_def filter_empty_conv)
next
  case False
  let ?cols = "pn_columns p" and ?n = "length (pn_columns p)" and ?rows = "map snd (pn_rows p)"
  let ?init = "map (\<lambda>_. NaN) ?cols"
  let ?last = "foldl (map2 (\<lambda>u v. if v = NaN then u else v)) ?init ?rows"
  have rows: "\<forall>xs \<in> set ?rows. length xs = ?n" and d: "distinct ?cols"
    using assms by (auto simp: shaped_def)
  have "snd (last (pn_rows (ffill p))) = last (map snd (pn_rows (ffill p)))"
    using False by (subst last_map) (auto simp: ffill_def panel_index_def panel_empty_def)
  also have "\<dots> = ?last"
    using False by (simp add: ffill_def panel_index_def map_snd_zip last_scan map2_flip panel_empty_def)
  finally have latest: "snd (last (pn_rows (ffill p))) = ?last" .
  have "dict_get NaN (zip ?cols ?last) c \<noteq> NaN \<longleftrightarrow> (\<exists>v \<in> set (column p c). v \<noteq> NaN)" if "c \<in> set ?cols" for c
  proof -
    from that [unfolded in_set_conv_nth] obtain i where i: "i < ?n" "?cols ! i = c" by blast
    have cell: "dict_get NaN (zip ?cols xs) c = xs ! i" if "length xs = ?n" for xs
      using zip_lookup [OF d that i(1)] unfolding i(2) by simp
    have "set (column p c) = (\<lambda>xs. xs ! i) ` set ?rows"
      using rows cell by (fastforce simp: column_def image_iff)
    then show ?thesis
      using filled_cell [OF rows _ i(1), of ?init] cell i(1) by auto
  qed
  then show ?thesis
    using False by (simp add: panel_universe_def latest series_of_row_def Let_def cong: filter_cong)
qed

lemma narrow_universe:
  "panel_universe (pivot_last (filter (\<lambda>r. fst r \<le> t) recs)) = panel_universe (panel_slice (pivot_last recs) t)"
proof -
  let ?few = "filter (\<lambda>r. fst r \<le> t) recs"
  have has: "(\<exists>v \<in> set (column (panel_slice (pivot_last recs) t) c). v \<noteq> NaN)
      \<longleftrightarrow> (\<exists>r \<in> set (live_records recs). fst r \<le> t \<and> fst (snd r) = c)" (is "?L \<longleftrightarrow> ?R") for c
  proof
    assume ?L
    then obtain t' where t': "t' \<le> t" "cell_of (live_records recs) t' c \<noteq> NaN"
      unfolding pivot_slice_column by auto
    then show ?R by (fastforce simp: cell_of_def split: list.splits dest!: filter_eq_ConsD)
  next
    assume ?R
    then obtain r where r: "r \<in> set (live_records recs)" "fst r \<le> t" "fst (snd r) = c" by blast
    let ?xs = "filter (\<lambda>r'. fst r' = fst r \<and> fst (snd r') = c) (live_records recs)"
    have "r \<in> set ?xs" using r by simp
    then have "?xs \<noteq> []" by (metis empty_iff list.set(1))
    then have "last ?xs \<in> set ?xs" by (rule last_in_set)
    then have "snd (snd (last ?xs)) \<noteq> NaN" by simp
    moreover have "cell_of (live_records recs) (fst r) c = snd (snd (last ?xs))"
    proof (cases ?xs)
      case Nil
      with \<open>r \<in> set ?xs\<close> show ?thesis by (simp only: list.set empty_iff)
    next
      case (Cons a as)
      then show ?thesis by (simp only: cell_of_def list.case)
    qed
    moreover have "fst r \<in> set (panel_index (pivot_last recs))" using r(1) by (auto simp: pivot_index)
    ultimately show ?L unfolding pivot_slice_column using r(2) by auto
  qed
  have "panel_universe (panel_slice (pivot_last recs) t) =
      filter (\<lambda>c. \<exists>r \<in> set (live_records recs). fst r \<le> t \<and> fst (snd r) = c) (pn_columns (pivot_last recs))"
    by (simp add: panel_universe_columns has) (simp add: panel_slice_def)
  also have "\<dots> = pn_columns (pivot_last ?few)"
    unfolding pivot_columns
  proof (rule sorted_distinct_set_unique)
    show "set (filter (\<lambda>c. \<exists>r \<in> set (live_records recs). fst r \<le> t \<and> fst (snd r) = c)
        (sort (remdups (map (\<lambda>r. fst (snd r)) (live_records recs)))))
      = set (sort (remdups (map (\<lambda>r. fst (snd r)) (live_records ?few))))"
    proof (rule set_eqI)
      fix c
      show "(c \<in> set (filter (\<lambda>c. \<exists>r \<in> set (live_records recs). fst r \<le> t \<and> fst (snd r) = c)
          (sort (remdups (map (\<lambda>r. fst (snd r)) (live_records recs)))))) \<longleftrightarrow>
        c \<in> set (sort (remdups (map (\<lambda>r. fst (snd r)) (live_records ?few))))"
        by (auto simp: image_iff)
    qed
  qed (simp_all add: sorted_wrt_filter sorted_filter [of id, simplified])
  also have "\<dots> = panel_universe (pivot_last ?few)"
  proof -
    have "(\<exists>v \<in> set (column (pivot_last ?few) c). v \<noteq> NaN)" if "c \<in> set (pn_columns (pivot_last ?few))" for c
      using that unfolding column_narrow has by (auto simp: pivot_columns) metis
    then show ?thesis by (simp add: panel_universe_columns filter_id_conv [THEN iffD2])
  qed
  finally show ?thesis by simp
qed

text \<open>C20: the backtest's fast view cannot look ahead.  The backtester loads the whole price panel once and
  slices it at each decision time; when every price was known at its own event time, the slice
  has the same time index, the same values of every name and the same tradable universe as the
  panel built from what the store knew at that time.\<close>

theorem panel_slice_is_point_in_time:
  assumes "mem_inv s" "t \<le> k" "store_panel mem_ops s k ds fld = Inr p"
    and "\<forall>x \<in> ran (mem_rows s). o_dataset x = ds \<longrightarrow> o_knowledge_time x = o_event_time x"
  shows "\<exists>q. store_panel mem_ops s t ds fld = Inr q
    \<and> panel_index q = panel_index (panel_slice p t)
    \<and> (\<forall>c. column q c = column (panel_slice p t) c)
    \<and> panel_universe q = panel_universe (panel_slice p t)"
proof -
  obtain recs where recs: "collect_res (price_record fld) (mem_as_of s k (q_of_dataset ds)) = Inr recs"
    "p = pivot_last recs"
    using assms(3) by (auto simp: store_panel_def mem_ops_def observations_to_price_frame_def split: sum.splits)
  have narrow: "mem_as_of s t (q_of_dataset ds) =
      filter (\<lambda>x. o_event_time x \<le> t) (mem_as_of s k (q_of_dataset ds))"
    by (rule mem_as_of_earlier [OF assms(1,2)]) (use assms(4) in blast)
  have "collect_res (price_record fld) (mem_as_of s t (q_of_dataset ds)) = Inr (filter (\<lambda>r. fst r \<le> t) recs)"
    unfolding narrow
    by (rule collect_res_filter [OF recs(1)]) (auto simp: price_record_def split: if_splits sum.splits)
  then have "store_panel mem_ops s t ds fld = Inr (pivot_last (filter (\<lambda>r. fst r \<le> t) recs))"
    by (simp add: store_panel_def mem_ops_def observations_to_price_frame_def)
  moreover have "panel_index (panel_slice p t) = filter (\<lambda>t'. t' \<le> t) (panel_index p)"
    by (simp add: panel_index_def panel_slice_def filter_map comp_def)
  ultimately show ?thesis
    using index_narrow column_narrow narrow_universe recs(2) by auto
qed

definition sample_price :: "nat \<Rightarrow> datetime \<Rightarrow> real \<Rightarrow> observation" where
  "sample_price i t v = (new_obs 0 ''alpaca'' price_dataset ''equity'' ''ABC'' None t t
     [(''close'', PFloat (Fin v))] [])\<lparr>o_id := Uuid4 i\<rparr>"

definition sample_prices :: mem_store where
  "sample_prices = mem_upsert_many [sample_price 1 5 20, sample_price 2 9 22] mem_empty"

lemma sample_prices_read:
  "collect_res (price_record ''close'') (mem_as_of sample_prices 9 (q_of_dataset price_dataset)) =
     Inr [(5, ''ABC'', Fin 20), (9, ''ABC'', Fin 22)]"
  by (simp add: sample_prices_def mem_upsert_many_def mem_add_many_def mem_add_def mem_empty_def
      mem_as_of_def q_of_dataset_def q_all_def sample_price_def collapse_latest_revisions_def
      collapse_step_def logical_key_def sort_observations_def sort_fields_def price_record_def pget_def)

lemma panel_slice_is_point_in_time_witness:
  "\<exists>p q. store_panel mem_ops sample_prices 9 price_dataset ''close'' = Inr p
    \<and> store_panel mem_ops sample_prices 7 price_dataset ''close'' = Inr q
    \<and> panel_index q = [5] \<and> column q ''ABC'' = column (panel_slice p 7) ''ABC''"
proof -
  let ?p = "pivot_last [(5, ''ABC'', Fin 20), (9, ''ABC'', Fin 22)]"
  have p: "store_panel mem_ops sample_prices 9 price_dataset ''close'' = Inr ?p"
    using sample_prices_read by (simp add: store_panel_def mem_ops_def observations_to_price_frame_def)
  have i: "mem_inv sample_prices" by (simp add: sample_prices_def mem_inv_upsert mem_inv_empty)
  have stamped: "\<forall>x \<in> ran (mem_rows sample_prices). o_dataset x = price_dataset \<longrightarrow>
      o_knowledge_time x = o_event_time x"
    by (auto simp: sample_prices_def mem_upsert_many_def mem_add_many_def mem_add_def mem_rows_def
        mem_empty_def sample_price_def ran_def split: if_splits)
  have "panel_index (panel_slice ?p 7) = [5]"
    by (simp add: panel_index_def panel_slice_def pivot_last_def Let_def)
  with panel_slice_is_point_in_time [OF i _ p stamped, of 7] p show ?thesis by auto
qed

end
