(* ===== verification/Allocation.thy ===== *)
theory Allocation
  imports Risk Panel
begin

text \<open>
  From scores to a risk-managed book: \<open>apply_risk_limits\<close> of \<open>portfolio/risk.py\<close>, \<open>portfolio/sizing.py\<close>,
  \<open>portfolio/weighting.py\<close>, the volatility target of \<open>portfolio/construction.py\<close> and the z-score of
  \<open>features/base.py\<close>.  A pandas Series of weights is a dictionary in index order; its \<open>sum\<close> skips
  missing values.  The Ledoit-Wolf estimate (scikit-learn) is a parameter.
\<close>

section \<open>Series\<close>

definition series_sum :: "flt list \<Rightarrow> flt" where
  "series_sum xs = sum_list (filter (\<lambda>x. x \<noteq> NaN) xs)"

definition series_mean :: "flt list \<Rightarrow> flt" where
  "series_mean xs = (let ys = filter (\<lambda>x. x \<noteq> NaN) xs in if ys = [] then NaN else fmean ys)"

definition fill0 :: "flt \<Rightarrow> flt" where
  "fill0 x = (if x = NaN then 0 else x)"

definition clip :: "flt \<Rightarrow> flt \<Rightarrow> flt \<Rightarrow> flt" where
  "clip lo hi x = (if x < lo then lo else if hi < x then hi else x)"

definition map_vals :: "('v \<Rightarrow> 'w) \<Rightarrow> ('k, 'v) dict \<Rightarrow> ('k, 'w) dict" where
  "map_vals f d = map (\<lambda>(k, v). (k, f v)) d"

definition cross_sectional_zscore :: "flt list \<Rightarrow> flt list" where
  "cross_sectional_zscore v =
     (let sd = series_std 0 v in
      if sd = NaN \<or> sd = Fin 0 then map (\<lambda>x. x * 0) v
      else map (\<lambda>x. fdiv (x - series_mean v) sd) v)"

text \<open>The shares of an inverse-volatility book, as the cycle and the composite backtest strategy form them: a
  name without a positive volatility gets the mean, and there is no book without any.\<close>

definition inverse_vol_shares :: "flt list \<Rightarrow> flt list option" where
  "inverse_vol_shares vol =
     (let inv = map (\<lambda>v. if 0 < v then fdiv 1 v else NaN) vol;
          filled = map (\<lambda>x. if x = NaN then series_mean inv else x) inv;
          total = series_sum filled
      in if (\<exists>x \<in> set inv. x \<noteq> NaN) \<and> 0 < total then Some (map (\<lambda>x. fdiv x total) filled) else None)"

text \<open>\<open>xs[:k]\<close> and pandas' \<open>head\<close>: a negative count leaves out that many at the end.\<close>

definition py_head :: "int \<Rightarrow> 'a list \<Rightarrow> 'a list" where
  "py_head k xs = (if 0 \<le> k then take (nat k) xs else take (length xs - nat (- k)) xs)"

text \<open>Python's \<open>int\<close> of a float truncates towards zero.\<close>

definition trunc :: "real \<Rightarrow> int" where
  "trunc x = (if x < 0 then \<lceil>x\<rceil> else \<lfloor>x\<rfloor>)"

section \<open>apply_risk_limits\<close>

definition cap_gross :: "flt \<Rightarrow> weights \<Rightarrow> weights" where
  "cap_gross cap s =
     (let gross = series_sum (map abs (vals s)) in
      if cap < gross \<and> 0 < gross then map_vals (\<lambda>v. v * fdiv cap gross) s else s)"

definition cap_sector :: "(string, string) dict \<Rightarrow> flt \<Rightarrow> string \<Rightarrow> weights \<Rightarrow> weights" where
  "cap_sector sectors cap sector s =
     (let member = (\<lambda>k. map_of sectors k = Some sector);
          exposure = series_sum (map abs (vals (filter (\<lambda>(k, v). member k) s)))
      in if cap < exposure \<and> 0 < exposure
         then map (\<lambda>(k, v). (k, if member k then v * fdiv cap exposure else v)) s else s)"

definition cap_net :: "flt \<Rightarrow> weights \<Rightarrow> weights" where
  "cap_net cap s =
     (let net = series_sum (vals s) in
      if cap + Fin (1 / 10 ^ 12) < \<bar>net\<bar>
      then let dominant = (\<lambda>v. if 0 < net then 0 < v else v < 0);
               dom_gross = series_sum (map abs (filter dominant (vals s)))
           in if 0 < dom_gross
              then map_vals (\<lambda>v. if dominant v then v * (1 - fdiv (\<bar>net\<bar> - cap) dom_gross) else v) s
              else s
      else s)"

definition apply_risk_limits :: "weights \<Rightarrow> risk_limits \<Rightarrow> (string, string) dict option \<Rightarrow> weights" where
  "apply_risk_limits ws lims sectors =
     (if ws = [] then []
      else
        let s0 = map_vals (clip (- lim_max_position_weight lims) (lim_max_position_weight lims)) ws;
            s1 = cap_gross (lim_max_gross_exposure lims) s0;
            s2 = (case sectors of
                None \<Rightarrow> s1
              | Some m \<Rightarrow> fold (cap_sector m (lim_max_sector_weight lims)) (remdups (vals m)) s1);
            s3 = cap_net (lim_max_net_exposure lims) s2
        in filter (\<lambda>(k, v). v \<noteq> Fin 0) s3)"

section \<open>construction.py: the volatility target\<close>

text \<open>\<open>cov\<close> is the matrix in the order of the weights; a period's variance is \<open>w @ cov @ w\<close>.\<close>

definition dot :: "flt list \<Rightarrow> flt list \<Rightarrow> flt" where
  "dot xs ys = sum_list (map2 (*) xs ys)"

definition annual_vol :: "flt list \<Rightarrow> flt list list \<Rightarrow> nat \<Rightarrow> flt" where
  "annual_vol w cov periods =
     fsqrt (py_max (dot (map (\<lambda>col. dot w col) cov) w) 0) * Fin (sqrt (real periods))"

definition volatility_target_weights :: "weights \<Rightarrow> flt list list \<Rightarrow> flt \<Rightarrow> weights" where
  "volatility_target_weights ws cov target_vol =
     (let vol = annual_vol (map fill0 (vals ws)) cov 252 in
      if vol \<le> 0 then ws else map_vals (\<lambda>v. v * fdiv target_vol vol) ws)"

section \<open>sizing.py\<close>

fun fexp :: "flt \<Rightarrow> flt" where
  "fexp (Fin x) = Fin (exp x)"
| "fexp PInf = PInf"
| "fexp NInf = Fin 0"
| "fexp NaN = NaN"

definition tilt_weights :: "(string, flt) dict option \<Rightarrow> string list \<Rightarrow> flt \<Rightarrow> weights" where
  "tilt_weights scores names tilt_strength =
     (let base = map (\<lambda>s. (s, Fin (1 / real (length names)))) names in
      case scores of
        None \<Rightarrow> base
      | Some sc \<Rightarrow>
          if tilt_strength \<le> 0 then base
          else let z = map (clip (- 3) 3) (cross_sectional_zscore (map (\<lambda>s. fill0 (dict_get NaN sc s)) names));
                   raw = map (\<lambda>x. fexp (tilt_strength * x)) z;
                   total = series_sum raw
               in if 0 < total then zip names (map (\<lambda>x. fdiv x total) raw) else base)"

definition not_tiny :: "flt \<Rightarrow> bool" where
  "not_tiny v \<longleftrightarrow> Fin (1 / 10 ^ 9) < \<bar>v\<bar>"

text \<open>The columns of a panel's last \<open>lookback\<close> rows that have no missing value.\<close>

definition clean_window :: "nat \<Rightarrow> panel \<Rightarrow> panel" where
  "clean_window lookback returns =
     (let recent = returns\<lparr>pn_rows := tail_of lookback (pn_rows returns)\<rparr>;
          cols = filter (\<lambda>c. NaN \<notin> set (column recent c)) (pn_columns returns)
      in \<lparr>pn_columns = cols,
          pn_rows = map (\<lambda>r. (fst r, map (dict_get NaN (zip (pn_columns returns) (snd r))) cols)) (pn_rows recent)\<rparr>)"

definition size_book ::
  "(panel \<Rightarrow> flt list list) \<Rightarrow> panel \<Rightarrow> flt \<Rightarrow> risk_limits \<Rightarrow> (string, flt) dict option \<Rightarrow> flt \<Rightarrow> nat
   \<Rightarrow> (string, string) dict option \<Rightarrow> flt \<Rightarrow> weights" where
  "size_book ledoit_wolf_cov returns target_vol lims scores tilt_strength lookback sectors regime_derisk =
     (let names = pn_columns returns in
      if names = [] then []
      else
        let raw = tilt_weights scores names tilt_strength;
            budget = target_vol * py_max 0 regime_derisk;
            window = clean_window lookback returns;
            sized = (if 2 \<le> length (pn_columns window) \<and> 20 \<le> length (pn_rows window)
              then let w = map (\<lambda>s. (s, fill0 (dict_get NaN raw s))) (pn_columns window);
                       gross = series_sum (vals w);
                       w' = (if 0 < gross then map_vals (\<lambda>v. fdiv v gross) w else w)
                   in volatility_target_weights w' (ledoit_wolf_cov window) budget
              else map_vals (\<lambda>v. v * py_max 0 regime_derisk) raw)
        in apply_risk_limits (filter (\<lambda>(k, v). not_tiny v) sized) lims sectors)"

section \<open>The volatility governor of the cycle and the backtest\<close>

definition panel_select :: "panel \<Rightarrow> string list \<Rightarrow> panel" where
  "panel_select p cols = \<lparr>pn_columns = cols,
     pn_rows = map (\<lambda>r. (fst r, map (dict_get NaN (zip (pn_columns p) (snd r))) cols)) (pn_rows p)\<rparr>"

definition vol_target_weights ::
  "(panel \<Rightarrow> flt list list) \<Rightarrow> weights \<Rightarrow> panel \<Rightarrow> flt \<Rightarrow> flt \<Rightarrow> weights" where
  "vol_target_weights cov ws returns vol_budget max_gross =
     (let names = filter (\<lambda>s. s \<in> set (pn_columns returns)) (keys ws);
          window = clean_window (length (pn_rows returns)) (panel_select returns names)
      in if length (pn_columns window) < 2 \<or> length (pn_rows window) < 20 then ws
         else
           let w = map (\<lambda>s. (s, fill0 (dict_get NaN ws s))) (pn_columns window);
               scaled = volatility_target_weights w (cov window) vol_budget
           in filter (\<lambda>(k, v). not_tiny v) (cap_gross max_gross scaled))"

section \<open>weighting.py\<close>

text \<open>A feature matrix: the symbols of its rows and its named columns.\<close>

record feature_matrix =
  fm_symbols :: "string list"
  fm_columns :: "(string \<times> flt list) list"

definition equal_weights :: "string list \<Rightarrow> (string, flt) dict" where
  "equal_weights names = map (\<lambda>n. (n, Fin (1 / real (length names)))) names"

definition inverse_variance_weights :: "feature_matrix \<Rightarrow> (string, flt) dict" where
  "inverse_variance_weights m =
     (let inv = map_vals (\<lambda>col. let sd = series_std 0 col; var = sd * sd in
              if var = NaN \<or> var = Fin 0 then 0 else fdiv 1 var) (fm_columns m);
          total = series_sum (vals inv)
      in if total = Fin 0 then equal_weights (keys (fm_columns m)) else map_vals (\<lambda>v. fdiv v total) inv)"

definition ic_weights :: "(string, flt) dict \<Rightarrow> flt \<Rightarrow> (string, flt) dict" where
  "ic_weights ics cap =
     (let denom = series_sum (map abs (vals ics)) in
      if denom = Fin 0 then equal_weights (keys ics)
      else map_vals (\<lambda>v. clip (- cap) cap (fdiv v denom)) ics)"

text \<open>\<open>corr\<close> is pandas' correlation of two columns.\<close>

definition orthogonality_penalty ::
  "(flt list \<Rightarrow> flt list \<Rightarrow> flt) \<Rightarrow> feature_matrix \<Rightarrow> (string, flt) dict" where
  "orthogonality_penalty corr m =
     map_vals (\<lambda>col.
       let row = map (\<lambda>other. fill0 \<bar>corr col (snd other)\<bar>) (fm_columns m);
           redundancy = sum_list row - fill0 \<bar>corr col col\<bar>
       in fdiv 1 (1 + redundancy)) (fm_columns m)"

definition composite_score ::
  "feature_matrix \<Rightarrow> (string, flt) dict \<Rightarrow> (string, flt) dict option \<Rightarrow> (string, flt) dict option
   \<Rightarrow> (string, flt) dict" where
  "composite_score m weights quality decay =
     (let factor = (\<lambda>d c. case d of None \<Rightarrow> 1 | Some q \<Rightarrow>
              (let v = dict_get NaN q c in if v = NaN then 1 else v));
          w0 = map (\<lambda>c. fill0 (dict_get NaN weights c) * factor quality c * factor decay c) (keys (fm_columns m));
          scale = series_sum (map abs w0);
          w = (if 0 < scale then map (\<lambda>v. fdiv v scale) w0 else w0);
          z = map cross_sectional_zscore (vals (fm_columns m))
      in map (\<lambda>(i, s). (s, series_sum (map2 (\<lambda>col v. col ! i * v) z w)))
           (enumerate 0 (fm_symbols m)))"

section \<open>The limits hold for every finite book\<close>

definition fin_book :: "(string \<times> real) list \<Rightarrow> weights" where
  "fin_book rs = map_vals Fin rs"

definition shrinks :: "(string \<times> real) list \<Rightarrow> (string \<times> real) list \<Rightarrow> bool" where
  "shrinks xs ys \<longleftrightarrow>
     list_all2 (\<lambda>x y. fst y = fst x \<and> (\<exists>c. 0 \<le> c \<and> c \<le> 1 \<and> snd y = c * snd x)) xs ys"

lemma fin_book_simps [simp]:
  "fin_book [] = []" "fin_book (x # xs) = (fst x, Fin (snd x)) # fin_book xs"
  "keys (fin_book rs) = keys rs" "fin_book rs = [] \<longleftrightarrow> rs = []"
  by (auto simp: fin_book_def map_vals_def split_def)

lemma vals_fin_book: "vals (fin_book rs) = map Fin (vals rs)"
  by (simp add: fin_book_def map_vals_def split_def)

lemma series_sum_Fin [simp]: "series_sum (map Fin xs) = Fin (sum_list xs)"
  by (induction xs) (simp_all add: series_sum_def zero_flt_def)

lemma gross_Fin: "series_sum (map abs (vals (fin_book xs))) = Fin (sum_list (map abs (vals xs)))"
proof -
  have "map abs (vals (fin_book xs)) = map Fin (map abs (vals xs))" by (simp add: vals_fin_book)
  then show ?thesis by (simp only: series_sum_Fin)
qed

lemma net_Fin: "series_sum (vals (fin_book xs)) = Fin (sum_list (vals xs))"
  by (simp only: vals_fin_book series_sum_Fin)

lemma shrinks_map:
  "(\<And>x. x \<in> set xs \<Longrightarrow> 0 \<le> c x \<and> c x \<le> 1) \<Longrightarrow> shrinks xs (map (\<lambda>x. (fst x, c x * snd x)) xs)"
  by (induction xs) (auto simp: shrinks_def)

lemma shrinks_refl: "shrinks xs xs"
  using shrinks_map [of xs "\<lambda>_. 1"] by simp

lemma shrink_factor:
  assumes "\<exists>c \<ge> 0. c \<le> 1 \<and> y = c * x" "\<exists>d \<ge> 0. d \<le> 1 \<and> z = d * (y :: real)"
  shows "\<exists>c \<ge> 0. c \<le> 1 \<and> z = c * x"
proof -
  from assms obtain c d where "0 \<le> c" "c \<le> 1" "y = c * x" "0 \<le> d" "d \<le> 1" "z = d * y" by blast
  then show ?thesis by (intro exI [of _ "d * c"]) (simp add: mult_le_one)
qed

lemma shrinks_trans: "shrinks xs ys \<Longrightarrow> shrinks ys zs \<Longrightarrow> shrinks xs zs"
  unfolding shrinks_def
  by (erule (1) list_all2_trans [rotated]) (elim conjE, intro conjI, simp, rule shrink_factor)

lemma shrinks_keys: "shrinks xs ys \<Longrightarrow> keys ys = keys xs"
  unfolding shrinks_def by (induction xs ys rule: list_all2_induct) auto

lemma shrinks_abs:
  "shrinks xs ys \<Longrightarrow> list_all2 (\<lambda>x y. \<bar>snd y\<bar> \<le> \<bar>snd x\<bar>) xs ys"
  unfolding shrinks_def by (erule list_all2_mono) (auto simp: abs_mult mult_left_le_one_le)

lemma shrinks_gross: "shrinks xs ys \<Longrightarrow> sum_list (map abs (vals ys)) \<le> sum_list (map abs (vals xs))"
  by (drule shrinks_abs, induction xs ys rule: list_all2_induct) auto

lemma shrinks_bound:
  assumes "shrinks xs ys" "\<forall>x \<in> set xs. \<bar>snd x\<bar> \<le> m"
  shows "\<forall>y \<in> set ys. \<bar>snd y\<bar> \<le> m"
  using shrinks_abs [OF assms(1)] assms(2) by (induction rule: list_all2_induct) auto

lemma shrinks_member:
  "shrinks xs ys \<Longrightarrow> y \<in> set ys \<Longrightarrow> \<exists>x \<in> set xs. fst x = fst y \<and> (\<exists>c. 0 \<le> c \<and> c \<le> 1 \<and> snd y = c * snd x)"
  unfolding shrinks_def by (induction xs ys rule: list_all2_induct) auto

lemma clip_book:
  assumes "0 \<le> m"
  shows "\<exists>ys. map_vals (clip (- Fin m) (Fin m)) (fin_book xs) = fin_book ys \<and> shrinks xs ys
    \<and> (\<forall>y \<in> set ys. \<bar>snd y\<bar> \<le> m)"
proof -
  let ?c = "\<lambda>x :: string \<times> real. if \<bar>snd x\<bar> \<le> m then 1 else m / \<bar>snd x\<bar>"
  let ?ys = "map (\<lambda>x. (fst x, ?c x * snd x)) xs"
  have "shrinks xs ?ys" using assms by (intro shrinks_map) (auto simp: divide_le_eq)
  moreover have "map_vals (clip (- Fin m) (Fin m)) (fin_book xs) = fin_book ?ys"
    using assms by (induction xs) (auto simp: map_vals_def clip_def abs_if)
  moreover have "\<forall>y \<in> set ?ys. \<bar>snd y\<bar> \<le> m" using assms by (auto simp: abs_mult)
  ultimately show ?thesis by blast
qed

lemma scale_book:
  "map_vals (\<lambda>v. v * Fin c) (fin_book xs) = fin_book (map (\<lambda>x. (fst x, c * snd x)) xs)"
  by (induction xs) (auto simp: map_vals_def mult.commute)

lemma cap_gross_book:
  assumes "0 \<le> g"
  shows "\<exists>ys. cap_gross (Fin g) (fin_book xs) = fin_book ys \<and> shrinks xs ys
    \<and> sum_list (map abs (vals ys)) \<le> g"
proof -
  let ?s = "sum_list (map abs (vals xs))"
  have pos: "0 \<le> ?s" by (intro sum_list_nonneg) auto
  show ?thesis
  proof (cases "g < ?s")
    case True
    let ?ys = "map (\<lambda>x. (fst x, g / ?s * snd x)) xs"
    have s: "0 < ?s" using True assms by simp
    have "shrinks xs ?ys" using True s assms by (intro shrinks_map) (simp add: divide_le_eq)
    moreover have "cap_gross (Fin g) (fin_book xs) = fin_book ?ys"
      using True s unfolding cap_gross_def Let_def gross_Fin scale_book [symmetric]
      by (simp add: zero_flt_def)
    moreover have "sum_list (map abs (vals ?ys)) = g / ?s * ?s"
      using s assms by (simp add: comp_def abs_mult sum_list_const_mult [symmetric])
    ultimately show ?thesis using s by (intro exI [of _ ?ys]) simp
  next
    case False
    then have "cap_gross (Fin g) (fin_book xs) = fin_book xs" 
      unfolding cap_gross_def Let_def gross_Fin by simp
    then show ?thesis using shrinks_refl False by fastforce
  qed
qed

lemma cap_sector_book:
  assumes "0 \<le> c"
  shows "\<exists>ys. cap_sector m (Fin c) sec (fin_book xs) = fin_book ys \<and> shrinks xs ys"
proof -
  let ?in = "\<lambda>k. map_of m k = Some sec"
  define e where "e = sum_list (map abs (vals (filter (\<lambda>x. ?in (fst x)) xs)))"
  have "filter (\<lambda>(k, v). ?in k) (fin_book xs) = fin_book (filter (\<lambda>x. ?in (fst x)) xs)"
    by (induction xs) auto
  then have exposure: "series_sum (map abs (vals (filter (\<lambda>(k, v). ?in k) (fin_book xs)))) = Fin e"
    by (simp only: gross_Fin e_def)
  show ?thesis
  proof (cases "c < e \<and> 0 < e")
    case True
    let ?f = "\<lambda>x :: string \<times> real. if ?in (fst x) then c / e else 1"
    have f: "fdiv (Fin c) (Fin e) = Fin (c / e)" using True by simp
    have "cap_sector m (Fin c) sec (fin_book xs) = map (\<lambda>(k, v). (k, if ?in k then v * Fin (c / e) else v)) (fin_book xs)"
      using True unfolding cap_sector_def Let_def exposure f by (simp add: zero_flt_def)
    also have "\<dots> = fin_book (map (\<lambda>x. (fst x, ?f x * snd x)) xs)"
      by (induction xs) (simp_all add: mult.commute)
    finally show ?thesis
      using shrinks_map [of xs ?f] True assms by (intro exI conjI) (auto simp: divide_le_eq)
  next
    case False
    then have "cap_sector m (Fin c) sec (fin_book xs) = fin_book xs"
      unfolding cap_sector_def Let_def exposure by (auto simp: zero_flt_def)
    then show ?thesis using shrinks_refl by blast
  qed
qed

lemma cap_sectors_book:
  assumes "0 \<le> c"
  shows "\<exists>ys. fold (cap_sector m (Fin c)) secs (fin_book xs) = fin_book ys \<and> shrinks xs ys"
proof (induction secs arbitrary: xs)
  case Nil
  then show ?case using shrinks_refl by auto
next
  case (Cons sec secs)
  obtain ys where ys: "cap_sector m (Fin c) sec (fin_book xs) = fin_book ys" "shrinks xs ys"
    using cap_sector_book [OF assms] by blast
  with Cons.IH [of ys] show ?case using shrinks_trans by fastforce
qed

text \<open>The net cap only shrinks the dominant side, just enough.\<close>

lemma sum_scaled_part:
  "sum_list (map (\<lambda>v. if P v then (1 - r) * v else v) vs) = sum_list vs - r * sum_list (filter P vs)" for r :: real
  by (induction vs) (simp_all add: algebra_simps)

lemma positive_part: "sum_list (map abs (filter (\<lambda>v. 0 < v) vs)) = sum_list (filter (\<lambda>v. 0 < v) vs)"
  "sum_list vs \<le> sum_list (filter (\<lambda>v. 0 < v) vs)" for vs :: "real list"
  by (induction vs) auto

lemma negative_part: "sum_list (map abs (filter (\<lambda>v. v < 0) vs)) = - sum_list (filter (\<lambda>v. v < 0) vs)"
  "sum_list (filter (\<lambda>v. v < 0) vs) \<le> sum_list vs" for vs :: "real list"
  by (induction vs) auto

lemma cap_net_scaled:
  assumes over: "n + 1 / 10 ^ 12 < \<bar>sum_list (vals xs)\<bar>"
    and P: "\<And>v. P v \<longleftrightarrow> (if 0 < sum_list (vals xs) then 0 < v else v < 0)"
    and g: "g = sum_list (map abs (filter P (vals xs)))" "0 < g"
  shows "cap_net (Fin n) (fin_book xs) =
    fin_book (map (\<lambda>x. (fst x, (if P (snd x) then 1 - (\<bar>sum_list (vals xs)\<bar> - n) / g else 1) * snd x)) xs)"
proof -
  have "filter (\<lambda>v. if 0 < Fin (sum_list (vals xs)) then 0 < v else v < 0) (vals (fin_book xs))
      = map Fin (filter P (vals xs))"
    unfolding vals_fin_book zero_flt_def P by (simp add: filter_map comp_def)
  then have "map abs (filter (\<lambda>v. if 0 < Fin (sum_list (vals xs)) then 0 < v else v < 0) (vals (fin_book xs)))
      = map Fin (map abs (filter P (vals xs)))" by simp
  then have gross: "series_sum (map abs (filter (\<lambda>v. if 0 < Fin (sum_list (vals xs)) then 0 < v else v < 0)
      (vals (fin_book xs)))) = Fin g" unfolding g(1) by (simp only: series_sum_Fin)
  have f: "1 - fdiv (\<bar>Fin (sum_list (vals xs))\<bar> - Fin n) (Fin g) = Fin (1 - (\<bar>sum_list (vals xs)\<bar> - n) / g)"
    using g(2) by (simp add: flt_consts)
  have "cap_net (Fin n) (fin_book xs) = map_vals (\<lambda>v. if (if 0 < Fin (sum_list (vals xs)) then 0 < v else v < 0)
      then v * Fin (1 - (\<bar>sum_list (vals xs)\<bar> - n) / g) else v) (fin_book xs)"
    using over g(2) unfolding cap_net_def Let_def net_Fin gross f by (simp add: flt_consts)
  also have "\<dots> = fin_book (map (\<lambda>x. (fst x, (if P (snd x) then 1 - (\<bar>sum_list (vals xs)\<bar> - n) / g else 1)
      * snd x)) xs)"
    unfolding fin_book_def map_vals_def P by (auto simp: zero_flt_def mult.commute)
  finally show ?thesis .
qed

lemma cap_net_book:
  assumes "0 \<le> n"
  shows "\<exists>ys. cap_net (Fin n) (fin_book xs) = fin_book ys \<and> shrinks xs ys
    \<and> \<bar>sum_list (vals ys)\<bar> \<le> n + 1 / 10 ^ 12"
proof (cases "n + 1 / 10 ^ 12 < \<bar>sum_list (vals xs)\<bar>")
  case False
  then have "cap_net (Fin n) (fin_book xs) = fin_book xs"
    unfolding cap_net_def Let_def net_Fin by simp
  then show ?thesis using shrinks_refl False by fastforce
next
  case True
  define P where "P v = (if 0 < sum_list (vals xs) then 0 < v else v < (0 :: real))" for v
  define g where "g = sum_list (map abs (filter P (vals xs)))"
  have part: "g = (if 0 < sum_list (vals xs) then sum_list (filter P (vals xs)) else - sum_list (filter P (vals xs)))"
    "\<bar>sum_list (vals xs)\<bar> \<le> g"
  proof -
    consider "0 < sum_list (vals xs)" "P = (\<lambda>v. 0 < v)" | "\<not> 0 < sum_list (vals xs)" "P = (\<lambda>v. v < 0)"
      by (cases "0 < sum_list (vals xs)") (auto simp: P_def fun_eq_iff)
    then have "g = (if 0 < sum_list (vals xs) then sum_list (filter P (vals xs)) else - sum_list (filter P (vals xs)))
      \<and> \<bar>sum_list (vals xs)\<bar> \<le> g"
    proof cases
      case 1
      then show ?thesis unfolding g_def 1(2) using positive_part [of "vals xs"] by simp
    next
      case 2
      then show ?thesis unfolding g_def 2(2) using negative_part [of "vals xs"] by simp
    qed
    then show "g = (if 0 < sum_list (vals xs) then sum_list (filter P (vals xs)) else - sum_list (filter P (vals xs)))"
      "\<bar>sum_list (vals xs)\<bar> \<le> g" by blast+
  qed
  have over: "n < \<bar>sum_list (vals xs)\<bar>" using True by (rule order.strict_trans [rotated]) simp
  then have "0 < g" using part(2) assms by linarith
  define r where "r = (\<bar>sum_list (vals xs)\<bar> - n) / g"
  have r: "0 \<le> r" "r \<le> 1" "r * g = \<bar>sum_list (vals xs)\<bar> - n"
    using \<open>0 < g\<close> over part(2) assms by (simp_all add: r_def divide_le_eq)
  let ?ys = "map (\<lambda>x. (fst x, (if P (snd x) then 1 - r else 1) * snd x)) xs"
  have "cap_net (Fin n) (fin_book xs) = fin_book ?ys"
    unfolding r_def by (rule cap_net_scaled [OF True P_def g_def \<open>0 < g\<close>])
  moreover have "shrinks xs ?ys" using r by (intro shrinks_map) auto
  moreover have "vals ?ys = map (\<lambda>v. if P v then (1 - r) * v else v) (vals xs)" by simp
  then have "sum_list (vals ?ys) = sum_list (vals xs) - r * sum_list (filter P (vals xs))"
    by (simp only: sum_scaled_part)
  then have "\<bar>sum_list (vals ?ys)\<bar> = n"
    using part(1) r(3) assms by (cases "0 < sum_list (vals xs)") auto
  ultimately show ?thesis by (intro exI [of _ ?ys]) simp
qed

lemma drop_zero_book:
  "filter (\<lambda>(k, v). v \<noteq> Fin 0) (fin_book xs) = fin_book (filter (\<lambda>x. snd x \<noteq> 0) xs)"
  by (induction xs) auto

lemma drop_zero_sums:
  "sum_list (vals (filter (\<lambda>x. snd x \<noteq> 0) xs)) = sum_list (vals xs)"
  "sum_list (map abs (vals (filter (\<lambda>x. snd x \<noteq> 0) xs))) = sum_list (map abs (vals xs))"
  for xs :: "(string \<times> real) list"
  by (induction xs) auto

definition finite_limits :: "risk_limits \<Rightarrow> real \<Rightarrow> real \<Rightarrow> real \<Rightarrow> real \<Rightarrow> bool" where
  "finite_limits lims m g n c \<longleftrightarrow>
     lims = \<lparr>lim_max_position_weight = Fin m, lim_max_gross_exposure = Fin g,
             lim_max_net_exposure = Fin n, lim_max_sector_weight = Fin c\<rparr>
     \<and> 0 \<le> m \<and> 0 \<le> g \<and> 0 \<le> n \<and> 0 \<le> c"

lemma limited_book:
  assumes "finite_limits lims m g n c"
  shows "\<exists>ys. apply_risk_limits (fin_book rs) lims sectors = fin_book (filter (\<lambda>x. snd x \<noteq> 0) ys)
    \<and> shrinks rs ys \<and> (\<forall>y \<in> set ys. \<bar>snd y\<bar> \<le> m)
    \<and> sum_list (map abs (vals ys)) \<le> g \<and> \<bar>sum_list (vals ys)\<bar> \<le> n + 1 / 10 ^ 12"
proof -
  have l: "lims = \<lparr>lim_max_position_weight = Fin m, lim_max_gross_exposure = Fin g,
      lim_max_net_exposure = Fin n, lim_max_sector_weight = Fin c\<rparr>"
    and pos: "0 \<le> m" "0 \<le> g" "0 \<le> n" "0 \<le> c" using assms by (simp_all add: finite_limits_def)
  obtain y0 where y0: "map_vals (clip (- Fin m) (Fin m)) (fin_book rs) = fin_book y0" "shrinks rs y0"
    "\<forall>y \<in> set y0. \<bar>snd y\<bar> \<le> m" using clip_book [OF pos(1)] by blast
  obtain y1 where y1: "cap_gross (Fin g) (fin_book y0) = fin_book y1" "shrinks y0 y1"
    "sum_list (map abs (vals y1)) \<le> g" using cap_gross_book [OF pos(2)] by blast
  obtain y2 where y2: "(case sectors of None \<Rightarrow> fin_book y1
      | Some d \<Rightarrow> fold (cap_sector d (Fin c)) (remdups (vals d)) (fin_book y1)) = fin_book y2" "shrinks y1 y2"
    using cap_sectors_book [OF pos(4)] shrinks_refl by (cases sectors) force+
  obtain y3 where y3: "cap_net (Fin n) (fin_book y2) = fin_book y3" "shrinks y2 y3"
    "\<bar>sum_list (vals y3)\<bar> \<le> n + 1 / 10 ^ 12" using cap_net_book [OF pos(3)] by blast
  have "apply_risk_limits (fin_book rs) lims sectors = fin_book (filter (\<lambda>x. snd x \<noteq> 0) y3)"
  proof (cases "rs = []")
    case True
    then have "y3 = []" using y0(2) y1(2) y2(2) y3(2) by (auto simp: shrinks_def)
    then show ?thesis using True by (simp add: apply_risk_limits_def)
  next
    case False
    then show ?thesis
      unfolding apply_risk_limits_def Let_def l risk_limits.simps y0(1) y1(1) y2(1) y3(1) drop_zero_book
      by simp
  qed
  moreover have "shrinks y1 y3" using y2(2) y3(2) by (rule shrinks_trans)
  moreover from this have "shrinks y0 y3" using y1(2) shrinks_trans by blast
  moreover from this have "shrinks rs y3" using y0(2) shrinks_trans by blast
  ultimately show ?thesis
    using y0(3) y1(3) y3(3) shrinks_bound [of y0 y3] shrinks_gross [of y1 y3]
    by (intro exI [of _ y3]) (auto intro: order_trans)
qed

lemma sums_le_tol: "x \<le> a + 1 / 10 ^ 12 \<Longrightarrow> x \<le> a + 1 / 10 ^ (9::nat)" for x a :: real
  by (erule order_trans) simp

text \<open>C10: the risk layer is sound.  For finite limits that are not negative and whatever
  finite target it is given, \<open>apply_risk_limits\<close> returns a book
  that the engine's order check accepts for every name: no position, gross or net limit is
  broken; and it only ever shrinks, every weight being its input times a factor between 0 and 1,
  so no name is added and no sign flips.\<close>

theorem risk_limits_are_enforced:
  assumes "finite_limits lims m g n c" "distinct (keys rs)"
  shows "(\<forall>(s, w) \<in> set (apply_risk_limits (fin_book rs) lims sectors).
      check_order s w (others s (apply_risk_limits (fin_book rs) lims sectors)) lims = Inr ()
      \<and> (\<exists>r f. map_of rs s = Some r \<and> 0 \<le> f \<and> f \<le> 1 \<and> w = Fin (f * r)))"
proof -
  obtain ys where ys: "apply_risk_limits (fin_book rs) lims sectors = fin_book (filter (\<lambda>x. snd x \<noteq> 0) ys)"
    "shrinks rs ys" "\<forall>y \<in> set ys. \<bar>snd y\<bar> \<le> m" "sum_list (map abs (vals ys)) \<le> g"
    "\<bar>sum_list (vals ys)\<bar> \<le> n + 1 / 10 ^ 12" using limited_book [OF assms(1)] by blast
  let ?zs = "filter (\<lambda>x. snd x \<noteq> 0) ys"
  have book: "apply_risk_limits (fin_book rs) lims sectors = fin_book ?zs" by (rule ys(1))
  have "distinct (keys ys)" using assms(2) shrinks_keys [OF ys(2)] by simp
  then have d: "distinct (keys (fin_book ?zs))" by (simp add: distinct_filter_map)
  have lims: "lim_max_position_weight lims = Fin m" "lim_max_gross_exposure lims = Fin g"
    "lim_max_net_exposure lims = Fin n" using assms(1) by (simp_all add: finite_limits_def)
  have "sum_list (map abs (vals (fin_book ?zs))) = Fin (sum_list (map abs (vals ys)))"
    "sum_list (vals (fin_book ?zs)) = Fin (sum_list (vals ys))"
    by (simp_all add: vals_fin_book sum_list_Fin comp_def drop_zero_sums [unfolded map_map comp_def])
  then have "within_limits lims (fin_book ?zs)"
    using ys(3-5) sums_le_tol [OF ys(5)] unfolding within_limits_def lims
    by (fastforce simp: fin_book_def map_vals_def)
  then have ok: "\<forall>(s, w) \<in> set (fin_book ?zs). check_order s w (others s (fin_book ?zs)) lims = Inr ()"
    using check_all_within_limits [OF d] by blast
  have "\<exists>r f. map_of rs s = Some r \<and> 0 \<le> f \<and> f \<le> 1 \<and> w = Fin (f * r)" if sw: "(s, w) \<in> set (fin_book ?zs)" for s w
  proof -
    obtain y where y: "y \<in> set ys" "s = fst y" "w = Fin (snd y)"
      using sw by (auto simp: fin_book_def map_vals_def)
    from shrinks_member [OF ys(2) y(1)] obtain x f where x: "x \<in> set rs" "fst x = fst y" "0 \<le> f" "f \<le> 1"
      "snd y = f * snd x" by blast
    then have "map_of rs s = Some (snd x)" using assms(2) y(2) by (metis map_of_is_SomeI prod.collapse)
    then show ?thesis using x y(3) by auto
  qed
  then show ?thesis unfolding book using ok by blast
qed

lemma risk_limits_are_enforced_witness:
  "apply_risk_limits (fin_book [(''A'', 1 / 2), (''B'', - 3 / 10)]) default_limits None
     = [(''A'', Fin (1 / 10)), (''B'', Fin (- 1 / 10))]
   \<and> check_order ''A'' (Fin (1 / 10)) [(''B'', Fin (- 1 / 10))] default_limits = Inr ()"
proof -
  let ?b = "apply_risk_limits (fin_book [(''A'', 1 / 2), (''B'', - 3 / 10)]) default_limits None"
  have b: "?b = [(''A'', Fin (1 / 10)), (''B'', Fin (- 1 / 10))]"
  proof -
    have c: "map_vals (clip (- Fin (1 / 10)) (Fin (1 / 10))) (fin_book [(''A'', 1 / 2), (''B'', - 3 / 10)])
        = [(''A'', Fin (1 / 10)), (''B'', Fin (- 1 / 10))]"
      by (simp add: map_vals_def clip_def)
    have g: "cap_gross 1 [(''A'', Fin (1 / 10)), (''B'', Fin (- 1 / 10))]
        = [(''A'', Fin (1 / 10)), (''B'', Fin (- 1 / 10))]"
      by (simp add: cap_gross_def series_sum_def one_flt_def zero_flt_def)
    have n: "cap_net 1 [(''A'', Fin (1 / 10)), (''B'', Fin (- 1 / 10))]
        = [(''A'', Fin (1 / 10)), (''B'', Fin (- 1 / 10))]"
      by (simp add: cap_net_def series_sum_def one_flt_def zero_flt_def)
    show ?thesis
      unfolding apply_risk_limits_def default_limits_def risk_limits.simps Let_def c g option.case n by simp
  qed
  have "finite_limits default_limits (1 / 10) 1 1 (3 / 10)"
    by (simp add: finite_limits_def default_limits_def flt_consts)
  from risk_limits_are_enforced [OF this, of "[(''A'', 1 / 2), (''B'', - 3 / 10)]" None]
  show ?thesis unfolding b by (simp add: others_def)
qed

section \<open>Missing features\<close>

lemma zscore_missing: "i < length v \<Longrightarrow> v ! i = NaN \<Longrightarrow> cross_sectional_zscore v ! i = NaN"
  by (simp add: cross_sectional_zscore_def Let_def minus_flt_def)

lemma length_zscore [simp]: "length (cross_sectional_zscore v) = length v"
  by (simp add: cross_sectional_zscore_def Let_def)

lemma missing_terms:
  "\<forall>col \<in> set zs. col ! i = NaN \<Longrightarrow> filter (\<lambda>x. x \<noteq> NaN) (map2 (\<lambda>col v. col ! i * v) zs w) = []"
proof (induction zs arbitrary: w)
  case (Cons z zs)
  then show ?case by (cases w) simp_all
qed simp

text \<open>A name without any data is ranked, not dropped.  The composite sums a name's weighted z-scores
  skipping missing ones, so a name whose every feature is missing scores exactly zero, above
  every name with a negative score, and the cycle's \<open>dropna\<close> keeps it.\<close>

theorem missing_features_score_zero:
  assumes "distinct (fm_symbols m)" "i < length (fm_symbols m)"
    and "\<forall>(c, col) \<in> set (fm_columns m). length col = length (fm_symbols m) \<and> col ! i = NaN"
  shows "map_of (composite_score m weights quality decay) (fm_symbols m ! i) = Some 0"
proof -
  let ?n = "length (fm_symbols m)"
  let ?z = "map cross_sectional_zscore (vals (fm_columns m))"
  have missing: "col ! i = NaN" if "col \<in> set ?z" for col
    using that assms(2,3) by (auto simp: zscore_missing split_def)
  have zero: "series_sum (map2 (\<lambda>col v. col ! i * v) ?z w) = 0" for w
  proof -
    have "\<forall>col \<in> set ?z. col ! i = NaN" using missing by blast
    from missing_terms [OF this, of w] show ?thesis by (simp only: series_sum_def sum_list.Nil)
  qed
  obtain w where w: "composite_score m weights quality decay =
      map (\<lambda>(i, s). (s, series_sum (map2 (\<lambda>col v. col ! i * v) ?z w))) (enumerate 0 (fm_symbols m))"
    unfolding composite_score_def Let_def by blast
  have "(fm_symbols m ! i, 0) \<in> set (composite_score m weights quality decay)"
    unfolding w using zero [of w] assms(2) by (auto simp: in_set_enumerate_eq image_iff intro!: bexI [of _ "(i, fm_symbols m ! i)"])
  moreover have "keys (composite_score m weights quality decay) = fm_symbols m"
    unfolding w by (simp add: comp_def split_def)
  ultimately show ?thesis using assms(1) by (simp add: map_of_is_SomeI)
qed

lemma missing_features_score_zero_witness:
  "map_of (composite_score \<lparr>fm_symbols = [''OLD'', ''NEW''], fm_columns = [(''mom'', [Fin (- 1), NaN])]\<rparr>
     [(''mom'', 1)] None None) ''NEW'' = Some 0"
  using missing_features_score_zero
    [of "\<lparr>fm_symbols = [''OLD'', ''NEW''], fm_columns = [(''mom'', [Fin (- 1), NaN])]\<rparr>" 1 "[(''mom'', 1)]" None None]
  by simp

end
