(* ===== verification/Learning.thy ===== *)
theory Learning
  imports Allocation Signals Settings
begin

text \<open>
  The learning loop: the feature store (\<open>features/base.py\<close>), logging and grading of predictions
  (\<open>runtime/learning.py\<close>), the measured information coefficients (\<open>runtime/signal_ic.py\<close>) and the
  pluggable scorers (\<open>runtime/scoring.py\<close>).  \<open>corr\<close> is pandas' Pearson correlation of two columns, which
  leaves out the rows where either is missing.
\<close>

section \<open>features/base.py\<close>

record 's feature =
  ft_name :: string
  ft_compute :: "'s \<Rightarrow> datetime \<Rightarrow> string list \<Rightarrow> (string \<times> flt) list res"
  ft_from_panel :: "(panel \<Rightarrow> string list \<Rightarrow> (string \<times> flt) list res) option"

definition feature_column ::
  "'s \<Rightarrow> datetime \<Rightarrow> string list \<Rightarrow> 's feature \<Rightarrow> (string \<times> flt list) res" where
  "feature_column s as_of symbols f =
     (case ft_compute f s as_of symbols of
        Inl e \<Rightarrow> Inl e | Inr ser \<Rightarrow> Inr (ft_name f, map (dict_get NaN ser) symbols))"

definition compute_matrix :: "'s feature list \<Rightarrow> 's \<Rightarrow> datetime \<Rightarrow> string list \<Rightarrow> feature_matrix res" where
  "compute_matrix features s as_of symbols =
     (case map_res (feature_column s as_of symbols) features of
        Inl e \<Rightarrow> Inl e
      | Inr cols \<Rightarrow> Inr \<lparr>fm_symbols = symbols, fm_columns = dict_of fst snd cols\<rparr>)"

definition matrix_empty :: "feature_matrix \<Rightarrow> bool" where
  "matrix_empty m \<longleftrightarrow> fm_symbols m = [] \<or> fm_columns m = []"

definition price_feature ::
  "string \<Rightarrow> (panel \<Rightarrow> string list \<Rightarrow> (string \<times> flt) list res) \<Rightarrow> 's store_ops \<Rightarrow> 's feature" where
  "price_feature name f S =
     \<lparr>ft_name = name,
      ft_compute = (\<lambda>s as_of symbols. case store_panel S s as_of price_dataset ''close'' of
          Inl e \<Rightarrow> Inl e | Inr p \<Rightarrow> f p symbols),
      ft_from_panel = Some f\<rparr>"

definition store_feature ::
  "string \<Rightarrow> ('s \<Rightarrow> datetime \<Rightarrow> string list \<Rightarrow> (string \<times> flt) list res) \<Rightarrow> 's feature" where
  "store_feature name f = \<lparr>ft_name = name, ft_compute = f, ft_from_panel = None\<rparr>"

definition momentum_feature :: "nat \<Rightarrow> nat \<Rightarrow> 's store_ops \<Rightarrow> 's feature" where
  "momentum_feature lookback skip S =
     price_feature (''mom_'' @ nat_str lookback @ (if skip \<noteq> 0 then ''_skip'' @ nat_str skip else []))
       (momentum lookback skip) S"

definition volatility_feature :: "nat \<Rightarrow> bool \<Rightarrow> 's store_ops \<Rightarrow> 's feature" where
  "volatility_feature window low_vol S =
     price_feature ((if low_vol then ''lowvol'' else ''vol'') @ ''_'' @ nat_str window)
       (\<lambda>p symbols. Inr (volatility window low_vol p symbols)) S"

definition insider_feature :: "(pyval \<Rightarrow> string) \<Rightarrow> nat \<Rightarrow> bool \<Rightarrow> 's store_ops \<Rightarrow> 's feature" where
  "insider_feature rpr window opp S =
     store_feature (''insider_net_buys_'' @ nat_str window @ ''d'' @ (if opp then ''_opp'' else []))
       (\<lambda>s as_of symbols. Inr (map (\<lambda>(sy, v). (sy, Fin v))
          (insider_net_buys rpr S s (int window) opp as_of symbols)))"

definition congress_feature :: "nat \<Rightarrow> 's store_ops \<Rightarrow> 's feature" where
  "congress_feature window S =
     store_feature (''congress_lead_buys_'' @ nat_str window @ ''d'')
       (\<lambda>s as_of symbols. Inr (map (\<lambda>(sy, v). (sy, Fin v))
          (congress_leadership_buys S s (int window) as_of symbols)))"

definition default_features :: "(pyval \<Rightarrow> string) \<Rightarrow> 's store_ops \<Rightarrow> 's feature list" where
  "default_features rpr S =
     [momentum_feature 252 21 S, momentum_feature 60 0 S, volatility_feature 20 False S,
      insider_feature rpr 90 True S, congress_feature 120 S]"

definition candidate_features :: "(pyval \<Rightarrow> string) \<Rightarrow> 's store_ops \<Rightarrow> 's feature list" where
  "candidate_features rpr S =
     default_features rpr S @
     [insider_feature rpr 90 False S, volatility_feature 120 True S,
      store_feature ''earnings_yield'' (earnings_yield S),
      store_feature ''earnings_surprise'' (\<lambda>s. earnings_surprise S s 90 8),
      store_feature ''llm_news_sentiment_10d'' (\<lambda>s. llm_news_sentiment S s 10)]"

definition stack_features :: "(pyval \<Rightarrow> string) \<Rightarrow> 's store_ops \<Rightarrow> 's feature list" where
  "stack_features rpr S =
     [insider_feature rpr 90 True S,
      store_feature ''earnings_surprise'' (\<lambda>s. earnings_surprise S s 90 8),
      store_feature ''earnings_yield'' (earnings_yield S),
      momentum_feature 252 21 S, volatility_feature 120 True S]"

definition news_features :: "int \<Rightarrow> 's store_ops \<Rightarrow> 's feature list" where
  "news_features window S =
     [store_feature (''news_attention_'' @ int_str window)
        (\<lambda>s as_of symbols. Inr (map (\<lambda>(sy, v). (sy, Fin v)) (news_attention S s window as_of symbols))),
      store_feature (''news_tone_'' @ int_str window) (\<lambda>s. news_sentiment S s window)]"

section \<open>learning.py: logging\<close>

text \<open>pandas' \<open>rank\<close>: ties share the average of their places, missing values stay missing.\<close>

definition average_rank :: "flt list \<Rightarrow> flt \<Rightarrow> real" where
  "average_rank xs x =
     real (length (filter (\<lambda>y. y < x) xs)) + (real (length (filter (\<lambda>y. y = x) xs)) + 1) / 2"

definition ranks :: "flt list \<Rightarrow> flt list" where
  "ranks xs = (let ys = filter (\<lambda>x. x \<noteq> NaN) xs
     in map (\<lambda>x. if x = NaN then NaN else Fin (average_rank ys x)) xs)"

text \<open>\<open>portfolio/weighting.py\<close>: the Spearman coefficient over the names that have both values.\<close>

definition information_coefficient ::
  "(flt list \<Rightarrow> flt list \<Rightarrow> flt) \<Rightarrow> (string, flt) dict \<Rightarrow> (string, flt) dict \<Rightarrow> flt" where
  "information_coefficient corr signal forward =
     (let rows = filter (\<lambda>(a, b). a \<noteq> NaN \<and> b \<noteq> NaN) (map (\<lambda>(k, v). (v, dict_get NaN forward k)) signal)
      in if length rows < 3 then NaN else corr (ranks (map fst rows)) (ranks (map snd rows)))"

definition feature_row :: "feature_matrix \<Rightarrow> string \<Rightarrow> (string, flt) dict" where
  "feature_row m sy =
     filter (\<lambda>(c, v). v \<noteq> NaN) (map (\<lambda>(c, col). (c, dict_get NaN (zip (fm_symbols m) col) sy)) (fm_columns m))"

definition cycle_prediction ::
  "(string, flt) dict \<Rightarrow> feature_matrix \<Rightarrow> datetime \<Rightarrow> string \<Rightarrow> int \<Rightarrow> string \<Rightarrow> prediction" where
  "cycle_prediction ranked m as_of model_version horizon_days sy =
     \<lparr>pr_as_of = as_of, pr_symbol = sy,
      pr_probability = Fin (average_rank (vals ranked) (dict_get NaN ranked sy) / real (length ranked)),
      pr_horizon_days = horizon_days, pr_model_version = model_version, pr_features = feature_row m sy\<rparr>"

definition log_cycle_predictions ::
  "'s store_ops \<Rightarrow> datetime \<Rightarrow> (string, flt) dict \<Rightarrow> feature_matrix \<Rightarrow> datetime \<Rightarrow> string \<Rightarrow> int \<Rightarrow> 's
   \<Rightarrow> 's \<times> int" where
  "log_cycle_predictions S now scores m as_of model_version horizon_days s =
     (let ranked = filter (\<lambda>(sy, v). v \<noteq> NaN) scores in
      if ranked = [] then (s, 0)
      else log_predictions S now
             (map (cycle_prediction ranked m as_of model_version horizon_days) (keys ranked)) s)"

section \<open>learning.py: grading\<close>

record grading =
  gr_n :: nat
  gr_brier :: real
  gr_hit_rate :: real
  gr_ic :: "(string, flt) dict"
  gr_kept :: "string list"
  gr_pruned :: "string list"

definition graded_group ::
  "panel \<Rightarrow> nat \<Rightarrow> datetime \<times> prediction list \<Rightarrow> (prediction \<times> flt) list" where
  "graded_group p horizon tg =
     (let forward = (if panel_empty p then [] else forward_returns_at p (fst tg) horizon)
      in List.map_filter (\<lambda>q. case map_of forward (pr_symbol q) of
             None \<Rightarrow> None | Some r \<Rightarrow> if r = NaN then None else Some (q, r)) (snd tg))"

definition graded_predictions :: "panel \<Rightarrow> nat \<Rightarrow> prediction list \<Rightarrow> (prediction \<times> flt) list" where
  "graded_predictions p horizon preds = concat (map (graded_group p horizon) (group_by pr_as_of preds))"

definition feature_names :: "(string, flt) dict list \<Rightarrow> string list" where
  "feature_names fs = keys (dict_of id id (concat (map keys fs)))"

definition signal_ics ::
  "(flt list \<Rightarrow> flt list \<Rightarrow> flt) \<Rightarrow> (string, flt) dict list \<Rightarrow> flt list \<Rightarrow> (string, flt) dict" where
  "signal_ics corr fs rets =
     (let col = (\<lambda>c. map (\<lambda>f. dict_get NaN f c) fs)
      in filter (\<lambda>(c, v). v \<noteq> NaN)
           (map (\<lambda>c. (c, corr (col c) rets)) (filter (\<lambda>c. 0 < series_std 1 (col c)) (feature_names fs))))"

definition grade_predictions ::
  "(flt list \<Rightarrow> flt list \<Rightarrow> flt) \<Rightarrow> (pyval \<Rightarrow> string) \<Rightarrow> 's store_ops \<Rightarrow> 's \<Rightarrow> datetime \<Rightarrow> nat \<Rightarrow> string option
   \<Rightarrow> real \<Rightarrow> grading res" where
  "grade_predictions corr rpr S s as_of horizon_days model_version min_abs_ic =
     (case load_predictions rpr S s as_of model_version of Inl e \<Rightarrow> Inl e | Inr preds \<Rightarrow>
      case store_panel S s DISTANT_FUTURE price_dataset ''close'' of Inl e \<Rightarrow> Inl e | Inr p \<Rightarrow>
        let graded = graded_predictions p horizon_days preds in
        if graded = []
        then Inr \<lparr>gr_n = 0, gr_brier = 0, gr_hit_rate = 0, gr_ic = [], gr_kept = [], gr_pruned = []\<rparr>
        else
          let probs = map (\<lambda>(q, r). flt_val (pr_probability q)) graded;
              labels = map (\<lambda>(q, r). if 0 < r then 1 else 0 :: real) graded;
              ic = signal_ics corr (map (pr_features \<circ> fst) graded) (map snd graded);
              split = prune_signals_by_ic (map_vals (\<lambda>v. \<bar>flt_val v\<bar>) ic) min_abs_ic;
              hits = length (filter (\<lambda>(p, l). (if 1 / 2 < p then 1 else 0) = l) (zip probs labels))
          in Inr \<lparr>gr_n = length graded, gr_brier = brier_score probs labels,
                  gr_hit_rate = real hits / real (length graded), gr_ic = ic,
                  gr_kept = fst split, gr_pruned = snd split\<rparr>)"

section \<open>signal_ic.py\<close>

record signal_ic =
  si_signal :: string
  si_n_dates :: nat
  si_n_obs :: nat
  si_mean_ic :: flt
  si_ic_std :: flt
  si_ic_t_stat :: flt
  si_hit_rate :: flt

definition summarize_ic :: "string \<Rightarrow> flt list \<Rightarrow> nat \<Rightarrow> signal_ic" where
  "summarize_ic signal ics n_obs =
     (let n = length ics; mean = fmean ics;
          sd = (if 1 < n then fstd ics else 0);
          t = (if 1 < n \<and> 0 < sd then fdiv mean (fdiv sd (Fin (sqrt (real n))))
               else if 1 < n \<and> mean \<noteq> 0 then (if 0 < mean then PInf else NInf)
               else 0)
      in \<lparr>si_signal = signal, si_n_dates = n, si_n_obs = n_obs, si_mean_ic = mean, si_ic_std = sd,
          si_ic_t_stat = t, si_hit_rate = Fin (real (length (filter (\<lambda>x. 0 < x) ics)) / real n)\<rparr>)"

fun every_nth :: "nat \<Rightarrow> nat \<Rightarrow> 'a list \<Rightarrow> 'a list" where
  "every_nth step k [] = []"
| "every_nth step k (x # xs) =
     (if k = 0 then x # every_nth step (step - 1) xs else every_nth step (k - 1) xs)"

definition decision_dates :: "datetime list \<Rightarrow> nat \<Rightarrow> nat \<Rightarrow> nat \<Rightarrow> datetime option \<Rightarrow> datetime list" where
  "decision_dates index warmup every max_dates since =
     (let ds = tail_of max_dates (every_nth every 0 (drop warmup index))
      in case since of None \<Rightarrow> ds | Some d0 \<Rightarrow> filter (\<lambda>d. d0 \<le> d) ds)"

definition ic_column ::
  "'s feature \<Rightarrow> 's \<Rightarrow> panel \<Rightarrow> datetime \<Rightarrow> string list \<Rightarrow> (string \<times> flt list) res" where
  "ic_column f s price_slice d syms =
     (case (case ft_from_panel f of Some g \<Rightarrow> g price_slice syms | None \<Rightarrow> ft_compute f s d syms) of
        Inl e \<Rightarrow> Inl e | Inr ser \<Rightarrow> Inr (ft_name f, map (dict_get NaN ser) syms))"

text \<open>The rank correlations of one decision date, with the number of names scored.\<close>

definition date_ics ::
  "(flt list \<Rightarrow> flt list \<Rightarrow> flt) \<Rightarrow> 's feature list \<Rightarrow> 's \<Rightarrow> panel \<Rightarrow> string list \<Rightarrow> nat \<Rightarrow> nat \<Rightarrow> datetime
   \<Rightarrow> (string \<times> flt \<times> nat) list res" where
  "date_ics corr features s p syms horizon_days min_names d =
     (let fwd = forward_returns_at p d horizon_days in
      if fwd = [] then Inr []
      else case map_res (\<lambda>f. ic_column f s (panel_slice p d) d syms) features of
        Inl e \<Rightarrow> Inl e
      | Inr cs \<Rightarrow>
          let cols = dict_of fst snd cs;
              picked = filter (\<lambda>i. dict_get NaN fwd (syms ! i) \<noteq> NaN) [0..<length syms];
              ranked_fwd = ranks (map (\<lambda>i. dict_get NaN fwd (syms ! i)) picked)
          in if cols = [] \<or> syms = [] \<or> length picked < min_names then Inr []
             else Inr (List.map_filter (\<lambda>(c, col).
               let v = map (\<lambda>i. col ! i) picked; sd = series_std 1 v; ic = corr (ranks v) ranked_fwd
               in if length (filter (\<lambda>x. x \<noteq> NaN) v) < min_names \<or> sd = NaN \<or> sd = Fin 0 \<or> ic = NaN
                  then None else Some (c, ic, length picked)) cols))"

definition measure_signal_ic ::
  "(flt list \<Rightarrow> flt list \<Rightarrow> flt) \<Rightarrow> 's store_ops \<Rightarrow> 's \<Rightarrow> 's feature list \<Rightarrow> string list \<Rightarrow> datetime \<Rightarrow> nat \<Rightarrow> nat
   \<Rightarrow> nat \<Rightarrow> nat \<Rightarrow> nat \<Rightarrow> datetime option \<Rightarrow> (string, signal_ic) dict res" where
  "measure_signal_ic corr S s features symbols as_of horizon_days every warmup max_dates min_names since =
     (case store_panel S s as_of price_dataset ''close'' of Inl e \<Rightarrow> Inl e | Inr p \<Rightarrow>
        if panel_empty p then Inr []
        else case map_res (date_ics corr features s p symbols horizon_days min_names)
               (decision_dates (panel_index p) warmup every max_dates since) of
          Inl e \<Rightarrow> Inl e
        | Inr per_date \<Rightarrow>
            let by_signal = group_by fst (concat per_date)
            in Inr (map (\<lambda>(c, rs). (c, summarize_ic c (map (fst \<circ> snd) rs) (sum_list (map (snd \<circ> snd) rs))))
                      by_signal))"

section \<open>scoring.py\<close>

type_synonym score_fn = "feature_matrix \<Rightarrow> datetime \<Rightarrow> (string, flt) dict res"

definition composite_scorer :: "(flt list \<Rightarrow> flt list \<Rightarrow> flt) \<Rightarrow> bool \<Rightarrow> score_fn" where
  "composite_scorer corr orthogonalize m decided =
     Inr (composite_score m (equal_weights (keys (fm_columns m)))
       (if orthogonalize then Some (orthogonality_penalty corr m) else None) None)"

definition ic_weighted_scorer ::
  "(flt list \<Rightarrow> flt list \<Rightarrow> flt) \<Rightarrow> (string, flt) dict \<Rightarrow> flt \<Rightarrow> bool \<Rightarrow> score_fn" where
  "ic_weighted_scorer corr ic min_abs_ic orthogonalize m decided =
     (let names = keys (fm_columns m);
          ics0 = map (\<lambda>c. (c, dict_get 0 ic c)) names;
          ics = (if 0 < min_abs_ic then map_vals (\<lambda>v. if min_abs_ic \<le> \<bar>v\<bar> then v else 0) ics0 else ics0);
          quality = (if orthogonalize then Some (orthogonality_penalty corr m) else None);
          weights = (if series_sum (map abs (vals ics)) = Fin 0 then equal_weights names
                     else ic_weights ics (Fin (1 / 2)))
      in Inr (composite_score m weights quality None))"

definition training_schedule :: "'s store_ops \<Rightarrow> 's \<Rightarrow> datetime \<Rightarrow> nat \<Rightarrow> nat \<Rightarrow> datetime list res" where
  "training_schedule S s as_of every max_dates =
     (case store_panel S s as_of price_dataset ''close'' of Inl e \<Rightarrow> Inl e | Inr p \<Rightarrow>
        Inr (if panel_empty p then [] else tail_of max_dates (every_nth every 0 (panel_index p))))"

text \<open>\<open>forecaster\<close> is the trained ensemble's scorer (scikit-learn).\<close>

definition build_scorer ::
  "(flt list \<Rightarrow> flt list \<Rightarrow> flt) \<Rightarrow> score_fn res \<Rightarrow> settings \<Rightarrow> (string, flt) dict option \<Rightarrow> score_fn res" where
  "build_scorer corr forecaster st ic =
     (if lower (strip (scorer st)) = ''forecast'' then forecaster
      else case (if ic_weighting st then ic else None) of
             Some (x # xs) \<Rightarrow> Inr (ic_weighted_scorer corr (x # xs) (Fin (ic_min_abs st)) (orthogonalize_signals st))
           | _ \<Rightarrow> Inr (composite_scorer corr (orthogonalize_signals st)))"

section \<open>What is logged and graded\<close>

lemma length_filter_disjoint:
  "(\<And>x. x \<in> set xs \<Longrightarrow> \<not> (P x \<and> Q x)) \<Longrightarrow>
   length (filter P xs) + length (filter Q xs) = length (filter (\<lambda>x. P x \<or> Q x) xs)"
  by (induction xs) auto

lemma below_count:
  "length (filter (\<lambda>y. y < x) xs) + length (filter (\<lambda>y. y = x) xs) = length (filter (\<lambda>y. y < x \<or> y = x) xs)"
  for xs :: "flt list"
  by (rule length_filter_disjoint) auto

lemma half_rank:
  fixes a b n c d :: nat
  assumes "1 \<le> b" "a + b \<le> n"
  shows "1 \<le> real a + (real b + 1) / 2" "real a + (real b + 1) / 2 \<le> real n"
    "1 \<le> d \<Longrightarrow> real a + (real b + 1) / 2 < real n + (real d + 1) / 2"
proof -
  have "1 \<le> real b" "real a + real b \<le> real n"
    using assms by (simp_all flip: of_nat_add)
  then show "1 \<le> real a + (real b + 1) / 2" "real a + (real b + 1) / 2 \<le> real n"
    by (simp_all add: field_simps)
  assume "1 \<le> d"
  then have "1 \<le> real d" by simp
  then show "real a + (real b + 1) / 2 < real n + (real d + 1) / 2"
    using \<open>1 \<le> real b\<close> \<open>real a + real b \<le> real n\<close> by (simp add: field_simps)
qed

lemma counted: "x \<in> set xs \<Longrightarrow> 1 \<le> length (filter (\<lambda>y. y = x) xs)"
  by (induction xs) auto

lemma average_rank_bounds:
  assumes "x \<in> set xs"
  shows "1 \<le> average_rank xs x \<and> average_rank xs x \<le> real (length xs)"
proof -
  have "length (filter (\<lambda>y. y < x) xs) + length (filter (\<lambda>y. y = x) xs) \<le> length xs"
    unfolding below_count by (rule length_filter_le)
  with counted [OF assms] show ?thesis unfolding average_rank_def using half_rank by blast
qed

lemma length_filter_mono: "(\<And>x. P x \<Longrightarrow> Q x) \<Longrightarrow> length (filter P xs) \<le> length (filter Q xs)"
  by (induction xs) (auto simp: le_SucI)

lemma average_rank_mono:
  assumes "x < y" "x \<in> set xs" "y \<in> set xs"
  shows "average_rank xs x < average_rank xs y"
proof -
  have "length (filter (\<lambda>z. z < x \<or> z = x) xs) \<le> length (filter (\<lambda>z. z < y) xs)"
    using assms(1) le_less_flt_trans less_imp_le_flt by (intro length_filter_mono) blast
  then have le: "length (filter (\<lambda>z. z < x) xs) + length (filter (\<lambda>z. z = x) xs) \<le> length (filter (\<lambda>z. z < y) xs)"
    by (simp add: below_count)
  show ?thesis
    unfolding average_rank_def using half_rank(3) [OF counted [OF assms(2)] le counted [OF assms(3)]] .
qed

text \<open>A cycle logs ranks, not forecasts.  The probability recorded for a ranked name is a number in the
  interval from 0 (excluded) to 1, and a higher score always gets a higher probability, equal
  scores the same one.\<close>

theorem logged_probability_is_a_rank:
  assumes "distinct (keys ranked)" "(a, u) \<in> set ranked" "(b, v) \<in> set ranked"
  shows "(\<exists>p. pr_probability (cycle_prediction ranked m t mv h a) = Fin p \<and> 0 < p \<and> p \<le> 1)
    \<and> (u < v \<longrightarrow> pr_probability (cycle_prediction ranked m t mv h a)
                 < pr_probability (cycle_prediction ranked m t mv h b))
    \<and> (u = v \<longrightarrow> pr_probability (cycle_prediction ranked m t mv h a)
                 = pr_probability (cycle_prediction ranked m t mv h b))"
proof -
  have at_a: "dict_get NaN ranked a = u" and at_b: "dict_get NaN ranked b = v"
    using assms by (simp_all add: map_of_is_SomeI)
  have n: "0 < real (length ranked)" using assms(2) by (cases ranked) auto
  have "v \<in> set (vals ranked)" "u \<in> set (vals ranked)" using assms(2,3) by force+
  then have "1 \<le> average_rank (vals ranked) u" "average_rank (vals ranked) u \<le> real (length ranked)"
    and mono: "u < v \<Longrightarrow> average_rank (vals ranked) u < average_rank (vals ranked) v"
    using average_rank_bounds [of u "vals ranked"] average_rank_mono [of u v "vals ranked"] by simp_all
  then show ?thesis
    using n mono by (auto simp: cycle_prediction_def at_a at_b divide_strict_right_mono)
qed

lemma logged_probability_is_a_rank_witness:
  "pr_probability (cycle_prediction [(''A'', 3), (''B'', PInf)] \<lparr>fm_symbols = [], fm_columns = []\<rparr> 0 [] 5 ''A'')
     = Fin (1 / 2)
   \<and> pr_probability (cycle_prediction [(''A'', 3), (''B'', PInf)] \<lparr>fm_symbols = [], fm_columns = []\<rparr> 0 [] 5 ''A'')
     < pr_probability (cycle_prediction [(''A'', 3), (''B'', PInf)] \<lparr>fm_symbols = [], fm_columns = []\<rparr> 0 [] 5 ''B'')"
proof
  show "pr_probability (cycle_prediction [(''A'', 3), (''B'', PInf)] \<lparr>fm_symbols = [], fm_columns = []\<rparr> 0 [] 5 ''A'')
     = Fin (1 / 2)"
    by (simp add: cycle_prediction_def average_rank_def flt_consts)
  show "pr_probability (cycle_prediction [(''A'', 3), (''B'', PInf)] \<lparr>fm_symbols = [], fm_columns = []\<rparr> 0 [] 5 ''A'')
     < pr_probability (cycle_prediction [(''A'', 3), (''B'', PInf)] \<lparr>fm_symbols = [], fm_columns = []\<rparr> 0 [] 5 ''B'')"
    using logged_probability_is_a_rank [of "[(''A'', 3), (''B'', PInf)]" "''A''" 3 "''B''" PInf]
    by (simp add: flt_consts)
qed

lemma in_group_by: "(k, ys) \<in> set (group_by f xs) \<Longrightarrow> y \<in> set ys \<Longrightarrow> y \<in> set xs \<and> f y = k"
  using map_of_is_SomeI [OF distinct_group_by, of k ys f xs] by (auto simp: map_of_group_by split: if_splits)

text \<open>The realised return of a name: the compounded changes over its first \<open>h\<close> bars after \<open>t\<close>, where a bar
  without a price counts as no change.\<close>

definition bars_after :: "panel \<Rightarrow> datetime \<Rightarrow> panel" where
  "bars_after p t = p\<lparr>pn_rows := filter (\<lambda>r. t < fst r) (pn_rows p)\<rparr>"

definition realised_return :: "panel \<Rightarrow> datetime \<Rightarrow> nat \<Rightarrow> string \<Rightarrow> flt" where
  "realised_return p t h c =
     foldl (\<lambda>acc v. acc * (1 + (if v = NaN then 0 else v))) 1 (take h (column (bars_after (pct_change p) t) c)) - 1"

lemma forward_returns_read:
  "map_of (forward_returns_at p t h) c =
     (if h \<le> length (filter (\<lambda>d. t < d) (panel_index p)) \<and> c \<in> set (pn_columns p)
      then Some (realised_return p t h c) else None)"
proof -
  have fold: "foldl (*) 1 (map (\<lambda>v. 1 + (if v = NaN then 0 else v)) xs)
      = foldl (\<lambda>acc v. acc * (1 + (if v = NaN then 0 else v))) 1 xs" for xs :: "flt list"
    by (simp add: foldl_map)
  have "length (filter (\<lambda>r. t < fst r) (pn_rows (pct_change p))) = length (filter (\<lambda>d. t < d) (panel_index (pct_change p)))"
    by (simp add: panel_index_def filter_map comp_def)
  then have bars: "length (filter (\<lambda>r. t < fst r) (pn_rows (pct_change p))) = length (filter (\<lambda>d. t < d) (panel_index p))"
    by (simp only: pct_change_index)
  have cut: "column (pct_change p\<lparr>pn_rows := take h (filter (\<lambda>r. t < fst r) (pn_rows (pct_change p)))\<rparr>) c
      = take h (column (bars_after (pct_change p) t) c)"
    by (simp add: column_def bars_after_def take_map)
  have graph: "map_of (map (\<lambda>c. (c, f c)) cs) c = (if c \<in> set cs then Some (f c) else None)" for f :: "string \<Rightarrow> flt" and cs
    by (induction cs) auto
  show ?thesis
    unfolding forward_returns_at_def Let_def length_take bars fold realised_return_def by (auto simp: graph cut)
qed

lemma graded_group_iff:
  "(q, r) \<in> set (graded_group p h (t, qs)) \<longleftrightarrow>
     q \<in> set qs \<and> \<not> panel_empty p \<and> map_of (forward_returns_at p t h) (pr_symbol q) = Some r \<and> r \<noteq> NaN"
  unfolding graded_group_def by (auto simp: map_filter_def Let_def image_iff split: option.splits if_splits)

lemma graded_iff:
  "(q, r) \<in> set (graded_predictions p h preds) \<longleftrightarrow>
     q \<in> set preds \<and> \<not> panel_empty p \<and> map_of (forward_returns_at p (pr_as_of q) h) (pr_symbol q) = Some r \<and> r \<noteq> NaN"
proof
  assume "(q, r) \<in> set (graded_predictions p h preds)"
  then obtain t qs where g: "(t, qs) \<in> set (group_by pr_as_of preds)" "(q, r) \<in> set (graded_group p h (t, qs))"
    unfolding graded_predictions_def by auto
  then show "q \<in> set preds \<and> \<not> panel_empty p \<and> map_of (forward_returns_at p (pr_as_of q) h) (pr_symbol q) = Some r \<and> r \<noteq> NaN"
    using in_group_by [OF g(1), of q] by (simp add: graded_group_iff)
next
  assume q: "q \<in> set preds \<and> \<not> panel_empty p \<and> map_of (forward_returns_at p (pr_as_of q) h) (pr_symbol q) = Some r \<and> r \<noteq> NaN"
  then have "map_of (group_by pr_as_of preds) (pr_as_of q) = Some (filter (\<lambda>x. pr_as_of x = pr_as_of q) preds)"
    by (auto simp: map_of_group_by)
  from map_of_SomeD [OF this] show "(q, r) \<in> set (graded_predictions p h preds)"
    unfolding graded_predictions_def using q by (force simp: graded_group_iff)
qed

text \<open>C26: no prediction is graded before the grader's horizon.  For the number \<open>h\<close> of bars the grader is called with (the
  horizon recorded with a prediction is not looked at), a prediction is graded exactly when the panel
  holds \<open>h\<close> bars strictly after its decision and a column for its name; the grade is the return compounded over the first \<open>h\<close> of
  them, in which a bar without a price counts as no change, so a name that stopped being priced is graded too, with zero for the bars it misses; and no grade is a NaN.\<close>

theorem grades_wait_for_the_horizon:
  "(q, r) \<in> set (graded_predictions p h preds) \<longleftrightarrow>
     q \<in> set preds \<and> \<not> panel_empty p \<and> pr_symbol q \<in> set (pn_columns p)
     \<and> h \<le> length (filter (\<lambda>d. pr_as_of q < d) (panel_index p))
     \<and> r = realised_return p (pr_as_of q) h (pr_symbol q) \<and> r \<noteq> NaN"
  unfolding graded_iff forward_returns_read by auto

definition sample_prediction :: prediction where
  "sample_prediction = \<lparr>pr_as_of = 1, pr_symbol = ''A'', pr_probability = 1, pr_horizon_days = 1,
     pr_model_version = [], pr_features = []\<rparr>"

definition two_bars :: panel where
  "two_bars = \<lparr>pn_columns = [''A'', ''B''], pn_rows = [(1, [Fin 20, Fin 7]), (2, [Fin 22, NaN])]\<rparr>"

lemma two_bars_change: "pct_change two_bars = \<lparr>pn_columns = [''A'', ''B''], pn_rows = [(1, [NaN, NaN]), (2, [Fin (1 / 10), NaN])]\<rparr>"
  by (simp add: two_bars_def pct_change_def flt_simps Let_def)

lemma grades_wait_for_the_horizon_witness:
  "(sample_prediction, Fin (1 / 10)) \<in> set (graded_predictions two_bars 1 [sample_prediction])
   \<and> (sample_prediction, Fin (1 / 10)) \<notin> set (graded_predictions two_bars 2 [sample_prediction])"
proof -
  have "realised_return two_bars 1 1 ''A'' = Fin (1 / 10)"
    by (simp add: realised_return_def two_bars_change bars_after_def column_def flt_simps)
  then show ?thesis unfolding grades_wait_for_the_horizon
    by (simp add: sample_prediction_def two_bars_def panel_empty_def panel_index_def)
qed

text \<open>A name without a price in the whole window is graded as unchanged.\<close>

lemma unpriced_name_is_graded_zero:
  assumes "\<forall>v \<in> set (take h (column (bars_after (pct_change p) t) c)). v = NaN"
  shows "realised_return p t h c = 0"
proof -
  have "foldl (\<lambda>acc v. acc * (1 + (if v = NaN then 0 else v))) 1 xs = 1" if "\<forall>v \<in> set xs. v = NaN" for xs :: "flt list"
    using that by (induction xs rule: rev_induct) (simp_all add: flt_simps)
  with assms show ?thesis by (simp add: realised_return_def flt_simps)
qed

end
