(* ===== verification/Cycle.thy ===== *)
theory Cycle
  imports Learning Sleeves
begin

text \<open>
  \<open>runtime/cycle.py\<close>: one paper-trading cycle end to end.  A cycle changes the store \<open>s\<close> and the broker
  \<open>b\<close>; both are returned with its result or its exception.  The universe has no repeated symbol.
  What the cycle takes from pandas, scikit-learn and Python is collected in \<open>library\<close>: the order
  of \<open>sort_values\<close> (ties are in no fixed order), the iteration order of a set of strings, the
  Ledoit-Wolf estimate, the correlation and \<open>repr\<close>.
\<close>

record library =
  lb_sort_descending :: "(string, flt) dict \<Rightarrow> (string, flt) dict"
  lb_set_order :: "string set \<Rightarrow> string list"
  lb_cov :: "panel \<Rightarrow> flt list list"
  lb_corr :: "flt list \<Rightarrow> flt list \<Rightarrow> flt"
  lb_repr :: "pyval \<Rightarrow> string"

definition library_ok :: "library \<Rightarrow> bool" where
  "library_ok L \<longleftrightarrow> (\<forall>d. mset (lb_sort_descending L d) = mset d)
     \<and> (\<forall>A. finite A \<longrightarrow> set (lb_set_order L A) = A \<and> distinct (lb_set_order L A))"

section \<open>Selection\<close>

definition select_with_hysteresis ::
  "string list \<Rightarrow> string set \<Rightarrow> int \<Rightarrow> int \<Rightarrow> int option \<Rightarrow> string list" where
  "select_with_hysteresis ranked held_names enter_k exit_k cap =
     (let keep = set (py_head exit_k ranked);
          entrants = py_head enter_k ranked;
          held_kept = filter (\<lambda>s. s \<in> held_names \<and> s \<in> keep) ranked;
          selected = held_kept @ filter (\<lambda>s. s \<notin> held_names) entrants
      in case cap of None \<Rightarrow> selected | Some c \<Rightarrow> py_head c selected)"

section \<open>Exit discipline\<close>

definition loss_hit :: "(string, flt) dict \<Rightarrow> flt \<Rightarrow> position \<Rightarrow> bool" where
  "loss_hit prices pct p \<longleftrightarrow>
     (case map_of prices (ps_symbol p) of
        None \<Rightarrow> False
      | Some px \<Rightarrow> flt_truthy px \<and> 0 < ps_avg_price p \<and> 0 < ps_qty p \<and> fdiv px (ps_avg_price p) - 1 \<le> - pct)"

definition stop_losses :: "position list \<Rightarrow> (string, flt) dict \<Rightarrow> flt \<Rightarrow> string set" where
  "stop_losses ps prices pct =
     (if pct \<le> 0 then {} else set (map ps_symbol (filter (loss_hit prices pct) ps)))"

definition series_max :: "flt list \<Rightarrow> flt" where
  "series_max xs = (case filter (\<lambda>x. x \<noteq> NaN) xs of [] \<Rightarrow> NaN | y # ys \<Rightarrow> foldl py_max y ys)"

definition series_min :: "flt list \<Rightarrow> flt" where
  "series_min xs = (case filter (\<lambda>x. x \<noteq> NaN) xs of [] \<Rightarrow> NaN | y # ys \<Rightarrow> foldl py_min y ys)"

definition breakdown_hit :: "panel \<Rightarrow> (string, flt) dict \<Rightarrow> flt \<Rightarrow> nat \<Rightarrow> position \<Rightarrow> bool" where
  "breakdown_hit p prices pct window pos \<longleftrightarrow>
     (case map_of prices (ps_symbol pos) of
        None \<Rightarrow> False
      | Some px \<Rightarrow>
          \<not> ps_qty pos \<le> 0 \<and> flt_truthy px \<and> ps_symbol pos \<in> set (pn_columns p)
          \<and> (let recent = filter (\<lambda>v. v \<noteq> NaN) (tail_of window (column p (ps_symbol pos)));
                 peak = series_max recent
             in recent \<noteq> [] \<and> 0 < peak \<and> fdiv px peak - 1 \<le> - pct))"

definition trailing_stops ::
  "'s store_ops \<Rightarrow> 's \<Rightarrow> datetime \<Rightarrow> position list \<Rightarrow> (string, flt) dict \<Rightarrow> flt \<Rightarrow> nat \<Rightarrow> string set res" where
  "trailing_stops S s as_of ps prices pct window =
     (if pct \<le> 0 then Inr {}
      else case store_panel S s as_of price_dataset ''close'' of
        Inl e \<Rightarrow> Inl e
      | Inr p \<Rightarrow> Inr (if panel_empty p then {}
                       else set (map ps_symbol (filter (breakdown_hit p prices pct window) ps))))"

definition thesis_break_exits ::
  "'s store_ops \<Rightarrow> 's \<Rightarrow> datetime \<Rightarrow> position list \<Rightarrow> flt \<Rightarrow> string set res" where
  "thesis_break_exits S s as_of ps threshold =
     (let longs = map ps_symbol (filter (\<lambda>p. 0 < ps_qty p) ps) in
      if threshold \<le> 0 \<or> longs = [] then Inr {}
      else case llm_news_sentiment S s 10 as_of longs of
        Inl e \<Rightarrow> Inl e
      | Inr sentiment \<Rightarrow> Inr (set (filter (\<lambda>sy. dict_get 0 sentiment sy \<le> - threshold) longs)))"

section \<open>Weights\<close>

definition flat_weights :: "string list \<Rightarrow> weights" where
  "flat_weights selected = map (\<lambda>s. (s, Fin (1 / real (length selected)))) selected"

definition conviction_weights :: "string list \<Rightarrow> (string, flt) dict \<Rightarrow> weights option" where
  "conviction_weights selected scores =
     (let s0 = map (\<lambda>sy. fill0 (dict_get NaN scores sy)) selected;
          s1 = map (\<lambda>x. x - series_min s0) s0;
          lift = (if 0 < series_max s1 then series_max s1 * Fin (1 / 10) else 1);
          s2 = map (\<lambda>x. x + lift) s1;
          total = series_sum s2
      in if 0 < total then Some (zip selected (map (\<lambda>x. fdiv x total) s2)) else None)"

definition inverse_vol_weights :: "string list \<Rightarrow> feature_matrix \<Rightarrow> weights option" where
  "inverse_vol_weights selected m =
     (case filter (\<lambda>cv. starts_with ''vol_'' (fst cv)) (fm_columns m) of
        [] \<Rightarrow> None
      | cv # _ \<Rightarrow>
          map_option (zip selected)
            (inverse_vol_shares (map (dict_get NaN (zip (fm_symbols m) (snd cv))) selected)))"

definition risk_weights ::
  "string list \<Rightarrow> feature_matrix \<Rightarrow> string \<Rightarrow> (string, flt) dict option \<Rightarrow> weights" where
  "risk_weights selected m mode scores =
     (if selected = [] then []
      else case (if mode = ''conviction'' then Option.bind scores (conviction_weights selected)
                 else if mode = ''inverse_vol'' then inverse_vol_weights selected m
                 else None) of
        Some ws \<Rightarrow> ws
      | None \<Rightarrow> flat_weights selected)"

definition vol_lookback :: nat where "vol_lookback = 90"

definition trailing_returns ::
  "'s store_ops \<Rightarrow> 's \<Rightarrow> datetime \<Rightarrow> string list \<Rightarrow> nat \<Rightarrow> panel option res" where
  "trailing_returns S s as_of symbols lookback =
     (case store_panel S s as_of price_dataset ''close'' of Inl e \<Rightarrow> Inl e | Inr p \<Rightarrow>
        let cols = filter (\<lambda>sy. sy \<in> set (pn_columns p)) symbols in
        Inr (if panel_empty p \<or> cols = [] then None
             else let changes = pct_change (panel_select p cols)
                  in Some (changes\<lparr>pn_rows := tail_of lookback (tl (pn_rows changes))\<rparr>)))"

section \<open>The cycle\<close>

record cycle_options =
  co_top_quantile :: real
  co_max_positions :: "int option"
  co_exit_band_multiple :: real
  co_risk_weighting :: string
  co_tilt_strength :: flt
  co_prediction_log :: bool
  co_model_version :: string
  co_prediction_horizon :: int
  co_stop_loss_pct :: flt
  co_trailing_stop_pct :: flt
  co_thesis_exit_threshold :: flt
  co_reserved_symbols :: "string set"
  co_cancel_stale_orders :: bool

definition default_options :: cycle_options where
  "default_options = \<lparr>co_top_quantile = 3 / 10, co_max_positions = None, co_exit_band_multiple = 1,
     co_risk_weighting = ''equal'', co_tilt_strength = 0, co_prediction_log = False,
     co_model_version = ''composite'', co_prediction_horizon = 5, co_stop_loss_pct = 0,
     co_trailing_stop_pct = 0, co_thesis_exit_threshold = 0, co_reserved_symbols = {},
     co_cancel_stale_orders = False\<rparr>"

record cycle_result =
  cy_as_of :: datetime
  cy_scores :: "(string, flt) dict"
  cy_target_weights :: weights
  cy_orders :: "order list"
  cy_brief :: "string option"

fun cancel_each :: "'b broker_ops \<Rightarrow> order list \<Rightarrow> 'b \<Rightarrow> 'b \<times> unit res" where
  "cancel_each B [] b = (b, Inr ())"
| "cancel_each B (x # xs) b =
     (case bk_cancel B (od_client_order_id x) b of
        (b', Inl e) \<Rightarrow> (b', Inl e)
      | (b', Inr _) \<Rightarrow> cancel_each B xs b')"

definition cancel_stale :: "'b broker_ops \<Rightarrow> cycle_options \<Rightarrow> 'b \<Rightarrow> 'b \<times> unit res" where
  "cancel_stale B opts b =
     (if \<not> co_cancel_stale_orders opts then (b, Inr ())
      else case bk_open_orders B b of
        Inl e \<Rightarrow> (b, Inl e)
      | Inr os \<Rightarrow> cancel_each B (filter (\<lambda>x. od_symbol x \<notin> co_reserved_symbols opts) os) b)"

definition exit_set ::
  "'s store_ops \<Rightarrow> 's \<Rightarrow> datetime \<Rightarrow> cycle_options \<Rightarrow> position list \<Rightarrow> (string, flt) dict \<Rightarrow> string set res" where
  "exit_set S s as_of opts ps prices =
     (case trailing_stops S s as_of ps prices (co_trailing_stop_pct opts) 60 of Inl e \<Rightarrow> Inl e | Inr breaks \<Rightarrow>
      case thesis_break_exits S s as_of ps (co_thesis_exit_threshold opts) of Inl e \<Rightarrow> Inl e | Inr news \<Rightarrow>
        Inr (stop_losses ps prices (co_stop_loss_pct opts) \<union> breaks \<union> news))"

definition entry_count :: "cycle_options \<Rightarrow> nat \<Rightarrow> int" where
  "entry_count opts n =
     (let k = max 1 (trunc (real n * co_top_quantile opts))
      in case co_max_positions opts of None \<Rightarrow> k | Some m \<Rightarrow> min k m)"

definition exit_count :: "cycle_options \<Rightarrow> nat \<Rightarrow> int" where
  "exit_count opts n =
     min (int n) (max (entry_count opts n) (round_half_even (of_int (entry_count opts n) * co_exit_band_multiple opts)))"

definition pick_winners :: "cycle_options \<Rightarrow> string set \<Rightarrow> string set \<Rightarrow> string list \<Rightarrow> string list" where
  "pick_winners opts held_names stopped ranked =
     filter (\<lambda>w. w \<notin> stopped \<and> w \<notin> co_reserved_symbols opts)
       (select_with_hysteresis ranked held_names (entry_count opts (length ranked))
          (exit_count opts (length ranked)) (co_max_positions opts))"

definition target_book ::
  "library \<Rightarrow> 's store_ops \<Rightarrow> 's \<Rightarrow> datetime \<Rightarrow> settings \<Rightarrow> risk_limits \<Rightarrow> cycle_options \<Rightarrow> feature_matrix
   \<Rightarrow> (string, flt) dict \<Rightarrow> string set \<Rightarrow> string set \<Rightarrow> weights res" where
  "target_book L S s as_of st lims opts m ranked held_names stopped =
     (if ranked = [] then Inr []
      else if co_risk_weighting opts = ''size_book'' then
        (case trailing_returns S s as_of
                (filter (\<lambda>sy. sy \<notin> stopped \<and> sy \<notin> co_reserved_symbols opts) (keys ranked)) vol_lookback of
           Inl e \<Rightarrow> Inl e
         | Inr None \<Rightarrow> Inr []
         | Inr (Some returns) \<Rightarrow>
             Inr (if panel_empty returns then []
                  else size_book (lb_cov L) returns (target_vol st) lims
                         (if 0 < co_tilt_strength opts then Some ranked else None)
                         (co_tilt_strength opts) vol_lookback None 1))
      else
        let winners = pick_winners opts held_names stopped (keys ranked) in
        if co_risk_weighting opts = ''vol_target'' then
          (case trailing_returns S s as_of winners vol_lookback of
             Inl e \<Rightarrow> Inl e
           | Inr returns \<Rightarrow>
               let base = risk_weights winners m ''inverse_vol'' (Some ranked) in
               Inr (apply_risk_limits
                 (case returns of None \<Rightarrow> base
                  | Some r \<Rightarrow> vol_target_weights (lb_cov L) base r (target_vol st) (lim_max_gross_exposure lims))
                 lims None))
        else Inr (apply_risk_limits (risk_weights winners m (co_risk_weighting opts) (Some ranked)) lims None))"

text \<open>A held name that left the book gets an explicit zero, if it has a price.\<close>

definition with_flattened :: "library \<Rightarrow> string set \<Rightarrow> (string, flt) dict \<Rightarrow> weights \<Rightarrow> weights" where
  "with_flattened L held_names prices target =
     target @ map (\<lambda>sy. (sy, 0))
       (filter (\<lambda>sy. sy \<notin> set (keys target) \<and> sy \<in> set (keys prices)) (lb_set_order L held_names))"

definition execute_book ::
  "'b broker_ops \<Rightarrow> 's store_ops \<Rightarrow> datetime \<Rightarrow> settings \<Rightarrow> risk_limits \<Rightarrow> weights \<Rightarrow> (string, flt) dict
   \<Rightarrow> datetime \<Rightarrow> 's \<times> 'b \<Rightarrow> ('s \<times> 'b) \<times> order list res" where
  "execute_book B S now st lims rebalance_target prices as_of sb =
     (case engine_init S now (snd sb) st (Some lims) (Some (fst sb)) None None None of
        Inl e \<Rightarrow> (sb, Inl e)
      | Inr en \<Rightarrow>
          if rebalance_target = [] then (sb, Inr [])
          else (case rebalance B S now rebalance_target prices as_of en of (en', r) \<Rightarrow>
            ((case en_audit en' of Some s' \<Rightarrow> s' | None \<Rightarrow> fst sb, en_broker en'), r)))"

text \<open>\<open>brief\<close> is the briefing over the store, when a language model is configured.\<close>

definition run_paper_cycle ::
  "library \<Rightarrow> 'b broker_ops \<Rightarrow> 's store_ops \<Rightarrow> datetime \<Rightarrow> datetime \<Rightarrow> string list \<Rightarrow> (string, flt) dict
   \<Rightarrow> settings \<Rightarrow> risk_limits option \<Rightarrow> ('s \<Rightarrow> datetime \<Rightarrow> string res) option \<Rightarrow> 's feature list option
   \<Rightarrow> score_fn option \<Rightarrow> cycle_options \<Rightarrow> 's \<times> 'b \<Rightarrow> ('s \<times> 'b) \<times> cycle_result res" where
  "run_paper_cycle L B S now as_of symbols prices st limits brief features scorer_fn opts sb =
     (let lims = (case limits of Some l \<Rightarrow> l | None \<Rightarrow> limits_from_settings st) in
      case cancel_stale B opts (snd sb) of
        (b, Inl e) \<Rightarrow> ((fst sb, b), Inl e)
      | (b, Inr _) \<Rightarrow>
      case compute_matrix (case features of Some fs \<Rightarrow> fs | None \<Rightarrow> default_features (lb_repr L) S)
             (fst sb) as_of symbols of
        Inl e \<Rightarrow> ((fst sb, b), Inl e)
      | Inr m \<Rightarrow>
      case (if matrix_empty m then Inr []
            else (case scorer_fn of Some f \<Rightarrow> f m as_of | None \<Rightarrow> composite_scorer (lb_corr L) False m as_of)) of
        Inl e \<Rightarrow> ((fst sb, b), Inl e)
      | Inr scores \<Rightarrow>
      let ranked = lb_sort_descending L (filter (\<lambda>(sy, v). v \<noteq> NaN) scores);
          s = (if co_prediction_log opts \<and> \<not> matrix_empty m
               then fst (log_cycle_predictions S now ranked m as_of (co_model_version opts)
                           (co_prediction_horizon opts) (fst sb))
               else fst sb)
      in case bk_positions B b of
        Inl e \<Rightarrow> ((s, b), Inl e)
      | Inr all_positions \<Rightarrow>
      let ps = filter (\<lambda>p. ps_symbol p \<notin> co_reserved_symbols opts) all_positions;
          held_names = set (map ps_symbol ps)
      in case exit_set S s as_of opts ps prices of
        Inl e \<Rightarrow> ((s, b), Inl e)
      | Inr stopped \<Rightarrow>
      case target_book L S s as_of st lims opts m ranked held_names stopped of
        Inl e \<Rightarrow> ((s, b), Inl e)
      | Inr target \<Rightarrow>
      case execute_book B S now st lims (with_flattened L held_names prices target) prices as_of (s, b) of
        (sb', Inl e) \<Rightarrow> (sb', Inl e)
      | (sb', Inr orders) \<Rightarrow>
      case (case brief of None \<Rightarrow> Inr None
            | Some f \<Rightarrow> (case f (fst sb') as_of of Inl e \<Rightarrow> Inl e | Inr t \<Rightarrow> Inr (Some t))) of
        Inl e \<Rightarrow> (sb', Inl e)
      | Inr text \<Rightarrow>
          (sb', Inr \<lparr>cy_as_of = as_of, cy_scores = ranked, cy_target_weights = target,
                    cy_orders = orders, cy_brief = text\<rparr>))"

section \<open>The measured weights of the signals\<close>

definition measured_signal_ic ::
  "library \<Rightarrow> 's store_ops \<Rightarrow> 's \<Rightarrow> settings \<Rightarrow> datetime \<Rightarrow> (string, flt) dict res" where
  "measured_signal_ic L S s st as_of =
     (case grade_predictions (lb_corr L) (lb_repr L) S s as_of 5 (Some (scorer st)) (ic_min_abs st) of
        Inl e \<Rightarrow> Inl e | Inr g \<Rightarrow> Inr (gr_ic g))"

definition proven_signal :: "settings \<Rightarrow> signal_ic \<Rightarrow> bool" where
  "proven_signal st si \<longleftrightarrow> 8 \<le> si_n_dates si \<and> 2 \<le> \<bar>si_ic_t_stat si\<bar> \<and> Fin (ic_min_abs st) \<le> \<bar>si_mean_ic si\<bar>"

definition signal_ic_for_weighting ::
  "library \<Rightarrow> 's store_ops \<Rightarrow> 's \<Rightarrow> settings \<Rightarrow> 's feature list \<Rightarrow> string list \<Rightarrow> datetime \<Rightarrow> nat
   \<Rightarrow> (string, flt) dict res" where
  "signal_ic_for_weighting L S s st features symbols as_of horizon_days =
     (case measured_signal_ic L S s st as_of of Inl e \<Rightarrow> Inl e | Inr live \<Rightarrow>
        if live \<noteq> [] then Inr live
        else case measure_signal_ic (lb_corr L) S s features symbols as_of horizon_days (max horizon_days 5)
                    60 120 5 None of
          Inl e \<Rightarrow> Inl e
        | Inr offline \<Rightarrow> Inr (map_vals si_mean_ic (filter (\<lambda>(c, si). proven_signal st si) offline)))"

section \<open>The dry cycle\<close>

definition close_price ::
  "(string \<Rightarrow> bool) \<Rightarrow> observation \<Rightarrow> (string, flt) dict \<Rightarrow> (string, flt) dict res" where
  "close_price wanted x prices =
     (if \<not> wanted (o_entity_id x) then Inr prices
      else case pindex (o_value x) ''close'' of Inl e \<Rightarrow> Inl e | Inr v \<Rightarrow>
           case to_float v of Inl e \<Rightarrow> Inl e | Inr c \<Rightarrow> Inr (dict_set (o_entity_id x) c prices))"

definition close_prices ::
  "'s store_ops \<Rightarrow> 's \<Rightarrow> datetime \<Rightarrow> (string \<Rightarrow> bool) \<Rightarrow> (string, flt) dict res" where
  "close_prices S s as_of wanted =
     fold_res (close_price wanted) (st_as_of S s as_of (q_of_dataset price_dataset)) []"

text \<open>\<open>generate symbols n_days\<close> is the seeded generator's random walk (NumPy).\<close>

definition run_dry_paper_cycle ::
  "library \<Rightarrow> (string list \<Rightarrow> nat \<Rightarrow> observation list) \<Rightarrow> datetime \<Rightarrow> settings \<Rightarrow> nat \<Rightarrow> nat
   \<Rightarrow> cycle_result res" where
  "run_dry_paper_cycle L generate now st n_syms n_days =
     (let symbols = map (\<lambda>i. ''S'' @ nat_str i) [0..<n_syms];
          obs = generate symbols n_days;
          s = mem_add_many obs mem_empty
      in case obs of
        [] \<Rightarrow> Inl ValueError
      | x # xs \<Rightarrow>
          let as_of = o_event_time (max_by o_event_time x xs) in
          case close_prices mem_ops s as_of (\<lambda>_. True) of Inl e \<Rightarrow> Inl e | Inr prices \<Rightarrow>
            snd (run_paper_cycle L paper_ops mem_ops now as_of symbols prices st None None None None
              (default_options\<lparr>co_risk_weighting := risk_weighting st, co_tilt_strength := tilt_strength st\<rparr>)
              (s, paper_init prices 100000)))"

section \<open>The live cycle\<close>

text \<open>The answers of the outside services: the bars, the filings and the articles of a sweep, the trained
  forecaster's scorer, the event study and the briefing.\<close>

record 's services =
  sv_bars :: "string list \<Rightarrow> pydate \<Rightarrow> pydate \<Rightarrow> string \<Rightarrow> price_bar list res"
  sv_filings :: "string list \<Rightarrow> int \<Rightarrow> form4_record list res"
  sv_articles :: "string list \<Rightarrow> string \<Rightarrow> news_article list res"
  sv_forecaster :: "'s \<Rightarrow> string list \<Rightarrow> datetime \<Rightarrow> score_fn res"
  sv_study :: "'s \<Rightarrow> int \<Rightarrow> (string, flt) dict"
  sv_brief :: "'s \<Rightarrow> datetime \<Rightarrow> string res"

definition ingest_filings ::
  "'s services \<Rightarrow> 's store_ops \<Rightarrow> datetime \<Rightarrow> string list \<Rightarrow> settings \<Rightarrow> 's \<Rightarrow> 's \<times> unit res" where
  "ingest_filings V S now symbols st s =
     (case sv_filings V symbols (insider_lookback_days st) of
        Inl e \<Rightarrow> (s, Inl e)
      | Inr recs \<Rightarrow> (if recs = [] then s else fst (ingest S True False (normalize_form4 now recs) s), Inr ()))"

definition ingest_news ::
  "'s services \<Rightarrow> 's store_ops \<Rightarrow> datetime \<Rightarrow> string list \<Rightarrow> settings \<Rightarrow> 's \<Rightarrow> 's \<times> unit res" where
  "ingest_news V S now symbols st s =
     (case sv_articles V symbols (news_timespan st) of
        Inl e \<Rightarrow> (s, Inl e)
      | Inr arts \<Rightarrow> (if arts = [] then s else fst (ingest S True False (normalize_news now arts) s), Inr ()))"

definition optional_step :: "bool \<Rightarrow> ('s \<Rightarrow> 's \<times> unit res) \<Rightarrow> 's \<Rightarrow> 's \<times> unit res" where
  "optional_step on step s = (if on then step s else (s, Inr ()))"

text \<open>What the sleeves own, and the budget set aside for them.\<close>

definition reserved_names ::
  "library \<Rightarrow> 's store_ops \<Rightarrow> 's \<Rightarrow> settings \<Rightarrow> datetime \<Rightarrow> string set res" where
  "reserved_names L S s st as_of =
     (case (if news_sleeve_enabled st then map_sum id keys (active_sleeve_positions (lb_repr L) S s as_of)
            else Inr []) of Inl e \<Rightarrow> Inl e | Inr news \<Rightarrow>
      case (if insider_sleeve_enabled st then map_sum id keys (active_insider_positions (lb_repr L) S s as_of)
            else Inr []) of Inl e \<Rightarrow> Inl e | Inr insiders \<Rightarrow> Inr (set news \<union> set insiders))"

definition sleeve_budget :: "settings \<Rightarrow> flt" where
  "sleeve_budget st =
     (let b = (if news_sleeve_enabled st then 0 + news_sleeve_budget st else 0)
      in if insider_sleeve_enabled st then b + insider_sleeve_budget st else b)"

definition book_limits :: "settings \<Rightarrow> risk_limits option" where
  "book_limits st =
     (if 0 < sleeve_budget st
      then (let base = limits_from_settings st
            in Some (base\<lparr>lim_max_gross_exposure := lim_max_gross_exposure base * (1 - sleeve_budget st)\<rparr>))
      else None)"

definition live_options :: "settings \<Rightarrow> string set \<Rightarrow> cycle_options" where
  "live_options st reserved =
     \<lparr>co_top_quantile = top_quantile st,
      co_max_positions = (if max_positions st = 0 then None else Some (max_positions st)),
      co_exit_band_multiple = exit_band_multiple st, co_risk_weighting = risk_weighting st,
      co_tilt_strength = tilt_strength st, co_prediction_log = True, co_model_version = scorer st,
      co_prediction_horizon = 5, co_stop_loss_pct = stop_loss_pct st,
      co_trailing_stop_pct = trailing_stop_pct st, co_thesis_exit_threshold = thesis_exit_threshold st,
      co_reserved_symbols = reserved, co_cancel_stale_orders = True\<rparr>"

definition live_guard :: "settings \<Rightarrow> unit res" where
  "live_guard st =
     (if \<not> (str_set (alpaca_key_id st) \<and> str_set (alpaca_secret_key st)) then Inl RuntimeError
      else if \<not> alpaca_paper st then assert_live_allowed st else Inr ())"

text \<open>The insider sleeve after the book: whatever it raises is logged and dropped.\<close>

definition sleeve_after ::
  "library \<Rightarrow> 's services \<Rightarrow> 'b broker_ops \<Rightarrow> 's store_ops \<Rightarrow> datetime \<Rightarrow> settings \<Rightarrow> datetime
   \<Rightarrow> 's \<times> 'b \<Rightarrow> 's \<times> 'b" where
  "sleeve_after L V B S now st as_of sb =
     (if insider_sleeve_enabled st
      then fst (run_insider_sleeve_cycle (lb_repr L) B S now st as_of
                  (sv_study V (fst sb) (insider_sleeve_hold_days st)) sb)
      else sb)"

definition live_scorer ::
  "library \<Rightarrow> 's services \<Rightarrow> 's store_ops \<Rightarrow> settings \<Rightarrow> 's feature list \<Rightarrow> string list \<Rightarrow> datetime \<Rightarrow> 's
   \<Rightarrow> score_fn res" where
  "live_scorer L V S st features watchlist as_of s =
     (case (if lower (strip (scorer st)) = ''composite'' \<and> ic_weighting st
            then map_sum id Some (signal_ic_for_weighting L S s st features watchlist as_of 5) else Inr None) of
        Inl e \<Rightarrow> Inl e
      | Inr ic \<Rightarrow> build_scorer (lb_corr L) (sv_forecaster V s watchlist as_of) st ic)"

definition run_live_paper_cycle ::
  "library \<Rightarrow> 's services \<Rightarrow> 'b broker_ops \<Rightarrow> 's store_ops \<Rightarrow> datetime \<Rightarrow> pydate \<Rightarrow> settings \<Rightarrow> int
   \<Rightarrow> string list \<Rightarrow> 's \<times> 'b \<Rightarrow> ('s \<times> 'b) \<times> cycle_result res" where
  "run_live_paper_cycle L V B S now today st lookback_days wanted sb =
     (let b = snd sb; watchlist = (if wanted \<noteq> [] then wanted else resolve_universe (universe st)) in
      case live_guard st of Inl e \<Rightarrow> (sb, Inl e) | Inr _ \<Rightarrow>
      case sv_bars V watchlist (today - lookback_days) today (alpaca_data_feed st) of
        Inl e \<Rightarrow> (sb, Inl e)
      | Inr bars \<Rightarrow>
      let s1 = fst (ingest S True False (normalize_prices now bars) (fst sb)) in
      case close_prices S s1 now (\<lambda>sy. sy \<in> set watchlist) of Inl e \<Rightarrow> ((s1, b), Inl e) | Inr prices \<Rightarrow>
      case optional_step (insider_enabled st) (ingest_filings V S now watchlist st) s1 of
        (s2, Inl e) \<Rightarrow> ((s2, b), Inl e)
      | (s2, Inr _) \<Rightarrow>
      case optional_step (news_enabled st) (ingest_news V S now watchlist st) s2 of
        (s3, Inl e) \<Rightarrow> ((s3, b), Inl e)
      | (s3, Inr _) \<Rightarrow>
      let features = default_features (lb_repr L) S
            @ (if news_enabled st then news_features (news_window_days st) S else []) in
      case live_scorer L V S st features watchlist now s3 of Inl e \<Rightarrow> ((s3, b), Inl e) | Inr score \<Rightarrow>
      case reserved_names L S s3 st now of Inl e \<Rightarrow> ((s3, b), Inl e) | Inr reserved \<Rightarrow>
      case run_paper_cycle L B S now now watchlist prices st (book_limits st)
             (if str_set (anthropic_api_key st) then Some (sv_brief V) else None) (Some features) (Some score)
             (live_options st reserved) (s3, b) of
        (sb', Inl e) \<Rightarrow> (sb', Inl e)
      | (sb', Inr result) \<Rightarrow> (sleeve_after L V B S now st now sb', Inr result))"

end
