(* ===== verification/DailyBook.thy ===== *)
theory DailyBook
  imports Cycle Execution
begin

text \<open>
  What the daily cycle of \<open>runtime/cycle.py\<close> guarantees: which names its book may hold, which it must
  leave alone or exit, and that the engine accepts the book.
\<close>

section \<open>The names of a book\<close>

lemma keys_map_vals [simp]: "keys (map_vals f d) = keys d"
  by (simp add: map_vals_def split_def)

lemma keys_cap_gross [simp]: "keys (cap_gross g s) = keys s"
  by (simp add: cap_gross_def Let_def)

lemma keys_cap_sector [simp]: "keys (cap_sector m c sec s) = keys s"
  by (simp add: cap_sector_def Let_def split_def)

lemma keys_cap_sectors [simp]: "keys (fold (cap_sector m c) secs s) = keys s"
  by (induction secs arbitrary: s) simp_all

lemma keys_cap_net [simp]: "keys (cap_net n s) = keys s"
  by (simp add: cap_net_def Let_def)

lemma keys_filter_subseq: "subseq (keys (filter P d)) (keys d)"
  by (intro subseq_map) (rule subseq_filter_left)

lemma apply_risk_limits_keys: "subseq (keys (apply_risk_limits ws lims sectors)) (keys ws)"
proof (cases "ws = []")
  case False
  let ?s1 = "cap_gross (lim_max_gross_exposure lims)
    (map_vals (clip (- lim_max_position_weight lims) (lim_max_position_weight lims)) ws)"
  let ?s3 = "cap_net (lim_max_net_exposure lims) (case sectors of None \<Rightarrow> ?s1
    | Some m \<Rightarrow> fold (cap_sector m (lim_max_sector_weight lims)) (remdups (vals m)) ?s1)"
  have "keys ?s3 = keys ws" by (cases sectors) simp_all
  moreover have "apply_risk_limits ws lims sectors = filter (\<lambda>(k, v). v \<noteq> Fin 0) ?s3"
    using False by (simp add: apply_risk_limits_def Let_def)
  ultimately show ?thesis using keys_filter_subseq [of "\<lambda>(k, v). v \<noteq> Fin 0" ?s3] by simp
qed (simp add: apply_risk_limits_def)

lemma conviction_keys: "conviction_weights selected scores = Some ws \<Longrightarrow> keys ws = selected"
  by (auto simp: conviction_weights_def Let_def split: if_splits)

lemma inverse_vol_keys: "inverse_vol_weights selected m = Some ws \<Longrightarrow> keys ws = selected"
  by (auto simp: inverse_vol_weights_def inverse_vol_shares_def Let_def split: list.splits if_splits)

lemma risk_weights_keys: "keys (risk_weights selected m mode scores) = selected"
  by (auto simp: risk_weights_def flat_weights_def comp_def bind_eq_Some_conv split: option.split
      dest: conviction_keys inverse_vol_keys)

lemma clean_window_columns: "set (pn_columns (clean_window n p)) \<subseteq> set (pn_columns p)"
  by (auto simp: clean_window_def Let_def)

lemma volatility_target_keys [simp]: "keys (volatility_target_weights ws cov v) = keys ws"
  by (simp add: volatility_target_weights_def Let_def)

lemma keys_filter_subset: "set (keys (filter P d)) \<subseteq> set (keys d)"
  by auto

lemma apply_risk_limits_subset: "set (keys (apply_risk_limits ws lims sectors)) \<subseteq> set (keys ws)"
  using subseq_mem [OF apply_risk_limits_keys] by blast

lemma tilt_keys [simp]: "keys (tilt_weights scores names k) = names"
proof -
  have [simp]: "length (cross_sectional_zscore v) = length v" for v
    by (simp add: cross_sectional_zscore_def Let_def)
  show ?thesis by (auto simp: tilt_weights_def Let_def comp_def split: option.split)
qed

lemmas name_sets = keys_map_vals [THEN arg_cong [where f = set], unfolded set_map]
  volatility_target_keys [THEN arg_cong [where f = set], unfolded set_map]
  tilt_keys [THEN arg_cong [where f = set], unfolded set_map]
  keys_cap_gross [THEN arg_cong [where f = set], unfolded set_map]

lemma vol_target_keys: "set (keys (vol_target_weights cov ws r v g)) \<subseteq> set (keys ws)"
proof -
  let ?names = "filter (\<lambda>s. s \<in> set (pn_columns r)) (keys ws)"
  let ?window = "clean_window (length (pn_rows r)) (panel_select r ?names)"
  have w: "set (pn_columns ?window) \<subseteq> set (keys ws)"
    using clean_window_columns [of "length (pn_rows r)" "panel_select r ?names"] by (auto simp: panel_select_def)
  show ?thesis
  proof (cases "length (pn_columns ?window) < 2 \<or> length (pn_rows ?window) < 20")
    case False
    show ?thesis
      unfolding vol_target_weights_def Let_def if_not_P [OF False]
      by (rule order_trans [OF keys_filter_subset]) (use w in \<open>simp add: name_sets image_image\<close>)
  qed (simp add: vol_target_weights_def Let_def)
qed

lemma size_book_keys: "set (keys (size_book cov r v lims scores k n sectors d)) \<subseteq> set (pn_columns r)"
proof (cases "pn_columns r = []")
  case False
  then show ?thesis
    unfolding size_book_def Let_def if_not_P [OF False]
    by (intro order_trans [OF apply_risk_limits_subset] order_trans [OF keys_filter_subset])
      (use clean_window_columns [of n r] in \<open>simp add: name_sets image_image\<close>)
qed (simp add: size_book_def)

lemma py_head_subset: "set (py_head k xs) \<subseteq> set xs"
  by (auto simp: py_head_def dest: in_set_takeD)

lemma select_subset: "set (select_with_hysteresis ranked hs e x cap) \<subseteq> set ranked"
proof -
  have "set (filter (\<lambda>s. s \<in> hs \<and> s \<in> set (py_head x ranked)) ranked
      @ filter (\<lambda>s. s \<notin> hs) (py_head e ranked)) \<subseteq> set ranked"
    using py_head_subset [of e ranked] by auto
  then show ?thesis
    unfolding select_with_hysteresis_def Let_def
    by (cases cap) (simp_all only: option.case order_trans [OF py_head_subset])
qed

lemma winners_allowed:
  "set (pick_winners opts hs stopped ranked) \<subseteq> set ranked - (stopped \<union> co_reserved_symbols opts)"
  unfolding pick_winners_def using select_subset by fastforce

lemma trailing_returns_columns:
  "trailing_returns S s t syms n = Inr (Some r) \<Longrightarrow> set (pn_columns r) \<subseteq> set syms"
  by (auto simp: trailing_returns_def Let_def pct_change_def panel_select_def split: sum.splits if_splits)

lemma target_book_names:
  assumes "target_book L S s t st lims opts m ranked hs stopped = Inr target"
  shows "set (keys target) \<subseteq> set (keys ranked) - (stopped \<union> co_reserved_symbols opts)"
proof -
  let ?W = "pick_winners opts hs stopped (keys ranked)"
  let ?E = "filter (\<lambda>sy. sy \<notin> stopped \<and> sy \<notin> co_reserved_symbols opts) (keys ranked)"
  note allowed = winners_allowed [of opts hs stopped "keys ranked"]
  have base: "set (keys (apply_risk_limits (risk_weights ?W m mode sc) lims None)) \<subseteq> set ?W" for mode sc
    using apply_risk_limits_subset [of "risk_weights ?W m mode sc" lims None] unfolding risk_weights_keys .
  have gov: "set (keys (apply_risk_limits (vol_target_weights cov (risk_weights ?W m mode sc) r v g) lims None)) \<subseteq> set ?W"
    for mode sc cov r v g
    using order_trans [OF apply_risk_limits_subset vol_target_keys [of cov "risk_weights ?W m mode sc" r v g]]
    unfolding risk_weights_keys .
  show ?thesis
  proof (cases "ranked = []")
    case True
    then show ?thesis using assms by (simp add: target_book_def)
  next
    case ranked: False
    note book = assms [unfolded target_book_def if_not_P [OF ranked] Let_def]
    consider "co_risk_weighting opts = ''size_book''" | "co_risk_weighting opts = ''vol_target''"
      | "co_risk_weighting opts \<noteq> ''size_book''" "co_risk_weighting opts \<noteq> ''vol_target''" by blast
    then show ?thesis
    proof cases
      case 1
      then obtain r where "trailing_returns S s t ?E vol_lookback = Inr r"
        using book by (cases "trailing_returns S s t ?E vol_lookback") auto
      show ?thesis
      proof (cases r)
        case None
        then show ?thesis using book 1 \<open>trailing_returns S s t ?E vol_lookback = Inr r\<close> by simp
      next
        case (Some p)
        note tr = \<open>trailing_returns S s t ?E vol_lookback = Inr r\<close> [unfolded Some]
        let ?book = "size_book (lb_cov L) p (target_vol st) lims
          (if 0 < co_tilt_strength opts then Some ranked else None) (co_tilt_strength opts) vol_lookback None 1"
        have "target = (if panel_empty p then [] else ?book)" using book 1 tr by simp
        then have "set (keys target) \<subseteq> set (keys ?book)" by (cases "panel_empty p") simp_all
        also have "\<dots> \<subseteq> set ?E" using size_book_keys trailing_returns_columns [OF tr] by (rule order_trans)
        finally have "set (keys target) \<subseteq> set ?E" .
        then show ?thesis by auto
      qed
    next
      case 2
      then obtain r where r: "trailing_returns S s t ?W vol_lookback = Inr r"
        using book by (cases "trailing_returns S s t ?W vol_lookback") auto
      show ?thesis
      proof (cases r)
        case None
        have "target = apply_risk_limits (risk_weights ?W m ''inverse_vol'' (Some ranked)) lims None"
          using book 2 r None by simp
        then show ?thesis by (simp only: order_trans [OF base allowed])
      next
        case (Some p)
        have "target = apply_risk_limits (vol_target_weights (lb_cov L)
            (risk_weights ?W m ''inverse_vol'' (Some ranked)) p (target_vol st) (lim_max_gross_exposure lims)) lims None"
          using book 2 r Some by simp
        then show ?thesis by (simp only: order_trans [OF gov allowed])
      qed
    next
      case 3
      then have "target = apply_risk_limits (risk_weights ?W m (co_risk_weighting opts) (Some ranked)) lims None"
        using book by simp
      then show ?thesis by (simp only: order_trans [OF base allowed])
    qed
  qed
qed

lemma flattened_names:
  assumes "library_ok L" "finite hs"
  shows "set (keys (with_flattened L hs prices target)) \<subseteq> set (keys target) \<union> hs"
proof -
  have "set (lb_set_order L hs) = hs" using assms by (simp add: library_ok_def)
  then show ?thesis by (auto simp: with_flattened_def)
qed

section \<open>What a cycle sends\<close>

lemma cancel_each_log:
  "cancel_each (traced B) xs bl = (bl', r) \<Longrightarrow> snd bl' = snd bl"
proof (induction xs arbitrary: bl)
  case (Cons x xs)
  obtain c q where c: "bk_cancel (traced B) (od_client_order_id x) bl = (c, q)" by (rule prod.exhaust)
  then have "snd c = snd bl" by (cases bl) (auto simp: traced_def split: prod.splits)
  then show ?case using Cons c by (cases q) auto
qed simp

lemma cancel_stale_log: "cancel_stale (traced B) opts bl = (bl', r) \<Longrightarrow> snd bl' = snd bl"
  by (auto simp: cancel_stale_def split: if_splits sum.splits dest: cancel_each_log)

lemma rebalance_symbols:
  assumes "rebalance (traced B) S now ws prices t en = (en', r)" "snd (en_broker en) = []"
    and "x \<in> set (snd (en_broker en'))"
  shows "od_symbol x \<in> set (keys ws)"
  using assms(1,2)
proof (rule rebalance_trace)
  assume "snd (en_broker en') = []"
  then show ?thesis using assms(3) by simp
next
  fix acct ps pend planned ys
  assume pl: "plan_orders (en_settings en) (py_min (ac_equity acct) (capital_ceiling (en_settings en)))
      prices (effective_positions ps pend) t ws = Inr planned"
    and ys: "snd (en_broker en') = map fst ys" "subseq ys planned"
  from assms(3) ys(1) obtain y where y: "y \<in> set ys" "x = fst y" by auto
  from subseq_mem [OF ys(2) y(1)] obtain w where "(od_symbol (fst y), w) \<in> set ws"
    using plan_orders_in [OF pl, of "fst y" "snd y"] by auto
  then show ?thesis using y(2) by force
qed

lemma engine_init_broker: "engine_init S now b st l a k br r = Inr en \<Longrightarrow> en_broker en = b"
  by (auto simp: engine_init_def Let_def split: sum.splits)

lemma execute_book_symbols:
  assumes "execute_book (traced B) S now st lims ws prices t sb = (sb', r)" "snd (snd sb) = []"
    and "x \<in> set (snd (snd sb'))"
  shows "od_symbol x \<in> set (keys ws)"
proof (cases "engine_init S now (snd sb) st (Some lims) (Some (fst sb)) None None None")
  case (Inl e)
  then show ?thesis using assms by (simp add: execute_book_def)
next
  case (Inr en)
  note b = engine_init_broker [OF Inr]
  obtain en' q where q: "rebalance (traced B) S now ws prices t en = (en', q)" by force
  show ?thesis
  proof (cases "ws = []")
    case False
    then have "snd (snd sb') = snd (en_broker en')" using assms(1) Inr q by (auto simp: execute_book_def)
    then show ?thesis using rebalance_symbols [OF q] b assms(2,3) by simp
  qed (use assms Inr in \<open>simp add: execute_book_def\<close>)
qed

text \<open>The names the daily book owns.\<close>

abbreviation own_names :: "cycle_options \<Rightarrow> position list \<Rightarrow> string set" where
  "own_names opts ps \<equiv> ps_symbol ` {p \<in> set ps. ps_symbol p \<notin> co_reserved_symbols opts}"

text \<open>The stages of a cycle, seen from the broker's log.\<close>

lemma run_cycle_stages:
  assumes "run_paper_cycle L B S now t symbols prices st limits brief features f opts sb = (sb', r)"
  obtains (stale) e where "cancel_stale B opts (snd sb) = (snd sb', Inl e)"
  | (early) b where "cancel_stale B opts (snd sb) = (b, Inr ())" "snd sb' = b"
  | (book) lims m ranked ps s stopped target s0 b q where
      "cancel_stale B opts (snd sb) = (b, Inr ())"
      "target_book L S s t st lims opts m ranked
         (own_names opts ps) stopped = Inr target"
      "execute_book B S now st lims (with_flattened L
         (own_names opts ps) prices target)
         prices t (s, b) = (sb', q)"
proof -
  obtain b c where c: "cancel_stale B opts (snd sb) = (b, c)" by (rule prod.exhaust)
  show thesis
  proof (cases c)
    case (Inl e)
    then show thesis using assms c stale by (auto simp: run_paper_cycle_def)
  next
    case (Inr u)
    then have c: "cancel_stale B opts (snd sb) = (b, Inr ())" using c by simp
    show thesis
      using assms unfolding run_paper_cycle_def Let_def c
      by (auto split: sum.splits prod.splits intro: early [OF c] book [OF c])
  qed
qed

text \<open>C9: the daily book and the sleeves never fight.  Whatever the broker, the scores and the options, no
  order a cycle sends is for a name reserved by a sleeve, to buy it or to flatten it.\<close>

theorem cycle_leaves_reserved_names_alone:
  assumes "library_ok L"
    and "run_paper_cycle L (traced B) S now t symbols prices st limits brief features f opts (s, b, []) = ((s', b', xs), r)"
    and "x \<in> set xs"
  shows "od_symbol x \<notin> co_reserved_symbols opts"
  using assms(2)
proof (rule run_cycle_stages)
  fix e assume "cancel_stale (traced B) opts (snd (s, b, [])) = (snd (s', b', xs), Inl e)"
  then show ?thesis using cancel_stale_log assms(3) by fastforce
next
  fix c assume "cancel_stale (traced B) opts (snd (s, b, [])) = (c, Inr ())" "snd (s', b', xs) = c"
  then show ?thesis using cancel_stale_log assms(3) by fastforce
next
  fix lims m ranked ps s0 stopped target c q
  let ?held = "own_names opts ps"
  assume c: "cancel_stale (traced B) opts (snd (s, b, [])) = (c, Inr ())"
    and target: "target_book L S s0 t st lims opts m ranked ?held stopped = Inr target"
    and ex: "execute_book (traced B) S now st lims (with_flattened L ?held prices target) prices t (s0, c)
      = ((s', b', xs), q)"
  have "snd c = []" using cancel_stale_log [OF c] by simp
  then have "od_symbol x \<in> set (keys (with_flattened L ?held prices target))"
    using execute_book_symbols [OF ex] assms(3) by simp
  also have "\<dots> \<subseteq> set (keys target) \<union> ?held" by (rule flattened_names [OF assms(1)]) simp
  finally show ?thesis using target_book_names [OF target] by fastforce
qed

definition sample_library :: library where
  "sample_library = \<lparr>lb_sort_descending = (\<lambda>d. rev (sort_key (flt_val \<circ> snd) d)),
     lb_set_order = sorted_list_of_set, lb_cov = (\<lambda>p. []), lb_corr = (\<lambda>xs ys. 0), lb_repr = (\<lambda>_. [])\<rparr>"

lemma sample_library_ok: "library_ok sample_library"
  by (simp add: library_ok_def sample_library_def)

lemma cycle_leaves_reserved_names_alone_witness:
  "\<exists>s b xs r. run_paper_cycle sample_library (traced paper_ops) mem_ops 9 9 [''ABC'', ''XYZ'']
       [(''ABC'', Fin 20), (''XYZ'', Fin 10)] default_settings None None None None
       (default_options\<lparr>co_reserved_symbols := {''XYZ''}\<rparr>)
       (sample_prices, paper_init [(''ABC'', Fin 20), (''XYZ'', Fin 10)] (Fin 1000), []) = ((s, b, xs), r)
     \<and> (\<forall>x \<in> set xs. od_symbol x \<noteq> ''XYZ'')"
proof -
  let ?opts = "default_options\<lparr>co_reserved_symbols := {''XYZ''}\<rparr>"
  obtain s b xs r where run: "run_paper_cycle sample_library (traced paper_ops) mem_ops 9 9 [''ABC'', ''XYZ'']
       [(''ABC'', Fin 20), (''XYZ'', Fin 10)] default_settings None None None None ?opts
       (sample_prices, paper_init [(''ABC'', Fin 20), (''XYZ'', Fin 10)] (Fin 1000), []) = ((s, b, xs), r)"
    by (metis prod.exhaust)
  have "od_symbol x \<noteq> ''XYZ''" if "x \<in> set xs" for x
    using cycle_leaves_reserved_names_alone [OF sample_library_ok run that] by simp
  with run show ?thesis by blast
qed

section \<open>Exits\<close>

lemma distinct_flattened:
  assumes "library_ok L" "finite hs" "distinct (keys target)"
  shows "distinct (keys (with_flattened L hs prices target))"
proof -
  have "distinct (lb_set_order L hs)" using assms by (simp add: library_ok_def)
  then show ?thesis using assms(3) by (auto simp: with_flattened_def comp_def)
qed

text \<open>C16: what must leave the book leaves it.  A name hit by one of the exit rules, and a held name that is no
  longer selected, reaches the engine with an explicit target of zero whenever it has a price; the
  only other names in what the engine is given are those of the desired book.\<close>

theorem exits_are_flattened:
  assumes "library_ok L" "finite hs"
    and "target_book L S s t st lims opts m ranked hs stopped = Inr target"
    and "sy \<in> hs" "sy \<in> set (keys prices)" "sy \<in> stopped \<or> sy \<notin> set (keys target)"
  shows "map_of (with_flattened L hs prices target) sy = Some 0
    \<and> set (keys (with_flattened L hs prices target)) \<subseteq> set (keys target) \<union> hs"
proof
  have new: "sy \<notin> set (keys target)" using assms(6) target_book_names [OF assms(3)] by blast
  have order: "set (lb_set_order L hs) = hs" using assms(1,2) by (simp add: library_ok_def)
  have "map_of target sy = None" using new by (simp add: map_of_eq_None_iff)
  moreover have "sy \<in> set (filter (\<lambda>sy. sy \<notin> set (keys target) \<and> sy \<in> set (keys prices)) (lb_set_order L hs))"
    using new order assms(4,5) by simp
  ultimately show "map_of (with_flattened L hs prices target) sy = Some 0"
    unfolding with_flattened_def map_add_Some_iff map_of_append by (auto simp: map_of_map_restrict comp_def)
  show "set (keys (with_flattened L hs prices target)) \<subseteq> set (keys target) \<union> hs"
    by (rule flattened_names [OF assms(1,2)])
qed

lemma exits_are_flattened_witness:
  "\<exists>target. target_book sample_library mem_ops mem_empty 9 default_settings default_limits default_options
       \<lparr>fm_symbols = [''A'', ''B''], fm_columns = []\<rparr> [(''A'', 1), (''B'', 0)] {''B''} {''B''} = Inr target
     \<and> map_of (with_flattened sample_library {''B''} [(''B'', Fin 5)] target) ''B'' = Some 0"
proof -
  obtain target where t: "target_book sample_library mem_ops mem_empty 9 default_settings default_limits
      default_options \<lparr>fm_symbols = [''A'', ''B''], fm_columns = []\<rparr> [(''A'', 1), (''B'', 0)] {''B''} {''B''} = Inr target"
    by (simp add: target_book_def default_options_def)
  from exits_are_flattened [OF sample_library_ok _ t, of "''B''" "[(''B'', Fin 5)]"] t show ?thesis by auto
qed

section \<open>Hysteresis\<close>

text \<open>C17: the selection churns only through its bands.  With the exit band no narrower than the entry band,
  the selected names are distinct and at most \<open>cap\<close>; a name that was not held is among the top
  \<open>enter_k\<close>, a held name among the top \<open>exit_k\<close>; and a held name inside the exit band is given up
  only when the cap is already filled with held names, never for a new entrant.\<close>

theorem hysteresis_spec:
  assumes "distinct ranked" "0 \<le> enter_k" "enter_k \<le> exit_k" "0 \<le> cap"
    and "picked = select_with_hysteresis ranked hs enter_k exit_k (Some cap)"
  shows "distinct picked \<and> int (length picked) \<le> cap
    \<and> (\<forall>sy \<in> set picked. sy \<in> set (take (nat (if sy \<in> hs then exit_k else enter_k)) ranked))
    \<and> ((\<exists>sy \<in> set (take (nat exit_k) ranked). sy \<in> hs \<and> sy \<notin> set picked) \<longrightarrow>
        int (length picked) = cap \<and> set picked \<subseteq> hs)"
proof -
  let ?kept = "filter (\<lambda>sy. sy \<in> hs \<and> sy \<in> set (take (nat exit_k) ranked)) ranked"
  let ?new = "filter (\<lambda>sy. sy \<notin> hs) (take (nat enter_k) ranked)"
  have picked: "picked = take (nat cap) (?kept @ ?new)"
    using assms by (simp add: select_with_hysteresis_def py_head_def Let_def)
  have d: "distinct (?kept @ ?new)" using assms(1) by auto
  then have "distinct picked" unfolding picked by (rule distinct_take)
  moreover have "int (length picked) \<le> cap" unfolding picked length_take using assms(4) by linarith
  moreover have "set picked \<subseteq> set (?kept @ ?new)" unfolding picked by (rule set_take_subset)
  then have "\<forall>sy \<in> set picked. sy \<in> set (take (nat (if sy \<in> hs then exit_k else enter_k)) ranked)" by auto
  moreover have "int (length picked) = cap \<and> set picked \<subseteq> hs"
    if lost: "sy \<in> set (take (nat exit_k) ranked)" "sy \<in> hs" "sy \<notin> set picked" for sy
  proof -
    have "sy \<in> set ?kept" using lost(1,2) by (auto dest: in_set_takeD)
    then have "\<not> length ?kept \<le> nat cap" using lost(3) unfolding picked by auto
    then show ?thesis using assms(4) unfolding picked by (auto dest: in_set_takeD)
  qed
  ultimately show ?thesis by blast
qed

lemma hysteresis_spec_witness:
  "select_with_hysteresis [''A'', ''B'', ''C'', ''D''] {''C'', ''D''} 2 3 (Some 2) = [''C'', ''A'']
   \<and> int (length [''C'', ''A'']) \<le> 2"
proof -
  have "select_with_hysteresis [''A'', ''B'', ''C'', ''D''] {''C'', ''D''} 2 3 (Some 2) = [''C'', ''A'']"
    by (simp add: select_with_hysteresis_def py_head_def)
  with hysteresis_spec [of "[''A'', ''B'', ''C'', ''D'']" 2 3 2 "[''C'', ''A'']" "{''C'', ''D''}"] show ?thesis by simp
qed

section \<open>The engine accepts the book\<close>

lemma all_fin: "(\<forall>x \<in> set xs. is_fin x) \<Longrightarrow> \<exists>rs. xs = map Fin rs"
  by (rule exI [of _ "map flt_val xs"]) (auto simp: is_fin_iff intro!: map_idI [symmetric])

lemma fmean_fin: "xs \<noteq> [] \<Longrightarrow> \<forall>x \<in> set xs. is_fin x \<Longrightarrow> is_fin (fmean xs)"
  by (drule all_fin) (auto simp: fmean_def sum_list_Fin [of id, simplified] is_fin_iff)

lemma zip_fin_book: "length ks = length rs \<Longrightarrow> zip ks (map Fin rs) = fin_book (zip ks rs)"
  by (simp add: fin_book_def map_vals_def zip_map2)

lemma scaled_fin:
  assumes "\<forall>x \<in> set xs. is_fin x" "0 < series_sum xs"
  shows "\<exists>rs. map (\<lambda>x. fdiv x (series_sum xs)) xs = map Fin rs"
proof -
  obtain rs where rs: "xs = map Fin rs" using all_fin [OF assms(1)] by blast
  have "0 < sum_list rs" using assms(2) unfolding rs series_sum_Fin zero_flt_def by simp
  then show ?thesis unfolding rs series_sum_Fin by (intro exI [of _ "map (\<lambda>x. x / sum_list rs) rs"]) simp
qed

lemma series_mean_fin:
  assumes "\<exists>x \<in> set xs. x \<noteq> NaN" "\<And>x. x \<in> set xs \<Longrightarrow> x \<noteq> NaN \<Longrightarrow> is_fin x"
  shows "is_fin (series_mean xs)"
proof -
  have "filter (\<lambda>x. x \<noteq> NaN) xs \<noteq> []" using assms(1) by (simp add: filter_empty_conv)
  moreover from this have "is_fin (fmean (filter (\<lambda>x. x \<noteq> NaN) xs))"
    by (rule fmean_fin) (use assms(2) in simp)
  ultimately show ?thesis by (simp add: series_mean_def)
qed

lemma inverse_vol_shares_fin:
  assumes "inverse_vol_shares vol = Some ws"
  shows "\<exists>rs. ws = map Fin rs \<and> length rs = length vol"
proof -
  define inv where "inv = map (\<lambda>v. if 0 < v then fdiv 1 v else NaN) vol"
  define filled where "filled = map (\<lambda>x. if x = NaN then series_mean inv else x) inv"
  have ws: "\<exists>x \<in> set inv. x \<noteq> NaN" "0 < series_sum filled" "ws = map (\<lambda>x. fdiv x (series_sum filled)) filled"
    using assms unfolding inverse_vol_shares_def Let_def inv_def [symmetric] filled_def [symmetric]
    by (simp_all split: if_splits)
  have part: "is_fin x" if "x \<in> set inv" "x \<noteq> NaN" for x
  proof -
    from that obtain v where "0 < v" "x = fdiv 1 v" unfolding inv_def by (auto split: if_splits)
    then show ?thesis by (cases v) (simp_all add: flt_consts is_fin_def)
  qed
  have "\<forall>x \<in> set filled. is_fin x"
    using part series_mean_fin [OF ws(1) part] by (auto simp: filled_def)
  from scaled_fin [OF this ws(2)] obtain rs where rs: "ws = map Fin rs" unfolding ws(3) by blast
  have "length ws = length vol" by (simp add: ws(3) filled_def inv_def)
  with rs show ?thesis by auto
qed

lemma inverse_vol_fin:
  assumes "inverse_vol_weights selected m = Some ws"
  shows "\<exists>rs. ws = fin_book rs"
proof -
  from assms obtain vol shares where "ws = zip selected shares" "inverse_vol_shares vol = Some shares"
    "length vol = length selected"
    by (auto simp: inverse_vol_weights_def split: list.splits)
  with inverse_vol_shares_fin zip_fin_book show ?thesis by metis
qed

lemma risk_weights_fin:
  assumes "mode \<noteq> ''conviction''"
  shows "\<exists>rs. risk_weights selected m mode sc = fin_book rs"
proof -
  have "flat_weights selected = fin_book (map (\<lambda>s. (s, 1 / real (length selected))) selected)"
    by (simp add: flat_weights_def fin_book_def map_vals_def comp_def)
  then have flat: "\<exists>rs. flat_weights selected = fin_book rs" by blast
  have "\<exists>rs. [] = fin_book rs" by (rule exI [of _ "[]"]) simp
  with flat show ?thesis
    unfolding risk_weights_def using assms inverse_vol_fin by (auto split: option.split)
qed

lemma fin_book_keys: "keys (fin_book rs) = keys rs"
  by simp

text \<open>Zeros change no limit.\<close>

lemma zeros_within_limits:
  assumes "within_limits lims ws" "finite_limits lims m g n c"
  shows "within_limits lims (ws @ map (\<lambda>s. (s, 0)) zs)"
proof -
  have lim: "lim_max_position_weight lims = Fin m" "lim_max_gross_exposure lims = Fin g"
    "lim_max_net_exposure lims = Fin n" "0 \<le> m" "0 \<le> g" "0 \<le> n" using assms(2) by (simp_all add: finite_limits_def)
  have z: "sum_list (map (\<lambda>s. 0 :: flt) zs) = 0" by (induction zs) simp_all
  have zero: "\<bar>0 :: flt\<bar> = 0" by (simp add: zero_flt_def)
  have ok0: "\<not> Fin r + weight_tol < 0" if "0 \<le> r" for r using that by (simp add: zero_flt_def)
  show ?thesis
  proof (cases "ws = []")
    case True
    then show ?thesis using lim ok0 by (auto simp: within_limits_def comp_def z zero)
  next
    case False
    then show ?thesis using assms(1) lim ok0 by (auto simp: within_limits_def comp_def z zero)
  qed
qed

lemma limited_within:
  assumes "finite_limits lims m g n c" "distinct (keys rs)"
  shows "within_limits lims (apply_risk_limits (fin_book rs) lims None)"
proof -
  obtain ys where ys: "apply_risk_limits (fin_book rs) lims None = fin_book (filter (\<lambda>x. snd x \<noteq> 0) ys)"
    "\<forall>y \<in> set ys. \<bar>snd y\<bar> \<le> m" "sum_list (map abs (vals ys)) \<le> g"
    "\<bar>sum_list (vals ys)\<bar> \<le> n + 1 / 10 ^ 12" using limited_book [OF assms(1)] by blast
  have lims: "lim_max_position_weight lims = Fin m" "lim_max_gross_exposure lims = Fin g"
    "lim_max_net_exposure lims = Fin n" using assms(1) by (simp_all add: finite_limits_def)
  have "sum_list (map abs (vals (fin_book (filter (\<lambda>x. snd x \<noteq> 0) ys)))) = Fin (sum_list (map abs (vals ys)))"
    "sum_list (vals (fin_book (filter (\<lambda>x. snd x \<noteq> 0) ys))) = Fin (sum_list (vals ys))"
    by (simp_all add: vals_fin_book sum_list_Fin comp_def drop_zero_sums [unfolded map_map comp_def])
  then show ?thesis
    using ys(2-4) sums_le_tol [OF ys(4)] unfolding within_limits_def lims ys(1)
    by (fastforce simp: fin_book_def map_vals_def)
qed

lemma distinct_py_head: "distinct xs \<Longrightarrow> distinct (py_head k xs)"
  by (simp add: py_head_def)

lemma distinct_winners: "distinct ranked \<Longrightarrow> distinct (pick_winners opts hs stopped ranked)"
proof -
  assume d: "distinct ranked"
  have sel: "distinct (filter (\<lambda>s. s \<in> hs \<and> P s) ranked @ filter (\<lambda>s. s \<notin> hs) (py_head k ranked))" for P k
    using d distinct_py_head [OF d] by auto
  have "distinct (select_with_hysteresis ranked hs e x cap)" for e x cap
    unfolding select_with_hysteresis_def Let_def
    by (cases cap) (simp_all only: option.case sel distinct_py_head)
  then show ?thesis by (simp add: pick_winners_def)
qed

text \<open>C8: the engine never refuses the cycle's own book.  With equal or inverse-volatility weighting, the
  default, and finite limits, the target with its added zeros passes the engine's limit check for
  every name, whatever the scores and prices are, NaN and infinite ones included.\<close>

theorem cycle_book_passes_the_engine:
  assumes "library_ok L" "finite hs" "finite_limits lims m g n c" "distinct (keys ranked)"
    and "co_risk_weighting opts \<notin> {''size_book'', ''vol_target'', ''conviction''}"
    and "target_book L S s t st lims opts fm ranked hs stopped = Inr target"
  shows "check_targets lims (with_flattened L hs prices target) (with_flattened L hs prices target) = Inr ()"
proof -
  let ?W = "pick_winners opts hs stopped (keys ranked)"
  have target: "\<exists>rs. target = apply_risk_limits (fin_book rs) lims None \<and> distinct (keys rs)"
  proof (cases "ranked = []")
    case True
    then have "target = apply_risk_limits (fin_book []) lims None"
      using assms(6) by (simp add: target_book_def apply_risk_limits_def)
    then show ?thesis by (intro exI [of _ "[]"]) simp
  next
    case False
    then have t: "target = apply_risk_limits (risk_weights ?W fm (co_risk_weighting opts) (Some ranked)) lims None"
      using assms(5,6) by (simp add: target_book_def)
    obtain rs where rs: "risk_weights ?W fm (co_risk_weighting opts) (Some ranked) = fin_book rs"
      using risk_weights_fin assms(5) by blast
    have "keys rs = ?W" using risk_weights_keys [of ?W fm "co_risk_weighting opts" "Some ranked"] rs by simp
    moreover have "distinct ?W" using assms(4) distinct_winners by blast
    ultimately show ?thesis using t rs by auto
  qed
  then obtain rs where rs: "target = apply_risk_limits (fin_book rs) lims None" "distinct (keys rs)" by blast
  have "within_limits lims target" unfolding rs(1) using assms(3) rs(2) by (rule limited_within)
  then have "within_limits lims (with_flattened L hs prices target)"
    unfolding with_flattened_def using assms(3) by (rule zeros_within_limits)
  moreover have "distinct (keys target)"
    unfolding rs(1) by (rule subseq_distinct [OF apply_risk_limits_keys]) (use rs(2) in simp)
  then have "distinct (keys (with_flattened L hs prices target))"
    using assms(1,2) by (intro distinct_flattened)
  ultimately show ?thesis unfolding check_targets_ok by (simp only: check_all_within_limits)
qed

lemma cycle_book_passes_the_engine_witness:
  "\<exists>target. target_book sample_library mem_ops mem_empty 9 default_settings default_limits default_options
       \<lparr>fm_symbols = [''A'', ''B''], fm_columns = []\<rparr> [(''A'', PInf), (''B'', 0)] {''C''} {} = Inr target
     \<and> check_targets default_limits (with_flattened sample_library {''C''} [(''C'', Fin 5)] target)
         (with_flattened sample_library {''C''} [(''C'', Fin 5)] target) = Inr ()"
proof -
  obtain target where t: "target_book sample_library mem_ops mem_empty 9 default_settings default_limits
      default_options \<lparr>fm_symbols = [''A'', ''B''], fm_columns = []\<rparr> [(''A'', PInf), (''B'', 0)] {''C''} {} = Inr target"
    by (simp add: target_book_def default_options_def)
  have "finite_limits default_limits (1 / 10) 1 1 (3 / 10)"
    by (simp add: finite_limits_def default_limits_def flt_consts)
  from cycle_book_passes_the_engine [OF sample_library_ok _ this _ _ t, of "[(''C'', Fin 5)]"] t
  show ?thesis by (auto simp: default_options_def)
qed

end
