(* ===== verification/Backtest.thy ===== *)
theory Backtest
  imports Allocation Validation
begin

text \<open>
  The backtester: \<open>backtest/types.py\<close>, \<open>backtest/strategies.py\<close> and \<open>backtest/engine.py\<close>.  A strategy maps
  the panel it may see, cut at the decision time, and the time to target weights.  \<open>sort_values\<close>
  (\<open>desc\<close>, \<open>asc\<close>) and the Ledoit-Wolf estimate are parameters; a map of precomputed scores gives
  the Series of a rebalance date.
\<close>

section \<open>Strategies\<close>

record strategy =
  sg_name :: string
  sg_target_weights :: "panel \<Rightarrow> datetime \<Rightarrow> weights res"

type_synonym series = "(string, flt) dict"
type_synonym score_map = "datetime \<Rightarrow> series option"

text \<open>\<open>_zscore\<close> of \<open>strategies.py\<close>: no spread gives zeros.\<close>

definition zscore :: "flt list \<Rightarrow> flt list" where
  "zscore v =
     (let sd = series_std 0 v in
      if sd = NaN \<or> sd = Fin 0 then map (\<lambda>x. 0) v
      else map (\<lambda>x. fdiv (x - series_mean v) sd) v)"

definition even_weights :: "string list \<Rightarrow> weights" where
  "even_weights names = map (\<lambda>s. (s, Fin (1 / real (length names)))) names"

text \<open>\<open>1.0 / len(top)\<close> raises when nothing is left.\<close>

definition even_book :: "string list \<Rightarrow> weights res" where
  "even_book names = (if names = [] then Inl ZeroDivisionError else Inr (even_weights names))"

definition equal_weight_target :: "panel \<Rightarrow> weights" where
  "equal_weight_target view = even_weights (panel_universe view)"

definition equal_weight_strategy :: strategy where
  "equal_weight_strategy =
     \<lparr>sg_name = ''equal_weight'', sg_target_weights = (\<lambda>view as_of. Inr (equal_weight_target view))\<rparr>"

definition last_window_change :: "panel \<Rightarrow> nat \<Rightarrow> series" where
  "last_window_change p lookback =
     (let rows = pn_rows p; n = length rows
      in zip (pn_columns p)
           (map2 (\<lambda>v u. fdiv v u - 1) (snd (rows ! (n - 1))) (snd (rows ! (n - 1 - lookback)))))"

definition drop_missing :: "series \<Rightarrow> series" where
  "drop_missing d = filter (\<lambda>(k, v). v \<noteq> NaN) d"

definition momentum_strategy :: "(series \<Rightarrow> series) \<Rightarrow> nat \<Rightarrow> real \<Rightarrow> strategy" where
  "momentum_strategy desc lookback top_fraction =
     \<lparr>sg_name = ''momentum'',
      sg_target_weights = (\<lambda>view as_of.
        if panel_empty view \<or> length (pn_rows view) \<le> lookback then Inr (equal_weight_target view)
        else let mom = drop_missing (last_window_change (ffill view) lookback);
                 k = max 1 (trunc (real (length mom) * top_fraction))
             in Inr (even_weights (keys (py_head k (desc mom)))))\<rparr>"

record composite_params =
  cp_momentum_lookback :: nat
  cp_meanrev_lookback :: nat
  cp_vol_window :: nat
  cp_max_positions :: int
  cp_top_quantile :: real

text \<open>One row per name with all three features: momentum, mean reversion, volatility.\<close>

definition composite_features :: "composite_params \<Rightarrow> panel \<Rightarrow> (string \<times> flt \<times> flt \<times> flt) list" where
  "composite_features c p =
     (let rets = pct_change p;
          mom = last_window_change p (cp_momentum_lookback c);
          rev = map_vals uminus (last_window_change p (cp_meanrev_lookback c))
      in filter (\<lambda>(s, a, b, v). a \<noteq> NaN \<and> b \<noteq> NaN \<and> v \<noteq> NaN)
           (map (\<lambda>s. (s, dict_get NaN mom s, dict_get NaN rev s,
                      series_std 1 (tail_of (cp_vol_window c) (column rets s)))) (pn_columns p)))"

definition composite_target ::
  "(series \<Rightarrow> series) \<Rightarrow> composite_params \<Rightarrow> series option \<Rightarrow> panel \<Rightarrow> weights res" where
  "composite_target desc c scores view =
     (let p = ffill view; n = length (pn_rows p) in
      if n \<le> cp_momentum_lookback c + 1 then Inr (equal_weight_target view)
      else if n \<le> cp_meanrev_lookback c then Inl IndexError
      else
        let feat = composite_features c p; names = map fst feat in
        if feat = [] then Inr []
        else
          let base = [zscore (map (\<lambda>(s, a, b, v). a) feat), zscore (map (\<lambda>(s, a, b, v). b) feat),
                      zscore (map (\<lambda>(s, a, b, v). v) feat)];
              z = (case scores of None \<Rightarrow> base
                   | Some sc \<Rightarrow> base @ [zscore (map (\<lambda>s. fill0 (dict_get NaN sc s)) names)]);
              composite = map (\<lambda>i. (names ! i, series_mean (map (\<lambda>col. col ! i) z))) [0..<length names];
              k = max 1 (min (cp_max_positions c) (trunc (real (length composite) * cp_top_quantile c)));
              winners = keys (py_head k (desc composite));
              vols = map (\<lambda>(s, a, b, v). (s, v)) feat
          in case inverse_vol_shares (map (dict_get NaN vols) winners) of
               Some shares \<Rightarrow> Inr (zip winners shares)
             | None \<Rightarrow> Inr (even_weights winners))"

definition composite_strategy ::
  "(series \<Rightarrow> series) \<Rightarrow> composite_params \<Rightarrow> score_map option \<Rightarrow> strategy" where
  "composite_strategy desc c insider_scores =
     \<lparr>sg_name = ''composite'',
      sg_target_weights = (\<lambda>view as_of. composite_target desc c (Option.bind insider_scores (\<lambda>f. f as_of)) view)\<rparr>"

text \<open>The volatility governor around any strategy; an empty book stays empty.\<close>

definition vol_targeted_strategy ::
  "(panel \<Rightarrow> flt list list) \<Rightarrow> strategy \<Rightarrow> flt \<Rightarrow> flt \<Rightarrow> nat \<Rightarrow> string \<Rightarrow> strategy" where
  "vol_targeted_strategy cov inner vol_budget max_gross lookback name =
     \<lparr>sg_name = name,
      sg_target_weights = (\<lambda>view as_of.
        case sg_target_weights inner view as_of of
          Inl e \<Rightarrow> Inl e
        | Inr ws \<Rightarrow>
            if ws = [] then Inr ws
            else let rets = returns_panel view
                 in Inr (vol_target_weights cov ws (rets\<lparr>pn_rows := tail_of lookback (pn_rows rets)\<rparr>)
                           vol_budget max_gross))\<rparr>"

definition long_short_target :: "(series \<Rightarrow> series) \<Rightarrow> int \<Rightarrow> flt \<Rightarrow> series \<Rightarrow> string list \<Rightarrow> weights" where
  "long_short_target asc per_side gross scores tradable =
     (let active = filter (\<lambda>(s, v). v \<noteq> Fin 0 \<and> s \<in> set tradable) (drop_missing scores);
          ranked = keys (asc active);
          k = min per_side (int (length ranked div 2))
      in if k < 1 then []
         else let per = fdiv gross (Fin (2 * of_int k))
              in map (\<lambda>s. (s, - per)) (take (nat k) ranked)
                 @ map (\<lambda>s. (s, per)) (drop (length ranked - nat k) ranked))"

definition long_short_insider_strategy ::
  "(series \<Rightarrow> series) \<Rightarrow> score_map \<Rightarrow> int \<Rightarrow> flt \<Rightarrow> strategy" where
  "long_short_insider_strategy asc insider_scores per_side gross =
     \<lparr>sg_name = ''ls_insider'',
      sg_target_weights = (\<lambda>view as_of. case insider_scores as_of of
          None \<Rightarrow> Inr []
        | Some scores \<Rightarrow> Inr (long_short_target asc per_side gross scores (panel_universe view)))\<rparr>"

text \<open>The two books of the top names; \<open>pick\<close> says which names may enter.\<close>

definition top_book ::
  "(series \<Rightarrow> series) \<Rightarrow> (flt \<Rightarrow> bool) \<Rightarrow> int \<Rightarrow> series \<Rightarrow> string list \<Rightarrow> weights res" where
  "top_book desc pick max_positions scores tradable =
     (let ranked = filter (\<lambda>(s, v). pick v \<and> s \<in> set tradable) (drop_missing scores)
      in if ranked = [] then Inr [] else even_book (keys (py_head max_positions (desc ranked))))"

definition insider_long_strategy :: "(series \<Rightarrow> series) \<Rightarrow> score_map \<Rightarrow> int \<Rightarrow> strategy" where
  "insider_long_strategy desc insider_scores max_positions =
     \<lparr>sg_name = ''insider_long'',
      sg_target_weights = (\<lambda>view as_of. case insider_scores as_of of
          None \<Rightarrow> Inr []
        | Some scores \<Rightarrow> top_book desc (\<lambda>v. 0 < v) max_positions scores (panel_universe view))\<rparr>"

definition stacked_signal_strategy :: "(series \<Rightarrow> series) \<Rightarrow> score_map \<Rightarrow> int \<Rightarrow> strategy" where
  "stacked_signal_strategy desc scores max_positions =
     \<lparr>sg_name = ''stacked'',
      sg_target_weights = (\<lambda>view as_of. case scores as_of of
          None \<Rightarrow> Inr []
        | Some score \<Rightarrow> top_book desc (\<lambda>v. True) max_positions score (panel_universe view))\<rparr>"

definition score_tilt_target :: "series option \<Rightarrow> flt \<Rightarrow> string list \<Rightarrow> weights" where
  "score_tilt_target score tilt_strength tradable =
     (case score of
        None \<Rightarrow> even_weights tradable
      | Some sc \<Rightarrow>
          (let z = map (clip (- 3) 3) (zscore (map (\<lambda>s. fill0 (dict_get NaN sc s)) tradable));
               tilt = map (\<lambda>x. fexp (tilt_strength * x)) z;
               total = series_sum tilt
           in if 0 < total then zip tradable (map (\<lambda>x. fdiv x total) tilt) else even_weights tradable))"

definition score_tilt_strategy :: "score_map \<Rightarrow> flt \<Rightarrow> strategy" where
  "score_tilt_strategy scores tilt_strength =
     \<lparr>sg_name = ''tilt'',
      sg_target_weights = (\<lambda>view as_of.
        Inr (score_tilt_target (scores as_of) tilt_strength (panel_universe view)))\<rparr>"

definition sized_book_strategy ::
  "(panel \<Rightarrow> flt list list) \<Rightarrow> flt \<Rightarrow> risk_limits \<Rightarrow> score_map option \<Rightarrow> flt \<Rightarrow> nat \<Rightarrow> strategy" where
  "sized_book_strategy cov vol_budget lims scores tilt_strength lookback =
     \<lparr>sg_name = ''sized'',
      sg_target_weights = (\<lambda>view as_of.
        let returns = returns_panel view;
            tradable = filter (\<lambda>s. s \<in> set (pn_columns returns)) (panel_universe view)
        in if panel_empty returns \<or> tradable = [] then Inr []
           else Inr (size_book cov (panel_select returns tradable) vol_budget lims
                       (Option.bind scores (\<lambda>f. f as_of)) tilt_strength lookback None 1))\<rparr>"

text \<open>\<open>portfolio/risk.py\<close>: a strategy whose targets always pass through the risk limits.\<close>

definition risk_managed_strategy ::
  "strategy \<Rightarrow> risk_limits \<Rightarrow> (string, string) dict option \<Rightarrow> string \<Rightarrow> strategy" where
  "risk_managed_strategy base lims sectors name =
     \<lparr>sg_name = name,
      sg_target_weights = (\<lambda>view as_of. case sg_target_weights base view as_of of
          Inl e \<Rightarrow> Inl e
        | Inr raw \<Rightarrow> Inr (apply_risk_limits raw lims sectors))\<rparr>"

section \<open>The engine\<close>

record backtest_state =
  bt_gross :: "(datetime \<times> flt) list"
  bt_costs :: "(datetime \<times> flt) list"
  bt_turnover :: "(datetime, flt) dict"

definition restrict_columns :: "string list option \<Rightarrow> panel \<Rightarrow> panel" where
  "restrict_columns names p =
     (case names of None \<Rightarrow> p
      | Some ns \<Rightarrow> panel_select p (filter (\<lambda>c. c \<in> set ns) (pn_columns p)))"

definition book_return :: "string list \<Rightarrow> weights \<Rightarrow> flt list \<Rightarrow> flt" where
  "book_return cols w row = series_sum (map2 (\<lambda>c v. fill0 v * fill0 (dict_get NaN w c)) cols row)"

text \<open>The bars a book is held over: strictly after its decision, up to the next one.\<close>

definition held_rows :: "panel \<Rightarrow> datetime \<Rightarrow> datetime \<Rightarrow> (datetime \<times> flt list) list" where
  "held_rows returns t t_next = filter (\<lambda>r. t < fst r \<and> fst r \<le> t_next) (pn_rows returns)"

definition assign_days :: "(datetime \<times> flt) list \<Rightarrow> (datetime \<times> flt) list \<Rightarrow> (datetime \<times> flt) list" where
  "assign_days contrib g = map (\<lambda>(d, v). (d, dict_get v contrib d)) g"

definition charge_day :: "datetime \<Rightarrow> flt \<Rightarrow> (datetime \<times> flt) list \<Rightarrow> (datetime \<times> flt) list" where
  "charge_day day c g = map (\<lambda>(d, v). (d, if d = day then v + c else v)) g"

definition settle ::
  "costs \<Rightarrow> panel \<Rightarrow> datetime \<Rightarrow> datetime \<Rightarrow> weights \<Rightarrow> weights \<Rightarrow> backtest_state \<Rightarrow> backtest_state" where
  "settle model returns t t_next prev_w w bt =
     (let bt1 = bt\<lparr>bt_turnover := dict_set t (one_way_turnover prev_w w) (bt_turnover bt)\<rparr>;
          window = held_rows returns t t_next
      in case window of
           [] \<Rightarrow> bt1
         | r # rs \<Rightarrow>
             bt1\<lparr>bt_gross := assign_days (map (\<lambda>r. (fst r, book_return (pn_columns returns) w (snd r))) window)
                               (bt_gross bt),
                 bt_costs := charge_day (fst r)
                   (co_turnover model prev_w w + co_holding model w (max 0 (td_days (t_next - t)))) (bt_costs bt)\<rparr>)"

fun backtest_loop ::
  "strategy \<Rightarrow> costs \<Rightarrow> panel \<Rightarrow> panel \<Rightarrow> datetime list \<Rightarrow> weights \<Rightarrow> backtest_state \<Rightarrow> backtest_state res" where
  "backtest_loop sg model p returns [] prev_w bt = Inr bt"
| "backtest_loop sg model p returns (t # ts) prev_w bt =
     (case sg_target_weights sg (panel_slice p t) t of
        Inl e \<Rightarrow> Inl e
      | Inr w \<Rightarrow>
          backtest_loop sg model p returns ts w
            (settle model returns t (case ts of [] \<Rightarrow> last (panel_index returns) | u # us \<Rightarrow> u) prev_w w bt))"

record backtest_result =
  br_strategy_name :: string
  br_net_returns :: "(datetime \<times> flt) list"
  br_gross_returns :: "(datetime \<times> flt) list"
  br_equity_curve :: "(datetime \<times> flt) list"
  br_turnover :: "(datetime \<times> flt) list"
  br_summary :: performance_summary

definition trading_days :: nat where "trading_days = 252"

definition backtest_panel ::
  "strategy \<Rightarrow> datetime list \<Rightarrow> costs \<Rightarrow> panel \<Rightarrow> nat \<Rightarrow> backtest_result res" where
  "backtest_panel sg rebalances model p periods =
     (let returns = pct_change p;
          zeros = map (\<lambda>d. (d, 0)) (panel_index returns)
      in case backtest_loop sg model p returns rebalances []
                \<lparr>bt_gross = zeros, bt_costs = zeros, bt_turnover = []\<rparr> of
           Inl e \<Rightarrow> Inl e
         | Inr bt \<Rightarrow>
             let active = filter (\<lambda>dv. hd rebalances < fst dv);
                 net = active (map2 (\<lambda>(d, g) (d', c). (d, g - c)) (bt_gross bt) (bt_costs bt));
                 turnover = sort_key fst (bt_turnover bt)
             in Inr \<lparr>br_strategy_name = sg_name sg, br_net_returns = net, br_gross_returns = active (bt_gross bt),
                     br_equity_curve = zip (map fst net) (scan (*) 1 (map (\<lambda>x. 1 + x) (vals net))),
                     br_turnover = turnover, br_summary = summarize (vals net) (Some (vals turnover)) periods 0\<rparr>)"

definition run_backtest ::
  "'s store_ops \<Rightarrow> 's \<Rightarrow> strategy \<Rightarrow> datetime list \<Rightarrow> costs \<Rightarrow> string \<Rightarrow> string \<Rightarrow> nat \<Rightarrow> string list option
   \<Rightarrow> backtest_result res" where
  "run_backtest S s sg schedule model dataset price_field periods names =
     (if schedule = [] then Inl ValueError
      else case store_panel S s DISTANT_FUTURE dataset price_field of
        Inl e \<Rightarrow> Inl e
      | Inr p0 \<Rightarrow>
          (let p = restrict_columns names p0
           in if panel_empty p then Inl ValueError else backtest_panel sg (sort schedule) model p periods))"

definition realized_returns :: "'s store_ops \<Rightarrow> 's \<Rightarrow> string \<Rightarrow> string \<Rightarrow> panel res" where
  "realized_returns S s dataset price_field =
     (case store_panel S s DISTANT_FUTURE dataset price_field of
        Inl e \<Rightarrow> Inl e
      | Inr p \<Rightarrow> Inr (if panel_empty p then p else pct_change p))"

definition buy_and_hold_summary ::
  "'s store_ops \<Rightarrow> 's \<Rightarrow> string \<Rightarrow> string \<Rightarrow> nat \<Rightarrow> datetime option \<Rightarrow> string list option
   \<Rightarrow> performance_summary res" where
  "buy_and_hold_summary S s dataset price_field periods start_after names =
     (case realized_returns S s dataset price_field of
        Inl e \<Rightarrow> Inl e
      | Inr r0 \<Rightarrow>
          (let r = restrict_columns names r0 in
           if panel_empty r then Inl ValueError
           else let rows = (case start_after of None \<Rightarrow> pn_rows r | Some d \<Rightarrow> filter (\<lambda>x. d < fst x) (pn_rows r));
                    equity = scan (\<lambda>e xs. map2 (\<lambda>u v. u * (1 + fill0 v)) e xs)
                               (map (\<lambda>_. 1) (pn_columns r)) (map snd rows);
                    portfolio = map series_mean equity;
                    daily = map2 (\<lambda>v u. fill0 (fdiv v u - 1)) portfolio (NaN # portfolio)
                in Inr (summarize daily (Some []) periods 0)))"

definition compare_to_baselines ::
  "'s store_ops \<Rightarrow> 's \<Rightarrow> strategy \<Rightarrow> datetime list \<Rightarrow> costs \<Rightarrow> string \<Rightarrow> string \<Rightarrow> nat
   \<Rightarrow> (string, performance_summary) dict res" where
  "compare_to_baselines S s sg schedule model dataset price_field periods =
     (let rebalances = sort schedule in
      case run_backtest S s sg rebalances model dataset price_field periods None of Inl e \<Rightarrow> Inl e | Inr candidate \<Rightarrow>
      case run_backtest S s equal_weight_strategy rebalances model dataset price_field periods None of
        Inl e \<Rightarrow> Inl e
      | Inr ew \<Rightarrow>
      case buy_and_hold_summary S s dataset price_field periods (Some (hd rebalances)) None of
        Inl e \<Rightarrow> Inl e
      | Inr bnh \<Rightarrow>
          (let out = [(br_strategy_name candidate, br_summary candidate)];
               out' = (if ''equal_weight'' \<in> set (keys out) then out else dict_set ''equal_weight'' (br_summary ew) out)
           in Inr (dict_set ''buy_and_hold'' bnh out')))"

section \<open>No look-ahead\<close>

definition past :: "datetime \<Rightarrow> (datetime \<times> 'a) list \<Rightarrow> (datetime \<times> 'a) list" where
  "past d xs = filter (\<lambda>x. fst x \<le> d) xs"

text \<open>Two panels agree up to a time when they have the same columns, the names that are ever priced, and the
  same rows up to it: their cuts at that time are the same, since a cut keeps every column.\<close>

definition agree_until :: "datetime \<Rightarrow> panel \<Rightarrow> panel \<Rightarrow> bool" where
  "agree_until d p q \<longleftrightarrow> pn_columns p = pn_columns q \<and> past d (pn_rows p) = past d (pn_rows q)"

lemma agree_slice: "agree_until d p q \<longleftrightarrow> panel_slice p d = panel_slice q d"
  by (cases p; cases q) (auto simp: agree_until_def panel_slice_def past_def)

lemma agree_earlier: "agree_until d p q \<Longrightarrow> t \<le> d \<Longrightarrow> panel_slice p t = panel_slice q t"
proof -
  assume a: "agree_until d p q" and t: "t \<le> d"
  have "filter (\<lambda>x. fst x \<le> d \<and> fst x \<le> t) xs = filter (\<lambda>x. fst x \<le> t) xs" for xs :: "(datetime \<times> flt list) list"
    by (rule filter_cong) (use t in auto)
  then have "panel_slice (panel_slice r d) t = panel_slice r t" for r by (simp add: panel_slice_def)
  then show ?thesis using a unfolding agree_slice by metis
qed

lemma agree_columns: "agree_until d p q \<Longrightarrow> pn_columns p = pn_columns q"
  by (simp add: agree_until_def)

lemma past_prefix: "sorted (map fst xs) \<Longrightarrow> past d xs = takeWhile (\<lambda>x. fst x \<le> d) xs"
proof (induction xs)
  case (Cons x xs)
  have "takeWhile (\<lambda>x. fst x \<le> d) xs = []" if "d < fst x"
    using Cons.prems that by (cases xs) auto
  then show ?case using Cons by (auto simp: past_def not_le)
qed (simp add: past_def)

lemma change_prefix:
  "takeWhile (\<lambda>x. fst x \<le> d) (map2 (\<lambda>r prev. (fst r, g r prev)) xs (z # map snd xs))
   = (let ys = takeWhile (\<lambda>x. fst x \<le> d) xs in map2 (\<lambda>r prev. (fst r, g r prev)) ys (z # map snd ys))"
  by (induction xs arbitrary: z) (auto simp: Let_def)

text \<open>The returns of a sorted panel up to a time depend only on the panel up to that time.\<close>

lemma past_change:
  assumes "sorted (panel_index p)"
  shows "past d (pn_rows (pct_change p)) = pn_rows (pct_change (panel_slice p d))"
proof -
  let ?g = "\<lambda>r prev. map2 (\<lambda>v u. fdiv v u - 1) (snd r) prev"
  have rows: "pn_rows (pct_change r) = map2 (\<lambda>r prev. (fst r, ?g r prev)) (pn_rows r)
      (map (\<lambda>_. NaN) (pn_columns r) # map snd (pn_rows r))" for r
    by (simp add: pct_change_def Let_def)
  have "past d (pn_rows (pct_change p)) = takeWhile (\<lambda>x. fst x \<le> d) (pn_rows (pct_change p))"
    by (rule past_prefix) (use assms pct_change_index [of p] in \<open>simp add: panel_index_def\<close>)
  also have "\<dots> = pn_rows (pct_change (panel_slice p d))"
    unfolding rows change_prefix Let_def
    using past_prefix [of "pn_rows p" d] assms by (simp add: panel_index_def panel_slice_def past_def)
  finally show ?thesis .
qed

lemma map_of_past: "x \<le> d \<Longrightarrow> map_of (past d xs) x = map_of xs x"
  by (induction xs) (auto simp: past_def)

lemma past_assign:
  assumes "past d c = past d c'" "past d g = past d g'"
  shows "past d (assign_days c g) = past d (assign_days c' g')"
proof -
  have commute: "past d (assign_days c g) = assign_days c (past d g)" for c g
    by (induction g) (auto simp: past_def assign_days_def)
  have "map_of c x = map_of c' x" if "x \<le> d" for x
    using map_of_past [OF that, of c] map_of_past [OF that, of c'] assms(1) by simp
  then have "assign_days c (past d g') = assign_days c' (past d g')"
    by (auto simp: assign_days_def past_def)
  then show ?thesis using assms(2) by (simp add: commute)
qed

lemma past_charge:
  "past d (charge_day x c g) = (if x \<le> d then charge_day x c (past d g) else past d g)"
  by (induction g) (auto simp: past_def charge_day_def)

lemma past_update:
  "past d (dict_set t v xs) = (if t \<le> d then dict_set t v (past d xs) else past d xs)"
  by (induction xs) (auto simp: past_def)

lemma past_head:
  assumes "sorted (map fst xs)"
  shows "(case past d xs of [] \<Rightarrow> xs = [] \<or> d < fst (hd xs) | y # ys \<Rightarrow> xs \<noteq> [] \<and> y = hd xs \<and> fst y \<le> d)"
  using assms unfolding past_prefix [OF assms] by (cases xs) auto

text \<open>What a settlement does to each of the three records.\<close>

lemma settle_turnover:
  "bt_turnover (settle m ret t tn pw w bt) = dict_set t (one_way_turnover pw w) (bt_turnover bt)"
  by (simp add: settle_def Let_def split: list.split)

lemma settle_gross:
  "bt_gross (settle m ret t tn pw w bt) =
     assign_days (map (\<lambda>r. (fst r, book_return (pn_columns ret) w (snd r))) (held_rows ret t tn)) (bt_gross bt)"
proof -
  have "assign_days [] g = g" for g by (simp add: assign_days_def)
  then show ?thesis by (simp add: settle_def Let_def split: list.split)
qed

lemma settle_costs:
  "bt_costs (settle m ret t tn pw w bt) =
     (case held_rows ret t tn of [] \<Rightarrow> bt_costs bt
      | r # rs \<Rightarrow> charge_day (fst r)
          (co_turnover m pw w + co_holding m w (max 0 (td_days (tn - t)))) (bt_costs bt))"
  by (simp add: settle_def Let_def split: list.split)

definition same_past :: "datetime \<Rightarrow> backtest_state \<Rightarrow> backtest_state \<Rightarrow> bool" where
  "same_past d a b \<longleftrightarrow> past d (bt_gross a) = past d (bt_gross b) \<and> past d (bt_costs a) = past d (bt_costs b)
     \<and> past d (bt_turnover a) = past d (bt_turnover b)"

lemma past_map: "past d (map (\<lambda>r. (fst r, h (snd r))) xs) = map (\<lambda>r. (fst r, h (snd r))) (past d xs)"
  by (simp add: past_def filter_map comp_def)

lemma settle_same_past:
  assumes held: "past d (held_rows ret t tn) = past d (held_rows ret' t tn')"
    and cols: "pn_columns ret = pn_columns ret'"
    and sorted: "sorted (map fst (held_rows ret t tn))" "sorted (map fst (held_rows ret' t tn'))"
    and w: "t \<le> d \<Longrightarrow> w = w' \<and> pw = pw'"
    and free: "co_holding m = basic_holding_cost"
    and past: "same_past d bt bt'"
  shows "same_past d (settle m ret t tn pw w bt) (settle m ret' t tn' pw' w' bt')"
proof (cases "t \<le> d")
  case True
  then have eq: "w = w'" "pw = pw'" using w by auto
  have "past d (bt_costs (settle m ret t tn pw w bt)) = past d (bt_costs (settle m ret' t tn' pw w bt'))"
    using past_head [OF sorted(1), of d] past_head [OF sorted(2), of d] held past
    by (auto simp: settle_costs free basic_holding_cost_def past_charge same_past_def not_le split: list.splits)
  then show ?thesis
    using past unfolding same_past_def settle_gross settle_turnover eq cols past_update
    by (auto intro!: past_assign simp: past_map held)
next
  case False
  have none: "past d (held_rows r t u) = []" for r u
    using False by (auto simp: past_def held_rows_def filter_empty_conv)
  have "past d (bt_costs (settle m ret t tn pw w bt)) = past d (bt_costs (settle m ret' t tn' pw' w' bt'))"
    using past False
    by (auto simp: settle_costs past_charge same_past_def held_rows_def filter_eq_Cons_iff split: list.splits)
  then show ?thesis
    using past False unfolding same_past_def settle_gross settle_turnover past_update
    by (auto intro!: past_assign simp: past_map none)
qed

abbreviation next_time :: "datetime list \<Rightarrow> panel \<Rightarrow> datetime" where
  "next_time ts ret \<equiv> (case ts of [] \<Rightarrow> last (panel_index ret) | u # us \<Rightarrow> u)"

lemma held_last:
  assumes "sorted (panel_index ret)"
  shows "held_rows ret t (last (panel_index ret)) = filter (\<lambda>r. t < fst r) (pn_rows ret)"
proof -
  have "fst r \<le> last (panel_index ret)" if "r \<in> set (pn_rows ret)" for r
  proof -
    have "fst r \<in> set (panel_index ret)" using that by (simp add: panel_index_def)
    then show ?thesis
      using assms by (metis append_butlast_last_id empty_iff list.set(1) sorted_append in_set_conv_decomp
          order_refl set_append Un_iff insert_iff list.set(2))
  qed
  then show ?thesis unfolding held_rows_def by (intro filter_cong) auto
qed

lemma held_past:
  assumes "past d (pn_rows ret) = past d (pn_rows ret')" "sorted (panel_index ret)" "sorted (panel_index ret')"
  shows "past d (held_rows ret t (next_time ts ret)) = past d (held_rows ret' t (next_time ts ret'))"
proof -
  have swap: "past d (filter P xs) = filter P (past d xs)" for P and xs :: "(datetime \<times> flt list) list"
    unfolding past_def filter_filter by (rule filter_cong) auto
  show ?thesis
  proof (cases ts)
    case Nil
    then show ?thesis using assms by (simp add: held_last swap)
  next
    case (Cons u us)
    then show ?thesis using assms(1) by (simp add: held_rows_def swap)
  qed
qed

lemma sorted_held: "sorted (panel_index ret) \<Longrightarrow> sorted (map fst (held_rows ret t u))"
  by (simp add: held_rows_def panel_index_def sorted_filter)

lemma loop_same_past:
  assumes agree: "agree_until d p q"
    and ret: "past d (pn_rows ret) = past d (pn_rows ret')" "pn_columns ret = pn_columns ret'"
    and index: "sorted (panel_index ret)" "sorted (panel_index ret')"
    and free: "co_holding m = basic_holding_cost"
  shows "sorted ts \<Longrightarrow> (\<forall>t \<in> set ts. t \<le> d \<longrightarrow> pw = pw') \<Longrightarrow> same_past d bt bt' \<Longrightarrow>
    backtest_loop sg m p ret ts pw bt = Inr b \<Longrightarrow> backtest_loop sg m q ret' ts pw' bt' = Inr b' \<Longrightarrow> same_past d b b'"
proof (induction ts arbitrary: pw pw' bt bt')
  case (Cons t ts)
  obtain w where w: "sg_target_weights sg (panel_slice p t) t = Inr w"
    "backtest_loop sg m p ret ts w (settle m ret t (next_time ts ret) pw w bt) = Inr b"
    using Cons.prems(4) by (auto split: sum.splits)
  obtain w' where w': "sg_target_weights sg (panel_slice q t) t = Inr w'"
    "backtest_loop sg m q ret' ts w' (settle m ret' t (next_time ts ret') pw' w' bt') = Inr b'"
    using Cons.prems(5) by (auto split: sum.splits)
  have eq: "w = w' \<and> pw = pw'" if "t \<le> d"
    using agree_earlier [OF agree that] w(1) w'(1) Cons.prems(2) that by simp
  have step: "same_past d (settle m ret t (next_time ts ret) pw w bt) (settle m ret' t (next_time ts ret') pw' w' bt')"
    by (rule settle_same_past [OF held_past [OF ret(1) index] ret(2) sorted_held [OF index(1)]
        sorted_held [OF index(2)] eq free Cons.prems(3)])
  show ?case
  proof (rule Cons.IH [OF _ _ step w(2) w'(2)])
    show "sorted ts" using Cons.prems(1) by simp
    show "\<forall>u \<in> set ts. u \<le> d \<longrightarrow> w = w'" using eq Cons.prems(1) by fastforce
  qed
qed simp

lemma past_net:
  "map fst gs = map fst cs \<Longrightarrow>
   past d (map2 (\<lambda>(x, g) (y, c). (x, g - c)) gs cs) = map2 (\<lambda>(x, g) (y, c). (x, g - c)) (past d gs) (past d cs)"
proof (induction gs arbitrary: cs)
  case (Cons a gs)
  then show ?case by (cases a; cases cs) (auto simp: past_def)
qed (simp add: past_def)

lemma settle_index [simp]:
  "map fst (bt_gross (settle m ret t u pw w bt)) = map fst (bt_gross bt)"
  "map fst (bt_costs (settle m ret t u pw w bt)) = map fst (bt_costs bt)"
  by (simp_all add: settle_gross settle_costs assign_days_def charge_day_def comp_def split_def split: list.split)

lemma loop_index:
  "backtest_loop sg m p ret ts pw bt = Inr b \<Longrightarrow>
   map fst (bt_gross b) = map fst (bt_gross bt) \<and> map fst (bt_costs b) = map fst (bt_costs bt)"
  by (induction ts arbitrary: pw bt) (fastforce split: sum.splits)+

text \<open>C5: a backtest cannot look ahead at prices, whatever the strategy does with what it is shown.  When two
  price histories have the same names and the same prices up to a day, and a backtest returns over each,
  the two give the same gross and net returns and the same turnover up to that day: no price after a day
  has any influence on it.  The names have to be the same ones: the panel a strategy is shown has a column
  for every name that is ever priced, so a name first priced after the day is visible before it
  (\<open>columns_show_future_names\<close>).  The cost model charges nothing for holding, as the default one.\<close>

theorem backtest_has_no_lookahead:
  assumes "agree_until d p q" "sorted (panel_index p)" "sorted (panel_index q)" "sorted schedule"
    and "co_holding m = basic_holding_cost"
    and "backtest_panel sg schedule m p n = Inr r" "backtest_panel sg schedule m q n = Inr r'"
  shows "past d (br_gross_returns r) = past d (br_gross_returns r')
    \<and> past d (br_net_returns r) = past d (br_net_returns r')
    \<and> past d (br_turnover r) = past d (br_turnover r')"
proof -
  have slice: "panel_slice p d = panel_slice q d" using assms(1) by (simp add: agree_slice)
  let ?zeros = "\<lambda>p. map (\<lambda>x. (x, 0)) (panel_index (pct_change p))"
  let ?start = "\<lambda>p. \<lparr>bt_gross = ?zeros p, bt_costs = ?zeros p, bt_turnover = []\<rparr>"
  have rows: "past d (pn_rows (pct_change p)) = past d (pn_rows (pct_change q))"
    using past_change [OF assms(2)] past_change [OF assms(3)] slice by simp
  have zeros: "past d (?zeros r) = map (\<lambda>x. (fst x, 0)) (past d (pn_rows (pct_change r)))" for r
    by (simp add: panel_index_def past_def filter_map comp_def)
  obtain b b' where b: "backtest_loop sg m p (pct_change p) schedule [] (?start p) = Inr b"
    and b': "backtest_loop sg m q (pct_change q) schedule [] (?start q) = Inr b'"
    using assms(6,7) by (auto simp: backtest_panel_def Let_def split: sum.splits)
  have "same_past d b b'"
  proof (rule loop_same_past [OF assms(1) rows _ _ _ assms(5,4) _ _ b b'])
    show "pn_columns (pct_change p) = pn_columns (pct_change q)"
      using agree_columns [OF assms(1)] by (simp add: pct_change_def Let_def)
    show "same_past d (?start p) (?start q)" by (simp add: same_past_def zeros rows)
  qed (simp_all add: pct_change_index assms(2,3))
  then have same: "past d (bt_gross b) = past d (bt_gross b')" "past d (bt_costs b) = past d (bt_costs b')"
    "past d (bt_turnover b) = past d (bt_turnover b')" by (simp_all add: same_past_def)
  have swap: "past d (filter P xs) = filter P (past d xs)" for P and xs :: "(datetime \<times> flt) list"
    unfolding past_def filter_filter by (rule filter_cong) auto
  have keys: "map fst (bt_gross b) = map fst (bt_costs b)" "map fst (bt_gross b') = map fst (bt_costs b')"
    using loop_index [OF b] loop_index [OF b'] by simp_all
  have turnover: "past d (sort_key fst xs) = sort_key fst (past d xs)" for xs :: "(datetime \<times> flt) list"
    by (simp add: past_def filter_sort)
  show ?thesis
    using assms(6,7) b b'
    by (auto simp: backtest_panel_def Let_def swap past_net keys same turnover)
qed

definition three_bars :: "real \<Rightarrow> panel" where
  "three_bars x = \<lparr>pn_columns = [''A''], pn_rows = [(1, [Fin 20]), (2, [Fin 22]), (3, [Fin x])]\<rparr>"

lemma backtest_has_no_lookahead_witness:
  "\<exists>r r'. backtest_panel equal_weight_strategy [1, 2] (basic_costs default_costs) (three_bars 30) 252 = Inr r
     \<and> backtest_panel equal_weight_strategy [1, 2] (basic_costs default_costs) (three_bars 10) 252 = Inr r'
     \<and> past 2 (br_net_returns r) = past 2 (br_net_returns r')"
proof -
  let ?run = "\<lambda>x. backtest_panel equal_weight_strategy [1, 2] (basic_costs default_costs) (three_bars x) 252"
  have runs: "\<exists>r. ?run x = Inr r" for x
    by (simp add: backtest_panel_def Let_def equal_weight_strategy_def)
  then obtain r r' where r: "?run 30 = Inr r" "?run 10 = Inr r'" by blast
  have "agree_until 2 (three_bars 30) (three_bars 10)" by (simp add: agree_until_def past_def three_bars_def)
  from backtest_has_no_lookahead [OF this _ _ _ _ r] r show ?thesis
    by (auto simp: three_bars_def panel_index_def basic_costs_def)
qed

text \<open>What the columns give away.  A strategy that divides its book by the number of columns it is shown
  earns a different return on day 2 when another name is first priced on day 3.\<close>

definition census_strategy :: strategy where
  "census_strategy = \<lparr>sg_name = ''census'',
     sg_target_weights = (\<lambda>view as_of. Inr [(''A'', Fin (1 / real (length (pn_columns view))))])\<rparr>"

definition newcomer_bars :: panel where
  "newcomer_bars = \<lparr>pn_columns = [''A'', ''B''],
     pn_rows = [(1, [Fin 20, NaN]), (2, [Fin 22, NaN]), (3, [Fin 30, Fin 5])]\<rparr>"

lemma columns_show_future_names:
  "map (\<lambda>r. (fst r, hd (snd r))) (pn_rows newcomer_bars) = map (\<lambda>r. (fst r, hd (snd r))) (pn_rows (three_bars 30))
   \<and> (\<exists>r r'. backtest_panel census_strategy [1] (basic_costs default_costs) (three_bars 30) 252 = Inr r
     \<and> backtest_panel census_strategy [1] (basic_costs default_costs) newcomer_bars 252 = Inr r'
     \<and> past 2 (br_gross_returns r) = [(2, Fin (1 / 10))] \<and> past 2 (br_gross_returns r') = [(2, Fin (1 / 20))])"
proof -
  have rets: "pct_change (three_bars 30) = \<lparr>pn_columns = [''A''],
      pn_rows = [(1, [NaN]), (2, [Fin (1 / 10)]), (3, [Fin (4 / 11)])]\<rparr>"
    "pct_change newcomer_bars = \<lparr>pn_columns = [''A'', ''B''],
      pn_rows = [(1, [NaN, NaN]), (2, [Fin (1 / 10), NaN]), (3, [Fin (4 / 11), NaN])]\<rparr>"
    by (simp_all add: pct_change_def three_bars_def newcomer_bars_def Let_def flt_simps)
  have books: "sg_target_weights census_strategy (panel_slice (three_bars 30) 1) 1 = Inr [(''A'', Fin 1)]"
    "sg_target_weights census_strategy (panel_slice newcomer_bars 1) 1 = Inr [(''A'', Fin (1 / 2))]"
    by (simp_all add: census_strategy_def panel_slice_def three_bars_def newcomer_bars_def)
  have "map (\<lambda>r. (fst r, hd (snd r))) (pn_rows newcomer_bars) = map (\<lambda>r. (fst r, hd (snd r))) (pn_rows (three_bars 30))"
    by (simp add: three_bars_def newcomer_bars_def)
  moreover have "\<exists>r. backtest_panel census_strategy [1] (basic_costs default_costs) (three_bars 30) 252 = Inr r
      \<and> past 2 (br_gross_returns r) = [(2, Fin (1 / 10))]"
    by (simp add: backtest_panel_def rets Let_def books settle_gross held_rows_def assign_days_def
        book_return_def panel_index_def past_def fill0_def series_sum_def flt_simps)
  moreover have "\<exists>r. backtest_panel census_strategy [1] (basic_costs default_costs) newcomer_bars 252 = Inr r
      \<and> past 2 (br_gross_returns r) = [(2, Fin (1 / 20))]"
    by (simp add: backtest_panel_def rets Let_def books settle_gross held_rows_def assign_days_def
        book_return_def panel_index_def past_def fill0_def series_sum_def flt_simps)
  ultimately show ?thesis by blast
qed

end
