(* ===== verification/Json.thy ===== *)
theory Json
  imports Parse
begin

text \<open>
  The reader of JSON text that the model replies go through (\<open>json.loads\<close>): white space, the literals
  with Python's \<open>NaN\<close> and infinities, numbers, strings with their escapes, arrays and objects, where a
  repeated key keeps its last value.  A code point beyond Latin-1 is outside the strings of the model
  and reads as a question mark.  Anything else is refused (\<open>JSONDecodeError\<close>, a \<open>ValueError\<close>), and text nested
  deeper than the recursion limit allows ends in \<open>RecursionError\<close>.

  The reader is recursive on fuel; \<open>json_fuel\<close> shows that every amount above twice the length of the
  text gives the same answer, so \<open>json_loads\<close> runs with enough of it.
\<close>

section \<open>Lexemes\<close>

definition quote :: char where "quote = CHR 0x22"
definition backslash :: char where "backslash = CHR 0x5C"

definition json_space :: "char \<Rightarrow> bool" where
  "json_space c \<longleftrightarrow> c = CHR 0x20 \<or> c = CHR 0x09 \<or> c = CHR 0x0A \<or> c = CHR 0x0D"

definition skip_ws :: "string \<Rightarrow> string" where
  "skip_ws s = dropWhile json_space s"

definition hex_val :: "char \<Rightarrow> nat option" where
  "hex_val c =
     (let n = of_char c :: nat
      in if 48 \<le> n \<and> n \<le> 57 then Some (n - 48)
         else if 65 \<le> n \<and> n \<le> 70 then Some (n - 55)
         else if 97 \<le> n \<and> n \<le> 102 then Some (n - 87) else None)"

definition code_point :: "string \<Rightarrow> char option" where
  "code_point ds =
     (if length ds = 4 \<and> (\<forall>c \<in> set ds. hex_val c \<noteq> None)
      then let n = foldl (\<lambda>a c. 16 * a + the (hex_val c)) 0 ds
           in Some (if n < 256 then char_of n else CHR ''?'')
      else None)"

definition simple_escape :: "char \<Rightarrow> char option" where
  "simple_escape e =
     map_of [(quote, quote), (backslash, backslash), (CHR ''/'', CHR ''/''), (CHR ''b'', CHR 0x08),
       (CHR ''f'', CHR 0x0C), (CHR ''n'', CHR 0x0A), (CHR ''r'', CHR 0x0D), (CHR ''t'', CHR 0x09)] e"

text \<open>The text after an opening quote: the decoded string and what follows the closing quote.\<close>

function (sequential) scan_string :: "string \<Rightarrow> (string \<times> string) option" where
  "scan_string [] = None"
| "scan_string (c # s) =
     (if c = quote then Some ([], s)
      else if c = backslash then
        (case s of
           [] \<Rightarrow> None
         | e # r \<Rightarrow>
             if e = CHR ''u'' then
               (case code_point (take 4 r) of
                  None \<Rightarrow> None
                | Some ch \<Rightarrow> map_option (\<lambda>(t, r'). (ch # t, r')) (scan_string (drop 4 r)))
             else (case simple_escape e of
                     None \<Rightarrow> None
                   | Some ch \<Rightarrow> map_option (\<lambda>(t, r'). (ch # t, r')) (scan_string r)))
      else if (of_char c :: nat) < 32 then None
      else map_option (\<lambda>(t, r'). (c # t, r')) (scan_string s))"
  by pat_completeness auto

termination
  by (relation "measure length") auto

definition scan_fraction :: "string \<Rightarrow> string \<times> string" where
  "scan_fraction s =
     (case s of
        c # r \<Rightarrow> if c = CHR ''.'' \<and> takeWhile is_digit r \<noteq> []
                 then (c # takeWhile is_digit r, dropWhile is_digit r) else ([], s)
      | [] \<Rightarrow> ([], s))"

definition scan_exponent :: "string \<Rightarrow> string \<times> string" where
  "scan_exponent s =
     (case s of
        c # r \<Rightarrow>
          let sg = takeWhile (\<lambda>x. x = CHR ''+'' \<or> x = CHR ''-'') (take 1 r); r1 = drop (length sg) r
          in if (c = CHR ''e'' \<or> c = CHR ''E'') \<and> takeWhile is_digit r1 \<noteq> []
             then (c # sg @ takeWhile is_digit r1, dropWhile is_digit r1) else ([], s)
      | [] \<Rightarrow> ([], s))"

definition int_part :: "string \<Rightarrow> string" where
  "int_part s = (let ds = takeWhile is_digit s in if take 1 ds = ''0'' then ''0'' else ds)"

text \<open>An integer of more than 4300 digits is refused by \<open>int\<close>.\<close>

definition number_value :: "string \<Rightarrow> string \<Rightarrow> string \<Rightarrow> string \<Rightarrow> pyval res" where
  "number_value sg ip fr ex =
     (if fr = [] \<and> ex = []
      then if 4300 < length ip then Inl ValueError else map_sum id PInt (parse_int (sg @ ip))
      else map_sum id PFloat (parse_float (sg @ ip @ fr @ ex)))"

definition scan_number :: "string \<Rightarrow> (pyval \<times> string) option" where
  "scan_number s =
     (let sg = (if take 1 s = ''-'' then ''-'' else []); r = drop (length sg) s; ip = int_part r
      in if ip = [] then None
         else let (fr, r1) = scan_fraction (drop (length ip) r); (ex, r2) = scan_exponent r1
              in (case number_value sg ip fr ex of Inl e \<Rightarrow> None | Inr x \<Rightarrow> Some (x, r2)))"

definition literals :: "(string \<times> pyval) list" where
  "literals = [(''null'', PNone), (''true'', PBool True), (''false'', PBool False), (''NaN'', PFloat NaN),
     (''Infinity'', PFloat PInf), (''-Infinity'', PFloat NInf)]"

definition scan_literal :: "string \<Rightarrow> (pyval \<times> string) option" where
  "scan_literal s =
     map_option (\<lambda>(w, v). (v, drop (length w) s)) (find (\<lambda>wv. starts_with (fst wv) s) literals)"

section \<open>Values\<close>

text \<open>\<open>room\<close> is the number of nested arrays and objects the interpreter's recursion limit still allows the
  scanner to open: the one that exceeds it raises \<open>RecursionError\<close> at its opening bracket, before its
  content is read.  Text that is no JSON raises \<open>ValueError\<close> where it is met.\<close>

definition or_malformed :: "'a option \<Rightarrow> 'a res" where
  "or_malformed r = (case r of None \<Rightarrow> Inl ValueError | Some x \<Rightarrow> Inr x)"

fun json_value :: "nat \<Rightarrow> nat \<Rightarrow> string \<Rightarrow> (pyval \<times> string) res"
and json_elements :: "nat \<Rightarrow> nat \<Rightarrow> pyval list \<Rightarrow> string \<Rightarrow> (pyval \<times> string) res"
and json_members :: "nat \<Rightarrow> nat \<Rightarrow> payload \<Rightarrow> string \<Rightarrow> (pyval \<times> string) res" where
  "json_value 0 room s = Inl ValueError"
| "json_value (Suc n) room [] = Inl ValueError"
| "json_value (Suc n) room (c # r) =
     (if c = quote then or_malformed (map_option (\<lambda>(t, r'). (PStr t, r')) (scan_string r))
      else if c = CHR ''{'' then
        (if room = 0 then Inl RecursionError
         else if take 1 (skip_ws r) = ''}'' then Inr (PDict [], drop 1 (skip_ws r))
         else json_members n (room - 1) [] (skip_ws r))
      else if c = CHR ''['' then
        (if room = 0 then Inl RecursionError
         else if take 1 (skip_ws r) = '']'' then Inr (PList [], drop 1 (skip_ws r))
         else json_elements n (room - 1) [] (skip_ws r))
      else or_malformed (case scan_number (c # r) of Some vr \<Rightarrow> Some vr | None \<Rightarrow> scan_literal (c # r)))"
| "json_elements 0 room xs s = Inl ValueError"
| "json_elements (Suc n) room xs s =
     (case json_value n room s of
        Inl e \<Rightarrow> Inl e
      | Inr (v, r) \<Rightarrow>
          (case skip_ws r of
             [] \<Rightarrow> Inl ValueError
           | c # r1 \<Rightarrow>
               if c = CHR '']'' then Inr (PList (xs @ [v]), r1)
               else if c = CHR '','' then json_elements n room (xs @ [v]) (skip_ws r1)
               else Inl ValueError))"
| "json_members 0 room d s = Inl ValueError"
| "json_members (Suc n) room d [] = Inl ValueError"
| "json_members (Suc n) room d (q # s) =
     (if q \<noteq> quote then Inl ValueError
      else (case scan_string s of
        None \<Rightarrow> Inl ValueError
      | Some (k, r) \<Rightarrow>
          if take 1 (skip_ws r) \<noteq> '':'' then Inl ValueError
          else (case json_value n room (skip_ws (drop 1 (skip_ws r))) of
             Inl e \<Rightarrow> Inl e
           | Inr (v, r1) \<Rightarrow>
               (case skip_ws r1 of
                  [] \<Rightarrow> Inl ValueError
                | c # r2 \<Rightarrow>
                    if c = CHR ''}'' then Inr (PDict (dict_set k v d), r2)
                    else if c = CHR '','' then json_members n room (dict_set k v d) (skip_ws r2)
                    else Inl ValueError))))"

definition json_loads :: "nat \<Rightarrow> string \<Rightarrow> pyval res" where
  "json_loads room s =
     (case json_value (2 * length s + 1) room (skip_ws s) of
        Inl e \<Rightarrow> Inl e
      | Inr (v, r) \<Rightarrow> if skip_ws r = [] then Inr v else Inl ValueError)"

section \<open>The fuel is enough\<close>

lemma length_skip_ws: "length (skip_ws s) \<le> length s"
  by (simp add: skip_ws_def length_dropWhile_le)

lemma scan_string_shrinks: "scan_string s = Some (t, r) \<Longrightarrow> length r < length s"
proof (induction s arbitrary: t rule: scan_string.induct)
  case (2 c s)
  show ?case
    using "2.prems" "2.IH"
    by (fastforce split: if_splits list.splits option.splits)
qed simp

lemma scan_fraction_shrinks: "length (snd (scan_fraction s)) \<le> length s"
  by (cases s) (auto simp: scan_fraction_def intro: le_trans [OF length_dropWhile_le])

lemma scan_exponent_shrinks: "length (snd (scan_exponent s)) \<le> length s"
  by (cases s) (auto simp: scan_exponent_def Let_def intro!: le_trans [OF length_dropWhile_le])

lemma int_part_fits: "length (int_part s) \<le> length s"
  by (cases s) (auto simp: int_part_def Let_def length_takeWhile_le)

lemma scan_number_shrinks:
  assumes "scan_number s = Some (v, r)"
  shows "length r < length s"
proof -
  define r0 where "r0 = drop (length (if take 1 s = ''-'' then ''-'' else [])) s"
  obtain fr r1 where fr: "scan_fraction (drop (length (int_part r0)) r0) = (fr, r1)" by (rule prod.exhaust)
  obtain ex r2 where ex: "scan_exponent r1 = (ex, r2)" by (rule prod.exhaust)
  have ip: "int_part r0 \<noteq> []" and r: "r = r2"
    using assms fr ex unfolding scan_number_def Let_def r0_def [symmetric]
    by (auto split: if_splits sum.splits)
  have "length r2 \<le> length r0 - length (int_part r0)"
    using scan_fraction_shrinks [of "drop (length (int_part r0)) r0"] scan_exponent_shrinks [of r1] fr ex
    by simp
  moreover have "length r0 \<le> length s" by (simp add: r0_def)
  ultimately show ?thesis using ip r int_part_fits [of r0] by (cases "int_part r0") auto
qed

lemma scan_literal_shrinks: "s \<noteq> [] \<Longrightarrow> scan_literal s = Some (v, r) \<Longrightarrow> length r < length s"
  by (auto simp: scan_literal_def literals_def starts_with_def split: if_splits)

lemma or_malformed_simps [simp]:
  "or_malformed None = Inl ValueError" "or_malformed (Some x) = Inr x"
  by (simp_all add: or_malformed_def)

lemma or_malformed_Inr: "or_malformed r = Inr x \<longleftrightarrow> r = Some x"
  by (cases r) simp_all

lemma or_malformed_Inl: "or_malformed r = Inl e \<Longrightarrow> e = ValueError"
  by (cases r) simp_all

lemma json_shrinks:
  "json_value n m s = Inr (v, r) \<Longrightarrow> length r < length s"
  "json_elements n m xs s = Inr (v, r) \<Longrightarrow> length r < length s"
  "json_members n m d s = Inr (v, r) \<Longrightarrow> length r < length s"
proof (induction n m s and n m xs s and n m d s arbitrary: v r and v r and v r
    rule: json_value_json_elements_json_members.induct)
  case (3 n m c r0)
  note ws = length_skip_ws [of r0]
  from 3 show ?case
    using ws scan_string_shrinks scan_number_shrinks scan_literal_shrinks
    by (fastforce simp: or_malformed_Inr split: if_splits option.splits)
next
  case (5 n m xs s)
  from "5.prems" obtain v1 r1 where v1: "json_value n m s = Inr (v1, r1)"
    by (auto split: sum.splits)
  from "5.prems" v1 obtain c r2 where c: "skip_ws r1 = c # r2"
    by (auto split: list.splits)
  have "length r2 < length s" using "5.IH"(1) [OF v1] length_skip_ws [of r1] c by simp
  then show ?case
    using "5.prems" v1 c "5.IH"(2) [OF v1 _ c] length_skip_ws [of r2]
    by (fastforce split: if_splits)
next
  case (8 n m d q s)
  from "8.prems" obtain k r0 where k: "q = quote" "scan_string s = Some (k, r0)" "take 1 (skip_ws r0) = '':''"
    by (auto split: if_splits option.splits)
  from "8.prems" k obtain v1 r1 where v1: "json_value n m (skip_ws (drop 1 (skip_ws r0))) = Inr (v1, r1)"
    by (auto split: sum.splits)
  from "8.prems" k v1 obtain c r2 where c: "skip_ws r1 = c # r2"
    by (auto split: list.splits)
  have "length r1 < length s"
    using "8.IH"(1) [OF _ k(2) _ _ v1] k scan_string_shrinks [OF k(2)] length_skip_ws [of r0]
      length_skip_ws [of "drop 1 (skip_ws r0)"] by simp
  moreover from this have "length r2 < length s" using length_skip_ws [of r1] c by simp
  ultimately show ?case
    using "8.prems" k v1 c "8.IH"(2) [OF _ k(2) _ _ v1 _ c] length_skip_ws [of r2]
    by (fastforce split: if_splits)
qed simp_all

lemma json_fuel_Suc:
  "2 * length s < n \<Longrightarrow> json_value (Suc n) m s = json_value n m s"
  "2 * length s + 1 < n \<Longrightarrow> json_elements (Suc n) m xs s = json_elements n m xs s"
  "2 * length s < n \<Longrightarrow> json_members (Suc n) m d s = json_members n m d s"
proof (induction n arbitrary: m s xs d)
  case (Suc n)
  {
    case 1
    then show ?case
    proof (cases s)
      case (Cons c r)
      then show ?thesis
        using 1 Suc.IH(2) [of "skip_ws r"] Suc.IH(3) [of "skip_ws r"] length_skip_ws [of r]
        by simp
    qed simp
  next
    case 2
    have v: "json_value (Suc n) m s = json_value n m s" using 2 by (intro Suc.IH(1)) simp
    have "json_elements (Suc n) m ys (skip_ws r1) = json_elements n m ys (skip_ws r1)"
      if "json_value n m s = Inr (v1, r)" "skip_ws r = c # r1" for v1 r c r1 ys
      using that json_shrinks(1) [OF that(1)] length_skip_ws [of r] length_skip_ws [of r1] 2
      by (intro Suc.IH(2)) simp
    then show ?case
      by (auto simp: v json_elements.simps simp del: json_value.simps split: sum.splits list.splits)
  next
    case 3
    show ?case
    proof (cases s)
      case (Cons q s')
      have v: "json_value (Suc n) m (skip_ws (drop 1 (skip_ws r))) = json_value n m (skip_ws (drop 1 (skip_ws r)))"
        if "scan_string s' = Some (k, r)" for k r
        using scan_string_shrinks [OF that] length_skip_ws [of r] length_skip_ws [of "drop 1 (skip_ws r)"] 3 Cons
        by (intro Suc.IH(1)) simp
      have m: "json_members (Suc n) m e (skip_ws r2) = json_members n m e (skip_ws r2)"
        if "scan_string s' = Some (k, r)" "json_value n m (skip_ws (drop 1 (skip_ws r))) = Inr (v1, r1)"
          "skip_ws r1 = c # r2" for k r v1 r1 c r2 e
        using scan_string_shrinks [OF that(1)] length_skip_ws [of r] json_shrinks(1) [OF that(2)]
          length_skip_ws [of "drop 1 (skip_ws r)"] length_skip_ws [of r1] length_skip_ws [of r2] that(3) 3 Cons
        by (intro Suc.IH(3)) simp
      show ?thesis using v m
        by (auto simp: Cons json_members.simps simp del: json_value.simps
            split: option.splits sum.splits list.splits)
    qed simp
  }
qed simp_all

lemma json_fuel: "2 * length s < n \<Longrightarrow> json_value n m s = json_value (2 * length s + 1) m s"
proof (induction n)
  case (Suc n)
  then show ?case
  proof (cases "n = 2 * length s")
    case False
    then show ?thesis using Suc json_fuel_Suc(1) [of s n] by simp
  qed simp
qed simp

section \<open>How reading fails\<close>

lemma json_value_errors:
  "json_value n m s = Inl e \<Longrightarrow> e = ValueError \<or> e = RecursionError"
  "json_elements n m xs s = Inl e \<Longrightarrow> e = ValueError \<or> e = RecursionError"
  "json_members n m d s = Inl e \<Longrightarrow> e = ValueError \<or> e = RecursionError"
proof (induction n m s and n m xs s and n m d s arbitrary: e and e and e
    rule: json_value_json_elements_json_members.induct)
  case (3 n m c r0)
  then show ?case by (auto dest: or_malformed_Inl split: if_splits)
next
  case (5 n m xs s)
  then show ?case by (simp split: if_splits sum.splits list.splits prod.splits)
next
  case (8 n m d q s)
  then show ?case by (simp split: if_splits sum.splits list.splits option.splits prod.splits)
qed simp_all

lemma json_loads_errors: "json_loads m s = Inl e \<Longrightarrow> e = ValueError \<or> e = RecursionError"
  using json_value_errors(1) [of "2 * length s + 1" m "skip_ws s"]
  by (auto simp: json_loads_def split: sum.splits prod.splits if_splits)

text \<open>Brackets nested deeper than the room run into the recursion limit whatever follows them.\<close>

lemma json_value_deep: "m < k \<Longrightarrow> 2 * k < n \<Longrightarrow> json_value n m (replicate k (CHR ''['') @ s) = Inl RecursionError"
proof (induction k arbitrary: m n)
  case (Suc k)
  obtain n1 where n1: "n = Suc (Suc n1)" using Suc.prems(2) by (cases n; cases "n - 1") auto
  have ne: "skip_ws (replicate k (CHR ''['') @ s) = replicate k (CHR ''['') @ s" if "0 < k"
    using that by (cases k) (simp_all add: skip_ws_def json_space_def)
  show ?case
  proof (cases m)
    case 0
    then show ?thesis by (simp add: n1 quote_def)
  next
    case (Suc m1)
    then have k: "0 < k" using Suc.prems by simp
    have "json_value n1 m1 (replicate k (CHR ''['') @ s) = Inl RecursionError"
      using Suc Suc.prems n1 by (intro Suc.IH) auto
    then show ?thesis using Suc k ne [OF k] by (cases k) (simp_all add: n1 quote_def)
  qed
qed simp

lemma json_loads_deep: "json_loads m (replicate (Suc m) (CHR ''['') @ s) = Inl RecursionError"
proof -
  have ws: "skip_ws (replicate (Suc m) (CHR ''['') @ s) = replicate (Suc m) (CHR ''['') @ s"
    by (simp add: skip_ws_def json_space_def)
  have "json_value (2 * length (replicate (Suc m) (CHR ''['') @ s) + 1) m (replicate (Suc m) (CHR ''['') @ s)
        = Inl RecursionError"
    by (rule json_value_deep) simp_all
  then show ?thesis unfolding json_loads_def ws by simp
qed

end
