(* ===== verification/Reasoning.thy ===== *)
theory Reasoning
  imports Clients Signals Json
begin

text \<open>
  The language-model tier: the provider (\<open>reasoning/llm.py\<close>), the extraction of one bounded score from
  headlines (\<open>reasoning/extraction.py\<close>), the analyst panel (\<open>reasoning/agents.py\<close>) and the sweep that
  turns a universe's news into observations (\<open>collectors/llm_features.py\<close>).

  A provider is a state machine \<open>ask\<close>: a request and the state give the new state and the reply or the
  exception.  The fixed system texts are kept as their names.  \<open>rpr\<close> is \<open>str\<close> of floats and containers,
  \<open>fmt\<close> the two float formats of the audit line (with a forced sign, or without), \<open>room\<close> the nesting the
  recursion limit still allows when a reply is read.
\<close>

section \<open>llm.py\<close>

datatype system_text = NewsSignalSystem | NewsSystem | TechnicalSystem | RiskSystem | OtherSystem string

record request =
  rq_system :: system_text
  rq_prompt :: string
  rq_max_tokens :: int

type_synonym 'p provider = "request \<Rightarrow> 'p \<Rightarrow> 'p \<times> string res"

record mock_provider =
  mk_canned :: string
  mk_calls :: "(system_text \<times> string) list"

definition mock_complete :: "mock_provider provider" where
  "mock_complete q p = (p\<lparr>mk_calls := mk_calls p @ [(rq_system q, rq_prompt q)]\<rparr>, Inr (mk_canned p))"

record anthropic =
  an_key :: string
  an_model :: string
  an_base :: string

definition rstrip_slash :: "string \<Rightarrow> string" where
  "rstrip_slash s = rev (dropWhile (\<lambda>c. c = CHR ''/'') (rev s))"

definition anthropic_init :: "string \<Rightarrow> string \<Rightarrow> string \<Rightarrow> anthropic res" where
  "anthropic_init key model base =
     (if key = [] then Inl LLMError
      else Inr \<lparr>an_key = key, an_model = model, an_base = rstrip_slash base\<rparr>)"

text \<open>The text of the reply's blocks: \<open>"".join(b.get("text", "") for b in blocks if b.get("type") == "text")\<close>.\<close>

fun block_text :: "pyval list \<Rightarrow> string res" where
  "block_text [] = Inr []"
| "block_text (b # bs) =
     (case obj_get b ''type'' PNone of Inl e \<Rightarrow> Inl e | Inr ty \<Rightarrow>
      case (if ty = PStr ''text'' then obj_get b ''text'' (PStr []) else Inr (PStr [])) of
        Inl e \<Rightarrow> Inl e
      | Inr (PStr t) \<Rightarrow> (case block_text bs of Inl e \<Rightarrow> Inl e | Inr ts \<Rightarrow> Inr (t @ ts))
      | Inr _ \<Rightarrow> Inl TypeError)"

definition reply_text :: "pyval \<Rightarrow> string res" where
  "reply_text payload =
     (case obj_get payload ''usage'' (PDict []) of Inl e \<Rightarrow> Inl e | Inr usage \<Rightarrow>
      case as_obj usage of Inl e \<Rightarrow> Inl e | Inr _ \<Rightarrow>
      case obj_get payload ''content'' (PList []) of Inl e \<Rightarrow> Inl e | Inr content \<Rightarrow>
      case elements content of Inl e \<Rightarrow> Inl e | Inr blocks \<Rightarrow>
      case block_text blocks of Inl e \<Rightarrow> Inl e | Inr t \<Rightarrow> if t = [] then Inl LLMError else Inr t)"

text \<open>\<open>post\<close> is the HTTP request with its decoding: the client, the request and the world.\<close>

definition anthropic_complete ::
  "(string \<Rightarrow> anthropic \<Rightarrow> request \<Rightarrow> 'w \<Rightarrow> 'w \<times> pyval res) \<Rightarrow> anthropic \<Rightarrow> 'w provider" where
  "anthropic_complete post a q w =
     (case post (an_base a @ ''/v1/messages'') a q w of
        (w1, Inl e) \<Rightarrow> (w1, Inl LLMError)
      | (w1, Inr payload) \<Rightarrow> (w1, reply_text payload))"

definition anthropic_provider_from_settings :: "string option \<Rightarrow> string \<Rightarrow> anthropic res" where
  "anthropic_provider_from_settings key model =
     (case key of
        None \<Rightarrow> Inl LLMError
      | Some k \<Rightarrow> if k = [] then Inl LLMError else anthropic_init k model ''https://api.anthropic.com'')"

section \<open>extraction.py\<close>

record extracted =
  xs_symbol :: string
  xs_score :: flt
  xs_confidence :: flt
  xs_rationale :: string

definition clip_to :: "flt \<Rightarrow> flt \<Rightarrow> flt \<Rightarrow> flt" where
  "clip_to x lo hi = py_max lo (py_min hi x)"

definition find_char :: "char \<Rightarrow> string \<Rightarrow> int" where
  "find_char c s = (if c \<in> set s then int (length (takeWhile (\<lambda>x. x \<noteq> c) s)) else - 1)"

definition rfind_char :: "char \<Rightarrow> string \<Rightarrow> int" where
  "rfind_char c s =
     (if c \<in> set s then int (length s) - 1 - int (length (takeWhile (\<lambda>x. x \<noteq> c) (rev s))) else - 1)"

text \<open>\<open>float(v)\<close>, with the integers that no float can hold.\<close>

definition float_limit :: int where "float_limit = 2 ^ 1024 - 2 ^ 970"

definition py_float :: "pyval \<Rightarrow> flt res" where
  "py_float v =
     (case v of PInt n \<Rightarrow> if \<bar>n\<bar> < float_limit then Inr (Fin (of_int n)) else Inl OverflowError
      | _ \<Rightarrow> to_float v)"

definition reply_fields :: "pyval \<Rightarrow> (flt \<times> flt \<times> pyval) res" where
  "reply_fields v =
     (case as_obj v of Inl e \<Rightarrow> Inl e | Inr d \<Rightarrow>
      case pindex d ''score'' of Inl e \<Rightarrow> Inl e | Inr sv \<Rightarrow>
      case py_float sv of Inl e \<Rightarrow> Inl e | Inr score \<Rightarrow>
      case py_float (dict_get (PFloat (Fin (1 / 2))) d ''confidence'') of Inl e \<Rightarrow> Inl e | Inr conf \<Rightarrow>
        Inr (clip_to score (- 1) 1, clip_to conf 0 1, dict_get (PStr []) d ''rationale''))"

definition caught :: "pyerr \<Rightarrow> bool" where
  "caught e \<longleftrightarrow> e = ValueError \<or> e = KeyError \<or> e = TypeError"

definition reply_block :: "string \<Rightarrow> string option" where
  "reply_block text =
     (let s = strip text; a = find_char (CHR ''{'') s; b = rfind_char (CHR ''}'') s
      in if a < 0 \<or> b \<le> a then None else Some (take (nat (b + 1 - a)) (drop (nat a) s)))"

definition parse_signal :: "nat \<Rightarrow> (pyval \<Rightarrow> string) \<Rightarrow> string \<Rightarrow> string \<Rightarrow> extracted option res" where
  "parse_signal room rpr symbol text =
     (case reply_block text of
        None \<Rightarrow> Inr None
      | Some block \<Rightarrow>
          (case (case json_loads room block of Inl e \<Rightarrow> Inl e | Inr v \<Rightarrow> reply_fields v) of
             Inl e \<Rightarrow> if caught e then Inr None else Inl e
           | Inr (score, conf, r) \<Rightarrow>
               Inr (Some \<lparr>xs_symbol = symbol, xs_score = score, xs_confidence = conf,
                          xs_rationale = take 300 (py_str rpr r)\<rparr>)))"

definition nl :: string where "nl = [CHR 0x0A]"

definition clean_lines :: "string list \<Rightarrow> string list" where
  "clean_lines xs = map strip (filter (\<lambda>h. h \<noteq> [] \<and> strip h \<noteq> []) xs)"

definition dashed :: "string list \<Rightarrow> string list" where
  "dashed xs = map (\<lambda>h. ''- '' @ h) xs"

definition news_prompt :: "string \<Rightarrow> string list \<Rightarrow> string" where
  "news_prompt symbol lines =
     ''Company ticker: '' @ symbol @ nl @ ''Recent headlines:'' @ nl @ join nl (dashed lines)"

definition news_request :: "string \<Rightarrow> string list \<Rightarrow> request" where
  "news_request symbol lines =
     \<lparr>rq_system = NewsSignalSystem, rq_prompt = news_prompt symbol lines, rq_max_tokens = 300\<rparr>"

text \<open>What an exhausted budget and any other exception of the provider do: the first propagates, the others
  give the neutral answer \<open>dflt\<close>.\<close>

definition handle_reply :: "'a \<Rightarrow> (string \<Rightarrow> 'a res) \<Rightarrow> string res \<Rightarrow> 'a res" where
  "handle_reply dflt use r =
     (case r of Inl e \<Rightarrow> if e = LLMBudgetExceeded then Inl e else Inr dflt | Inr text \<Rightarrow> use text)"

definition extract_news_signal ::
  "nat \<Rightarrow> (pyval \<Rightarrow> string) \<Rightarrow> 'p provider \<Rightarrow> string \<Rightarrow> string list \<Rightarrow> nat \<Rightarrow> 'p \<Rightarrow> 'p \<times> extracted option res" where
  "extract_news_signal room rpr ask symbol headlines max_headlines p =
     (let lines = take max_headlines (clean_lines headlines)
      in if lines = [] then (p, Inr None)
         else let (p1, r) = ask (news_request symbol lines) p
              in (p1, handle_reply None (parse_signal room rpr symbol) r))"

section \<open>agents.py\<close>

datatype analyst_role = NewsRole | TechnicalRole | RiskRole

definition role_text :: "analyst_role \<Rightarrow> string" where
  "role_text r = (case r of NewsRole \<Rightarrow> ''news'' | TechnicalRole \<Rightarrow> ''technical'' | RiskRole \<Rightarrow> ''risk'')"

record analyst_context =
  ax_symbol :: string
  ax_headlines :: "string list"
  ax_price_summary :: string
  ax_risk_notes :: "string list"
  ax_extra :: "string list"

definition any_text :: "string list \<Rightarrow> bool" where
  "any_text xs \<longleftrightarrow> (\<exists>h \<in> set xs. h \<noteq> [] \<and> strip h \<noteq> [])"

definition context_empty :: "analyst_context \<Rightarrow> bool" where
  "context_empty c \<longleftrightarrow> \<not> (any_text (ax_headlines c) \<or> strip (ax_price_summary c) \<noteq> []
     \<or> any_text (ax_risk_notes c) \<or> any_text (ax_extra c))"

record analyst_view =
  vw_role :: analyst_role
  vw_score :: flt
  vw_confidence :: flt
  vw_rationale :: string

record agent_signal =
  ag_symbol :: string
  ag_score :: flt
  ag_confidence :: flt
  ag_rationale :: string
  ag_views :: "analyst_view list"

definition titled :: "string \<Rightarrow> string list \<Rightarrow> string list" where
  "titled title xs = (if xs = [] then [] else title # dashed xs)"

definition render_context :: "analyst_context \<Rightarrow> analyst_role \<Rightarrow> nat \<Rightarrow> string" where
  "render_context c role max_headlines = join nl
     ([''Company ticker: '' @ ax_symbol c]
      @ (if role = NewsRole \<or> role = RiskRole
         then titled ''Recent headlines:'' (take max_headlines (clean_lines (ax_headlines c))) else [])
      @ (if (role = TechnicalRole \<or> role = RiskRole) \<and> strip (ax_price_summary c) \<noteq> []
         then [''Recent price/return summary: '' @ strip (ax_price_summary c)] else [])
      @ (if role = RiskRole then titled ''Risk notes:'' (clean_lines (ax_risk_notes c)) else [])
      @ titled ''Additional context:'' (clean_lines (ax_extra c)))"

definition role_system :: "analyst_role \<Rightarrow> system_text" where
  "role_system role = (case role of RiskRole \<Rightarrow> RiskSystem | NewsRole \<Rightarrow> NewsSystem | TechnicalRole \<Rightarrow> TechnicalSystem)"

definition neutral_view :: "analyst_role \<Rightarrow> analyst_view" where
  "neutral_view role = \<lparr>vw_role = role, vw_score = 0, vw_confidence = 0, vw_rationale = []\<rparr>"

definition view_of_reply :: "nat \<Rightarrow> (pyval \<Rightarrow> string) \<Rightarrow> string \<Rightarrow> analyst_role \<Rightarrow> string \<Rightarrow> analyst_view res" where
  "view_of_reply room rpr symbol role text =
     (case parse_signal room rpr symbol text of
        Inl e \<Rightarrow> Inl e
      | Inr None \<Rightarrow> Inr (neutral_view role)
      | Inr (Some x) \<Rightarrow> Inr \<lparr>vw_role = role, vw_score = xs_score x, vw_confidence = xs_confidence x,
                             vw_rationale = xs_rationale x\<rparr>)"

definition run_analyst ::
  "nat \<Rightarrow> (pyval \<Rightarrow> string) \<Rightarrow> 'p provider \<Rightarrow> analyst_role \<Rightarrow> analyst_context \<Rightarrow> 'p \<Rightarrow> 'p \<times> analyst_view res" where
  "run_analyst room rpr ask role c p =
     (let (p1, r) = ask \<lparr>rq_system = role_system role, rq_prompt = render_context c role 20,
                         rq_max_tokens = 300\<rparr> p
      in (p1, handle_reply (neutral_view role) (view_of_reply room rpr (ax_symbol c) role) r))"

definition manager_init :: "flt \<Rightarrow> flt" where
  "manager_init risk_weight = clip_to risk_weight 0 1"

definition view_line :: "(bool \<Rightarrow> flt \<Rightarrow> string) \<Rightarrow> analyst_view \<Rightarrow> string" where
  "view_line fmt v = role_text (vw_role v) @ '': '' @ fmt True (vw_score v) @ ''@'' @ fmt False (vw_confidence v)"

definition panel_prefix :: string where
  "panel_prefix = ''panel '' @ [CHR 0x97] @ '' ''"

definition summarize_views :: "(bool \<Rightarrow> flt \<Rightarrow> string) \<Rightarrow> analyst_view list \<Rightarrow> string" where
  "summarize_views fmt views =
     (let parts = map (view_line fmt) (filter (\<lambda>v. 0 < vw_confidence v \<or> vw_rationale v \<noteq> []) views)
      in if parts = [] then panel_prefix @ ''no usable views'' else take 300 (panel_prefix @ join ''; '' parts))"

definition directional :: "analyst_view list \<Rightarrow> analyst_view list" where
  "directional views = filter (\<lambda>v. vw_role v \<noteq> RiskRole \<and> 0 < vw_confidence v) views"

definition combined_score :: "analyst_view list \<Rightarrow> flt" where
  "combined_score ds =
     fdiv (sum_list (map (\<lambda>v. vw_score v * vw_confidence v) ds)) (sum_list (map vw_confidence ds))"

definition base_confidence :: "analyst_view list \<Rightarrow> flt" where
  "base_confidence ds =
     (let weight = sum_list (map vw_confidence ds); score = combined_score ds;
          mean_conf = fdiv weight (Fin (real (length ds)));
          spread = fdiv (sum_list (map (\<lambda>v. \<bar>vw_score v - score\<bar> * vw_confidence v) ds)) weight
      in mean_conf * clip_to (1 - fdiv spread 2) 0 1)"

definition damped :: "flt \<Rightarrow> analyst_view option \<Rightarrow> flt \<Rightarrow> flt" where
  "damped rw risk conf =
     (case risk of
        None \<Rightarrow> conf
      | Some v \<Rightarrow>
          if 0 < vw_confidence v
          then let danger_mult = 1 - fdiv (rw * (1 - vw_score v)) 2
               in conf * (1 - vw_confidence v * (1 - danger_mult))
          else conf)"

definition synthesize ::
  "(bool \<Rightarrow> flt \<Rightarrow> string) \<Rightarrow> flt \<Rightarrow> string \<Rightarrow> analyst_view list \<Rightarrow> agent_signal" where
  "synthesize fmt rw symbol views =
     (let ds = directional views
      in if ds = []
         then \<lparr>ag_symbol = symbol, ag_score = 0, ag_confidence = 0,
               ag_rationale = ''no usable analyst views'', ag_views = views\<rparr>
         else \<lparr>ag_symbol = symbol, ag_score = clip_to (combined_score ds) (- 1) 1,
               ag_confidence =
                 clip_to (damped rw (find (\<lambda>v. vw_role v = RiskRole) views) (base_confidence ds)) 0 1,
               ag_rationale = summarize_views fmt views, ag_views = views\<rparr>)"

fun run_analysts ::
  "nat \<Rightarrow> (pyval \<Rightarrow> string) \<Rightarrow> 'p provider \<Rightarrow> analyst_context \<Rightarrow> analyst_role list \<Rightarrow> 'p \<Rightarrow> 'p \<times> analyst_view list res"
where
  "run_analysts room rpr ask c [] p = (p, Inr [])"
| "run_analysts room rpr ask c (r # rs) p =
     (case run_analyst room rpr ask r c p of
        (p1, Inl e) \<Rightarrow> (p1, Inl e)
      | (p1, Inr v) \<Rightarrow>
          (case run_analysts room rpr ask c rs p1 of
             (p2, Inl e) \<Rightarrow> (p2, Inl e)
           | (p2, Inr vs) \<Rightarrow> (p2, Inr (v # vs))))"

definition default_roles :: "analyst_role list" where
  "default_roles = [NewsRole, TechnicalRole, RiskRole]"

definition run_analyst_panel ::
  "nat \<Rightarrow> (pyval \<Rightarrow> string) \<Rightarrow> (bool \<Rightarrow> flt \<Rightarrow> string) \<Rightarrow> 'p provider \<Rightarrow> string \<Rightarrow> analyst_context
   \<Rightarrow> analyst_role list \<Rightarrow> flt \<Rightarrow> 'p \<Rightarrow> 'p \<times> agent_signal option res" where
  "run_analyst_panel room rpr fmt ask symbol c roles rw p =
     (if context_empty c then (p, Inr None)
      else let c1 = (if symbol \<noteq> [] \<and> ax_symbol c \<noteq> symbol then c\<lparr>ax_symbol := symbol\<rparr> else c)
           in (case run_analysts room rpr ask c1 roles p of
                 (p1, Inl e) \<Rightarrow> (p1, Inl e)
               | (p1, Inr views) \<Rightarrow> (p1, Inr (Some (synthesize fmt rw (ax_symbol c1) views)))))"

section \<open>collectors/llm_features.py\<close>

definition signal_observation :: "datetime \<Rightarrow> extracted \<times> datetime \<Rightarrow> observation" where
  "signal_observation now sk =
     (let (x, kt) = sk
      in new_obs now ''llm'' llm_signal_dataset ''equity'' (upper (xs_symbol x))
           (Some (upper (xs_symbol x) @ '':'' @ date_iso (dt_date kt))) kt kt
           [(''score'', PFloat (xs_score x)), (''confidence'', PFloat (xs_confidence x)),
            (''rationale'', PStr (xs_rationale x))]
           [(''parser_version'', PInt 1)])"

definition normalize_signals :: "datetime \<Rightarrow> (extracted \<times> datetime) list \<Rightarrow> observation list" where
  "normalize_signals now raw = map (signal_observation now) raw"

definition headlines_by_symbol ::
  "(pyval \<Rightarrow> string) \<Rightarrow> 's store_ops \<Rightarrow> 's \<Rightarrow> datetime \<Rightarrow> string list \<Rightarrow> int \<Rightarrow> (string, string list) dict" where
  "headlines_by_symbol rpr S s as_of symbols window_days =
     (let wanted = set (map upper symbols)
      in map (\<lambda>(k, os). (k, map (\<lambda>x. py_str rpr (pget (o_value x) ''title'')) os))
           (group_by o_entity_id
             (filter (\<lambda>x. \<not> (o_knowledge_time x \<le> as_of - days window_days \<or> o_entity_id x \<notin> wanted)
                          \<and> truthy (pget (o_value x) ''title''))
               (st_as_of S s as_of (q_of_dataset news_dataset)))))"

fun extract_sweep ::
  "nat \<Rightarrow> (pyval \<Rightarrow> string) \<Rightarrow> 'p provider \<Rightarrow> (string, string list) dict \<Rightarrow> datetime \<Rightarrow> string list
   \<Rightarrow> (extracted \<times> datetime) list \<Rightarrow> 'p \<Rightarrow> 'p \<times> (extracted \<times> datetime) list res" where
  "extract_sweep room rpr ask heads as_of [] out p = (p, Inr out)"
| "extract_sweep room rpr ask heads as_of (sy # syms) out p =
     (if dict_get [] heads (upper sy) = [] then extract_sweep room rpr ask heads as_of syms out p
      else (case extract_news_signal room rpr ask (upper sy) (dict_get [] heads (upper sy)) 20 p of
              (p1, Inl e) \<Rightarrow> if e = LLMBudgetExceeded then (p1, Inr out) else (p1, Inl e)
            | (p1, Inr None) \<Rightarrow> extract_sweep room rpr ask heads as_of syms out p1
            | (p1, Inr (Some x)) \<Rightarrow> extract_sweep room rpr ask heads as_of syms (out @ [(x, as_of)]) p1))"

definition extract_signals_for_universe ::
  "nat \<Rightarrow> (pyval \<Rightarrow> string) \<Rightarrow> 's store_ops \<Rightarrow> 's \<Rightarrow> 'p provider \<Rightarrow> string list \<Rightarrow> datetime \<Rightarrow> int
   \<Rightarrow> 'p \<Rightarrow> 'p \<times> (extracted \<times> datetime) list res" where
  "extract_signals_for_universe room rpr S s ask symbols as_of window_days p =
     extract_sweep room rpr ask (headlines_by_symbol rpr S s as_of symbols window_days) as_of symbols [] p"

section \<open>Bounds\<close>

definition bounded_view :: "analyst_view \<Rightarrow> bool" where
  "bounded_view v \<longleftrightarrow> Fin (- 1) \<le> vw_score v \<and> vw_score v \<le> Fin 1
     \<and> Fin 0 \<le> vw_confidence v \<and> vw_confidence v \<le> Fin 1"

lemma clip_score: "Fin (- 1) \<le> clip_to x (- 1) 1 \<and> clip_to x (- 1) 1 \<le> Fin 1"
  by (cases x) (simp_all add: clip_to_def flt_simps)

lemma clip_unit: "Fin 0 \<le> clip_to x 0 1 \<and> clip_to x 0 1 \<le> Fin 1"
  by (cases x) (simp_all add: clip_to_def flt_simps)

lemma parse_signal_bounds:
  assumes "parse_signal room rpr symbol text = Inr (Some x)"
  shows "xs_symbol x = symbol \<and> Fin (- 1) \<le> xs_score x \<and> xs_score x \<le> Fin 1
    \<and> Fin 0 \<le> xs_confidence x \<and> xs_confidence x \<le> Fin 1"
  using assms clip_score clip_unit
  by (auto simp: parse_signal_def reply_fields_def split: option.splits sum.splits if_splits prod.splits)

lemma neutral_view_bounded [simp]: "bounded_view (neutral_view r)" "vw_role (neutral_view r) = r"
  by (simp_all add: bounded_view_def neutral_view_def flt_simps)

lemma run_analyst_view:
  assumes "run_analyst room rpr ask role c p = (p1, Inr v)"
  shows "bounded_view v \<and> vw_role v = role"
proof -
  have "bounded_view w \<and> vw_role w = role" if "view_of_reply room rpr sy role t = Inr w" for sy t w
    using that parse_signal_bounds [of room rpr sy t]
    by (auto simp: view_of_reply_def bounded_view_def
        neutral_view_def zero_flt_def split: sum.splits option.splits)
  then show ?thesis
    using assms by (auto simp: run_analyst_def handle_reply_def split: prod.splits sum.splits if_splits)
qed

lemma run_analysts_views:
  "run_analysts room rpr ask c roles p = (p1, Inr vs) \<Longrightarrow> map vw_role vs = roles \<and> list_all bounded_view vs"
  by (induction roles arbitrary: p p1 vs)
    (auto split: prod.splits sum.splits dest: run_analyst_view)

lemma synthesize_bounds:
  "Fin (- 1) \<le> ag_score (synthesize fmt rw s vs) \<and> ag_score (synthesize fmt rw s vs) \<le> Fin 1
    \<and> Fin 0 \<le> ag_confidence (synthesize fmt rw s vs) \<and> ag_confidence (synthesize fmt rw s vs) \<le> Fin 1
    \<and> ag_views (synthesize fmt rw s vs) = vs \<and> ag_symbol (synthesize fmt rw s vs) = s"
  using clip_score clip_unit by (auto simp: synthesize_def Let_def zero_flt_def)

section \<open>The synthesis\<close>

abbreviation vscore :: "analyst_view \<Rightarrow> real" where "vscore v \<equiv> flt_val (vw_score v)"
abbreviation vconf :: "analyst_view \<Rightarrow> real" where "vconf v \<equiv> flt_val (vw_confidence v)"

lemma bounded_view_reals:
  assumes "bounded_view v"
  shows "vw_score v = Fin (vscore v)" "vw_confidence v = Fin (vconf v)" "\<bar>vscore v\<bar> \<le> 1"
    "0 \<le> vconf v" "vconf v \<le> 1"
  using assms unfolding bounded_view_def
  by (cases "vw_score v"; cases "vw_confidence v"; auto)+

lemma sum_list_Fin_of: "(\<And>x. x \<in> set xs \<Longrightarrow> g x = Fin (h x)) \<Longrightarrow> sum_list (map g xs) = Fin (sum_list (map h xs))"
  by (induction xs) (simp_all add: zero_flt_def)

definition wsum :: "(analyst_view \<Rightarrow> real) \<Rightarrow> analyst_view list \<Rightarrow> real" where
  "wsum f ds = sum_list (map (\<lambda>v. f v * vconf v) ds)"

definition weight_of :: "analyst_view list \<Rightarrow> real" where
  "weight_of ds = sum_list (map vconf ds)"

definition opinions :: "analyst_view list \<Rightarrow> bool" where
  "opinions ds \<longleftrightarrow> ds \<noteq> [] \<and> (\<forall>v \<in> set ds. bounded_view v \<and> 0 < vconf v)"

lemma directional_opinions:
  "\<forall>v \<in> set views. bounded_view v \<Longrightarrow> directional views \<noteq> [] \<Longrightarrow> opinions (directional views)"
  using bounded_view_reals(2) by (auto simp: opinions_def directional_def zero_flt_def) (metis less_flt.simps(1))

lemma opinions_weight:
  assumes "opinions ds"
  shows "0 < weight_of ds" "weight_of ds \<le> real (length ds)"
proof -
  have "ds \<noteq> []" "\<And>v. v \<in> set ds \<Longrightarrow> 0 < vconf v \<and> vconf v \<le> 1"
    using assms bounded_view_reals(5) by (auto simp: opinions_def)
  then show "0 < weight_of ds" "weight_of ds \<le> real (length ds)"
    unfolding weight_of_def by (induction ds rule: list_nonempty_induct) (force simp: add_pos_pos)+
qed

lemma wsum_mono:
  "opinions ds \<Longrightarrow> (\<And>v. v \<in> set ds \<Longrightarrow> f v \<le> g v) \<Longrightarrow> wsum f ds \<le> wsum g ds"
  unfolding wsum_def opinions_def by (intro sum_list_mono) (auto intro!: mult_right_mono)

lemma wsum_const: "wsum (\<lambda>_. a) ds = a * weight_of ds"
  by (simp add: wsum_def weight_of_def sum_list_const_mult)

lemma weighted_between:
  assumes "opinions ds" "\<And>v. v \<in> set ds \<Longrightarrow> a \<le> f v" "\<And>v. v \<in> set ds \<Longrightarrow> f v \<le> b"
  shows "a \<le> wsum f ds / weight_of ds" "wsum f ds / weight_of ds \<le> b"
  using wsum_mono [of ds "\<lambda>_. a" f] wsum_mono [of ds f "\<lambda>_. b"] assms opinions_weight(1) [OF assms(1)]
  by (simp_all add: wsum_const field_simps)

lemma combined_score_real:
  assumes "opinions ds"
  shows "combined_score ds = Fin (wsum vscore ds / weight_of ds)"
proof -
  have "sum_list (map (\<lambda>v. vw_score v * vw_confidence v) ds) = Fin (wsum vscore ds)"
    unfolding wsum_def
    by (rule sum_list_Fin_of) (metis assms bounded_view_reals(1,2) opinions_def times_flt.simps(1))
  moreover have "sum_list (map vw_confidence ds) = Fin (weight_of ds)"
    unfolding weight_of_def by (rule sum_list_Fin_of) (metis assms bounded_view_reals(2) opinions_def)
  ultimately show ?thesis using opinions_weight(1) [OF assms] by (simp add: combined_score_def)
qed

lemma base_confidence_real:
  assumes "opinions ds"
  obtains b where "base_confidence ds = Fin b" "0 \<le> b" "b \<le> weight_of ds / real (length ds)"
proof -
  define m where "m = wsum vscore ds / weight_of ds"
  define sp where "sp = wsum (\<lambda>v. \<bar>vscore v - m\<bar>) ds / weight_of ds"
  have W: "0 < weight_of ds" using opinions_weight(1) [OF assms] .
  have n: "0 < length ds" using assms by (simp add: opinions_def)
  have "0 \<le> wsum (\<lambda>v. \<bar>vscore v - m\<bar>) ds"
    using wsum_mono [OF assms, of "\<lambda>_. 0" "\<lambda>v. \<bar>vscore v - m\<bar>"] by (simp add: wsum_const)
  then have sp0: "0 \<le> sp" using W by (simp add: sp_def)
  have "sum_list (map (\<lambda>v. \<bar>vw_score v - Fin m\<bar> * vw_confidence v) ds) = Fin (wsum (\<lambda>v. \<bar>vscore v - m\<bar>) ds)"
    unfolding wsum_def
  proof (rule sum_list_Fin_of)
    fix v assume "v \<in> set ds"
    then have "bounded_view v" using assms by (simp add: opinions_def)
    from bounded_view_reals(1,2) [OF this] show "\<bar>vw_score v - Fin m\<bar> * vw_confidence v = Fin (\<bar>vscore v - m\<bar> * vconf v)"
      by (metis abs_flt.simps(1) minus_flt_def plus_flt.simps(1) times_flt.simps(1) uminus_flt.simps(1)
          diff_conv_add_uminus)
  qed
  moreover have "sum_list (map vw_confidence ds) = Fin (weight_of ds)"
    unfolding weight_of_def by (rule sum_list_Fin_of) (metis assms bounded_view_reals(2) opinions_def)
  ultimately have "base_confidence ds
      = Fin (weight_of ds / real (length ds)) * clip_to (Fin (1 - sp / 2)) 0 1"
    using W n by (simp add: base_confidence_def Let_def combined_score_real [OF assms] m_def [symmetric]
        sp_def [symmetric] flt_simps)
  also have "\<dots> = Fin (weight_of ds / real (length ds) * max 0 (min 1 (1 - sp / 2)))"
    by (simp add: clip_to_def flt_simps max_def min_def)
  finally show thesis
  proof (rule that)
    show "0 \<le> weight_of ds / real (length ds) * max 0 (min 1 (1 - sp / 2))" using W by simp
    show "weight_of ds / real (length ds) * max 0 (min 1 (1 - sp / 2)) \<le> weight_of ds / real (length ds)"
      using W n by (intro mult_right_le_one_le divide_nonneg_nonneg) auto
  qed
qed

lemma damped_real:
  assumes "0 \<le> w" "w \<le> 1" "bounded_view v" "0 \<le> b"
  obtains c where "damped (Fin w) (Some v) (Fin b) = Fin c" "(1 - w) * b \<le> c" "c \<le> b"
proof -
  obtain x q where v: "vw_score v = Fin x" "vw_confidence v = Fin q" "\<bar>x\<bar> \<le> 1" "0 \<le> q" "q \<le> 1"
    using bounded_view_reals [OF assms(3)] by metis
  define k where "k = w * (1 - x) / 2"
  have "w * (1 - x) \<le> w * 2" using assms(1) v(3) by (intro mult_left_mono) auto
  then have k: "0 \<le> k" "k \<le> w" using assms v(3) by (auto simp: k_def)
  define f where "f = (if 0 < q then 1 - q * k else 1)"
  have "damped (Fin w) (Some v) (Fin b) = Fin (b * f)"
    by (simp add: damped_def v(1,2) flt_simps Let_def k_def f_def)
  moreover have "1 - w \<le> f" "f \<le> 1"
    using k v(4,5) assms mult_mono [of q 1 k w] by (auto simp: f_def)
  then have "(1 - w) * b \<le> b * f" "b * f \<le> b"
    using assms(4) by (simp_all add: mult.commute mult_left_mono mult_left_le)
  ultimately show thesis by (rule that)
qed

text \<open>C31: the panel's number is always usable.  Whatever the provider answers, and whatever the weight given
  to the risk analyst (infinite or NaN included), a signal of the panel has a score in [-1, 1] and a
  confidence in [0, 1], so never a NaN; it carries one view per requested role, in order, each within the
  same bounds; and it is about the requested symbol.\<close>

theorem panel_signal_is_bounded:
  assumes "run_analyst_panel room rpr fmt ask symbol c roles rw p = (p1, Inr (Some g))"
  shows "Fin (- 1) \<le> ag_score g \<and> ag_score g \<le> Fin 1 \<and> Fin 0 \<le> ag_confidence g \<and> ag_confidence g \<le> Fin 1
    \<and> map vw_role (ag_views g) = roles \<and> list_all bounded_view (ag_views g)
    \<and> ag_symbol g = (if symbol = [] then ax_symbol c else symbol)"
proof -
  define c1 where "c1 = (if symbol \<noteq> [] \<and> ax_symbol c \<noteq> symbol then c\<lparr>ax_symbol := symbol\<rparr> else c)"
  obtain vs where vs: "run_analysts room rpr ask c1 roles p = (p1, Inr vs)"
    and g: "g = synthesize fmt rw (ax_symbol c1) vs"
    using assms by (auto simp: run_analyst_panel_def Let_def c1_def [symmetric]
        split: if_splits prod.splits sum.splits)
  have "ax_symbol c1 = (if symbol = [] then ax_symbol c else symbol)" by (simp add: c1_def)
  then show ?thesis
    unfolding g using synthesize_bounds [of fmt rw "ax_symbol c1" vs] run_analysts_views [OF vs] by simp
qed

text \<open>How the views are combined.  When some directional analyst has an opinion, the score is a weighted
  mean: it stays within any bounds that hold for those analysts' scores, and the risk analyst has no
  influence on it.  The confidence is at most the mean of the directional confidences, the risk analyst can
  only lower it, and never below a share \<open>1 - risk_weight\<close> of it.\<close>

theorem synthesis_spec:
  assumes views: "\<forall>v \<in> set views. bounded_view v" and some: "directional views \<noteq> []"
    and w: "0 \<le> w" "w \<le> 1"
    and lo: "\<forall>v \<in> set (directional views). Fin lo \<le> vw_score v"
    and hi: "\<forall>v \<in> set (directional views). vw_score v \<le> Fin hi"
  shows "\<exists>m b c. synthesize fmt (Fin w) s views = \<lparr>ag_symbol = s, ag_score = Fin m, ag_confidence = Fin c,
           ag_rationale = summarize_views fmt views, ag_views = views\<rparr>
      \<and> lo \<le> m \<and> m \<le> hi
      \<and> ag_score (synthesize fmt (Fin w) s (filter (\<lambda>v. vw_role v \<noteq> RiskRole) views)) = Fin m
      \<and> ag_confidence (synthesize fmt (Fin w) s (filter (\<lambda>v. vw_role v \<noteq> RiskRole) views)) = Fin b
      \<and> b \<le> weight_of (directional views) / real (length (directional views))
      \<and> (1 - w) * b \<le> c \<and> c \<le> b"
proof -
  define ds where "ds = directional views"
  define m where "m = wsum vscore ds / weight_of ds"
  have ds: "opinions ds" unfolding ds_def using directional_opinions [OF views some] .
  have m: "combined_score ds = Fin m" unfolding m_def by (rule combined_score_real [OF ds(1)])
  have lohi: "lo \<le> vscore v \<and> vscore v \<le> hi \<and> - 1 \<le> vscore v \<and> vscore v \<le> 1" if "v \<in> set ds" for v
    using that lo hi ds bounded_view_reals(1,3) [of v]
    by (auto simp: ds_def opinions_def abs_le_iff) (metis less_eq_flt.simps(1))+
  have mb: "lo \<le> m" "m \<le> hi" "- 1 \<le> m" "m \<le> 1"
    using weighted_between(1) [OF ds(1), of lo vscore hi] weighted_between(2) [OF ds(1), of lo vscore hi]
      weighted_between(1) [OF ds(1), of "- 1" vscore 1] weighted_between(2) [OF ds(1), of "- 1" vscore 1] lohi
    unfolding m_def by blast+
  obtain b where b: "base_confidence ds = Fin b" "0 \<le> b" "b \<le> weight_of ds / real (length ds)"
    using base_confidence_real [OF ds(1)] .
  have b1: "b \<le> 1" using b(3) opinions_weight [OF ds(1)] ds(1)
    by (simp add: opinions_def) (meson divide_le_eq_1_pos length_greater_0_conv of_nat_0_less_iff order_trans)
  define risk where "risk = find (\<lambda>v. vw_role v = RiskRole) views"
  obtain c where c: "damped (Fin w) risk (Fin b) = Fin c" "(1 - w) * b \<le> c" "c \<le> b"
  proof (cases risk)
    case None
    then show thesis using that [of b] w b(2) by (simp add: damped_def mult_left_le_one_le)
  next
    case (Some v)
    then have "bounded_view v" using views by (auto simp: risk_def find_Some_iff)
    from damped_real [OF w this b(2)] show thesis using that Some by metis
  qed
  have clip: "clip_to (Fin m) (- 1) 1 = Fin m" "clip_to (Fin b) 0 1 = Fin b" "clip_to (Fin c) 0 1 = Fin c"
    using mb b b1 c order_trans [OF mult_nonneg_nonneg [of "1 - w" b] c(2)] w by (auto simp: clip_to_def flt_simps)
  have none: "find (\<lambda>v. vw_role v = RiskRole) (filter (\<lambda>v. vw_role v \<noteq> RiskRole) views) = None"
    by (simp add: find_None_iff)
  have same: "directional (filter (\<lambda>v. vw_role v \<noteq> RiskRole) views) = ds"
    unfolding ds_def directional_def filter_filter by (rule filter_cong) auto
  have "synthesize fmt (Fin w) s views = \<lparr>ag_symbol = s, ag_score = Fin m, ag_confidence = Fin c,
      ag_rationale = summarize_views fmt views, ag_views = views\<rparr>"
    using some by (simp add: synthesize_def ds_def [symmetric] m b c risk_def [symmetric] clip)
  moreover have "ag_score (synthesize fmt (Fin w) s (filter (\<lambda>v. vw_role v \<noteq> RiskRole) views)) = Fin m"
    "ag_confidence (synthesize fmt (Fin w) s (filter (\<lambda>v. vw_role v \<noteq> RiskRole) views)) = Fin b"
    using some by (simp_all add: synthesize_def same none ds_def [symmetric] m b damped_def clip)
  ultimately show ?thesis using mb b c unfolding ds_def by blast
qed

lemma panel_signal_is_bounded_witness:
  "ag_score (the (projr (snd (run_analyst_panel 900 (\<lambda>_. []) (\<lambda>_ _. []) (\<lambda>q p. (p, Inl LLMError)) ''AAA''
      \<lparr>ax_symbol = ''AAA'', ax_headlines = [''up''], ax_price_summary = [], ax_risk_notes = [], ax_extra = []\<rparr>
      default_roles NaN ())))) \<le> Fin 1"
proof -
  let ?c = "\<lparr>ax_symbol = ''AAA'', ax_headlines = [''up''], ax_price_summary = [], ax_risk_notes = [], ax_extra = []\<rparr>"
  let ?r = "run_analyst_panel 900 (\<lambda>_. []) (\<lambda>_ _. []) (\<lambda>q p. (p, Inl LLMError)) ''AAA'' ?c default_roles NaN ()"
  have "\<exists>g. ?r = ((), Inr (Some g))"
    by (simp add: run_analyst_panel_def context_empty_def any_text_def strip_def is_space_def default_roles_def
        run_analyst_def handle_reply_def)
  then obtain g where g: "?r = ((), Inr (Some g))" ..
  from panel_signal_is_bounded [OF g] show ?thesis by (simp only: g snd_conv sum.sel option.sel simp_thms)
qed

lemma synthesis_spec_witness:
  "\<exists>m b c. synthesize (\<lambda>_ _. []) (Fin (1 / 2)) ''A'' [\<lparr>vw_role = NewsRole, vw_score = Fin (1 / 2), vw_confidence = 1, vw_rationale = []\<rparr>,
      \<lparr>vw_role = RiskRole, vw_score = Fin (- 1), vw_confidence = 1, vw_rationale = []\<rparr>]
    = \<lparr>ag_symbol = ''A'', ag_score = Fin m, ag_confidence = Fin c, ag_rationale = b,
       ag_views = [\<lparr>vw_role = NewsRole, vw_score = Fin (1 / 2), vw_confidence = 1, vw_rationale = []\<rparr>,
         \<lparr>vw_role = RiskRole, vw_score = Fin (- 1), vw_confidence = 1, vw_rationale = []\<rparr>]\<rparr> \<and> m = 1 / 2"
  using synthesis_spec [of "[\<lparr>vw_role = NewsRole, vw_score = Fin (1 / 2), vw_confidence = 1, vw_rationale = []\<rparr>,
      \<lparr>vw_role = RiskRole, vw_score = Fin (- 1), vw_confidence = 1, vw_rationale = []\<rparr>]" "1 / 2" "1 / 2" "1 / 2"
      "\<lambda>_ _. []" "''A''"]
  by (force simp: bounded_view_def directional_def flt_simps)

section \<open>The sweep\<close>

definition asked :: "(string, string list) dict \<Rightarrow> string list \<Rightarrow> string list" where
  "asked heads symbols = filter (\<lambda>sy. clean_lines (dict_get [] heads (upper sy)) \<noteq> []) symbols"

definition good_pair :: "datetime \<Rightarrow> string set \<Rightarrow> extracted \<times> datetime \<Rightarrow> bool" where
  "good_pair as_of names xk \<longleftrightarrow> snd xk = as_of \<and> xs_symbol (fst xk) \<in> names
     \<and> Fin (- 1) \<le> xs_score (fst xk) \<and> xs_score (fst xk) \<le> Fin 1
     \<and> Fin 0 \<le> xs_confidence (fst xk) \<and> xs_confidence (fst xk) \<le> Fin 1"

lemma parse_float_errors: "parse_float s = Inl e \<Longrightarrow> e = ValueError"
  by (auto simp: parse_float_def Let_def split: prod.splits if_splits option.splits)

lemma py_float_errors: "py_float v = Inl e \<Longrightarrow> caught e \<or> e = OverflowError"
  by (cases v) (auto simp: py_float_def caught_def split: if_splits dest: parse_float_errors)

definition escapes :: "pyerr \<Rightarrow> bool" where
  "escapes e \<longleftrightarrow> e = OverflowError \<or> e = RecursionError"

lemma reply_fields_errors: "reply_fields v = Inl e \<Longrightarrow> caught e \<or> e = OverflowError"
proof -
  assume e: "reply_fields v = Inl e"
  have "as_obj v = Inl e' \<Longrightarrow> caught e'" for e' by (cases v) (auto simp: caught_def)
  moreover have "pindex d ''score'' = Inl e' \<Longrightarrow> caught e'" for d e'
    by (auto simp: pindex_def caught_def split: option.splits)
  ultimately show ?thesis
    using e by (auto simp: reply_fields_def dest: py_float_errors split: sum.splits)
qed

lemma parse_signal_errors: "parse_signal room rpr symbol t = Inl e \<Longrightarrow> escapes e"
  using json_loads_errors reply_fields_errors
  by (fastforce simp: parse_signal_def caught_def escapes_def split: option.splits sum.splits if_splits prod.splits)

definition calls_made :: "('p \<times> nat) budgeted \<Rightarrow> ('p \<times> nat) budgeted \<Rightarrow> nat \<Rightarrow> bool" where
  "calls_made p p1 k \<longleftrightarrow> bp_budget p1 = bp_budget p \<and> bp_calls p1 = bp_calls p + int k
     \<and> snd (bp_inner p1) = snd (bp_inner p) + k \<and> (bp_calls p \<le> bp_budget p \<longrightarrow> bp_calls p1 \<le> bp_budget p)"

lemma calls_made_0 [simp]: "calls_made p p 0"
  by (simp add: calls_made_def)

lemma calls_made_add: "calls_made p p1 k \<Longrightarrow> calls_made p1 p2 l \<Longrightarrow> calls_made p p2 (k + l)"
  by (cases "bp_calls p \<le> bp_budget p") (auto simp: calls_made_def)

lemma budgeted_call:
  assumes "budgeted_complete (counted f) q p = (p1, r)"
  shows "calls_made p p1 1 \<or> (p1 = p \<and> r = Inl LLMBudgetExceeded)"
  using assms
  by (cases "f q (fst (bp_inner p))")
    (auto simp: budgeted_complete_def counted_def calls_made_def split: if_splits)

lemma extract_step:
  assumes "extract_news_signal room rpr (budgeted_complete (counted f)) symbol lines 20 p = (p1, r)"
  shows "(clean_lines lines = [] \<and> p1 = p \<and> r = Inr None)
    \<or> (clean_lines lines \<noteq> [] \<and> (calls_made p p1 1 \<or> (p1 = p \<and> r = Inl LLMBudgetExceeded))
       \<and> (\<forall>e. r = Inl e \<longrightarrow> e = LLMBudgetExceeded \<or> escapes e)
       \<and> (\<forall>x. r = Inr (Some x) \<longrightarrow> p1 \<noteq> p \<and> good_pair t {symbol} (x, t)))"
proof (cases "clean_lines lines = []")
  case True
  then show ?thesis using assms by (simp add: extract_news_signal_def)
next
  case False
  obtain p2 r2 where c: "budgeted_complete (counted f) (news_request symbol (take 20 (clean_lines lines))) p = (p2, r2)"
    by (rule prod.exhaust)
  have r: "p1 = p2" "r = handle_reply None (parse_signal room rpr symbol) r2"
    using assms False c by (simp_all add: extract_news_signal_def)
  have "e = LLMBudgetExceeded \<or> escapes e" if "r = Inl e" for e
    using that r parse_signal_errors by (auto simp: handle_reply_def split: sum.splits if_splits)
  moreover have "r2 \<noteq> Inl LLMBudgetExceeded \<and> good_pair t {symbol} (x, t)" if "r = Inr (Some x)" for x
    using that r parse_signal_bounds by (fastforce simp: handle_reply_def good_pair_def split: sum.splits if_splits)
  moreover have "p1 \<noteq> p" if "calls_made p p1 1" using that by (auto simp: calls_made_def)
  ultimately show ?thesis using budgeted_call [OF c] r False
    by (auto simp: handle_reply_def)
qed

lemma good_pair_mono: "good_pair t A x \<Longrightarrow> A \<subseteq> B \<Longrightarrow> good_pair t B x"
  by (auto simp: good_pair_def)

lemma extract_sweep_calls:
  assumes "extract_sweep room rpr (budgeted_complete (counted f)) heads t symbols out p = (p1, r)"
  shows "\<exists>k. calls_made p p1 k \<and> k \<le> length (asked heads symbols)
    \<and> (\<forall>e. r = Inl e \<longrightarrow> escapes e)
    \<and> (\<forall>ys. r = Inr ys \<longrightarrow> (\<exists>xs. ys = out @ xs \<and> length xs \<le> k \<and> list_all (good_pair t (upper ` set symbols)) xs))"
  using assms
proof (induction symbols arbitrary: out p)
  case Nil
  then show ?case by (auto intro: exI [of _ 0])
next
  case (Cons sy symbols)
  let ?hs = "dict_get [] heads (upper sy)"
  let ?good = "\<lambda>A. list_all (good_pair t (upper ` set A))"
  have widen: "?good (sy # symbols) xs" if "?good symbols xs" for xs
    using that by (auto simp: list_all_iff intro: good_pair_mono)
  have asked: "length (asked heads (sy # symbols))
      = (if clean_lines ?hs = [] then 0 else 1) + length (asked heads symbols)"
    by (simp add: asked_def)
  show ?case
  proof (cases "?hs = []")
    case True
    then have "extract_sweep room rpr (budgeted_complete (counted f)) heads t symbols out p = (p1, r)"
      using Cons.prems by simp
    from Cons.IH [OF this] obtain k where k: "calls_made p p1 k" "k \<le> length (asked heads symbols)"
      "\<forall>e. r = Inl e \<longrightarrow> escapes e"
      "\<forall>ys. r = Inr ys \<longrightarrow> (\<exists>xs. ys = out @ xs \<and> length xs \<le> k \<and> ?good symbols xs)" by blast
    from k(2) asked have "k \<le> length (asked heads (sy # symbols))" by simp
    with k(1,3,4) widen show ?thesis by blast
  next
    case False
    obtain p2 r2 where c: "extract_news_signal room rpr (budgeted_complete (counted f)) (upper sy) ?hs 20 p = (p2, r2)"
      by (rule prod.exhaust)
    note st = extract_step [OF c, of t]
    show ?thesis
    proof (cases r2)
      case (Inl e)
      then have "r = (if e = LLMBudgetExceeded then Inr out else Inl e)" "p1 = p2"
        using Cons.prems False c by (auto split: if_splits)
      moreover have "clean_lines ?hs \<noteq> []" "e = LLMBudgetExceeded \<or> escapes e"
        and "calls_made p p2 1 \<or> p2 = p"
        using st Inl by auto
      ultimately have "\<exists>k \<le> 1. calls_made p p1 k" "1 \<le> length (asked heads (sy # symbols))"
        "r = Inr out \<or> (\<exists>e. r = Inl e \<and> escapes e)"
        using asked calls_made_0 [of p] by (auto simp del: calls_made_0)
      then show ?thesis by (elim exE conjE disjE) (rule exI, force)+
    next
      case (Inr res)
      define out1 where "out1 = (case res of None \<Rightarrow> out | Some x \<Rightarrow> out @ [(x, t)])"
      have rest: "extract_sweep room rpr (budgeted_complete (counted f)) heads t symbols out1 p2 = (p1, r)"
        using Cons.prems False c Inr by (simp add: out1_def split: option.splits)
      define j where "j = (if clean_lines ?hs = [] then 0 else 1 :: nat)"
      have j: "calls_made p p2 j" "\<exists>zs. out1 = out @ zs \<and> length zs \<le> j \<and> ?good (sy # symbols) zs"
        using st Inr by (auto simp: j_def out1_def good_pair_def split: option.splits)
      obtain zs where zs: "out1 = out @ zs" "length zs \<le> j" "?good (sy # symbols) zs" using j(2) by blast
      obtain k where k: "calls_made p2 p1 k" "k \<le> length (asked heads symbols)" "\<forall>e. r = Inl e \<longrightarrow> escapes e"
        "\<forall>ys. r = Inr ys \<longrightarrow> (\<exists>xs. ys = out1 @ xs \<and> length xs \<le> k \<and> ?good symbols xs)"
        using Cons.IH [OF rest] by blast
      have "\<exists>xs. ys = out @ xs \<and> length xs \<le> j + k \<and> ?good (sy # symbols) xs" if ys: "r = Inr ys" for ys
      proof -
        from k(4) ys obtain xs where "ys = out1 @ xs" "length xs \<le> k" "?good symbols xs" by blast
        then show ?thesis using zs widen by (intro exI [of _ "zs @ xs"]) simp
      qed
      then show ?thesis
        using calls_made_add [OF j(1) k(1)] k(2,3) asked by (intro exI [of _ "j + k"]) (simp add: j_def)
    qed
  qed
qed

text \<open>C30: what a sweep over the universe costs and returns.  Behind a call budget, at most one request per name
  with headlines reaches the provider and never more than the budget; when the budget runs out the sweep
  keeps what it has instead of raising.  It returns at most one signal per request, each about a requested
  name, dated at the decision time, with its score in [-1, 1] and confidence in [0, 1].  Two exceptions of
  the reading of a reply escape: the \<open>OverflowError\<close> of an integer that no float holds and the
  \<open>RecursionError\<close> of a reply nested deeper than the \<open>room\<close> the recursion limit leaves.\<close>

theorem extraction_respects_the_budget:
  assumes "extract_signals_for_universe room rpr S s (budgeted_complete (counted f)) symbols as_of window
      (new_budgeted (inner, 0) budget) = (p, r)"
  shows "bp_calls p = int (snd (bp_inner p)) \<and> bp_calls p \<le> max 0 budget
    \<and> snd (bp_inner p) \<le> length (asked (headlines_by_symbol rpr S s as_of symbols window) symbols)
    \<and> (\<forall>e. r = Inl e \<longrightarrow> e = OverflowError \<or> e = RecursionError)
    \<and> (\<forall>xs. r = Inr xs \<longrightarrow> length xs \<le> snd (bp_inner p) \<and> list_all (good_pair as_of (upper ` set symbols)) xs)"
proof -
  from extract_sweep_calls [OF assms [unfolded extract_signals_for_universe_def]] obtain k where
    "calls_made (new_budgeted (inner, 0) budget) p k"
    "k \<le> length (asked (headlines_by_symbol rpr S s as_of symbols window) symbols)"
    "\<forall>e. r = Inl e \<longrightarrow> escapes e"
    "\<forall>ys. r = Inr ys \<longrightarrow> (\<exists>xs. ys = [] @ xs \<and> length xs \<le> k \<and> list_all (good_pair as_of (upper ` set symbols)) xs)"
    by blast
  then show ?thesis by (auto simp: calls_made_def new_budgeted_def escapes_def)
qed

definition sample_news :: mem_store where
  "sample_news = mem_add (news_observation 0 \<lparr>na_seendate = 1, na_title = ''up'', na_url = None,
     na_source_name = None, na_tone = None, na_symbol = Some ''AAA''\<rparr>)
    (mem_add (news_observation 0 \<lparr>na_seendate = 2, na_title = ''down'', na_url = None,
     na_source_name = None, na_tone = None, na_symbol = Some ''BBB''\<rparr>) mem_empty)"

definition sample_reply :: string where
  "sample_reply = ''{'' @ [quote] @ ''score'' @ [quote] @ '': -3, '' @ [quote] @ ''confidence'' @ [quote] @ '': 1}''"

text \<open>Two names with headlines, a budget of one call and a reply that parses: one signal, the score clamped.\<close>

lemma extraction_respects_the_budget_witness:
  "(case extract_signals_for_universe 900 (\<lambda>_. []) mem_ops sample_news
      (budgeted_complete (counted (\<lambda>q p. (p, Inr sample_reply)))) [''AAA'', ''BBB''] (5 * us_day) 7 (new_budgeted ((), 0) 1) of
      (p, r) \<Rightarrow> bp_calls p = 1 \<and> bp_calls p \<le> max 0 1
        \<and> map (\<lambda>xk. (xs_symbol (fst xk), xs_score (fst xk))) (projr r) = [(''AAA'', Fin (- 1))]
        \<and> list_all (good_pair (5 * us_day) (upper ` set [''AAA'', ''BBB''])) (projr r))"
proof -
  let ?run = "extract_signals_for_universe 900 (\<lambda>_. []) mem_ops sample_news
      (budgeted_complete (counted (\<lambda>q p. (p, Inr sample_reply)))) [''AAA'', ''BBB''] (5 * us_day) 7 (new_budgeted ((), 0) 1)"
  obtain p r where e: "?run = (p, r)" by (rule prod.exhaust)
  have v: "map_prod (\<lambda>p. bp_calls p) (map_sum id (map (\<lambda>xk. (xs_symbol (fst xk), xs_score (fst xk))))) ?run
      = (1, Inr [(''AAA'', Fin (- 1))])"
    by code_simp
  obtain xs where r: "r = Inr xs" "map (\<lambda>xk. (xs_symbol (fst xk), xs_score (fst xk))) xs = [(''AAA'', Fin (- 1))]"
    and c: "bp_calls p = 1"
    using v e by (cases r) auto
  from extraction_respects_the_budget [OF e]
  have "bp_calls p \<le> max 0 1" "list_all (good_pair (5 * us_day) (upper ` set [''AAA'', ''BBB''])) xs"
    using r(1) by simp_all
  then show ?thesis by (simp only: e r c prod.case sum.sel simp_thms)
qed

text \<open>A reply nested deeper than the room escapes the handler of \<open>parse_signal\<close>, and so ends the sweep.\<close>

lemma reply_block_whole: "strip (CHR ''{'' # s @ [CHR ''}'']) = CHR ''{'' # s @ [CHR ''}'']"
  "reply_block (CHR ''{'' # s @ [CHR ''}'']) = Some (CHR ''{'' # s @ [CHR ''}''])"
proof -
  show st: "strip (CHR ''{'' # s @ [CHR ''}'']) = CHR ''{'' # s @ [CHR ''}'']"
    by (simp add: strip_def is_space_def)
  show "reply_block (CHR ''{'' # s @ [CHR ''}'']) = Some (CHR ''{'' # s @ [CHR ''}''])"
    unfolding reply_block_def st by (simp add: find_char_def rfind_char_def Let_def)
qed

lemma deep_reply_escapes:
  "parse_signal room rpr symbol
     (''{'' @ [quote] @ ''score'' @ [quote] @ '':'' @ replicate room (CHR ''['') @ ''}'') = Inl RecursionError"
proof -
  define s where "s = [quote] @ ''score'' @ [quote] @ '':'' @ replicate room (CHR ''['')"
  have blk: "reply_block (''{'' @ s @ ''}'') = Some (''{'' @ s @ ''}'')" using reply_block_whole(2) [of s] by simp
  have "json_loads room (''{'' @ s @ ''}'') = Inl RecursionError"
  proof (cases room)
    case 0
    then show ?thesis by (simp add: json_loads_def skip_ws_def json_space_def quote_def)
  next
    case (Suc m)
    define n where "n = 2 * length (''{'' @ s @ ''}'') - 1"
    have n: "2 * length (''{'' @ s @ ''}'') + 1 = Suc (Suc n)" by (simp add: n_def)
    have d: "json_value n m (replicate room (CHR ''['') @ ''}'') = Inl RecursionError"
      by (rule json_value_deep) (simp_all add: n_def s_def Suc)
    have ws: "skip_ws (replicate room (CHR ''['') @ ''}'') = replicate room (CHR ''['') @ ''}''"
      "skip_ws (''{'' @ s @ ''}'') = ''{'' @ s @ ''}''" "skip_ws (s @ ''}'') = s @ ''}''"
      "skip_ws ('':'' @ replicate room (CHR ''['') @ ''}'') = '':'' @ replicate room (CHR ''['') @ ''}''"
      by (simp_all add: Suc s_def skip_ws_def json_space_def quote_def)
    have sc: "scan_string (''score'' @ [quote] @ '':'' @ replicate room (CHR ''['') @ ''}'')
        = Some (''score'', '':'' @ replicate room (CHR ''['') @ ''}'')"
      by (simp add: quote_def backslash_def)
    have "json_members (Suc n) m [] (s @ ''}'') = Inl RecursionError"
      using sc d ws by (simp add: s_def)
    then have "json_value (Suc (Suc n)) room (''{'' @ s @ ''}'') = Inl RecursionError"
      using ws(3) by (simp add: Suc quote_def s_def)
    then show ?thesis unfolding json_loads_def n ws(2) by simp
  qed
  then have "parse_signal room rpr symbol (''{'' @ s @ ''}'') = Inl RecursionError"
    by (simp add: parse_signal_def blk [simplified] caught_def)
  then show ?thesis by (simp add: s_def)
qed

section \<open>Replies that are not numbers\<close>

definition reply_object :: "nat \<Rightarrow> string \<Rightarrow> payload option" where
  "reply_object room t =
     (case reply_block t of
        None \<Rightarrow> None
      | Some block \<Rightarrow> (case json_loads room block of Inr (PDict d) \<Rightarrow> Some d | _ \<Rightarrow> None))"

definition reads_as :: "payload \<Rightarrow> flt \<Rightarrow> flt \<Rightarrow> bool" where
  "reads_as d score conf \<longleftrightarrow>
     (case map_of d ''score'' of None \<Rightarrow> False | Some v \<Rightarrow> py_float v = Inr score)
     \<and> py_float (dict_get (PFloat (Fin (1 / 2))) d ''confidence'') = Inr conf"

lemma reply_objectD:
  "reply_object room t = Some d \<Longrightarrow> \<exists>block. reply_block t = Some block \<and> json_loads room block = Inr (PDict d)"
  by (auto simp: reply_object_def split: option.splits sum.splits pyval.splits)

lemma parse_signal_reads:
  assumes "reply_object room t = Some d" "reads_as d score conf"
  shows "\<exists>x. parse_signal room rpr symbol t = Inr (Some x) \<and> xs_symbol x = symbol
    \<and> xs_score x = clip_to score (- 1) 1 \<and> xs_confidence x = clip_to conf 0 1"
  using reply_objectD [OF assms(1)] assms(2)
  by (auto simp: parse_signal_def reply_fields_def reads_as_def pindex_def split: option.splits)

definition nan_reply :: "nat \<Rightarrow> string \<Rightarrow> bool" where
  "nan_reply room t \<longleftrightarrow> (case reply_object room t of None \<Rightarrow> False | Some d \<Rightarrow> reads_as d NaN NaN)"

definition certain_view :: "analyst_view \<Rightarrow> bool" where
  "certain_view v \<longleftrightarrow> vw_score v = Fin 1 \<and> vw_confidence v = Fin 1"

lemma clip_NaN [simp]: "clip_to NaN (- 1) 1 = Fin 1" "clip_to NaN 0 1 = Fin 1"
  by (simp_all add: clip_to_def flt_simps)

lemma nan_view:
  assumes "nan_reply room t"
  shows "\<exists>v. view_of_reply room rpr symbol role t = Inr v \<and> vw_role v = role \<and> certain_view v"
proof -
  obtain d where "reply_object room t = Some d" "reads_as d NaN NaN"
    using assms by (auto simp: nan_reply_def split: option.splits)
  from parse_signal_reads [OF this, of rpr symbol] show ?thesis
    by (auto simp: view_of_reply_def certain_view_def)
qed

lemma nan_analysts:
  assumes "\<forall>q p. \<exists>p' t. ask q p = (p', Inr t) \<and> nan_reply room t"
  shows "\<exists>p1 vs. run_analysts room rpr ask c roles p = (p1, Inr vs) \<and> map vw_role vs = roles
    \<and> list_all certain_view vs"
proof (induction roles arbitrary: p)
  case (Cons r rs)
  define q where "q = \<lparr>rq_system = role_system r, rq_prompt = render_context c r 20, rq_max_tokens = 300\<rparr>"
  obtain p' t where a: "ask q p = (p', Inr t)" "nan_reply room t" using assms by blast
  obtain v where v: "view_of_reply room rpr (ax_symbol c) r t = Inr v" "vw_role v = r" "certain_view v"
    using nan_view [OF a(2)] by blast
  obtain p1 vs where "run_analysts room rpr ask c rs p' = (p1, Inr vs)" "map vw_role vs = rs" "list_all certain_view vs"
    using Cons.IH by blast
  then show ?case using a v by (simp add: run_analyst_def handle_reply_def q_def [symmetric])
qed simp

lemma certain_sums:
  assumes "\<forall>v \<in> set ds. certain_view v"
  shows "sum_list (map (\<lambda>v. vw_score v * vw_confidence v) ds) = Fin (real (length ds))"
    "sum_list (map vw_confidence ds) = Fin (real (length ds))"
    "sum_list (map (\<lambda>v. \<bar>vw_score v - Fin 1\<bar> * vw_confidence v) ds) = Fin 0"
  using assms by (induction ds) (simp_all add: certain_view_def zero_flt_def flt_simps)

lemma damped_certain:
  assumes "certain_view v"
  shows "clip_to (damped rw (Some v) (Fin 1)) 0 1 = Fin 1"
  using assms by (cases rw) (simp_all add: damped_def certain_view_def clip_to_def flt_simps Let_def)

lemma synthesize_certain:
  assumes views: "\<forall>v \<in> set vs. certain_view v" and some: "\<exists>v \<in> set vs. vw_role v \<noteq> RiskRole"
  shows "ag_score (synthesize fmt rw s vs) = Fin 1 \<and> ag_confidence (synthesize fmt rw s vs) = Fin 1"
proof -
  define ds where "ds = directional vs"
  have ds: "ds \<noteq> []" "\<forall>v \<in> set ds. certain_view v"
    using assms by (auto simp: ds_def directional_def certain_view_def filter_empty_conv flt_simps)
  note sums = certain_sums [OF ds(2)]
  have sc: "combined_score ds = Fin 1" using sums ds(1) by (simp add: combined_score_def)
  have bc: "base_confidence ds = Fin 1"
    using sums ds(1) by (simp add: base_confidence_def sc Let_def clip_to_def flt_simps)
  have "clip_to (damped rw (find (\<lambda>v. vw_role v = RiskRole) vs) (Fin 1)) 0 1 = Fin 1"
  proof (cases "find (\<lambda>v. vw_role v = RiskRole) vs")
    case None
    then show ?thesis by (simp add: damped_def clip_to_def flt_simps)
  next
    case (Some v)
    then have "certain_view v" using views by (auto simp: find_Some_iff)
    then show ?thesis using damped_certain Some by simp
  qed
  then show ?thesis using ds(1) by (simp add: synthesize_def ds_def [symmetric] sc bc clip_to_def flt_simps)
qed

text \<open>C32: a reply that is not a number becomes a full-strength signal.  JSON as Python reads it has a NaN, and
  clamping a NaN gives the upper bound: a reply whose score is NaN is parsed to the score 1, with its own
  confidence; one whose confidence is NaN is parsed to the confidence 1, with its own score.  When every
  reply of the provider has both, the analyst panel of a name with something to read, with any roles of
  which one is not the risk analyst, in any order and with any weight of the risk analyst, returns a
  maximally bullish signal with full conviction, where the module promises a missing one.\<close>

theorem nan_reply_is_full_conviction:
  assumes score: "reply_object room t1 = Some d1" "reads_as d1 NaN conf"
    and confidence: "reply_object room t2 = Some d2" "reads_as d2 score NaN"
    and replies: "\<forall>q p. \<exists>p' t. ask q p = (p', Inr t) \<and> nan_reply room t"
    and panel: "\<not> context_empty c" "\<exists>r \<in> set roles. r \<noteq> RiskRole"
  shows "(\<exists>x. parse_signal room rpr symbol t1 = Inr (Some x) \<and> xs_score x = Fin 1 \<and> xs_confidence x = clip_to conf 0 1)
    \<and> (\<exists>x. parse_signal room rpr symbol t2 = Inr (Some x) \<and> xs_score x = clip_to score (- 1) 1 \<and> xs_confidence x = Fin 1)
    \<and> (\<exists>p1 g. run_analyst_panel room rpr fmt ask symbol c roles rw p = (p1, Inr (Some g))
          \<and> ag_score g = Fin 1 \<and> ag_confidence g = Fin 1)"
proof (intro conjI)
  show "\<exists>x. parse_signal room rpr symbol t1 = Inr (Some x) \<and> xs_score x = Fin 1 \<and> xs_confidence x = clip_to conf 0 1"
    using parse_signal_reads [OF score] by force
  show "\<exists>x. parse_signal room rpr symbol t2 = Inr (Some x) \<and> xs_score x = clip_to score (- 1) 1 \<and> xs_confidence x = Fin 1"
    using parse_signal_reads [OF confidence] by force
  define c1 where "c1 = (if symbol \<noteq> [] \<and> ax_symbol c \<noteq> symbol then c\<lparr>ax_symbol := symbol\<rparr> else c)"
  obtain p1 vs where vs: "run_analysts room rpr ask c1 roles p = (p1, Inr vs)" "map vw_role vs = roles"
    "list_all certain_view vs"
    using nan_analysts [OF replies] by blast
  have "\<exists>v \<in> set vs. vw_role v \<noteq> RiskRole" using panel(2) vs(2) by auto
  with vs(1,3) panel(1) show "\<exists>p1 g. run_analyst_panel room rpr fmt ask symbol c roles rw p = (p1, Inr (Some g))
      \<and> ag_score g = Fin 1 \<and> ag_confidence g = Fin 1"
    using synthesize_certain by (simp add: run_analyst_panel_def c1_def [symmetric] list_all_iff)
qed

definition json_text :: "string \<Rightarrow> string \<Rightarrow> string" where
  "json_text score conf = ''{'' @ [quote] @ ''score'' @ [quote] @ '':'' @ score @ '','' @ [quote] @ ''confidence''
     @ [quote] @ '':'' @ conf @ ''}''"

lemma nan_reply_is_full_conviction_witness:
  "(\<exists>x. parse_signal 900 (\<lambda>_. []) ''A'' (json_text ''NaN'' ''0'') = Inr (Some x) \<and> xs_score x = Fin 1
        \<and> xs_confidence x = Fin 0)
    \<and> (\<exists>x. parse_signal 900 (\<lambda>_. []) ''A'' (json_text ''-1'' ''NaN'') = Inr (Some x) \<and> xs_score x = Fin (- 1)
        \<and> xs_confidence x = Fin 1)
    \<and> (\<exists>p1 g. run_analyst_panel 900 (\<lambda>_. []) (\<lambda>_ _. []) (\<lambda>q n. (Suc n, Inr (json_text ''NaN'' ''NaN''))) ''A''
          \<lparr>ax_symbol = ''A'', ax_headlines = [''up''], ax_price_summary = [], ax_risk_notes = [], ax_extra = []\<rparr>
          default_roles (Fin (1 / 2)) (0 :: nat) = (p1, Inr (Some g)) \<and> ag_score g = Fin 1 \<and> ag_confidence g = Fin 1)"
proof -
  let ?c = "\<lparr>ax_symbol = ''A'', ax_headlines = [''up''], ax_price_summary = [], ax_risk_notes = [], ax_extra = []\<rparr>"
  let ?ask = "\<lambda>(q :: request) (n :: nat). (Suc n, Inr (json_text ''NaN'' ''NaN'') :: string res)"
  have 1: "reply_object 900 (json_text ''NaN'' ''0'') = Some [(''score'', PFloat NaN), (''confidence'', PInt 0)]"
    by code_simp
  have 2: "reply_object 900 (json_text ''-1'' ''NaN'') = Some [(''score'', PInt (- 1)), (''confidence'', PFloat NaN)]"
    by code_simp
  have 3: "reply_object 900 (json_text ''NaN'' ''NaN'') = Some [(''score'', PFloat NaN), (''confidence'', PFloat NaN)]"
    by code_simp
  have r1: "reads_as [(''score'', PFloat NaN), (''confidence'', PInt 0)] NaN (Fin 0)"
    by (simp add: reads_as_def py_float_def float_limit_def)
  have r2: "reads_as [(''score'', PInt (- 1)), (''confidence'', PFloat NaN)] (Fin (- 1)) NaN"
    by (simp add: reads_as_def py_float_def float_limit_def)
  have "nan_reply 900 (json_text ''NaN'' ''NaN'')" by (simp add: nan_reply_def 3 reads_as_def py_float_def)
  then have r3: "\<forall>q p. \<exists>p' t. ?ask q p = (p', Inr t) \<and> nan_reply 900 t" by simp
  have c: "\<not> context_empty ?c" by (simp add: context_empty_def any_text_def strip_def is_space_def)
  have k: "clip_to (Fin 0) 0 1 = Fin 0" "clip_to (Fin (- 1)) (- 1) 1 = Fin (- 1)"
    by (simp_all add: clip_to_def flt_simps)
  have "\<exists>r \<in> set default_roles. r \<noteq> RiskRole" by (simp add: default_roles_def)
  from nan_reply_is_full_conviction [OF 1 r1 2 r2 r3 c this, of "\<lambda>_. []" "''A''" "\<lambda>_ _. []" "Fin (1 / 2)" 0]
  show ?thesis by (simp only: k)
qed

text \<open>An integer beyond the range of a float escapes the handler of \<open>parse_signal\<close>.\<close>

lemma huge_score_escapes:
  assumes "reply_object room t = Some d" "map_of d ''score'' = Some (PInt n)" "float_limit \<le> \<bar>n\<bar>"
  shows "parse_signal room rpr symbol t = Inl OverflowError"
  using reply_objectD [OF assms(1)] assms(2,3)
  by (auto simp: parse_signal_def reply_fields_def pindex_def py_float_def caught_def)

end
