(* ===== verification/Study.thy ===== *)
theory Study
  imports Learning Sleeves SqlStore
begin

text \<open>
  Market memory (\<open>memory/\<close>): the event study with its market model (\<open>event_study.py\<close>), the placebo test
  against random anchors, the walk over the store's history that feeds both and the gate of the event sleeve
  (\<open>study_runner.py\<close>), surprise encoding (\<open>surprise.py\<close>) and episodic recall (\<open>episodic.py\<close>).

  NumPy's \<open>lstsq\<close> and \<open>quantile\<close> are parameters, as are the generator's draws: \<open>draw k lo hi\<close> is its k-th
  integer, from \<open>lo\<close> up to \<open>hi\<close>; \<open>mixed\<close> is the order a sort leaves when NaNs are among its numbers.
\<close>

section \<open>event_study.py\<close>

type_synonym solver = "flt list \<Rightarrow> flt list \<Rightarrow> (flt \<times> flt) res"

record market_model =
  mm_alpha :: flt
  mm_beta :: flt
  mm_resid_std :: flt

definition fitted :: "flt \<Rightarrow> flt \<Rightarrow> flt list \<Rightarrow> flt list" where
  "fitted a b market = map (\<lambda>m. a + b * m) market"

definition estimate_market_model :: "solver \<Rightarrow> flt list \<Rightarrow> flt list \<Rightarrow> market_model res" where
  "estimate_market_model lstsq stock market =
     (case lstsq stock market of Inl e \<Rightarrow> Inl e | Inr (a, b) \<Rightarrow>
        let resid = map2 (-) stock (fitted a b market);
            dof = max (int (length stock) - 2) 1
        in Inr \<lparr>mm_alpha = a, mm_beta = b,
                mm_resid_std = fsqrt (fdiv (sum_list (map2 (*) resid resid)) (Fin (of_int dof)))\<rparr>)"

text \<open>\<open>concat(axis=1).dropna()\<close> of two series, and \<open>iloc[a:b]\<close>.\<close>

type_synonym tseries = "(datetime \<times> flt) list"

definition align_series :: "tseries \<Rightarrow> tseries \<Rightarrow> (datetime \<times> flt \<times> flt) list" where
  "align_series stock market =
     List.map_filter (\<lambda>(t, x). case map_of market t of
        None \<Rightarrow> None | Some m \<Rightarrow> if x = NaN \<or> m = NaN then None else Some (t, x, m)) stock"

definition slice_bound :: "nat \<Rightarrow> int \<Rightarrow> nat" where
  "slice_bound n i = (if i < 0 then nat (i + int n) else min n (nat i))"

definition iloc :: "'a list \<Rightarrow> int \<Rightarrow> int \<Rightarrow> 'a list" where
  "iloc xs a b = take (slice_bound (length xs) b - slice_bound (length xs) a) (drop (slice_bound (length xs) a) xs)"

record window_spec =
  ws_estimation_days :: int
  ws_gap_days :: int
  ws_pre :: int
  ws_post :: int

definition default_window :: "int \<Rightarrow> window_spec" where
  "default_window post =
     \<lparr>ws_estimation_days = 60, ws_gap_days = 5, ws_pre = 0, ws_post = post\<rparr>"

text \<open>The last bar at or before the anchor, \<open>searchsorted(anchor, side="right") - 1\<close>.\<close>

definition anchor_pos :: "(datetime \<times> 'a) list \<Rightarrow> datetime \<Rightarrow> int" where
  "anchor_pos df anchor = int (length (filter (\<lambda>r. fst r \<le> anchor) df)) - 1"

definition abnormal_sum :: "market_model \<Rightarrow> (datetime \<times> flt \<times> flt) list \<Rightarrow> flt" where
  "abnormal_sum m window =
     sum_list (map (\<lambda>(t, s, mk). s - (mm_alpha m + mm_beta m * mk)) window)"

definition event_car ::
  "solver \<Rightarrow> tseries \<Rightarrow> tseries \<Rightarrow> datetime \<Rightarrow> window_spec \<Rightarrow> flt option res" where
  "event_car lstsq stock market anchor w =
     (let df = align_series stock market; pos = anchor_pos df anchor;
          est_end = pos - ws_gap_days w; est_start = est_end - ws_estimation_days w in
      if df = [] \<or> pos < 0 then Inr None
      else if est_start < 0 \<or> est_end \<le> est_start \<or> int (length df) \<le> pos + ws_post w then Inr None
      else let est = iloc df est_start est_end in
           (case estimate_market_model lstsq (map (fst \<circ> snd) est) (map (snd \<circ> snd) est) of
              Inl e \<Rightarrow> Inl e
            | Inr m \<Rightarrow> Inr (Some (abnormal_sum m (iloc df (pos - ws_pre w) (pos + ws_post w + 1))))))"

record outcome_distribution =
  ed_label :: string
  ed_n :: nat
  ed_mean_car :: flt
  ed_std_car :: flt
  ed_t_stat :: flt
  ed_share_positive :: flt
  ed_q10 :: flt
  ed_q50 :: flt
  ed_q90 :: flt

definition outcome_significant :: "flt \<Rightarrow> outcome_distribution \<Rightarrow> bool" where
  "outcome_significant threshold d \<longleftrightarrow> 1 < ed_n d \<and> threshold \<le> \<bar>ed_t_stat d\<bar>"

definition market_of :: "panel \<Rightarrow> tseries" where
  "market_of p = map (\<lambda>r. (fst r, if clean (snd r) = [] then NaN else fmean (clean (snd r)))) (pn_rows p)"

definition stock_of :: "panel \<Rightarrow> string \<Rightarrow> tseries" where
  "stock_of p c = zip (panel_index p) (column p c)"

definition one_car ::
  "solver \<Rightarrow> panel \<Rightarrow> tseries \<Rightarrow> window_spec \<Rightarrow> string \<times> datetime \<Rightarrow> flt option res" where
  "one_car lstsq p market w e =
     (if fst e \<notin> set (pn_columns p) then Inr None
      else (case event_car lstsq (stock_of p (fst e)) market (snd e) w of
              Inl err \<Rightarrow> Inl err
            | Inr car \<Rightarrow> Inr (case car of None \<Rightarrow> None | Some c \<Rightarrow> if c = NaN then None else Some c)))"

definition share_positive :: "flt list \<Rightarrow> flt" where
  "share_positive xs = Fin (real (length (filter (\<lambda>x. 0 < x) xs)) / real (length xs))"

definition car_distribution :: "(flt list \<Rightarrow> real \<Rightarrow> flt) \<Rightarrow> string \<Rightarrow> flt list \<Rightarrow> outcome_distribution" where
  "car_distribution quantile label cars =
     (let n = length cars; m = fmean cars; sd = (if 1 < n then fstd cars else 0) in
      if n = 0 then \<lparr>ed_label = label, ed_n = 0, ed_mean_car = 0, ed_std_car = 0, ed_t_stat = 0,
        ed_share_positive = 0, ed_q10 = 0, ed_q50 = 0, ed_q90 = 0\<rparr>
      else \<lparr>ed_label = label, ed_n = n, ed_mean_car = m, ed_std_car = sd,
        ed_t_stat = (if 0 < sd then fdiv m (fdiv sd (Fin (sqrt (real n)))) else 0),
        ed_share_positive = share_positive cars, ed_q10 = quantile cars (1 / 10),
        ed_q50 = quantile cars (1 / 2), ed_q90 = quantile cars (9 / 10)\<rparr>)"

definition aggregate_event_study ::
  "solver \<Rightarrow> (flt list \<Rightarrow> real \<Rightarrow> flt) \<Rightarrow> (string \<times> datetime) list \<Rightarrow> panel \<Rightarrow> tseries option \<Rightarrow> string
   \<Rightarrow> window_spec \<Rightarrow> outcome_distribution res" where
  "aggregate_event_study lstsq quantile events p market label w =
     (let mk = (case market of Some m \<Rightarrow> m | None \<Rightarrow> market_of p)
      in case collect_res (one_car lstsq p mk w) events of
           Inl e \<Rightarrow> Inl e
         | Inr cars \<Rightarrow> Inr (car_distribution quantile label cars))"

section \<open>The placebo test\<close>

record placebo_result =
  pb_label :: string
  pb_n_events :: nat
  pb_n_permutations :: nat
  pb_observed_mean_car :: flt
  pb_placebo_mean :: flt
  pb_placebo_std :: flt
  pb_p_value :: real

definition placebo_significant :: "real \<Rightarrow> placebo_result \<Rightarrow> bool" where
  "placebo_significant alpha r \<longleftrightarrow>
     1 < pb_n_events r \<and> 0 < pb_observed_mean_car r \<and> pb_p_value r \<le> alpha"

definition no_placebo :: "string \<Rightarrow> outcome_distribution \<Rightarrow> placebo_result" where
  "no_placebo label d = \<lparr>pb_label = label, pb_n_events = ed_n d, pb_n_permutations = 0,
     pb_observed_mean_car = ed_mean_car d, pb_placebo_mean = 0, pb_placebo_std = 0, pb_p_value = 1\<rparr>"

definition fake_events ::
  "(nat \<Rightarrow> int \<Rightarrow> int \<Rightarrow> int) \<Rightarrow> datetime list \<Rightarrow> int \<Rightarrow> int \<Rightarrow> string list \<Rightarrow> nat \<Rightarrow> (string \<times> datetime) list res" where
  "fake_events draw index lo hi entities i =
     map_res (\<lambda>(j, e). case py_nth index (draw (i * length entities + j) lo hi) of
                Inl err \<Rightarrow> Inl err | Inr t \<Rightarrow> Inr (e, t)) (zip [0..<length entities] entities)"

definition placebo_mean ::
  "solver \<Rightarrow> (flt list \<Rightarrow> real \<Rightarrow> flt) \<Rightarrow> (nat \<Rightarrow> int \<Rightarrow> int \<Rightarrow> int) \<Rightarrow> (string \<times> datetime) list \<Rightarrow> panel
   \<Rightarrow> tseries option \<Rightarrow> string \<Rightarrow> window_spec \<Rightarrow> int \<Rightarrow> int \<Rightarrow> nat \<Rightarrow> flt option res" where
  "placebo_mean lstsq quantile draw events p market label w lo hi i =
     (case fake_events draw (panel_index p) lo hi (map fst events) i of
        Inl e \<Rightarrow> Inl e
      | Inr fake \<Rightarrow>
          (case aggregate_event_study lstsq quantile fake p market label w of
             Inl e \<Rightarrow> Inl e
           | Inr d \<Rightarrow> Inr (if 0 < ed_n d then Some (ed_mean_car d) else None)))"

definition placebo_p_value :: "flt list \<Rightarrow> flt \<Rightarrow> real" where
  "placebo_p_value arr observed =
     real (1 + length (filter (\<lambda>x. observed \<le> x) arr)) / real (1 + length arr)"

definition placebo_of :: "string \<Rightarrow> outcome_distribution \<Rightarrow> flt list \<Rightarrow> placebo_result" where
  "placebo_of label d arr =
     (if arr = [] then no_placebo label d
      else \<lparr>pb_label = label, pb_n_events = ed_n d, pb_n_permutations = length arr,
        pb_observed_mean_car = ed_mean_car d, pb_placebo_mean = fmean arr,
        pb_placebo_std = (if 1 < length arr then fstd arr else 0),
        pb_p_value = placebo_p_value arr (ed_mean_car d)\<rparr>)"

definition placebo_event_study ::
  "solver \<Rightarrow> (flt list \<Rightarrow> real \<Rightarrow> flt) \<Rightarrow> (nat \<Rightarrow> int \<Rightarrow> int \<Rightarrow> int) \<Rightarrow> (string \<times> datetime) list \<Rightarrow> panel
   \<Rightarrow> tseries option \<Rightarrow> string \<Rightarrow> window_spec \<Rightarrow> nat \<Rightarrow> placebo_result res" where
  "placebo_event_study lstsq quantile draw events p market label w n_permutations =
     (case aggregate_event_study lstsq quantile events p market label w of
        Inl e \<Rightarrow> Inl e
      | Inr observed \<Rightarrow>
          let lo = ws_estimation_days w + ws_gap_days w;
              hi = int (length (pn_rows p)) - ws_post w - 1
          in if ed_n observed < 2 \<or> hi \<le> lo then Inr (no_placebo label observed)
             else (case collect_res (placebo_mean lstsq quantile draw events p market label w lo hi)
                        [0..<n_permutations] of
                     Inl e \<Rightarrow> Inl e
                   | Inr arr \<Rightarrow> Inr (placebo_of label observed arr)))"

definition returns_from_events :: "(string \<times> datetime) list \<Rightarrow> string list" where
  "returns_from_events events = sort (remdups (map fst events))"

section \<open>study_runner.py\<close>

definition event_text :: "event_type \<Rightarrow> string" where
  "event_text t = (case t of EARNINGS_BEAT \<Rightarrow> ''earnings_beat'' | EARNINGS_MISS \<Rightarrow> ''earnings_miss''
     | CPI_SURPRISE \<Rightarrow> ''cpi_surprise'' | FED_SURPRISE \<Rightarrow> ''fed_surprise'' | GUIDANCE_CHANGE \<Rightarrow> ''guidance_change''
     | M_AND_A \<Rightarrow> ''m_and_a'' | REGULATORY_ACTION \<Rightarrow> ''regulatory_action''
     | GEOPOLITICAL_SHOCK \<Rightarrow> ''geopolitical_shock'' | INSIDER_CLUSTER_BUY \<Rightarrow> ''insider_cluster_buy''
     | LEADERSHIP_CONGRESS_TRADE \<Rightarrow> ''leadership_congress_trade''
     | NEWS_SENTIMENT_SPIKE \<Rightarrow> ''news_sentiment_spike'')"

text \<open>The bounded copy of a SQL store; any other store is handed through.\<close>

definition gate_copy ::
  "(observation_row list \<Rightarrow> observation_row list) \<Rightarrow> (payload \<Rightarrow> payload) \<Rightarrow> sql_table \<Rightarrow> datetime \<Rightarrow> int \<Rightarrow> mem_store" where
  "gate_copy rows json tbl now lookback_days =
     mem_add_many (sql_as_of_since rows json (Some (now - days (lookback_days + 120))) tbl DISTANT_FUTURE q_all)
       mem_empty"

type_synonym event_key = "string \<times> string \<times> datetime"

definition event_key_of :: "event \<Rightarrow> event_key" where
  "event_key_of e = (ev_entity_id e, event_text (ev_type e), ev_knowledge_time e)"

definition add_anchor ::
  "event \<Rightarrow> event_key list \<times> (string, (string \<times> datetime) list) dict
   \<Rightarrow> event_key list \<times> (string, (string \<times> datetime) list) dict" where
  "add_anchor e st =
     (let (seen, anchors) = st; ty = event_text (ev_type e) in
      if event_key_of e \<in> set seen then st
      else (event_key_of e # seen,
            dict_set ty (dict_get [] anchors ty @ [(ev_entity_id e, ev_knowledge_time e)]) anchors))"

definition study_schedule :: "datetime list \<Rightarrow> nat \<Rightarrow> nat \<Rightarrow> int option \<Rightarrow> datetime list" where
  "study_schedule dates step_days min_history lookback_days =
     (let ds = every_nth step_days 0 (drop min_history dates)
      in case lookback_days of
           None \<Rightarrow> ds
         | Some n \<Rightarrow> if dates = [] then ds else filter (\<lambda>d. last dates - days n \<le> d) ds)"

definition collect_anchors ::
  "'s store_ops \<Rightarrow> 's \<Rightarrow> nat \<Rightarrow> nat \<Rightarrow> int option \<Rightarrow> ((string, (string \<times> datetime) list) dict \<times> panel) res" where
  "collect_anchors S s step_days min_history lookback_days =
     (case store_panel S s DISTANT_FUTURE price_dataset ''close'' of
        Inl e \<Rightarrow> Inl e
      | Inr p \<Rightarrow>
          if panel_empty p then Inr ([], p)
          else let events = concat (map (\<lambda>t. detect_events S s t 3 30)
                     (study_schedule (panel_index p) step_days min_history lookback_days))
               in Inr (snd (fold add_anchor events ([], [])), returns_panel p))"

definition run_event_study ::
  "solver \<Rightarrow> (flt list \<Rightarrow> real \<Rightarrow> flt) \<Rightarrow> 's store_ops \<Rightarrow> 's \<Rightarrow> nat \<Rightarrow> int \<Rightarrow> nat \<Rightarrow> int option
   \<Rightarrow> outcome_distribution list res" where
  "run_event_study lstsq quantile S s step_days post_days min_history lookback_days =
     (case collect_anchors S s step_days min_history lookback_days of
        Inl e \<Rightarrow> Inl e
      | Inr (anchors, rets) \<Rightarrow>
          if panel_empty rets then Inr []
          else (case map_res (\<lambda>(ty, evs). aggregate_event_study lstsq quantile evs rets None ty
                                (default_window post_days)) anchors of
                  Inl e \<Rightarrow> Inl e
                | Inr studies \<Rightarrow> Inr (sort_key (\<lambda>d. - int (ed_n d)) studies)))"

definition paired_study ::
  "solver \<Rightarrow> (flt list \<Rightarrow> real \<Rightarrow> flt) \<Rightarrow> (nat \<Rightarrow> int \<Rightarrow> int \<Rightarrow> int) \<Rightarrow> panel \<Rightarrow> int \<Rightarrow> nat
   \<Rightarrow> string \<times> (string \<times> datetime) list \<Rightarrow> (outcome_distribution \<times> placebo_result) res" where
  "paired_study lstsq quantile draw rets post_days n_permutations te =
     (case aggregate_event_study lstsq quantile (snd te) rets None (fst te) (default_window post_days) of
        Inl e \<Rightarrow> Inl e
      | Inr d \<Rightarrow>
          (case placebo_event_study lstsq quantile draw (snd te) rets None (fst te) (default_window post_days)
                  n_permutations of
             Inl e \<Rightarrow> Inl e | Inr pl \<Rightarrow> Inr (d, pl)))"

definition run_event_study_with_placebo ::
  "solver \<Rightarrow> (flt list \<Rightarrow> real \<Rightarrow> flt) \<Rightarrow> (nat \<Rightarrow> int \<Rightarrow> int \<Rightarrow> int) \<Rightarrow> 's store_ops \<Rightarrow> 's \<Rightarrow> nat \<Rightarrow> int \<Rightarrow> nat
   \<Rightarrow> nat \<Rightarrow> int option \<Rightarrow> (outcome_distribution \<times> placebo_result) list res" where
  "run_event_study_with_placebo lstsq quantile draw S s step_days post_days min_history n_permutations
       lookback_days =
     (case collect_anchors S s step_days min_history lookback_days of
        Inl e \<Rightarrow> Inl e
      | Inr (anchors, rets) \<Rightarrow>
          if panel_empty rets then Inr []
          else (case map_res (paired_study lstsq quantile draw rets post_days n_permutations) anchors of
                  Inl e \<Rightarrow> Inl e
                | Inr paired \<Rightarrow> Inr (sort_key (\<lambda>dp. - int (ed_n (fst dp))) paired)))"

definition passes_gate :: "real \<Rightarrow> outcome_distribution \<times> placebo_result \<Rightarrow> bool" where
  "passes_gate alpha dp \<longleftrightarrow> placebo_significant alpha (snd dp) \<and> 0 < ed_mean_car (fst dp)"

text \<open>Each type's study draws from a generator of its own, seeded alike, so the draws start over for each.\<close>

definition significant_event_types ::
  "solver \<Rightarrow> (flt list \<Rightarrow> real \<Rightarrow> flt) \<Rightarrow> (nat \<Rightarrow> int \<Rightarrow> int \<Rightarrow> int) \<Rightarrow> 's store_ops \<Rightarrow> 's \<Rightarrow> nat \<Rightarrow> int \<Rightarrow> real
   \<Rightarrow> nat \<Rightarrow> int option \<Rightarrow> (string, outcome_distribution) dict res" where
  "significant_event_types lstsq quantile draw S s step_days post_days alpha n_permutations lookback_days =
     (case run_event_study_with_placebo lstsq quantile draw S s step_days post_days 60 n_permutations
             lookback_days of
        Inl e \<Rightarrow> Inl e
      | Inr paired \<Rightarrow> Inr (dict_of (ed_label \<circ> fst) fst (filter (passes_gate alpha) paired)))"

section \<open>surprise.py\<close>

record surprise =
  su_actual :: flt
  su_consensus :: flt
  su_surprise :: flt
  su_standardized :: "flt option"
  su_direction :: int

definition encode_surprise :: "flt \<Rightarrow> flt \<Rightarrow> flt option \<Rightarrow> surprise" where
  "encode_surprise actual consensus dispersion =
     (let delta = actual - consensus in
      \<lparr>su_actual = actual, su_consensus = consensus, su_surprise = delta,
       su_standardized = (case dispersion of
          None \<Rightarrow> None
        | Some d \<Rightarrow> if flt_truthy d \<and> 0 < d then Some (fdiv delta d) else None),
       su_direction = (if 0 < delta then 1 else if delta < 0 then - 1 else 0)\<rparr>)"

section \<open>episodic.py\<close>

record episode =
  ep_key :: string
  ep_vector :: "flt list"
  ep_outcome :: flt
  ep_regime :: "string option"
  ep_event_type :: "string option"

text \<open>\<open>np.linalg.norm(u - v)\<close>: vectors of one shape, or one of a single element that is broadcast.\<close>

definition broadcast :: "nat \<Rightarrow> flt list \<Rightarrow> flt list" where
  "broadcast n xs = (case xs of [x] \<Rightarrow> replicate n x | _ \<Rightarrow> xs)"

definition distance :: "flt list \<Rightarrow> flt list \<Rightarrow> flt res" where
  "distance u v =
     (if length u \<noteq> length v \<and> length u \<noteq> 1 \<and> length v \<noteq> 1 then Inl ValueError
      else let n = max (length u) (length v);
               d = map2 (-) (if length u = length v then u else broadcast n u)
                            (if length u = length v then v else broadcast n v)
           in Inr (fsqrt (sum_list (map2 (*) d d))))"

text \<open>Sorting by a float.  A list of only numbers, or of only NaNs (which stay where they are), is sorted by this
  key.  With a NaN among numbers the comparisons are inconsistent and the order that comes out is that of the
  sorting algorithm: the parameter \<open>mixed\<close>.\<close>

definition flt_key :: "flt \<Rightarrow> nat \<times> real" where
  "flt_key x = (case x of NInf \<Rightarrow> (0, 0) | Fin r \<Rightarrow> (1, r) | PInf \<Rightarrow> (2, 0) | NaN \<Rightarrow> (3, 0))"

definition sort_by_float :: "('a list \<Rightarrow> 'a list) \<Rightarrow> ('a \<Rightarrow> flt) \<Rightarrow> 'a list \<Rightarrow> 'a list" where
  "sort_by_float mixed f xs =
     (if (\<exists>x \<in> set xs. f x = NaN) \<and> (\<exists>x \<in> set xs. f x \<noteq> NaN) then mixed xs else sort_key (flt_key \<circ> f) xs)"

definition wants :: "string option \<Rightarrow> string option \<Rightarrow> bool" where
  "wants wanted v \<longleftrightarrow> wanted = None \<or> v = wanted"

type_synonym recall_order = "(episode \<times> flt) list \<Rightarrow> (episode \<times> flt) list"

definition episodic_retrieve ::
  "recall_order \<Rightarrow> episode list \<Rightarrow> flt list \<Rightarrow> int \<Rightarrow> string option \<Rightarrow> string option
   \<Rightarrow> (episode \<times> flt) list res" where
  "episodic_retrieve mixed mem q k regime event_type =
     (case map_res (\<lambda>e. case distance (ep_vector e) q of Inl err \<Rightarrow> Inl err | Inr d \<Rightarrow> Inr (e, d))
             (filter (\<lambda>e. wants regime (ep_regime e) \<and> wants event_type (ep_event_type e)) mem) of
        Inl e \<Rightarrow> Inl e
      | Inr scored \<Rightarrow> Inr (py_head k (sort_by_float mixed snd scored)))"

record analog_outcomes =
  ao_n :: nat
  ao_mean :: flt
  ao_median :: flt
  ao_q10 :: flt
  ao_q90 :: flt
  ao_share_positive :: flt
  ao_neighbours :: "string list"

definition no_analogs :: analog_outcomes where
  "no_analogs = \<lparr>ao_n = 0, ao_mean = 0, ao_median = 0, ao_q10 = 0, ao_q90 = 0, ao_share_positive = 0,
     ao_neighbours = []\<rparr>"

definition analog_distribution ::
  "recall_order \<Rightarrow> (flt list \<Rightarrow> real \<Rightarrow> flt) \<Rightarrow> episode list \<Rightarrow> flt list \<Rightarrow> int
   \<Rightarrow> string option \<Rightarrow> string option \<Rightarrow> analog_outcomes res" where
  "analog_distribution mixed quantile mem q k regime event_type =
     (case episodic_retrieve mixed mem q k regime event_type of
        Inl e \<Rightarrow> Inl e
      | Inr neighbours \<Rightarrow>
          let outcomes = map (ep_outcome \<circ> fst) neighbours in
          Inr (if outcomes = [] then no_analogs
               else \<lparr>ao_n = length outcomes, ao_mean = fmean outcomes, ao_median = quantile outcomes (1 / 2),
                     ao_q10 = quantile outcomes (1 / 10), ao_q90 = quantile outcomes (9 / 10),
                     ao_share_positive = share_positive outcomes,
                     ao_neighbours = map (ep_key \<circ> fst) neighbours\<rparr>))"

section \<open>Aligned series\<close>

definition finite_series :: "datetime list \<Rightarrow> real list \<Rightarrow> tseries" where
  "finite_series ts xs = zip ts (map Fin xs)"

lemma align_finite:
  assumes "distinct ts" "length xs = length ts" "length ms = length ts"
  shows "align_series (finite_series ts xs) (finite_series ts ms) = zip ts (zip (map Fin xs) (map Fin ms))"
proof -
  have "map_of (finite_series ts ms) (ts ! i) = Some (Fin (ms ! i))" if "i < length ts" for i
    using that assms by (simp add: finite_series_def map_of_zip_nth)
  then have "List.map_filter (\<lambda>(t, x). case map_of (finite_series ts ms) t of
        None \<Rightarrow> None | Some m \<Rightarrow> if x = NaN \<or> m = NaN then None else Some (t, x, m)) (zip (drop k ts) (map Fin (drop k xs)))
      = zip (drop k ts) (zip (map Fin (drop k xs)) (map Fin (drop k ms)))" if "k \<le> length ts" for k
    using that
  proof (induction "length ts - k" arbitrary: k)
    case 0
    then show ?case by (simp add: List.map_filter_simps)
  next
    case (Suc n)
    then have k: "k < length ts" by simp
    have d: "drop k ts = ts ! k # drop (Suc k) ts" "drop k xs = xs ! k # drop (Suc k) xs"
      "drop k ms = ms ! k # drop (Suc k) ms"
      using k assms by (simp_all add: Cons_nth_drop_Suc)
    show ?case using Suc.hyps(1) [of "Suc k"] Suc.hyps(2) Suc.prems k
      unfolding d by (simp add: List.map_filter_simps)
  qed
  from this [of 0] show ?thesis by (simp add: align_series_def finite_series_def)
qed

lemma sorted_prefix_count:
  fixes ts :: "'a :: linorder list"
  assumes "sorted ts" "i < length ts" "ts ! i \<le> a" "Suc i < length ts \<Longrightarrow> a < ts ! Suc i"
  shows "length (filter (\<lambda>t. t \<le> a) ts) = Suc i"
proof -
  have "filter (\<lambda>t. t \<le> a) (take (Suc i) ts) = take (Suc i) ts"
  proof (rule filter_True, rule ballI)
    fix t assume "t \<in> set (take (Suc i) ts)"
    then obtain j where "j \<le> i" "t = ts ! j" using assms(2) by (auto simp: in_set_conv_nth less_Suc_eq_le)
    then show "t \<le> a" using sorted_nth_mono [OF assms(1)] assms(2,3) order_trans by blast
  qed
  moreover have "filter (\<lambda>t. t \<le> a) (drop (Suc i) ts) = []"
  proof (rule filter_False, rule ballI)
    fix t assume "t \<in> set (drop (Suc i) ts)"
    then obtain j where "j < length ts - Suc i" "t = ts ! (Suc i + j)" by (auto simp: in_set_conv_nth)
    then have "Suc i + j < length ts" "t = ts ! (Suc i + j)" by simp_all
    then show "\<not> t \<le> a" using sorted_nth_mono [OF assms(1), of "Suc i" "Suc i + j"] assms(4) by simp
  qed
  ultimately have "filter (\<lambda>t. t \<le> a) ts = take (Suc i) ts"
    by (metis append_Nil2 append_take_drop_id filter_append)
  then show ?thesis using assms(2) by simp
qed

lemma anchor_pos_zip: "length ts = length ys \<Longrightarrow> anchor_pos (zip ts ys) a = int (length (filter (\<lambda>t. t \<le> a) ts)) - 1"
proof -
  assume "length ts = length ys"
  then have "length (filter (\<lambda>r. fst r \<le> a) (zip ts ys)) = length (filter (\<lambda>t. t \<le> a) ts)"
    by (induction ts ys rule: list_induct2) simp_all
  then show ?thesis by (simp add: anchor_pos_def)
qed

lemma iloc_take: "0 \<le> a \<Longrightarrow> a \<le> b \<Longrightarrow> b \<le> int (length xs) \<Longrightarrow> iloc xs a b = take (nat (b - a)) (drop (nat a) xs)"
  by (simp add: iloc_def slice_bound_def nat_diff_distrib min_def)

section \<open>What the study measures\<close>

text \<open>The relied-on behaviour of the least-squares solver: data that lie exactly on a line over a market leg
  that moves have that line as their one solution.\<close>

definition exact_solver :: "solver \<Rightarrow> bool" where
  "exact_solver lstsq \<longleftrightarrow>
     (\<forall>a b ms. (\<exists>x \<in> set ms. \<exists>y \<in> set ms. x \<noteq> y)
        \<longrightarrow> lstsq (map (\<lambda>m. Fin (a + b * m)) ms) (map Fin ms) = Inr (Fin a, Fin b))"

lemma abnormal_sum_line:
  assumes "mm_alpha m = Fin a" "mm_beta m = Fin b"
  shows "abnormal_sum m (map (\<lambda>j. (t j, Fin (a + b * k j + r j), Fin (k j))) js) = Fin (sum_list (map r js))"
  unfolding abnormal_sum_def map_map
  by (induction js) (simp_all add: assms flt_simps comp_def)

lemma event_car_line:
  assumes lstsq: "exact_solver lstsq" and w: "0 \<le> ws_gap_days w" "0 < ws_estimation_days w" "0 \<le> ws_pre w" "0 \<le> ws_post w"
    and ts: "sorted ts" "distinct ts" "length ms = length ts" "length xs = length ts"
    and i: "i < length ts" "ts ! i \<le> anchor" "Suc i < length ts \<Longrightarrow> anchor < ts ! Suc i"
    and room: "ws_estimation_days w + ws_gap_days w \<le> int i" "ws_pre w \<le> int i" "int i + ws_post w < int (length ts)"
    and xs: "\<And>j. j < length ts \<Longrightarrow> xs ! j = a + b * ms ! j + r j"
    and quiet: "\<And>j. int i - ws_gap_days w - ws_estimation_days w \<le> int j \<Longrightarrow> int j < int i - ws_gap_days w \<Longrightarrow> r j = 0"
    and moves: "int i - ws_gap_days w - ws_estimation_days w \<le> int j1" "int j1 < int i - ws_gap_days w"
      "int i - ws_gap_days w - ws_estimation_days w \<le> int j2" "int j2 < int i - ws_gap_days w" "ms ! j1 \<noteq> ms ! j2"
  shows "event_car lstsq (finite_series ts xs) (finite_series ts ms) anchor w
    = Inr (Some (Fin (\<Sum>j = nat (int i - ws_pre w)..nat (int i + ws_post w). r j)))"
proof -
  define n where "n = length ts"
  define f where "f = (\<lambda>j. (ts ! j, Fin (xs ! j), Fin (ms ! j)))"
  define s e where "s = nat (int i - ws_gap_days w - ws_estimation_days w)" and "e = nat (int i - ws_gap_days w)"
  have se: "s < e" "e \<le> i" "int s = int i - ws_gap_days w - ws_estimation_days w" "int e = int i - ws_gap_days w"
    using room w by (auto simp: s_def e_def)
  have df: "align_series (finite_series ts xs) (finite_series ts ms) = map f [0..<n]"
    unfolding align_finite [OF ts(2,4,3)] by (rule nth_equalityI) (simp_all add: ts f_def n_def)
  have pos: "anchor_pos (map f [0..<n]) anchor = int i"
    using anchor_pos_zip [of ts "zip (map Fin xs) (map Fin ms)" anchor] sorted_prefix_count [OF ts(1) i]
    by (simp add: ts df [unfolded align_finite [OF ts(2,4,3)], symmetric])
  have part: "iloc (map f [0..<n]) (int k) (int l) = map f [k..<l]" if "k \<le> l" "l \<le> n" for k l
    using that by (simp add: iloc_take take_map drop_map nat_diff_distrib)
  have fit: "map (fst \<circ> snd) (map f [s..<e]) = map (\<lambda>m. Fin (a + b * m)) (map ((!) ms) [s..<e])"
    using xs quiet se i(1) by (simp add: f_def comp_def)
  have "\<exists>x \<in> set (map ((!) ms) [s..<e]). \<exists>y \<in> set (map ((!) ms) [s..<e]). x \<noteq> y"
    using moves se by (intro bexI [of _ "ms ! j1"] bexI [of _ "ms ! j2"]) auto
  then have "lstsq (map (\<lambda>m. Fin (a + b * m)) (map ((!) ms) [s..<e])) (map Fin (map ((!) ms) [s..<e])) = Inr (Fin a, Fin b)"
    using lstsq unfolding exact_solver_def by blast
  then obtain m where m: "estimate_market_model lstsq (map (fst \<circ> snd) (map f [s..<e])) (map (snd \<circ> snd) (map f [s..<e])) = Inr m"
      "mm_alpha m = Fin a" "mm_beta m = Fin b"
    unfolding estimate_market_model_def fit by (simp add: f_def comp_def Let_def)
  define lo hi where "lo = nat (int i - ws_pre w)" and "hi = nat (int i + ws_post w)"
  have lh: "int lo = int i - ws_pre w" "int hi = int i + ws_post w" "lo \<le> hi" "Suc hi \<le> n" "1 + int hi = int (Suc hi)"
    using w room by (auto simp: lo_def hi_def n_def)
  have "iloc (map f [0..<n]) (int i - ws_pre w) (int i + ws_post w + 1) = map f [lo..<Suc hi]"
    using part [of lo "Suc hi"] lh by (simp add: add.commute)
  also have "\<dots> = map (\<lambda>j. (ts ! j, Fin (a + b * ms ! j + r j), Fin (ms ! j))) [lo..<Suc hi]"
    using lh xs by (intro map_cong) (auto simp: f_def n_def)
  finally have win: "abnormal_sum m (iloc (map f [0..<n]) (int i - ws_pre w) (int i + ws_post w + 1))
      = Fin (sum_list (map r [lo..<Suc hi]))"
    by (simp only: abnormal_sum_line [OF m(2,3)])
  have sum: "sum_list (map r [lo..<Suc hi]) = (\<Sum>j = lo..hi. r j)"
    by (simp add: interv_sum_list_conv_sum_set_nat atLeastLessThanSuc_atLeastAtMost del: upt_Suc)
  have "iloc (map f [0..<n]) (int i - ws_gap_days w - ws_estimation_days w) (int i - ws_gap_days w) = map f [s..<e]"
    using part [of s e] se i(1) by (simp add: n_def)
  then show ?thesis
    using i(1) room w m(1) win sum
    by (simp add: event_car_def df pos Let_def n_def [symmetric] lo_def hi_def)
qed

text \<open>C23: what an event's cumulative abnormal return is.  For a stock that follows the market line
  \<open>a + b * market\<close> up to residuals \<open>r\<close>, undisturbed over the sixty bars of the estimation window, and an
  event anchored between bar \<open>i\<close> and the next one, the study returns exactly the sum of the residuals of the
  bars \<open>i\<close> to \<open>i + post\<close>.  The first of them is dated at or before the anchor: a jump on the bar that ended
  before the event was knowable is counted in full, whatever came after.\<close>

theorem car_sums_abnormal_returns:
  assumes "exact_solver lstsq" "0 \<le> post"
    and "sorted ts" "distinct ts" "length ms = length ts" "length xs = length ts"
    and "i < length ts" "ts ! i \<le> anchor" "Suc i < length ts \<longrightarrow> anchor < ts ! Suc i"
    and "65 \<le> i" "int i + post < int (length ts)"
    and "\<forall>j < length ts. xs ! j = a + b * ms ! j + r j"
    and "\<forall>j. i - 65 \<le> j \<and> j < i - 5 \<longrightarrow> r j = 0"
    and "i - 65 \<le> j1" "j1 < i - 5" "i - 65 \<le> j2" "j2 < i - 5" "ms ! j1 \<noteq> ms ! j2"
  shows "event_car lstsq (finite_series ts xs) (finite_series ts ms) anchor (default_window post)
    = Inr (Some (Fin (\<Sum>j = i..nat (int i + post). r j))) \<and> ts ! i \<le> anchor"
proof -
  have "event_car lstsq (finite_series ts xs) (finite_series ts ms) anchor (default_window post)
    = Inr (Some (Fin (\<Sum>j = nat (int i - ws_pre (default_window post))..nat (int i + ws_post (default_window post)). r j)))"
  proof (rule event_car_line [where ?j1.0 = j1 and ?j2.0 = j2])
    fix j assume "int i - ws_gap_days (default_window post) - ws_estimation_days (default_window post) \<le> int j"
      "int j < int i - ws_gap_days (default_window post)"
    then have "i - 65 \<le> j \<and> j < i - 5" using assms(10) by (simp add: default_window_def) arith
    then show "r j = 0" using assms(13) by blast
  qed (use assms in \<open>simp_all add: default_window_def\<close>)
  then show ?thesis using assms(8) by (simp add: default_window_def)
qed

definition ordinary_least_squares :: solver where
  "ordinary_least_squares ss ms =
     (let y = map flt_val ss; x = map flt_val ms; n = real (length x);
          mx = sum_list x / n; my = sum_list y / n;
          b = sum_list (map2 (\<lambda>u v. (u - mx) * (v - my)) x y) / sum_list (map (\<lambda>u. (u - mx) ^ 2) x)
      in Inr (Fin (my - b * mx), Fin b))"

lemma exact_ordinary_least_squares: "exact_solver ordinary_least_squares"
  unfolding exact_solver_def
proof (intro allI impI)
  fix a b :: real and ms :: "real list"
  assume moves: "\<exists>x \<in> set ms. \<exists>y \<in> set ms. x \<noteq> y"
  define mx where "mx = sum_list ms / real (length ms)"
  define v where "v = sum_list (map (\<lambda>u. (u - mx) ^ 2) ms)"
  have n: "0 < length ms" using moves by auto
  obtain u where u: "u \<in> set ms" "u \<noteq> mx" using moves by metis
  have "(u - mx) ^ 2 \<le> v" unfolding v_def by (rule member_le_sum_list) (use u in auto)
  then have v: "0 < v" using u by (smt (verit) zero_less_power2)
  have y: "sum_list (map (\<lambda>m. a + b * m) ms) / real (length ms) = a + b * mx"
    using n by (simp add: sum_list_addf sum_list_const_mult sum_list_triv sum_list_mult_const mx_def field_simps)
  have "sum_list (map2 (\<lambda>u y. (u - mx) * (y - (a + b * mx))) ms (map (\<lambda>m. a + b * m) ms)) = b * v"
    unfolding v_def by (induction ms) (simp_all add: algebra_simps power2_eq_square)
  then show "ordinary_least_squares (map (\<lambda>m. Fin (a + b * m)) ms) (map Fin ms) = Inr (Fin a, Fin b)"
    using v unfolding ordinary_least_squares_def Let_def
    by (simp add: comp_def y v_def [symmetric] del: sum_list_mult_const add: mx_def [symmetric])
qed

lemma car_sums_abnormal_returns_witness:
  "event_car ordinary_least_squares
     (finite_series (map int [0..<72]) (map (\<lambda>j. real (j mod 2) + (if j = 65 then 1 else 0)) [0..<72]))
     (finite_series (map int [0..<72]) (map (\<lambda>j. real (j mod 2)) [0..<72])) 65 (default_window 5)
   = Inr (Some (Fin 1))"
proof -
  have "(\<Sum>j = 65..nat (int 65 + 5). if j = (65::nat) then 1 else 0 :: real) = 1" by simp
  then show ?thesis
    using car_sums_abnormal_returns [OF exact_ordinary_least_squares, of 5 "map int [0..<72]"
        "map (\<lambda>j. real (j mod 2)) [0..<72]" "map (\<lambda>j. real (j mod 2) + (if j = 65 then 1 else 0)) [0..<72]" 65 65 0 1
        "\<lambda>j. if j = 65 then 1 else 0" 1 2]
    by (simp add: distinct_map inj_on_def sorted_map del: upt_rec_numeral)
qed

section \<open>The gate\<close>

lemma collect_res_length: "collect_res f xs = Inr ys \<Longrightarrow> length ys \<le> length xs"
  by (induction xs arbitrary: ys) (auto split: sum.splits option.splits)

lemma placebo_p_bounds: "0 < placebo_p_value arr x \<and> placebo_p_value arr x \<le> 1
    \<and> 1 \<le> placebo_p_value arr x * real (1 + length arr)"
  by (simp add: placebo_p_value_def field_simps length_filter_le)

lemma placebo_event_study_evidence:
  assumes "placebo_event_study lstsq quantile draw events p market label w n = Inr pl" "placebo_significant alpha pl" "alpha < 1"
  shows "\<exists>d arr. aggregate_event_study lstsq quantile events p market label w = Inr d
    \<and> 2 \<le> ed_n d \<and> 0 < ed_mean_car d \<and> length arr \<le> n \<and> placebo_p_value arr (ed_mean_car d) \<le> alpha"
proof -
  obtain d where d: "aggregate_event_study lstsq quantile events p market label w = Inr d"
    using assms(1) by (auto simp: placebo_event_study_def split: sum.splits)
  have not1: "pl \<noteq> no_placebo label d" using assms(2,3) by (auto simp: placebo_significant_def no_placebo_def)
  then obtain arr where arr: "pl = placebo_of label d arr" "length arr \<le> n"
    using assms(1) d by (auto simp: placebo_event_study_def Let_def split: sum.splits if_splits
        dest!: collect_res_length)
  with not1 have "arr \<noteq> []" by (auto simp: placebo_of_def)
  then show ?thesis using d arr assms(2) by (auto simp: placebo_of_def placebo_significant_def)
qed

lemma add_anchor_fold:
  assumes "fold add_anchor evs ([], []) = (seen, anchors)"
  shows "distinct (keys anchors) \<and> set seen = event_key_of ` set evs
    \<and> (\<forall>ty. distinct (dict_get [] anchors ty)
        \<and> (\<forall>e k. (e, k) \<in> set (dict_get [] anchors ty) \<longleftrightarrow> (e, ty, k) \<in> event_key_of ` set evs))"
  using assms
proof (induction evs arbitrary: seen anchors rule: rev_induct)
  case (snoc e evs)
  obtain seen0 anchors0 where f: "fold add_anchor evs ([], []) = (seen0, anchors0)" by (rule prod.exhaust)
  note IH = snoc.IH [OF f]
  show ?case
  proof (cases "event_key_of e \<in> set seen0")
    case True
    then have "add_anchor e (seen0, anchors0) = (seen0, anchors0)" by (simp add: add_anchor_def)
    then have "seen = seen0" "anchors = anchors0" using snoc.prems f by simp_all
    moreover have "event_key_of ` set (evs @ [e]) = event_key_of ` set evs" using IH True by auto
    ultimately show ?thesis using IH by (simp only: simp_thms)
  next
    case False
    let ?ty = "event_text (ev_type e)" and ?a = "(ev_entity_id e, ev_knowledge_time e)"
    have "add_anchor e (seen0, anchors0)
        = (event_key_of e # seen0, dict_set ?ty (dict_get [] anchors0 ?ty @ [?a]) anchors0)"
      using False by (simp add: add_anchor_def Let_def)
    then have new: "seen = event_key_of e # seen0" "anchors = dict_set ?ty (dict_get [] anchors0 ?ty @ [?a]) anchors0"
      using snoc.prems f by simp_all
    have "?a \<in> set (dict_get [] anchors0 ?ty) \<longleftrightarrow> event_key_of e \<in> event_key_of ` set evs"
      using IH by (simp only: event_key_of_def [of e])
    then have new_a: "?a \<notin> set (dict_get [] anchors0 ?ty)" using IH False by (simp only: simp_thms)
    have get: "dict_get [] anchors ty = (if ty = ?ty then dict_get [] anchors0 ?ty @ [?a] else dict_get [] anchors0 ty)" for ty
      by (simp add: new dict_simps)
    have keys: "event_key_of ` set (evs @ [e]) = insert (ev_entity_id e, ?ty, ev_knowledge_time e) (event_key_of ` set evs)"
      by (simp add: event_key_of_def [of e])
    have "distinct (keys anchors)" using IH by (simp add: new dict_simps)
    moreover have "set seen = event_key_of ` set (evs @ [e])" using IH by (simp add: new)
    moreover have "distinct (dict_get [] anchors ty)" for ty using IH new_a unfolding get by simp
    moreover have "(x, k) \<in> set (dict_get [] anchors0 ty) \<longleftrightarrow> (x, ty, k) \<in> event_key_of ` set evs" for ty x k
      using IH by blast
    then have "(x, k) \<in> set (dict_get [] anchors ty) \<longleftrightarrow> (x, ty, k) \<in> event_key_of ` set (evs @ [e])" for ty x k
      unfolding get keys
      by (simp only: set_append list.set Un_iff insert_iff empty_iff prod.inject simp_thms split: if_split) blast
    ultimately show ?thesis by blast
  qed
qed simp

lemma map_res_in: "map_res f xs = Inr ys \<Longrightarrow> y \<in> set ys \<Longrightarrow> \<exists>x \<in> set xs. f x = Inr y"
  by (induction xs arbitrary: ys) (auto split: sum.splits)

lemma find_SomeD: "find P xs = Some x \<Longrightarrow> x \<in> set xs \<and> P x"
  by (induction xs) (auto split: if_splits)

lemma collect_anchors_distinct:
  assumes "collect_anchors S s step h lookback = Inr (anchors, rets)"
  shows "distinct (keys anchors) \<and> (\<forall>te \<in> set anchors. distinct (snd te))"
proof (cases "anchors = []")
  case False
  then obtain evs seen where "fold add_anchor evs ([], []) = (seen, anchors)"
    using assms by (auto simp: collect_anchors_def split: sum.splits if_splits) (metis prod.collapse)
  from add_anchor_fold [OF this] have a: "distinct (keys anchors)" "\<And>ty. distinct (dict_get [] anchors ty)" by blast+
  have "distinct (snd te)" if "te \<in> set anchors" for te
    using a(2) [of "fst te"] map_of_eq_Some_iff [OF a(1), of "fst te" "snd te"] that by simp
  with a(1) show ?thesis by blast
qed simp

text \<open>The evidence that one event type's entry of the gate rests on.\<close>

definition gate_evidence ::
  "solver \<Rightarrow> (flt list \<Rightarrow> real \<Rightarrow> flt) \<Rightarrow> panel \<Rightarrow> int \<Rightarrow> real \<Rightarrow> nat \<Rightarrow> (string \<times> datetime) list \<Rightarrow> string
   \<Rightarrow> outcome_distribution \<Rightarrow> bool" where
  "gate_evidence lstsq quantile rets post alpha n events label d \<longleftrightarrow>
     distinct events \<and> aggregate_event_study lstsq quantile events rets None label (default_window post) = Inr d
     \<and> 2 \<le> ed_n d \<and> 0 < ed_mean_car d
     \<and> (\<exists>placebo. length placebo \<le> n \<and> placebo_p_value placebo (ed_mean_car d) \<le> alpha
          \<and> 1 \<le> alpha * real (1 + length placebo))"

lemma aggregate_label: "aggregate_event_study lstsq quantile events p market label w = Inr d \<Longrightarrow> ed_label d = label"
  by (auto simp: aggregate_event_study_def Let_def car_distribution_def split: sum.splits)

lemma paired_study_evidence:
  assumes "paired_study lstsq quantile draw rets post n te = Inr dp" "passes_gate alpha dp" "alpha < 1" "distinct (snd te)"
  shows "gate_evidence lstsq quantile rets post alpha n (snd te) (fst te) (fst dp) \<and> ed_label (fst dp) = fst te"
proof -
  obtain d pl where dp: "dp = (d, pl)"
      "aggregate_event_study lstsq quantile (snd te) rets None (fst te) (default_window post) = Inr d"
      "placebo_event_study lstsq quantile draw (snd te) rets None (fst te) (default_window post) n = Inr pl"
    using assms(1) by (auto simp: paired_study_def split: sum.splits)
  have sig: "placebo_significant alpha pl" using assms(2) dp by (simp add: passes_gate_def)
  obtain arr where arr: "2 \<le> ed_n d" "0 < ed_mean_car d" "length arr \<le> n" "placebo_p_value arr (ed_mean_car d) \<le> alpha"
    using placebo_event_study_evidence [OF dp(3) sig assms(3)] dp(2) by auto
  have "1 \<le> placebo_p_value arr (ed_mean_car d) * real (1 + length arr)" using placebo_p_bounds by blast
  also have "\<dots> \<le> alpha * real (1 + length arr)" by (rule mult_right_mono [OF arr(4)]) simp
  finally show ?thesis
    using arr dp aggregate_label [OF dp(2)] assms(4) by (auto simp: gate_evidence_def)
qed

text \<open>The gate of the insider sleeve rests on evidence.  With the gate computed by the event study, the
  sleeve opens positions only if its event type was detected on two or more different anchors whose mean
  abnormal return is positive and beats the placebo: at most a share \<open>alpha\<close> of the random re-anchorings (the
  real one counted) do as well, which needs at least \<open>1 / alpha\<close> draws that were computable.\<close>

theorem gate_needs_evidence:
  assumes gate: "significant_event_types lstsq quantile draw S s step post alpha n lookback = Inr types" "alpha < 1"
    and entries: "insider_cluster_entries S' s' t (map_vals ed_mean_car types) hold mx fresh threshold window owned = Inr entries"
      "entries \<noteq> []"
  shows "\<exists>anchors rets events d. collect_anchors S s step 60 lookback = Inr (anchors, rets)
    \<and> map_of anchors ''insider_cluster_buy'' = Some events
    \<and> gate_evidence lstsq quantile rets post alpha n events ''insider_cluster_buy'' d"
proof -
  let ?label = "''insider_cluster_buy''"
  obtain d where d: "map_of types ?label = Some d"
    using entries by (cases "map_of types ?label") (auto simp: insider_cluster_entries_def map_vals_def map_of_map)
  obtain paired where p: "run_event_study_with_placebo lstsq quantile draw S s step post 60 n lookback = Inr paired"
      "types = dict_of (ed_label \<circ> fst) fst (filter (passes_gate alpha) paired)"
    using gate(1) by (auto simp: significant_event_types_def split: sum.splits)
  obtain dp where dp: "dp \<in> set paired" "passes_gate alpha dp" "ed_label (fst dp) = ?label" "fst dp = d"
    using d unfolding p(2) map_of_dict_of by (auto dest!: find_SomeD)
  obtain anchors rets where a: "collect_anchors S s step 60 lookback = Inr (anchors, rets)"
    using p(1) by (auto simp: run_event_study_with_placebo_def split: sum.splits prod.splits)
  obtain ps where ps: "map_res (paired_study lstsq quantile draw rets post n) anchors = Inr ps" "set ps = set paired"
    using p(1) a dp(1) by (auto simp: run_event_study_with_placebo_def split: sum.splits if_splits)
  obtain te where te: "te \<in> set anchors" "paired_study lstsq quantile draw rets post n te = Inr dp"
    using map_res_in [OF ps(1)] dp(1) ps(2) by blast
  have dist: "distinct (keys anchors)" "distinct (snd te)"
    using collect_anchors_distinct [OF a] te(1) by auto
  from paired_study_evidence [OF te(2) dp(2) gate(2) dist(2)] dp te dist a show ?thesis
    by (intro exI [of _ anchors] exI [of _ rets] exI [of _ "snd te"] exI [of _ d]) (cases te, auto)
qed

section \<open>A history in which the gate opens\<close>

definition list_ops :: "observation list store_ops" where
  "list_ops = \<lparr>st_upsert = (\<lambda>xs s. s @ xs), st_as_of = (\<lambda>s k q. filter (visible k q) s), st_count = length\<rparr>"

text \<open>Prices that double at two filings' times and are flat otherwise.\<close>

definition history_price :: "nat \<Rightarrow> real" where
  "history_price i = (if i < 70 then 1 else if i < 75 then 2 else 4)"

definition sample_history :: "observation list" where
  "sample_history =
     map (\<lambda>i. new_obs 0 ''prices'' price_dataset ''equity'' ''A'' None (int i) (int i)
                [(''close'', PFloat (Fin (history_price i)))] []) [0..<76]
     @ map (\<lambda>t. new_obs 0 ''sec'' form4_dataset ''equity'' ''A'' None t t [(''is_purchase'', PBool True)] [])
         [70, 70, 70, 75]"

definition sample_returns :: panel where
  "sample_returns = \<lparr>pn_columns = [''A''],
     pn_rows = map (\<lambda>i. (int i, [Fin (if i = 70 \<or> i = 75 then 1 else 0)])) [1..<76]\<rparr>"

lemma sample_anchors:
  "collect_anchors list_ops sample_history 5 60 None
     = Inr ([(''insider_cluster_buy'', [(''A'', 70), (''A'', 75)])], sample_returns)"
  by code_simp

lemma sample_entry:
  "insider_cluster_entries list_ops sample_history 75 [(''insider_cluster_buy'', Fin 1)] 5 5 5 3 30 {}
     = Inr [\<lparr>se_symbol = ''A'', se_knowledge_time = 75, se_exit_by = 75 + days 5, se_n_buys = 4, se_expected_car = Fin 1\<rparr>]"
  by code_simp

definition flat_solver :: solver where
  "flat_solver ss ms = Inr (0, 0)"

definition plain_car :: "tseries \<Rightarrow> tseries \<Rightarrow> datetime \<Rightarrow> window_spec \<Rightarrow> flt option res" where
  "plain_car stock market anchor w =
     (let df = align_series stock market; pos = anchor_pos df anchor;
          est_end = pos - ws_gap_days w; est_start = est_end - ws_estimation_days w in
      if df = [] \<or> pos < 0 then Inr None
      else if est_start < 0 \<or> est_end \<le> est_start \<or> int (length df) \<le> pos + ws_post w then Inr None
      else Inr (Some (abnormal_sum \<lparr>mm_alpha = 0, mm_beta = 0, mm_resid_std = 0\<rparr>
             (iloc df (pos - ws_pre w) (pos + ws_post w + 1)))))"

lemma event_car_flat: "event_car flat_solver = plain_car"
  by (intro ext) (simp add: event_car_def plain_car_def estimate_market_model_def flat_solver_def Let_def
      abnormal_sum_def)

definition sample_car :: "string \<times> datetime \<Rightarrow> flt option res" where
  "sample_car e = plain_car (stock_of sample_returns (fst e)) (market_of sample_returns) (snd e) (default_window 0)"

lemma sample_cars: "sample_car (''A'', 70) = Inr (Some (Fin 1))" "sample_car (''A'', 75) = Inr (Some (Fin 1))"
  "sample_car (''A'', 67) = Inr (Some (Fin 0))"
  by code_simp+

lemma sample_one_car:
  assumes "sample_car (''A'', t) = Inr (Some (Fin x))"
  shows "one_car flat_solver sample_returns (market_of sample_returns) (default_window 0) (''A'', t) = Inr (Some (Fin x))"
proof -
  have "''A'' \<in> set (pn_columns sample_returns)" by (simp add: sample_returns_def)
  then show ?thesis using assms by (simp add: one_car_def event_car_flat sample_car_def)
qed

lemmas sample_one_cars = sample_cars [THEN sample_one_car]

lemma sample_aggregate:
  "aggregate_event_study flat_solver quantile [(''A'', 70), (''A'', 75)] sample_returns None label (default_window 0)
     = Inr (car_distribution quantile label [Fin 1, Fin 1])"
  "aggregate_event_study flat_solver quantile [(''A'', 67), (''A'', 67)] sample_returns None label (default_window 0)
     = Inr (car_distribution quantile label [Fin 0, Fin 0])"
  by (simp_all add: aggregate_event_study_def sample_one_cars)

lemma gate_needs_evidence_witness:
  "\<exists>anchors rets events d. collect_anchors list_ops sample_history 5 60 None = Inr (anchors, rets)
    \<and> map_of anchors ''insider_cluster_buy'' = Some events
    \<and> gate_evidence flat_solver (\<lambda>_ _. NaN) rets 0 (1 / 2) 1 events ''insider_cluster_buy'' d"
proof -
  let ?label = "''insider_cluster_buy''"
  let ?d = "car_distribution (\<lambda>_ _. NaN) ?label [Fin 1, Fin 1]"
  have d: "ed_n ?d = 2" "ed_mean_car ?d = Fin 1" "ed_label ?d = ?label"
    by (simp_all add: car_distribution_def Let_def fmean_def zero_flt_def)
  have z: "ed_n (car_distribution (\<lambda>_ _. NaN) ?label [Fin 0, Fin 0]) = 2"
    "ed_mean_car (car_distribution (\<lambda>_ _. NaN) ?label [Fin 0, Fin 0]) = Fin 0"
    by (simp_all add: car_distribution_def Let_def fmean_def zero_flt_def)
  have "py_nth (panel_index sample_returns) 66 = Inr 67" by code_simp
  then have fake: "fake_events (\<lambda>_ _ _. 66) (panel_index sample_returns) lo hi [''A'', ''A''] 0
      = Inr [(''A'', 67), (''A'', 67)]" for lo hi
    by (simp add: fake_events_def)
  have n: "length (pn_rows sample_returns) = 75" "\<not> panel_empty sample_returns"
    by (simp_all add: sample_returns_def panel_empty_def)
  have w: "ws_post (default_window 0) = 0" "ws_gap_days (default_window 0) = 5" "ws_estimation_days (default_window 0) = 60"
    by (simp_all add: default_window_def)
  have "placebo_event_study flat_solver (\<lambda>_ _. NaN) (\<lambda>_ _ _. 66) [(''A'', 70), (''A'', 75)] sample_returns None ?label
      (default_window 0) 1 = Inr (placebo_of ?label ?d [Fin 0])"
    using w by (simp add: placebo_event_study_def sample_aggregate d z n fake placebo_mean_def Let_def)
  moreover have "passes_gate (1 / 2) (?d, placebo_of ?label ?d [Fin 0])"
    by (simp add: passes_gate_def placebo_significant_def placebo_of_def d placebo_p_value_def zero_flt_def)
  ultimately have sig: "significant_event_types flat_solver (\<lambda>_ _. NaN) (\<lambda>_ _ _. 66) list_ops sample_history 5 0 (1 / 2) 1 None
      = Inr [(?label, ?d)]"
    by (simp add: significant_event_types_def run_event_study_with_placebo_def sample_anchors paired_study_def
        sample_aggregate d n dict_of_def)
  obtain x where e: "insider_cluster_entries list_ops sample_history 75 (map_vals ed_mean_car [(?label, ?d)]) 5 5 5 3 30 {}
      = Inr [x]"
    using sample_entry by (simp add: map_vals_def d)
  show ?thesis by (rule gate_needs_evidence [OF sig _ e]) simp_all
qed

section \<open>Recall\<close>

definition eligible :: "episode list \<Rightarrow> string option \<Rightarrow> string option \<Rightarrow> episode list" where
  "eligible mem regime event_type = filter (\<lambda>e. wants regime (ep_regime e) \<and> wants event_type (ep_event_type e)) mem"

lemma flt_key_le: "x \<noteq> NaN \<Longrightarrow> y \<noteq> NaN \<Longrightarrow> flt_key x \<le> flt_key y \<longleftrightarrow> x \<le> y"
  by (cases x; cases y) (auto simp: flt_key_def less_eq_prod_def less_prod_def flt_simps)

lemma mset_sort_by_float:
  assumes "\<And>xs. mset (mixed xs) = mset xs"
  shows "mset (sort_by_float mixed f xs) = mset xs"
  using assms by (simp add: sort_by_float_def)

lemma sorted_by_float:
  assumes "\<forall>x \<in> set xs. f x \<noteq> NaN"
  shows "sorted_wrt (\<lambda>x y. f x \<le> f y) (sort_by_float mixed f xs)"
proof -
  have s: "sort_by_float mixed f xs = sort_key (flt_key \<circ> f) xs" using assms by (auto simp: sort_by_float_def)
  have "sorted_wrt (\<lambda>x y. flt_key (f x) \<le> flt_key (f y)) (sort_key (flt_key \<circ> f) xs)"
    using sorted_sort_key [of "flt_key \<circ> f" xs] by (simp add: sorted_map)
  then have "sorted_wrt (\<lambda>x y. f x \<le> f y) (sort_key (flt_key \<circ> f) xs)"
    by (rule sorted_wrt_mono_rel [rotated]) (use assms flt_key_le in auto)
  then show ?thesis by (simp add: s)
qed

lemma py_head_split: "\<exists>rest. xs = py_head k xs @ rest"
  unfolding py_head_def by (metis append_take_drop_id)

lemma scored_episodes:
  assumes "map_res (\<lambda>e. case distance (ep_vector e) q of Inl err \<Rightarrow> Inl err | Inr d \<Rightarrow> Inr (e, d)) es = Inr sc"
  shows "map fst sc = es" "\<forall>(e, d) \<in> set sc. distance (ep_vector e) q = Inr d"
proof -
  have "map fst sc = es \<and> (\<forall>(e, d) \<in> set sc. distance (ep_vector e) q = Inr d)"
    using assms by (induction es arbitrary: sc) (auto split: sum.splits)
  then show "map fst sc = es" "\<forall>(e, d) \<in> set sc. distance (ep_vector e) q = Inr d" by auto
qed

text \<open>C33: recall returns the nearest analogs.  The result holds \<open>k\<close> of the episodes of the requested regime and
  event type (all of them if there are fewer), each with its distance to the query, provided only that sorting
  rearranges its list.  When every distance is a number they come closest first, and no eligible episode that
  was left out is closer than one returned.  (A NaN distance among numbers leaves the order to the sorting
  algorithm: \<open>nan_distance_hides_the_nearest\<close>.)\<close>

theorem analogs_are_nearest:
  assumes "\<And>xs. mset (mixed xs) = mset xs"
    and "episodic_retrieve mixed mem q k regime event_type = Inr out"
  shows "\<exists>rest. mset (map fst (out @ rest)) = mset (eligible mem regime event_type)
    \<and> (0 \<le> k \<longrightarrow> length out = min (nat k) (length (eligible mem regime event_type)))
    \<and> (\<forall>(e, d) \<in> set (out @ rest). distance (ep_vector e) q = Inr d)
    \<and> ((\<forall>(e, d) \<in> set (out @ rest). d \<noteq> NaN) \<longrightarrow>
         sorted_wrt (\<lambda>a b. snd a \<le> snd b) out \<and> (\<forall>a \<in> set out. \<forall>b \<in> set rest. snd a \<le> snd b))"
proof -
  let ?es = "eligible mem regime event_type"
  obtain sc where sc: "map_res (\<lambda>e. case distance (ep_vector e) q of Inl err \<Rightarrow> Inl err | Inr d \<Rightarrow> Inr (e, d)) ?es = Inr sc"
    and out: "out = py_head k (sort_by_float mixed snd sc)"
    using assms(2) by (auto simp: episodic_retrieve_def eligible_def split: sum.splits)
  note scored = scored_episodes [OF sc]
  define ys where "ys = sort_by_float mixed snd sc"
  have ys: "mset ys = mset sc" unfolding ys_def by (rule mset_sort_by_float) (rule assms(1))
  then have len: "length ys = length ?es" and same: "set ys = set sc"
    using scored(1) by (metis length_map mset_eq_length, metis mset_eq_setD)
  obtain rest where rest: "ys = out @ rest" using py_head_split [of ys k] by (auto simp: out ys_def)
  show ?thesis
  proof (intro exI conjI impI)
    show "mset (map fst (out @ rest)) = mset ?es"
      unfolding rest [symmetric] using ys scored(1) by (metis mset_map)
    show "length out = min (nat k) (length ?es)" if "0 \<le> k"
      using that len by (simp add: out ys_def [symmetric] py_head_def)
    show "\<forall>(e, d) \<in> set (out @ rest). distance (ep_vector e) q = Inr d"
      unfolding rest [symmetric] same by (rule scored(2))
    assume "\<forall>(e, d) \<in> set (out @ rest). d \<noteq> NaN"
    then have "sorted_wrt (\<lambda>a b. snd a \<le> snd b) (out @ rest)"
      unfolding rest [symmetric] ys_def using same ys_def by (intro sorted_by_float) auto
    then show "sorted_wrt (\<lambda>a b. snd a \<le> snd b) out" "\<forall>a \<in> set out. \<forall>b \<in> set rest. snd a \<le> snd b"
      by (simp_all add: sorted_wrt_append)
  qed
qed

definition sample_episode :: "string \<Rightarrow> flt \<Rightarrow> episode" where
  "sample_episode name x = \<lparr>ep_key = name, ep_vector = [x, Fin 0], ep_outcome = x, ep_regime = None,
     ep_event_type = None\<rparr>"

lemma sample_recall:
  "episodic_retrieve (\<lambda>xs. xs) [sample_episode ''a'' (Fin 3), sample_episode ''b'' (Fin 1)] [0, 0] 1 None None
      = Inr [(sample_episode ''b'' (Fin 1), Fin 1)]"
  by (simp add: episodic_retrieve_def wants_def sample_episode_def distance_def flt_simps flt_key_def Let_def
      sort_by_float_def py_head_def)

lemma analogs_are_nearest_witness:
  "\<exists>rest. episodic_retrieve (\<lambda>xs. xs) [sample_episode ''a'' (Fin 3), sample_episode ''b'' (Fin 1)] [0, 0] 1 None None
        = Inr [(sample_episode ''b'' (Fin 1), Fin 1)]
     \<and> mset (map fst ([(sample_episode ''b'' (Fin 1), Fin 1)] @ rest))
        = mset [sample_episode ''a'' (Fin 3), sample_episode ''b'' (Fin 1)]"
  using analogs_are_nearest [OF _ sample_recall] sample_recall by (auto simp: eligible_def wants_def)

text \<open>Three episodes at distances 3, NaN and 1: a sort that keeps the list, as an insertion sort does when each
  comparison with its neighbour is false, recalls the first one.\<close>

lemma nan_distance_hides_the_nearest:
  "episodic_retrieve (\<lambda>xs. xs) [sample_episode ''a'' (Fin 3), sample_episode ''x'' NaN, sample_episode ''b'' (Fin 1)]
     [0, 0] 1 None None = Inr [(sample_episode ''a'' (Fin 3), Fin 3)]"
  by (simp add: episodic_retrieve_def wants_def sample_episode_def distance_def flt_simps Let_def
      sort_by_float_def py_head_def)

end
