(* ===== verification/Live.thy ===== *)
theory Live
  imports Cycle Clients Json DailyBook
begin

text \<open>
  Live trading: the Alpaca REST broker (\<open>execution/alpaca.py\<close>), one intraday pass and the intraday trading
  loop (\<open>runtime/intraday.py\<close>).

  One HTTP exchange is \<open>hp_send\<close> of the parameter \<open>http\<close>: method, url and body and the world give the new world and
  the raw reply, an HTTP error with its body, or the exception of a transport that failed.  JSON is read by
  \<open>json_loads\<close>; \<open>num\<close> is \<open>str\<close> of a float.  The read-only requests are taken not to change the account.
\<close>

section \<open>alpaca.py\<close>

datatype http_reply = HttpOk string | HttpError int string | HttpFail pyerr

text \<open>\<open>hp_room\<close> is the nesting of a reply that the recursion limit still allows.\<close>

record 'w http =
  hp_send :: "string \<Rightarrow> string \<Rightarrow> payload option \<Rightarrow> 'w \<Rightarrow> 'w \<times> http_reply"
  hp_room :: nat

definition paper_base_url :: string where "paper_base_url = ''https://paper-api.alpaca.markets''"
definition live_base_url :: string where "live_base_url = ''https://api.alpaca.markets''"

record alpaca_client =
  ab_base :: string
  ab_key :: string
  ab_secret :: string

definition alpaca_init :: "string \<Rightarrow> string \<Rightarrow> bool \<Rightarrow> string option \<Rightarrow> alpaca_client res" where
  "alpaca_init key secret paper base_url =
     (if key = [] \<or> secret = [] then Inl ValueError
      else Inr \<lparr>ab_base = (case base_url of
                   Some u \<Rightarrow> if u \<noteq> [] then u else if paper then paper_base_url else live_base_url
                 | None \<Rightarrow> if paper then paper_base_url else live_base_url),
                ab_key = key, ab_secret = secret\<rparr>)"

definition status_map :: "(string, order_status) dict" where
  "status_map = [(''new'', SUBMITTED), (''pending_new'', SUBMITTED), (''accepted'', ACCEPTED),
     (''partially_filled'', PARTIALLY_FILLED), (''filled'', FILLED), (''canceled'', CANCELLED),
     (''rejected'', REJECTED), (''expired'', EXPIRED)]"

text \<open>\<open>_STATUS_MAP.get(v, dflt)\<close>; a list or a dict cannot be looked up.\<close>

fun status_of :: "order_status \<Rightarrow> pyval \<Rightarrow> order_status res" where
  "status_of dflt (PStr s) = Inr (dict_get dflt status_map s)"
| "status_of dflt (PList xs) = Inl TypeError"
| "status_of dflt (PDict d) = Inl TypeError"
| "status_of dflt _ = Inr dflt"

definition alpaca_error :: "string \<Rightarrow> string \<Rightarrow> int \<Rightarrow> string \<Rightarrow> pyerr" where
  "alpaca_error method path status body =
     BrokerError (''Alpaca '' @ method @ '' '' @ path @ '' failed: HTTP '' @ int_str status @ '': ''
       @ (if body = [] then ''(no body)'' else body))"

definition alpaca_request ::
  "'w http \<Rightarrow> alpaca_client \<Rightarrow> string \<Rightarrow> string \<Rightarrow> payload option \<Rightarrow> 'w \<Rightarrow> 'w \<times> pyval res" where
  "alpaca_request http c method path body w =
     (case hp_send http method (ab_base c @ path) body w of
        (w1, HttpOk raw) \<Rightarrow> (w1, if raw = [] then Inr (PDict []) else json_loads (hp_room http) raw)
      | (w1, HttpError status detail) \<Rightarrow> (w1, Inl (alpaca_error method path status (strip detail)))
      | (w1, HttpFail e) \<Rightarrow> (w1, Inl e))"

definition type_text :: "order_type \<Rightarrow> string" where
  "type_text t = (case t of MARKET \<Rightarrow> ''market'' | LIMIT \<Rightarrow> ''limit'')"

definition order_payload :: "(flt \<Rightarrow> string) \<Rightarrow> order \<Rightarrow> payload" where
  "order_payload num x =
     [(''symbol'', PStr (od_symbol x)), (''qty'', PStr (num (od_qty x))),
      (''side'', PStr (side_text (od_side x))), (''type'', PStr (type_text (od_order_type x))),
      (''time_in_force'', PStr ''day''), (''client_order_id'', PStr (od_client_order_id x))]
     @ (case od_limit_price x of
          Some p \<Rightarrow> if od_order_type x = LIMIT then [(''limit_price'', PStr (num p))] else []
        | None \<Rightarrow> [])"

text \<open>A field that is absent or empty keeps the value \<open>dflt\<close>.\<close>

definition float_or :: "'a \<Rightarrow> (flt \<Rightarrow> 'a) \<Rightarrow> pyval \<Rightarrow> 'a res" where
  "float_or dflt f v =
     (if truthy v then (case to_float v of Inl e \<Rightarrow> Inl e | Inr x \<Rightarrow> Inr (f x)) else Inr dflt)"

definition order_of_reply :: "order \<Rightarrow> pyval \<Rightarrow> order res" where
  "order_of_reply x resp =
     (case as_obj resp of Inl e \<Rightarrow> Inl e | Inr d \<Rightarrow>
      case status_of SUBMITTED (dict_get (PStr []) d ''status'') of Inl e \<Rightarrow> Inl e | Inr status \<Rightarrow>
      case float_or (od_filled_qty x) id (pget d ''filled_qty'') of Inl e \<Rightarrow> Inl e | Inr filled \<Rightarrow>
      case float_or (od_filled_avg_price x) Some (pget d ''filled_avg_price'') of Inl e \<Rightarrow> Inl e | Inr avg \<Rightarrow>
        Inr (x\<lparr>od_status := status, od_filled_qty := filled, od_filled_avg_price := avg\<rparr>))"

definition alpaca_submit ::
  "(flt \<Rightarrow> string) \<Rightarrow> 'w http \<Rightarrow> alpaca_client \<Rightarrow> order \<Rightarrow> 'w \<Rightarrow> 'w \<times> order res" where
  "alpaca_submit num http c x w =
     (case alpaca_request http c ''POST'' ''/v2/orders'' (Some (order_payload num x)) w of
        (w1, Inl e) \<Rightarrow> (w1, Inl e)
      | (w1, Inr resp) \<Rightarrow> (w1, order_of_reply x resp))"

definition alpaca_cancel ::
  "(pyval \<Rightarrow> string) \<Rightarrow> 'w http \<Rightarrow> alpaca_client \<Rightarrow> string \<Rightarrow> 'w \<Rightarrow> 'w \<times> unit res" where
  "alpaca_cancel rpr http c cid w =
     (case alpaca_request http c ''GET'' (''/v2/orders:by_client_order_id?client_order_id='' @ cid) None w of
        (w1, Inl e) \<Rightarrow> (w1, Inl e)
      | (w1, Inr found) \<Rightarrow>
          (case as_obj found of
             Inl e \<Rightarrow> (w1, Inl e)
           | Inr d \<Rightarrow>
               if truthy (pget d ''id'')
               then (case alpaca_request http c ''DELETE'' (''/v2/orders/'' @ py_str rpr (pget d ''id'')) None w1 of
                       (w2, Inl e) \<Rightarrow> (w2, Inl e) | (w2, Inr _) \<Rightarrow> (w2, Inr ()))
               else (w1, Inr ())))"

definition position_of_reply :: "(pyval \<Rightarrow> string) \<Rightarrow> pyval \<Rightarrow> position res" where
  "position_of_reply rpr v =
     (case as_obj v of Inl e \<Rightarrow> Inl e | Inr p \<Rightarrow>
      case pindex p ''symbol'' of Inl e \<Rightarrow> Inl e | Inr sy \<Rightarrow>
      case pindex p ''qty'' of Inl e \<Rightarrow> Inl e | Inr q \<Rightarrow>
      case to_float q of Inl e \<Rightarrow> Inl e | Inr qty \<Rightarrow>
      case to_float (dict_get (PFloat 0) p ''avg_entry_price'') of Inl e \<Rightarrow> Inl e | Inr avg \<Rightarrow>
      case to_float (dict_get (PFloat 0) p ''market_value'') of Inl e \<Rightarrow> Inl e | Inr mv \<Rightarrow>
      case to_float (dict_get (PFloat 0) p ''unrealized_pl'') of Inl e \<Rightarrow> Inl e | Inr pl \<Rightarrow>
        Inr \<lparr>ps_symbol = py_str rpr sy, ps_qty = qty, ps_avg_price = avg, ps_market_value = mv,
             ps_unrealized_pl = pl\<rparr>)"

definition rows_of_reply :: "(pyval \<Rightarrow> 'a res) \<Rightarrow> pyval res \<Rightarrow> 'a list res" where
  "rows_of_reply f r =
     (case r of Inl e \<Rightarrow> Inl e | Inr resp \<Rightarrow>
      case elements resp of Inl e \<Rightarrow> Inl e | Inr rows \<Rightarrow> map_res f rows)"

definition alpaca_positions ::
  "(pyval \<Rightarrow> string) \<Rightarrow> 'w http \<Rightarrow> alpaca_client \<Rightarrow> 'w \<Rightarrow> position list res" where
  "alpaca_positions rpr http c w =
     rows_of_reply (position_of_reply rpr) (snd (alpaca_request http c ''GET'' ''/v2/positions'' None w))"

fun side_of :: "pyval \<Rightarrow> order_side res" where
  "side_of (PStr s) = (if s = ''buy'' then Inr BUY else if s = ''sell'' then Inr SELL else Inl ValueError)"
| "side_of _ = Inl ValueError"

definition open_order_of_reply :: "(pyval \<Rightarrow> string) \<Rightarrow> pyval \<Rightarrow> order res" where
  "open_order_of_reply rpr v =
     (case as_obj v of Inl e \<Rightarrow> Inl e | Inr d \<Rightarrow>
      case pindex d ''symbol'' of Inl e \<Rightarrow> Inl e | Inr sy \<Rightarrow>
      case pindex d ''side'' of Inl e \<Rightarrow> Inl e | Inr sd \<Rightarrow>
      case side_of sd of Inl e \<Rightarrow> Inl e | Inr side \<Rightarrow>
      case float_or 0 id (pget d ''qty'') of Inl e \<Rightarrow> Inl e | Inr qty \<Rightarrow>
      case status_of ACCEPTED (dict_get (PStr []) d ''status'') of Inl e \<Rightarrow> Inl e | Inr status \<Rightarrow>
      case float_or 0 id (pget d ''filled_qty'') of Inl e \<Rightarrow> Inl e | Inr filled \<Rightarrow>
        Inr ((market_order (py_str rpr (dict_get (PStr []) d ''client_order_id'')) (py_str rpr sy) side qty)
               \<lparr>od_status := status, od_filled_qty := filled\<rparr>))"

definition alpaca_open_orders ::
  "(pyval \<Rightarrow> string) \<Rightarrow> 'w http \<Rightarrow> alpaca_client \<Rightarrow> 'w \<Rightarrow> order list res" where
  "alpaca_open_orders rpr http c w =
     rows_of_reply (open_order_of_reply rpr)
       (snd (alpaca_request http c ''GET'' ''/v2/orders?status=open&limit=500&nested=false'' None w))"

definition alpaca_market_open :: "'w http \<Rightarrow> alpaca_client \<Rightarrow> 'w \<Rightarrow> bool res \<times> 'w" where
  "alpaca_market_open http c w =
     (let (w1, r) = alpaca_request http c ''GET'' ''/v2/clock'' None w
      in (case r of Inl e \<Rightarrow> Inl e | Inr v \<Rightarrow>
          case obj_get v ''is_open'' (PBool False) of Inl e \<Rightarrow> Inl e | Inr flag \<Rightarrow> Inr (truthy flag), w1))"

definition account_of_reply :: "pyval \<Rightarrow> account res" where
  "account_of_reply v =
     (case as_obj v of Inl e \<Rightarrow> Inl e | Inr a \<Rightarrow>
      case to_float (dict_get (PFloat 0) a ''equity'') of Inl e \<Rightarrow> Inl e | Inr eq \<Rightarrow>
      case to_float (dict_get (PFloat 0) a ''cash'') of Inl e \<Rightarrow> Inl e | Inr cash \<Rightarrow>
      case to_float (dict_get (PFloat 0) a ''buying_power'') of Inl e \<Rightarrow> Inl e | Inr bp \<Rightarrow>
      case to_float (dict_get (PFloat 0) a ''last_equity'') of Inl e \<Rightarrow> Inl e | Inr le \<Rightarrow>
        Inr \<lparr>ac_equity = eq, ac_cash = cash, ac_buying_power = bp, ac_last_equity = le\<rparr>)"

definition alpaca_account :: "'w http \<Rightarrow> alpaca_client \<Rightarrow> 'w \<Rightarrow> account res" where
  "alpaca_account http c w =
     (case snd (alpaca_request http c ''GET'' ''/v2/account'' None w) of
        Inl e \<Rightarrow> Inl e | Inr v \<Rightarrow> account_of_reply v)"

definition tradable_symbol :: "(pyval \<Rightarrow> string) \<Rightarrow> bool \<Rightarrow> pyval \<Rightarrow> string option res" where
  "tradable_symbol rpr tradable_only v =
     (case as_obj v of Inl e \<Rightarrow> Inl e | Inr a \<Rightarrow>
        Inr (if tradable_only \<and> \<not> truthy (dict_get (PBool False) a ''tradable'') then None
             else if truthy (pget a ''symbol'') then Some (py_str rpr (pget a ''symbol'')) else None))"

definition list_us_equities ::
  "(pyval \<Rightarrow> string) \<Rightarrow> 'w http \<Rightarrow> alpaca_client \<Rightarrow> bool \<Rightarrow> 'w \<Rightarrow> string list res" where
  "list_us_equities rpr http c tradable_only w =
     (case snd (alpaca_request http c ''GET'' ''/v2/assets?status=active&asset_class=us_equity'' None w) of
        Inl e \<Rightarrow> Inl e
      | Inr v \<Rightarrow>
          (case collect_res (tradable_symbol rpr tradable_only) (case v of PList xs \<Rightarrow> xs | _ \<Rightarrow> []) of
             Inl e \<Rightarrow> Inl e | Inr syms \<Rightarrow> Inr (sort syms)))"

definition alpaca_ops ::
  "(flt \<Rightarrow> string) \<Rightarrow> (pyval \<Rightarrow> string) \<Rightarrow> 'w http \<Rightarrow> alpaca_client \<Rightarrow> 'w broker_ops" where
  "alpaca_ops num rpr http c =
     \<lparr>bk_submit = alpaca_submit num http c, bk_cancel = alpaca_cancel rpr http c,
      bk_positions = alpaca_positions rpr http c, bk_open_orders = alpaca_open_orders rpr http c,
      bk_account = alpaca_account http c\<rparr>"

section \<open>intraday.py\<close>

definition minute_feature ::
  "string \<Rightarrow> (panel \<Rightarrow> string list \<Rightarrow> (string \<times> flt) list res) \<Rightarrow> 's store_ops \<Rightarrow> 's feature" where
  "minute_feature name f S =
     \<lparr>ft_name = name,
      ft_compute = (\<lambda>s as_of symbols. case store_panel S s as_of intraday_dataset ''close'' of
          Inl e \<Rightarrow> Inl e | Inr p \<Rightarrow> f p symbols),
      ft_from_panel = Some f\<rparr>"

definition intraday_features :: "settings \<Rightarrow> 's store_ops \<Rightarrow> 's feature list" where
  "intraday_features st S =
     (let mom = nat (intraday_momentum_lookback st); rv = nat (intraday_meanrev_lookback st);
          vol = nat (intraday_vol_window st)
      in [minute_feature (''mom_'' @ nat_str mom) (momentum mom 0) S,
          minute_feature (''meanrev_'' @ nat_str rv) (\<lambda>p symbols. Inr (mean_reversion rv p symbols)) S,
          minute_feature (''vol_'' @ nat_str vol) (\<lambda>p symbols. Inr (volatility vol False p symbols)) S])"

definition minute_prices :: "'s store_ops \<Rightarrow> 's \<Rightarrow> datetime \<Rightarrow> (string, flt) dict res" where
  "minute_prices S s as_of =
     (case store_panel S s as_of intraday_dataset ''close'' of
        Inl e \<Rightarrow> Inl e
      | Inr p \<Rightarrow>
          Inr (if panel_empty p then []
               else filter (\<lambda>(sy, v). v \<noteq> NaN) (series_of_row p (snd (last (pn_rows (ffill p)))))))"

definition intraday_options :: "settings \<Rightarrow> cycle_options" where
  "intraday_options st =
     default_options\<lparr>co_top_quantile := intraday_top_quantile st,
       co_max_positions := (if max_positions st = 0 then None else Some (max_positions st)),
       co_exit_band_multiple := exit_band_multiple st, co_risk_weighting := risk_weighting st,
       co_stop_loss_pct := stop_loss_pct st\<rparr>"

text \<open>One pass with the clients injected or built behind the same guard.  \<open>fetch\<close> answers the bars request for
  the watchlist between two times.\<close>

definition run_intraday_cycle ::
  "library \<Rightarrow> 'b broker_ops \<Rightarrow> 's store_ops \<Rightarrow> datetime \<Rightarrow> settings \<Rightarrow> bool \<Rightarrow> string list
   \<Rightarrow> (string list \<Rightarrow> datetime \<Rightarrow> datetime \<Rightarrow> string \<Rightarrow> string \<Rightarrow> payload list res) \<Rightarrow> datetime option \<Rightarrow> int option
   \<Rightarrow> 's feature list option \<Rightarrow> 's \<times> 'b \<Rightarrow> ('s \<times> 'b) \<times> cycle_result res" where
  "run_intraday_cycle L B S now st injected wanted fetch as_of lookback_minutes features sb =
     (let watchlist = (if wanted \<noteq> [] then wanted else resolve_universe (universe st));
          upto_t = (case as_of of Some t \<Rightarrow> t | None \<Rightarrow> now);
          lookback = (case lookback_minutes of Some m \<Rightarrow> if m = 0 then intraday_lookback_minutes st else m
                      | None \<Rightarrow> intraday_lookback_minutes st);
          start = upto_t - minutes lookback in
      case (if injected then Inr () else live_guard st) of Inl e \<Rightarrow> (sb, Inl e) | Inr _ \<Rightarrow>
      case fetch watchlist start upto_t (intraday_timeframe st) (alpaca_data_feed st) of
        Inl e \<Rightarrow> (sb, Inl e)
      | Inr records \<Rightarrow>
      case intraday_bars_to_observations (lb_repr L) now ''price'' records of Inl e \<Rightarrow> (sb, Inl e) | Inr obs \<Rightarrow>
      let s1 = fst (ingest S True False obs (fst sb)) in
      case minute_prices S s1 upto_t of Inl e \<Rightarrow> ((s1, snd sb), Inl e) | Inr prices \<Rightarrow>
        run_paper_cycle L B S now upto_t watchlist prices st None None
          (Some (case features of Some fs \<Rightarrow> fs | None \<Rightarrow> intraday_features st S)) None
          (intraday_options st) (s1, snd sb))"

text \<open>The loop is the polling loop of the news sleeve with the intraday pass.\<close>

definition run_trading_loop ::
  "('w \<Rightarrow> bool res \<times> 'w) \<Rightarrow> ('w \<Rightarrow> cycle_result res \<times> 'w) \<Rightarrow> (real \<Rightarrow> 'w \<Rightarrow> 'w) \<Rightarrow> ('w \<Rightarrow> bool \<times> 'w) option
   \<Rightarrow> nat option \<Rightarrow> settings \<Rightarrow> 'w \<Rightarrow> (nat \<times> 'w) option" where
  "run_trading_loop market_open run_cycle sleep stop max_iterations st w =
     news_loop market_open run_cycle (sleep (of_int (intraday_interval_seconds st))) stop max_iterations 0 w"

section \<open>Rejected orders and failed transports\<close>

text \<open>The API answers every submission of an order: an HTTP error, or a reply that reads as an order.  Nothing is
  asked of its other requests.\<close>

definition order_fields_ok :: "payload \<Rightarrow> bool" where
  "order_fields_ok d \<longleftrightarrow> is_ok (status_of SUBMITTED (dict_get (PStr []) d ''status''))
     \<and> is_ok (float_or 0 id (pget d ''filled_qty'')) \<and> is_ok (float_or 0 id (pget d ''filled_avg_price''))"

definition api_answers :: "(flt \<Rightarrow> string) \<Rightarrow> alpaca_client \<Rightarrow> 'w http \<Rightarrow> bool" where
  "api_answers num c http \<longleftrightarrow>
     (\<forall>x w. case snd (hp_send http ''POST'' (ab_base c @ ''/v2/orders'') (Some (order_payload num x)) w) of
       HttpError _ _ \<Rightarrow> True | HttpFail _ \<Rightarrow> False
     | HttpOk raw \<Rightarrow> raw = [] \<or> (\<exists>d. json_loads (hp_room http) raw = Inr (PDict d) \<and> order_fields_ok d))"

lemma is_ok_iff: "is_ok r \<longleftrightarrow> (\<exists>v. r = Inr v)"
  by (cases r) simp_all

lemma float_or_ok: "is_ok (float_or a f v) \<longleftrightarrow> is_ok (float_or b g v)"
  by (simp add: float_or_def is_ok_iff split: sum.split)

lemma order_of_reply_ok: "order_fields_ok d \<Longrightarrow> is_ok (order_of_reply x (PDict d))"
  using float_or_ok [of 0 id "pget d ''filled_qty''" "od_filled_qty x" id]
    float_or_ok [of 0 id "pget d ''filled_avg_price''" "od_filled_avg_price x" Some]
  by (auto simp: order_fields_ok_def order_of_reply_def is_ok_iff)

lemma order_fields_ok_empty: "order_fields_ok []"
  by (simp add: order_fields_ok_def float_or_def pget_def)

lemma alpaca_submit_answered:
  assumes "api_answers num c http"
  shows "is_ok (snd (alpaca_submit num http c x w))
    \<or> (\<exists>e. snd (alpaca_submit num http c x w) = Inl e \<and> is_broker_error e)"
proof -
  obtain w1 r where r: "hp_send http ''POST'' (ab_base c @ ''/v2/orders'') (Some (order_payload num x)) w = (w1, r)"
    by (rule prod.exhaust)
  have "case r of HttpError _ _ \<Rightarrow> True | HttpFail _ \<Rightarrow> False
     | HttpOk raw \<Rightarrow> raw = [] \<or> (\<exists>d. json_loads (hp_room http) raw = Inr (PDict d) \<and> order_fields_ok d)"
    using assms [unfolded api_answers_def, THEN spec [of _ x], THEN spec [of _ w]] by (simp only: r snd_conv)
  then consider (ok) "r = HttpOk []" | (order) raw d where "r = HttpOk raw" "raw \<noteq> []" "json_loads (hp_room http) raw = Inr (PDict d)" "order_fields_ok d"
    | (error) status detail where "r = HttpError status detail"
    by (cases r) auto
  then show ?thesis
  proof cases
    case ok
    then show ?thesis using r order_of_reply_ok [OF order_fields_ok_empty, of x]
      by (simp add: alpaca_submit_def alpaca_request_def)
  next
    case order
    then show ?thesis using r order_of_reply_ok [OF order(4), of x]
      by (simp add: alpaca_submit_def alpaca_request_def)
  next
    case error
    then show ?thesis using r by (simp add: alpaca_submit_def alpaca_request_def alpaca_error_def is_broker_error_def)
  qed
qed

definition limiter_room :: "('b, 's) engine \<Rightarrow> int" where
  "limiter_room en = rl_max_orders (en_limiter en) - rl_count (en_limiter en)"

lemma submit_planned_step:
  assumes "api_answers num c http"
  shows "(limiter_room en \<le> 0
      \<and> (\<exists>en'. submit_planned (alpaca_ops num rpr http c) S now t ((x, p) # rest) orders skipped en = (en', Inr (orders, skipped))))
    \<or> (\<exists>os k en'. submit_planned (alpaca_ops num rpr http c) S now t ((x, p) # rest) orders skipped en
          = submit_planned (alpaca_ops num rpr http c) S now t rest os k en'
        \<and> length os + k = Suc (length orders + skipped) \<and> limiter_room en - 1 \<le> limiter_room en')"
proof (cases "sanity_check_order x (Some p) default_max_qty default_max_deviation")
  case (Inl exc)
  then show ?thesis by (intro disjI2 exI conjI) (auto simp: limiter_room_def)
next
  case (Inr u)
  obtain b r where b: "alpaca_submit num http c x (en_broker en) = (b, r)" by (rule prod.exhaust)
  have sub: "bk_submit (alpaca_ops num rpr http c) = alpaca_submit num http c" by (simp add: alpaca_ops_def)
  have ans: "(\<exists>o1. r = Inr o1) \<or> (\<exists>e. r = Inl e \<and> is_broker_error e)"
    using alpaca_submit_answered [OF assms, of x "en_broker en"] b by (auto simp: is_ok_iff)
  show ?thesis
  proof (cases "limiter_room en \<le> 0")
    case True
    then show ?thesis using Inr by (auto simp: limiter_room_def limiter_allow_def Let_def)
  next
    case False
    then have l: "limiter_allow (en_limiter en) = ((en_limiter en)\<lparr>rl_count := rl_count (en_limiter en) + 1\<rparr>, True)"
      by (simp add: limiter_allow_def limiter_room_def)
    from ans show ?thesis
    proof
      assume "\<exists>o1. r = Inr o1"
      then show ?thesis by (elim exE, intro disjI2 exI conjI) (auto simp: Inr l b sub Let_def limiter_room_def)
    next
      assume "\<exists>e. r = Inl e \<and> is_broker_error e"
      then show ?thesis by (elim exE conjE, intro disjI2 exI conjI) (auto simp: Inr l b sub Let_def limiter_room_def)
    qed
  qed
qed

lemma submit_planned_answered:
  assumes "api_answers num c http"
  shows "\<exists>os k. snd (submit_planned (alpaca_ops num rpr http c) S now t planned orders skipped en) = Inr (os, k)
    \<and> length os + k \<le> length orders + skipped + length planned
    \<and> (int (length planned) \<le> limiter_room en \<longrightarrow> length os + k = length orders + skipped + length planned)"
proof (induction planned arbitrary: orders skipped en)
  case (Cons xp rest)
  obtain x p where xp: "xp = (x, p)" by (rule prod.exhaust)
  from submit_planned_step [OF assms, of en rpr S now t x p rest orders skipped] show ?case
  proof
    assume "limiter_room en \<le> 0 \<and> (\<exists>en'. submit_planned (alpaca_ops num rpr http c) S now t ((x, p) # rest) orders skipped en
        = (en', Inr (orders, skipped)))"
    then show ?thesis unfolding xp by auto
  next
    assume "\<exists>os k en'. submit_planned (alpaca_ops num rpr http c) S now t ((x, p) # rest) orders skipped en
          = submit_planned (alpaca_ops num rpr http c) S now t rest os k en'
        \<and> length os + k = Suc (length orders + skipped) \<and> limiter_room en - 1 \<le> limiter_room en'"
    then obtain os k en' where s: "submit_planned (alpaca_ops num rpr http c) S now t ((x, p) # rest) orders skipped en
          = submit_planned (alpaca_ops num rpr http c) S now t rest os k en'"
      "length os + k = Suc (length orders + skipped)" "limiter_room en - 1 \<le> limiter_room en'" by blast
    show ?thesis unfolding xp s(1) using Cons.IH [of os k en'] s(2,3) by auto
  qed
qed simp

text \<open>C3: rejected orders do not stop a book.  As long as the API answers every submission of an order, with an
  order or with an HTTP error (whatever it does with other requests), the adapter's submissions raise broker
  errors only, and sending a planned book through it never raises: every planned order is either placed or
  skipped, and none is left out unless the rate limiter is exhausted.\<close>

theorem alpaca_rejections_are_skipped:
  assumes "api_answers num c http"
  shows "only_broker_errors (alpaca_ops num rpr http c)
    \<and> (\<exists>orders skipped. snd (submit_planned (alpaca_ops num rpr http c) S now t planned [] 0 en) = Inr (orders, skipped)
    \<and> length orders + skipped \<le> length planned
    \<and> (int (length planned) \<le> rl_max_orders (en_limiter en) - rl_count (en_limiter en)
        \<longrightarrow> length orders + skipped = length planned))"
proof
  show "only_broker_errors (alpaca_ops num rpr http c)"
    unfolding only_broker_errors_def
  proof (intro allI impI)
    fix x w w1 e assume "bk_submit (alpaca_ops num rpr http c) x w = (w1, Inl e)"
    then show "is_broker_error e"
      using alpaca_submit_answered [OF assms, of x w] by (simp add: alpaca_ops_def)
  qed
qed (use submit_planned_answered [OF assms, of rpr S now t planned "[]" 0 en] in \<open>simp add: limiter_room_def\<close>)

text \<open>An API that refuses every second order, answers the others as Alpaca does, and gives lists for the rest.\<close>

definition accepted_text :: string where
  "accepted_text = ''{'' @ [quote] @ ''id'' @ [quote] @ '': '' @ [quote] @ ''1'' @ [quote] @ '', '' @ [quote] @ ''status''
     @ [quote] @ '': '' @ [quote] @ ''accepted'' @ [quote] @ '', '' @ [quote] @ ''filled_qty'' @ [quote] @ '': ''
     @ [quote] @ ''0'' @ [quote] @ '', '' @ [quote] @ ''filled_avg_price'' @ [quote] @ '': null}''"

definition rejecting_api :: "nat http" where
  "rejecting_api = \<lparr>hp_send = (\<lambda>verb u b w.
       if verb = ''POST'' then (Suc w, if even w then HttpError 403 ''insufficient buying power'' else HttpOk accepted_text)
       else (w, HttpOk ''[]'')), hp_room = 900\<rparr>"

definition alpaca_engine :: "(nat, mem_store) engine" where
  "alpaca_engine = \<lparr>en_broker = 0, en_settings = default_settings, en_limits = default_limits, en_audit = None,
     en_kill = new_kill_switch, en_breaker = new_breaker (Fin (1 / 5)),
     en_limiter = \<lparr>rl_max_orders = 50, rl_count = 0\<rparr>\<rparr>"

lemma alpaca_rejections_are_skipped_witness:
  "alpaca_positions (\<lambda>_. []) rejecting_api \<lparr>ab_base = [], ab_key = [], ab_secret = []\<rparr> 0 = Inr []
    \<and> (\<exists>orders skipped. snd (submit_planned (alpaca_ops (\<lambda>_. []) (\<lambda>_. []) rejecting_api \<lparr>ab_base = [], ab_key = [], ab_secret = []\<rparr>)
      mem_ops 0 0 [(market_order ''a'' ''A'' BUY 1, 5), (market_order ''b'' ''B'' BUY 1, 5)] [] 0 alpaca_engine)
      = Inr (orders, skipped) \<and> length orders + skipped = 2)"
proof
  let ?c = "\<lparr>ab_base = [], ab_key = [], ab_secret = []\<rparr>"
  show "alpaca_positions (\<lambda>_. []) rejecting_api ?c 0 = Inr []" by code_simp
  have j: "json_loads 900 accepted_text = Inr (PDict [(''id'', PStr ''1''), (''status'', PStr ''accepted''),
      (''filled_qty'', PStr ''0''), (''filled_avg_price'', PNone)])"
    by code_simp
  have o: "order_fields_ok [(''id'', PStr ''1''), (''status'', PStr ''accepted''),
      (''filled_qty'', PStr ''0''), (''filled_avg_price'', PNone)]"
    by code_simp
  have "api_answers (\<lambda>_. []) ?c rejecting_api" using o by (simp add: api_answers_def rejecting_api_def j)
  from alpaca_rejections_are_skipped [OF this, of "\<lambda>_. []" mem_ops 0 0
      "[(market_order ''a'' ''A'' BUY 1, 5), (market_order ''b'' ''B'' BUY 1, 5)]" alpaca_engine]
  show "\<exists>orders skipped. snd (submit_planned (alpaca_ops (\<lambda>_. []) (\<lambda>_. []) rejecting_api ?c)
      mem_ops 0 0 [(market_order ''a'' ''A'' BUY 1, 5), (market_order ''b'' ''B'' BUY 1, 5)] [] 0 alpaca_engine)
      = Inr (orders, skipped) \<and> length orders + skipped = 2"
    by (auto simp: alpaca_engine_def)
qed

text \<open>A transport that fails on an order is no broker error: the orders after it are not sent, and the ones
  before it are not returned.\<close>

lemma transport_failure_stops_the_book:
  assumes "hp_send http ''POST'' (ab_base c @ ''/v2/orders'') (Some (order_payload num x)) (en_broker en) = (w1, HttpFail e)"
    and "\<not> is_broker_error e" "sanity_check_order x (Some p) default_max_qty default_max_deviation = Inr ()"
    and "0 < limiter_room en"
  shows "snd (submit_planned (alpaca_ops num rpr http c) S now t ((x, p) # rest) orders skipped en) = Inl e"
  using assms by (simp add: alpaca_ops_def alpaca_submit_def alpaca_request_def limiter_allow_def limiter_room_def Let_def)

section \<open>What an intraday pass touches\<close>

text \<open>The intraday pass runs the book cycle without reserved names, whatever the sleeves hold.\<close>

lemma intraday_reserves_nothing: "co_reserved_symbols (intraday_options st) = {}"
  by (simp add: intraday_options_def default_options_def)

text \<open>With a cap on its iterations and no stop flag the trading loop makes exactly that many passes, whatever
  they raise.\<close>

lemma trading_loop_passes:
  "run_trading_loop market_open run_cycle sleep None (Some (Suc k)) st w =
     Some (Suc k, news_pass market_open run_cycle
       ((world_step market_open run_cycle (sleep (of_int (intraday_interval_seconds st))) ^^ k) w))"
  using news_loop_passes [of market_open run_cycle _ k 0 w] by (simp add: run_trading_loop_def)

end
