(* ===== verification/Forecast.thy ===== *)
theory Forecast
  imports Study Backtest Cycle
begin

text \<open>
  The forecaster: the macro regime (\<open>features/regime.py\<close>), the point-in-time training set
  (\<open>forecasting/dataset.py\<close>), the momentum baseline (\<open>forecasting/models.py\<close>), training, purged
  cross-validation and the backtest strategy (\<open>forecasting/pipeline.py\<close>), and the forecast scorer with its
  honest comparison (\<open>runtime/scoring.py\<close>).

  scikit-learn is the record \<open>learner\<close>: fitting a fresh estimator, its probability of class 1, the ROC
  area, and NumPy's \<open>argsort\<close> and \<open>array_split\<close>.
\<close>

section \<open>regime.py\<close>

record regime =
  rg_slope :: "flt option"
  rg_risk_on :: bool
  rg_label :: string
  rg_n_series :: nat

definition series_value :: "observation \<Rightarrow> (string \<times> flt) option res" where
  "series_value x =
     (if is_none (pget (o_value x) ''value'') then Inr None
      else (case to_float (pget (o_value x) ''value'') of
              Inl e \<Rightarrow> Inl e | Inr v \<Rightarrow> Inr (Some (o_entity_id x, v))))"

definition latest_series :: "'s store_ops \<Rightarrow> 's \<Rightarrow> datetime \<Rightarrow> (string, flt) dict res" where
  "latest_series S s as_of =
     (case collect_res series_value (st_as_of S s as_of (q_of_dataset fred_dataset)) of
        Inl e \<Rightarrow> Inl e | Inr kvs \<Rightarrow> Inr (dict_of fst snd kvs))"

definition macro_regime :: "'s store_ops \<Rightarrow> 's \<Rightarrow> datetime \<Rightarrow> regime res" where
  "macro_regime S s as_of =
     (case latest_series S s as_of of
        Inl e \<Rightarrow> Inl e
      | Inr latest \<Rightarrow>
          let slope = (case (map_of latest ''DGS10'', map_of latest ''DGS2'') of
                  (Some long, Some short) \<Rightarrow> Some (long - short) | _ \<Rightarrow> None);
              risk_on = (case slope of None \<Rightarrow> True | Some v \<Rightarrow> 0 < v)
          in Inr \<lparr>rg_slope = slope, rg_risk_on = risk_on,
                  rg_label = (if risk_on then ''risk_on'' else ''risk_off''), rg_n_series = length latest\<rparr>)"

definition regime_flag :: "'s store_ops \<Rightarrow> 's \<Rightarrow> datetime \<Rightarrow> flt res" where
  "regime_flag S s as_of =
     (case macro_regime S s as_of of Inl e \<Rightarrow> Inl e | Inr r \<Rightarrow> Inr (if rg_risk_on r then 1 else 0))"

section \<open>dataset.py\<close>

definition regime_feature :: string where "regime_feature = ''regime_risk_on''"

record sample =
  sm_symbol :: string
  sm_label :: nat
  sm_t0 :: datetime
  sm_t1 :: datetime
  sm_features :: "(string, flt) dict"

record training_set =
  ts_samples :: "sample list"
  ts_feature_names :: "string list"

definition forward_return :: "panel \<Rightarrow> datetime \<Rightarrow> nat \<Rightarrow> (string, flt) dict" where
  "forward_return returns as_of horizon =
     (let pos = length (filter (\<lambda>t. t \<le> as_of) (panel_index returns));
          window = take horizon (drop pos (pn_rows returns))
      in if window = [] \<or> pn_columns returns = [] then []
         else map (\<lambda>c. (c, foldl (*) 1 (map (\<lambda>v. 1 + fill0 v) (column (returns\<lparr>pn_rows := window\<rparr>) c)) - 1))
                (pn_columns returns))"

definition median :: "flt list \<Rightarrow> flt" where
  "median xs =
     (let ys = sort_key flt_key xs; n = length ys in
      if n = 0 then NaN
      else if odd n then ys ! (n div 2)
      else fdiv (ys ! (n div 2 - 1) + ys ! (n div 2)) 2)"

definition feature_row_of :: "feature_matrix \<Rightarrow> string \<Rightarrow> (string, flt) dict" where
  "feature_row_of m s = map (\<lambda>(c, col). (c, dict_get NaN (zip (fm_symbols m) col) s)) (fm_columns m)"

definition label_time :: "datetime \<Rightarrow> nat \<Rightarrow> datetime" where
  "label_time d horizon = d + days (int horizon * 2)"

definition date_samples ::
  "'s store_ops \<Rightarrow> 's \<Rightarrow> 's feature list \<Rightarrow> constituent list \<Rightarrow> panel \<Rightarrow> nat \<Rightarrow> datetime \<Rightarrow> sample list res" where
  "date_samples S s features cons returns horizon d =
     (case compute_matrix features s d (members_on cons (dt_date d)) of
        Inl e \<Rightarrow> Inl e
      | Inr m \<Rightarrow>
          if matrix_empty m then Inr []
          else
            let forward = forward_return returns d horizon;
                valid = filter (\<lambda>sy. dict_get NaN forward sy \<noteq> NaN) (fm_symbols m) in
            if length valid < 2 then Inr []
            else
              let mid = median (map (dict_get NaN forward) valid) in
              case regime_flag S s d of
                Inl e \<Rightarrow> Inl e
              | Inr risk_on \<Rightarrow>
                  Inr (map (\<lambda>sy. \<lparr>sm_symbol = sy,
                        sm_label = (if mid < dict_get NaN forward sy then 1 else 0), sm_t0 = d,
                        sm_t1 = label_time d horizon,
                        sm_features = dict_set regime_feature risk_on (feature_row_of m sy)\<rparr>) valid))"

text \<open>A frame without rows has no columns to select: \<open>KeyError\<close>.\<close>

definition build_training_set ::
  "'s store_ops \<Rightarrow> 's \<Rightarrow> 's feature list \<Rightarrow> datetime list \<Rightarrow> constituent list \<Rightarrow> nat \<Rightarrow> string \<Rightarrow> training_set res" where
  "build_training_set S s features schedule cons horizon dataset =
     (case realized_returns S s dataset ''close'' of
        Inl e \<Rightarrow> Inl e
      | Inr returns \<Rightarrow>
          (case map_res (date_samples S s features cons returns horizon) (sort schedule) of
             Inl e \<Rightarrow> Inl e
           | Inr groups \<Rightarrow>
               if concat groups = [] then Inl KeyError
               else Inr \<lparr>ts_samples = concat groups,
                         ts_feature_names = map ft_name features @ [regime_feature]\<rparr>))"

section \<open>models.py\<close>

record 'm learner =
  lr_fit :: "flt list list \<Rightarrow> nat list \<Rightarrow> 'm res"
  lr_proba :: "'m \<Rightarrow> flt list list \<Rightarrow> flt list res"
  lr_auc :: "nat list \<Rightarrow> flt list \<Rightarrow> flt"
  lr_argsort :: "flt list \<Rightarrow> nat list"
  lr_array_split :: "nat list \<Rightarrow> int \<Rightarrow> nat list list"

definition design :: "string list \<Rightarrow> sample list \<Rightarrow> flt list list" where
  "design names samples = map (\<lambda>x. map (dict_get NaN (sm_features x)) names) samples"

definition design_of_matrix :: "string list \<Rightarrow> flt \<Rightarrow> feature_matrix \<Rightarrow> flt list list" where
  "design_of_matrix names risk_on m =
     map (\<lambda>sy. map (dict_get NaN (dict_set regime_feature risk_on (feature_row_of m sy))) names) (fm_symbols m)"

definition nan_min :: "flt list \<Rightarrow> flt" where
  "nan_min xs = (case clean xs of [] \<Rightarrow> NaN | y # ys \<Rightarrow> foldl np_min y ys)"

text \<open>\<open>nan_to_num\<close> also makes an infinity finite, which keeps its place in the ranking.\<close>

definition momentum_baseline_proba :: "(flt list \<Rightarrow> nat list) \<Rightarrow> nat \<Rightarrow> flt list list \<Rightarrow> flt list" where
  "momentum_baseline_proba argsort feature_index x =
     (let col = map (\<lambda>row. row ! feature_index) x; n = length col in
      if n = 0 then []
      else let fill = (if is_fin (nan_min col) then nan_min col else 0);
               ranks = argsort (map (\<lambda>r. Fin (real r)) (argsort (map (\<lambda>v. if v = NaN then fill else v) col)))
           in map (\<lambda>r. Fin ((real r + 1 / 2) / real n)) ranks)"

section \<open>pipeline.py\<close>

record calibration_report =
  cr_n :: nat
  cr_auc :: flt
  cr_brier :: real
  cr_reliability :: "calibration_bin list"

definition two_classes :: "nat list \<Rightarrow> bool" where
  "two_classes y \<longleftrightarrow> 1 < card (set y)"

definition evaluate_predictions :: "'m learner \<Rightarrow> flt list \<Rightarrow> nat list \<Rightarrow> nat \<Rightarrow> calibration_report" where
  "evaluate_predictions K probs labels n_bins =
     (let p = map flt_val probs; y = map real labels in
      \<lparr>cr_n = length probs, cr_auc = (if two_classes labels then lr_auc K labels probs else NaN),
       cr_brier = brier_score p y, cr_reliability = reliability_curve p y n_bins\<rparr>)"

definition time_split :: "datetime list \<Rightarrow> real \<Rightarrow> datetime list \<times> datetime list" where
  "time_split schedule train_frac =
     (let ordered = sort schedule; k = nat \<lfloor>real (length ordered) * train_frac\<rfloor>
      in (take k ordered, drop k ordered))"

definition train_forecaster ::
  "'m learner \<Rightarrow> 's store_ops \<Rightarrow> 's \<Rightarrow> 's feature list \<Rightarrow> datetime list \<Rightarrow> constituent list \<Rightarrow> nat
   \<Rightarrow> ('m \<times> training_set) res" where
  "train_forecaster K S s features train_dates cons horizon =
     (case build_training_set S s features train_dates cons horizon price_dataset of
        Inl e \<Rightarrow> Inl e
      | Inr ts \<Rightarrow>
          (case lr_fit K (design (ts_feature_names ts) (ts_samples ts)) (map sm_label (ts_samples ts)) of
             Inl e \<Rightarrow> Inl e | Inr model \<Rightarrow> Inr (model, ts)))"

definition picked :: "'a list \<Rightarrow> nat list \<Rightarrow> 'a list" where
  "picked xs idx = map ((!) xs) idx"

definition fold_auc :: "'m learner \<Rightarrow> flt list list \<Rightarrow> nat list \<Rightarrow> nat list \<times> nat list \<Rightarrow> flt option res" where
  "fold_auc K x y tt =
     (let (train, test) = tt in
      if \<not> two_classes (picked y train) \<or> \<not> two_classes (picked y test) then Inr None
      else case lr_fit K (picked x train) (picked y train) of Inl e \<Rightarrow> Inl e | Inr model \<Rightarrow>
           case lr_proba K model (picked x test) of Inl e \<Rightarrow> Inl e | Inr p \<Rightarrow>
             Inr (Some (lr_auc K (picked y test) p)))"

definition purged_cv_auc :: "'m learner \<Rightarrow> training_set \<Rightarrow> int \<Rightarrow> real \<Rightarrow> flt res" where
  "purged_cv_auc K ts n_splits embargo =
     (let x = design (ts_feature_names ts) (ts_samples ts); y = map sm_label (ts_samples ts) in
      case purged_split (lr_array_split K) n_splits embargo (map sm_t0 (ts_samples ts)) (map sm_t1 (ts_samples ts)) of
        Inl e \<Rightarrow> Inl e
      | Inr folds \<Rightarrow>
          (case collect_res (fold_auc K x y) folds of
             Inl e \<Rightarrow> Inl e | Inr aucs \<Rightarrow> Inr (if aucs = [] then NaN else fmean aucs)))"

definition forecast_target ::
  "library \<Rightarrow> 'm learner \<Rightarrow> 's store_ops \<Rightarrow> 's \<Rightarrow> 's feature list \<Rightarrow> 'm \<Rightarrow> constituent list \<Rightarrow> string list \<Rightarrow> real
   \<Rightarrow> datetime \<Rightarrow> weights res" where
  "forecast_target L K S s features model cons names quant as_of =
     (case compute_matrix features s as_of (members_on cons (dt_date as_of)) of Inl e \<Rightarrow> Inl e | Inr m \<Rightarrow>
      if matrix_empty m then Inr []
      else case regime_flag S s as_of of Inl e \<Rightarrow> Inl e | Inr risk_on \<Rightarrow>
           case lr_proba K model (design_of_matrix names risk_on m) of Inl e \<Rightarrow> Inl e | Inr probs \<Rightarrow>
             let ranked = lb_sort_descending L (filter (\<lambda>(sy, v). v \<noteq> NaN) (zip (fm_symbols m) probs));
                 winners = map fst (take (nat (max 1 \<lfloor>real (length ranked) * quant\<rfloor>)) ranked)
             in Inr (if ranked = [] then []
                     else map (\<lambda>sy. (sy, Fin (1 / real (length winners)))) winners))"

definition forecast_strategy ::
  "library \<Rightarrow> 'm learner \<Rightarrow> 's store_ops \<Rightarrow> 's \<Rightarrow> 's feature list \<Rightarrow> 'm \<Rightarrow> constituent list \<Rightarrow> string list \<Rightarrow> real
   \<Rightarrow> strategy" where
  "forecast_strategy L K S s features model cons names quant =
     \<lparr>sg_name = ''forecast'',
      sg_target_weights = (\<lambda>view as_of. forecast_target L K S s features model cons names quant as_of)\<rparr>"

section \<open>scoring.py: the forecast scorer\<close>

definition live_universe :: "string list \<Rightarrow> constituent list" where
  "live_universe symbols =
     map (\<lambda>s. \<lparr>co_symbol = s, co_name = s, co_added = ymd2ord (1990, 1, 1), co_removed = None\<rparr>) symbols"

definition forecast_scorer ::
  "'m learner \<Rightarrow> 's store_ops \<Rightarrow> 's \<Rightarrow> 's feature list \<Rightarrow> string list \<Rightarrow> datetime \<Rightarrow> nat \<Rightarrow> score_fn res" where
  "forecast_scorer K S s features symbols as_of horizon =
     (case training_schedule S s as_of 5 40 of Inl e \<Rightarrow> Inl e | Inr schedule \<Rightarrow>
      case train_forecaster K S s features schedule (live_universe symbols) horizon of
        Inl e \<Rightarrow> Inl e
      | Inr (model, ts) \<Rightarrow>
          Inr (\<lambda>m decided.
            case regime_flag S s decided of Inl e \<Rightarrow> Inl e | Inr risk_on \<Rightarrow>
            case lr_proba K model (design_of_matrix (ts_feature_names ts) risk_on m) of
              Inl e \<Rightarrow> Inl e | Inr probs \<Rightarrow> Inr (zip (fm_symbols m) probs)))"

record auc_comparison =
  au_n_samples :: nat
  au_forecast_cv :: flt
  au_baseline :: flt

definition forecaster_vs_baseline_auc ::
  "'m learner \<Rightarrow> (pyval \<Rightarrow> string) \<Rightarrow> 's store_ops \<Rightarrow> 's \<Rightarrow> string list \<Rightarrow> datetime \<Rightarrow> nat \<Rightarrow> auc_comparison res" where
  "forecaster_vs_baseline_auc K rpr S s symbols as_of horizon =
     (case training_schedule S s as_of 5 40 of Inl e \<Rightarrow> Inl e | Inr schedule \<Rightarrow>
      case build_training_set S s (default_features rpr S) schedule (live_universe symbols) horizon price_dataset of
        Inl e \<Rightarrow> Inl e
      | Inr ts \<Rightarrow>
          let y = map sm_label (ts_samples ts);
              base = momentum_baseline_proba (lr_argsort K) 0 (design (ts_feature_names ts) (ts_samples ts)) in
          case purged_cv_auc K ts 5 (2 / 100) of
            Inl e \<Rightarrow> Inl e
          | Inr cv \<Rightarrow> Inr \<lparr>au_n_samples = length (ts_samples ts), au_forecast_cv = cv,
                            au_baseline = (if two_classes y then lr_auc K y base else NaN)\<rparr>)"

section \<open>Labels\<close>

text \<open>The training set labels a window that has only begun, where grading waits for the whole horizon.\<close>

lemma partial_horizon_is_labelled:
  assumes rows: "pn_rows (pct_change p) = past_rows @ [r]" and cut: "\<forall>x \<in> set past_rows. fst x \<le> t" "t < fst r"
    and h: "2 \<le> h" and cols: "pn_columns p \<noteq> []"
  shows "forward_returns_at p t h = [] \<and> keys (forward_return (pct_change p) t h) = pn_columns p"
proof
  have "filter (\<lambda>x. t < fst x) past_rows = []" using cut(1) by (auto simp: filter_empty_conv)
  then show "forward_returns_at p t h = []"
    using h by (simp add: forward_returns_at_def Let_def rows cut(2))
  have "filter (\<lambda>x. x \<le> t) (map fst past_rows) = map fst past_rows" using cut(1) by simp
  then have "length (filter (\<lambda>x. x \<le> t) (panel_index (pct_change p))) = length past_rows"
    using cut(2) by (simp add: panel_index_def rows)
  moreover have "pn_columns (pct_change p) = pn_columns p" by (simp add: pct_change_def Let_def)
  ultimately show "keys (forward_return (pct_change p) t h) = pn_columns p"
    using h cols by (simp add: forward_return_def Let_def rows comp_def)
qed

lemma flt_key_less: "x < y \<Longrightarrow> flt_key x < flt_key y"
  by (cases x; cases y) (simp_all add: flt_key_def less_prod_def)

lemma midpoint_above:
  assumes "flt_key a \<le> flt_key b" "fdiv (a + b) 2 < v"
  shows "a < v"
  using assms by (cases a; cases b; cases v) (auto simp: flt_key_def flt_simps less_eq_prod_def)

lemma sorted_above:
  assumes "sorted (map flt_key ys)" "k < length ys"
  shows "length (filter (\<lambda>v. ys ! k < v) ys) \<le> length ys - Suc k"
proof -
  have "filter (\<lambda>v. ys ! k < v) (take (Suc k) ys) = []"
  proof (rule filter_False, rule ballI)
    fix v assume "v \<in> set (take (Suc k) ys)"
    then obtain j where j: "j \<le> k" "v = ys ! j" using assms(2) by (auto simp: in_set_conv_nth less_Suc_eq_le)
    then have "flt_key v \<le> flt_key (ys ! k)" using sorted_nth_mono [OF assms(1), of j k] assms(2) by simp
    then show "\<not> ys ! k < v" using flt_key_less [of "ys ! k" v] by auto
  qed
  then have "filter (\<lambda>v. ys ! k < v) ys = filter (\<lambda>v. ys ! k < v) (drop (Suc k) ys)"
    by (metis append_Nil append_take_drop_id filter_append)
  then show ?thesis by (metis length_drop length_filter_le)
qed

lemma above_median: "2 * length (filter (\<lambda>v. median xs < v) xs) \<le> length xs"
proof -
  define ys where "ys = sort_key flt_key xs"
  have srt: "sorted (map flt_key ys)" and len: "length ys = length xs" by (simp_all add: ys_def)
  have count: "length (filter P xs) = length (filter P ys)" for P
    by (metis mset_filter mset_sort size_mset ys_def)
  consider "xs = []" | "odd (length xs)" | "even (length xs)" "xs \<noteq> []" by blast
  then show ?thesis
  proof cases
    case 2
    then have k: "length ys div 2 < length ys" using len by (cases xs) auto
    have "median xs = ys ! (length ys div 2)" using 2 len k
      by (cases "xs = []") (auto simp: median_def Let_def ys_def [symmetric])
    then show ?thesis using sorted_above [OF srt k] 2 len unfolding count by simp
  next
    case 3
    define k where "k = length ys div 2 - 1"
    have ev: "0 < length ys" "even (length ys)" using 3 len by simp_all
    have k: "Suc k < length ys" "2 * Suc k = length ys" using ev unfolding k_def by presburger+
    have "median xs = fdiv (ys ! k + ys ! Suc k) 2" using 3 len k ev
      by (auto simp: median_def Let_def ys_def [symmetric] k_def)
    moreover have "flt_key (ys ! k) \<le> flt_key (ys ! Suc k)" using sorted_nth_mono [OF srt, of k "Suc k"] k by simp
    ultimately have up: "ys ! k < v" if "median xs < v" for v using midpoint_above that by metis
    have "length (filter (\<lambda>v. median xs < v) ys) \<le> length (filter (\<lambda>v. ys ! k < v) ys)"
      by (rule length_filter_mono) (rule up)
    then show ?thesis using sorted_above [OF srt, of k] k len unfolding count by simp
  qed simp
qed

text \<open>The labels of one date: the members of the universe whose forward return is known, in order, provided
  there are two of them, each with 1 for a return strictly above the median of theirs.\<close>

definition labelled_names :: "constituent list \<Rightarrow> panel \<Rightarrow> nat \<Rightarrow> datetime \<Rightarrow> string list" where
  "labelled_names cons returns h d =
     filter (\<lambda>sy. dict_get NaN (forward_return returns d h) sy \<noteq> NaN) (members_on cons (dt_date d))"

definition date_labels :: "constituent list \<Rightarrow> panel \<Rightarrow> nat \<Rightarrow> datetime \<Rightarrow> (datetime \<times> string \<times> nat) list" where
  "date_labels cons returns h d =
     (let names = labelled_names cons returns h d; gain = dict_get NaN (forward_return returns d h)
      in if length names < 2 then []
         else map (\<lambda>sy. (d, sy, of_bool (median (map gain names) < gain sy))) names)"

abbreviation label_of :: "sample \<Rightarrow> datetime \<times> string \<times> nat" where
  "label_of x \<equiv> (sm_t0 x, sm_symbol x, sm_label x)"

lemma dict_of_empty: "dict_of f g xs = [] \<longleftrightarrow> xs = []"
  by (cases xs rule: rev_cases) (simp_all add: dict_of_def update_nonempty)

lemma date_samples_labels:
  assumes "date_samples S s features cons returns h d = Inr xs" "features \<noteq> []"
  shows "map label_of xs = date_labels cons returns h d" "\<forall>x \<in> set xs. sm_t1 x = sm_t0 x + days (2 * int h)"
proof -
  obtain cols where cols: "map_res (feature_column s d (members_on cons (dt_date d))) features = Inr cols"
    and m: "compute_matrix features s d (members_on cons (dt_date d))
      = Inr \<lparr>fm_symbols = members_on cons (dt_date d), fm_columns = dict_of fst snd cols\<rparr>"
    using assms(1) by (auto simp: date_samples_def compute_matrix_def split: sum.splits)
  have "length cols = length features" using map_res_InrD [OF cols] by simp
  then have "cols \<noteq> []" using assms(2) by auto
  then have cols_ne: "dict_of fst snd cols \<noteq> []" by (simp add: dict_of_empty)
  have "map label_of xs = date_labels cons returns h d \<and> (\<forall>x \<in> set xs. sm_t1 x = sm_t0 x + days (2 * int h))"
    using assms(1) m cols_ne
    by (auto simp: date_samples_def matrix_empty_def date_labels_def labelled_names_def Let_def label_time_def
        mult.commute split: if_splits sum.splits)
  then show "map label_of xs = date_labels cons returns h d" "\<forall>x \<in> set xs. sm_t1 x = sm_t0 x + days (2 * int h)" by auto
qed

lemma date_labels_half:
  "2 * length (filter (\<lambda>(d, sy, l). l = 1) (date_labels cons returns h d)) \<le> length (date_labels cons returns h d)"
proof -
  define names where "names = labelled_names cons returns h d"
  define gain where "gain = dict_get NaN (forward_return returns d h)"
  have "length (filter (\<lambda>sy. median (map gain names) < gain sy) names)
      = length (filter (\<lambda>v. median (map gain names) < v) (map gain names))"
    by (simp add: filter_map comp_def)
  then show ?thesis using above_median [of "map gain names"]
    by (simp add: date_labels_def Let_def names_def [symmetric] gain_def [symmetric] filter_map comp_def)
qed

lemma concat_half:
  assumes "\<And>x. x \<in> set xs \<Longrightarrow> 2 * length (filter P (f x)) \<le> length (f x)"
  shows "2 * length (filter P (concat (map f xs))) \<le> length (concat (map f xs))"
  using assms by (induction xs) (auto, force)

lemma training_samples:
  assumes "map_res (date_samples S s features cons returns h) ds = Inr groups" "features \<noteq> []"
  shows "map label_of (concat groups) = concat (map (date_labels cons returns h) ds)"
    "\<forall>x \<in> set (concat groups). sm_t1 x = sm_t0 x + days (2 * int h)"
  using assms(1)
proof (induction ds arbitrary: groups)
  case (Cons d ds)
  {
    case 1
    then show ?case using date_samples_labels [OF _ assms(2)] Cons.IH by (auto split: sum.splits)
  next
    case 2
    then show ?case using date_samples_labels [OF _ assms(2)] Cons.IH by (fastforce split: sum.splits)
  }
qed simp_all

text \<open>C22: what the training set of a non-empty list of features says.  It holds, date by date in the order of time, exactly
  the members of the universe on the date that have a return over the bars that follow (up to the horizon of them, as many
  as there are; a bar without a price counts as no change), when there are at least two such names; the
  label of a name is 1 if its forward return is strictly above the median of theirs and 0 if it is not, so
  at most half of all the labels are 1.  Every label is timed from its decision to twice the horizon in days later, and purged
  cross-validation accepts the intervals of any training set, for every number of folds from two.\<close>

theorem training_labels_spec:
  assumes "build_training_set S s features schedule cons h dataset = Inr ts" "features \<noteq> []"
  shows "\<exists>returns. realized_returns S s dataset ''close'' = Inr returns
    \<and> map label_of (ts_samples ts) = concat (map (date_labels cons returns h) (sort schedule))
    \<and> 2 * length (filter (\<lambda>x. sm_label x = 1) (ts_samples ts)) \<le> length (ts_samples ts)
    \<and> (\<forall>x \<in> set (ts_samples ts). sm_t1 x = sm_t0 x + days (2 * int h))
    \<and> (\<forall>array_split n e. 2 \<le> n \<longrightarrow>
         is_ok (purged_split array_split n e (map sm_t0 (ts_samples ts)) (map sm_t1 (ts_samples ts))))"
proof -
  obtain returns groups where r: "realized_returns S s dataset ''close'' = Inr returns"
    and g: "map_res (date_samples S s features cons returns h) (sort schedule) = Inr groups"
    and ts: "ts_samples ts = concat groups"
    using assms(1) by (auto simp: build_training_set_def split: sum.splits if_splits)
  note labels = training_samples [OF g assms(2), folded ts]
  have "length (filter (\<lambda>(d, sy, l). l = 1) (map label_of (ts_samples ts))) = length (filter (\<lambda>x. sm_label x = 1) (ts_samples ts))"
    by (simp add: filter_map comp_def)
  moreover have "2 * length (filter (\<lambda>(d, sy, l). l = 1) (map label_of (ts_samples ts))) \<le> length (map label_of (ts_samples ts))"
    unfolding labels(1) by (rule concat_half) (rule date_labels_half)
  ultimately have half: "2 * length (filter (\<lambda>x. sm_label x = 1) (ts_samples ts)) \<le> length (ts_samples ts)"
    by simp
  have "0 \<le> days (2 * int h)" by (simp add: days_def)
  then have timed: "map sm_t0 (ts_samples ts) ! i \<le> map sm_t1 (ts_samples ts) ! i" if "i < length (ts_samples ts)" for i
    using labels(2) nth_mem [OF that] that by simp
  then have "is_ok (purged_split array_split n e (map sm_t0 (ts_samples ts)) (map sm_t1 (ts_samples ts)))"
    if "2 \<le> n" for array_split n e
  proof -
    have "\<not> (\<exists>i < length (map sm_t0 (ts_samples ts)). map sm_t1 (ts_samples ts) ! i < map sm_t0 (ts_samples ts) ! i)"
      using timed by (force simp: not_less [symmetric])
    then show ?thesis using that by (simp add: purged_split_def Let_def)
  qed
  with r labels half show ?thesis by blast
qed

definition sample_bars :: "observation list" where
  "sample_bars = map (\<lambda>(i, sy, k, v). (new_obs k ''stooq'' price_dataset ''equity'' sy None k k
     [(''close'', PFloat (Fin v))] [])\<lparr>o_id := Uuid4 i\<rparr>)
     [(0, ''A'', 0, 10), (1, ''B'', 0, 10), (2, ''A'', us_day, 11), (3, ''B'', us_day, 12)]"

definition sample_members :: "constituent list" where
  "sample_members = map (\<lambda>s. \<lparr>co_symbol = s, co_name = s, co_added = 0, co_removed = None\<rparr>) [''A'', ''B'']"

lemma sample_training:
  "map_sum id (\<lambda>ts. map label_of (ts_samples ts))
     (build_training_set list_ops sample_bars [insider_feature (\<lambda>_. []) 90 True list_ops] [0] sample_members 1 price_dataset)
     = Inr [(0, ''A'', 0), (0, ''B'', 1)]"
  by code_simp

lemma training_labels_spec_witness:
  "\<exists>ts. build_training_set list_ops sample_bars [insider_feature (\<lambda>_. []) 90 True list_ops] [0] sample_members 1 price_dataset = Inr ts
     \<and> map label_of (ts_samples ts) = [(0, ''A'', 0), (0, ''B'', 1)]
     \<and> 2 * length (filter (\<lambda>x. sm_label x = 1) (ts_samples ts)) \<le> length (ts_samples ts)"
proof -
  obtain ts where ts: "build_training_set list_ops sample_bars [insider_feature (\<lambda>_. []) 90 True list_ops] [0] sample_members 1 price_dataset = Inr ts"
    "map label_of (ts_samples ts) = [(0, ''A'', 0), (0, ''B'', 1)]"
    using sample_training
    by (cases "build_training_set list_ops sample_bars [insider_feature (\<lambda>_. []) 90 True list_ops] [0] sample_members 1 price_dataset") auto
  from training_labels_spec [OF ts(1)] ts show ?thesis by auto
qed

end
