(* ===== verification/Replay.thy ===== *)
theory Replay
  imports Backtest Learning
begin

text \<open>
  Replays of the learning loop over history (\<open>backtest/replay.py\<close>) and the Monte-Carlo report of a return
  series (\<open>backtest/simulation.py\<close>).  The replay owns an in-memory store into which each observation is put
  once its knowledge time has arrived.  Pearson's correlation, \<open>repr\<close>, the Ledoit-Wolf estimate, NumPy's
  generator and quantile are parameters.
\<close>

section \<open>replay.py\<close>

record replay_options =
  ro_horizon_days :: nat
  ro_target_vol :: flt
  ro_limits :: risk_limits
  ro_tilt_strength :: flt
  ro_min_abs_ic :: real
  ro_costs :: costs
  ro_model_version :: string

definition default_replay :: replay_options where
  "default_replay =
     \<lparr>ro_horizon_days = 21, ro_target_vol = Fin (1 / 10), ro_limits = default_limits, ro_tilt_strength = 1,
      ro_min_abs_ic = 2 / 100, ro_costs = basic_costs default_costs, ro_model_version = ''replay''\<rparr>"

text \<open>The cursor into the sorted history is the list of the rows not yet revealed.\<close>

record replay_state =
  rs_hidden :: "observation list"
  rs_store :: mem_store
  rs_pieces :: "(datetime \<times> flt) list"
  rs_ic :: "(datetime, series) dict"
  rs_prev :: weights

definition replay_start :: "observation list \<Rightarrow> replay_state" where
  "replay_start history =
     \<lparr>rs_hidden = sort_key o_knowledge_time history, rs_store = mem_empty, rs_pieces = [], rs_ic = [], rs_prev = []\<rparr>"

definition reveal :: "datetime \<Rightarrow> replay_state \<Rightarrow> replay_state" where
  "reveal t st =
     (let chunk = takeWhile (\<lambda>x. o_knowledge_time x \<le> t) (rs_hidden st)
      in st\<lparr>rs_hidden := drop (length chunk) (rs_hidden st), rs_store := mem_add_many chunk (rs_store st)\<rparr>)"

text \<open>Grade, score with the measured coefficients, log the scores: the store, the coefficients and the ranked
  scores of one step.\<close>

definition learn_step ::
  "(flt list \<Rightarrow> flt list \<Rightarrow> flt) \<Rightarrow> (pyval \<Rightarrow> string) \<Rightarrow> datetime \<Rightarrow> replay_options \<Rightarrow> mem_store feature list
   \<Rightarrow> string list \<Rightarrow> datetime \<Rightarrow> mem_store \<Rightarrow> (mem_store \<times> series \<times> series) res" where
  "learn_step corr rpr now opts features names t s =
     (case compute_matrix features s t names of Inl e \<Rightarrow> Inl e | Inr m \<Rightarrow>
      case grade_predictions corr rpr mem_ops s t (ro_horizon_days opts) (Some (ro_model_version opts))
             (ro_min_abs_ic opts) of Inl e \<Rightarrow> Inl e | Inr g \<Rightarrow>
      let ic = gr_ic g;
          scorer = (if ic \<noteq> [] then ic_weighted_scorer corr ic (Fin (ro_min_abs_ic opts)) False
                    else composite_scorer corr False) in
      case (if matrix_empty m then Inr [] else scorer m t) of Inl e \<Rightarrow> Inl e | Inr scores \<Rightarrow>
      let ranked = drop_missing scores in
        Inr (if ranked = [] then s
             else fst (log_cycle_predictions mem_ops now ranked m t (ro_model_version opts)
                         (int (ro_horizon_days opts)) s), ic, ranked))"

text \<open>The book's daily contributions over the bars after the decision, the turnover cost on the first.\<close>

definition replay_piece ::
  "panel \<Rightarrow> datetime \<Rightarrow> datetime \<Rightarrow> weights \<Rightarrow> flt \<Rightarrow> (datetime \<times> flt) list" where
  "replay_piece full_returns t t_next w cost =
     (case map (\<lambda>r. (fst r, book_return (pn_columns full_returns) w (snd r))) (held_rows full_returns t t_next) of
        [] \<Rightarrow> []
      | (d, v) # rest \<Rightarrow> if w = [] then [] else (d, if cost \<noteq> 0 then v - cost else v) # rest)"

definition replay_step ::
  "(panel \<Rightarrow> flt list list) \<Rightarrow> (flt list \<Rightarrow> flt list \<Rightarrow> flt) \<Rightarrow> (pyval \<Rightarrow> string) \<Rightarrow> datetime \<Rightarrow> replay_options
   \<Rightarrow> mem_store feature list \<Rightarrow> string list \<Rightarrow> panel \<Rightarrow> datetime \<Rightarrow> datetime \<Rightarrow> replay_state \<Rightarrow> replay_state res" where
  "replay_step cov corr rpr now opts features names full_returns t t_next st0 =
     (let st = reveal t st0 in
      case learn_step corr rpr now opts features names t (rs_store st) of
        Inl e \<Rightarrow> Inl e
      | Inr (s, ic, ranked) \<Rightarrow>
          let w = size_book cov (panel_slice full_returns t) (ro_target_vol opts) (ro_limits opts)
                    (if 0 < ro_tilt_strength opts then Some ranked else None) (ro_tilt_strength opts) 90 None 1;
              cost = co_turnover (ro_costs opts) (rs_prev st) w
          in Inr (st\<lparr>rs_store := s, rs_ic := (if ic \<noteq> [] then dict_set t ic (rs_ic st) else rs_ic st),
                     rs_pieces := rs_pieces st @ replay_piece full_returns t t_next w cost, rs_prev := w\<rparr>))"

fun replay_loop ::
  "(panel \<Rightarrow> flt list list) \<Rightarrow> (flt list \<Rightarrow> flt list \<Rightarrow> flt) \<Rightarrow> (pyval \<Rightarrow> string) \<Rightarrow> datetime \<Rightarrow> replay_options
   \<Rightarrow> mem_store feature list \<Rightarrow> string list \<Rightarrow> panel \<Rightarrow> datetime list \<Rightarrow> replay_state \<Rightarrow> replay_state res" where
  "replay_loop cov corr rpr now opts features names full_returns [] st = Inr st"
| "replay_loop cov corr rpr now opts features names full_returns (t # ts) st =
     (case replay_step cov corr rpr now opts features names full_returns t
             (case ts of [] \<Rightarrow> last (panel_index full_returns) | u # us \<Rightarrow> u) st of
        Inl e \<Rightarrow> Inl e
      | Inr st1 \<Rightarrow> replay_loop cov corr rpr now opts features names full_returns ts st1)"

record replay_result =
  rr_equity_curve :: "(datetime \<times> flt) list"
  rr_net_returns :: "(datetime \<times> flt) list"
  rr_ic_history :: "(datetime, series) dict"
  rr_summary :: performance_summary

text \<open>pandas' \<open>cumprod\<close> skips a missing value and leaves it missing.\<close>

fun cumprod_from :: "flt \<Rightarrow> flt list \<Rightarrow> flt list" where
  "cumprod_from a [] = []"
| "cumprod_from a (x # xs) = (if x = NaN then NaN # cumprod_from a xs else a * x # cumprod_from (a * x) xs)"

definition replay_panel :: "observation list \<Rightarrow> string list \<Rightarrow> panel res" where
  "replay_panel history names =
     (case observations_to_price_frame (filter (\<lambda>x. o_dataset x = price_dataset) history) ''close'' of
        Inl e \<Rightarrow> Inl e
      | Inr p \<Rightarrow> Inr (restrict_columns (Some names) p))"

definition replay_learning ::
  "(panel \<Rightarrow> flt list list) \<Rightarrow> (flt list \<Rightarrow> flt list \<Rightarrow> flt) \<Rightarrow> (pyval \<Rightarrow> string) \<Rightarrow> datetime \<Rightarrow> replay_options
   \<Rightarrow> observation list \<Rightarrow> string list \<Rightarrow> datetime list \<Rightarrow> mem_store feature list \<Rightarrow> replay_result res" where
  "replay_learning cov corr rpr now opts history names schedule features =
     (case replay_panel history names of Inl e \<Rightarrow> Inl e | Inr full \<Rightarrow>
      if panel_empty full \<or> length schedule < 2 then Inl ValueError
      else case replay_loop cov corr rpr now opts features (sort (remdups names)) (pct_change full) (sort schedule)
                  (replay_start history) of
        Inl e \<Rightarrow> Inl e
      | Inr st \<Rightarrow>
          let net = sort_key fst (rs_pieces st) in
          if net = [] then Inl ValueError
          else Inr \<lparr>rr_equity_curve = zip (map fst net) (cumprod_from 1 (map (\<lambda>v. 1 + v) (vals net))),
                    rr_net_returns = net, rr_ic_history = sort_key fst (rs_ic st),
                    rr_summary = summarize (vals net) (Some []) trading_days 0\<rparr>)"

section \<open>simulation.py\<close>

text \<open>\<open>draws i\<close> is the generator's i-th vector of block starts: the bound and the number of draws are its
  arguments.  \<open>np.take(..., mode="wrap")\<close> reads modulo the length.\<close>

definition block_path :: "flt list \<Rightarrow> nat \<Rightarrow> nat list \<Rightarrow> flt list" where
  "block_path r block starts =
     take (length r) (concat (map (\<lambda>s. map (\<lambda>j. r ! ((s + j) mod length r)) [0..<block]) starts))"

definition block_size :: "int \<Rightarrow> nat \<Rightarrow> nat" where
  "block_size block n = nat (max 1 (min block (int n)))"

definition n_blocks :: "nat \<Rightarrow> nat \<Rightarrow> nat" where
  "n_blocks n block = nat \<lceil>real n / real block\<rceil>"

definition block_bootstrap_paths ::
  "(nat \<Rightarrow> nat \<Rightarrow> nat \<Rightarrow> nat list) \<Rightarrow> flt list \<Rightarrow> nat \<Rightarrow> int \<Rightarrow> flt list list" where
  "block_bootstrap_paths draws returns n_sims block =
     (let r = clean returns; n = length r; b = block_size block n in
      if r = [] then [] else map (\<lambda>i. block_path r b (draws i n (n_blocks n b))) [0..<n_sims])"

record simulation_report =
  sr_n_sims :: nat
  sr_total_return_q05 :: flt
  sr_total_return_q50 :: flt
  sr_total_return_q95 :: flt
  sr_max_drawdown_q05 :: flt
  sr_max_drawdown_q50 :: flt
  sr_sharpe_q50 :: flt
  sr_prob_positive :: flt

definition terminal_return :: "flt list \<Rightarrow> flt" where
  "terminal_return path = foldl (*) 1 (map (\<lambda>x. 1 + x) path) - 1"

definition monte_carlo_report ::
  "(nat \<Rightarrow> nat \<Rightarrow> nat \<Rightarrow> nat list) \<Rightarrow> (flt list \<Rightarrow> real \<Rightarrow> flt) \<Rightarrow> flt list \<Rightarrow> nat \<Rightarrow> int \<Rightarrow> nat
   \<Rightarrow> simulation_report" where
  "monte_carlo_report draws quantile returns n_sims block periods =
     (let paths = block_bootstrap_paths draws returns n_sims block in
      if paths = [] then \<lparr>sr_n_sims = 0, sr_total_return_q05 = 0, sr_total_return_q50 = 0, sr_total_return_q95 = 0,
        sr_max_drawdown_q05 = 0, sr_max_drawdown_q50 = 0, sr_sharpe_q50 = 0, sr_prob_positive = 0\<rparr>
      else
        let totals = map terminal_return paths; mdds = map max_drawdown paths;
            sharpes = map (\<lambda>p. sharpe_ratio p periods 0) paths
        in \<lparr>sr_n_sims = length paths, sr_total_return_q05 = quantile totals (5 / 100),
            sr_total_return_q50 = quantile totals (1 / 2), sr_total_return_q95 = quantile totals (95 / 100),
            sr_max_drawdown_q05 = quantile mdds (5 / 100), sr_max_drawdown_q50 = quantile mdds (1 / 2),
            sr_sharpe_q50 = quantile sharpes (1 / 2),
            sr_prob_positive = Fin (real (length (filter (\<lambda>v. 0 < v) totals)) / real (length totals))\<rparr>)"

section \<open>What a replay knows\<close>

lemma sorted_known:
  fixes f :: "'a \<Rightarrow> 'b::linorder"
  shows "sorted (map f xs) \<Longrightarrow> filter (\<lambda>x. f x \<le> d) xs = takeWhile (\<lambda>x. f x \<le> d) xs"
proof (induction xs)
  case (Cons x xs)
  have "filter (\<lambda>x. f x \<le> d) xs = []" if "\<not> f x \<le> d"
    using Cons.prems that by (auto simp: filter_empty_conv)
  then show ?case using Cons by auto
qed simp

lemma takeWhile_earlier: "t \<le> d \<Longrightarrow> takeWhile (\<lambda>x. f x \<le> t) (takeWhile (\<lambda>x. f x \<le> d) xs) = takeWhile (\<lambda>x. f x \<le> t) xs"
  for t d :: "'b::linorder"
  by (induction xs) auto

text \<open>Two replays are in step up to \<open>d\<close>: the same store and coefficients, and the same rows still to come.\<close>

definition in_step :: "datetime \<Rightarrow> replay_state \<Rightarrow> replay_state \<Rightarrow> bool" where
  "in_step d a b \<longleftrightarrow> rs_store a = rs_store b \<and> rs_ic a = rs_ic b
     \<and> sorted (map o_knowledge_time (rs_hidden a)) \<and> sorted (map o_knowledge_time (rs_hidden b))
     \<and> filter (\<lambda>x. o_knowledge_time x \<le> d) (rs_hidden a) = filter (\<lambda>x. o_knowledge_time x \<le> d) (rs_hidden b)"

lemma chunk_known:
  assumes "sorted (map o_knowledge_time xs)" "t \<le> d"
  defines "c \<equiv> takeWhile (\<lambda>x. o_knowledge_time x \<le> t) xs"
  shows "c = takeWhile (\<lambda>x. o_knowledge_time x \<le> t) (filter (\<lambda>x. o_knowledge_time x \<le> d) xs)"
    "filter (\<lambda>x. o_knowledge_time x \<le> d) xs = c @ filter (\<lambda>x. o_knowledge_time x \<le> d) (drop (length c) xs)"
    "sorted (map o_knowledge_time (drop (length c) xs))"
proof -
  show "c = takeWhile (\<lambda>x. o_knowledge_time x \<le> t) (filter (\<lambda>x. o_knowledge_time x \<le> d) xs)"
    unfolding sorted_known [OF assms(1)] takeWhile_earlier [OF assms(2)] c_def ..
  have xs: "xs = c @ drop (length c) xs" unfolding c_def by (metis dropWhile_eq_drop takeWhile_dropWhile_id)
  have "\<forall>x \<in> set c. o_knowledge_time x \<le> d" using assms(2) by (auto simp: c_def dest: set_takeWhileD)
  then show "filter (\<lambda>x. o_knowledge_time x \<le> d) xs = c @ filter (\<lambda>x. o_knowledge_time x \<le> d) (drop (length c) xs)"
    by (subst xs) simp
  show "sorted (map o_knowledge_time (drop (length c) xs))" using assms(1) by (simp flip: drop_map)
qed

lemma reveal_in_step:
  assumes "in_step d a b" "t \<le> d"
  shows "in_step d (reveal t a) (reveal t b)"
proof -
  let ?k = "filter (\<lambda>x. o_knowledge_time x \<le> d)" and ?c = "takeWhile (\<lambda>x. o_knowledge_time x \<le> t)"
  note ab = assms(1) [unfolded in_step_def]
  have sa: "sorted (map o_knowledge_time (rs_hidden a))" and sb: "sorted (map o_knowledge_time (rs_hidden b))"
    and k: "?k (rs_hidden a) = ?k (rs_hidden b)" using ab by simp_all
  have c: "?c (rs_hidden a) = ?c (rs_hidden b)"
    using chunk_known(1) [OF sa assms(2)] chunk_known(1) [OF sb assms(2)] k by simp
  have "?k (drop (length (?c (rs_hidden a))) (rs_hidden a)) = ?k (drop (length (?c (rs_hidden b))) (rs_hidden b))"
    using chunk_known(2) [OF sa assms(2)] chunk_known(2) [OF sb assms(2)] k c by simp
  then show ?thesis
    using ab c chunk_known(3) [OF sa assms(2)] chunk_known(3) [OF sb assms(2)]
    by (simp add: in_step_def reveal_def Let_def)
qed

text \<open>What a replay has learnt: its store and the coefficients measured so far, or the error it stopped with.\<close>

definition learnt :: "replay_state res \<Rightarrow> (mem_store \<times> (datetime, series) dict) res" where
  "learnt r = (case r of Inl e \<Rightarrow> Inl e | Inr st \<Rightarrow> Inr (rs_store st, rs_ic st))"

lemma step_in_step:
  assumes "in_step d a b" "t \<le> d"
  shows "case replay_step cov corr rpr now opts features names full t t_next a of
      Inl e \<Rightarrow> replay_step cov corr rpr now opts features names full' t t_next' b = Inl e
    | Inr a' \<Rightarrow> \<exists>b'. replay_step cov corr rpr now opts features names full' t t_next' b = Inr b' \<and> in_step d a' b'"
proof -
  have r: "in_step d (reveal t a) (reveal t b)" by (rule reveal_in_step [OF assms])
  then have "rs_store (reveal t a) = rs_store (reveal t b)" by (simp add: in_step_def)
  then show ?thesis
    using r by (auto simp: replay_step_def Let_def in_step_def split: sum.split prod.split)
qed

lemma loop_in_step:
  assumes "in_step d a b" "\<forall>t \<in> set ts. t \<le> d"
  shows "learnt (replay_loop cov corr rpr now opts features names full ts a)
    = learnt (replay_loop cov corr rpr now opts features names full' ts b)"
  using assms
proof (induction ts arbitrary: a b)
  case Nil
  then show ?case by (simp add: learnt_def in_step_def)
next
  case (Cons t ts)
  let ?a = "replay_step cov corr rpr now opts features names full t (next_time ts full) a"
  let ?b = "replay_step cov corr rpr now opts features names full' t (next_time ts full') b"
  have s: "case ?a of Inl e \<Rightarrow> ?b = Inl e | Inr a' \<Rightarrow> \<exists>b'. ?b = Inr b' \<and> in_step d a' b'"
    using Cons.prems by (intro step_in_step) simp_all
  show ?case
  proof (cases ?a)
    case (Inl e)
    then have "?b = Inl e" using s Cons.prems(2) by simp
    then show ?thesis using Inl by (simp add: learnt_def)
  next
    case (Inr a')
    then obtain b' where "?b = Inr b'" "in_step d a' b'" using s Cons.prems(2) by auto
    then show ?thesis using Inr Cons.IH [of a' b'] Cons.prems(2) by simp
  qed
qed

lemma start_in_step:
  assumes "filter (\<lambda>x. o_knowledge_time x \<le> d) h = filter (\<lambda>x. o_knowledge_time x \<le> d) h'"
  shows "in_step d (replay_start h) (replay_start h')"
  using assms by (simp add: in_step_def replay_start_def filter_sort)

text \<open>The store holds only rows known by \<open>d\<close>, and every observation of the history is either in it or still
  hidden, the hidden ones not known at any rebalance done so far.\<close>

definition replay_inv :: "observation list \<Rightarrow> datetime \<Rightarrow> datetime set \<Rightarrow> replay_state \<Rightarrow> bool" where
  "replay_inv h d seen st \<longleftrightarrow> mem_inv (rs_store st) \<and> (\<forall>x \<in> ran (mem_rows (rs_store st)). o_knowledge_time x \<le> d)
     \<and> sorted (map o_knowledge_time (rs_hidden st))
     \<and> (\<forall>x \<in> set h. x \<in> set (rs_hidden st) \<or> o_id x \<in> dom (mem_rows (rs_store st)))
     \<and> (\<forall>t \<in> seen. \<forall>x \<in> set (rs_hidden st). t < o_knowledge_time x)"

lemma ran_put_all: "ran (put_all xs m) \<subseteq> set xs \<union> ran m"
proof (induction xs arbitrary: m)
  case (Cons x xs)
  have "ran (m(o_id x \<mapsto> x)) \<subseteq> insert x (ran m)" by (auto simp: ran_def)
  moreover have "put_all (x # xs) m = put_all xs (m(o_id x \<mapsto> x))" by (simp add: put_all_def)
  ultimately show ?case using Cons [of "m(o_id x \<mapsto> x)"] by (simp del: fun_upd_apply) blast
qed (simp add: put_all_def)

lemma replay_inv_start: "replay_inv h d {} (replay_start h)"
  using mem_inv_empty by (simp add: replay_inv_def replay_start_def) (simp add: mem_rows_def mem_empty_def)

lemma reveal_inv:
  assumes inv: "replay_inv h d seen st" and t: "t \<le> d"
  shows "replay_inv h d (insert t seen) (reveal t st)"
proof -
  let ?c = "takeWhile (\<lambda>x. o_knowledge_time x \<le> t) (rs_hidden st)"
  let ?r = "drop (length ?c) (rs_hidden st)"
  have srt: "sorted (map o_knowledge_time (rs_hidden st))" using inv by (simp add: replay_inv_def)
  have xs: "?c @ ?r = rs_hidden st" by (metis dropWhile_eq_drop takeWhile_dropWhile_id)
  have early: "\<forall>x \<in> set ?c. o_knowledge_time x \<le> t" by (auto dest: set_takeWhileD)
  have "filter (\<lambda>x. o_knowledge_time x \<le> t) ?r = []"
    using chunk_known(2) [OF srt order_refl, of t] sorted_known [OF srt, of t] by simp
  then have late: "\<forall>x \<in> set ?r. t < o_knowledge_time x" by (auto simp: filter_empty_conv not_le)
  have rows: "mem_rows (rs_store (reveal t st)) = put_all ?c (mem_rows (rs_store st))"
    using mem_rows_upsert [of ?c "rs_store st"] by (simp add: reveal_def Let_def mem_upsert_many_def)
  have hidden: "rs_hidden (reveal t st) = ?r" by (simp add: reveal_def Let_def)
  have "x \<in> set ?r \<or> x \<in> set ?c" if "x \<in> set (rs_hidden st)" for x using that xs by (metis Un_iff set_append)
  then have "\<forall>x \<in> set h. x \<in> set ?r \<or> o_id x \<in> o_id ` set ?c \<union> dom (mem_rows (rs_store st))"
    using inv unfolding replay_inv_def by blast
  moreover have "\<forall>x \<in> ran (put_all ?c (mem_rows (rs_store st))). o_knowledge_time x \<le> d"
    using ran_put_all [of ?c] early t inv unfolding replay_inv_def by force
  moreover have "\<forall>u \<in> seen. \<forall>x \<in> set ?r. u < o_knowledge_time x"
    using inv in_set_dropD unfolding replay_inv_def by metis
  moreover have "mem_inv (rs_store (reveal t st))"
    using inv mem_inv_upsert [of "rs_store st" ?c] by (simp add: replay_inv_def reveal_def Let_def mem_upsert_many_def)
  ultimately show ?thesis
    using late chunk_known(3) [OF srt order_refl, of t] unfolding replay_inv_def rows hidden dom_put_all by simp
qed

lemma log_rows:
  "\<exists>ps. mem_rows (fst (log_cycle_predictions mem_ops now scores m t mv h s)) = put_all ps (mem_rows s)
     \<and> (\<forall>x \<in> set ps. o_knowledge_time x = t)
     \<and> (mem_inv s \<longrightarrow> mem_inv (fst (log_cycle_predictions mem_ops now scores m t mv h s)))"
proof (cases "filter (\<lambda>(sy, v). v \<noteq> NaN) scores = []")
  case True
  then show ?thesis by (intro exI [of _ "[]"]) (simp add: log_cycle_predictions_def put_all_def)
next
  case False
  let ?ranked = "filter (\<lambda>(sy, v). v \<noteq> NaN) scores"
  let ?ps = "map (prediction_observation now) (map (cycle_prediction ?ranked m t mv h) (keys ?ranked))"
  have "fst (log_cycle_predictions mem_ops now scores m t mv h s) = mem_upsert_many ?ps s"
    using False by (simp add: log_cycle_predictions_def log_predictions_def Let_def mem_ops_def)
  then show ?thesis
    by (intro exI [of _ ?ps]) (simp only: mem_rows_upsert, auto simp: cycle_prediction_def intro: mem_inv_upsert)
qed

lemma learn_step_rows:
  assumes "learn_step corr rpr now opts features names t s = Inr (s', ic, ranked)"
  shows "\<exists>ps. mem_rows s' = put_all ps (mem_rows s) \<and> (\<forall>x \<in> set ps. o_knowledge_time x = t)
    \<and> (mem_inv s \<longrightarrow> mem_inv s')"
proof -
  obtain m where "s' = (if ranked = [] then s else fst (log_cycle_predictions mem_ops now ranked m t
      (ro_model_version opts) (int (ro_horizon_days opts)) s))"
    using assms by (auto simp: learn_step_def Let_def split: sum.splits)
  moreover have "\<exists>ps. mem_rows s = put_all ps (mem_rows s) \<and> (\<forall>x \<in> set ps. o_knowledge_time x = t)"
    by (intro exI [of _ "[]"]) (simp add: put_all_def)
  ultimately show ?thesis by (cases "ranked = []") (simp_all add: log_rows)
qed

lemma replay_step_inv:
  assumes inv: "replay_inv h d seen st" and t: "t \<le> d"
    and step: "replay_step cov corr rpr now opts features names full t t_next st = Inr st'"
  shows "replay_inv h d (insert t seen) st'"
proof -
  let ?r = "reveal t st"
  obtain s ic ranked where l: "learn_step corr rpr now opts features names t (rs_store ?r) = Inr (s, ic, ranked)"
    using step by (auto simp: replay_step_def Let_def split: sum.splits)
  then have st': "rs_store st' = s" "rs_hidden st' = rs_hidden ?r" using step by (auto simp: replay_step_def Let_def)
  obtain ps where ps: "mem_rows s = put_all ps (mem_rows (rs_store ?r))" "\<forall>x \<in> set ps. o_knowledge_time x = t"
    and wf: "mem_inv (rs_store ?r) \<Longrightarrow> mem_inv s"
    using learn_step_rows [OF l] by blast
  have r: "replay_inv h d (insert t seen) ?r" by (rule reveal_inv [OF inv t])
  have "o_knowledge_time x \<le> d" if "x \<in> ran (put_all ps (mem_rows (rs_store ?r)))" for x
    using subsetD [OF ran_put_all that] ps(2) t r by (auto simp: replay_inv_def)
  then show ?thesis using r wf unfolding replay_inv_def st' ps(1) dom_put_all by blast
qed

lemma replay_loop_inv:
  assumes "replay_inv h d seen st" "\<forall>t \<in> set ts. t \<le> d"
    and "replay_loop cov corr rpr now opts features names full ts st = Inr st'"
  shows "replay_inv h d (seen \<union> set ts) st'"
  using assms
proof (induction ts arbitrary: st seen)
  case (Cons t ts)
  obtain st1 where st1: "replay_step cov corr rpr now opts features names full t (next_time ts full) st = Inr st1"
    "replay_loop cov corr rpr now opts features names full ts st1 = Inr st'"
    using Cons.prems(3) by (auto split: sum.splits)
  have "replay_inv h d (insert t seen) st1"
    using Cons.prems(2) by (intro replay_step_inv [OF Cons.prems(1) _ st1(1)]) simp
  from Cons.IH [OF this _ st1(2)] Cons.prems(2) show ?case by simp
qed simp

lemma read_at_infinity:
  assumes "\<forall>x \<in> ran (mem_rows s). o_knowledge_time x \<le> d" "mem_inv s" "d \<le> k"
  shows "mem_as_of s k q = mem_as_of s d q"
proof -
  have "filter (visible k q) (vals (mem_obs s)) = filter (visible d q) (vals (mem_obs s))"
    using assms(1,3) mem_vals_ran [OF assms(2)] by (intro filter_cong) (auto simp: visible_def)
  then show ?thesis by (simp add: mem_as_of_read read_rows_def)
qed

text \<open>C7: a replay reveals exactly the past.  After rebalances that end at \<open>d\<close> its store holds every observation
  of the history known by then (under its id) and no row known later, so the prices that grading reads
  without a time bound are the prices known at \<open>d\<close>.\<close>

theorem replay_reveals_exactly_the_past:
  assumes "replay_loop cov corr rpr now opts features names full ts (replay_start h) = Inr st"
    and "d \<in> set ts" "\<forall>t \<in> set ts. t \<le> d"
  shows "(\<forall>x \<in> set h. o_knowledge_time x \<le> d \<longrightarrow> o_id x \<in> dom (mem_rows (rs_store st)))
    \<and> (\<forall>x \<in> ran (mem_rows (rs_store st)). o_knowledge_time x \<le> d)
    \<and> (\<forall>k q. d \<le> k \<longrightarrow> mem_as_of (rs_store st) k q = mem_as_of (rs_store st) d q)"
proof -
  have inv: "replay_inv h d ({} \<union> set ts) st" by (rule replay_loop_inv [OF replay_inv_start assms(3,1)])
  then have known: "\<forall>x \<in> ran (mem_rows (rs_store st)). o_knowledge_time x \<le> d" and wf: "mem_inv (rs_store st)"
    by (simp_all add: replay_inv_def)
  have "o_id x \<in> dom (mem_rows (rs_store st))" if "x \<in> set h" "o_knowledge_time x \<le> d" for x
    using inv that assms(2) unfolding replay_inv_def by (metis UnI2 linorder_not_less)
  then show ?thesis using known read_at_infinity [OF known wf] by blast
qed

text \<open>C6: a replay learns from the past only.  Two histories that hold the same observations known by a time
  leave the replay, after any rebalances up to that time, with the same store and the same
  measured coefficients (or the same error): what is revealed later, and the panel the returns are
  taken from, cannot change what is graded, how the scores are weighted or what is logged.\<close>

theorem replay_learns_from_the_past:
  assumes "\<forall>t \<in> set ts. t \<le> d"
    and "filter (\<lambda>x. o_knowledge_time x \<le> d) h = filter (\<lambda>x. o_knowledge_time x \<le> d) h'"
  shows "learnt (replay_loop cov corr rpr now opts features names full ts (replay_start h))
    = learnt (replay_loop cov corr rpr now opts features names full' ts (replay_start h'))"
  by (rule loop_in_step [OF start_in_step [OF assms(2)] assms(1)])

definition replay_price :: "string \<Rightarrow> datetime \<Rightarrow> real \<Rightarrow> observation" where
  "replay_price sy t v =
     with_deterministic_id (new_obs 0 ''stooq'' price_dataset ''equity'' sy None t t [(''close'', PFloat (Fin v))] [])"

definition replay_history :: "observation list" where
  "replay_history = map (\<lambda>t. replay_price ''A'' t (real_of_int t)) [1, 2, 3, 4]"

definition replayed :: "observation list \<Rightarrow> replay_state res" where
  "replayed h = replay_loop (\<lambda>_. []) (\<lambda>_ _. NaN) (\<lambda>_. []) 0 default_replay [momentum_feature 2 0 mem_ops] [''A'']
     \<lparr>pn_columns = [''A''], pn_rows = []\<rparr> [3] (replay_start h)"

definition replay_known :: mem_store where
  "replay_known = rs_store (reveal 3 (replay_start replay_history))"

lemma replay_known_reads:
  "compute_matrix [momentum_feature 2 0 mem_ops] replay_known 3 [''A'']
     = Inr \<lparr>fm_symbols = [''A''], fm_columns = [(''mom_2'', [Fin 2])]\<rparr>"
  "load_predictions (\<lambda>_. []) mem_ops replay_known 3 (Some ''replay'') = Inr []"
  "is_ok (store_panel mem_ops replay_known DISTANT_FUTURE price_dataset ''close'')"
  by code_simp+

lemma replay_first_grade:
  "grade_predictions corr (\<lambda>_. []) mem_ops replay_known 3 h (Some ''replay'') r
     = Inr \<lparr>gr_n = 0, gr_brier = 0, gr_hit_rate = 0, gr_ic = [], gr_kept = [], gr_pruned = []\<rparr>"
  using replay_known_reads(3)
  by (auto simp: grade_predictions_def replay_known_reads(2) graded_predictions_def Let_def group_by_def split: sum.split)

lemma replayed_ok: "\<exists>st. replayed replay_history = Inr st"
  unfolding replayed_def
  by (simp add: replay_step_def learn_step_def Let_def replay_known_def [symmetric] replay_known_reads(1) default_replay_def
      replay_first_grade composite_scorer_def)

lemma before_end: "3 \<le> DISTANT_FUTURE"
  by code_simp

lemma replay_reveals_exactly_the_past_witness:
  "\<exists>st. replayed replay_history = Inr st \<and> o_id (replay_price ''A'' 2 2) \<in> dom (mem_rows (rs_store st))
     \<and> mem_as_of (rs_store st) DISTANT_FUTURE q_all = mem_as_of (rs_store st) 3 q_all"
proof -
  obtain st where st: "replayed replay_history = Inr st" using replayed_ok by blast
  note run = st [unfolded replayed_def]
  have last: "3 \<in> set [3::datetime]" "\<forall>t \<in> set [3::datetime]. t \<le> 3" by simp_all
  note r = replay_reveals_exactly_the_past [OF run last]
  have "replay_price ''A'' 2 2 \<in> set replay_history" by (simp add: replay_history_def)
  moreover have "o_knowledge_time (replay_price ''A'' 2 2) \<le> 3" by (simp add: replay_price_def)
  ultimately have "o_id (replay_price ''A'' 2 2) \<in> dom (mem_rows (rs_store st))" using r by blast
  moreover have "mem_as_of (rs_store st) DISTANT_FUTURE q_all = mem_as_of (rs_store st) 3 q_all"
    using r before_end by blast
  ultimately show ?thesis using st by blast
qed

lemma replay_learns_from_the_past_witness:
  "learnt (replayed replay_history) = learnt (replayed (map (\<lambda>t. replay_price ''A'' t (real_of_int t)) [1, 2, 3]))
   \<and> is_ok (replayed replay_history)"
proof
  show "learnt (replayed replay_history) = learnt (replayed (map (\<lambda>t. replay_price ''A'' t (real_of_int t)) [1, 2, 3]))"
    unfolding replayed_def
    by (rule replay_learns_from_the_past [where d = 3]) (simp_all add: replay_history_def replay_price_def)
  show "is_ok (replayed replay_history)" using replayed_ok by auto
qed

text \<open>The returns the book is sized on are read from the whole history at once: a name whose first price is still to
  come is a column already, and is bought.\<close>

lemma unlisted_name_is_booked:
  "\<exists>p. replay_panel [replay_price ''A'' 1 1, replay_price ''A'' 2 2, replay_price ''B'' 5 1] [''A'', ''B''] = Inr p
     \<and> size_book cov (panel_slice (pct_change p) 2) tv default_limits None 0 90 None 1
         = [(''A'', Fin (1 / 10)), (''B'', Fin (1 / 10))]"
proof -
  let ?p = "\<lparr>pn_columns = [''A'', ''B''], pn_rows = [(1, [Fin 1, NaN]), (2, [Fin 2, NaN]), (5, [NaN, Fin 1])]\<rparr>"
  have p: "replay_panel [replay_price ''A'' 1 1, replay_price ''A'' 2 2, replay_price ''B'' 5 1] [''A'', ''B''] = Inr ?p"
    by code_simp
  have limits: "apply_risk_limits [(''A'', Fin (1 / 2)), (''B'', Fin (1 / 2))] default_limits None
      = [(''A'', Fin (1 / 10)), (''B'', Fin (1 / 10))]"
    by code_simp
  have window: "length (pn_rows (clean_window 90 (panel_slice (pct_change ?p) 2))) < 20" by code_simp
  have "filter (\<lambda>(k, y). not_tiny y) (map_vals (\<lambda>v. v * py_max (Fin 0) (Fin 1)) [(''A'', Fin (1 / 2)), (''B'', Fin (1 / 2))])
      = [(''A'', Fin (1 / 2)), (''B'', Fin (1 / 2))]"
    by code_simp
  then have "size_book cov (panel_slice (pct_change ?p) 2) tv default_limits None 0 90 None 1
      = [(''A'', Fin (1 / 10)), (''B'', Fin (1 / 10))]"
    using window limits by (simp add: size_book_def Let_def tilt_weights_def panel_slice_def pct_change_def flt_consts)
  then show ?thesis using p by blast
qed

section \<open>Resampled paths\<close>

lemma concat_blocks_nth:
  assumes "0 < b" "\<And>s. length (g s) = b" "i < b * length ss"
  shows "concat (map g ss) ! i = g (ss ! (i div b)) ! (i mod b)"
  using assms(3)
proof (induction ss arbitrary: i)
  case (Cons s ss)
  show ?case
  proof (cases "i < b")
    case False
    then have "i div b = Suc ((i - b) div b)" "i mod b = (i - b) mod b"
      using assms(1) by (simp_all add: le_div_geq le_mod_geq not_less)
    then show ?thesis using Cons.IH [of "i - b"] Cons.prems False assms(2) by (simp add: nth_append)
  qed (simp add: assms(2) nth_append)
qed simp

lemma enough_blocks: "0 < b \<Longrightarrow> n \<le> b * n_blocks n b"
proof -
  assume b: "0 < b"
  have "real n / real b \<le> real (n_blocks n b)" by (simp add: n_blocks_def)
  then have "real n \<le> real (b * n_blocks n b)" using b by (simp add: pos_divide_le_eq mult.commute)
  then show ?thesis by linarith
qed

text \<open>The block bootstrap keeps its blocks.  Each simulated path is as long as the cleaned history, and its
  value on day \<open>i\<close> is the history's value \<open>i mod b\<close> days after the start drawn for block \<open>i div b\<close>, wrapping round
  at the end; the block size \<open>b\<close> is the requested one clamped to the history, and there are always
  enough blocks to fill a path.\<close>

theorem bootstrap_keeps_blocks:
  fixes block :: int
  assumes "\<And>i n k. length (draws i n k) = k" and "p < n_sims" "i < length (clean returns)"
  defines "n \<equiv> length (clean returns)"
  defines "b \<equiv> block_size block n"
  defines "path \<equiv> block_bootstrap_paths draws returns n_sims block ! p"
  shows "length path = n \<and> 1 \<le> b \<and> b \<le> n
    \<and> path ! i = clean returns ! ((draws p n (n_blocks n b) ! (i div b) + i mod b) mod n)"
proof -
  have b: "1 \<le> b" "b \<le> n" using assms(3) by (auto simp: b_def n_def block_size_def)
  let ?ss = "draws p n (n_blocks n b)"
  let ?g = "\<lambda>s. map (\<lambda>j. clean returns ! ((s + j) mod n)) [0..<b]"
  have path: "path = take n (concat (map ?g ?ss))"
    using assms(2,3) by (auto simp: path_def block_bootstrap_paths_def Let_def block_path_def n_def b_def)
  have len: "length (concat (map ?g ?ss)) = b * n_blocks n b"
    using assms(1) by (simp add: length_concat comp_def sum_list_triv)
  have enough: "n \<le> b * n_blocks n b" using b by (intro enough_blocks) simp
  have "i < b * length ?ss" using enough assms(1,3) by (simp add: n_def)
  then have "concat (map ?g ?ss) ! i = ?g (?ss ! (i div b)) ! (i mod b)"
    using b by (intro concat_blocks_nth) simp_all
  then show ?thesis using path len enough b assms(3) by (simp add: n_def)
qed

lemma bootstrap_keeps_blocks_witness:
  "block_bootstrap_paths (\<lambda>_ _ k. replicate k 2) [Fin 5, NaN, Fin 6, Fin 7] 3 2 ! 2 ! 2 = Fin 7"
proof -
  have c: "clean [Fin 5, NaN, Fin 6, Fin 7] = [Fin 5, Fin 6, Fin 7]" by (simp add: clean_def)
  have b: "block_size 2 (Suc (Suc (Suc 0))) = 2" "n_blocks (Suc (Suc (Suc 0))) 2 = 2"
    by (simp_all add: block_size_def n_blocks_def)
  show ?thesis
    using bootstrap_keeps_blocks [of "\<lambda>_ _ k. replicate k 2" 2 3 2 "[Fin 5, NaN, Fin 6, Fin 7]" 2] by (simp add: c b)
qed

end
