(* ===== verification/Desk.thy ===== *)
theory Desk
  imports Forecast Reasoning
begin

text \<open>
  What the desk reads: the dashboard data (\<open>presentation/dashboard_data.py\<close>), the daily briefing
  (\<open>reasoning/briefing.py\<close>), the watchlist with its case against (\<open>synthesis.py\<close>), the self-evaluation
  (\<open>runtime/evaluation.py\<close>) and the news feed of the news sleeve (\<open>collectors/news_feed.py\<close>).  \<open>fmt spec x\<close> is
  Python's \<open>format\<close> of a float, \<open>rpr\<close> its \<open>repr\<close> of what is not a string.
\<close>

section \<open>dashboard_data.py\<close>

record dashboard_data =
  db_as_of :: datetime
  db_watchlist :: "string list"
  db_latest_prices :: "(string, flt) dict"
  db_recent_insider :: "payload list"
  db_recent_congress :: "payload list"
  db_recent_news :: "payload list"
  db_macro :: "(string, flt) dict"

definition summarise :: "string list \<Rightarrow> observation \<Rightarrow> payload" where
  "summarise names x =
     [(''entity_id'', PStr (o_entity_id x)), (''event_date'', PStr (date_iso (dt_date (o_event_time x)))),
      (''knowledge_date'', PStr (date_iso (dt_date (o_knowledge_time x))))]
     @ map (\<lambda>k. (k, pget (o_value x) k)) names"

text \<open>\<open>xs[-limit:]\<close>: a limit of 0 keeps everything.\<close>

definition last_items :: "int \<Rightarrow> 'a list \<Rightarrow> 'a list" where
  "last_items limit xs = (if 0 < limit then tail_of (nat limit) xs else drop (nat (- limit)) xs)"

definition latest_field :: "string \<Rightarrow> observation list \<Rightarrow> (string, flt) dict res" where
  "latest_field field_name obs =
     (case collect_res (\<lambda>x. if is_none (pget (o_value x) field_name) then Inr None
              else case to_float (pget (o_value x) field_name) of
                     Inl e \<Rightarrow> Inl e | Inr v \<Rightarrow> Inr (Some (o_entity_id x, v))) obs of
        Inl e \<Rightarrow> Inl e | Inr kvs \<Rightarrow> Inr (dict_of fst snd kvs))"

definition recent_items ::
  "'s store_ops \<Rightarrow> 's \<Rightarrow> datetime \<Rightarrow> int \<Rightarrow> string \<Rightarrow> string list \<Rightarrow> payload list" where
  "recent_items S s as_of limit dataset names =
     last_items limit (map (summarise names) (st_as_of S s as_of (q_of_dataset dataset)))"

definition build_dashboard_data ::
  "'s store_ops \<Rightarrow> 's \<Rightarrow> datetime \<Rightarrow> constituent list \<Rightarrow> int \<Rightarrow> dashboard_data res" where
  "build_dashboard_data S s as_of cons limit =
     (case latest_field ''close'' (st_as_of S s as_of (q_of_dataset price_dataset)) of Inl e \<Rightarrow> Inl e | Inr prices \<Rightarrow>
      case latest_field ''value'' (st_as_of S s as_of (q_of_dataset fred_dataset)) of Inl e \<Rightarrow> Inl e | Inr macro \<Rightarrow>
        Inr \<lparr>db_as_of = as_of, db_watchlist = members_on cons (dt_date as_of), db_latest_prices = prices,
             db_recent_insider = recent_items S s as_of limit form4_dataset
               [''transaction_code'', ''is_purchase'', ''insider_name''],
             db_recent_congress = recent_items S s as_of limit congress_dataset
               [''transaction_type'', ''representative'', ''amount_high''],
             db_recent_news = recent_items S s as_of limit news_dataset [''title'', ''tone'', ''source''],
             db_macro = macro\<rparr>)"

section \<open>briefing.py\<close>

record top_signal =
  tg_symbol :: string
  tg_score :: flt
  tg_features :: payload

record briefing_context =
  bc_as_of :: datetime
  bc_regime :: regime
  bc_top_signals :: "top_signal list"
  bc_insider :: "payload list"
  bc_congress :: "payload list"
  bc_news :: "payload list"

definition mean_zscore :: "feature_matrix \<Rightarrow> (string, flt) dict" where
  "mean_zscore m =
     (let z = map cross_sectional_zscore (vals (fm_columns m))
      in map (\<lambda>(i, s). (s, series_mean (map (\<lambda>col. col ! i) z))) (enumerate 0 (fm_symbols m)))"

definition top_signal_of :: "feature_matrix \<Rightarrow> string \<times> flt \<Rightarrow> top_signal" where
  "top_signal_of m kv =
     \<lparr>tg_symbol = fst kv, tg_score = flt_round_digits 3 (snd kv),
      tg_features = map (\<lambda>(c, v). (c, if v = NaN then PNone else PFloat (flt_round_digits 4 v)))
        (feature_row_of m (fst kv))\<rparr>"

definition build_briefing_context ::
  "(series \<Rightarrow> series) \<Rightarrow> (pyval \<Rightarrow> string) \<Rightarrow> 's store_ops \<Rightarrow> 's \<Rightarrow> datetime \<Rightarrow> 's feature list option
   \<Rightarrow> constituent list \<Rightarrow> int \<Rightarrow> briefing_context res" where
  "build_briefing_context desc rpr S s as_of features cons top_n =
     (case build_dashboard_data S s as_of cons 25 of Inl e \<Rightarrow> Inl e | Inr dash \<Rightarrow>
      let fs = (case features of Some f \<Rightarrow> f | None \<Rightarrow> default_features rpr S) in
      case compute_matrix fs s as_of (db_watchlist dash) of Inl e \<Rightarrow> Inl e | Inr m \<Rightarrow>
      case macro_regime S s as_of of Inl e \<Rightarrow> Inl e | Inr reg \<Rightarrow>
        Inr \<lparr>bc_as_of = as_of, bc_regime = reg,
             bc_top_signals = (if matrix_empty m \<or> db_watchlist dash = [] then []
               else map (top_signal_of m) (py_head top_n (desc (drop_missing (mean_zscore m))))),
             bc_insider = db_recent_insider dash, bc_congress = db_recent_congress dash,
             bc_news = db_recent_news dash\<rparr>)"

definition em_dash :: string where "em_dash = [CHR 0x97]"

definition slope_text :: "(pyval \<Rightarrow> string) \<Rightarrow> regime \<Rightarrow> string" where
  "slope_text rpr r = (case rg_slope r of None \<Rightarrow> ''None'' | Some v \<Rightarrow> rpr (PFloat v))"

definition signal_line :: "(pyval \<Rightarrow> string) \<Rightarrow> top_signal \<Rightarrow> string" where
  "signal_line rpr g =
     ''- **'' @ tg_symbol g @ ''** (score '' @ rpr (PFloat (tg_score g)) @ ''): ''
     @ join '', '' (map (\<lambda>(k, v). k @ ''='' @ py_str rpr v) (tg_features g))"

definition render_brief_markdown :: "(pyval \<Rightarrow> string) \<Rightarrow> briefing_context \<Rightarrow> string" where
  "render_brief_markdown rpr c =
     (let item = (\<lambda>d k. py_str rpr (pget d k)) in
      join nl
       ([''# Pre-market briefing '' @ em_dash @ '' '' @ date_iso (dt_date (bc_as_of c)), [],
         ''**Regime:** '' @ rg_label (bc_regime c) @ '' (yield-curve slope: '' @ slope_text rpr (bc_regime c) @ '')'',
         [], ''## Top signals (composite z-score)'']
        @ (if bc_top_signals c = [] then [''- (insufficient data for ranking)'']
           else map (signal_line rpr) (bc_top_signals c))
        @ [[], ''## Flow'', ''- Insider (Form 4) items: '' @ nat_str (length (bc_insider c)),
           ''- Congressional items: '' @ nat_str (length (bc_congress c))]
        @ map (\<lambda>d. ''  - '' @ item d ''entity_id'' @ '': '' @ item d ''transaction_type'' @ '' by ''
                 @ item d ''representative'') (take 5 (bc_congress c))
        @ [[], ''## News'']
        @ (if bc_news c = [] then [''- (none)'']
           else map (\<lambda>d. ''- '' @ item d ''entity_id'' @ '': '' @ item d ''title'' @ '' (tone '' @ item d ''tone'' @ '')'')
                  (take 5 (bc_news c)))
        @ [[], ''_Decision-support only. Not financial advice. Signals are inputs to judgement._'']))"

definition brief_request :: "(pyval \<Rightarrow> string) \<Rightarrow> briefing_context \<Rightarrow> nat \<Rightarrow> request" where
  "brief_request rpr c max_tokens =
     \<lparr>rq_system = OtherSystem ''briefing'',
      rq_prompt = ''Here is today's point-in-time data block. Write a concise per-name thesis '' @
        ''for the top signals, each with catalysts, risks, and the case against.'' @ nl @ nl @ render_brief_markdown rpr c,
      rq_max_tokens = max_tokens\<rparr>"

definition generate_llm_brief ::
  "(pyval \<Rightarrow> string) \<Rightarrow> briefing_context \<Rightarrow> 'p provider \<Rightarrow> nat \<Rightarrow> 'p \<Rightarrow> 'p \<times> string res" where
  "generate_llm_brief rpr c ask max_tokens p = ask (brief_request rpr c max_tokens) p"

section \<open>synthesis.py\<close>

record recommendation =
  rc_symbol :: string
  rc_quant_score :: flt
  rc_confidence :: flt
  rc_events :: "string list"
  rc_analog :: "analog_outcomes option"
  rc_case_against :: string

definition confidence_of :: "flt \<Rightarrow> analog_outcomes option \<Rightarrow> flt" where
  "confidence_of score a =
     (let base = py_min 1 (fdiv \<bar>score\<bar> 2) in
      flt_round_digits 3
        (case a of
           Some x \<Rightarrow> if 0 < ao_n x
             then base * (if 0 < score then ao_share_positive x else 1 - ao_share_positive x) else base
         | None \<Rightarrow> base))"

definition analog_case :: "(pyval \<Rightarrow> string) \<Rightarrow> flt \<Rightarrow> analog_outcomes option \<Rightarrow> string list" where
  "analog_case rpr score a =
     (case a of None \<Rightarrow> []
      | Some x \<Rightarrow>
          if ao_n x = 0 then []
          else let share = ao_share_positive x in
            (if (0 < score \<and> share < Fin (6 / 10)) \<or> (score < 0 \<and> Fin (4 / 10) < share)
             then [''analogs disagree ('' @ int_str (trunc (flt_val share * 100)) @ ''% resolved positive)''] else [])
            @ (if ao_q10 x < 0 then [''downside tail q10='' @ rpr (PFloat (flt_round_digits 3 (ao_q10 x)))] else []))"

definition case_against :: "(pyval \<Rightarrow> string) \<Rightarrow> flt \<Rightarrow> analog_outcomes option \<Rightarrow> string list \<Rightarrow> string" where
  "case_against rpr score a events =
     (let parts = analog_case rpr score a
            @ (if events = [] then [''no corroborating events''] else [])
            @ (if \<bar>score\<bar> < Fin (1 / 2) then [''weak signal magnitude''] else [])
      in if parts = [] then ''no major disconfirming evidence found'' else join ''; '' parts)"

definition events_by_entity :: "event list \<Rightarrow> (string, string list) dict" where
  "events_by_entity es = map_vals (map (event_text \<circ> ev_type)) (group_by ev_entity_id es)"

definition recall_for ::
  "recall_order \<Rightarrow> (flt list \<Rightarrow> real \<Rightarrow> flt) \<Rightarrow> episode list option \<Rightarrow> (string, flt list) dict option \<Rightarrow> string
   \<Rightarrow> analog_outcomes option res" where
  "recall_for mixed quantile memory vectors sy =
     (case (memory, Option.bind vectors (\<lambda>d. map_of d sy)) of
        (Some mem, Some q) \<Rightarrow> (case analog_distribution mixed quantile mem q 10 None None of
           Inl e \<Rightarrow> Inl e | Inr a \<Rightarrow> Inr (Some a))
      | _ \<Rightarrow> Inr None)"

definition recommend ::
  "recall_order \<Rightarrow> (flt list \<Rightarrow> real \<Rightarrow> flt) \<Rightarrow> (pyval \<Rightarrow> string) \<Rightarrow> episode list option \<Rightarrow> (string, flt list) dict option
   \<Rightarrow> (string, string list) dict \<Rightarrow> string \<times> flt \<Rightarrow> recommendation res" where
  "recommend mixed quantile rpr memory vectors by_entity kv =
     (let (sy, score) = kv; events = dict_get [] by_entity sy in
      case recall_for mixed quantile memory vectors sy of
        Inl e \<Rightarrow> Inl e
      | Inr a \<Rightarrow> Inr \<lparr>rc_symbol = sy, rc_quant_score = flt_round_digits 4 score, rc_confidence = confidence_of score a,
                      rc_events = events, rc_analog = a, rc_case_against = case_against rpr score a events\<rparr>)"

definition synthesize_watchlist ::
  "(series \<Rightarrow> series) \<Rightarrow> recall_order \<Rightarrow> (flt list \<Rightarrow> real \<Rightarrow> flt) \<Rightarrow> (pyval \<Rightarrow> string) \<Rightarrow> 's store_ops \<Rightarrow> 's \<Rightarrow> datetime \<Rightarrow> series
   \<Rightarrow> episode list option \<Rightarrow> (string, flt list) dict option \<Rightarrow> int \<Rightarrow> recommendation list res" where
  "synthesize_watchlist desc mixed quantile rpr S s as_of scores memory vectors top_n =
     map_res (recommend mixed quantile rpr memory vectors (events_by_entity (detect_events S s as_of 3 30)))
       (py_head top_n (desc (drop_missing scores)))"

section \<open>news_feed.py\<close>

definition timespan_for :: "int \<Rightarrow> string" where
  "timespan_for lookback_minutes = int_str (max 15 lookback_minutes) @ ''min''"

definition gdelt_feed ::
  "(string list \<Rightarrow> string \<Rightarrow> 'w \<Rightarrow> news_article list \<times> 'w) \<Rightarrow> datetime \<Rightarrow> string list \<Rightarrow> int \<Rightarrow> 'w
   \<Rightarrow> observation list \<times> 'w" where
  "gdelt_feed fetch_for_symbols now symbols lookback_minutes w =
     (let (articles, w1) = fetch_for_symbols symbols (timespan_for lookback_minutes) w
      in (normalize_news now articles, w1))"

section \<open>evaluation.py: the journal\<close>

record journal_entry =
  je_symbol :: string
  je_as_of :: datetime
  je_probability :: flt
  je_realized_return :: flt
  je_won :: bool
  je_regime :: string
  je_features :: "(string, flt) dict"

record regime_stats =
  rt_name :: string
  rt_n :: nat
  rt_hit_rate :: flt
  rt_mean_return :: flt
  rt_ic :: "(string, flt) dict"

record attribution_report =
  at_n :: nat
  at_hit_rate :: flt
  at_mean_return :: flt
  at_ic :: "(string, flt) dict"
  at_by_regime :: "regime_stats list"

definition journal_entries :: "string \<Rightarrow> datetime \<Rightarrow> (string, flt) dict \<Rightarrow> prediction list \<Rightarrow> journal_entry list" where
  "journal_entries label t forward preds =
     List.map_filter (\<lambda>p. case map_of forward (pr_symbol p) of
         None \<Rightarrow> None
       | Some r \<Rightarrow> if r = NaN then None
           else Some \<lparr>je_symbol = pr_symbol p, je_as_of = t, je_probability = pr_probability p, je_realized_return = r,
                      je_won = (0 < r), je_regime = label, je_features = pr_features p\<rparr>) preds"

definition journal_group ::
  "'s store_ops \<Rightarrow> 's \<Rightarrow> panel \<Rightarrow> nat \<Rightarrow> datetime \<times> prediction list \<Rightarrow> journal_entry list res" where
  "journal_group S s p horizon tg =
     (let forward = (if panel_empty p then [] else forward_returns_at p (fst tg) horizon) in
      if forward = [] then Inr []
      else case macro_regime S s (fst tg) of
        Inl e \<Rightarrow> Inl e | Inr r \<Rightarrow> Inr (journal_entries (rg_label r) (fst tg) forward (snd tg)))"

definition build_trade_journal ::
  "(pyval \<Rightarrow> string) \<Rightarrow> 's store_ops \<Rightarrow> 's \<Rightarrow> datetime \<Rightarrow> string \<Rightarrow> nat \<Rightarrow> journal_entry list res" where
  "build_trade_journal rpr S s as_of model_version horizon =
     (case load_predictions rpr S s as_of (Some model_version) of Inl e \<Rightarrow> Inl e | Inr preds \<Rightarrow>
      case store_panel S s DISTANT_FUTURE price_dataset ''close'' of Inl e \<Rightarrow> Inl e | Inr p \<Rightarrow>
      case map_res (journal_group S s p horizon) (group_by pr_as_of preds) of
        Inl e \<Rightarrow> Inl e | Inr gs \<Rightarrow> Inr (concat gs))"

section \<open>evaluation.py: attribution\<close>

definition journal_ic :: "(flt list \<Rightarrow> flt list \<Rightarrow> flt) \<Rightarrow> journal_entry list \<Rightarrow> (string, flt) dict" where
  "journal_ic corr j = signal_ics corr (map je_features j) (map je_realized_return j)"

definition win_share :: "journal_entry list \<Rightarrow> flt" where
  "win_share j = Fin (real (length (filter je_won j)) / real (length j))"

definition regime_stats_of ::
  "(flt list \<Rightarrow> flt list \<Rightarrow> flt) \<Rightarrow> journal_entry list \<Rightarrow> string \<Rightarrow> regime_stats" where
  "regime_stats_of corr j r =
     (let sub = filter (\<lambda>e. je_regime e = r) j
      in \<lparr>rt_name = r, rt_n = length sub, rt_hit_rate = win_share sub,
          rt_mean_return = series_mean (map je_realized_return sub), rt_ic = journal_ic corr sub\<rparr>)"

definition attribute_performance ::
  "(flt list \<Rightarrow> flt list \<Rightarrow> flt) \<Rightarrow> journal_entry list \<Rightarrow> attribution_report" where
  "attribute_performance corr j =
     (if j = [] then \<lparr>at_n = 0, at_hit_rate = 0, at_mean_return = 0, at_ic = [], at_by_regime = []\<rparr>
      else \<lparr>at_n = length j, at_hit_rate = win_share j, at_mean_return = series_mean (map je_realized_return j),
            at_ic = journal_ic corr j,
            at_by_regime = map (regime_stats_of corr j) (sort (remdups (map je_regime j)))\<rparr>)"

section \<open>evaluation.py: analogs of a setup\<close>

text \<open>The frame of the journal's features, missing ones 0: its columns by name.\<close>

definition feature_frame :: "journal_entry list \<Rightarrow> (string, flt list) dict" where
  "feature_frame j =
     map (\<lambda>c. (c, map (\<lambda>e. fill0 (dict_get NaN (je_features e) c)) j)) (feature_names (map je_features j))"

definition standardizer :: "flt list \<Rightarrow> flt \<times> flt" where
  "standardizer col =
     (let sd = series_std 0 col in (series_mean col, if sd = Fin 0 then 1 else sd))"

definition standardized :: "flt list \<Rightarrow> flt \<Rightarrow> flt" where
  "standardized col v = (let (mu, sd) = standardizer col in fdiv (v - mu) sd)"

definition build_episodic_memory :: "journal_entry list \<Rightarrow> episode list" where
  "build_episodic_memory j =
     map (\<lambda>(i, e). \<lparr>ep_key = je_symbol e @ ''@'' @ date_iso (dt_date (je_as_of e)),
                   ep_vector = map (\<lambda>(c, col). standardized col (col ! i)) (feature_frame j),
                   ep_outcome = je_realized_return e, ep_regime = Some (je_regime e), ep_event_type = None\<rparr>)
       (enumerate 0 j)"

definition journal_analogs ::
  "recall_order \<Rightarrow> (flt list \<Rightarrow> real \<Rightarrow> flt) \<Rightarrow> journal_entry list \<Rightarrow> (string, flt) dict \<Rightarrow> string option \<Rightarrow> int
   \<Rightarrow> analog_outcomes res" where
  "journal_analogs mixed quantile j query_features regime k =
     (if j = [] then Inr no_analogs
      else analog_distribution mixed quantile (build_episodic_memory j)
             (map (\<lambda>(c, col). standardized col (dict_get 0 query_features c)) (feature_frame j)) k regime None)"

section \<open>evaluation.py: summary and reflection\<close>

text \<open>\<open>sorted(..., key=abs, reverse=True)\<close> keeps the order of equal elements.\<close>

definition by_strength :: "(string, flt) dict \<Rightarrow> (string, flt) dict" where
  "by_strength ic = rev (sort_key (\<lambda>kv. flt_key \<bar>snd kv\<bar>) (rev ic))"

definition regime_lines :: "(string \<Rightarrow> flt \<Rightarrow> string) \<Rightarrow> regime_stats \<Rightarrow> string list" where
  "regime_lines fmt r =
     (let top = take 3 (by_strength (rt_ic r))
      in [''- **'' @ rt_name r @ ''** (n='' @ nat_str (rt_n r) @ ''): hit '' @ fmt ''.0%'' (rt_hit_rate r)
            @ '', mean '' @ fmt ''+.2%'' (rt_mean_return r)]
         @ (if top = [] then []
            else [''  - top IC: '' @ join '', '' (map (\<lambda>(k, v). k @ '' '' @ fmt ''+.3f'' v) top)]))"

definition evaluation_summary_markdown :: "(string \<Rightarrow> flt \<Rightarrow> string) \<Rightarrow> attribution_report \<Rightarrow> string" where
  "evaluation_summary_markdown fmt r =
     (if at_n r = 0
      then ''# Self-evaluation'' @ nl @ nl @ ''(nothing matured yet '' @ em_dash @ '' run cycles, then wait the horizon)''
      else join nl
        ([''# Self-evaluation '' @ em_dash @ '' '' @ nat_str (at_n r) @ '' graded decisions'', [],
          ''- hit-rate: '' @ fmt ''.1%'' (at_hit_rate r), ''- mean decision return: '' @ fmt ''+.2%'' (at_mean_return r),
          [], ''## Signal IC (vs forward return)'']
         @ map (\<lambda>(k, v). ''- '' @ k @ '': '' @ fmt ''+.3f'' v) (by_strength (at_ic r))
         @ [[], ''## By regime''] @ concat (map (regime_lines fmt) (at_by_regime r))
         @ [[], ''_Decision-level realised returns (point-in-time). Not advice._'']))"

text \<open>The best two decisions, best first, then the worst two.\<close>

definition notable_decisions :: "journal_entry list \<Rightarrow> journal_entry list" where
  "notable_decisions j =
     (let ranked = sort_key (\<lambda>e. flt_key (je_realized_return e)) j in rev (tail_of 2 ranked) @ take 2 ranked)"

definition notable_text :: "(string \<Rightarrow> flt \<Rightarrow> string) \<Rightarrow> journal_entry list \<Rightarrow> string" where
  "notable_text fmt j =
     (if j = [] then []
      else nl @ nl @ ''Notable decisions: '' @ join ''; '' (map (\<lambda>e. je_symbol e @ '' '' @ fmt ''+.1%'' (je_realized_return e)
             @ '' ('' @ je_regime e @ '')'') (notable_decisions j)))"

definition reflect ::
  "(string \<Rightarrow> flt \<Rightarrow> string) \<Rightarrow> attribution_report \<Rightarrow> journal_entry list \<Rightarrow> 'p provider option \<Rightarrow> 'p
   \<Rightarrow> 'p \<times> string res" where
  "reflect fmt r j llm p =
     (case llm of
        None \<Rightarrow> (p, Inr (evaluation_summary_markdown fmt r))
      | Some ask \<Rightarrow> ask \<lparr>rq_system = OtherSystem ''reflect'',
          rq_prompt = ''Here is the system's own performance attribution. Write a brief, honest '' @
            ''post-mortem: which signals are carrying, which have decayed, any regime '' @
            ''pattern, and whether the apparent edge could be noise.'' @ nl @ nl
            @ evaluation_summary_markdown fmt r @ notable_text fmt j,
          rq_max_tokens = 800\<rparr> p)"

section \<open>The journal and the grader judge the same decisions\<close>

lemma journal_entries_grade:
  "map (\<lambda>e. (je_features e, je_realized_return e)) (journal_entries label t forward preds) =
   map (\<lambda>(q, r). (pr_features q, r)) (List.map_filter (\<lambda>q. case map_of forward (pr_symbol q) of
      None \<Rightarrow> None | Some r \<Rightarrow> if r = NaN then None else Some (q, r)) preds)"
  by (induction preds) (auto simp: journal_entries_def List.map_filter_simps split: option.splits)

lemma journal_group_grade:
  assumes "journal_group S s p h tg = Inr es"
  shows "map (\<lambda>e. (je_features e, je_realized_return e)) es = map (\<lambda>(q, r). (pr_features q, r)) (graded_group p h tg)"
  using assms journal_entries_grade
  by (auto simp: journal_group_def graded_group_def Let_def List.map_filter_def split: if_splits sum.splits)

lemma journal_groups_grade:
  "map_res (journal_group S s p h) tgs = Inr gs \<Longrightarrow>
   map (\<lambda>e. (je_features e, je_realized_return e)) (concat gs)
     = map (\<lambda>(q, r). (pr_features q, r)) (concat (map (graded_group p h) tgs))"
proof (induction tgs arbitrary: gs)
  case (Cons tg tgs)
  then show ?case by (auto simp: journal_group_grade split: sum.splits)
qed simp

text \<open>C27: the self-evaluation judges what the learning loop graded.  Whenever the journal and the grade of a
  model version are both available at one time, the report counts exactly the graded predictions and attributes
  to every signal the information coefficient the grader measured.\<close>

theorem journal_agrees_with_grading:
  assumes j: "build_trade_journal rpr S s as_of mv h = Inr j"
    and g: "grade_predictions corr rpr S s as_of h (Some mv) r = Inr g"
  shows "at_n (attribute_performance corr j) = gr_n g \<and> at_ic (attribute_performance corr j) = gr_ic g"
proof -
  obtain preds p gs where l: "load_predictions rpr S s as_of (Some mv) = Inr preds"
    "store_panel S s DISTANT_FUTURE price_dataset ''close'' = Inr p"
    "map_res (journal_group S s p h) (group_by pr_as_of preds) = Inr gs" "j = concat gs"
    using j by (auto simp: build_trade_journal_def split: sum.splits)
  define graded where "graded = graded_predictions p h preds"
  have eq: "map (\<lambda>e. (je_features e, je_realized_return e)) j = map (\<lambda>(q, r). (pr_features q, r)) graded"
    using journal_groups_grade [OF l(3)] l(4) by (simp add: graded_def graded_predictions_def)
  have len: "length j = length graded" using arg_cong [OF eq, of length] by simp
  have "map je_features j = map (pr_features \<circ> fst) graded" "map je_realized_return j = map snd graded"
    using arg_cong [OF eq, of "map fst"] arg_cong [OF eq, of "map snd"] by (simp_all add: comp_def case_prod_beta)
  then have ic: "journal_ic corr j = signal_ics corr (map (pr_features \<circ> fst) graded) (map snd graded)"
    by (simp add: journal_ic_def)
  show ?thesis
  proof (cases "graded = []")
    case True
    then show ?thesis using g l(1,2) len by (auto simp: grade_predictions_def graded_def attribute_performance_def)
  next
    case False
    then have "j \<noteq> []" using len by auto
    then show ?thesis using g l(1,2) False len ic
      by (auto simp: grade_predictions_def Let_def attribute_performance_def graded_def [symmetric])
  qed
qed

section \<open>The desk sees no future\<close>

lemma compute_matrix_cong:
  assumes "\<And>f. f \<in> set fs \<Longrightarrow> ft_compute f s t syms = ft_compute f s' t syms"
  shows "compute_matrix fs s t syms = compute_matrix fs s' t syms"
proof -
  have "map_res (feature_column s t syms) fs = map_res (feature_column s' t syms) fs"
    by (rule map_res_cong) (simp_all add: feature_column_def assms)
  then show ?thesis by (simp add: compute_matrix_def)
qed

text \<open>C21: what the desk shows was knowable.  Rows that became known after the time asked for, under new ids, leave
  the dashboard, the briefing over the default features and the recommended watchlist exactly as they were.\<close>

theorem desk_shows_only_the_knowable:
  assumes "mem_inv s" "\<forall>x \<in> set xs. o_id x \<notin> set (keys (mem_obs s)) \<and> t < o_knowledge_time x"
  shows "build_dashboard_data mem_ops (mem_upsert_many xs s) t cons limit = build_dashboard_data mem_ops s t cons limit
    \<and> build_briefing_context desc rpr mem_ops (mem_upsert_many xs s) t None cons top_n
        = build_briefing_context desc rpr mem_ops s t None cons top_n
    \<and> synthesize_watchlist desc mixed quantile rpr mem_ops (mem_upsert_many xs s) t scores memory vectors top_n
        = synthesize_watchlist desc mixed quantile rpr mem_ops s t scores memory vectors top_n"
proof -
  let ?s = "mem_upsert_many xs s"
  have read: "st_as_of mem_ops ?s t q = st_as_of mem_ops s t q" for q
    using future_rows_unread [OF assms] by (simp add: mem_ops_def)
  have dash: "build_dashboard_data mem_ops ?s t cons limit = build_dashboard_data mem_ops s t cons limit" for limit
    unfolding build_dashboard_data_def recent_items_def read ..
  have "ft_compute f ?s t syms = ft_compute f s t syms" if "f \<in> set (default_features rpr mem_ops)" for f syms
    using that by (auto simp: default_features_def momentum_feature_def volatility_feature_def insider_feature_def
        congress_feature_def price_feature_def store_feature_def store_panel_def insider_net_buys_def
        congress_leadership_buys_def read)
  then have matrix: "compute_matrix (default_features rpr mem_ops) ?s t syms
      = compute_matrix (default_features rpr mem_ops) s t syms" for syms
    by (intro compute_matrix_cong)
  have regime: "macro_regime mem_ops ?s t = macro_regime mem_ops s t"
    by (simp add: macro_regime_def latest_series_def read)
  have "detect_events mem_ops ?s t n w = detect_events mem_ops s t n w" for n w
    by (simp add: detect_events_def recent_purchases_def read)
  then show ?thesis
    unfolding dash build_briefing_context_def Let_def option.case matrix regime synthesize_watchlist_def by simp
qed

lemma desk_shows_only_the_knowable_witness:
  "build_dashboard_data mem_ops (mem_upsert_many [sample_obs 1 9] (mem_upsert_many [sample_obs 0 3] mem_empty)) 5 [] 25
     = build_dashboard_data mem_ops (mem_upsert_many [sample_obs 0 3] mem_empty) 5 [] 25"
proof -
  have "mem_inv (mem_upsert_many [sample_obs 0 3] mem_empty)" by (simp add: mem_inv_upsert mem_inv_empty)
  from desk_shows_only_the_knowable [OF this, of "[sample_obs 1 9]" 5]
  show ?thesis by (simp add: mem_obs_upsert mem_empty_def sample_obs_def)
qed

definition journal_history :: "observation list" where
  "journal_history =
     [new_obs 0 ''stooq'' price_dataset ''equity'' ''A'' None 1 1 [(''close'', PFloat (Fin 1))] [],
      new_obs 0 ''stooq'' price_dataset ''equity'' ''A'' None 2 2 [(''close'', PFloat (Fin 3))] [],
      prediction_observation 0 \<lparr>pr_as_of = 1, pr_symbol = ''A'', pr_probability = 1, pr_horizon_days = 1,
        pr_model_version = ''v'', pr_features = [(''mom'', 2)]\<rparr>]"

lemma journal_history_reads:
  "build_trade_journal (\<lambda>_. []) list_ops journal_history 2 ''v'' 1
     = Inr [\<lparr>je_symbol = ''A'', je_as_of = 1, je_probability = 1, je_realized_return = Fin 2, je_won = True,
             je_regime = ''risk_on'', je_features = [(''mom'', 2)]\<rparr>]"
  "is_ok (load_predictions (\<lambda>_. []) list_ops journal_history 2 (Some ''v''))"
  "is_ok (store_panel list_ops journal_history DISTANT_FUTURE price_dataset ''close'')"
  by code_simp+

lemma grade_available:
  assumes "is_ok (load_predictions rpr S s t mv)" "is_ok (store_panel S s DISTANT_FUTURE price_dataset ''close'')"
  shows "\<exists>g. grade_predictions corr rpr S s t h mv r = Inr g"
  using assms
  by (cases "load_predictions rpr S s t mv"; cases "store_panel S s DISTANT_FUTURE price_dataset ''close''")
    (simp_all add: grade_predictions_def Let_def)

lemma journal_agrees_with_grading_witness:
  "\<exists>g. grade_predictions (\<lambda>_ _. NaN) (\<lambda>_. []) list_ops journal_history 2 1 (Some ''v'') 0 = Inr g \<and> gr_n g = 1"
proof -
  obtain g where g: "grade_predictions (\<lambda>_ _. NaN) (\<lambda>_. []) list_ops journal_history 2 1 (Some ''v'') 0 = Inr g"
    using grade_available [OF journal_history_reads(2,3)] by blast
  from journal_agrees_with_grading [OF journal_history_reads(1) g] have "gr_n g = 1"
    by (simp add: attribute_performance_def)
  then show ?thesis using g by blast
qed

section \<open>A watchlist with its case against\<close>

lemma round_digits_unit: "0 \<le> x \<Longrightarrow> x \<le> 1 \<Longrightarrow> 0 \<le> round_digits k x \<and> round_digits k x \<le> 1"
proof -
  assume x: "0 \<le> x" "x \<le> 1"
  have "round_half_even (of_int 0) \<le> round_half_even (x * 10 ^ k)" using x by (intro round_half_even_mono) simp
  moreover have "round_half_even (x * 10 ^ k) \<le> round_half_even (of_int (10 ^ k))"
    using x by (intro round_half_even_mono) (simp add: mult_left_le_one_le)
  ultimately have "0 \<le> round_half_even (x * 10 ^ k)" "round_half_even (x * 10 ^ k) \<le> 10 ^ k"
    by (simp_all only: round_half_even_of_int)
  then show ?thesis by (simp add: round_digits_def divide_le_eq)
qed

definition unit_share :: "analog_outcomes option \<Rightarrow> bool" where
  "unit_share a \<longleftrightarrow> (\<forall>x. a = Some x \<longrightarrow> (\<exists>v. ao_share_positive x = Fin v \<and> 0 \<le> v \<and> v \<le> 1))"

lemma recalled_share: "recall_for mixed quantile memory vectors sy = Inr a \<Longrightarrow> unit_share a"
proof -
  have "\<exists>v. share_positive ys = Fin v \<and> 0 \<le> v \<and> v \<le> 1" for ys
    using length_filter_le [of "\<lambda>x. 0 < x" ys] by (auto simp: share_positive_def divide_le_eq_1)
  then show "recall_for mixed quantile memory vectors sy = Inr a \<Longrightarrow> unit_share a"
    by (auto simp: recall_for_def analog_distribution_def Let_def no_analogs_def unit_share_def zero_flt_def
        split: option.splits sum.splits if_splits)
qed

lemma confidence_unit:
  assumes "score \<noteq> NaN" "unit_share a"
  shows "\<exists>c. confidence_of score a = Fin c \<and> 0 \<le> c \<and> c \<le> 1"
proof -
  obtain b where b: "py_min 1 (fdiv \<bar>score\<bar> 2) = Fin b" "0 \<le> b" "b \<le> 1"
  proof (cases score)
    case (Fin x)
    then show thesis using that [of "min 1 (\<bar>x\<bar> / 2)"] by (simp add: flt_simps py_min_def min_def)
  qed (use assms(1) that [of 1] in \<open>auto simp: flt_simps py_min_def\<close>)
  obtain v where "(case a of Some x \<Rightarrow> if 0 < ao_n x
      then Fin b * (if 0 < score then ao_share_positive x else 1 - ao_share_positive x) else Fin b | None \<Rightarrow> Fin b) = Fin v"
      "0 \<le> v" "v \<le> 1"
  proof (cases a)
    case (Some x)
    obtain u where u: "ao_share_positive x = Fin u" "0 \<le> u" "u \<le> 1" using assms(2) Some by (auto simp: unit_share_def)
    have "0 \<le> b * u \<and> b * u \<le> 1 \<and> 0 \<le> b * (1 - u) \<and> b * (1 - u) \<le> 1"
      using b u by (simp add: mult_le_one)
    then show thesis using that Some u b by (cases "0 < ao_n x"; cases "0 < score") (auto simp: one_flt_def flt_simps)
  qed (use b that in auto)
  then show ?thesis using round_digits_unit [of v 3] by (simp add: confidence_of_def b)
qed

lemma join_has: "x \<in> set xs \<Longrightarrow> sublist x (join sep xs)"
proof (induction sep xs rule: join.induct)
  case (3 sep x y ys)
  have "sublist z (x @ sep @ join sep (y # ys))" if "sublist z (join sep (y # ys))" for z
    using that by (metis append.assoc sublist_def)
  then show ?case using 3 by auto
qed auto

lemma analog_case_nonempty: "[] \<notin> set (analog_case rpr score a)"
  by (auto simp: analog_case_def Let_def split: option.splits)

lemma case_against_nonempty: "case_against rpr score a events \<noteq> []"
proof -
  define parts where "parts = analog_case rpr score a
      @ (if events = [] then [''no corroborating events''] else [])
      @ (if \<bar>score\<bar> < Fin (1 / 2) then [''weak signal magnitude''] else [])"
  have "[] \<notin> set parts" using analog_case_nonempty by (auto simp: parts_def)
  then have "join ''; '' parts \<noteq> []" if "parts \<noteq> []"
    using join_has [OF hd_in_set [OF that], of "''; ''"] hd_in_set [OF that] by auto
  then show ?thesis by (simp add: case_against_def Let_def flip: parts_def)
qed

lemma events_of_entity:
  "dict_get [] (events_by_entity es) sy = map (event_text \<circ> ev_type) (filter (\<lambda>e. ev_entity_id e = sy) es)"
proof -
  have "map_of (map_vals f d) k = map_option f (map_of d k)" for f :: "event list \<Rightarrow> string list" and d and k :: string
    by (induction d) (auto simp: map_vals_def)
  then show ?thesis by (auto simp: events_by_entity_def map_of_group_by filter_empty_conv)
qed

lemma recommend_symbol: "recommend mixed quantile rpr memory vectors by_entity kv = Inr r \<Longrightarrow> rc_symbol r = fst kv"
  by (auto simp: recommend_def Let_def split: prod.splits sum.splits)

text \<open>Every name on the watchlist carries its confidence and its case against.  The recommendations are the
  best-ranked names with a score; each confidence is a number in the unit interval, the case against is never
  empty, the events are those detected for the name, and a name without events says so.\<close>

theorem watchlist_is_argued:
  assumes out: "synthesize_watchlist desc mixed quantile rpr S s as_of scores memory vectors top_n = Inr rs"
    and desc: "\<And>d. set (desc d) = set d"
  shows "map rc_symbol rs = keys (py_head top_n (desc (drop_missing scores)))
    \<and> (\<forall>r \<in> set rs. (\<exists>c. rc_confidence r = Fin c \<and> 0 \<le> c \<and> c \<le> 1) \<and> rc_case_against r \<noteq> []
        \<and> rc_events r = map (event_text \<circ> ev_type)
            (filter (\<lambda>e. ev_entity_id e = rc_symbol r) (detect_events S s as_of 3 30))
        \<and> (rc_events r = [] \<longrightarrow> sublist ''no corroborating events'' (rc_case_against r)))"
proof (intro conjI ballI)
  let ?kvs = "py_head top_n (desc (drop_missing scores))"
  let ?by = "events_by_entity (detect_events S s as_of 3 30)"
  have m: "map_res (recommend mixed quantile rpr memory vectors ?by) ?kvs = Inr rs"
    using out by (simp add: synthesize_watchlist_def)
  show "map rc_symbol rs = keys ?kvs"
  proof (rule nth_equalityI)
    fix i assume "i < length (map rc_symbol rs)"
    then have "recommend mixed quantile rpr memory vectors ?by (?kvs ! i) = Inr (rs ! i)" "i < length rs" "i < length ?kvs"
      using map_res_InrD [OF m] by simp_all
    from recommend_symbol [OF this(1)] this(2,3) show "map rc_symbol rs ! i = keys ?kvs ! i" by simp
  qed (use map_res_InrD [OF m] in simp)
  fix r assume "r \<in> set rs"
  then obtain sy score where kv: "(sy, score) \<in> set ?kvs" "recommend mixed quantile rpr memory vectors ?by (sy, score) = Inr r"
    using map_res_in [OF m] by fast
  then obtain a where a: "recall_for mixed quantile memory vectors sy = Inr a" "rc_symbol r = sy"
    "rc_confidence r = confidence_of score a" "rc_events r = dict_get [] ?by sy"
    "rc_case_against r = case_against rpr score a (rc_events r)"
    by (auto simp: recommend_def Let_def split: sum.splits)
  have "score \<noteq> NaN"
    using kv(1) desc by (auto simp: py_head_def drop_missing_def dest: in_set_takeD split: if_splits)
  then show "\<exists>c. rc_confidence r = Fin c \<and> 0 \<le> c \<and> c \<le> 1"
    using confidence_unit recalled_share [OF a(1)] a(3) by simp
  show "rc_case_against r \<noteq> []" unfolding a(5) by (rule case_against_nonempty)
  show "rc_events r = map (event_text \<circ> ev_type)
      (filter (\<lambda>e. ev_entity_id e = rc_symbol r) (detect_events S s as_of 3 30))"
    unfolding a(2,4) by (rule events_of_entity)
  show "rc_events r = [] \<longrightarrow> sublist ''no corroborating events'' (rc_case_against r)"
    unfolding a(5) by (auto simp: case_against_def Let_def intro!: join_has)
qed

lemma watchlist_is_argued_witness:
  "\<exists>rs. synthesize_watchlist (\<lambda>d. d) (\<lambda>xs. xs) (\<lambda>_ _. NaN) (\<lambda>_. []) list_ops [] 0 [(''A'', Fin 2), (''B'', NaN)] None None 5 = Inr rs
     \<and> map rc_symbol rs = [''A''] \<and> (\<forall>r \<in> set rs. sublist ''no corroborating events'' (rc_case_against r))"
proof -
  have e: "detect_events list_ops [] 0 3 30 = []" by code_simp
  obtain rs where rs: "synthesize_watchlist (\<lambda>d. d) (\<lambda>xs. xs) (\<lambda>_ _. NaN) (\<lambda>_. []) list_ops [] 0 [(''A'', Fin 2), (''B'', NaN)] None None 5
      = Inr rs"
    by (simp add: synthesize_watchlist_def py_head_def drop_missing_def recommend_def recall_for_def Let_def)
  have "keys (py_head 5 (drop_missing [(''A'', Fin 2), (''B'', NaN)])) = [''A'']"
    by (simp add: py_head_def drop_missing_def)
  then show ?thesis using watchlist_is_argued [OF rs] rs by (auto simp: e)
qed

end
