(* ===== verification/Construction.thy ===== *)
theory Construction
  imports Allocation
begin

text \<open>
  The allocators of \<open>portfolio/construction.py\<close>: fractional Kelly, minimum variance, risk parity and hierarchical
  risk parity (the volatility target is in \<open>Allocation\<close>).  A covariance is its rows, in the order of the names.
  NumPy's pseudo-inverse, pandas' sample covariance and correlation and SciPy's single linkage are parameters.
\<close>

section \<open>Kelly and minimum variance\<close>

definition mat_vec :: "flt list list \<Rightarrow> flt list \<Rightarrow> flt list" where
  "mat_vec m v = map (\<lambda>row. dot row v) m"

definition fractional_kelly_weights ::
  "(flt list list \<Rightarrow> flt list list) \<Rightarrow> string list \<Rightarrow> (string, flt) dict \<Rightarrow> flt list list \<Rightarrow> flt \<Rightarrow> weights" where
  "fractional_kelly_weights pinv names expected_returns cov fraction =
     zip names (map (\<lambda>x. fraction * x) (mat_vec (pinv cov) (map (\<lambda>s. fill0 (dict_get NaN expected_returns s)) names)))"

definition min_variance_weights ::
  "(flt list list \<Rightarrow> flt list list) \<Rightarrow> string list \<Rightarrow> flt list list \<Rightarrow> weights" where
  "min_variance_weights pinv names cov =
     (let raw = mat_vec (pinv cov) (map (\<lambda>_. 1) cov)
      in zip names (map (\<lambda>x. fdiv x (sum_list raw)) raw))"

section \<open>Risk parity\<close>

text \<open>One geometric step; a marginal risk that is not positive is replaced by \<open>1e-12\<close>.\<close>

definition marginal_risk :: "flt list list \<Rightarrow> flt list \<Rightarrow> flt list" where
  "marginal_risk sigma w = map (\<lambda>x. if x \<le> 0 then Fin (1 / 10 ^ 12) else x) (mat_vec sigma w)"

definition parity_step :: "flt list list \<Rightarrow> flt list \<Rightarrow> flt list" where
  "parity_step sigma w =
     (let raw = map2 (\<lambda>x m. fsqrt (fdiv x m)) w (marginal_risk sigma w)
      in map (\<lambda>x. fdiv x (sum_list raw)) raw)"

definition parity_change :: "flt list \<Rightarrow> flt list \<Rightarrow> flt res" where
  "parity_change w_new w =
     (case map2 (\<lambda>x y. \<bar>x - y\<bar>) w_new w of [] \<Rightarrow> Inl ValueError | d # ds \<Rightarrow> Inr (foldl np_max d ds))"

fun parity_loop :: "nat \<Rightarrow> flt list list \<Rightarrow> flt \<Rightarrow> flt list \<Rightarrow> flt list res" where
  "parity_loop 0 sigma tol w = Inr w"
| "parity_loop (Suc iters) sigma tol w =
     (case parity_change (parity_step sigma w) w of
        Inl e \<Rightarrow> Inl e
      | Inr change \<Rightarrow> if change < tol then Inr (parity_step sigma w)
                     else parity_loop iters sigma tol (parity_step sigma w))"

definition risk_parity_weights :: "string list \<Rightarrow> flt list list \<Rightarrow> nat \<Rightarrow> flt \<Rightarrow> weights res" where
  "risk_parity_weights names sigma iters tol =
     (case parity_loop iters sigma tol (map (\<lambda>_. Fin (1 / real (length sigma))) sigma) of
        Inl e \<Rightarrow> Inl e | Inr w \<Rightarrow> Inr (zip names w))"

section \<open>Hierarchical risk parity\<close>

text \<open>A linkage row is the two clusters it joins; items are below \<open>n\<close>, the cluster of row \<open>k\<close> is \<open>n + k\<close>.  Each
  pass puts the two children in the place of every cluster in the order.\<close>

type_synonym linkage = "(nat \<times> nat) list"

definition expand :: "nat \<Rightarrow> linkage \<Rightarrow> nat list \<Rightarrow> nat list" where
  "expand n link order =
     concat (map (\<lambda>i. if i < n then [i] else [fst (link ! (i - n)), snd (link ! (i - n))]) order)"

fun expand_all :: "nat \<Rightarrow> nat \<Rightarrow> linkage \<Rightarrow> nat list \<Rightarrow> nat list option" where
  "expand_all fuel n link order =
     (if list_all (\<lambda>i. i < n) order then Some order
      else case fuel of 0 \<Rightarrow> None | Suc k \<Rightarrow> expand_all k n link (expand n link order))"

declare expand_all.simps [simp del]

definition quasi_diagonal :: "nat \<Rightarrow> nat \<Rightarrow> linkage \<Rightarrow> nat list option" where
  "quasi_diagonal fuel n link = expand_all fuel n link [fst (last link), snd (last link)]"

definition cluster_variance :: "string list \<Rightarrow> flt list list \<Rightarrow> string list \<Rightarrow> flt" where
  "cluster_variance names cov items =
     (let entry = (\<lambda>a b. dict_get NaN (zip names (dict_get [] (zip names cov) a)) b);
          inv = map (\<lambda>a. fdiv 1 (entry a a)) items;
          ivp = map (\<lambda>x. fdiv x (sum_list inv)) inv;
          sub = map (\<lambda>a. map (entry a) items) items
      in dot (map (\<lambda>col. dot ivp col) (transpose sub)) ivp)"

definition scale_names :: "string list \<Rightarrow> flt \<Rightarrow> weights \<Rightarrow> weights" where
  "scale_names items f w = map (\<lambda>(s, v). (s, if s \<in> set items then v * f else v)) w"

definition halves :: "string list list \<Rightarrow> (string list \<times> string list) list" where
  "halves clusters = map (\<lambda>c. (take (length c div 2) c, drop (length c div 2) c)) (filter (\<lambda>c. 1 < length c) clusters)"

fun split_pairs ::
  "(string list \<Rightarrow> flt) \<Rightarrow> (string list \<times> string list) list \<Rightarrow> weights \<Rightarrow> weights res" where
  "split_pairs variance [] w = Inr w"
| "split_pairs variance ((left, right) # rest) w =
     (let vl = variance left; vr = variance right in
      if vl + vr = 0 then Inl ZeroDivisionError
      else let alpha = 1 - fdiv vl (vl + vr)
           in split_pairs variance rest (scale_names right (1 - alpha) (scale_names left alpha w)))"

fun bisect_loop :: "nat \<Rightarrow> (string list \<Rightarrow> flt) \<Rightarrow> string list list \<Rightarrow> weights \<Rightarrow> weights res option" where
  "bisect_loop fuel variance clusters w =
     (if clusters = [] then Some (Inr w)
      else case fuel of 0 \<Rightarrow> None | Suc k \<Rightarrow>
        (case split_pairs variance (halves clusters) w of
           Inl e \<Rightarrow> Some (Inl e)
         | Inr w1 \<Rightarrow> bisect_loop k variance (concat (map (\<lambda>(l, r). [l, r]) (halves clusters))) w1))"

declare bisect_loop.simps [simp del]

text \<open>\<open>None\<close> is a loop that has not ended within the fuel.\<close>

definition hierarchical_risk_parity ::
  "(flt list list \<Rightarrow> linkage res) \<Rightarrow> flt list list \<Rightarrow> flt list list \<Rightarrow> string list \<Rightarrow> nat \<Rightarrow> weights res option" where
  "hierarchical_risk_parity linkage_of cov corr cols fuel =
     (if length cols = 1 then Some (Inr (map (\<lambda>c. (c, 1)) cols))
      else case linkage_of (map (map (\<lambda>x. fsqrt (np_max (fdiv (1 - fill0 x) 2) 0))) corr) of
        Inl e \<Rightarrow> Some (Inl e)
      | Inr link \<Rightarrow>
          (case quasi_diagonal fuel (length cols) link of
             None \<Rightarrow> None
           | Some order \<Rightarrow>
               let ordered = map (\<lambda>i. cols ! i) order in
               (case bisect_loop fuel (cluster_variance cols cov) [ordered] (map (\<lambda>c. (c, 1)) ordered) of
                  None \<Rightarrow> None
                | Some (Inl e) \<Rightarrow> Some (Inl e)
                | Some (Inr w) \<Rightarrow> Some (Inr (map (\<lambda>c. (c, dict_get NaN w c)) cols)))))"

section \<open>Risk parity is long-only\<close>

definition finite_matrix :: "flt list list \<Rightarrow> bool" where
  "finite_matrix m \<longleftrightarrow> (\<forall>row \<in> set m. \<forall>x \<in> set row. is_fin x)"

definition long_only :: "real list \<Rightarrow> bool" where
  "long_only rs \<longleftrightarrow> rs \<noteq> [] \<and> (\<forall>r \<in> set rs. 0 < r) \<and> sum_list rs = 1"

lemma fin_times: "is_fin a \<Longrightarrow> is_fin b \<Longrightarrow> is_fin (a * b)"
  by (cases a; cases b) (simp_all add: is_fin_def)

lemma dot_fin: "\<forall>x \<in> set xs. is_fin x \<Longrightarrow> \<forall>y \<in> set ys. is_fin y \<Longrightarrow> is_fin (dot xs ys)"
  unfolding dot_def by (rule sum_list_is_fin) (clarsimp, metis fin_times set_zip_leftD set_zip_rightD)

lemma marginal_risk_positive:
  assumes "finite_matrix sigma"
  shows "\<exists>ms. marginal_risk sigma (map Fin rs) = map Fin ms \<and> length ms = length sigma \<and> (\<forall>m \<in> set ms. 0 < m)"
proof -
  have "\<exists>m. (if x \<le> 0 then Fin (1 / 10 ^ 12) else x) = Fin m \<and> 0 < m" if "is_fin x" for x
  proof -
    obtain r where "x = Fin r" using \<open>is_fin x\<close> by (auto simp: is_fin_iff)
    then show ?thesis by (intro exI [of _ "if r \<le> 0 then 1 / 10 ^ 12 else r"]) (simp add: zero_flt_def)
  qed
  moreover have "is_fin (dot row (map Fin rs))" if "row \<in> set sigma" for row
    using assms that by (intro dot_fin) (auto simp: finite_matrix_def is_fin_iff)
  ultimately have "\<forall>row \<in> set sigma. \<exists>m. (if dot row (map Fin rs) \<le> 0 then Fin (1 / 10 ^ 12) else dot row (map Fin rs)) = Fin m \<and> 0 < m"
    by blast
  then obtain f where f: "\<And>row. row \<in> set sigma \<Longrightarrow>
      (if dot row (map Fin rs) \<le> 0 then Fin (1 / 10 ^ 12) else dot row (map Fin rs)) = Fin (f row) \<and> 0 < f row"
    by metis
  then have "marginal_risk sigma (map Fin rs) = map Fin (map f sigma)" by (simp add: marginal_risk_def mat_vec_def)
  then show ?thesis using f by (intro exI [of _ "map f sigma"]) auto
qed

lemma sum_list_shares: "sum_list (map (\<lambda>x. x / c) xs) = sum_list xs / c" for c :: real
  by (induction xs) (simp_all add: add_divide_distrib)

lemma parity_step_long_only:
  assumes "finite_matrix sigma" "long_only rs" "length rs = length sigma"
  shows "\<exists>rs'. parity_step sigma (map Fin rs) = map Fin rs' \<and> long_only rs' \<and> length rs' = length sigma"
proof -
  obtain ms where ms: "marginal_risk sigma (map Fin rs) = map Fin ms" "length ms = length sigma" "\<forall>m \<in> set ms. 0 < m"
    using marginal_risk_positive [OF assms(1)] by blast
  define raw where "raw = map2 (\<lambda>r m. sqrt (r / m)) rs ms"
  have pos: "0 < x" if x: "x \<in> set raw" for x
  proof -
    obtain r m where "(r, m) \<in> set (zip rs ms)" "x = sqrt (r / m)" using x by (auto simp: raw_def)
    then have "r \<in> set rs" "m \<in> set ms" "x = sqrt (r / m)" by (auto dest: set_zip_leftD set_zip_rightD)
    then show ?thesis using assms(2) ms(3) by (simp add: long_only_def)
  qed
  have "fsqrt (fdiv (Fin r) (Fin m)) = Fin (sqrt (r / m))" if "(r, m) \<in> set (zip rs ms)" for r m
  proof -
    have "r \<in> set rs" "m \<in> set ms" using that by (auto dest: set_zip_leftD set_zip_rightD)
    then have "0 < r" "0 < m" using assms(2) ms(3) by (simp_all add: long_only_def)
    then have "m \<noteq> 0" "\<not> r / m < 0" using less_asym [OF divide_pos_pos [of r m]] by blast+
    then show ?thesis by (simp only: fdiv.simps fsqrt.simps if_False)
  qed
  then have raw: "map2 (\<lambda>x m. fsqrt (fdiv x m)) (map Fin rs) (map Fin ms) = map Fin raw"
    by (auto simp: raw_def zip_map_map)
  have ne: "raw \<noteq> []" using assms(2,3) ms(2) by (auto simp: raw_def long_only_def)
  then have total: "0 < sum_list raw" using pos by (cases raw) (auto intro!: add_pos_nonneg sum_list_nonneg dest: less_imp_le)
  have "sum_list (map Fin raw) = Fin (sum_list raw)" using sum_list_Fin [of "\<lambda>x. x" raw] by simp
  then have "parity_step sigma (map Fin rs) = map Fin (map (\<lambda>x. x / sum_list raw) raw)"
    using total by (simp add: parity_step_def Let_def ms(1) raw)
  moreover have "long_only (map (\<lambda>x. x / sum_list raw) raw)"
    using pos total ne by (auto simp: long_only_def sum_list_shares divide_pos_pos)
  moreover have "length raw = length sigma" using assms(3) ms(2) by (simp add: raw_def)
  ultimately show ?thesis by (intro exI [of _ "map (\<lambda>x. x / sum_list raw) raw"]) simp
qed

lemma parity_loop_long_only:
  assumes "finite_matrix sigma" "long_only rs" "length rs = length sigma"
  shows "\<exists>rs'. parity_loop iters sigma tol (map Fin rs) = Inr (map Fin rs') \<and> long_only rs' \<and> length rs' = length sigma"
  using assms
proof (induction iters arbitrary: rs)
  case (Suc iters)
  obtain rs' where step: "parity_step sigma (map Fin rs) = map Fin rs'" "long_only rs'" "length rs' = length sigma"
    using parity_step_long_only [OF Suc.prems] by blast
  obtain d where "parity_change (map Fin rs') (map Fin rs) = Inr d"
    using step(2,3) Suc.prems(2,3) by (cases rs'; cases rs) (auto simp: parity_change_def long_only_def)
  then show ?case using Suc.IH [OF Suc.prems(1) step(2,3)] step by auto
qed auto

text \<open>Risk parity always returns a long-only book.  For every finite covariance, whatever its signs, and every
  iteration cap and tolerance, the iteration ends with one weight per name, all of them
  positive, that sum to 1.\<close>

theorem risk_parity_is_long_only:
  assumes "finite_matrix sigma" "sigma \<noteq> []" "length names = length sigma"
  shows "\<exists>rs. risk_parity_weights names sigma iters tol = Inr (zip names (map Fin rs))
    \<and> length rs = length names \<and> (\<forall>r \<in> set rs. 0 < r) \<and> sum_list rs = 1"
proof -
  let ?rs = "replicate (length sigma) (1 / real (length sigma))"
  have "long_only ?rs" using assms(2) by (auto simp: long_only_def sum_list_replicate)
  then obtain rs where "parity_loop iters sigma tol (map Fin ?rs) = Inr (map Fin rs)" "long_only rs" "length rs = length sigma"
    using parity_loop_long_only [OF assms(1), of ?rs iters tol] by auto
  then show ?thesis
    using assms(3) by (auto simp: risk_parity_weights_def long_only_def map_replicate_const)
qed

lemma risk_parity_is_long_only_witness:
  "\<exists>rs. risk_parity_weights [''A'', ''B''] [[Fin 4, Fin (- 1)], [Fin (- 1), Fin 1]] 1000 (Fin (1 / 10 ^ 10))
     = Inr (zip [''A'', ''B''] (map Fin rs)) \<and> length rs = 2 \<and> (\<forall>r \<in> set rs. 0 < r) \<and> sum_list rs = 1"
  using risk_parity_is_long_only [of "[[Fin 4, Fin (- 1)], [Fin (- 1), Fin 1]]" "[''A'', ''B'']" 1000 "Fin (1 / 10 ^ 10)"]
  by (simp add: finite_matrix_def is_fin_def numeral_2_eq_2)

section \<open>The quasi-diagonal order is a permutation\<close>

text \<open>A linkage of \<open>n\<close> items as SciPy documents it: \<open>n - 1\<close> rows, each joining two clusters made before it, and
  every cluster but the last joined exactly once.\<close>

definition linkage_ok :: "nat \<Rightarrow> linkage \<Rightarrow> bool" where
  "linkage_ok n link \<longleftrightarrow> 2 \<le> n \<and> Suc (length link) = n
     \<and> (\<forall>k < length link. fst (link ! k) < n + k \<and> snd (link ! k) < n + k)
     \<and> mset (concat (map (\<lambda>r. [fst r, snd r]) link)) = mset [0..<n + length link - 1]"

function leaves :: "nat \<Rightarrow> linkage \<Rightarrow> nat \<Rightarrow> nat list" where
  "leaves n link i =
     (if i < n \<or> \<not> (fst (link ! (i - n)) < i \<and> snd (link ! (i - n)) < i) then [i]
      else leaves n link (fst (link ! (i - n))) @ leaves n link (snd (link ! (i - n))))"
  by auto
termination by (relation "measure (\<lambda>(n, link, i). i)") auto

declare leaves.simps [simp del]

lemma leaves_item: "i < n \<Longrightarrow> leaves n link i = [i]"
  by (simp add: leaves.simps)

lemma leaves_cluster:
  assumes "linkage_ok n link" "k < length link"
  shows "leaves n link (n + k) = leaves n link (fst (link ! k)) @ leaves n link (snd (link ! k))"
  using assms by (subst leaves.simps) (simp add: linkage_ok_def)

lemma expand_leaves:
  assumes "linkage_ok n link" "\<forall>i \<in> set order. i < n + length link"
  shows "concat (map (leaves n link) (expand n link order)) = concat (map (leaves n link) order)"
  using assms(2)
proof (induction order)
  case (Cons i order)
  have "concat (map (leaves n link) (if i < n then [i] else [fst (link ! (i - n)), snd (link ! (i - n))])) = leaves n link i"
    using leaves_cluster [OF assms(1), of "i - n"] Cons.prems by auto
  then show ?case using Cons by (simp add: expand_def)
qed (simp add: expand_def)

lemma expand_below:
  assumes "linkage_ok n link" "k < length link" "\<forall>i \<in> set order. i \<le> n + k"
  shows "\<forall>i \<in> set (expand n link order). i < n + k"
proof -
  have "fst (link ! (j - n)) < n + k \<and> snd (link ! (j - n)) < n + k" if "j \<le> n + k" "\<not> j < n" for j
  proof -
    have "j - n < length link" "n + (j - n) \<le> n + k" using that assms(2) by simp_all
    then show ?thesis using assms(1) unfolding linkage_ok_def by (meson order.strict_trans2)
  qed
  then show ?thesis using assms(3) by (auto simp: expand_def split: if_splits)
qed

lemma expand_all_leaves:
  assumes "linkage_ok n link" "k \<le> length link" "\<forall>i \<in> set order. i < n + k" "k \<le> fuel"
  shows "expand_all fuel n link order = Some (concat (map (leaves n link) order))"
  using assms
proof (induction k arbitrary: order fuel)
  case 0
  then have "map (leaves n link) order = map (\<lambda>i. [i]) order" by (simp add: leaves_item)
  then have "concat (map (leaves n link) order) = order" by (simp only: concat_map_singleton map_ident)
  then show ?case using 0 by (subst expand_all.simps) (simp add: list_all_iff)
next
  case (Suc k)
  show ?case
  proof (cases "list_all (\<lambda>i. i < n) order")
    case True
    then have "\<forall>i \<in> set order. i < n + k" by (auto simp: list_all_iff)
    then show ?thesis using Suc.prems(2,4) by (intro Suc.IH [OF Suc.prems(1)]) simp_all
  next
    case False
    obtain f where f: "fuel = Suc f" using Suc.prems(4) by (cases fuel) auto
    have "\<forall>i \<in> set (expand n link order). i < n + k"
      using Suc.prems by (intro expand_below) (auto simp: less_Suc_eq_le)
    then have "expand_all f n link (expand n link order) = Some (concat (map (leaves n link) (expand n link order)))"
      using Suc.prems(2,4) f by (intro Suc.IH [OF Suc.prems(1)]) simp_all
    moreover have "\<forall>i \<in> set order. i < n + length link" using Suc.prems(2,3) by fastforce
    ultimately show ?thesis using False by (subst expand_all.simps) (simp add: f expand_leaves [OF Suc.prems(1)])
  qed
qed

lemma sum_list_nth: "sum_list (map f xs) = sum_list (map (\<lambda>k. f (xs ! k)) [0..<length xs])"
  by (rule arg_cong [where f = sum_list], rule nth_equalityI) simp_all

text \<open>Counting the leaves of all clusters twice: as clusters, and as the two parts of each row.\<close>

lemma root_leaves:
  assumes "linkage_ok n link"
  shows "mset (leaves n link (n + (length link - 1))) = mset [0..<n]"
proof -
  let ?c = "\<lambda>i. mset (leaves n link i)"
  let ?m = "length link"
  have m: "?m = Suc (?m - 1)" "n + ?m - 1 = n + (?m - 1)" using assms by (auto simp: linkage_ok_def)
  have row: "?c (fst (link ! k)) + ?c (snd (link ! k)) = ?c (n + k)" if "k < ?m" for k
    using leaves_cluster [OF assms that] by simp
  have "sum_mset (image_mset c (mset (concat (map (\<lambda>r. [fst r, snd r]) xs))))
      = sum_list (map (\<lambda>r. c (fst r) + c (snd r)) xs)" for c :: "nat \<Rightarrow> nat multiset" and xs :: linkage
    by (induction xs) (simp_all add: ac_simps)
  from this [of ?c link]
  have "sum_mset (image_mset ?c (mset (concat (map (\<lambda>r. [fst r, snd r]) link))))
      = sum_list (map (\<lambda>r. ?c (fst r) + ?c (snd r)) link)" .
  also have "\<dots> = sum_list (map (\<lambda>k. ?c (fst (link ! k)) + ?c (snd (link ! k))) [0..<?m])"
    by (subst sum_list_nth) simp
  also have "\<dots> = sum_list (map (\<lambda>k. ?c (n + k)) [0..<?m])" using row by (intro arg_cong [where f = sum_list] map_cong) auto
  also have "\<dots> = sum_list (map (\<lambda>k. ?c (n + k)) [0..<?m - 1]) + ?c (n + (?m - 1))" 
  proof -
    have "[0..<?m] = [0..<?m - 1] @ [?m - 1]" using m(1) upt_Suc_append [of 0 "?m - 1"] by simp
    then show ?thesis by (simp only: map_append sum_list_append) simp
  qed
  finally have lhs: "sum_mset (image_mset ?c (mset [0..<n + (?m - 1)]))
      = sum_list (map (\<lambda>k. ?c (n + k)) [0..<?m - 1]) + ?c (n + (?m - 1))"
    using assms m(2) by (simp add: linkage_ok_def)
  have "sum_mset (image_mset ?c (mset [0..<n + (?m - 1)])) = sum_list (map ?c ([0..<n] @ [n..<n + (?m - 1)]))"
  proof -
    have "sum_mset (image_mset c (mset xs)) = sum_list (map c xs)" for c :: "nat \<Rightarrow> nat multiset" and xs
      by (induction xs) simp_all
    then show ?thesis by (simp only: upt_add_eq_append [OF le0])
  qed
  also have "\<dots> = mset [0..<n] + sum_list (map (\<lambda>k. ?c (n + k)) [0..<?m - 1])"
  proof -
    have "map ?c [0..<n] = map (\<lambda>i. {#i#}) [0..<n]" by (simp add: leaves_item)
    moreover have "sum_list (map (\<lambda>i. {#i#}) xs) = mset xs" for xs :: "nat list" by (induction xs) simp_all
    moreover have "map ?c [n..<n + (?m - 1)] = map (\<lambda>k. ?c (n + k)) [0..<?m - 1]"
      by (intro nth_equalityI) simp_all
    ultimately show ?thesis by (simp only: map_append sum_list_append)
  qed
  finally show ?thesis using lhs by (simp add: ac_simps)
qed

lemma quasi_diagonal_permutes:
  assumes ok: "linkage_ok n link" and fuel: "n \<le> fuel"
  shows "\<exists>order. quasi_diagonal fuel n link = Some order \<and> mset order = mset [0..<n]"
proof -
  let ?k = "length link - 1"
  have k: "?k < length link" "link \<noteq> []" "Suc (length link) = n" using ok by (auto simp: linkage_ok_def)
  have l: "last link = link ! ?k" using k(2) by (simp add: last_conv_nth)
  have "\<forall>i \<in> set [fst (last link), snd (last link)]. i < n + length link"
    using ok k(1) unfolding l linkage_ok_def by fastforce
  then have "quasi_diagonal fuel n link = Some (concat (map (leaves n link) [fst (last link), snd (last link)]))"
    unfolding quasi_diagonal_def using fuel k(3) by (intro expand_all_leaves [OF ok, of "length link"]) simp_all
  moreover have "concat (map (leaves n link) [fst (last link), snd (last link)]) = leaves n link (n + ?k)"
    using leaves_cluster [OF ok k(1)] by (simp add: l)
  ultimately show ?thesis using root_leaves [OF ok] by simp
qed

text \<open>Each round halves the clusters, so one unit of fuel per name is enough for both loops.\<close>

lemma bisect_loop_ends:
  "\<forall>c \<in> set clusters. 0 < fuel \<and> length c \<le> fuel \<Longrightarrow> bisect_loop fuel variance clusters w \<noteq> None"
proof (induction fuel arbitrary: clusters w)
  case 0
  then have "clusters = []" by (cases clusters) auto
  then show ?case by (subst bisect_loop.simps) simp
next
  case (Suc k)
  have "0 < k \<and> length h \<le> k" if "h \<in> set (concat (map (\<lambda>(l, r). [l, r]) (halves clusters)))" for h
    using that Suc.prems by (fastforce simp: halves_def)
  then have "bisect_loop k variance (concat (map (\<lambda>(l, r). [l, r]) (halves clusters))) w1 \<noteq> None" for w1
    by (intro Suc.IH) blast
  then show ?case by (subst bisect_loop.simps) (auto split: sum.splits)
qed

theorem hierarchical_risk_parity_returns:
  assumes "\<And>d link. linkage_of d = Inr link \<Longrightarrow> linkage_ok (length cols) link" "2 \<le> length cols" "length cols \<le> fuel"
  shows "hierarchical_risk_parity linkage_of cov corr cols fuel \<noteq> None"
proof (cases "linkage_of (map (map (\<lambda>x. fsqrt (np_max (fdiv (1 - fill0 x) 2) 0))) corr)")
  case (Inr link)
  obtain order where o: "quasi_diagonal fuel (length cols) link = Some order" "mset order = mset [0..<length cols]"
    using quasi_diagonal_permutes [OF assms(1) [OF Inr] assms(3)] by blast
  have "length order = length cols" using o(2) by (metis size_mset length_upt minus_nat.diff_0)
  then have "bisect_loop fuel variance [map (\<lambda>i. cols ! i) order] w \<noteq> None" for variance w
    using assms(2,3) by (intro bisect_loop_ends) auto
  then show ?thesis using Inr o(1) assms(2)
    by (auto simp: hierarchical_risk_parity_def Let_def split: option.splits sum.splits)
qed (simp add: hierarchical_risk_parity_def)

lemma hierarchical_risk_parity_returns_witness:
  "hierarchical_risk_parity (\<lambda>_. Inr [(0, 1)]) [[1, 0], [0, 1]] [[1, 0], [0, 1]] [''A'', ''B''] 2 \<noteq> None"
  by (rule hierarchical_risk_parity_returns) (auto simp: linkage_ok_def)

end
