(* ===== verification/Cli.thy ===== *)
theory Cli
  imports Desk Live
begin

text \<open>
  The command line (\<open>cli.py\<close>): the health server and its workers, the probes, the printed cycle and the backfills of the
  store.  A command's outcome is the lines it prints with its exit code, or with the exception it lets through.
  \<open>fmt spec x\<close> is Python's \<open>format\<close> of a float, \<open>msg\<close> the text of an exception, \<open>rpr\<close> the \<open>repr\<close> of what is
  not a string; argparse, the sockets and the threads are the standard library's.
\<close>

type_synonym outcome = "string list \<times> int res"
type_synonym formatter = "string \<Rightarrow> flt \<Rightarrow> string"

section \<open>Output\<close>

definition ljust :: "nat \<Rightarrow> string \<Rightarrow> string" where
  "ljust n s = s @ replicate (n - length s) (CHR '' '')"

definition rjust :: "nat \<Rightarrow> string \<Rightarrow> string" where
  "rjust n s = replicate (n - length s) (CHR '' '') @ s"

definition money :: "formatter \<Rightarrow> flt \<Rightarrow> string" where
  "money fmt x = ''$'' @ fmt '',.2f'' x"

text \<open>A command's \<open>try\<close>: what the body raises is printed after a label, and the exit code is 1.\<close>

definition attempt :: "(pyerr \<Rightarrow> string) \<Rightarrow> string \<Rightarrow> 'a res \<Rightarrow> ('a \<Rightarrow> outcome) \<Rightarrow> outcome" where
  "attempt msg label r k = (case r of Inl e \<Rightarrow> ([label @ msg e], Inr 1) | Inr x \<Rightarrow> k x)"

definition has_keys :: "settings \<Rightarrow> bool" where
  "has_keys st \<longleftrightarrow> str_set (alpaca_key_id st) \<and> str_set (alpaca_secret_key st)"

definition the_str :: "string option \<Rightarrow> string" where
  "the_str s = (case s of None \<Rightarrow> [] | Some x \<Rightarrow> x)"

section \<open>The health endpoint\<close>

definition pkg_version :: string where "pkg_version = ''0.0.0''"

text \<open>\<open>connect url timeout\<close> is one connection with its trivial query.\<close>

definition check_database :: "(string \<Rightarrow> int option \<Rightarrow> unit res) \<Rightarrow> string \<Rightarrow> bool" where
  "check_database connect url =
     (case connect url (if starts_with ''postgresql'' url then Some 5 else None) of Inl e \<Rightarrow> False | Inr _ \<Rightarrow> True)"

definition health_payload :: "bool \<Rightarrow> payload" where
  "health_payload db_ok =
     [(''status'', PStr (if db_ok then ''ok'' else ''degraded'')), (''db'', PBool db_ok), (''version'', PStr pkg_version)]"

record http_response =
  hr_status :: int
  hr_headers :: "(string \<times> string) list"
  hr_body :: string

definition respond :: "int \<Rightarrow> string \<Rightarrow> string \<Rightarrow> http_response" where
  "respond status content_type body =
     \<lparr>hr_status = status, hr_headers = [(''Content-Type'', content_type), (''Content-Length'', nat_str (length body))],
      hr_body = body\<rparr>"

text \<open>\<open>dumps\<close> is \<open>json.dumps\<close>, \<open>num\<close> the text of a float.\<close>

definition do_get ::
  "(payload \<Rightarrow> string) \<Rightarrow> (flt \<Rightarrow> string) \<Rightarrow> (string \<Rightarrow> int option \<Rightarrow> unit res) \<Rightarrow> string \<Rightarrow> metrics \<Rightarrow> string \<Rightarrow> http_response" where
  "do_get dumps num connect url reg target =
     (let path = rstrip_slash target in
      if path = [] \<or> path = ''/health''
      then let ok = check_database connect url
           in respond (if ok then 200 else 503) ''application/json'' (dumps (health_payload ok))
      else if path = ''/metrics'' then respond 200 ''text/plain; version=0.0.4'' (render num reg)
      else \<lparr>hr_status = 404, hr_headers = [], hr_body = []\<rparr>)"

text \<open>Docker's probe: the engine's answer, or the database when the engine does not answer with a success (\<open>urlopen\<close>
  raises for an error status).\<close>

definition cmd_healthcheck :: "int res \<Rightarrow> (string \<Rightarrow> int option \<Rightarrow> unit res) \<Rightarrow> settings \<Rightarrow> outcome" where
  "cmd_healthcheck probe connect st =
     (let ok = (case probe of Inr status \<Rightarrow> status = 200 | Inl _ \<Rightarrow> check_database connect (database_url st))
      in ([if ok then ''ok'' else ''unhealthy''], Inr (if ok then 0 else 1)))"

definition cmd_version :: outcome where
  "cmd_version = ([pkg_version], Inr 0)"

text \<open>\<open>upgrade\<close> is Alembic's upgrade to the head revision.\<close>

definition cmd_migrate :: "('s \<Rightarrow> 's \<times> unit res) \<Rightarrow> 's \<Rightarrow> 's \<times> outcome" where
  "cmd_migrate upgrade s = (case upgrade s of (s1, Inl e) \<Rightarrow> (s1, ([], Inl e)) | (s1, Inr _) \<Rightarrow> (s1, ([], Inr 0)))"

section \<open>The workers of the engine\<close>

datatype worker = IntradayLoop | DailySchedule | NewsSleeveLoop

type_synonym log_line = "string \<times> string \<times> payload"

definition arm ::
  "bool \<Rightarrow> settings \<Rightarrow> worker \<Rightarrow> string \<Rightarrow> string \<Rightarrow> string \<times> int \<Rightarrow> worker list \<times> log_line list" where
  "arm enabled st w disabled started interval =
     (if \<not> enabled then ([], [])
      else if \<not> has_keys st then ([], [(''warning'', disabled, [(''reason'', PStr ''alpaca keys not set'')])])
      else ([w], [(''info'', started, [(fst interval, PInt (snd interval))])]))"

definition maybe_start_intraday_loop :: "settings \<Rightarrow> worker list \<times> log_line list" where
  "maybe_start_intraday_loop st =
     arm (intraday_enabled st) st IntradayLoop ''intraday_disabled'' ''intraday_loop_started''
       (''interval_seconds'', intraday_interval_seconds st)"

definition maybe_start_daily_schedule :: "settings \<Rightarrow> worker list \<times> log_line list" where
  "maybe_start_daily_schedule st =
     arm (daily_cycle_enabled st) st DailySchedule ''daily_schedule_disabled'' ''daily_schedule_started''
       (''poll_seconds'', daily_cycle_poll_seconds st)"

definition maybe_start_news_sleeve_loop :: "settings \<Rightarrow> worker list \<times> log_line list" where
  "maybe_start_news_sleeve_loop st =
     arm (news_sleeve_enabled st) st NewsSleeveLoop ''news_sleeve_disabled'' ''news_sleeve_started''
       (''interval_seconds'', news_sleeve_interval_seconds st)"

definition crash_event :: "worker \<Rightarrow> string" where
  "crash_event w = (case w of IntradayLoop \<Rightarrow> ''intraday_loop_crashed'' | DailySchedule \<Rightarrow> ''daily_schedule_crashed''
     | NewsSleeveLoop \<Rightarrow> ''news_sleeve_loop_crashed'')"

text \<open>The body of a worker's thread: what its loop raises is logged and ends the thread, nothing else.\<close>

definition worker_thread :: "(pyerr \<Rightarrow> string) \<Rightarrow> worker \<Rightarrow> ('w \<Rightarrow> 'w \<times> 'a res) \<Rightarrow> 'w \<Rightarrow> 'w \<times> log_line list" where
  "worker_thread msg w loop world =
     (case loop world of
        (w1, Inl e) \<Rightarrow> (w1, [(''error'', crash_event w, [(''error'', PStr (msg e))])])
      | (w1, Inr _) \<Rightarrow> (w1, []))"

text \<open>What \<open>serve\<close> does before \<open>serve_forever\<close>: the gauge, the workers in order, and the log.\<close>

definition start_engine :: "settings \<Rightarrow> int \<Rightarrow> metrics \<Rightarrow> (metrics \<times> worker list \<times> log_line list) res" where
  "start_engine st port reg =
     (case observe ''mt_up'' ''engine process up (1)'' 1 reg of
        Inl e \<Rightarrow> Inl e
      | Inr reg1 \<Rightarrow>
          (let (w1, l1) = maybe_start_intraday_loop st; (w2, l2) = maybe_start_daily_schedule st;
               (w3, l3) = maybe_start_news_sleeve_loop st
           in Inr (reg1, w1 @ w2 @ w3, l1 @ l2 @ l3 @
                [(''info'', ''engine_serving'',
                  [(''mode'', PStr (mode_text (execution_mode st))), (''live_enabled'', PBool (live_trading_enabled st)),
                   (''intraday'', PBool (intraday_enabled st)), (''daily_cycle'', PBool (daily_cycle_enabled st)),
                   (''news_sleeve'', PBool (news_sleeve_enabled st)),
                   (''insider_sleeve'', PBool (insider_sleeve_enabled st)), (''port'', PInt port)])])))"

section \<open>Serving and standing down\<close>

text \<open>
  \<open>serve_forever\<close> runs in the main thread, where the interpreter also runs the signal handlers, between two steps of the
  loop.  \<open>socketserver\<close> documents its loop as: poll until a shutdown is requested, then leave and set an event (also
  when an exception leaves it); \<open>shutdown()\<close> requests it and waits for the event.  A handler waiting inside \<open>shutdown()\<close>
  is one more frame on the main thread's stack, and a further signal interrupts it and nests another one.  \<open>room\<close> is how many
  nested handlers the recursion limit allows: the next one raises \<open>RecursionError\<close>, which ends every waiting handler
  and leaves \<open>serve_forever\<close>, \<open>cmd_serve\<close> and the process.  The daemon threads of the workers run on until the process ends.
\<close>

datatype serve_phase = Serving | EngineStopped | EngineFailed pyerr

record engine_process =
  ep_phase :: serve_phase
  ep_polls :: nat
  ep_frames :: nat
  ep_signals :: nat
  ep_requested :: bool
  ep_is_shut_down :: bool
  ep_workers :: "worker list"
  ep_passes :: nat
  ep_log :: "log_line list"


definition standing_down :: "int \<Rightarrow> log_line" where
  "standing_down signum = (''warning'', ''standing_down'', [(''signal'', PInt signum)])"

definition engine_stopped :: log_line where
  "engine_stopped = (''info'', ''engine_stopped'', [])"

text \<open>The steps of the process: a poll of the server (a health request answered), a signal, a signal too many, a handler
  whose wait is over, the end of the loop, a pass of a worker, and the end of a worker (its loop returned, or crashed with
  a log line).\<close>

inductive serve_step :: "nat \<Rightarrow> engine_process \<Rightarrow> engine_process \<Rightarrow> bool" for room where
  poll: "ep_phase p = Serving \<Longrightarrow> ep_frames p = 0 \<Longrightarrow> \<not> ep_requested p \<Longrightarrow>
    serve_step room p (p\<lparr>ep_polls := Suc (ep_polls p)\<rparr>)"
| stand_down: "ep_phase p = Serving \<Longrightarrow> ep_frames p < room \<Longrightarrow>
    serve_step room p (p\<lparr>ep_frames := Suc (ep_frames p), ep_signals := Suc (ep_signals p), ep_requested := True,
      ep_log := ep_log p @ [standing_down signum]\<rparr>)"
| overflow: "ep_phase p = Serving \<Longrightarrow> room \<le> ep_frames p \<Longrightarrow> lines = [] \<or> lines = [standing_down signum] \<Longrightarrow>
    serve_step room p (p\<lparr>ep_phase := EngineFailed RecursionError, ep_frames := 0, ep_signals := Suc (ep_signals p),
      ep_requested := False, ep_is_shut_down := True, ep_workers := [],
      ep_log := ep_log p @ lines\<rparr>)"
| handler_returns: "ep_phase p = Serving \<Longrightarrow> ep_frames p = Suc n \<Longrightarrow> ep_is_shut_down p \<Longrightarrow>
    serve_step room p (p\<lparr>ep_frames := n\<rparr>)"
| leave_loop: "ep_phase p = Serving \<Longrightarrow> ep_frames p = 0 \<Longrightarrow> ep_requested p \<Longrightarrow>
    serve_step room p (p\<lparr>ep_phase := EngineStopped, ep_requested := False, ep_is_shut_down := True,
      ep_workers := [], ep_log := ep_log p @ [engine_stopped]\<rparr>)"
| worker_pass: "w \<in> set (ep_workers p) \<Longrightarrow> serve_step room p (p\<lparr>ep_passes := Suc (ep_passes p)\<rparr>)"
| worker_ends: "w \<in> set (ep_workers p) \<Longrightarrow>
    lines = [] \<or> (\<exists>text. lines = [(''error'', crash_event w, [(''error'', PStr text)])]) \<Longrightarrow>
    serve_step room p (p\<lparr>ep_workers := remove1 w (ep_workers p), ep_log := ep_log p @ lines\<rparr>)"

inductive_cases serve_stepE: "serve_step room p q"

section \<open>Probes\<close>

definition open_alpaca :: "settings \<Rightarrow> alpaca_client res" where
  "open_alpaca st = alpaca_init (the_str (alpaca_key_id st)) (the_str (alpaca_secret_key st)) (alpaca_paper st) None"

definition probe_account :: "'w http \<Rightarrow> settings \<Rightarrow> 'w \<Rightarrow> account res" where
  "probe_account http st w = (case open_alpaca st of Inl e \<Rightarrow> Inl e | Inr c \<Rightarrow> alpaca_account http c w)"

definition cmd_alpaca_check :: "formatter \<Rightarrow> (pyerr \<Rightarrow> string) \<Rightarrow> 'w http \<Rightarrow> settings \<Rightarrow> 'w \<Rightarrow> outcome" where
  "cmd_alpaca_check fmt msg http st w =
     (if \<not> has_keys st then ([''alpaca: keys not set (MT_ALPACA_KEY_ID / MT_ALPACA_SECRET_KEY)''], Inr 1)
      else attempt msg ''alpaca: request failed: '' (probe_account http st w)
        (\<lambda>a. ([''alpaca ok ['' @ (if alpaca_paper st then ''paper'' else ''LIVE'') @ '']: equity='' @ money fmt (ac_equity a)
               @ '' cash='' @ money fmt (ac_cash a) @ '' buying_power='' @ money fmt (ac_buying_power a)], Inr 0)))"

definition detail_text :: "formatter \<Rightarrow> (pyval \<Rightarrow> string) \<Rightarrow> check_detail \<Rightarrow> string" where
  "detail_text fmt rpr d = (case d of
       KeysSet \<Rightarrow> ''Alpaca keys are set''
     | KeysMissing \<Rightarrow> ''MT_ALPACA_KEY_ID / MT_ALPACA_SECRET_KEY not set''
     | DbReachable \<Rightarrow> ''reachable''
     | DbUnreachable \<Rightarrow> ''unreachable''
     | UniverseEmpty \<Rightarrow> ''resolves to 0 names (check MT_UNIVERSE)''
     | UniverseThin n \<Rightarrow> ''only '' @ int_str n @ '' names '' @ em_dash @ '' thin breadth''
     | UniverseSize n \<Rightarrow> int_str n @ '' names''
     | CeilingLow cap worth share \<Rightarrow> ''deploys only $'' @ fmt '',.0f'' cap @ '' of $'' @ fmt '',.0f'' worth @ '' equity (''
         @ fmt ''.0%'' share @ '') '' @ em_dash @ '' raise MT_CAPITAL_CEILING to use the account''
     | CeilingOk cap share \<Rightarrow> ''$'' @ fmt '',.0f'' cap @ '' (~'' @ fmt ''.0%'' share @ '')''
     | BookGoverned \<Rightarrow> ''size_book chassis '' @ em_dash @ '' governed 1/N''
     | BookTilted k \<Rightarrow> ''size_book chassis '' @ em_dash @ '' tilted (strength '' @ fmt ''g'' k @ '')''
     | BookOther w \<Rightarrow> ''risk_weighting='' @ rpr (PStr w) @ '' '' @ em_dash @ '' not the validated size_book chassis''
     | VolHigh v \<Rightarrow> fmt ''.0%'' v @ '': Monte-Carlo tail DD can exceed the 25% mandate (0.08 keeps it inside)''
     | VolSafe v \<Rightarrow> fmt ''.0%'' v @ '' (mandate-safe)''
     | ScheduleOff \<Rightarrow> ''MT_DAILY_CYCLE_ENABLED=false '' @ em_dash @ '' `serve` runs a health server but never trades''
     | ScheduleOn \<Rightarrow> ''fires once per trading day at the close''
     | WastedFetch names \<Rightarrow> join ''/'' names @ '' fetched every cycle but the governed-1/N book ignores all signals ''
         @ ''(tilt_strength=0) '' @ em_dash @ '' disable to speed the cycle, or backfill via `ingest-*`''
     | ModeLive \<Rightarrow> ''LIVE '' @ em_dash @ '' real orders once armed; confirm this is intended''
     | ModePaper \<Rightarrow> ''paper'')"

definition badge :: "level \<Rightarrow> string" where
  "badge l = (case l of LOk \<Rightarrow> '' ok '' | LWarn \<Rightarrow> ''WARN'' | LFail \<Rightarrow> ''FAIL'')"

definition level_text :: "level \<Rightarrow> string" where
  "level_text l = (case l of LOk \<Rightarrow> ''ok'' | LWarn \<Rightarrow> ''warn'' | LFail \<Rightarrow> ''fail'')"

definition cmd_preflight ::
  "formatter \<Rightarrow> (pyval \<Rightarrow> string) \<Rightarrow> 'w http \<Rightarrow> (string \<Rightarrow> int option \<Rightarrow> unit res) \<Rightarrow> settings \<Rightarrow> 'w \<Rightarrow> outcome" where
  "cmd_preflight fmt rpr http connect st w =
     (let equity = (if has_keys st
            then (case probe_account http st w of Inl e \<Rightarrow> None | Inr a \<Rightarrow> Some (ac_equity a)) else None);
          checks = preflight_checks st equity (check_database connect (database_url st))
                     (int (length (resolve_universe (universe st))));
          worst = worst_level checks
      in (map (\<lambda>c. ''['' @ badge (ck_level c) @ ''] '' @ ljust 16 (ck_name c) @ '' '' @ detail_text fmt rpr (ck_detail c)) checks
            @ [''preflight: '' @ upper (level_text worst)],
          Inr (if worst = LFail then 1 else 0)))"

definition pl_names :: "formatter \<Rightarrow> position list \<Rightarrow> string" where
  "pl_names fmt ps = join ''  '' (map (\<lambda>p. ps_symbol p @ '' '' @ fmt ''+,.0f'' (ps_unrealized_pl p)) ps)"

definition portfolio_summary :: "formatter \<Rightarrow> account \<Rightarrow> position list \<Rightarrow> string" where
  "portfolio_summary fmt a ps =
     (let ranked = sort_key (\<lambda>p. flt_key (ps_unrealized_pl p)) ps;
          day_pl = ac_equity a - ac_last_equity a
      in join nl
        ([''portfolio  equity='' @ money fmt (ac_equity a) @ ''  cash='' @ money fmt (ac_cash a) @ ''  deployed=''
            @ money fmt (sum_list (map ps_market_value ps)) @ '' across '' @ nat_str (length ps) @ '' position(s)'']
         @ (if flt_truthy (ac_last_equity a)
            then [''  today:          '' @ fmt ''+,.2f'' day_pl @ '' (''
                    @ fmt ''+.2f'' (fdiv day_pl (ac_last_equity a) * 100) @ ''%)'']
            else [])
         @ [''  unrealized P&L: '' @ fmt ''+,.2f'' (sum_list (map ps_unrealized_pl ps))]
         @ (if ranked = [] then []
            else [''  worst: '' @ pl_names fmt (take 3 ranked), ''  best:  '' @ pl_names fmt (rev (tail_of 3 ranked))])))"

definition cmd_status ::
  "formatter \<Rightarrow> (pyerr \<Rightarrow> string) \<Rightarrow> (pyval \<Rightarrow> string) \<Rightarrow> 'w http \<Rightarrow> settings \<Rightarrow> 'w \<Rightarrow> outcome" where
  "cmd_status fmt msg rpr http st w =
     (if \<not> has_keys st then ([''status: keys not set (MT_ALPACA_KEY_ID / MT_ALPACA_SECRET_KEY)''], Inr 1)
      else attempt msg ''status: request failed: ''
        (case open_alpaca st of Inl e \<Rightarrow> Inl e | Inr c \<Rightarrow>
         case alpaca_account http c w of Inl e \<Rightarrow> Inl e | Inr a \<Rightarrow>
         case alpaca_positions rpr http c w of Inl e \<Rightarrow> Inl e | Inr ps \<Rightarrow> Inr (a, ps))
        (\<lambda>(a, ps). ([portfolio_summary fmt a ps], Inr 0)))"

definition cmd_llm_check ::
  "(pyerr \<Rightarrow> string) \<Rightarrow> (string \<Rightarrow> anthropic \<Rightarrow> request \<Rightarrow> 'w \<Rightarrow> 'w \<times> pyval res) \<Rightarrow> settings \<Rightarrow> 'w \<Rightarrow> 'w \<times> outcome" where
  "cmd_llm_check msg post st w =
     (if \<not> str_set (anthropic_api_key st) then (w, ([''llm: MT_ANTHROPIC_API_KEY not set''], Inr 1))
      else
        let (w1, r) = (case anthropic_provider_from_settings (anthropic_api_key st) (anthropic_model st) of
               Inl e \<Rightarrow> (w, Inl e)
             | Inr a \<Rightarrow> anthropic_complete post a
                 \<lparr>rq_system = OtherSystem ''You are a terse connectivity check.'', rq_prompt = ''Reply with exactly: OK'',
                  rq_max_tokens = 16\<rparr> w)
        in (w1, attempt msg ''llm: request failed: '' r
              (\<lambda>reply. ([''llm ok ['' @ anthropic_model st @ '']: '' @ take 80 (strip reply)], Inr 0))))"

section \<open>One cycle\<close>

definition order_line :: "formatter \<Rightarrow> order \<Rightarrow> string" where
  "order_line fmt o1 =
     ''    '' @ ljust 4 (upper (side_text (od_side o1))) @ '' '' @ ljust 6 (od_symbol o1) @ '' qty='' @ fmt ''.4f'' (od_qty o1)
     @ (case od_filled_avg_price o1 of None \<Rightarrow> [] | Some p \<Rightarrow> '' @ '' @ fmt ''.2f'' p)
     @ ''  ['' @ status_text (od_status o1) @ '']''"

text \<open>The first line of the brief that is not blank: after \<open>strip()\<close> it is the first one.\<close>

definition brief_line :: "string \<Rightarrow> string" where
  "brief_line b = take 120 (takeWhile (\<lambda>c. \<not> is_linebreak c) (strip b))"

definition print_cycle :: "formatter \<Rightarrow> bool \<Rightarrow> cycle_result \<Rightarrow> string list" where
  "print_cycle fmt dry r =
     (let top = take 5 (rev (sort_key (\<lambda>kv. flt_key (snd kv)) (rev (cy_scores r))));
          shown = join ''  '' (map (\<lambda>(s, v). s @ ''='' @ fmt ''+.2f'' v) top)
      in [''cycle '' @ isoformat (cy_as_of r) @ ''  ['' @ (if dry then ''dry-run'' else ''live-paper'') @ '']'',
          ''  scores (top): '' @ (if shown = [] then ''(none)'' else shown),
          if cy_target_weights r = [] then ''  targets: (none '' @ em_dash @ '' nothing scored above threshold)''
          else ''  targets: '' @ join ''  '' (map (\<lambda>(s, w). s @ ''='' @ fmt ''.2%'' w) (sort_key fst (cy_target_weights r)))]
         @ (if cy_orders r = [] then [''  orders: (none '' @ em_dash @ '' already at target / dust-only)'']
            else (''  orders ('' @ nat_str (length (cy_orders r)) @ ''):'') # map (order_line fmt) (cy_orders r))
         @ [if str_set (cy_brief r) then ''  brief: '' @ brief_line (the_str (cy_brief r))
            else ''  brief: (no LLM configured '' @ em_dash @ '' set MT_ANTHROPIC_API_KEY for a narrated brief)''])"

record cycle_args =
  ca_dry_run :: bool
  ca_intraday :: bool

definition default_cycle_args :: cycle_args where
  "default_cycle_args = \<lparr>ca_dry_run = False, ca_intraday = False\<rparr>"

text \<open>\<open>generate\<close> is the seeded walk of the dry cycle, \<open>fetch\<close> the minute bars of the intraday one.\<close>

definition cmd_cycle ::
  "formatter \<Rightarrow> (pyerr \<Rightarrow> string) \<Rightarrow> library \<Rightarrow> (string list \<Rightarrow> nat \<Rightarrow> observation list) \<Rightarrow> 's services
   \<Rightarrow> (string list \<Rightarrow> datetime \<Rightarrow> datetime \<Rightarrow> string \<Rightarrow> string \<Rightarrow> payload list res) \<Rightarrow> 'b broker_ops \<Rightarrow> 's store_ops
   \<Rightarrow> datetime \<Rightarrow> pydate \<Rightarrow> settings \<Rightarrow> cycle_args \<Rightarrow> 's \<times> 'b \<Rightarrow> ('s \<times> 'b) \<times> outcome" where
  "cmd_cycle fmt msg L generate V fetch B S now today st args sb =
     (let (sb1, r) =
        (if ca_intraday args then run_intraday_cycle L B S now st False [] fetch None None None sb
         else if ca_dry_run args then (sb, run_dry_paper_cycle L generate now st 8 120)
         else run_live_paper_cycle L V B S now today st 150 [] sb)
      in (sb1, attempt msg ''cycle failed: '' r
            (\<lambda>res. (print_cycle fmt (\<not> ca_intraday args \<and> ca_dry_run args) res, Inr 0))))"

section \<open>Backfills\<close>

record backfill_args =
  bf_days :: int
  bf_budget :: real
  bf_symbols :: string
  bf_refresh :: bool

definition filings_args :: backfill_args where
  "filings_args = \<lparr>bf_days = 1095, bf_budget = 600, bf_symbols = [], bf_refresh = False\<rparr>"

definition fundamentals_args :: backfill_args where
  "fundamentals_args = \<lparr>bf_days = 0, bf_budget = 300, bf_symbols = [], bf_refresh = False\<rparr>"

definition massive_args :: backfill_args where
  "massive_args = \<lparr>bf_days = 365, bf_budget = 600, bf_symbols = [], bf_refresh = False\<rparr>"

definition stooq_args :: backfill_args where
  "stooq_args = \<lparr>bf_days = 2555, bf_budget = 600, bf_symbols = [], bf_refresh = False\<rparr>"

text \<open>\<open>[s.strip() for s in text.split(",") if s.strip()]\<close>, or the configured universe when that is empty.\<close>

definition listed_symbols :: "string \<Rightarrow> string list" where
  "listed_symbols text = map strip (filter (\<lambda>s. strip s \<noteq> []) (split_on (CHR '','') text))"

definition backfill_universe :: "settings \<Rightarrow> backfill_args \<Rightarrow> string list" where
  "backfill_universe st args =
     (if bf_symbols args \<noteq> [] then listed_symbols (bf_symbols args) else resolve_universe (universe st))"

definition upper_symbols :: "settings \<Rightarrow> string \<Rightarrow> string list" where
  "upper_symbols st text =
     (let listed = map upper (listed_symbols text) in if listed \<noteq> [] then listed else resolve_universe (universe st))"

definition symbols_to_fetch :: "string list \<Rightarrow> string set \<Rightarrow> string list" where
  "symbols_to_fetch names covered = (let have = upper ` covered in filter (\<lambda>s. upper s \<notin> have) names)"

definition covered_names :: "'s store_ops \<Rightarrow> 's \<Rightarrow> string \<Rightarrow> string set" where
  "covered_names S s dataset = (\<lambda>x. upper (o_entity_id x)) ` set (st_as_of S s DISTANT_FUTURE (q_of_dataset dataset))"

definition backfill_todo :: "'s store_ops \<Rightarrow> 's \<Rightarrow> string \<Rightarrow> string list \<Rightarrow> bool \<Rightarrow> string list" where
  "backfill_todo S s dataset names refresh =
     (if refresh then names else symbols_to_fetch names (covered_names S s dataset))"

definition coverage_note :: "nat \<Rightarrow> nat \<Rightarrow> string" where
  "coverage_note fetched skipped = ''('' @ nat_str fetched @ '' fetched, '' @ nat_str skipped @ '' already-covered skipped)''"

text \<open>\<open>db_open\<close> is the opening of the database with its schema; \<open>fetch\<close> the client's sweep under its budget.\<close>

definition cmd_ingest_filings ::
  "(pyerr \<Rightarrow> string) \<Rightarrow> unit res \<Rightarrow> (real \<Rightarrow> string list \<Rightarrow> int \<Rightarrow> form4_record list res) \<Rightarrow> 's store_ops \<Rightarrow> datetime
   \<Rightarrow> settings \<Rightarrow> backfill_args \<Rightarrow> 's \<Rightarrow> 's \<times> outcome" where
  "cmd_ingest_filings msg db_open fetch S now st args s =
     (let names = backfill_universe st args;
          todo = backfill_todo S s form4_dataset names (bf_refresh args);
          (s1, r) = (case db_open of Inl e \<Rightarrow> (s, Inl e) | Inr _ \<Rightarrow>
            case fetch (bf_budget args) todo (bf_days args) of Inl e \<Rightarrow> (s, Inl e) | Inr recs \<Rightarrow>
              (fst (ingest S True False (normalize_form4 now recs) s), Inr (recs, normalize_form4 now recs)))
      in (s1, attempt msg ''ingest-filings failed: '' r (\<lambda>(recs, obs).
            ([''ingest-filings: '' @ nat_str (length recs) @ '' Form-4 records over ~'' @ int_str (bf_days args) @ ''d -> ''
               @ nat_str (length obs) @ '' observations ingested '' @ coverage_note (length todo) (length names - length todo)],
             Inr 0))))"

definition cmd_ingest_fundamentals ::
  "(pyerr \<Rightarrow> string) \<Rightarrow> unit res \<Rightarrow> (real \<Rightarrow> string list \<Rightarrow> fundamental_record list res) \<Rightarrow> 's store_ops \<Rightarrow> datetime
   \<Rightarrow> settings \<Rightarrow> backfill_args \<Rightarrow> 's \<Rightarrow> 's \<times> outcome" where
  "cmd_ingest_fundamentals msg db_open fetch S now st args s =
     (let names = backfill_universe st args;
          todo = backfill_todo S s fundamental_dataset names (bf_refresh args);
          (s1, r) = (case db_open of Inl e \<Rightarrow> (s, Inl e) | Inr _ \<Rightarrow>
            case fetch (bf_budget args) todo of Inl e \<Rightarrow> (s, Inl e) | Inr recs \<Rightarrow>
              (fst (ingest S True False (normalize_fundamentals now recs) s), Inr (recs, normalize_fundamentals now recs)))
      in (s1, attempt msg ''ingest-fundamentals failed: '' r (\<lambda>(recs, obs).
            ([''ingest-fundamentals: '' @ nat_str (length recs) @ '' quarterly records -> '' @ nat_str (length obs)
               @ '' observations ingested '' @ coverage_note (length todo) (length names - length todo)], Inr 0))))"

record llm_args =
  la_window :: int
  la_budget :: int
  la_symbols :: string

definition default_llm_args :: llm_args where
  "default_llm_args = \<lparr>la_window = 7, la_budget = 0, la_symbols = []\<rparr>"

definition llm_budget :: "settings \<Rightarrow> llm_args \<Rightarrow> int" where
  "llm_budget st args = (if 0 < la_budget args then la_budget args else llm_daily_call_budget st)"

text \<open>\<open>post\<close> is the request to the hosted model; the provider counts its calls from zero in every run.\<close>

definition cmd_ingest_llm_signals ::
  "(pyerr \<Rightarrow> string) \<Rightarrow> nat \<Rightarrow> (pyval \<Rightarrow> string) \<Rightarrow> unit res \<Rightarrow> (string \<Rightarrow> anthropic \<Rightarrow> request \<Rightarrow> 'w \<Rightarrow> 'w \<times> pyval res)
   \<Rightarrow> 's store_ops \<Rightarrow> datetime \<Rightarrow> settings \<Rightarrow> llm_args \<Rightarrow> 's \<times> 'w \<Rightarrow> ('s \<times> 'w) \<times> outcome" where
  "cmd_ingest_llm_signals msg room rpr db_open post S now st args sw =
     (let (s, w) = sw; failed = ''ingest-llm-signals failed: '' in
      if \<not> str_set (anthropic_api_key st) then (sw, ([''ingest-llm-signals: MT_ANTHROPIC_API_KEY not set''], Inr 1))
      else case db_open of Inl e \<Rightarrow> (sw, ([failed @ msg e], Inr 1)) | Inr _ \<Rightarrow>
      case anthropic_provider_from_settings (anthropic_api_key st) (anthropic_model st) of
        Inl e \<Rightarrow> (sw, ([failed @ msg e], Inr 1))
      | Inr a \<Rightarrow>
        let (p, r) = extract_signals_for_universe room rpr S s (budgeted_complete (anthropic_complete post a))
              (upper_symbols st (la_symbols args)) now (la_window args) (new_budgeted w (llm_budget st args));
            s1 = (case r of Inl e \<Rightarrow> s | Inr xs \<Rightarrow>
                    if xs = [] then s else fst (ingest S True False (normalize_signals now xs) s))
        in ((s1, bp_inner p), attempt msg failed r (\<lambda>xs.
             ([''ingest-llm-signals: '' @ nat_str (length xs) @ '' signals extracted from news (LLM calls used: ''
                @ int_str (bp_calls p) @ ''/'' @ int_str (llm_budget st args) @ '')''], Inr 0))))"

text \<open>Prices from the two vendors and from files.\<close>

definition ingest_bars :: "'s store_ops \<Rightarrow> datetime \<Rightarrow> unit res \<Rightarrow> price_bar list res \<Rightarrow> 's \<Rightarrow> 's \<times> price_bar list res" where
  "ingest_bars S now db_open fetched s =
     (case db_open of Inl e \<Rightarrow> (s, Inl e) | Inr _ \<Rightarrow> case fetched of Inl e \<Rightarrow> (s, Inl e) | Inr bars \<Rightarrow>
        (fst (ingest S True False (normalize_prices now bars) s), Inr bars))"

definition bars_note :: "datetime \<Rightarrow> string \<Rightarrow> price_bar list \<Rightarrow> outcome" where
  "bars_note now what bars =
     ([what @ '': '' @ nat_str (length bars) @ '' bars -> '' @ nat_str (length (normalize_prices now bars))
         @ '' observations ingested''], Inr 0)"

definition cmd_ingest_prices_massive ::
  "(pyerr \<Rightarrow> string) \<Rightarrow> unit res \<Rightarrow> (string \<Rightarrow> string \<Rightarrow> real \<Rightarrow> string list \<Rightarrow> pydate \<Rightarrow> pydate \<Rightarrow> price_bar list res)
   \<Rightarrow> 's store_ops \<Rightarrow> datetime \<Rightarrow> pydate \<Rightarrow> settings \<Rightarrow> backfill_args \<Rightarrow> 's \<Rightarrow> 's \<times> outcome" where
  "cmd_ingest_prices_massive msg db_open fetch S now today st args s =
     (if \<not> str_set (massive_api_key st) then (s, ([''ingest-prices-massive: MT_MASSIVE_API_KEY not set''], Inr 1))
      else let (s1, r) = ingest_bars S now db_open (fetch (the_str (massive_api_key st)) (massive_base_url st)
                  (bf_budget args) (upper_symbols st (bf_symbols args)) (today - bf_days args) today) s
           in (s1, attempt msg ''ingest-prices-massive failed: '' r (bars_note now ''ingest-prices-massive'')))"

definition cmd_ingest_prices_stooq ::
  "(pyerr \<Rightarrow> string) \<Rightarrow> unit res \<Rightarrow> (real \<Rightarrow> string list \<Rightarrow> pydate \<Rightarrow> pydate \<Rightarrow> price_bar list res)
   \<Rightarrow> 's store_ops \<Rightarrow> datetime \<Rightarrow> pydate \<Rightarrow> settings \<Rightarrow> backfill_args \<Rightarrow> 's \<Rightarrow> 's \<times> outcome" where
  "cmd_ingest_prices_stooq msg db_open fetch S now today st args s =
     (let (s1, r) = ingest_bars S now db_open
            (fetch (bf_budget args) (upper_symbols st (bf_symbols args)) (today - bf_days args) today) s
      in (s1, attempt msg ''ingest-prices-stooq failed: '' r (bars_note now ''ingest-prices-stooq'')))"

text \<open>A path is a file, or a directory of entries (name, whether a file, contents); a suffix starts at the last dot that
  is neither the first nor the last character of the name.\<close>

datatype price_path = PriceFile "string \<times> string res" | PriceDir "(string \<times> bool \<times> string res) list"

definition price_suffix :: "string \<Rightarrow> string" where
  "price_suffix name =
     (let tail = takeWhile (\<lambda>c. c \<noteq> CHR ''.'') (rev name)
      in if tail = [] \<or> length name \<le> Suc (length tail) then [] else CHR ''.'' # rev tail)"

definition iter_price_files :: "price_path \<Rightarrow> (string \<times> string res) list" where
  "iter_price_files path = (case path of PriceFile f \<Rightarrow> [f] | PriceDir entries \<Rightarrow>
     sort_key fst (map (\<lambda>(n, is_file, t). (n, t))
       (filter (\<lambda>(n, is_file, t). is_file \<and> lower (price_suffix n) \<in> {''.csv'', ''.txt''}) entries)))"

definition cmd_ingest_prices_csv ::
  "(pyerr \<Rightarrow> string) \<Rightarrow> unit res \<Rightarrow> (string \<Rightarrow> csv_row list) \<Rightarrow> 's store_ops \<Rightarrow> datetime \<Rightarrow> string \<Rightarrow> price_path option
   \<Rightarrow> string option \<Rightarrow> 's \<Rightarrow> 's \<times> outcome" where
  "cmd_ingest_prices_csv msg db_open csv_rows S now path found symbol s =
     (case found of None \<Rightarrow> (s, ([''ingest-prices-csv: path not found: '' @ path], Inr 1)) | Some p \<Rightarrow>
      let files = iter_price_files p;
          (s1, r) = ingest_bars S now db_open (Inr (read_price_files csv_rows files symbol)) s
      in (s1, attempt msg ''ingest-prices-csv failed: '' r (\<lambda>bars.
            ([''ingest-prices-csv: '' @ nat_str (length bars) @ '' bars across '' @ nat_str (card (pb_symbol ` set bars))
               @ '' symbols from '' @ nat_str (length files) @ '' file(s) -> ''
               @ nat_str (length (normalize_prices now bars)) @ '' observations ingested''], Inr 0))))"

definition cmd_insider_sleeve ::
  "formatter \<Rightarrow> (pyerr \<Rightarrow> string) \<Rightarrow> (pyval \<Rightarrow> string) \<Rightarrow> 's services \<Rightarrow> 'b broker_ops \<Rightarrow> 's store_ops \<Rightarrow> datetime \<Rightarrow> pydate
   \<Rightarrow> settings \<Rightarrow> 's \<times> 'b \<Rightarrow> ('s \<times> 'b) \<times> outcome" where
  "cmd_insider_sleeve fmt msg rpr V B S now today st sb =
     (let (sb1, r) = run_insider_sleeve_live_pass rpr B S now today st [] 150 (sv_bars V) (sv_filings V) (sv_study V) sb;
          shown = (\<lambda>xs. if xs = [] then ''-'' else rpr (PList (map PStr xs)))
      in (sb1, attempt msg ''insider-sleeve failed: '' r (\<lambda>res.
            ((''insider-sleeve [as_of='' @ date_iso (dt_date (sleeve_result.sr_as_of res)) @ '']  opened=''
               @ shown (sleeve_result.sr_opened res) @ ''  closed='' @ shown (sleeve_result.sr_closed res) @ ''  orders=''
               @ nat_str (length (sleeve_result.sr_orders res)))
             # map (\<lambda>o1. ''  '' @ ljust 4 (side_text (od_side o1)) @ '' '' @ ljust 8 (od_symbol o1) @ '' qty=''
                       @ fmt ''g'' (od_qty o1) @ ''  status='' @ status_text (od_status o1)) (sleeve_result.sr_orders res),
             Inr 0))))"

section \<open>The engine does not stop\<close>









text \<open>A signal beyond the room ends the process with the exception.\<close>

lemma signals_beyond_the_room:
  assumes "ep_phase p = Serving" "ep_frames p = room"
  shows "\<exists>q. serve_step room p q \<and> ep_phase q = EngineFailed RecursionError \<and> ep_workers q = []"
proof (intro exI conjI)
  show "serve_step room p (p\<lparr>ep_phase := EngineFailed RecursionError, ep_frames := 0, ep_signals := Suc (ep_signals p),
      ep_requested := False, ep_is_shut_down := True, ep_workers := [], ep_log := ep_log p @ []\<rparr>)"
    by (rule overflow) (simp_all add: assms)
qed simp_all

section \<open>Arming\<close>

definition wanted_workers :: "settings \<Rightarrow> worker set" where
  "wanted_workers st = {w. case w of IntradayLoop \<Rightarrow> intraday_enabled st | DailySchedule \<Rightarrow> daily_cycle_enabled st
     | NewsSleeveLoop \<Rightarrow> news_sleeve_enabled st}"

text \<open>The engine starts exactly the enabled workers, each once, and none without both keys.\<close>

theorem serve_arms_what_is_enabled:
  assumes "start_engine st port reg = Inr (reg1, ws, logs)"
  shows "distinct ws" and "set ws = (if has_keys st then wanted_workers st else {})"
proof -
  have arm: "fst (arm on st w d e i) = (if on \<and> has_keys st then [w] else [])" for on w d e i
    by (simp add: arm_def)
  have ws: "ws = fst (maybe_start_intraday_loop st) @ fst (maybe_start_daily_schedule st) @ fst (maybe_start_news_sleeve_loop st)"
    using assms by (simp add: start_engine_def split: sum.splits prod.splits)
  show "distinct ws" unfolding ws maybe_start_intraday_loop_def maybe_start_daily_schedule_def
      maybe_start_news_sleeve_loop_def arm by simp
  show "set ws = (if has_keys st then wanted_workers st else {})"
    unfolding ws maybe_start_intraday_loop_def maybe_start_daily_schedule_def maybe_start_news_sleeve_loop_def arm
    by (auto simp: wanted_workers_def split: worker.splits)
qed

text \<open>Preflight says of a daily schedule that is off that \<open>serve\<close> never trades; the intraday loop is then still started.\<close>

lemma schedule_off_still_trades:
  assumes "has_keys st" "intraday_enabled st" "\<not> daily_cycle_enabled st" "start_engine st port reg = Inr (reg1, ws, logs)"
  shows "IntradayLoop \<in> set ws \<and> mk_check LWarn ''daily_schedule'' ScheduleOff \<in> set (preflight_checks st equity ok n)"
  using assms(1-3) serve_arms_what_is_enabled(2) [OF assms(4)]
  by (simp add: wanted_workers_def preflight_checks_def operation_checks_def)

section \<open>A backfill resumes\<close>

text \<open>Rows as the gateway writes them: under their deterministic id, with coordinates free of the separator.\<close>

definition gateway_row :: "observation \<Rightarrow> bool" where
  "gateway_row x \<longleftrightarrow> o_id x = deterministic_id x \<and> plain_ids x"

lemma same_id_same_entity:
  "plain_ids a \<Longrightarrow> plain_ids b \<Longrightarrow> deterministic_id a = deterministic_id b \<Longrightarrow>
     o_dataset a = o_dataset b \<and> o_entity_id a = o_entity_id b"
  by (simp add: deterministic_id_coordinates coordinates_def)

lemma plain_ids_stamped [simp]: "plain_ids (with_deterministic_id x) = plain_ids x"
  by (simp add: plain_ids_def)

lemma ran_put_distinct: "distinct (map o_id xs) \<Longrightarrow> y \<in> ran (put_all xs m) \<longleftrightarrow> y \<in> set xs \<or> (\<exists>i. m i = Some y \<and> i \<notin> o_id ` set xs)"
proof (induction xs arbitrary: m)
  case (Cons x xs)
  have "y \<in> ran (put_all (x # xs) m) \<longleftrightarrow> y \<in> ran (put_all xs (m(o_id x \<mapsto> x)))" by (simp add: put_all_def)
  also have "\<dots> \<longleftrightarrow> y \<in> set xs \<or> (\<exists>i. (m(o_id x \<mapsto> x)) i = Some y \<and> i \<notin> o_id ` set xs)"
    using Cons by simp
  finally show ?case using Cons.prems by (auto split: if_splits)
qed (simp add: put_all_def ran_def)

definition dataset_names :: "(uuid \<rightharpoonup> observation) \<Rightarrow> string \<Rightarrow> string set" where
  "dataset_names m d = o_entity_id ` {x \<in> ran m. o_dataset x = d \<and> o_knowledge_time x \<le> DISTANT_FUTURE}"

text \<open>Deduplication and overwriting keep the names: rows that share an id share their coordinates.\<close>

lemma unique_batch_names:
  assumes "\<forall>x \<in> set xs. plain_ids x"
  shows "o_entity_id ` set (unique_batch xs) = o_entity_id ` set xs"
proof (intro equalityI subsetI)
  fix n assume "n \<in> o_entity_id ` set (unique_batch xs)"
  then show "n \<in> o_entity_id ` set xs" using unique_batch_members by fastforce
next
  fix n assume "n \<in> o_entity_id ` set xs"
  then obtain x where x: "x \<in> set xs" "n = o_entity_id x" by auto
  then obtain y where y: "y \<in> set (unique_batch xs)" "o_id y = deterministic_id x"
    using unique_batch_id_set [of xs] by (metis image_iff)
  obtain z where z: "z \<in> set xs" "y = with_deterministic_id z" using unique_batch_members [OF y(1)] by blast
  then have "o_entity_id z = o_entity_id x" using same_id_same_entity [of z x] assms x(1) y(2) by simp
  then show "n \<in> o_entity_id ` set (unique_batch xs)" using x(2) y(1) z(2) by (intro image_eqI [where x = y]) simp_all
qed

lemma put_all_names:
  assumes "distinct (map o_id xs)"
    and new: "\<And>x. x \<in> set xs \<Longrightarrow> gateway_row x \<and> o_dataset x = d \<and> o_knowledge_time x \<le> DISTANT_FUTURE"
    and old: "\<And>x. x \<in> ran m \<Longrightarrow> gateway_row x" "\<And>i x. m i = Some x \<Longrightarrow> o_id x = i"
  shows "dataset_names (put_all xs m) d = dataset_names m d \<union> o_entity_id ` set xs"
proof (intro equalityI subsetI)
  fix n assume "n \<in> dataset_names (put_all xs m) d"
  then show "n \<in> dataset_names m d \<union> o_entity_id ` set xs"
    by (auto simp: dataset_names_def ran_put_distinct [OF assms(1)] intro: ranI)
next
  fix n assume n: "n \<in> dataset_names m d \<union> o_entity_id ` set xs"
  show "n \<in> dataset_names (put_all xs m) d"
  proof (cases "n \<in> o_entity_id ` set xs")
    case True
    then show ?thesis using new by (auto simp: dataset_names_def ran_put_distinct [OF assms(1)])
  next
    case False
    then obtain i x where x: "m i = Some x" "o_dataset x = d" "o_knowledge_time x \<le> DISTANT_FUTURE" "n = o_entity_id x"
      using n by (auto simp: dataset_names_def ran_def)
    have "o_entity_id y = n" if "y \<in> set xs" "o_id y = i" for y
      using same_id_same_entity [of y x] new [OF that(1)] old(1) [OF ranI [of m, OF x(1)]] old(2) [OF x(1)] that(2) x(4)
      by (simp add: gateway_row_def)
    then have "i \<notin> o_id ` set xs" using False by auto
    then show ?thesis using x by (auto simp: dataset_names_def ran_put_distinct [OF assms(1)])
  qed
qed

context bitemporal_store
begin

lemma covered_dataset_names: "inv s \<Longrightarrow> covered_names S s d = upper ` dataset_names (rows s) d"
proof -
  assume s: "inv s"
  let ?A = "st_as_of S s DISTANT_FUTURE (q_of_dataset d)"
  have "o_entity_id ` set ?A = dataset_names (rows s) d"
  proof (intro equalityI subsetI)
    fix n assume "n \<in> o_entity_id ` set ?A"
    then show "n \<in> dataset_names (rows s) d"
      using as_of_admitted [OF s] by (fastforce simp: dataset_names_def visible_dataset)
  next
    fix n assume "n \<in> dataset_names (rows s) d"
    then obtain x where x: "x \<in> ran (rows s)" "visible DISTANT_FUTURE (q_of_dataset d) x" "n = o_entity_id x"
      by (auto simp: dataset_names_def visible_dataset)
    obtain v where "v \<in> set ?A" "logical_key v = logical_key x"
      using as_of_supersedes [OF s _ x(1,2)] by auto
    then show "n \<in> o_entity_id ` set ?A" using x(3) by (intro image_eqI [where x = v]) (simp_all add: logical_key_def)
  qed
  then show ?thesis by (auto simp: covered_names_def image_image [symmetric])
qed

lemma ingest_dataset_names:
  assumes "inv s" "\<forall>x \<in> ran (rows s). gateway_row x"
    and batch: "\<forall>x \<in> set xs. plain_ids x \<and> o_dataset x = d \<and> o_knowledge_time x \<le> DISTANT_FUTURE"
  shows "dataset_names (rows (fst (ingest S True False xs s))) d = dataset_names (rows s) d \<union> o_entity_id ` set xs"
proof -
  have u: "gateway_row y \<and> o_dataset y = d \<and> o_knowledge_time y \<le> DISTANT_FUTURE" if "y \<in> set (unique_batch xs)" for y
    using unique_batch_members [OF that] batch by (auto simp: gateway_row_def)
  have "rows (fst (ingest S True False xs s)) = put_all (unique_batch xs) (rows s)"
    using assms(1) by (simp add: ingest_accepts rows_upsert)
  moreover have "dataset_names (put_all (unique_batch xs) (rows s)) d
      = dataset_names (rows s) d \<union> o_entity_id ` set (unique_batch xs)"
    using u assms(2) rows_id [OF assms(1)] by (intro put_all_names unique_batch_distinct) blast+
  ultimately show ?thesis using unique_batch_names [of xs] batch by simp
qed

lemma todo_after_ingest:
  assumes "inv s" "\<forall>x \<in> ran (rows s). gateway_row x"
    and "\<forall>x \<in> set xs. plain_ids x \<and> o_dataset x = d \<and> o_knowledge_time x \<le> DISTANT_FUTURE"
  shows "backfill_todo S (fst (ingest S True False xs s)) d names False
    = filter (\<lambda>n. upper n \<notin> upper ` upper ` o_entity_id ` set xs) (backfill_todo S s d names False)"
  using assms by (auto simp: backfill_todo_def symbols_to_fetch_def covered_dataset_names ingest_inv ingest_dataset_names
      Let_def image_Un intro!: filter_cong)

end

lemma upper_char_idem: "upper_char (upper_char c) = upper_char c"
proof (cases "97 \<le> (of_char c :: nat) \<and> (of_char c :: nat) \<le> 122")
  case True
  then have "((of_char c :: nat) - 32) mod 256 = of_char c - 32" by (intro mod_less) linarith
  moreover have "\<not> 97 \<le> (of_char c :: nat) - 32" using True by linarith
  ultimately show ?thesis using True by (simp add: upper_char_def Let_def of_char_of)
qed (auto simp: upper_char_def Let_def)

lemma upper_upper [simp]: "upper (upper s) = upper s"
  by (simp add: upper_def upper_char_idem)

text \<open>What the fetched filings must be: tickers free of the separator, dates of the calendar.\<close>

definition plain_filing :: "form4_record \<Rightarrow> bool" where
  "plain_filing r \<longleftrightarrow> CHR ''|'' \<notin> set (upper (f4_issuer_ticker r))
     \<and> valid_dt (day_close (f4_transaction_date r)) \<and> valid_dt (day_close (f4_filing_date r))
     \<and> day_close (f4_filing_date r) \<le> DISTANT_FUTURE"

lemma normalized_filing:
  "x \<in> set (normalize_form4 now recs) \<Longrightarrow> \<forall>r \<in> set recs. plain_filing r \<Longrightarrow>
     plain_ids x \<and> o_dataset x = form4_dataset \<and> o_knowledge_time x \<le> DISTANT_FUTURE"
  by (auto simp: normalize_form4_def form4_observation_def plain_filing_def plain_ids_def form4_dataset_def)

text \<open>C39: a backfill resumes where it stopped, but only past the names that have filings.  After a run of
  \<open>ingest-filings\<close> on any store that meets the contract, the names the next run will fetch are, in order, those of
  this run without the ones of which a filing came back; a name that has no filing to return stays in its
  place, ahead of the names the budget did not reach.\<close>

theorem backfill_resumes_past_the_filed:
  assumes store: "bitemporal_store S rows I" "I s" "\<forall>x \<in> ran (rows s). gateway_row x"
    and args: "\<not> bf_refresh args" "todo = backfill_todo S s form4_dataset (backfill_universe st args) False"
    and fetched: "fetch (bf_budget args) todo (bf_days args) = Inr recs" "\<forall>r \<in> set recs. plain_filing r"
    and run: "cmd_ingest_filings msg (Inr ()) fetch S now st args s = (s1, out)"
  shows "snd out = Inr 0
    \<and> backfill_todo S s1 form4_dataset (backfill_universe st args) False
        = filter (\<lambda>n. upper n \<notin> (\<lambda>r. upper (f4_issuer_ticker r)) ` set recs) todo"
proof -
  have s1: "s1 = fst (ingest S True False (normalize_form4 now recs) s)" and out: "snd out = Inr 0"
    using run args fetched(1) by (auto simp: cmd_ingest_filings_def Let_def attempt_def)
  let ?xs = "normalize_form4 now recs"
  have "upper ` upper ` o_entity_id ` set ?xs = (\<lambda>r. upper (f4_issuer_ticker r)) ` set recs"
    by (simp add: normalize_form4_def form4_observation_def image_image)
  moreover have "backfill_todo S s1 form4_dataset (backfill_universe st args) False
      = filter (\<lambda>n. upper n \<notin> upper ` upper ` o_entity_id ` set ?xs) todo"
    unfolding s1 args(2) using normalized_filing [OF _ fetched(2)]
    by (intro bitemporal_store.todo_after_ingest [OF store]) blast
  ultimately show ?thesis using out by simp
qed

definition sample_filing :: form4_record where
  "sample_filing = \<lparr>f4_issuer_ticker = ''AAPL'', f4_insider_name = ''Doe'', f4_transaction_code = ''P'',
     f4_transaction_date = 738000, f4_filing_date = 738002, f4_insider_title = None, f4_shares = Some 10,
     f4_price_per_share = None\<rparr>"

lemma sample_filing_plain: "plain_filing sample_filing"
  by code_simp

lemma backfill_resumes_past_the_filed_witness:
  "(let args = filings_args\<lparr>bf_symbols := ''AAPL, BRK''\<rparr>;
        (s1, out) = cmd_ingest_filings (\<lambda>e. []) (Inr ()) (\<lambda>b names d. Inr [sample_filing]) mem_ops 0 default_settings args mem_empty
    in snd out = Inr 0
       \<and> backfill_todo mem_ops s1 form4_dataset (backfill_universe default_settings args) False = [''BRK''])"
proof -
  let ?args = "filings_args\<lparr>bf_symbols := ''AAPL, BRK''\<rparr>"
  let ?fetch = "\<lambda>b names d. Inr [sample_filing] :: form4_record list res"
  let ?run = "cmd_ingest_filings (\<lambda>e. []) (Inr ()) ?fetch mem_ops 0 default_settings ?args mem_empty"
  obtain s1 out where run: "?run = (s1, out)" by (cases ?run)
  have todo: "backfill_todo mem_ops mem_empty form4_dataset (backfill_universe default_settings ?args) False = [''AAPL'', ''BRK'']"
    by code_simp
  have rows: "\<forall>x \<in> ran (mem_rows mem_empty). gateway_row x" by (simp add: mem_rows_def mem_empty_def)
  have "snd out = Inr 0 \<and> backfill_todo mem_ops s1 form4_dataset (backfill_universe default_settings ?args) False
      = filter (\<lambda>n. upper n \<notin> (\<lambda>r. upper (f4_issuer_ticker r)) ` set [sample_filing]) [''AAPL'', ''BRK'']"
    by (rule backfill_resumes_past_the_filed [where fetch = ?fetch, OF mem.bitemporal_store_axioms mem_inv_empty rows _
          todo [symmetric] refl _ run]) (simp_all add: filings_args_def sample_filing_plain)
  moreover have "filter (\<lambda>n. upper n \<notin> (\<lambda>r. upper (f4_issuer_ticker r)) ` set [sample_filing]) [''AAPL'', ''BRK''] = [''BRK'']"
    by code_simp
  ultimately have "snd out = Inr 0 \<and> backfill_todo mem_ops s1 form4_dataset (backfill_universe default_settings ?args) False = [''BRK'']"
    by (rule subst [rotated])
  then show ?thesis unfolding Let_def run prod.case .
qed

text \<open>A single stored filing covers a name, whichever pass stored it and however little of the backfill's window it
  reaches.\<close>

lemma one_row_covers:
  assumes "bitemporal_store S rows I" "I s" "x \<in> ran (rows s)" "o_dataset x = form4_dataset"
    and "o_knowledge_time x \<le> DISTANT_FUTURE" "upper (o_entity_id x) = upper n"
  shows "n \<notin> set (backfill_todo S s form4_dataset names False)"
proof -
  have "o_entity_id x \<in> dataset_names (rows s) form4_dataset" using assms(3-5) by (auto simp: dataset_names_def)
  then have "upper n \<in> covered_names S s form4_dataset"
    using bitemporal_store.covered_dataset_names [OF assms(1,2)] assms(6) by (metis imageI)
  then have "upper n \<in> upper ` covered_names S s form4_dataset" by (metis imageI upper_upper)
  then show ?thesis by (simp add: backfill_todo_def symbols_to_fetch_def Let_def)
qed

end
