(* ===== verification/Lab.thy ===== *)
theory Lab
  imports Cli Replay Study Backtest Sleeves Universe Validation
begin

text \<open>
  The research commands of \<open>cli.py\<close>: the forecaster's gate, grading and self-evaluation, the simulation of the live
  strategy, the event study, the preview of the insider sleeve, the universe screen, the measured information
  coefficients with the sealed holdout, and the replay.  The parameters are those of the operations they call.
\<close>

section \<open>Bars first\<close>

type_synonym bars_client = "string list \<Rightarrow> pydate \<Rightarrow> pydate \<Rightarrow> string \<Rightarrow> price_bar list res"

text \<open>The shared opening: the store, the last days of bars for the universe, and what the command computes on it.\<close>

definition after_bars ::
  "'s store_ops \<Rightarrow> datetime \<Rightarrow> pydate \<Rightarrow> unit res \<Rightarrow> bars_client \<Rightarrow> settings \<Rightarrow> int \<Rightarrow> ('s \<Rightarrow> 'a res) \<Rightarrow> 's \<Rightarrow> 's \<times> 'a res" where
  "after_bars S now today db_open fetch st n_days body s =
     (case ingest_bars S now db_open (fetch (resolve_universe (universe st)) (today - n_days) today (alpaca_data_feed st)) s of
        (s1, Inl e) \<Rightarrow> (s1, Inl e) | (s1, Inr _) \<Rightarrow> (s1, body s1))"

definition cmd_validate_forecaster ::
  "formatter \<Rightarrow> (pyerr \<Rightarrow> string) \<Rightarrow> 'm learner \<Rightarrow> (pyval \<Rightarrow> string) \<Rightarrow> unit res \<Rightarrow> bars_client \<Rightarrow> 's store_ops \<Rightarrow> datetime
   \<Rightarrow> pydate \<Rightarrow> settings \<Rightarrow> 's \<Rightarrow> 's \<times> outcome" where
  "cmd_validate_forecaster fmt msg K rpr db_open fetch S now today st s =
     (if \<not> has_keys st then (s, ([''validate-forecaster: Alpaca keys not set''], Inr 1))
      else let names = resolve_universe (universe st);
               (s1, r) = after_bars S now today db_open fetch st 400 (\<lambda>s1. forecaster_vs_baseline_auc K rpr S s1 names now 5) s
           in (s1, attempt msg ''validate-forecaster failed: '' r (\<lambda>a.
                let beats = au_baseline a < au_forecast_cv a in
                ([''validate-forecaster ['' @ nat_str (au_n_samples a) @ '' samples, '' @ nat_str (length names) @ '' names]'',
                  ''  forecast  CV AUC: '' @ fmt ''.4f'' (au_forecast_cv a),
                  ''  baseline     AUC: '' @ fmt ''.4f'' (au_baseline a),
                  ''  verdict: forecaster '' @ (if beats then ''BEATS'' else ''does NOT beat'') @ '' the baseline -> ''
                    @ (if beats then ''MT_SCORER=forecast is justified'' else ''keep MT_SCORER=composite'')], Inr 0))))"

definition cmd_score_predictions ::
  "formatter \<Rightarrow> (pyerr \<Rightarrow> string) \<Rightarrow> library \<Rightarrow> unit res \<Rightarrow> bars_client \<Rightarrow> 's store_ops \<Rightarrow> datetime \<Rightarrow> pydate \<Rightarrow> settings
   \<Rightarrow> 's \<Rightarrow> 's \<times> outcome" where
  "cmd_score_predictions fmt msg L db_open fetch S now today st s =
     (if \<not> has_keys st then (s, ([''score-predictions: Alpaca keys not set''], Inr 1))
      else let (s1, r) = after_bars S now today db_open fetch st 180
                 (\<lambda>s1. grade_predictions (lb_corr L) (lb_repr L) S s1 now 5 None (2 / 100)) s
           in (s1, attempt msg ''score-predictions failed: '' r (\<lambda>g.
                (if gr_n g = 0 then [''score-predictions: nothing ready to grade yet (run cycles, then wait the horizon)'']
                 else [''score-predictions ['' @ nat_str (gr_n g) @ '' graded]'',
                       ''  brier:    '' @ fmt ''.4f'' (Fin (gr_brier g)) @ ''  (lower better; 0.25 = coin-flip)'',
                       ''  hit_rate: '' @ fmt ''.2%'' (Fin (gr_hit_rate g)), ''  signal IC (vs forward return):'']
                      @ map (\<lambda>(k, v). ''    '' @ ljust 26 k @ '' '' @ fmt ''+.3f'' v) (by_strength (gr_ic g))
                      @ (if gr_pruned g = [] then []
                         else [''  decayed -> consider pruning: '' @ join '', '' (gr_pruned g)]), Inr 0))))"

record evaluate_args =
  va_model :: string
  va_reflect :: bool

definition default_evaluate_args :: evaluate_args where
  "default_evaluate_args = \<lparr>va_model = ''composite'', va_reflect = False\<rparr>"

text \<open>The reflection runs after the \<open>try\<close>: what its provider raises ends the command.\<close>

definition cmd_evaluate ::
  "formatter \<Rightarrow> (pyerr \<Rightarrow> string) \<Rightarrow> library \<Rightarrow> (string \<Rightarrow> anthropic \<Rightarrow> request \<Rightarrow> 'w \<Rightarrow> 'w \<times> pyval res) \<Rightarrow> unit res
   \<Rightarrow> bars_client \<Rightarrow> 's store_ops \<Rightarrow> datetime \<Rightarrow> pydate \<Rightarrow> settings \<Rightarrow> evaluate_args \<Rightarrow> 's \<times> 'w \<Rightarrow> ('s \<times> 'w) \<times> outcome" where
  "cmd_evaluate fmt msg L post db_open fetch S now today st args sw =
     (let (s, w) = sw in
      if \<not> has_keys st then (sw, ([''evaluate: Alpaca keys not set''], Inr 1))
      else let (s1, r) = after_bars S now today db_open fetch st 180
                 (\<lambda>s1. build_trade_journal (lb_repr L) S s1 now (va_model args) 5) s
           in (case r of
                 Inl e \<Rightarrow> ((s1, w), ([''evaluate failed: '' @ msg e], Inr 1))
               | Inr j \<Rightarrow>
                   let report = attribute_performance (lb_corr L) j in
                   if va_reflect args \<and> str_set (anthropic_api_key st)
                   then (case anthropic_provider_from_settings (anthropic_api_key st) (anthropic_model st) of
                           Inl e \<Rightarrow> ((s1, w), ([], Inl e))
                         | Inr a \<Rightarrow> (case reflect fmt report j (Some (anthropic_complete post a)) w of
                                      (w1, Inl e) \<Rightarrow> ((s1, w1), ([], Inl e))
                                    | (w1, Inr t) \<Rightarrow> ((s1, w1), ([t], Inr 0))))
                   else ((s1, w), ([evaluation_summary_markdown fmt report], Inr 0))))"

section \<open>simulate and replay\<close>

text \<open>\<open>xs[60::step]\<close>: a step of zero raises, a negative one walks back from the sixtieth element.\<close>

definition from_sixtieth :: "int \<Rightarrow> 'a list \<Rightarrow> 'a list res" where
  "from_sixtieth step xs =
     (if step = 0 then Inl ValueError
      else if 0 < step then Inr (every_nth (nat step) 0 (drop 60 xs))
      else Inr (every_nth (nat (- step)) 0 (rev (take 61 xs))))"

record simulate_args =
  sm_days :: int
  sm_rebalance :: int

definition default_simulate_args :: simulate_args where
  "default_simulate_args = \<lparr>sm_days = 500, sm_rebalance = 5\<rparr>"

definition scores_of :: "(datetime, series) dict \<Rightarrow> score_map" where
  "scores_of d = map_of d"

definition insider_scores_at ::
  "(pyval \<Rightarrow> string) \<Rightarrow> mem_store \<Rightarrow> string list \<Rightarrow> datetime list \<Rightarrow> (datetime, series) dict res" where
  "insider_scores_at rpr mem names schedule =
     map_res (\<lambda>t. map_sum id (Pair t) (ft_compute (insider_feature rpr 90 False mem_ops) mem t names)) schedule"

text \<open>The mean of the z-scored signals of one date, from the panel where a feature can be.\<close>

definition stacked_scores_at ::
  "(pyval \<Rightarrow> string) \<Rightarrow> mem_store \<Rightarrow> panel \<Rightarrow> string list \<Rightarrow> datetime \<Rightarrow> (datetime \<times> series) res" where
  "stacked_scores_at rpr mem p names t =
     (case map_res (\<lambda>f. ic_column f mem (panel_slice p t) t names) (stack_features rpr mem_ops) of
        Inl e \<Rightarrow> Inl e
      | Inr cols \<Rightarrow>
          (let zs = map cross_sectional_zscore (vals cols)
           in Inr (t, map (\<lambda>(i, sy). (sy, series_mean (map (\<lambda>z. z ! i) zs))) (enumerate 0 names))))"

definition sim_limits :: "settings \<Rightarrow> risk_limits" where
  "sim_limits st =
     default_limits\<lparr>lim_max_position_weight := max_position_weight st, lim_max_gross_exposure := max_gross_exposure st,
       lim_max_net_exposure := max_net_exposure st\<rparr>"

definition sim_composite :: "settings \<Rightarrow> composite_params" where
  "sim_composite st =
     \<lparr>cp_momentum_lookback = 60, cp_meanrev_lookback = 5, cp_vol_window = 20,
      cp_max_positions = (if max_positions st = 0 then 20 else max_positions st), cp_top_quantile = 3 / 10\<rparr>"

text \<open>The strategies compared, in the order of the report, each with its cost model; \<open>asc\<close> and \<open>desc\<close> are pandas'
  \<open>sort_values\<close>.\<close>

definition governed :: "library \<Rightarrow> settings \<Rightarrow> strategy \<Rightarrow> flt \<Rightarrow> string \<Rightarrow> strategy" where
  "governed L st inner max_gross name = vol_targeted_strategy (lb_cov L) inner (target_vol st) max_gross 90 name"

definition sim_strategies ::
  "library \<Rightarrow> (series \<Rightarrow> series) \<Rightarrow> settings \<Rightarrow> score_map \<Rightarrow> score_map \<Rightarrow> nat \<Rightarrow> (strategy \<times> costs) list" where
  "sim_strategies L asc st insider stacked breadth =
     (let desc = lb_sort_descending L; max_pos = cp_max_positions (sim_composite st);
          basic = basic_costs default_costs;
          base = composite_strategy desc (sim_composite st) None;
          tilted = (composite_strategy desc (sim_composite st) (Some insider))\<lparr>sg_name := ''composite+insider''\<rparr>;
          stacked_raw = stacked_signal_strategy desc stacked (int (max 30 (breadth div 2)));
          tilt = score_tilt_strategy stacked 1;
          sized = (\<lambda>scores k name. (sized_book_strategy (lb_cov L) (target_vol st) (sim_limits st) scores k 90)\<lparr>sg_name := name\<rparr>)
      in [(base, basic),
          (governed L st tilted 1 ''+insider@vol'', basic),
          (governed L st (long_short_insider_strategy asc insider 10 1) 2 ''ls_insider@vol'', borrow_costs default_costs 50),
          (governed L st (insider_long_strategy desc insider max_pos) 1 ''insider_long@vol'', basic),
          (stacked_raw, basic),
          (governed L st stacked_raw 1 ''stacked@vol'', basic),
          (tilt, basic),
          (governed L st tilt 1 ''tilt@vol'', basic),
          (equal_weight_strategy, basic),
          (governed L st equal_weight_strategy 1 ''equal_weight@vol'', basic),
          (sized None 0 ''sized_eqw@vol'', basic),
          (sized (Some stacked) 1 ''sized_tilt@vol'', basic)])"

definition run_on :: "'s store_ops \<Rightarrow> 's \<Rightarrow> datetime list \<Rightarrow> string list \<Rightarrow> strategy \<times> costs \<Rightarrow> backtest_result res" where
  "run_on S s schedule names sc =
     run_backtest S s (fst sc) schedule (snd sc) price_dataset ''close'' trading_days (Some names)"

record simulation =
  su_schedule :: "datetime list"
  su_summaries :: "(string \<times> performance_summary) list"
  su_monte_carlo :: simulation_report

text \<open>The body: everything that can raise, in the order of the code (two of the strategies are run ahead of the others).
  A history of fewer than five rebalances ends the command early.\<close>

definition simulate ::
  "library \<Rightarrow> (series \<Rightarrow> series) \<Rightarrow> (nat \<Rightarrow> nat \<Rightarrow> nat \<Rightarrow> nat list) \<Rightarrow> (flt list \<Rightarrow> real \<Rightarrow> flt) \<Rightarrow> 's store_ops
   \<Rightarrow> settings \<Rightarrow> simulate_args \<Rightarrow> 's \<Rightarrow> simulation option res" where
  "simulate L asc draws quantile S st args s =
     (let names = resolve_universe (universe st); mem = mem_add_many (st_as_of S s DISTANT_FUTURE q_all) mem_empty in
      case store_panel S s DISTANT_FUTURE price_dataset ''close'' of Inl e \<Rightarrow> Inl e | Inr p \<Rightarrow>
      case from_sixtieth (sm_rebalance args) (panel_index p) of Inl e \<Rightarrow> Inl e | Inr schedule \<Rightarrow>
      if length schedule < 5 then Inr None
      else case insider_scores_at (lb_repr L) mem names schedule of Inl e \<Rightarrow> Inl e | Inr insider \<Rightarrow>
      case map_res (stacked_scores_at (lb_repr L) mem p names) schedule of Inl e \<Rightarrow> Inl e | Inr stacked \<Rightarrow>
      let books = sim_strategies L asc st (scores_of insider) (scores_of stacked) (length names) in
      case map_res (run_on S s schedule names) ([books ! 3, books ! 5] @ books) of Inl e \<Rightarrow> Inl e | Inr results \<Rightarrow>
      case buy_and_hold_summary S s price_dataset ''close'' trading_days (Some (hd schedule)) (Some names) of
        Inl e \<Rightarrow> Inl e
      | Inr bnh \<Rightarrow>
          Inr (Some \<lparr>su_schedule = schedule,
            su_summaries = map (\<lambda>r. (br_strategy_name r, br_summary r)) (drop 2 results) @ [(''buy_and_hold'', bnh)],
            su_monte_carlo = monte_carlo_report draws quantile (vals (br_net_returns (results ! 1))) 2000 10 trading_days\<rparr>))"

definition summary_line :: "formatter \<Rightarrow> string \<times> performance_summary \<Rightarrow> string" where
  "summary_line fmt ns =
     (let s = snd ns
      in ''  '' @ ljust 20 (fst ns) @ '' ann='' @ fmt ''+.1%'' (ps_ann_return s) @ ''  vol='' @ fmt ''.1%'' (ps_ann_vol s)
         @ ''  sharpe='' @ fmt ''+.2f'' (ps_sharpe s) @ ''  max_dd='' @ fmt ''.1%'' (ps_max_drawdown s) @ ''  hit=''
         @ fmt ''.0%'' (ps_hit_rate s))"

definition simulation_text :: "formatter \<Rightarrow> settings \<Rightarrow> simulate_args \<Rightarrow> simulation \<Rightarrow> outcome" where
  "simulation_text fmt st args u =
     (let sims = su_monte_carlo u;
          lines = (''simulate ['' @ nat_str (length (su_schedule u)) @ '' rebalances every '' @ int_str (sm_rebalance args)
              @ ''d over ~'' @ int_str (sm_days args) @ ''d, net of costs]'') # map (summary_line fmt) (su_summaries u)
      in case (map_of (su_summaries u) ''stacked@vol'', map_of (su_summaries u) ''buy_and_hold'') of
           (Some a, Some b) \<Rightarrow>
             (lines @
              [''  stacked@vol vs buy_and_hold: sharpe '' @ fmt ''+.2f'' (ps_sharpe a) @ '' vs '' @ fmt ''+.2f'' (ps_sharpe b)
                 @ '', max_dd '' @ fmt ''.0%'' (ps_max_drawdown a) @ '' vs '' @ fmt ''.0%'' (ps_max_drawdown b)
                 @ '' (governor cap 25%, target_vol '' @ fmt ''.0%'' (target_vol st) @ '')'',
               ''  Monte-Carlo [stacked@vol] ('' @ nat_str (sr_n_sims sims) @ '' paths): total return q05/q50/q95 = ''
                 @ fmt ''+.1%'' (sr_total_return_q05 sims) @ '' / '' @ fmt ''+.1%'' (sr_total_return_q50 sims) @ '' / ''
                 @ fmt ''+.1%'' (sr_total_return_q95 sims),
               ''    worst-5% drawdown '' @ fmt ''.1%'' (sr_max_drawdown_q05 sims) @ ''; median Sharpe ''
                 @ fmt ''+.2f'' (sr_sharpe_q50 sims) @ ''; P(profit) '' @ fmt ''.0%'' (sr_prob_positive sims)], Inr 0)
         | _ \<Rightarrow> (lines, Inl KeyError))"

definition cmd_simulate ::
  "formatter \<Rightarrow> (pyerr \<Rightarrow> string) \<Rightarrow> library \<Rightarrow> (series \<Rightarrow> series) \<Rightarrow> (nat \<Rightarrow> nat \<Rightarrow> nat \<Rightarrow> nat list)
   \<Rightarrow> (flt list \<Rightarrow> real \<Rightarrow> flt) \<Rightarrow> unit res \<Rightarrow> bars_client \<Rightarrow> 's store_ops \<Rightarrow> datetime \<Rightarrow> pydate \<Rightarrow> settings
   \<Rightarrow> simulate_args \<Rightarrow> 's \<Rightarrow> 's \<times> outcome" where
  "cmd_simulate fmt msg L asc draws quantile db_open fetch S now today st args s =
     (if \<not> has_keys st then (s, ([''simulate: Alpaca keys not set''], Inr 1))
      else let (s1, r) = after_bars S now today db_open fetch st (sm_days args) (simulate L asc draws quantile S st args) s
           in (s1, attempt msg ''simulate failed: '' r (\<lambda>u. case u of
                  None \<Rightarrow> ([''simulate: not enough price history (try a larger --days)''], Inr 1)
                | Some u \<Rightarrow> simulation_text fmt st args u)))"

record replay_args =
  ra_days :: int
  ra_rebalance :: int
  ra_tilt :: flt

definition default_replay_args :: replay_args where
  "default_replay_args = \<lparr>ra_days = 2555, ra_rebalance = 21, ra_tilt = 1\<rparr>"

text \<open>\<open>horizon_days\<close> is the rebalance step; the schedule of a positive step is the only one the replay is defined on.\<close>

definition replay_body ::
  "library \<Rightarrow> 's store_ops \<Rightarrow> datetime \<Rightarrow> settings \<Rightarrow> replay_args \<Rightarrow> 's \<Rightarrow> (datetime list \<times> replay_result) option res" where
  "replay_body L S now st args s =
     (let history = st_as_of S s DISTANT_FUTURE q_all in
      case observations_to_price_frame (filter (\<lambda>x. o_dataset x = price_dataset) history) ''close'' of
        Inl e \<Rightarrow> Inl e
      | Inr p \<Rightarrow>
      case from_sixtieth (ra_rebalance args) (panel_index p) of Inl e \<Rightarrow> Inl e | Inr schedule \<Rightarrow>
      if length schedule < 5 then Inr None
      else case replay_learning (lb_cov L) (lb_corr L) (lb_repr L) now
                  (default_replay\<lparr>ro_horizon_days := nat (ra_rebalance args), ro_target_vol := target_vol st,
                     ro_limits := sim_limits st, ro_tilt_strength := ra_tilt args\<rparr>)
                  history (resolve_universe (universe st)) schedule (default_features (lb_repr L) mem_ops) of
             Inl e \<Rightarrow> Inl e | Inr r \<Rightarrow> Inr (Some (schedule, r)))"

text \<open>The columns of the history of measured coefficients are the signals of its rows.\<close>

definition ic_lines :: "formatter \<Rightarrow> (datetime, series) dict \<Rightarrow> string list" where
  "ic_lines fmt h =
     (let mean = (\<lambda>rows c. series_mean (map (\<lambda>r. dict_get NaN r c) rows));
          early = take 3 (vals h); late = tail_of 3 (vals h)
      in map (\<lambda>c. ''    '' @ ljust 24 c @ '' early='' @ fmt ''+.3f'' (mean early c) @ ''  late='' @ fmt ''+.3f'' (mean late c))
           (feature_names (vals h)))"

definition cmd_replay ::
  "formatter \<Rightarrow> (pyerr \<Rightarrow> string) \<Rightarrow> library \<Rightarrow> unit res \<Rightarrow> bars_client \<Rightarrow> 's store_ops \<Rightarrow> datetime \<Rightarrow> pydate \<Rightarrow> settings
   \<Rightarrow> replay_args \<Rightarrow> 's \<Rightarrow> 's \<times> outcome" where
  "cmd_replay fmt msg L db_open fetch S now today st args s =
     (let (s1, r) = after_bars S now today db_open fetch st (ra_days args) (replay_body L S now st args) s
      in (s1, attempt msg ''replay failed: '' r (\<lambda>u. case u of
             None \<Rightarrow> ([''replay: not enough price history (try a larger --days)''], Inr 1)
           | Some (schedule, res) \<Rightarrow>
               (let p = rr_summary res in
                ([''replay [learning loop, '' @ nat_str (length schedule) @ '' rebalances every '' @ int_str (ra_rebalance args)
                    @ ''d, tilt='' @ fmt [] (ra_tilt args) @ '']'',
                  ''  ann='' @ fmt ''+.1%'' (ps_ann_return p) @ ''  vol='' @ fmt ''.1%'' (ps_ann_vol p) @ ''  sharpe=''
                    @ fmt ''+.2f'' (ps_sharpe p) @ ''  max_dd='' @ fmt ''.1%'' (ps_max_drawdown p)]
                 @ (if rr_ic_history res = [] \<or> feature_names (vals (rr_ic_history res)) = [] then []
                    else (''  measured IC (live learning loop) '' @ em_dash @ '' early vs late rebalances:'')
                         # ic_lines fmt (rr_ic_history res)), Inr 0)))))"

section \<open>event-study and insider-events\<close>

text \<open>The recent rows in memory: the floor is on the event time, which every revision of a fact shares.\<close>

definition recent_copy :: "'s store_ops \<Rightarrow> 's \<Rightarrow> datetime \<Rightarrow> int \<Rightarrow> mem_store" where
  "recent_copy S s now lookback =
     mem_add_many (filter (\<lambda>x. now - days lookback \<le> o_event_time x) (st_as_of S s DISTANT_FUTURE q_all)) mem_empty"

record study_args =
  sy_step :: nat
  sy_post :: int
  sy_placebo :: int
  sy_lookback :: int

definition default_study_args :: study_args where
  "default_study_args = \<lparr>sy_step = 5, sy_post = 5, sy_placebo = 0, sy_lookback = 1095\<rparr>"

definition study_line :: "formatter \<Rightarrow> outcome_distribution \<times> placebo_result option \<Rightarrow> string" where
  "study_line fmt dp =
     (let d = fst dp
      in ''  '' @ ljust 26 (ed_label d) @ '' n='' @ rjust 4 (nat_str (ed_n d)) @ ''  CAR='' @ fmt ''+.2%'' (ed_mean_car d)
         @ ''  t='' @ fmt ''+.2f'' (ed_t_stat d) @ ''  hit='' @ fmt ''.0%'' (ed_share_positive d) @ ''  [t:''
         @ (if outcome_significant (Fin (196 / 100)) d then ''SIGNIFICANT'' else ''not significant'') @ '']''
         @ (case snd dp of None \<Rightarrow> []
            | Some b \<Rightarrow> ''  placebo_p='' @ fmt ''.3f'' (Fin (pb_p_value b)) @ '' [''
                @ (if placebo_significant (5 / 100) b then ''PASS'' else ''FAILS placebo'') @ '']''))"

definition cmd_event_study ::
  "formatter \<Rightarrow> (pyerr \<Rightarrow> string) \<Rightarrow> solver \<Rightarrow> (flt list \<Rightarrow> real \<Rightarrow> flt) \<Rightarrow> (nat \<Rightarrow> int \<Rightarrow> int \<Rightarrow> int) \<Rightarrow> unit res
   \<Rightarrow> 's store_ops \<Rightarrow> datetime \<Rightarrow> study_args \<Rightarrow> 's \<Rightarrow> outcome" where
  "cmd_event_study fmt msg lstsq quantile draw db_open S now args s =
     attempt msg ''event-study failed: ''
       (case db_open of Inl e \<Rightarrow> Inl e | Inr _ \<Rightarrow>
        let mem = recent_copy S s now (sy_lookback args) in
        if 0 < sy_placebo args
        then (case run_event_study_with_placebo lstsq quantile draw mem_ops mem (sy_step args) (sy_post args) 60
                     (nat (sy_placebo args)) None of
                Inl e \<Rightarrow> Inl e | Inr paired \<Rightarrow> Inr (map (\<lambda>(d, b). (d, Some b)) paired))
        else (case run_event_study lstsq quantile mem_ops mem (sy_step args) (sy_post args) 60 None of
                Inl e \<Rightarrow> Inl e | Inr ds \<Rightarrow> Inr (map (\<lambda>d. (d, None)) ds)))
       (\<lambda>paired.
         ((''event-study ['' @ int_str (sy_post args) @ ''d post-event drift, knowledge-time anchored''
            @ (if 0 < sy_placebo args then ''; placebo='' @ int_str (sy_placebo args) @ '' permutations'' else []) @ '']'')
          # (if paired = [] then [''  no events detected (need insider/congress data + price history)'']
             else map (study_line fmt) paired), Inr 0))"

record preview_args =
  iv_post :: int
  iv_hold :: int
  iv_max_names :: int

definition default_preview_args :: preview_args where
  "default_preview_args = \<lparr>iv_post = 5, iv_hold = 5, iv_max_names = 5\<rparr>"

text \<open>Here \<open>db_open\<close> is the opening of the store without its schema; the gate runs on a bounded copy.\<close>

definition cmd_insider_events ::
  "formatter \<Rightarrow> (pyerr \<Rightarrow> string) \<Rightarrow> solver \<Rightarrow> (flt list \<Rightarrow> real \<Rightarrow> flt) \<Rightarrow> (nat \<Rightarrow> int \<Rightarrow> int \<Rightarrow> int) \<Rightarrow> unit res
   \<Rightarrow> 's store_ops \<Rightarrow> datetime \<Rightarrow> preview_args \<Rightarrow> 's \<Rightarrow> outcome" where
  "cmd_insider_events fmt msg lstsq quantile draw db_open S now args s =
     attempt msg ''insider-events failed: ''
       (case db_open of Inl e \<Rightarrow> Inl e | Inr _ \<Rightarrow>
        case significant_event_types lstsq quantile draw mem_ops (recent_copy S s now (504 + 120)) 5 (iv_post args) (5 / 100) 100 (Some 504) of
          Inl e \<Rightarrow> Inl e
        | Inr gate \<Rightarrow>
            (case insider_cluster_entries S s now (map_vals ed_mean_car gate) (iv_hold args) (iv_max_names args) 5 3 30 {} of
               Inl e \<Rightarrow> Inl e | Inr entries \<Rightarrow> Inr (map_of gate ''insider_cluster_buy'', entries)))
       (\<lambda>(dist, entries). case dist of
          None \<Rightarrow> ([''insider-events: insider_cluster_buy did NOT beat the permutation null -> flat''], Inr 0)
        | Some d \<Rightarrow>
            ((''insider-events [PLACEBO-GATED: CAR='' @ fmt ''+.2%'' (ed_mean_car d) @ ''  n='' @ nat_str (ed_n d)
                @ ''  (naive t='' @ fmt ''+.2f'' (ed_t_stat d) @ '', context only)]'')
             # (if entries = [] then [''  no fresh insider clusters to open right now'']
                else map (\<lambda>e. ''  OPEN '' @ ljust 8 (se_symbol e) @ '' n_buys='' @ int_str (se_n_buys e) @ ''  knowable=''
                       @ date_iso (dt_date (se_knowledge_time e)) @ ''  exit_by='' @ date_iso (dt_date (se_exit_by e))
                       @ ''  expected_drift='' @ fmt ''+.1%'' (se_expected_car e)) entries), Inr 0))"

section \<open>build-universe\<close>

record screen_args =
  sc_window :: int
  sc_min_price :: flt
  sc_min_dollar_volume :: real
  sc_max_dollar_volume :: real
  sc_top :: nat

definition default_screen_args :: screen_args where
  "default_screen_args = \<lparr>sc_window = 30, sc_min_price = 5, sc_min_dollar_volume = 200000,
     sc_max_dollar_volume = 10000000, sc_top = 400\<rparr>"

function batches :: "'a list \<Rightarrow> 'a list list" where
  "batches xs = (if xs = [] then [] else take 100 xs # batches (drop 100 xs))"
  by auto
termination by (relation "measure length") auto

declare batches.simps [simp del]

fun file_bars :: "(pyval \<Rightarrow> string) \<Rightarrow> payload list \<Rightarrow> (string, payload list) dict \<Rightarrow> (string, payload list) dict res" where
  "file_bars rpr [] bars = Inr bars"
| "file_bars rpr (r # rs) bars =
     (case pindex r ''symbol'' of Inl e \<Rightarrow> Inl e | Inr v \<Rightarrow>
        let sy = py_str rpr v in file_bars rpr rs (dict_set sy (dict_get [] bars sy @ [r]) bars))"

text \<open>A batch whose request raises is counted and left out.\<close>

fun screen_batches ::
  "(pyval \<Rightarrow> string) \<Rightarrow> (string list \<Rightarrow> payload list res) \<Rightarrow> string list list \<Rightarrow> (string, payload list) dict \<Rightarrow> nat
   \<Rightarrow> ((string, payload list) dict \<times> nat) res" where
  "screen_batches rpr fetch [] bars errors = Inr (bars, errors)"
| "screen_batches rpr fetch (b # bs) bars errors =
     (case fetch b of
        Inl e \<Rightarrow> screen_batches rpr fetch bs bars (Suc errors)
      | Inr recs \<Rightarrow> (case file_bars rpr recs bars of
                      Inl e \<Rightarrow> Inl e | Inr bars1 \<Rightarrow> screen_batches rpr fetch bs bars1 errors))"

text \<open>\<open>ciks\<close> is EDGAR's ticker map; the candidates are tradable and on file with the SEC.\<close>

definition screen_candidates ::
  "(pyval \<Rightarrow> string) \<Rightarrow> 'w http \<Rightarrow> (string, string) dict \<Rightarrow> settings \<Rightarrow> 'w \<Rightarrow> string list res" where
  "screen_candidates rpr http ciks st w =
     (case alpaca_init (the_str (alpaca_key_id st)) (the_str (alpaca_secret_key st)) True None of Inl e \<Rightarrow> Inl e | Inr c \<Rightarrow>
      case list_us_equities rpr http c True w of Inl e \<Rightarrow> Inl e | Inr names \<Rightarrow>
        Inr (sorted_list_of_set (set names \<inter> set (ticker_universe ciks))))"

definition cmd_build_universe ::
  "(pyerr \<Rightarrow> string) \<Rightarrow> (pyval \<Rightarrow> string) \<Rightarrow> 'w http \<Rightarrow> (string, string) dict
   \<Rightarrow> (string list \<Rightarrow> pydate \<Rightarrow> pydate \<Rightarrow> string \<Rightarrow> payload list res) \<Rightarrow> pydate \<Rightarrow> settings \<Rightarrow> screen_args \<Rightarrow> 'w \<Rightarrow> outcome" where
  "cmd_build_universe msg rpr http ciks fetch today st args w =
     (if \<not> has_keys st then ([''build-universe: Alpaca keys not set''], Inr 1)
      else attempt msg ''build-universe failed: ''
        (case screen_candidates rpr http ciks st w of Inl e \<Rightarrow> Inl e | Inr candidates \<Rightarrow>
         case screen_batches rpr (\<lambda>b. fetch b (today - sc_window args) today (alpaca_data_feed st)) (batches candidates) [] 0 of
           Inl e \<Rightarrow> Inl e
         | Inr (bars, errors) \<Rightarrow>
             (case screen_for_liquidity bars liquid_large_cap (sc_min_price args) (sc_min_dollar_volume args)
                     (sc_max_dollar_volume args) 15 (sc_top args) of
                Inl e \<Rightarrow> Inl e | Inr selected \<Rightarrow> Inr (candidates, bars, errors, selected)))
        (\<lambda>(candidates, bars, errors, selected).
           ((''build-universe: '' @ nat_str (length selected) @ '' names from '' @ nat_str (length candidates) @ '' candidates (''
               @ nat_str (length bars) @ '' had bars, '' @ nat_str errors @ '' batch errors), feed='' @ alpaca_data_feed st)
            # (if selected = [] then [] else [join '','' selected]), Inr 0)))"

section \<open>signal-ic\<close>

definition ic_verdict :: "flt \<Rightarrow> bool \<Rightarrow> bool \<Rightarrow> string" where
  "ic_verdict t bonferroni fdr =
     (if bonferroni then ''[PASS family-wise (Bonferroni+FDR)]''
      else if fdr then ''[pass FDR only]''
      else if 2 \<le> \<bar>t\<bar> then ''[raw |t|>=2 ONLY '' @ em_dash @ '' fails correction]''
      else ''[n.s.]'')"

record ic_args =
  ia_horizon :: nat
  ia_dates :: nat
  ia_every :: nat
  ia_alpha :: real
  ia_holdout :: bool
  ia_holdout_frac :: real
  ia_lookback :: int

definition default_ic_args :: ic_args where
  "default_ic_args = \<lparr>ia_horizon = 5, ia_dates = 60, ia_every = 5, ia_alpha = 5 / 100, ia_holdout = False,
     ia_holdout_frac = 2 / 10, ia_lookback = 1095\<rparr>"

definition ic_line :: "formatter \<Rightarrow> family_result \<Rightarrow> string \<times> signal_ic \<Rightarrow> string" where
  "ic_line fmt fam sr =
     (let (sg, r) = sr
      in ''  '' @ ljust 24 sg @ '' IC='' @ fmt ''+.4f'' (si_mean_ic r) @ ''  t='' @ fmt ''+.2f'' (si_ic_t_stat r) @ ''  hit=''
         @ fmt ''.0%'' (si_hit_rate r) @ ''  n_dates='' @ nat_str (si_n_dates r) @ ''  ''
         @ ic_verdict (si_ic_t_stat r) (dict_get False (fr_bonferroni fam) sg) (dict_get False (fr_fdr fam) sg))"

definition candidate_look :: "datetime \<Rightarrow> family_result \<Rightarrow> string \<times> signal_ic \<Rightarrow> holdout_look" where
  "candidate_look now fam sr =
     \<lparr>hl_signal = fst sr, hl_decided_at = now, hl_n_dates = int (si_n_dates (snd sr)), hl_mean_ic = si_mean_ic (snd sr),
      hl_t_stat = si_ic_t_stat (snd sr), hl_passed = dict_get False (fr_fdr fam) (fst sr)\<rparr>"

definition look_note :: "formatter \<Rightarrow> holdout_look \<times> bool \<Rightarrow> string" where
  "look_note fmt lr =
     (if snd lr
      then ''  [SEALED '' @ date_iso (dt_date (hl_decided_at (fst lr))) @ '': t='' @ fmt ''+.2f'' (hl_t_stat (fst lr)) @ '' ''
           @ (if hl_passed (fst lr) then ''PASS'' else ''FAIL'') @ '']''
      else ''  [sealed: first look]'')"

text \<open>The looks of a run, signal by signal in the printed order; a ledger that cannot be read ends the run there.\<close>

fun confirm_family ::
  "'s store_ops \<Rightarrow> datetime \<Rightarrow> family_result \<Rightarrow> (string \<times> signal_ic) list \<Rightarrow> 's \<Rightarrow> 's \<times> (holdout_look \<times> bool) list \<times> unit res" where
  "confirm_family S now fam [] s = (s, [], Inr ())"
| "confirm_family S now fam (sr # rest) s =
     (case confirm_on_holdout S now (candidate_look now fam sr) s of
        (s1, Inl e) \<Rightarrow> (s1, [], Inl e)
      | (s1, Inr look) \<Rightarrow> (let (s2, looks, r) = confirm_family S now fam rest s1 in (s2, look # looks, r)))"

definition measured_family ::
  "library \<Rightarrow> unit res \<Rightarrow> 's store_ops \<Rightarrow> datetime \<Rightarrow> settings \<Rightarrow> ic_args \<Rightarrow> 's \<Rightarrow> (string, signal_ic) dict res" where
  "measured_family L db_open S now st args s =
     (case db_open of Inl e \<Rightarrow> Inl e | Inr _ \<Rightarrow>
      let mem = recent_copy S s now (ia_lookback args) in
      case (if ia_holdout args then holdout_start mem_ops mem now (ia_holdout_frac args) else Inr None) of
        Inl e \<Rightarrow> Inl e
      | Inr since \<Rightarrow>
          measure_signal_ic (lb_corr L) mem_ops mem (candidate_features (lb_repr L) mem_ops) (resolve_universe (universe st))
            now (ia_horizon args) (ia_every args) 60 (ia_dates args) 5 since)"

definition ranked_signals :: "(string, signal_ic) dict \<Rightarrow> (string \<times> signal_ic) list" where
  "ranked_signals ics = rev (sort_key (\<lambda>sr. flt_key \<bar>si_mean_ic (snd sr)\<bar>) (rev ics))"

text \<open>\<open>cdf\<close> and \<open>inv_cdf\<close> are the standard normal distribution and its inverse.\<close>

definition cmd_signal_ic ::
  "formatter \<Rightarrow> (pyerr \<Rightarrow> string) \<Rightarrow> library \<Rightarrow> (real \<Rightarrow> real) \<Rightarrow> (real \<Rightarrow> real) \<Rightarrow> unit res \<Rightarrow> 's store_ops \<Rightarrow> datetime
   \<Rightarrow> settings \<Rightarrow> ic_args \<Rightarrow> 's \<Rightarrow> 's \<times> outcome" where
  "cmd_signal_ic fmt msg L cdf inv_cdf db_open S now st args s =
     (case measured_family L db_open S now st args s of
        Inl e \<Rightarrow> (s, ([''signal-ic failed: '' @ msg e], Inr 1))
      | Inr ics \<Rightarrow>
          if ics = []
          then (s, ([''signal-ic: no gradable history '' @ em_dash @ '' backfill prices/filings first (simulate, ingest-filings)''], Inr 0))
          else
            let fam = correct_family cdf inv_cdf (map_vals si_ic_t_stat ics) (ia_alpha args);
                ranked = ranked_signals ics;
                header = ''signal-ic ['' @ (if ia_holdout args then ''HOLDOUT (sealed, single-look)'' else ''research'') @ ''; horizon=''
                  @ nat_str (ia_horizon args) @ ''d; N='' @ int_str (fr_n_trials fam) @ '' signals; alpha=''
                  @ fmt [] (Fin (ia_alpha args)) @ ''; Bonferroni bar |t|>='' @ fmt ''.2f'' (Fin (fr_bonferroni_t fam)) @ '']''
            in if ia_holdout args
               then (let (s1, looks, r) = confirm_family S now fam ranked s
                     in (s1, (header # map2 (\<lambda>sr lk. ic_line fmt fam sr @ look_note fmt lk) ranked looks, map_sum id (\<lambda>_. 0) r)))
               else (s, (header # map (ic_line fmt fam) ranked, Inr 0)))"

text \<open>The port of the health server, from the environment.\<close>

definition default_port :: "(string, string) dict \<Rightarrow> int res" where
  "default_port env = (case map_of env ''MT_HEALTH_PORT'' of None \<Rightarrow> Inr 8080 | Some p \<Rightarrow> parse_int p)"

section \<open>The holdout is looked at once\<close>

text \<open>A seal: the recorded look, and no row of its signal at or before it.\<close>

definition sealed_by :: "(uuid \<rightharpoonup> observation) \<Rightarrow> datetime \<Rightarrow> holdout_look \<Rightarrow> bool" where
  "sealed_by m now l \<longleftrightarrow> look_observation now l \<in> ran m
     \<and> (\<forall>z \<in> ran m. in_ledger (hl_signal l) z \<longrightarrow> z = look_observation now l \<or> hl_decided_at l < o_event_time z)"

definition plain_look :: "holdout_look \<Rightarrow> bool" where
  "plain_look l \<longleftrightarrow> CHR ''|'' \<notin> set (hl_signal l) \<and> valid_dt (hl_decided_at l)"

lemma look_ids_differ:
  assumes "plain_look a" "plain_look b" "hl_signal a \<noteq> hl_signal b"
  shows "o_id (look_observation n a) \<noteq> o_id (look_observation n' b)"
proof
  assume "o_id (look_observation n a) = o_id (look_observation n' b)"
  then have "deterministic_id (look_observation n a) = deterministic_id (look_observation n' b)"
    by (simp add: look_observation_def)
  moreover have "plain_ids (look_observation n l)" if "plain_look l" for n l
    using that by (auto simp: plain_ids_def plain_look_def look_observation_def holdout_ledger_dataset_def)
  ultimately show False using same_id_same_entity [of "look_observation n a" "look_observation n' b"] assms by simp
qed

lemma candidate_look_fields [simp]:
  "hl_signal (candidate_look now fam sr) = fst sr" "hl_decided_at (candidate_look now fam sr) = now"
  by (simp_all add: candidate_look_def)

context bitemporal_store
begin

lemma record_seals:
  assumes "inv s" "ledger_stamped (rows s)" "\<not> looked_by (rows s) (hl_signal l) (hl_decided_at l)"
  shows "sealed_by (rows (record_look S now l s)) now l"
proof -
  have "look_observation now l \<in> ran (rows (record_look S now l s))"
    using rows_record [OF assms(1), of now l] by (auto simp: ran_def)
  moreover have "z = look_observation now l \<or> hl_decided_at l < o_event_time z"
    if z: "z \<in> ran (rows (record_look S now l s))" "in_ledger (hl_signal l) z" for z
  proof (cases "z = look_observation now l")
    case False
    then have "z \<in> ran (rows s)" using record_look_rows [OF assms(1) z(1)] by blast
    moreover from this have "o_knowledge_time z = o_event_time z"
      using assms(2) z(2) by (simp add: ledger_stamped_def in_ledger_def)
    ultimately show ?thesis using assms(3) z(2) unfolding looked_by_def by (metis not_less)
  qed simp
  ultimately show ?thesis by (auto simp: sealed_by_def)
qed

lemma record_keeps_seal:
  assumes "inv s" "sealed_by (rows s) nw l" "hl_signal l' \<noteq> hl_signal l" "plain_look l" "plain_look l'"
  shows "sealed_by (rows (record_look S now l' s)) nw l"
proof -
  let ?x = "look_observation nw l"
  obtain i where i: "rows s i = Some ?x" using assms(2) by (auto simp: sealed_by_def ran_def)
  have "o_id (look_observation now l') \<noteq> i"
    using look_ids_differ [OF assms(5,4,3), of now nw] rows_id [OF assms(1) i] by simp
  then have "rows (record_look S now l' s) i = Some ?x" using i by (simp add: rows_record [OF assms(1)])
  then have "?x \<in> ran (rows (record_look S now l' s))" by (rule ranI)
  moreover have "\<not> in_ledger (hl_signal l) (look_observation now l')" using assms(3) by (simp add: in_ledger_def)
  ultimately show ?thesis using assms(2) record_look_rows [OF assms(1)] unfolding sealed_by_def by metis
qed

lemma record_keeps_unlooked:
  "inv s \<Longrightarrow> \<not> looked_by (rows s) sg t \<Longrightarrow> hl_signal l \<noteq> sg \<Longrightarrow> \<not> looked_by (rows (record_look S now l s)) sg t"
  unfolding looked_by_def using record_look_rows by (fastforce simp: in_ledger_def)

lemma sealed_look_is_returned:
  assumes "inv s" "sealed_by (rows s) nw l" "hl_decided_at l \<le> t"
  shows "prior_look S now s (hl_signal l) (Some t) = Inr (Some l)"
proof -
  let ?x = "look_observation nw l" and ?L = "ledger_rows S s (hl_signal l) t"
  have later: "hl_decided_at l < o_event_time z" if "z \<in> set ?L" "z \<noteq> ?x" for z
    using ledger_rows_in [OF assms(1) that(1)] that(2) assms(2) by (auto simp: sealed_by_def)
  obtain v where v: "v \<in> set ?L" "o_event_time v = hl_decided_at l"
    using ledger_rows_key [OF assms(1), of ?x "hl_signal l" t] assms(2,3) by (auto simp: sealed_by_def in_ledger_def)
  then have "v = ?x" using later by fastforce
  with v(1) obtain y ys where ys: "?L = y # ys" and mem: "?x \<in> set (y # ys)" by (cases ?L) auto
  have "min_by o_event_time y ys = ?x" using mem later unfolding ys by (intro min_by_unique) auto
  then show ?thesis by (simp add: prior_look_def ys look_of_observation)
qed

lemma confirm_family_first:
  assumes "inv s" "ledger_stamped (rows s)" "distinct (map fst rs)" "valid_dt now"
    and "\<forall>sr \<in> set rs. CHR ''|'' \<notin> set (fst sr) \<and> \<not> looked_by (rows s) (fst sr) now"
  shows "\<exists>s1. confirm_family S now fam rs s = (s1, map (\<lambda>sr. (candidate_look now fam sr, False)) rs, Inr ()) \<and> inv s1
    \<and> (\<forall>sr \<in> set rs. sealed_by (rows s1) now (candidate_look now fam sr))
    \<and> (\<forall>l. plain_look l \<and> sealed_by (rows s) now l \<and> hl_signal l \<notin> fst ` set rs \<longrightarrow> sealed_by (rows s1) now l)"
  using assms
proof (induction rs arbitrary: s)
  case (Cons sr rs)
  let ?c = "candidate_look now fam sr" and ?s = "record_look S now (candidate_look now fam sr) s"
  have c: "hl_signal ?c = fst sr" "hl_decided_at ?c = now" "plain_look ?c" using Cons.prems by (simp_all add: plain_look_def)
  have first: "confirm_on_holdout S now ?c s = (?s, Inr (?c, False))"
    using prior_look_none [OF Cons.prems(1), THEN iffD2, of "fst sr" now now] Cons.prems(5) by (simp add: confirm_on_holdout_def)
  note inv = record_look_inv [OF Cons.prems(1), of now ?c]
  have rest: "\<forall>x \<in> set rs. CHR ''|'' \<notin> set (fst x) \<and> \<not> looked_by (rows ?s) (fst x) now"
  proof
    fix x assume x: "x \<in> set rs"
    then have "fst x \<noteq> fst sr" using Cons.prems(3) by (metis distinct.simps(2) imageI list.map(2) list.set_map)
    then show "CHR ''|'' \<notin> set (fst x) \<and> \<not> looked_by (rows ?s) (fst x) now"
      using Cons.prems(5) x record_keeps_unlooked [OF Cons.prems(1), of "fst x" now ?c now] by auto
  qed
  obtain s1 where s1: "confirm_family S now fam rs ?s = (s1, map (\<lambda>sr. (candidate_look now fam sr, False)) rs, Inr ())" "inv s1"
    "\<forall>sr \<in> set rs. sealed_by (rows s1) now (candidate_look now fam sr)"
    "\<forall>l. plain_look l \<and> sealed_by (rows ?s) now l \<and> hl_signal l \<notin> fst ` set rs \<longrightarrow> sealed_by (rows s1) now l"
    using Cons.IH [OF inv record_look_stamped [OF Cons.prems(1,2)] _ Cons.prems(4) rest] Cons.prems(3) by auto
  have "sealed_by (rows ?s) now ?c" using Cons.prems(5) c by (intro record_seals [OF Cons.prems(1,2)]) simp
  then have "sealed_by (rows s1) now ?c" using s1(4) c Cons.prems(3) by auto
  moreover have "sealed_by (rows s1) now l"
    if "plain_look l" "sealed_by (rows s) now l" "hl_signal l \<notin> fst ` set (sr # rs)" for l
    using that s1(4) record_keeps_seal [OF Cons.prems(1) that(2) _ that(1) c(3)] c(1) by auto
  ultimately show ?case using s1 first by (intro exI [of _ s1]) auto
qed auto

lemma confirm_family_again:
  assumes "inv s" "now \<le> t"
    and "\<forall>sr \<in> set rs. \<exists>n. sealed_by (rows s) n (look (fst sr)) \<and> hl_signal (look (fst sr)) = fst sr \<and> hl_decided_at (look (fst sr)) = now"
  shows "confirm_family S t fam rs s = (s, map (\<lambda>sr. (look (fst sr), True)) rs, Inr ())"
  using assms(3)
proof (induction rs)
  case (Cons sr rs)
  then obtain n where n: "sealed_by (rows s) n (look (fst sr))" "hl_signal (look (fst sr)) = fst sr" "hl_decided_at (look (fst sr)) = now"
    by auto
  have "prior_look S t s (fst sr) (Some t) = Inr (Some (look (fst sr)))"
    using sealed_look_is_returned [OF assms(1) n(1)] n(2,3) assms(2) by simp
  then show ?case using Cons by (simp add: confirm_on_holdout_def)
qed simp

end

text \<open>C25: the holdout cannot be re-shopped.  When a family of signals is measured on the holdout for the first time,
  every verdict is sealed; any later run over some of them, with whatever new measurements and correction, writes
  nothing to the ledger and reports, for each, the look of the first run, flagged as a repeat.\<close>

theorem holdout_runs_cannot_be_reshopped:
  assumes store: "bitemporal_store S rows I" "I s" "ledger_stamped (rows s)"
    and first: "distinct (keys ics)" "valid_dt t1"
      "\<forall>sg \<in> set (keys ics). CHR ''|'' \<notin> set sg \<and> \<not> looked_by (rows s) sg t1"
    and again: "set (keys ics2) \<subseteq> set (keys ics)" "t1 \<le> t2"
  shows "\<exists>s1. confirm_family S t1 fam ics s = (s1, map (\<lambda>sr. (candidate_look t1 fam sr, False)) ics, Inr ())
    \<and> confirm_family S t2 fam2 ics2 s1
        = (s1, map (\<lambda>sr. (candidate_look t1 fam (fst sr, the (map_of ics (fst sr))), True)) ics2, Inr ())"
proof -
  obtain s1 where s1: "confirm_family S t1 fam ics s = (s1, map (\<lambda>sr. (candidate_look t1 fam sr, False)) ics, Inr ())" "I s1"
    "\<forall>sr \<in> set ics. sealed_by (rows s1) t1 (candidate_look t1 fam sr)"
    using bitemporal_store.confirm_family_first [OF store, of ics t1 fam] first by auto
  let ?look = "\<lambda>sg. candidate_look t1 fam (sg, the (map_of ics sg))"
  have "\<exists>n. sealed_by (rows s1) n (?look (fst sr)) \<and> hl_signal (?look (fst sr)) = fst sr \<and> hl_decided_at (?look (fst sr)) = t1"
    if "sr \<in> set ics2" for sr
  proof -
    have "fst sr \<in> set (keys ics)" using that again(1) by auto
    then obtain r where "(fst sr, r) \<in> set ics" "map_of ics (fst sr) = Some r" using first(1) by auto
    then show ?thesis using s1(3) by force
  qed
  then have "confirm_family S t2 fam2 ics2 s1 = (s1, map (\<lambda>sr. (?look (fst sr), True)) ics2, Inr ())"
    by (intro bitemporal_store.confirm_family_again [OF store(1) s1(2) again(2)]) blast
  then show ?thesis using s1(1) by auto
qed

definition sample_family :: "real \<Rightarrow> bool \<Rightarrow> family_result" where
  "sample_family t ok = \<lparr>fr_n_trials = 2, fr_alpha = 1 / 20, fr_bonferroni_t = t, fr_pvalues = [], fr_bonferroni = [],
     fr_fdr = [(''mom'', ok), (''pead'', ok)]\<rparr>"

definition sample_measure :: "string \<Rightarrow> flt \<Rightarrow> string \<times> signal_ic" where
  "sample_measure sg t = (sg, \<lparr>si_signal = sg, si_n_dates = 12, si_n_obs = 600, si_mean_ic = 0, si_ic_std = 1,
     si_ic_t_stat = t, si_hit_rate = 0\<rparr>)"

lemma holdout_runs_cannot_be_reshopped_witness:
  "\<exists>s1. confirm_family mem_ops 4 (sample_family 3 False) [sample_measure ''mom'' 1, sample_measure ''pead'' 0] mem_empty
      = (s1, map (\<lambda>sr. (candidate_look 4 (sample_family 3 False) sr, False)) [sample_measure ''mom'' 1, sample_measure ''pead'' 0], Inr ())
    \<and> confirm_family mem_ops 9 (sample_family 2 True) [sample_measure ''mom'' 5] s1
        = (s1, map (\<lambda>sr. (candidate_look 4 (sample_family 3 False)
              (fst sr, the (map_of [sample_measure ''mom'' 1, sample_measure ''pead'' 0] (fst sr))), True)) [sample_measure ''mom'' 5], Inr ())"
  by (rule holdout_runs_cannot_be_reshopped [OF mem.bitemporal_store_axioms mem_inv_empty empty_ledger(1)])
    (simp_all add: sample_measure_def empty_ledger valid_dt_def)

end
