(* ===== verification/Provision.thy ===== *)
theory Provision
  imports Cli
begin

text \<open>
  Provisioning: the DigitalOcean API client (\<open>infra/digitalocean.py\<close>) and the script that creates the machine the
  system runs on (\<open>scripts/provision_do.py\<close>).

  One HTTP exchange is the parameter \<open>wire\<close>: method, url, headers and body and the world give the new world and a reply,
  an HTTP error with its body, or the exception of a request that failed.  A body is kept as the object that is
  dumped; replies are text, read by \<open>json_loads\<close> with the \<open>room\<close> the recursion limit leaves.  \<open>rpr\<close> and \<open>msg\<close> render values and exceptions.
\<close>

section \<open>The transport\<close>

datatype wire_reply = WireOk int string | WireError int string | WireFail pyerr

type_synonym headers = "(string \<times> string) list"
type_synonym 'w wire = "string \<Rightarrow> string \<Rightarrow> headers \<Rightarrow> payload option \<Rightarrow> 'w \<Rightarrow> 'w \<times> wire_reply"
type_synonym 'w transport = "string \<Rightarrow> string \<Rightarrow> headers \<Rightarrow> payload option \<Rightarrow> 'w \<Rightarrow> 'w \<times> (int \<times> pyval) res"

definition do_base_url :: string where "do_base_url = ''https://api.digitalocean.com''"

text \<open>The message of an error body; one that is not a JSON object is shown as text.\<close>

definition error_text :: "nat \<Rightarrow> (pyval \<Rightarrow> string) \<Rightarrow> string \<Rightarrow> string" where
  "error_text room rpr raw =
     (case json_loads room raw of
        Inr (PDict d) \<Rightarrow> py_str rpr (dict_get (PStr []) d ''message'')
      | _ \<Rightarrow> take 200 raw)"

definition urllib_transport :: "nat \<Rightarrow> (pyval \<Rightarrow> string) \<Rightarrow> (pyerr \<Rightarrow> string) \<Rightarrow> 'w wire \<Rightarrow> 'w transport" where
  "urllib_transport room rpr msg wire verb url headers body w =
     (case wire verb url headers body w of
        (w1, WireOk status raw) \<Rightarrow>
          (w1, if raw = [] then Inr (status, PDict [])
               else (case json_loads room raw of
                       Inl e \<Rightarrow> Inl (DigitalOceanError (''request failed: '' @ msg e)) | Inr v \<Rightarrow> Inr (status, v)))
      | (w1, WireError status raw) \<Rightarrow>
          (w1, Inl (DigitalOceanError (''HTTP '' @ int_str status @ '': '' @ error_text room rpr raw)))
      | (w1, WireFail e) \<Rightarrow> (w1, Inl (DigitalOceanError (''request failed: '' @ msg e))))"

section \<open>The client\<close>

record do_client =
  dc_token :: string
  dc_base :: string

definition do_init :: "string \<Rightarrow> string \<Rightarrow> do_client res" where
  "do_init token base =
     (if token = [] then Inl (DigitalOceanError ''DO_API_TOKEN is required'')
      else Inr \<lparr>dc_token = token, dc_base = rstrip_slash base\<rparr>)"

definition do_from_env :: "(string, string) dict \<Rightarrow> do_client res" where
  "do_from_env env = do_init (dict_get [] env ''DO_API_TOKEN'') do_base_url"

definition do_request ::
  "(pyval \<Rightarrow> string) \<Rightarrow> 'w transport \<Rightarrow> do_client \<Rightarrow> string \<Rightarrow> string \<Rightarrow> payload option \<Rightarrow> 'w \<Rightarrow> 'w \<times> pyval res" where
  "do_request rpr T c verb path body w =
     (case T verb (dc_base c @ path)
             [(''Authorization'', ''Bearer '' @ dc_token c), (''Content-Type'', ''application/json'')] body w of
        (w1, Inl e) \<Rightarrow> (w1, Inl e)
      | (w1, Inr (status, v)) \<Rightarrow>
          (w1, if 300 \<le> status then Inl (DigitalOceanError (''HTTP '' @ int_str status @ '': '' @ py_str rpr v)) else Inr v))"

text \<open>\<open>v.get(k, dflt)\<close> of a reply.\<close>

definition get_or :: "pyval \<Rightarrow> string \<Rightarrow> pyval \<Rightarrow> pyval res" where
  "get_or dflt k v = (case as_obj v of Inl e \<Rightarrow> Inl e | Inr d \<Rightarrow> Inr (dict_get dflt d k))"

definition do_field ::
  "(pyval \<Rightarrow> string) \<Rightarrow> 'w transport \<Rightarrow> do_client \<Rightarrow> string \<Rightarrow> string \<Rightarrow> payload option \<Rightarrow> pyval \<Rightarrow> string \<Rightarrow> 'w
   \<Rightarrow> 'w \<times> pyval res" where
  "do_field rpr T c verb path body dflt k w =
     (case do_request rpr T c verb path body w of
        (w1, Inl e) \<Rightarrow> (w1, Inl e) | (w1, Inr v) \<Rightarrow> (w1, get_or dflt k v))"

definition strs :: "string list \<Rightarrow> pyval" where "strs xs = PList (map PStr xs)"

definition create_alert_policy ::
  "(pyval \<Rightarrow> string) \<Rightarrow> 'w transport \<Rightarrow> do_client \<Rightarrow> string \<Rightarrow> flt \<Rightarrow> string list \<Rightarrow> string \<Rightarrow> string \<Rightarrow> string \<Rightarrow> string list
   \<Rightarrow> 'w \<Rightarrow> 'w \<times> pyval res" where
  "create_alert_policy rpr T c alert_type value emails description window compare entities =
     do_request rpr T c ''POST'' ''/v2/monitoring/alerts''
       (Some [(''alerts'', PDict [(''email'', strs emails)]), (''compare'', PStr compare), (''description'', PStr description),
         (''type'', PStr alert_type), (''value'', PFloat value), (''window'', PStr window), (''enabled'', PBool True),
         (''entities'', strs entities)])"

definition list_alert_policies :: "(pyval \<Rightarrow> string) \<Rightarrow> 'w transport \<Rightarrow> do_client \<Rightarrow> 'w \<Rightarrow> 'w \<times> pyval res" where
  "list_alert_policies rpr T c = do_field rpr T c ''GET'' ''/v2/monitoring/alerts'' None (PList []) ''policies''"

definition snapshot_droplet :: "(pyval \<Rightarrow> string) \<Rightarrow> 'w transport \<Rightarrow> do_client \<Rightarrow> int \<Rightarrow> string \<Rightarrow> 'w \<Rightarrow> 'w \<times> pyval res" where
  "snapshot_droplet rpr T c i name =
     do_request rpr T c ''POST'' (''/v2/droplets/'' @ int_str i @ ''/actions'')
       (Some [(''type'', PStr ''snapshot''), (''name'', PStr name)])"

definition list_snapshots :: "(pyval \<Rightarrow> string) \<Rightarrow> 'w transport \<Rightarrow> do_client \<Rightarrow> 'w \<Rightarrow> 'w \<times> pyval res" where
  "list_snapshots rpr T c = do_field rpr T c ''GET'' ''/v2/snapshots?resource_type=droplet'' None (PList []) ''snapshots''"

definition anywhere :: pyval where "anywhere = PDict [(''addresses'', strs [''0.0.0.0/0'', ''::/0''])]"

definition inbound_rule :: "string \<Rightarrow> pyval \<Rightarrow> pyval" where
  "inbound_rule ports sources = PDict [(''protocol'', PStr ''tcp''), (''ports'', PStr ports), (''sources'', sources)]"

definition outbound_rule :: "string \<Rightarrow> pyval" where
  "outbound_rule protocol = PDict [(''protocol'', PStr protocol), (''ports'', PStr ''all''), (''destinations'', anywhere)]"

definition firewall_body :: "string \<Rightarrow> string list \<Rightarrow> int list \<Rightarrow> bool \<Rightarrow> payload" where
  "firewall_body name ssh_source_ips droplet_ids allow_web =
     [(''name'', PStr name),
      (''inbound_rules'', PList (inbound_rule ''22'' (PDict [(''addresses'', strs ssh_source_ips)])
         # (if allow_web then [inbound_rule ''80'' anywhere, inbound_rule ''443'' anywhere] else []))),
      (''outbound_rules'', PList [outbound_rule ''tcp'', outbound_rule ''udp'']),
      (''droplet_ids'', PList (map PInt droplet_ids))]"

definition create_firewall ::
  "(pyval \<Rightarrow> string) \<Rightarrow> 'w transport \<Rightarrow> do_client \<Rightarrow> string \<Rightarrow> string list \<Rightarrow> int list \<Rightarrow> bool \<Rightarrow> 'w \<Rightarrow> 'w \<times> pyval res" where
  "create_firewall rpr T c name ssh_source_ips droplet_ids allow_web =
     do_request rpr T c ''POST'' ''/v2/firewalls'' (Some (firewall_body name ssh_source_ips droplet_ids allow_web))"

definition list_firewalls :: "(pyval \<Rightarrow> string) \<Rightarrow> 'w transport \<Rightarrow> do_client \<Rightarrow> 'w \<Rightarrow> 'w \<times> pyval res" where
  "list_firewalls rpr T c = do_field rpr T c ''GET'' ''/v2/firewalls'' None (PList []) ''firewalls''"

definition create_ssh_key :: "(pyval \<Rightarrow> string) \<Rightarrow> 'w transport \<Rightarrow> do_client \<Rightarrow> string \<Rightarrow> string \<Rightarrow> 'w \<Rightarrow> 'w \<times> pyval res" where
  "create_ssh_key rpr T c name public_key =
     do_field rpr T c ''POST'' ''/v2/account/keys'' (Some [(''name'', PStr name), (''public_key'', PStr public_key)])
       (PDict []) ''ssh_key''"

definition list_ssh_keys :: "(pyval \<Rightarrow> string) \<Rightarrow> 'w transport \<Rightarrow> do_client \<Rightarrow> 'w \<Rightarrow> 'w \<times> pyval res" where
  "list_ssh_keys rpr T c = do_field rpr T c ''GET'' ''/v2/account/keys'' None (PList []) ''ssh_keys''"

record droplet_spec =
  dp_name :: string
  dp_region :: string
  dp_size :: string
  dp_image :: string
  dp_ssh_keys :: "pyval list"
  dp_user_data :: string
  dp_backups :: bool
  dp_monitoring :: bool
  dp_ipv6 :: bool
  dp_tags :: "string list"

definition droplet_body :: "droplet_spec \<Rightarrow> payload" where
  "droplet_body p =
     [(''name'', PStr (dp_name p)), (''region'', PStr (dp_region p)), (''size'', PStr (dp_size p)),
      (''image'', PStr (dp_image p)), (''ssh_keys'', PList (dp_ssh_keys p)), (''backups'', PBool (dp_backups p)),
      (''monitoring'', PBool (dp_monitoring p)), (''ipv6'', PBool (dp_ipv6 p)), (''user_data'', PStr (dp_user_data p)),
      (''tags'', strs (dp_tags p))]"

definition create_droplet :: "(pyval \<Rightarrow> string) \<Rightarrow> 'w transport \<Rightarrow> do_client \<Rightarrow> droplet_spec \<Rightarrow> 'w \<Rightarrow> 'w \<times> pyval res" where
  "create_droplet rpr T c p = do_field rpr T c ''POST'' ''/v2/droplets'' (Some (droplet_body p)) (PDict []) ''droplet''"

definition get_droplet :: "(pyval \<Rightarrow> string) \<Rightarrow> 'w transport \<Rightarrow> do_client \<Rightarrow> int \<Rightarrow> 'w \<Rightarrow> 'w \<times> pyval res" where
  "get_droplet rpr T c i = do_field rpr T c ''GET'' (''/v2/droplets/'' @ int_str i) None (PDict []) ''droplet''"

definition list_droplets :: "(pyval \<Rightarrow> string) \<Rightarrow> 'w transport \<Rightarrow> do_client \<Rightarrow> string option \<Rightarrow> 'w \<Rightarrow> 'w \<times> pyval res" where
  "list_droplets rpr T c tag =
     do_field rpr T c ''GET'' (''/v2/droplets'' @ (if str_set tag then ''?tag_name='' @ the_str tag else [])) None
       (PList []) ''droplets''"

definition delete_droplet :: "(pyval \<Rightarrow> string) \<Rightarrow> 'w transport \<Rightarrow> do_client \<Rightarrow> int \<Rightarrow> 'w \<Rightarrow> 'w \<times> unit res" where
  "delete_droplet rpr T c i w =
     (case do_request rpr T c ''DELETE'' (''/v2/droplets/'' @ int_str i) None w of (w1, r) \<Rightarrow> (w1, map_sum id (\<lambda>_. ()) r))"

section \<open>The provisioning script\<close>

text \<open>\<open>s.replace(old, new)\<close> for a text \<open>old\<close> that is not empty.\<close>

function replace_text :: "string \<Rightarrow> string \<Rightarrow> string \<Rightarrow> string" where
  "replace_text old new [] = []"
| "replace_text old new (c # s) =
     (if old \<noteq> [] \<and> starts_with old (c # s) then new @ replace_text old new (drop (length old) (c # s))
      else c # replace_text old new s)"
  by pat_completeness auto
termination by (relation "measure (length \<circ> snd \<circ> snd)") (auto simp: neq_Nil_conv)

definition build_user_data :: "string \<Rightarrow> string \<Rightarrow> string \<Rightarrow> string" where
  "build_user_data template pubkey repo_url =
     replace_text ''__REPO_URL__'' (strip repo_url) (replace_text ''__SSH_PUBKEY__'' (strip pubkey) template)"

record provision_args =
  pv_pubkey :: string
  pv_region :: string
  pv_size :: string
  pv_image :: string
  pv_name :: string
  pv_repo_url :: string
  pv_no_backups :: bool
  pv_dry_run :: bool

definition default_provision_args :: "string \<Rightarrow> string \<Rightarrow> provision_args" where
  "default_provision_args pubkey region =
     \<lparr>pv_pubkey = pubkey, pv_region = region, pv_size = ''s-4vcpu-8gb'', pv_image = ''ubuntu-24-04-x64'',
      pv_name = ''market-trader'', pv_repo_url = ''https://github.com/henryviner-create/market-trader.git'',
      pv_no_backups = False, pv_dry_run = False\<rparr>"

definition bool_text :: "bool \<Rightarrow> string" where "bool_text b = (if b then ''True'' else ''False'')"

text \<open>The last public address among the networks; \<open>ip\<close> is the one of an earlier poll.\<close>

fun public_address :: "pyval list \<Rightarrow> pyval \<Rightarrow> pyval res" where
  "public_address [] ip = Inr ip"
| "public_address (net # nets) ip =
     (case as_obj net of
        Inl e \<Rightarrow> Inl e
      | Inr d \<Rightarrow> public_address nets (if pget d ''type'' = PStr ''public'' then pget d ''ip_address'' else ip))"

definition droplet_state :: "pyval \<Rightarrow> pyval \<Rightarrow> (pyval \<times> pyval) res" where
  "droplet_state current ip =
     (case get_or (PDict []) ''networks'' current of Inl e \<Rightarrow> Inl e | Inr nets \<Rightarrow>
      case get_or (PList []) ''v4'' nets of Inl e \<Rightarrow> Inl e | Inr v4 \<Rightarrow>
      case elements v4 of Inl e \<Rightarrow> Inl e | Inr xs \<Rightarrow>
      case public_address xs ip of Inl e \<Rightarrow> Inl e | Inr ip1 \<Rightarrow>
      case get_or PNone ''status'' current of Inl e \<Rightarrow> Inl e | Inr status \<Rightarrow> Inr (status, ip1))"

text \<open>The polls, five seconds apart, until the droplet is active and has an address.\<close>

fun await_active ::
  "(pyval \<Rightarrow> string) \<Rightarrow> 'w transport \<Rightarrow> do_client \<Rightarrow> int \<Rightarrow> nat \<Rightarrow> pyval \<Rightarrow> 'w \<Rightarrow> 'w \<times> pyval res" where
  "await_active rpr T c i 0 ip w = (w, Inr ip)"
| "await_active rpr T c i (Suc n) ip w =
     (case get_droplet rpr T c i w of
        (w1, Inl e) \<Rightarrow> (w1, Inl e)
      | (w1, Inr current) \<Rightarrow>
          (case droplet_state current ip of
             Inl e \<Rightarrow> (w1, Inl e)
           | Inr (status, ip1) \<Rightarrow>
               if status = PStr ''active'' \<and> truthy ip1 then (w1, Inr ip1)
               else await_active rpr T c i n ip1 w1))"

definition max_polls :: nat where "max_polls = 60"

definition spec_of :: "provision_args \<Rightarrow> pyval \<Rightarrow> string \<Rightarrow> droplet_spec" where
  "spec_of args fingerprint user_data =
     \<lparr>dp_name = pv_name args, dp_region = pv_region args, dp_size = pv_size args, dp_image = pv_image args,
      dp_ssh_keys = [fingerprint], dp_user_data = user_data, dp_backups = \<not> pv_no_backups args, dp_monitoring = True,
      dp_ipv6 = True, dp_tags = [''market-trader'']\<rparr>"

definition active_text :: "(pyval \<Rightarrow> string) \<Rightarrow> pyval \<Rightarrow> string list" where
  "active_text rpr ip =
     [''droplet active. public IP: '' @ py_str rpr ip, ''cloud-init is installing the stack (a few minutes). Then:'',
      ''  ssh trader@'' @ py_str rpr ip,
      ''  curl -s localhost:8080/health   # expect {\"status\":\"ok\",...}'']"

definition created_text :: "(pyval \<Rightarrow> string) \<Rightarrow> pyval \<Rightarrow> string" where
  "created_text rpr i = ''created droplet id='' @ py_str rpr i @ ''; waiting for it to become active...''"

text \<open>After the droplet is created: its id, and the wait.  \<open>int\<close> of the id is taken in the loop, before the first request.\<close>

definition await_created ::
  "(pyval \<Rightarrow> string) \<Rightarrow> 'w transport \<Rightarrow> do_client \<Rightarrow> pyval \<Rightarrow> 'w \<Rightarrow> 'w \<times> outcome" where
  "await_created rpr T c droplet w =
     (case get_or PNone ''id'' droplet of
        Inl e \<Rightarrow> (w, ([], Inl e))
      | Inr i \<Rightarrow>
          (case to_int i of
             Inl e \<Rightarrow> (w, ([created_text rpr i], Inl e))
           | Inr n \<Rightarrow>
               (case await_active rpr T c n max_polls PNone w of
                  (w1, Inl e) \<Rightarrow> (w1, ([created_text rpr i], Inl e))
                | (w1, Inr ip) \<Rightarrow> (w1, (created_text rpr i # active_text rpr ip, Inr 0)))))"

definition register_key ::
  "(pyval \<Rightarrow> string) \<Rightarrow> 'w transport \<Rightarrow> do_client \<Rightarrow> provision_args \<Rightarrow> string \<Rightarrow> 'w \<Rightarrow> 'w \<times> pyval res" where
  "register_key rpr T c args pubkey w =
     (case create_ssh_key rpr T c (pv_name args @ ''-key'') pubkey w of
        (w1, Inl e) \<Rightarrow> (w1, Inl e)
      | (w1, Inr key) \<Rightarrow>
          (w1, case get_or PNone ''fingerprint'' key of
                 Inl e \<Rightarrow> Inl e
               | Inr fp \<Rightarrow>
                   if truthy fp then Inr fp
                   else Inl (DigitalOceanError ''could not register SSH key with DigitalOcean'')))"

definition plan_text :: "provision_args \<Rightarrow> string \<Rightarrow> string list" where
  "plan_text args user_data =
     [''=== PLAN (dry-run, no API calls) ==='',
      ''register SSH key, then create droplet name='' @ pv_name args @ '' region='' @ pv_region args @ '' size='' @ pv_size args
        @ '' image='' @ pv_image args @ '' backups='' @ bool_text (\<not> pv_no_backups args),
      ''=== cloud-init user-data that will run on first boot ==='', user_data]"

definition read_pubkey :: "(string \<Rightarrow> string res) \<Rightarrow> provision_args \<Rightarrow> string res" where
  "read_pubkey read args =
     (if starts_with ''@'' (pv_pubkey args) then read (tl (pv_pubkey args)) else Inr (pv_pubkey args))"

text \<open>\<open>read\<close> reads a file and \<open>template\<close> is the cloud-init script's text.\<close>

definition provision_main ::
  "(pyval \<Rightarrow> string) \<Rightarrow> (string \<Rightarrow> string res) \<Rightarrow> string res \<Rightarrow> (string, string) dict \<Rightarrow> 'w transport \<Rightarrow> provision_args \<Rightarrow> 'w
   \<Rightarrow> 'w \<times> outcome" where
  "provision_main rpr read template env T args w =
     (case read_pubkey read args of Inl e \<Rightarrow> (w, ([], Inl e)) | Inr pubkey \<Rightarrow>
      case template of Inl e \<Rightarrow> (w, ([], Inl e)) | Inr script \<Rightarrow>
      let user_data = build_user_data script pubkey (pv_repo_url args) in
      if pv_dry_run args then (w, (plan_text args user_data, Inr 0))
      else case do_from_env env of Inl e \<Rightarrow> (w, ([], Inl e)) | Inr c \<Rightarrow>
      case register_key rpr T c args pubkey w of (w1, Inl e) \<Rightarrow> (w1, ([], Inl e)) | (w1, Inr fp) \<Rightarrow>
      case create_droplet rpr T c (spec_of args fp user_data) w1 of
        (w2, Inl e) \<Rightarrow> (w2, ([], Inl e))
      | (w2, Inr droplet) \<Rightarrow> await_created rpr T c droplet w2)"

section \<open>What a run requests\<close>

text \<open>One exchange with the API: verb, url and body, and what came back.\<close>

type_synonym api_call = "string \<times> string \<times> payload option"
type_synonym exchange = "api_call \<times> (int \<times> pyval) res"

definition logged :: "'w transport \<Rightarrow> ('w \<times> exchange list) transport" where
  "logged T verb url headers body wl =
     (case T verb url headers body (fst wl) of (w1, r) \<Rightarrow> ((w1, snd wl @ [((verb, url, body), r)]), r))"

text \<open>What an answer says: a field of the object under a key, of a success only.\<close>

definition answer_field :: "string \<Rightarrow> string \<Rightarrow> (int \<times> pyval) res \<Rightarrow> pyval option" where
  "answer_field k1 k2 r =
     (case r of Inl e \<Rightarrow> None | Inr (status, v) \<Rightarrow>
      if 300 \<le> status then None
      else case get_or (PDict []) k1 v of Inl e \<Rightarrow> None | Inr x \<Rightarrow>
      case get_or PNone k2 x of Inl e \<Rightarrow> None | Inr y \<Rightarrow> Some y)"

definition registered_key :: "(int \<times> pyval) res \<Rightarrow> pyval option" where
  "registered_key r = (case answer_field ''ssh_key'' ''fingerprint'' r of
     None \<Rightarrow> None | Some fp \<Rightarrow> if truthy fp then Some fp else None)"

definition created_id :: "(int \<times> pyval) res \<Rightarrow> int option" where
  "created_id r = (case answer_field ''droplet'' ''id'' r of
     None \<Rightarrow> None | Some d \<Rightarrow> (case to_int d of Inl e \<Rightarrow> None | Inr i \<Rightarrow> Some i))"

lemma logged_field:
  "\<exists>w1 r. do_field rpr (logged T) c verb path body (PDict []) k wl
       = ((w1, snd wl @ [((verb, dc_base c @ path, body), r)]),
          case r of Inl e \<Rightarrow> Inl e | Inr (status, v) \<Rightarrow>
            if 300 \<le> status then Inl (DigitalOceanError (''HTTP '' @ int_str status @ '': '' @ py_str rpr v))
            else get_or (PDict []) k v)"
  by (simp add: do_field_def do_request_def logged_def split: prod.splits sum.splits)

lemma logged_key:
  "\<exists>w1 r0. fst (register_key rpr (logged T) c args pubkey wl) = (w1, snd wl @ [((''POST'', dc_base c @ ''/v2/account/keys'',
         Some [(''name'', PStr (pv_name args @ ''-key'')), (''public_key'', PStr pubkey)]), r0)])
     \<and> (case snd (register_key rpr (logged T) c args pubkey wl) of Inl e \<Rightarrow> None | Inr fp \<Rightarrow> Some fp) = registered_key r0"
proof -
  let ?body = "Some [(''name'', PStr (pv_name args @ ''-key'')), (''public_key'', PStr pubkey)]"
  obtain w1 r where f: "do_field rpr (logged T) c ''POST'' ''/v2/account/keys'' ?body (PDict []) ''ssh_key'' wl
      = ((w1, snd wl @ [((''POST'', dc_base c @ ''/v2/account/keys'', ?body), r)]),
         case r of Inl e \<Rightarrow> Inl e | Inr (status, v) \<Rightarrow>
            if 300 \<le> status then Inl (DigitalOceanError (''HTTP '' @ int_str status @ '': '' @ py_str rpr v))
            else get_or (PDict []) ''ssh_key'' v)"
    using logged_field [of rpr T c "''POST''" "''/v2/account/keys''" ?body "''ssh_key''" wl] by blast
  show ?thesis
    by (intro exI [of _ w1] exI [of _ r], unfold register_key_def create_ssh_key_def f)
      (auto simp: registered_key_def answer_field_def split: sum.splits)
qed

lemma logged_create:
  "\<exists>w1 r1. fst (create_droplet rpr (logged T) c p wl)
       = (w1, snd wl @ [((''POST'', dc_base c @ ''/v2/droplets'', Some (droplet_body p)), r1)])
     \<and> created_id r1 = (case snd (create_droplet rpr (logged T) c p wl) of Inl e \<Rightarrow> None | Inr d \<Rightarrow>
         case get_or PNone ''id'' d of Inl e \<Rightarrow> None | Inr x \<Rightarrow> case to_int x of Inl e \<Rightarrow> None | Inr i \<Rightarrow> Some i)"
proof -
  obtain w1 r where f: "do_field rpr (logged T) c ''POST'' ''/v2/droplets'' (Some (droplet_body p)) (PDict []) ''droplet'' wl
      = ((w1, snd wl @ [((''POST'', dc_base c @ ''/v2/droplets'', Some (droplet_body p)), r)]),
         case r of Inl e \<Rightarrow> Inl e | Inr (status, v) \<Rightarrow>
            if 300 \<le> status then Inl (DigitalOceanError (''HTTP '' @ int_str status @ '': '' @ py_str rpr v))
            else get_or (PDict []) ''droplet'' v)"
    using logged_field [of rpr T c "''POST''" "''/v2/droplets''" "Some (droplet_body p)" "''droplet''" wl] by blast
  show ?thesis
    by (intro exI [of _ w1] exI [of _ r], unfold create_droplet_def f)
      (auto simp: created_id_def answer_field_def split: sum.splits)
qed

lemma logged_polls:
  "\<exists>polls. snd (fst (await_active rpr (logged T) c i n ip wl)) = snd wl @ polls \<and> length polls \<le> n \<and> (0 < n \<longrightarrow> polls \<noteq> [])
     \<and> (\<forall>x \<in> set polls. fst x = (''GET'', dc_base c @ ''/v2/droplets/'' @ int_str i, None))"
proof (induction n arbitrary: ip wl)
  case (Suc n)
  let ?call = "(''GET'', dc_base c @ ''/v2/droplets/'' @ int_str i, None :: payload option)"
  obtain w1 r where g: "get_droplet rpr (logged T) c i wl = (w1, r)" by (rule prod.exhaust)
  obtain x where log: "snd w1 = snd wl @ [x]" "fst x = ?call"
    using logged_field [of rpr T c "''GET''" "''/v2/droplets/'' @ int_str i" None "''droplet''" wl] g
    by (auto simp: get_droplet_def)
  consider "snd (fst (await_active rpr (logged T) c i (Suc n) ip wl)) = snd w1"
    | ip1 where "await_active rpr (logged T) c i (Suc n) ip wl = await_active rpr (logged T) c i n ip1 w1"
    using g by (force split: sum.splits prod.splits if_splits)
  then show ?case
  proof cases
    case 1
    then show ?thesis using log by (intro exI [of _ "[x]"]) simp
  next
    case 2
    moreover obtain polls where "snd (fst (await_active rpr (logged T) c i n ip1 w1)) = snd w1 @ polls"
      "length polls \<le> n" "\<forall>x \<in> set polls. fst x = ?call"
      using Suc.IH by blast
    ultimately show ?thesis using log by (intro exI [of _ "x # polls"]) simp
  qed
qed simp

lemma logged_wait:
  "\<exists>polls. snd (fst (await_created rpr (logged T) c droplet wl)) = snd wl @ polls \<and> length polls \<le> max_polls
     \<and> (case (case get_or PNone ''id'' droplet of Inl e \<Rightarrow> None | Inr x \<Rightarrow> case to_int x of Inl e \<Rightarrow> None | Inr i \<Rightarrow> Some i) of
          None \<Rightarrow> polls = []
        | Some i \<Rightarrow> polls \<noteq> [] \<and> (\<forall>x \<in> set polls. fst x = (''GET'', dc_base c @ ''/v2/droplets/'' @ int_str i, None)))"
proof (cases "\<exists>x i. get_or PNone ''id'' droplet = Inr x \<and> to_int x = Inr i")
  case True
  then obtain x i where xi: "get_or PNone ''id'' droplet = Inr x" "to_int x = Inr i" by blast
  then have "fst (await_created rpr (logged T) c droplet wl) = fst (await_active rpr (logged T) c i max_polls PNone wl)"
    by (simp add: await_created_def split: prod.splits sum.splits)
  then show ?thesis using xi logged_polls [of rpr T c i max_polls PNone wl] by (simp add: max_polls_def)
qed (auto simp: await_created_def split: sum.splits)

lemma do_from_env_ok: "dict_get [] env ''DO_API_TOKEN'' \<noteq> [] \<Longrightarrow> \<exists>c. do_from_env env = Inr c \<and> dc_base c = do_base_url"
  by (auto simp: do_from_env_def do_init_def do_base_url_def rstrip_slash_def)

text \<open>The exchanges of a run, in order.\<close>

definition provision_exchanges ::
  "(pyval \<Rightarrow> string) \<Rightarrow> (string \<Rightarrow> string res) \<Rightarrow> string res \<Rightarrow> (string, string) dict \<Rightarrow> 'w transport \<Rightarrow> provision_args \<Rightarrow> 'w
   \<Rightarrow> exchange list" where
  "provision_exchanges rpr read template env T args w = snd (fst (provision_main rpr read template env (logged T) args (w, [])))"

definition key_call :: "provision_args \<Rightarrow> string \<Rightarrow> api_call" where
  "key_call args pubkey = (''POST'', do_base_url @ ''/v2/account/keys'',
     Some [(''name'', PStr (pv_name args @ ''-key'')), (''public_key'', PStr pubkey)])"

definition create_call :: "provision_args \<Rightarrow> pyval \<Rightarrow> string \<Rightarrow> api_call" where
  "create_call args fingerprint user_data =
     (''POST'', do_base_url @ ''/v2/droplets'', Some (droplet_body (spec_of args fingerprint user_data)))"

definition poll_call :: "int \<Rightarrow> api_call" where
  "poll_call i = (''GET'', do_base_url @ ''/v2/droplets/'' @ int_str i, None)"

lemma logged_run:
  assumes "\<not> pv_dry_run args" "read_pubkey read args = Inr pubkey" "template = Inr script" "do_from_env env = Inr c"
  shows "\<exists>key_answer create_answer polls. length polls \<le> max_polls
     \<and> provision_exchanges rpr read template env T args w =
         ((''POST'', dc_base c @ ''/v2/account/keys'',
           Some [(''name'', PStr (pv_name args @ ''-key'')), (''public_key'', PStr pubkey)]), key_answer) #
         (case registered_key key_answer of None \<Rightarrow> [] | Some fp \<Rightarrow>
            ((''POST'', dc_base c @ ''/v2/droplets'',
              Some (droplet_body (spec_of args fp (build_user_data script pubkey (pv_repo_url args))))), create_answer) # polls)
     \<and> (case created_id create_answer of None \<Rightarrow> polls = []
          | Some i \<Rightarrow> polls \<noteq> [] \<and> (\<forall>x \<in> set polls. fst x = (''GET'', dc_base c @ ''/v2/droplets/'' @ int_str i, None)))"
proof -
  let ?sent = "provision_exchanges rpr read template env T args w"
  obtain w1 r1 where k: "register_key rpr (logged T) c args pubkey (w, []) = (w1, r1)" by (rule prod.exhaust)
  obtain ka where ka: "snd w1 = [((''POST'', dc_base c @ ''/v2/account/keys'',
      Some [(''name'', PStr (pv_name args @ ''-key'')), (''public_key'', PStr pubkey)]), ka)]"
    "registered_key ka = (case r1 of Inl e \<Rightarrow> None | Inr fp \<Rightarrow> Some fp)"
    using logged_key [of rpr T c args pubkey "(w, [])"] k by auto
  note run = provision_exchanges_def provision_main_def Let_def assms k
  show ?thesis
  proof (cases r1)
    case (Inl e)
    have "created_id (Inl e) = None" by (simp add: created_id_def answer_field_def)
    then show ?thesis using Inl ka by (intro exI [of _ ka] exI [of _ "Inl e"] exI [of _ "[]"]) (simp add: run)
  next
    case (Inr fp)
    let ?spec = "spec_of args fp (build_user_data script pubkey (pv_repo_url args))"
    obtain w2 r2 where d: "create_droplet rpr (logged T) c ?spec w1 = (w2, r2)" by (rule prod.exhaust)
    obtain ca where ca: "snd w2 = snd w1 @ [((''POST'', dc_base c @ ''/v2/droplets'', Some (droplet_body ?spec)), ca)]"
      "created_id ca = (case r2 of Inl e \<Rightarrow> None | Inr d \<Rightarrow>
         case get_or PNone ''id'' d of Inl e \<Rightarrow> None | Inr x \<Rightarrow> case to_int x of Inl e \<Rightarrow> None | Inr i \<Rightarrow> Some i)"
      using logged_create [of rpr T c ?spec w1] d by auto
    show ?thesis
    proof (cases r2)
      case (Inl e)
      then show ?thesis using Inr ka ca d by (intro exI [of _ ka] exI [of _ ca] exI [of _ "[]"]) (simp add: run)
    next
      case (Inr droplet)
      from logged_wait [of rpr T c droplet w2] obtain polls where
        "snd (fst (await_created rpr (logged T) c droplet w2)) = snd w2 @ polls" "length polls \<le> max_polls"
        "case created_id ca of None \<Rightarrow> polls = []
         | Some i \<Rightarrow> polls \<noteq> [] \<and> (\<forall>x \<in> set polls. fst x = (''GET'', dc_base c @ ''/v2/droplets/'' @ int_str i, None))"
        unfolding ca(2) Inr by auto
      then show ?thesis using Inr \<open>r1 = Inr fp\<close> ka ca d
        by (intro exI [of _ ka] exI [of _ ca] exI [of _ polls]) (simp add: run)
    qed
  qed
qed

text \<open>C40: a run of the provisioning script registers one key and creates at most one machine, whatever the API answers.
  A dry run sends nothing, and neither does a run that cannot read its key or its script or has no token.  Every other run
  first registers the key of the command line (or of the file it names).  If the answer is no success with a fingerprint, the
  run stops there.  Otherwise it sends one creation, with the options of the command line, the script filled with that key and
  the repository, and the fingerprint of that answer as the only login.  If the answer names no machine, the run stops;
  otherwise all that follows are requests for the state of the machine so named, at least one and at most sixty.\<close>

theorem provisioning_creates_one_droplet:
  "(pv_dry_run args \<or> isl (read_pubkey read args) \<or> isl template \<or> dict_get [] env ''DO_API_TOKEN'' = []
      \<longrightarrow> provision_exchanges rpr read template env T args w = [])
   \<and> (\<forall>pubkey script. \<not> pv_dry_run args \<and> read_pubkey read args = Inr pubkey \<and> template = Inr script
        \<and> dict_get [] env ''DO_API_TOKEN'' \<noteq> [] \<longrightarrow>
      (\<exists>key_answer create_answer polls. length polls \<le> 60
        \<and> provision_exchanges rpr read template env T args w = (key_call args pubkey, key_answer) #
            (case registered_key key_answer of None \<Rightarrow> [] | Some fp \<Rightarrow>
               (create_call args fp (build_user_data script pubkey (pv_repo_url args)), create_answer) # polls)
        \<and> (case created_id create_answer of None \<Rightarrow> polls = []
             | Some i \<Rightarrow> polls \<noteq> [] \<and> (\<forall>x \<in> set polls. fst x = poll_call i))))"
proof (intro conjI impI allI)
  assume "pv_dry_run args \<or> isl (read_pubkey read args) \<or> isl template \<or> dict_get [] env ''DO_API_TOKEN'' = []"
  then show "provision_exchanges rpr read template env T args w = []"
    by (auto simp: provision_exchanges_def provision_main_def do_from_env_def do_init_def Let_def split: sum.splits)
next
  fix pubkey script
  assume asm: "\<not> pv_dry_run args \<and> read_pubkey read args = Inr pubkey \<and> template = Inr script
    \<and> dict_get [] env ''DO_API_TOKEN'' \<noteq> []"
  then obtain c where c: "do_from_env env = Inr c" "dc_base c = do_base_url" using do_from_env_ok by blast
  show "\<exists>key_answer create_answer polls. length polls \<le> 60
        \<and> provision_exchanges rpr read template env T args w = (key_call args pubkey, key_answer) #
            (case registered_key key_answer of None \<Rightarrow> [] | Some fp \<Rightarrow>
               (create_call args fp (build_user_data script pubkey (pv_repo_url args)), create_answer) # polls)
        \<and> (case created_id create_answer of None \<Rightarrow> polls = []
             | Some i \<Rightarrow> polls \<noteq> [] \<and> (\<forall>x \<in> set polls. fst x = poll_call i))"
    using logged_run [of args read pubkey template script env c rpr T w] asm c(1)
    unfolding c(2) max_polls_def key_call_def create_call_def poll_call_def by blast
qed

text \<open>An API that answers with texts: a fingerprint, a machine 7, and a state that is active with a public address.\<close>

definition calm_wire :: "unit wire" where
  "calm_wire verb url headers body w =
     (w, if verb = ''GET'' then WireOk 200 (''{\"droplet\": {\"status\": \"active\", \"networks\": {\"v4\": ''
            @ ''[{\"type\": \"public\", \"ip_address\": \"203.0.113.9\"}]}}}'')
         else if url = do_base_url @ ''/v2/account/keys'' then WireOk 201 ''{\"ssh_key\": {\"fingerprint\": \"ab:cd\"}}''
         else WireOk 202 ''{\"droplet\": {\"id\": 7, \"status\": \"new\"}}'')"

lemma provisioning_creates_one_droplet_witness:
  "map fst (provision_exchanges (\<lambda>_. []) Inr (Inr ''key __SSH_PUBKEY__'') [(''DO_API_TOKEN'', ''t'')]
       (urllib_transport 900 (\<lambda>_. []) (\<lambda>_. []) calm_wire) (default_provision_args ''ssh-ed25519 AAAA'' ''lon1'') ())
   = [key_call (default_provision_args ''ssh-ed25519 AAAA'' ''lon1'') ''ssh-ed25519 AAAA'',
      create_call (default_provision_args ''ssh-ed25519 AAAA'' ''lon1'') (PStr ''ab:cd'') ''key ssh-ed25519 AAAA'', poll_call 7]"
proof -
  let ?args = "default_provision_args ''ssh-ed25519 AAAA'' ''lon1''"
  let ?X = "provision_exchanges (\<lambda>_. []) Inr (Inr ''key __SSH_PUBKEY__'') [(''DO_API_TOKEN'', ''t'')]
       (urllib_transport 900 (\<lambda>_. []) (\<lambda>_. []) calm_wire) ?args ()"
  have X: "map (registered_key \<circ> snd) ?X = [Some (PStr ''ab:cd''), None, None]"
    "map (created_id \<circ> snd) ?X = [None, Some 7, None]" "build_user_data ''key __SSH_PUBKEY__'' ''ssh-ed25519 AAAA'' (pv_repo_url ?args)
      = ''key ssh-ed25519 AAAA''" by code_simp+
  have args: "\<not> pv_dry_run ?args" "read_pubkey Inr ?args = Inr ''ssh-ed25519 AAAA''"
    "dict_get [] [(''DO_API_TOKEN'', ''t'')] ''DO_API_TOKEN'' \<noteq> []" by code_simp+
  from provisioning_creates_one_droplet [of ?args Inr "Inr ''key __SSH_PUBKEY__''" "[(''DO_API_TOKEN'', ''t'')]" "\<lambda>_. []"
      "urllib_transport 900 (\<lambda>_. []) (\<lambda>_. []) calm_wire" "()"] args
  obtain ka ca polls where run: "?X = (key_call ?args ''ssh-ed25519 AAAA'', ka) #
      (case registered_key ka of None \<Rightarrow> [] | Some fp \<Rightarrow>
         (create_call ?args fp (build_user_data ''key __SSH_PUBKEY__'' ''ssh-ed25519 AAAA'' (pv_repo_url ?args)), ca) # polls)"
    "case created_id ca of None \<Rightarrow> polls = [] | Some i \<Rightarrow> polls \<noteq> [] \<and> (\<forall>x \<in> set polls. fst x = poll_call i)" by blast
  then have "registered_key ka = Some (PStr ''ab:cd'')" using X(1) by simp
  moreover from this have "created_id ca = Some 7" using X(2) run(1) by simp
  moreover from calculation obtain x where "polls = [x]" using X(1) run(1) by (auto simp: length_Suc_conv map_eq_Cons_conv)
  ultimately show ?thesis using run X(3) by simp
qed

text \<open>An API that answers every request and whose machines never leave the state \<open>new\<close>.\<close>

definition stuck_api :: "unit transport" where
  "stuck_api verb url headers body w =
     (w, Inr (201, PDict [(''ssh_key'', PDict [(''fingerprint'', PStr ''ab:cd'')]),
        (''droplet'', PDict [(''id'', PInt 7), (''status'', PStr ''new'')])]))"

lemma never_active:
  assumes "\<And>w. \<exists>w1 current status. get_droplet rpr T c i w = (w1, Inr current)
    \<and> droplet_state current PNone = Inr (status, PNone)"
  shows "snd (await_active rpr T c i n PNone w) = Inr PNone"
proof (induction n arbitrary: w)
  case (Suc n)
  obtain w1 current status where "get_droplet rpr T c i w = (w1, Inr current)"
    "droplet_state current PNone = Inr (status, PNone)" using assms by blast
  then show ?case using Suc by simp
qed simp

text \<open>The wait has no failure: a machine that after all the polls has no public address is announced as
  active, at the address None, and the script's exit code is that of success.\<close>

theorem timeout_is_announced_as_active:
  assumes "\<And>w. \<exists>w1 current status. get_droplet rpr T c i w = (w1, Inr current)
    \<and> droplet_state current PNone = Inr (status, PNone)"
    and "get_or PNone ''id'' droplet = Inr (PInt i)"
  shows "snd (await_created rpr T c droplet w) = (created_text rpr (PInt i) # active_text rpr PNone, Inr 0)"
  using never_active [OF assms(1), of max_polls w] assms(2)
  by (auto simp: await_created_def split: prod.splits sum.splits)

lemma timeout_is_announced_as_active_witness:
  "snd (await_created (\<lambda>_. []) stuck_api \<lparr>dc_token = ''t'', dc_base = do_base_url\<rparr> (PDict [(''id'', PInt 7)]) ())
   = (created_text (\<lambda>_. []) (PInt 7) # active_text (\<lambda>_. []) PNone, Inr 0)"
  by (rule timeout_is_announced_as_active)
    (simp_all add: get_droplet_def do_field_def do_request_def stuck_api_def get_or_def droplet_state_def pget_def)

end
