(* ===== verification/Sizer.thy ===== *)
theory Sizer
  imports Lab
begin

text \<open>
  The sizer of the live cycle against the book the backtest measures: \<open>cmd_simulate\<close> runs both, and a comment says
  that \<open>sized_eqw@vol\<close> must reproduce \<open>equal_weight@vol\<close>.  Both books are level, so each side reduces to one weight:
  lemmas on level books, then each sizer's closed form, then the equality of the two backtests.
\<close>

section \<open>Level books\<close>

text \<open>A book that gives every name the same finite weight.\<close>

definition level_book :: "real \<Rightarrow> string list \<Rightarrow> weights" where
  "level_book v names = map (\<lambda>s. (s, Fin v)) names"

lemma keys_level [simp]: "keys (level_book v names) = names"
  by (simp add: level_book_def comp_def)

lemma vals_level: "vals (level_book v names) = replicate (length names) (Fin v)"
  by (simp add: level_book_def comp_def map_replicate_const)

lemma level_empty [simp]: "level_book v names = [] \<longleftrightarrow> names = []"
  by (simp add: level_book_def)

lemma map_vals_level: "map_vals f (level_book v names) = map (\<lambda>s. (s, f (Fin v))) names"
  by (simp add: level_book_def map_vals_def)

lemma map_vals_level_Fin: "f (Fin v) = Fin u \<Longrightarrow> map_vals f (level_book v names) = level_book u names"
  unfolding map_vals_level by (simp add: level_book_def)

lemma filter_level: "filter (\<lambda>(k, v). P v) (level_book v names) = (if P (Fin v) then level_book v names else [])"
  by (simp add: level_book_def)

lemma sum_level: "series_sum (vals (level_book v names)) = Fin (real (length names) * v)"
  using series_sum_Fin [of "replicate (length names) v"] by (simp add: vals_level map_replicate sum_list_replicate)

lemma gross_level: "series_sum (map abs (vals (level_book v names))) = Fin (real (length names) * \<bar>v\<bar>)"
  using series_sum_Fin [of "replicate (length names) \<bar>v\<bar>"] by (simp add: vals_level map_replicate sum_list_replicate)

text \<open>What a gross cap of one does to a long book: no name is above its share.\<close>

lemma cap_gross_level:
  assumes "0 \<le> v"
  shows "cap_gross 1 (level_book v names) = level_book (min v (1 / real (length names))) names"
proof (cases "names = []")
  case True
  then show ?thesis by (simp add: cap_gross_def level_book_def map_vals_def series_sum_def zero_flt_def one_flt_def)
next
  case False
  then have pos: "0 < real (length names)" by simp
  show ?thesis
  proof (cases "1 < real (length names) * v")
    case True
    then have v: "0 < v" and share: "1 / real (length names) < v" using assms pos by (auto simp: field_simps intro: ccontr)
    have "map_vals (\<lambda>x. x * fdiv 1 (Fin (real (length names) * v))) (level_book v names)
        = level_book (1 / real (length names)) names"
      using v pos by (intro map_vals_level_Fin) (simp add: one_flt_def)
    then show ?thesis using True assms share unfolding cap_gross_def gross_level by (simp add: one_flt_def zero_flt_def)
  next
    case False
    then have "v \<le> 1 / real (length names)" using pos by (simp add: field_simps)
    then show ?thesis using False assms unfolding cap_gross_def gross_level by (simp add: one_flt_def min_def)
  qed
qed

lemma cap_net_level: "real (length names) * \<bar>v\<bar> \<le> n \<Longrightarrow> cap_net (Fin n) (level_book v names) = level_book v names"
  unfolding cap_net_def sum_level by (simp add: abs_mult)

lemma clip_level:
  "0 \<le> v \<Longrightarrow> 0 \<le> k \<Longrightarrow> map_vals (clip (Fin (- k)) (Fin k)) (level_book v names) = level_book (min v k) names"
  by (intro map_vals_level_Fin) (simp add: clip_def min_def)

lemma limits_level:
  assumes "0 < v" "1 \<le> k * real (length names)" "lim_max_position_weight lims = Fin k"
    "lim_max_gross_exposure lims = 1" "lim_max_net_exposure lims = Fin n" "1 \<le> n"
  shows "apply_risk_limits (level_book v names) lims None = level_book (min v (1 / real (length names))) names"
proof -
  let ?m = "real (length names)"
  have m: "0 < ?m" using assms(2) by (cases names) auto
  then have k: "1 / ?m \<le> k" using assms(2) by (simp add: field_simps)
  then have "0 < k" using m by (meson less_le_trans zero_less_divide_1_iff)
  moreover have "min (min v k) (1 / ?m) = min v (1 / ?m)" using k by auto
  moreover have "?m * \<bar>min v (1 / ?m)\<bar> \<le> n"
    using assms(1,6) m by (simp add: min_def field_simps)
  moreover have "min v (1 / ?m) \<noteq> 0" using assms(1) m by (simp add: min_def)
  moreover have "names \<noteq> []" using m by auto
  ultimately show ?thesis using assms
    by (simp add: apply_risk_limits_def clip_level cap_gross_level cap_net_level filter_level)
qed

section \<open>The volatility of a level book\<close>

lemma dot_replicate:
  "length xs = m \<Longrightarrow> dot (replicate m (Fin v)) (map Fin xs) = Fin (v * sum_list xs)"
  "length xs = m \<Longrightarrow> dot (map Fin xs) (replicate m (Fin v)) = Fin (v * sum_list xs)"
  by (induction xs arbitrary: m) (auto simp: dot_def zero_flt_def algebra_simps)

text \<open>A covariance estimate: finite, square, and the even book has a positive variance.\<close>

definition proper_cov :: "flt list list \<Rightarrow> nat \<Rightarrow> real \<Rightarrow> bool" where
  "proper_cov cov m q \<longleftrightarrow> 0 < q \<and> (\<exists>C. cov = map (map Fin) C \<and> length C = m \<and> (\<forall>r \<in> set C. length r = m)
     \<and> sum_list (map sum_list C) = q)"

lemma annual_vol_level:
  assumes "proper_cov cov m q" "0 \<le> v"
  shows "annual_vol (replicate m (Fin v)) cov 252 = Fin (v * (sqrt q * sqrt 252))"
proof -
  obtain C where C: "cov = map (map Fin) C" "length C = m" "\<forall>r \<in> set C. length r = m" "sum_list (map sum_list C) = q"
    using assms(1) by (auto simp: proper_cov_def)
  have "map (\<lambda>col. dot (replicate m (Fin v)) col) cov = map Fin (map (\<lambda>r. v * sum_list r) C)"
    unfolding C(1) using C(3) by (simp add: dot_replicate)
  then have "dot (map (\<lambda>col. dot (replicate m (Fin v)) col) cov) (replicate m (Fin v)) = Fin (v * sum_list (map (\<lambda>r. v * sum_list r) C))"
    using C(2) by (simp only: dot_replicate length_map)
  also have "\<dots> = Fin (v\<^sup>2 * q)"
    using C(4) sum_list_const_mult [of v sum_list C] by (simp add: power2_eq_square)
  finally have "dot (map (\<lambda>col. dot (replicate m (Fin v)) col) cov) (replicate m (Fin v)) = Fin (v\<^sup>2 * q)" .
  moreover have "\<not> v\<^sup>2 * q < 0" "\<not> q < 0" using assms(1) by (simp_all add: not_less proper_cov_def)
  ultimately show ?thesis using assms(2) by (simp add: annual_vol_def flt_simps real_sqrt_mult)
qed

lemma vol_target_level:
  assumes "proper_cov cov (length names) q" "0 < v"
  shows "volatility_target_weights (level_book v names) cov (Fin tv) = level_book (tv / (sqrt q * sqrt 252)) names"
proof -
  let ?s = "sqrt q * sqrt 252"
  have s: "0 < ?s" "q \<noteq> 0" using assms(1) by (auto simp: proper_cov_def)
  have "annual_vol (map fill0 (vals (level_book v names))) cov 252 = Fin (v * ?s)"
    using annual_vol_level [OF assms(1)] assms(2) by (simp add: vals_level fill0_def)
  moreover have "map_vals (\<lambda>x. x * fdiv (Fin tv) (Fin (v * ?s))) (level_book v names) = level_book (tv / ?s) names"
    using assms(2) s by (intro map_vals_level_Fin) simp
  moreover have "0 < v * ?s" using assms(2) s by simp
  ultimately show ?thesis by (simp add: volatility_target_weights_def zero_flt_def not_le)
qed

section \<open>The two books\<close>

lemma level_value: "s \<in> set names \<Longrightarrow> dict_get d (level_book v names) s = Fin v"
  by (induction names) (auto simp: level_book_def)

lemma level_restrict:
  "set cols \<subseteq> set names \<Longrightarrow> map (\<lambda>s. (s, fill0 (dict_get NaN (level_book v names) s))) cols = level_book v cols"
  by (auto simp: level_book_def level_value [unfolded level_book_def] fill0_def)

lemma even_level: "even_weights names = level_book (1 / real (length names)) names"
  by (simp add: even_weights_def level_book_def)

lemma clean_columns: "set (pn_columns (clean_window k p)) \<subseteq> set (pn_columns p)"
  by (auto simp: clean_window_def Let_def)

lemma clean_columns_length: "length (pn_columns (clean_window k p)) \<le> length (pn_columns p)"
  by (simp add: clean_window_def Let_def)

text \<open>The two sizers estimate on the same window, whether the rows or the columns are cut first.\<close>

lemma same_window:
  "clean_window (length (tail_of k (pn_rows p))) (panel_select (p\<lparr>pn_rows := tail_of k (pn_rows p)\<rparr>) cols)
    = clean_window k (panel_select p cols)"
  by (simp add: clean_window_def panel_select_def tail_of_def drop_map column_def)

definition usable :: "panel \<Rightarrow> bool" where
  "usable w \<longleftrightarrow> 2 \<le> length (pn_columns w) \<and> 20 \<le> length (pn_rows w)"

definition sizing_window :: "panel \<Rightarrow> panel" where
  "sizing_window view = clean_window 90 (panel_select (returns_panel view) (panel_universe view))"

lemma window_columns:
  "set (pn_columns (sizing_window view)) \<subseteq> set (panel_universe view)"
  "length (pn_columns (sizing_window view)) \<le> length (panel_universe view)"
proof -
  let ?p = "panel_select (returns_panel view) (panel_universe view)"
  have "pn_columns ?p = panel_universe view" by (simp add: panel_select_def)
  then show "set (pn_columns (sizing_window view)) \<subseteq> set (panel_universe view)"
    "length (pn_columns (sizing_window view)) \<le> length (panel_universe view)"
    using clean_columns [of 90 ?p] clean_columns_length [of 90 ?p] by (simp_all add: sizing_window_def)
qed

text \<open>How many names the governed book holds: those of the window, or the universe when the window is too short.\<close>

definition held_count :: "panel \<Rightarrow> nat" where
  "held_count view =
     (if usable (sizing_window view) then length (pn_columns (sizing_window view)) else length (panel_universe view))"

lemma governed_even_book:
  assumes "panel_universe view \<noteq> []" "set (panel_universe view) \<subseteq> set (pn_columns (returns_panel view))"
    and "usable (sizing_window view) \<Longrightarrow> proper_cov (cov (sizing_window view)) (length (pn_columns (sizing_window view))) q"
    and "0 < tv" "length (panel_universe view) < 10 ^ 9"
  shows "sg_target_weights (vol_targeted_strategy cov equal_weight_strategy (Fin tv) 1 90 name) view t =
    Inr (if usable (sizing_window view)
         then (if 1 / 10 ^ 9 < tv / (sqrt q * sqrt 252)
               then level_book (min (tv / (sqrt q * sqrt 252)) (1 / real (held_count view))) (pn_columns (sizing_window view)) else [])
         else level_book (1 / real (held_count view)) (panel_universe view))"
proof -
  let ?u = "panel_universe view" and ?w = "sizing_window view" and ?c = "tv / (sqrt q * sqrt 252)"
  have inner: "sg_target_weights equal_weight_strategy view t = Inr (level_book (1 / real (length ?u)) ?u)"
    by (simp add: equal_weight_strategy_def equal_weight_target_def even_level)
  have names: "filter (\<lambda>s. s \<in> set (pn_columns (returns_panel view))) ?u = ?u"
    using assms(2) by (simp add: filter_id_conv subset_eq)
  have "sg_target_weights (vol_targeted_strategy cov equal_weight_strategy (Fin tv) 1 90 name) view t =
    Inr (if \<not> usable ?w then level_book (1 / real (length ?u)) ?u
         else filter (\<lambda>(k, v). not_tiny v) (cap_gross 1 (volatility_target_weights
                (map (\<lambda>s. (s, fill0 (dict_get NaN (level_book (1 / real (length ?u)) ?u) s))) (pn_columns ?w)) (cov ?w) (Fin tv))))"
    using assms(1) inner names same_window [of 90 "returns_panel view" ?u]
    by (simp add: vol_targeted_strategy_def vol_target_weights_def sizing_window_def usable_def Let_def not_le not_less de_Morgan_conj)
  moreover have "filter (\<lambda>(k, v). not_tiny v) (cap_gross 1 (volatility_target_weights
        (map (\<lambda>s. (s, fill0 (dict_get NaN (level_book (1 / real (length ?u)) ?u) s))) (pn_columns ?w)) (cov ?w) (Fin tv)))
      = (if 1 / 10 ^ 9 < ?c then level_book (min ?c (1 / real (length (pn_columns ?w)))) (pn_columns ?w) else [])" if w: "usable ?w"
  proof -
    let ?m = "real (length (pn_columns ?w))"
    note sub = window_columns [of view]
    have m: "0 < ?m" "?m < 10 ^ 9" using w sub(2) assms(5) by (auto simp: usable_def)
    then have "1 / 10 ^ 9 < 1 / ?m" by (intro divide_strict_left_mono) auto
    moreover have c: "0 < ?c" using assms(3) [OF w] assms(4) by (simp add: proper_cov_def)
    moreover have "0 < 1 / real (length ?u)" using assms(1) by simp
    ultimately show ?thesis
      using vol_target_level [OF assms(3) [OF w], of "1 / real (length ?u)" tv] m
      by (simp add: level_restrict [OF sub(1)] cap_gross_level filter_level not_tiny_def)
  qed
  ultimately show ?thesis by (simp add: held_count_def)
qed

lemma sized_even_book:
  assumes "panel_universe view \<noteq> []" "set (panel_universe view) \<subseteq> set (pn_columns (returns_panel view))"
    and "\<not> panel_empty (returns_panel view)"
    and "usable (sizing_window view) \<Longrightarrow> proper_cov (cov (sizing_window view)) (length (pn_columns (sizing_window view))) q"
    and "0 < tv" "length (panel_universe view) < 10 ^ 9"
    and "lim_max_position_weight lims = Fin k" "1 \<le> k * real (held_count view)"
    and "lim_max_gross_exposure lims = 1" "lim_max_net_exposure lims = Fin n" "1 \<le> n"
  shows "sg_target_weights (sized_book_strategy cov (Fin tv) lims None 0 90) view t =
    Inr (if usable (sizing_window view)
         then (if 1 / 10 ^ 9 < tv / (sqrt q * sqrt 252)
               then level_book (min (tv / (sqrt q * sqrt 252)) (1 / real (held_count view))) (pn_columns (sizing_window view)) else [])
         else level_book (1 / real (held_count view)) (panel_universe view))"
proof -
  let ?u = "panel_universe view" and ?w = "sizing_window view" and ?c = "tv / (sqrt q * sqrt 252)"
  have names: "filter (\<lambda>s. s \<in> set (pn_columns (returns_panel view))) ?u = ?u"
    using assms(2) by (simp add: filter_id_conv subset_eq)
  have raw: "tilt_weights None ?u 0 = level_book (1 / real (length ?u)) ?u"
    by (simp add: tilt_weights_def level_book_def)
  let ?even = "map (\<lambda>s. (s, fill0 (dict_get NaN (level_book (1 / real (length ?u)) ?u) s))) (pn_columns ?w)"
  have book: "sg_target_weights (sized_book_strategy cov (Fin tv) lims None 0 90) view t =
    Inr (apply_risk_limits (filter (\<lambda>(k, v). not_tiny v)
           (if usable ?w
            then volatility_target_weights
                   (if 0 < series_sum (vals ?even) then map_vals (\<lambda>v. fdiv v (series_sum (vals ?even))) ?even else ?even)
                   (cov ?w) (Fin tv)
            else map_vals (\<lambda>v. v * 1) (level_book (1 / real (length ?u)) ?u))) lims None)"
    using assms(1,3) names raw
    by (simp add: sized_book_strategy_def size_book_def sizing_window_def usable_def Let_def panel_select_def flt_simps)
  have u: "0 < 1 / real (length ?u)" using assms(1) by simp
  show ?thesis
  proof (cases "usable ?w")
    case w: True
    let ?m = "real (length (pn_columns ?w))"
    have m: "0 < ?m" using w by (auto simp: usable_def)
    have even: "?even = level_book (1 / real (length ?u)) (pn_columns ?w)" by (rule level_restrict [OF window_columns(1)])
    have sum: "series_sum (vals ?even) = Fin (?m * (1 / real (length ?u)))" unfolding even by (rule sum_level)
    have "map_vals (\<lambda>v. fdiv v (series_sum (vals ?even))) ?even = level_book (1 / ?m) (pn_columns ?w)"
      unfolding sum unfolding even using m u by (intro map_vals_level_Fin) simp
    moreover have "0 < series_sum (vals ?even)" unfolding sum zero_flt_def using m u by simp
    ultimately have "sg_target_weights (sized_book_strategy cov (Fin tv) lims None 0 90) view t =
        Inr (apply_risk_limits (if 1 / 10 ^ 9 < ?c then level_book ?c (pn_columns ?w) else []) lims None)"
      using w m vol_target_level [OF assms(4) [OF w], of "1 / ?m" tv] assms(5)
        assms(4) [OF w, unfolded proper_cov_def]
      unfolding book by (simp add: filter_level not_tiny_def)
    moreover have "0 < ?c" using assms(4) [OF w] assms(5) by (simp add: proper_cov_def)
    ultimately show ?thesis using w limits_level [of ?c k "pn_columns ?w" lims n] assms(7-11)
      by (simp add: held_count_def apply_risk_limits_def [of "[]"])
  next
    case w: False
    have "1 / 10 ^ 9 < 1 / real (length ?u)"
      using assms(1,6) by (intro divide_strict_left_mono) (auto simp: of_nat_less_iff [symmetric] simp del: of_nat_less_iff)
    then have "filter (\<lambda>(k, v). not_tiny v) (map_vals (\<lambda>v. v * 1) (level_book (1 / real (length ?u)) ?u))
        = level_book (1 / real (length ?u)) ?u"
      by (subst map_vals_level_Fin) (auto simp: one_flt_def filter_level not_tiny_def)
    then show ?thesis using w u limits_level [of "1 / real (length ?u)" k ?u lims n] assms(7-11)
      unfolding book by (simp add: held_count_def)
  qed
qed

section \<open>The two backtests\<close>

text \<open>A view the comparison covers: no universe, or two rows, a proper estimate and a position cap that the even book
  over the held names respects.\<close>

definition sizable :: "(panel \<Rightarrow> flt list list) \<Rightarrow> real \<Rightarrow> panel \<Rightarrow> bool" where
  "sizable cov k view \<longleftrightarrow> panel_universe view = [] \<or>
     (1 < length (pn_rows view) \<and> length (panel_universe view) < 10 ^ 9 \<and> 1 \<le> k * real (held_count view)
      \<and> (usable (sizing_window view)
          \<longrightarrow> (\<exists>q. proper_cov (cov (sizing_window view)) (length (pn_columns (sizing_window view))) q)))"

lemma returns_of_rows:
  assumes "1 < length (pn_rows view)" "panel_universe view \<noteq> []"
  shows "\<not> panel_empty (returns_panel view)" "set (panel_universe view) \<subseteq> set (pn_columns (returns_panel view))"
proof -
  have e: "\<not> panel_empty view" using assms(2) by (auto simp: panel_universe_def)
  have c: "pn_columns (returns_panel view) = pn_columns view" by (simp add: returns_panel_def pct_change_def Let_def)
  have "length (pn_rows (returns_panel view)) = length (pn_rows view) - 1"
    using e by (simp add: returns_panel_def pct_change_def Let_def)
  then have "pn_rows (returns_panel view) \<noteq> []" using assms(1) by auto
  then show "\<not> panel_empty (returns_panel view)" using c e by (simp add: panel_empty_def)
  show "set (panel_universe view) \<subseteq> set (pn_columns (returns_panel view))"
    unfolding c by (auto simp: panel_universe_def Let_def)
qed

lemma same_targets:
  assumes "sizable cov k view" "0 < tv" "lim_max_position_weight lims = Fin k"
    "lim_max_gross_exposure lims = 1" "lim_max_net_exposure lims = Fin n" "1 \<le> n"
  shows "sg_target_weights (sized_book_strategy cov (Fin tv) lims None 0 90) view t
    = sg_target_weights (vol_targeted_strategy cov equal_weight_strategy (Fin tv) 1 90 name) view t"
proof (cases "panel_universe view = []")
  case True
  then show ?thesis
    by (simp add: sized_book_strategy_def vol_targeted_strategy_def equal_weight_strategy_def equal_weight_target_def
        even_weights_def Let_def)
next
  case False
  then have s: "1 < length (pn_rows view)" "length (panel_universe view) < 10 ^ 9" "1 \<le> k * real (held_count view)"
    using assms(1) by (auto simp: sizable_def)
  obtain q where q: "usable (sizing_window view)
      \<Longrightarrow> proper_cov (cov (sizing_window view)) (length (pn_columns (sizing_window view))) q"
    using assms(1) False unfolding sizable_def by blast
  note r = returns_of_rows [OF s(1) False]
  show ?thesis
    by (rule trans [OF sized_even_book [where cov = cov and q = q and view = view,
          OF False r(2,1) q assms(2) s(2) assms(3) s(3) assms(4-6)]
        governed_even_book [where cov = cov and q = q and view = view, OF False r(2) q assms(2) s(2), symmetric]])
qed

lemma backtest_loop_cong:
  assumes "\<And>t. t \<in> set ts \<Longrightarrow> sg_target_weights a (panel_slice p t) t = sg_target_weights b (panel_slice p t) t"
  shows "backtest_loop a model p returns ts w bt = backtest_loop b model p returns ts w bt"
  using assms by (induction ts arbitrary: w bt) (auto split: sum.splits)

text \<open>C13: the sizer of the live cycle, without a tilt, reproduces the benchmark.  With the gross limit at one, a net limit
  of at least one and a position cap that leaves the even book over the held names alone, the backtest of
  \<open>sized_eqw@vol\<close> is the backtest of \<open>equal_weight@vol\<close> in everything but its name: the net and gross returns, the equity
  curve, the turnover and the summary.\<close>

theorem sized_book_reproduces_the_benchmark:
  assumes "target_vol st = Fin tv" "0 < tv" "max_position_weight st = Fin k" "max_gross_exposure st = 1"
    "max_net_exposure st = Fin n" "1 \<le> n"
    and "\<forall>t \<in> set schedule. sizable (lb_cov L) k (panel_slice p t)"
  shows "backtest_panel (fst (sim_strategies L asc st insider stacked breadth ! 10)) schedule
      (snd (sim_strategies L asc st insider stacked breadth ! 10)) p trading_days
    = map_sum id (\<lambda>r. r\<lparr>br_strategy_name := ''sized_eqw@vol''\<rparr>)
        (backtest_panel (fst (sim_strategies L asc st insider stacked breadth ! 9)) schedule
          (snd (sim_strategies L asc st insider stacked breadth ! 9)) p trading_days)"
proof -
  let ?a = "(sized_book_strategy (lb_cov L) (Fin tv) (sim_limits st) None 0 90)\<lparr>sg_name := ''sized_eqw@vol''\<rparr>"
  let ?b = "vol_targeted_strategy (lb_cov L) equal_weight_strategy (Fin tv) 1 90 ''equal_weight@vol''"
  have books: "sim_strategies L asc st insider stacked breadth ! 10 = (?a, basic_costs default_costs)"
    "sim_strategies L asc st insider stacked breadth ! 9 = (?b, basic_costs default_costs)"
    using assms(1) by (simp_all add: sim_strategies_def governed_def Let_def eval_nat_numeral)
  have "sg_target_weights ?a (panel_slice p t) t = sg_target_weights ?b (panel_slice p t) t" if "t \<in> set schedule" for t
    using same_targets [of "lb_cov L" k "panel_slice p t" tv "sim_limits st" n t "''equal_weight@vol''"] assms that
    by (simp add: sim_limits_def)
  then have "backtest_loop ?a m q r schedule w bt = backtest_loop ?b m q r schedule w bt" if "q = p" for m q r w bt
    using that backtest_loop_cong [of schedule ?a p ?b] by blast
  then show ?thesis unfolding books
    by (simp add: backtest_panel_def Let_def split: sum.splits)
qed

text \<open>Two names whose prices do not move over twenty-two bars, estimated by a unit covariance.\<close>

definition flat_prices :: panel where
  "flat_prices = \<lparr>pn_columns = [''A'', ''B''], pn_rows = map (\<lambda>i. (int i, [Fin 1, Fin 1])) [0..<22]\<rparr>"

definition unit_library :: library where
  "unit_library = sample_library\<lparr>lb_cov := (\<lambda>_. [[Fin 1, Fin 0], [Fin 0, Fin 1]])\<rparr>"

lemma flat_slice: "panel_slice flat_prices 20 = \<lparr>pn_columns = [''A'', ''B''], pn_rows = map (\<lambda>i. (int i, [Fin 1, Fin 1])) [0..<21]\<rparr>"
  by (simp add: panel_slice_def flat_prices_def upt_rec)

lemma flat_view:
  "panel_universe (panel_slice flat_prices 20) = [''A'', ''B'']"
  "sizing_window (panel_slice flat_prices 20) = \<lparr>pn_columns = [''A'', ''B''], pn_rows = map (\<lambda>i. (int i, [Fin 0, Fin 0])) [1..<21]\<rparr>"
  unfolding sizing_window_def flat_slice
  by (simp_all add: panel_universe_def panel_empty_def ffill_def panel_index_def series_of_row_def returns_panel_def pct_change_def
      panel_select_def clean_window_def column_def tail_of_def Let_def upt_rec flt_simps)

lemma flat_sizable: "sizable (lb_cov unit_library) (1 / 2) (panel_slice flat_prices 20)"
proof -
  have "proper_cov (lb_cov unit_library (sizing_window (panel_slice flat_prices 20))) (Suc (Suc 0)) 2"
    unfolding proper_cov_def unit_library_def by (auto intro!: exI [of _ "[[1, 0], [0, 1 :: real]]"])
  moreover have "length (pn_rows (panel_slice flat_prices 20)) = 21" by (simp add: flat_slice)
  ultimately show ?thesis by (auto simp: sizable_def held_count_def flat_view usable_def)
qed

lemma sized_book_reproduces_the_benchmark_witness:
  "backtest_panel (fst (sim_strategies unit_library id (default_settings\<lparr>max_position_weight := Fin (1 / 2)\<rparr>) Map.empty Map.empty 2 ! 10))
     [20] (snd (sim_strategies unit_library id (default_settings\<lparr>max_position_weight := Fin (1 / 2)\<rparr>) Map.empty Map.empty 2 ! 10))
     flat_prices trading_days
   = map_sum id (\<lambda>r. r\<lparr>br_strategy_name := ''sized_eqw@vol''\<rparr>)
       (backtest_panel (fst (sim_strategies unit_library id (default_settings\<lparr>max_position_weight := Fin (1 / 2)\<rparr>) Map.empty Map.empty 2 ! 9))
          [20] (snd (sim_strategies unit_library id (default_settings\<lparr>max_position_weight := Fin (1 / 2)\<rparr>) Map.empty Map.empty 2 ! 9))
          flat_prices trading_days)"
  by (rule sized_book_reproduces_the_benchmark [of _ "1 / 10" "1 / 2" 1])
    (simp_all add: default_settings_def flat_sizable flt_simps)

end
