(* ===== verification/Synthetic.thy ===== *)
theory Synthetic
  imports Parse
begin

text \<open>
  The synthetic prices of the demo and of the dry cycle (\<open>core/synthetic.py\<close>): a random walk per symbol with a common
  factor, one bar per business day.  NumPy's generator is the record \<open>generator\<close>: seeding, and a vector of normal or
  uniform draws with the generator's next state.  Random identifiers are numbered.
\<close>

record 'g generator =
  gn_seed :: "int \<Rightarrow> 'g"
  gn_normal :: "real \<Rightarrow> real \<Rightarrow> nat \<Rightarrow> 'g \<Rightarrow> flt list \<times> 'g"
  gn_uniform :: "real \<Rightarrow> real \<Rightarrow> nat \<Rightarrow> 'g \<Rightarrow> flt list \<times> 'g"

definition synthetic_bar :: "datetime \<Rightarrow> int \<Rightarrow> pydate \<Rightarrow> nat \<Rightarrow> string \<times> flt \<times> flt \<Rightarrow> observation" where
  "synthetic_bar now seed d k bar =
     (case bar of (sy, price, ret) \<Rightarrow>
        (new_obs now ''synthetic'' price_dataset ''equity'' sy None (day_close d) (day_close d)
          [(''close'', PFloat price), (''ret'', PFloat ret)]
          [(''generator'', PStr ''synthetic_price_observations''), (''seed'', PInt seed)])\<lparr>o_id := Uuid4 k\<rparr>)"

text \<open>One day: every price moves by its drift, its share of the day's factor and its own noise; \<open>k\<close> numbers the bars.\<close>

definition synthetic_day ::
  "'g generator \<Rightarrow> datetime \<Rightarrow> int \<Rightarrow> string list \<Rightarrow> flt list \<times> flt list \<times> flt list \<Rightarrow> pydate \<times> flt \<Rightarrow> flt list \<times> nat \<times> 'g
   \<Rightarrow> observation list \<times> (flt list \<times> nat \<times> 'g)" where
  "synthetic_day G now seed symbols params day st =
     (let (drift, beta, vol) = params; (d, factor) = day; (prices, k, g) = st;
          (z, g1) = gn_normal G 0 1 (length symbols) g;
          ret = map2 (+) (map2 (\<lambda>m b. m + b * factor) drift beta) (map2 (*) z vol);
          prices1 = map2 (\<lambda>p r. p * (1 + r)) prices ret;
          bars = zip symbols (zip prices1 ret)
      in (map2 (synthetic_bar now seed d) [k..<k + length bars] bars, (prices1, k + length bars, g1)))"

fun synthetic_walk :: "('d \<Rightarrow> 'st \<Rightarrow> 'a list \<times> 'st) \<Rightarrow> 'd list \<Rightarrow> 'st \<Rightarrow> 'a list" where
  "synthetic_walk step [] st = []"
| "synthetic_walk step (d # dates) st = (let (bars, st1) = step d st in bars @ synthetic_walk step dates st1)"

definition synthetic_price_observations ::
  "'g generator \<Rightarrow> datetime \<Rightarrow> string list \<Rightarrow> pydate \<Rightarrow> nat \<Rightarrow> int \<Rightarrow> flt \<Rightarrow> observation list" where
  "synthetic_price_observations G now symbols start n_days seed start_price =
     (let dates = business_days start n_days; n = length symbols;
          (drift, g1) = gn_normal G (3 / 10000) (2 / 10000) n (gn_seed G seed);
          (vol, g2) = gn_uniform G (1 / 100) (2 / 100) n g1;
          (factor, g3) = gn_normal G 0 (5 / 1000) (length dates) g2;
          (beta, g4) = gn_uniform G (- 1) 1 n g3
      in synthetic_walk (synthetic_day G now seed symbols (drift, beta, vol)) (zip dates factor) (replicate n start_price, 0, g4))"

section \<open>One bar per symbol and business day\<close>

text \<open>A vector of draws has the length that was asked for.\<close>

definition draws_ok :: "'g generator \<Rightarrow> bool" where
  "draws_ok G \<longleftrightarrow> (\<forall>a b n g. length (fst (gn_normal G a b n g)) = n \<and> length (fst (gn_uniform G a b n g)) = n)"

lemma synthetic_bar_fields [simp]:
  "o_entity_id (synthetic_bar now seed d k bar) = fst bar" "o_event_time (synthetic_bar now seed d k bar) = day_close d"
  "o_knowledge_time (synthetic_bar now seed d k bar) = day_close d" "o_id (synthetic_bar now seed d k bar) = Uuid4 k"
  "o_dataset (synthetic_bar now seed d k bar) = price_dataset"
  by (simp_all add: synthetic_bar_def new_obs_def split: prod.splits)

lemma map2_right: "length xs = length ys \<Longrightarrow> map2 (\<lambda>_ y. h y) xs ys = map h ys"
  by (induction xs ys rule: list_induct2) auto

lemma map2_left: "length xs = length ys \<Longrightarrow> map2 (\<lambda>x _. h x) xs ys = map h xs"
  by (induction xs ys rule: list_induct2) auto

lemma bars_of_day:
  assumes "length ks = length bars"
  shows "map (\<lambda>x. (o_entity_id x, o_event_time x)) (map2 (synthetic_bar now seed d) ks bars)
      = map (\<lambda>sy. (sy, day_close d)) (map fst bars)"
    and "map o_id (map2 (synthetic_bar now seed d) ks bars) = map Uuid4 ks"
    and "\<forall>x \<in> set (map2 (synthetic_bar now seed d) ks bars). o_knowledge_time x = o_event_time x \<and> o_dataset x = price_dataset"
  using map2_right [OF assms, of "\<lambda>b. (fst b, day_close d)"] map2_left [OF assms, of Uuid4]
  by (auto simp: comp_def split_def)

lemma synthetic_day_bars:
  assumes "draws_ok G" "length drift = length symbols" "length beta = length symbols" "length vol = length symbols"
    and "length prices = length symbols"
  obtains bars prices1 g1 where
    "synthetic_day G now seed symbols (drift, beta, vol) (d, factor) (prices, k, g)
      = (map2 (synthetic_bar now seed d) [k..<k + length symbols] bars, (prices1, k + length symbols, g1))"
    "length prices1 = length symbols" "map fst bars = symbols" "length bars = length symbols"
proof -
  obtain z g1 where z: "gn_normal G 0 1 (length symbols) g = (z, g1)" by (rule prod.exhaust)
  have zl: "length z = length symbols" using assms(1) z unfolding draws_ok_def by (metis fst_conv)
  define ret where "ret = map2 (+) (map2 (\<lambda>m b. m + b * factor) drift beta) (map2 (*) z vol)"
  define prices1 where "prices1 = map2 (\<lambda>p r. p * (1 + r)) prices ret"
  have len: "length ret = length symbols" "length prices1 = length symbols"
    using assms(2-5) zl by (simp_all add: ret_def prices1_def)
  then have bars: "length (zip symbols (zip prices1 ret)) = length symbols" "map fst (zip symbols (zip prices1 ret)) = symbols"
    by simp_all
  have "synthetic_day G now seed symbols (drift, beta, vol) (d, factor) (prices, k, g)
      = (map2 (synthetic_bar now seed d) [k..<k + length symbols] (zip symbols (zip prices1 ret)), (prices1, k + length symbols, g1))"
    by (simp only: synthetic_day_def Let_def prod.case z ret_def [symmetric] prices1_def [symmetric] bars(1))
  then show ?thesis using that len(2) bars by blast
qed

lemma synthetic_walk_bars:
  assumes "draws_ok G" "length drift = length symbols" "length beta = length symbols" "length vol = length symbols"
    and "length prices = length symbols"
  shows "map (\<lambda>x. (o_entity_id x, o_event_time x)) (synthetic_walk (synthetic_day G now seed symbols (drift, beta, vol)) dfs (prices, k, g))
      = concat (map (\<lambda>df. map (\<lambda>sy. (sy, day_close (fst df))) symbols) dfs)
    \<and> map o_id (synthetic_walk (synthetic_day G now seed symbols (drift, beta, vol)) dfs (prices, k, g))
      = map Uuid4 [k..<k + length dfs * length symbols]
    \<and> (\<forall>x \<in> set (synthetic_walk (synthetic_day G now seed symbols (drift, beta, vol)) dfs (prices, k, g)).
          o_knowledge_time x = o_event_time x \<and> o_dataset x = price_dataset)"
  using assms(5)
proof (induction dfs arbitrary: prices k g)
  case (Cons df dfs)
  obtain d factor where df: "df = (d, factor)" by (rule prod.exhaust)
  obtain bars prices1 g1 where day: "synthetic_day G now seed symbols (drift, beta, vol) (d, factor) (prices, k, g)
      = (map2 (synthetic_bar now seed d) [k..<k + length symbols] bars, (prices1, k + length symbols, g1))"
    and p: "length prices1 = length symbols" and b: "map fst bars = symbols" "length bars = length symbols"
    using synthetic_day_bars [OF assms(1-4) Cons.prems] by metis
  let ?ks = "[k..<k + length symbols]" and ?rest = "synthetic_walk (synthetic_day G now seed symbols (drift, beta, vol)) dfs (prices1, k + length symbols, g1)"
  have walk: "synthetic_walk (synthetic_day G now seed symbols (drift, beta, vol)) (df # dfs) (prices, k, g)
      = map2 (synthetic_bar now seed d) ?ks bars @ ?rest" by (simp add: df day)
  have ks: "length ?ks = length bars" "[k..<k + length (df # dfs) * length symbols]
      = ?ks @ [k + length symbols..<k + length symbols + length dfs * length symbols]"
    using b(2) upt_add_eq_append [of k "k + length symbols" "length dfs * length symbols"] by (simp_all add: add.assoc)
  note ih = Cons.IH [OF p, of "k + length symbols" g1]
  show ?case unfolding walk map_append bars_of_day(1,2) [OF ks(1)] ks(2) b(1)
    using ih bars_of_day(3) [OF ks(1), of now seed d] by (simp add: df ball_Un)
qed simp

text \<open>The walk has one bar for every symbol on every business day, each knowable at the close of its own session
  and with its own identifier, whatever the generator draws.\<close>

theorem synthetic_prices_are_complete:
  assumes "draws_ok G"
  shows "map (\<lambda>x. (o_entity_id x, o_event_time x)) (synthetic_price_observations G now symbols start n_days seed p0)
      = concat (map (\<lambda>d. map (\<lambda>sy. (sy, day_close d)) symbols) (business_days start n_days))
    \<and> distinct (map o_id (synthetic_price_observations G now symbols start n_days seed p0))
    \<and> (\<forall>x \<in> set (synthetic_price_observations G now symbols start n_days seed p0).
          o_knowledge_time x = o_event_time x \<and> o_dataset x = price_dataset)"
proof -
  let ?n = "length symbols" and ?dates = "business_days start n_days"
  obtain drift g1 where d: "gn_normal G (3 / 10000) (2 / 10000) ?n (gn_seed G seed) = (drift, g1)" by (rule prod.exhaust)
  obtain vol g2 where v: "gn_uniform G (1 / 100) (2 / 100) ?n g1 = (vol, g2)" by (rule prod.exhaust)
  obtain factor g3 where f: "gn_normal G 0 (5 / 1000) (length ?dates) g2 = (factor, g3)" by (rule prod.exhaust)
  obtain beta g4 where b: "gn_uniform G (- 1) 1 ?n g3 = (beta, g4)" by (rule prod.exhaust)
  have len: "length drift = ?n" "length vol = ?n" "length factor = length ?dates" "length beta = ?n"
    using assms d v f b unfolding draws_ok_def by (metis fst_conv)+
  have walk: "synthetic_price_observations G now symbols start n_days seed p0
      = synthetic_walk (synthetic_day G now seed symbols (drift, beta, vol)) (zip ?dates factor) (replicate ?n p0, 0, g4)"
    using d v f b by (simp add: synthetic_price_observations_def Let_def)
  have "map (\<lambda>df. map (\<lambda>sy. (sy, day_close (fst df))) symbols) (zip ?dates factor)
      = map (\<lambda>d. map (\<lambda>sy. (sy, day_close d)) symbols) (map fst (zip ?dates factor))"
    by (simp only: map_map comp_def)
  also have "map fst (zip ?dates factor) = ?dates" using len(3) by simp
  finally show ?thesis unfolding walk
    using synthetic_walk_bars [OF assms len(1,4,2), of "replicate ?n p0" now seed "zip ?dates factor" 0 g4]
    by (simp add: distinct_map inj_on_def)
qed

text \<open>A generator whose every draw is zero.\<close>

lemma synthetic_prices_are_complete_witness:
  "map (\<lambda>x. (o_entity_id x, o_event_time x)) (synthetic_price_observations
       \<lparr>gn_seed = (\<lambda>_. ()), gn_normal = (\<lambda>_ _ n g. (replicate n 0, g)), gn_uniform = (\<lambda>_ _ n g. (replicate n 0, g))\<rparr>
       0 [''A'', ''B''] 738521 2 7 100)
   = concat (map (\<lambda>d. map (\<lambda>sy. (sy, day_close d)) [''A'', ''B'']) (business_days 738521 2))"
  by (rule synthetic_prices_are_complete [THEN conjunct1]) (simp add: draws_ok_def)

end
