(* ===== verification/Spec2Isabelle.thy ===== *)
theory Spec2Isabelle
  imports Ingest Execution Confirm Validation Monitor Clients Sleeves DailyBook Backtest Reasoning Study Live Forecast Replay Desk Construction Cli Lab Provision Sizer Synthetic
begin

text \<open>
  A model of market-trader, a paper and live trading system written in Python (\<open>src/src/market_trader/\<close>), and proofs
  about it.  File names below are relative to that directory.

  The system and its parts.  Collectors read prices, filings, news and macro series and turn each fact into an
  observation with two times, when it happened and when it became knowable.  The ingestion gateway checks a batch
  and writes it to the bitemporal store, whose reads at a time never show what was not yet knowable.  Features are
  computed from the store at a time; the learning loop measures each of them against realised returns and weighs it.
  The daily cycle scores the universe, picks names with hysteresis, sizes a book to a volatility target, cuts it to the
  risk limits and hands it to the execution engine, which plans orders against the broker's positions behind a kill
  switch, a drawdown breaker, an order limiter and a sanity check.  Two sleeves (insider purchases, breaking news) and
  an intraday loop trade beside it.  A language-model tier extracts scores from news.  The research side backtests and
  replays the same strategies on point-in-time panels, studies events, corrects for multiple testing and seals a
  holdout.  The command line starts all of it and serves the health endpoint.

  From theories to code, in the order of imports:
    \<^item> Prelude, PyTime, Schema, Parse: Python's floats with NaN and infinities (\<open>flt\<close>), dictionaries in insertion order,
      exceptions as values (\<open>'a res\<close>), calendar and time (\<open>core/time.py\<close>), observations and their deterministic ids
      (\<open>core/schema.py\<close>, \<open>core/identity.py\<close>), text and dynamically typed values.
    \<^item> Store, SqlStore: \<open>storage/bitemporal.py\<close> in memory and \<open>storage/sqlalchemy_store.py\<close>, each an instance of the
      locale \<open>bitemporal_store\<close>.  A client theorem about "a store" holds for both.
    \<^item> Ingest, Feeds, Clients: \<open>collectors/\<close>, from the clients' requests to the gateway.
    \<^item> Broker, PaperBroker, Live: the broker interface (locale \<open>broker\<close>), the paper broker, which interprets it, the
      Alpaca client, and the intraday cycle (\<open>execution/broker.py\<close>, \<open>paper_broker.py\<close>, \<open>alpaca.py\<close>, \<open>runtime/intraday.py\<close>).
    \<^item> Risk, Settings, Engine, Execution: limits and breaker, configuration and preflight, the audit log and the
      execution engine (\<open>portfolio/risk.py\<close>, \<open>config/settings.py\<close>, \<open>runtime/preflight.py\<close>, \<open>execution/engine.py\<close>).
    \<^item> Universe, Signals, Panel, Metrics, Learning: universes and every feature, panels and forward returns, performance
      metrics, grading and measured information coefficients (\<open>universe/\<close>, \<open>features/\<close>, \<open>backtest/pit.py\<close>,
      \<open>backtest/metrics.py\<close>, \<open>runtime/learning.py\<close>, \<open>signal_ic.py\<close>, \<open>scoring.py\<close>).
    \<^item> Allocation, Construction, Cycle, DailyBook: sizing, weighting and the allocators (\<open>portfolio/\<close>), and the daily cycle
      (\<open>runtime/cycle.py\<close>).
    \<^item> Sleeves, Confirm, Monitor: the two sleeves, intraday confirmation and the daily schedule, jobs, metrics, freshness,
      heartbeat and budget (\<open>runtime/insider_sleeve.py\<close>, \<open>news_sleeve.py\<close>, \<open>intraday_confirm.py\<close>, \<open>schedule.py\<close>,
      \<open>orchestration/\<close>, \<open>observability/\<close>).
    \<^item> Validation, Backtest, Replay, Study, Forecast: holdout, splitters and multiple testing, the engine and its
      strategies, the replay of the learning loop and the bootstrap, event studies and episodic memory, the forecaster
      (\<open>backtest/\<close>, \<open>memory/\<close>, \<open>forecasting/\<close>, \<open>features/regime.py\<close>).
    \<^item> Json, Reasoning, Desk: the JSON reader, the language-model tier, and what the desk reads (\<open>reasoning/\<close>,
      \<open>synthesis.py\<close>, \<open>presentation/dashboard_data.py\<close>, \<open>runtime/evaluation.py\<close>).
    \<^item> Cli, Lab, Sizer: every command of \<open>cli.py\<close>, the health server and the workers; the comparison of the live sizer with
      the benchmark that \<open>simulate\<close> promises.
    \<^item> Provision: \<open>infra/digitalocean.py\<close> and \<open>scripts/provision_do.py\<close>.  Synthetic: the seeded walk of
      \<open>core/synthetic.py\<close> that a dry cycle trades on.

  How state and operations correspond.  A class with state is a record and a method a function that returns the new
  record with the result or the exception; \<open>now\<close> is the clock.  Stores and brokers are passed as records of operations
  (\<open>store_ops\<close>, \<open>broker_ops\<close>) with their state, so the same client runs over memory, SQL, paper or Alpaca.  A raise is
  \<open>Inl\<close> of its exception, and the state returned beside it is what had already been changed.  The engine process of
  \<open>serve\<close> is a step relation: polls, signals with their nested handlers, the recursion limit, and the workers' passes
  and ends.  \<open>AttributeError\<close> and \<open>TypeError\<close> are one constructor; log lines are left out.

  What the lemmas show.
    \<^item> Time: reads are point-in-time (Store), SQL and memory agree (SqlStore), panels, backtest, replay and desk see only
      what was knowable (Panel, Backtest, Replay, Desk); ingestion is idempotent (Ingest); training labels, graded
      predictions and splits do not leak (Forecast, Learning, Validation).
    \<^item> Money: every submitted order is sane, planned and within capital, a rebalance reaches its targets, the gates fail
      closed and a drawdown halt is final (Execution, Engine); a fill conserves equity (PaperBroker); limits hold on every
      finite book and the cycle's book passes the engine (Allocation, DailyBook); the daily book leaves the sleeves'
      names alone and exits what it drops (DailyBook).
    \<^item> Evidence: the holdout is a single look, whatever is measured later (Validation, Lab); the false discovery rate
      procedure meets its definition (Validation); event studies and analogs compute what they say (Study).
    \<^item> Language models: a sweep respects its budget and lets through only the two exceptions of reading a reply, an
      analyst panel's signal is bounded, and a NaN reply becomes full conviction (Reasoning).
    \<^item> Behaviour over time: persisted sleeve state is recovered, a news pass opens with discipline, no sleeve's drawdown
      limit has an effect, the news loop ends (Sleeves); the engine's stand-down deadlocks (Cli); backfills resume, with the names they never finish (Cli); provisioning creates at
      most one machine (Provision).
  Several theorems show the code doing other than its comments say: they are stated as what the code does.

  Bounds and fuel.  The JSON reader recurses on fuel \<open>2 * length s + 1\<close>, and \<open>json_fuel\<close> shows that more changes
  nothing; apart from it, \<open>room\<close> is the number of nested brackets (of nested signal handlers, in \<open>serve\<close>) that Python's
  recursion limit leaves, beyond which the result is \<open>RecursionError\<close>.  It is a parameter: every theorem holds for every
  room.  The two loops of hierarchical risk parity take fuel; with one unit per name they end
  (\<open>hierarchical_risk_parity_returns\<close>).
  The news loop, the daily schedule and \<open>iter_bars\<close> are \<open>partial_function (option)\<close>: not returning is \<open>None\<close>, and a claim
  that they return says so.  The provisioning script polls sixty times, as its loop does.  Everything else is total.

  Parameters.  Code outside the repository is an argument: HTTP exchanges, the clock and sleep, SQLAlchemy's row order
  and JSON columns, pandas' sort order among ties, the order Python's sort leaves a list with NaN keys in, the iteration order of a set, the Ledoit-Wolf estimate, Pearson's
  correlation, NumPy's least squares, quantile and generator, SciPy's linkage, scikit-learn's estimators, the
  normal distribution, \<open>format\<close> and \<open>repr\<close> of floats, SHA-1 of the news ids.  Arithmetic on finite floats is exact.

  Not modelled.  \<open>presentation/dashboard_app.py\<close> draws the modelled data with Streamlit; \<open>observability/logging.py\<close> and
  \<open>storage/migrations/\<close> configure structlog and Alembic; argparse reads the arguments (a command takes the record of
  them, with the parser's defaults); threads and sockets are the standard library's, and what a worker runs is modelled as
  the loop it calls.  \<open>scripts/phase0_demo.py\<close> and the tests only call what is modelled.
\<close>

end
